(* ===== verification/Prelude.thy ===== *)
theory Prelude
  imports Main "HOL-Library.Word"
begin

text \<open>
  Shared vocabulary of the development: the ways Rust code stops (a panic), steps over an explicit
  state that may panic, and the combinators the component theories use for a block of statements
  (\<open>seq\<close>), a \<open>for\<close> loop (\<open>for_each\<close>) and a checked value (\<open>and_then\<close>).
\<close>

section \<open>Panics and results\<close>

text \<open>
  Every \<open>assert!\<close>, \<open>unwrap\<close>, out-of-range index, \<open>unreachable!\<close>, \<open>todo!\<close> and
  \<open>panic!\<close> of the source is a value of this type, and so is \<open>handle_alloc_error\<close>;
  \<open>Undefined_Behavior\<close> marks what unsafe code must never do, such as reading an uninitialised slot.
  \<open>Out_Of_Fuel\<close> is the recursion depth bound of the model (the Rust code would overflow its stack on
  a cyclic type).
\<close>

datatype panic =
    Assert_Failed
  | Unwrap_None
  | Index_Out_Of_Range
  | Sub_Overflow
  | Unreachable_Code
  | Todo_Code
  | Explicit_Panic
  | Alloc_Failed
  | Undefined_Behavior
  | Out_Of_Fuel

type_synonym 'a res = "panic + 'a"
type_synonym 's step = "'s \<Rightarrow> panic + 's"

named_theorems res_simps
named_theorems step_simps

definition and_then :: "'a res \<Rightarrow> ('a \<Rightarrow> 'b res) \<Rightarrow> 'b res" where
  "and_then m f = (case m of Inl e \<Rightarrow> Inl e | Inr x \<Rightarrow> f x)"

lemma and_then_Inl [simp]: "and_then (Inl e) f = Inl e"
  by (simp add: and_then_def)

lemma and_then_Inr [simp]: "and_then (Inr x) f = f x"
  by (simp add: and_then_def)

lemma and_then_Inr_right [simp]: "and_then m Inr = m"
  by (cases m) simp_all

lemma and_then_eq_Inr [res_simps]: "and_then m f = Inr y \<longleftrightarrow> (\<exists>x. m = Inr x \<and> f x = Inr y)"
  by (cases m) simp_all

lemma and_then_eq_Inl [res_simps]:
  "and_then m f = Inl e \<longleftrightarrow> m = Inl e \<or> (\<exists>x. m = Inr x \<and> f x = Inl e)"
  by (cases m) auto

definition unwrap :: "'a option \<Rightarrow> 'a res" where
  "unwrap x = (case x of None \<Rightarrow> Inl Unwrap_None | Some v \<Rightarrow> Inr v)"

lemma unwrap_simps [simp]: "unwrap None = Inl Unwrap_None" "unwrap (Some v) = Inr v"
  by (simp_all add: unwrap_def)

lemma unwrap_eq_Inr [res_simps]: "unwrap x = Inr v \<longleftrightarrow> x = Some v"
  by (cases x) simp_all

definition check :: "bool \<Rightarrow> panic \<Rightarrow> 's step" where
  "check b e s = (if b then Inr s else Inl e)"

lemma check_simps [simp]: "check True e s = Inr s" "check False e s = Inl e"
  by (simp_all add: check_def)

section \<open>Sequencing steps\<close>

fun seq :: "'s step list \<Rightarrow> 's step" where
  "seq [] s = Inr s"
| "seq (f # fs) s = and_then (f s) (seq fs)"

definition for_each :: "'a list \<Rightarrow> ('a \<Rightarrow> 's step) \<Rightarrow> 's step" where
  "for_each xs f = seq (map f xs)"

lemma for_each_Nil [simp]: "for_each [] f s = Inr s"
  by (simp add: for_each_def)

lemma for_each_Cons [simp]: "for_each (x # xs) f s = and_then (f x s) (for_each xs f)"
  by (simp add: for_each_def)

lemma seq_append: "seq (fs @ gs) s = and_then (seq fs s) (seq gs)"
  by (induction fs arbitrary: s) (auto simp: and_then_def split: sum.splits)

lemma for_each_append: "for_each (xs @ ys) f s = and_then (for_each xs f s) (for_each ys f)"
  by (simp add: for_each_def seq_append)

text \<open>An invariant kept by each step of a block is kept by the block.\<close>

lemma seq_invariant:
  assumes "seq fs s = Inr s'" and "I s"
    and "\<And>f t t'. f \<in> set fs \<Longrightarrow> I t \<Longrightarrow> f t = Inr t' \<Longrightarrow> I t'"
  shows "I s'"
  using assms
proof (induction fs arbitrary: s)
  case Nil
  then show ?case by simp
next
  case (Cons f fs)
  from Cons.prems(1) obtain t where t: "f s = Inr t" "seq fs t = Inr s'"
    by (auto simp: res_simps)
  have "I t" using Cons.prems(2,3) t(1) by (meson list.set_intros(1))
  then show ?case using Cons.IH [OF t(2)] Cons.prems(3) by (meson list.set_intros(2))
qed

text \<open>Mapping a function that may panic over a list, left to right.\<close>

fun map_res :: "('a \<Rightarrow> 'b res) \<Rightarrow> 'a list \<Rightarrow> 'b list res" where
  "map_res f [] = Inr []"
| "map_res f (x # xs) = and_then (f x) (\<lambda>y. and_then (map_res f xs) (\<lambda>ys. Inr (y # ys)))"

lemma map_res_length: "map_res f xs = Inr ys \<Longrightarrow> length ys = length xs"
  by (induction xs arbitrary: ys) (auto simp: res_simps)

lemma map_res_ok: "(\<And>x. x \<in> set xs \<Longrightarrow> \<exists>y. f x = Inr y) \<Longrightarrow> \<exists>ys. map_res f xs = Inr ys"
proof (induction xs)
  case Nil
  then show ?case by simp
next
  case (Cons x xs)
  then obtain y ys where "f x = Inr y" "map_res f xs = Inr ys"
    by (meson list.set_intros)
  then show ?case by simp
qed

lemma map_res_cong:
  "(\<And>x. x \<in> set xs \<Longrightarrow> f x = g x) \<Longrightarrow> map_res f xs = map_res g xs"
  by (induction xs) (simp_all cong: sum.case_cong)

section \<open>Vectors\<close>

text \<open>\<open>xs[i]\<close> of the source panics out of range.\<close>

definition index :: "'a list \<Rightarrow> nat \<Rightarrow> 'a res" where
  "index xs i = (if i < length xs then Inr (xs ! i) else Inl Index_Out_Of_Range)"

lemma index_eq_Inr [res_simps]: "index xs i = Inr x \<longleftrightarrow> i < length xs \<and> x = xs ! i"
  by (auto simp: index_def)

lemma index_ok [simp]: "i < length xs \<Longrightarrow> index xs i = Inr (xs ! i)"
  by (simp add: index_def)

text \<open>The last \<open>n\<close> elements of a vector, in order, and what is left of it.\<close>

definition tail_n :: "nat \<Rightarrow> 'a list \<Rightarrow> 'a list" where
  "tail_n n xs = drop (length xs - n) xs"

definition but_tail_n :: "nat \<Rightarrow> 'a list \<Rightarrow> 'a list" where
  "but_tail_n n xs = take (length xs - n) xs"

lemma tail_n_append [simp]: "length ys = n \<Longrightarrow> tail_n n (xs @ ys) = ys"
  by (simp add: tail_n_def)

lemma but_tail_n_append [simp]: "length ys = n \<Longrightarrow> but_tail_n n (xs @ ys) = xs"
  by (simp add: but_tail_n_def)

lemma split_last_n:
  assumes "n \<le> length xs"
  obtains ys zs where "xs = ys @ zs" "length zs = n"
proof -
  have "xs = take (length xs - n) xs @ drop (length xs - n) xs" by simp
  moreover have "length (drop (length xs - n) xs) = n" using assms by simp
  ultimately show ?thesis by (rule that)
qed

end
