(* ===== verification/Wit.thy ===== *)
theory Wit
  imports Prelude
begin

text \<open>
  The data of the \<open>wit_parser\<close> crate that the code under \<open>crates/\<close> matches on, with the crate's
  constructors, and the functions of that crate as fields of a record that the definitions take as
  an argument: \<open>wit_parser\<close> is not part of the repository, so nothing is assumed here about what
  those functions compute.
\<close>

section \<open>Types and functions\<close>

type_synonym tid = nat
type_synonym iface_id = nat
type_synonym package_id = nat

datatype ty =
    TBool | TU8 | TS8 | TU16 | TS16 | TU32 | TS32 | TU64 | TS64 | TF32 | TF64 | TChar
  | TString | TErrorContext
  | TId tid

datatype handle = Own tid | Borrow tid

text \<open>
  A field or a case is a name and a type; the payload of a case is optional. Docs, spans and
  stability attributes are not kept.
\<close>

type_synonym field = "string \<times> ty"
type_synonym vcase = "string \<times> ty option"

datatype kind =
    KRecord "field list"
  | KResource
  | KHandle handle
  | KFlags "string list"
  | KTuple "ty list"
  | KVariant "vcase list"
  | KEnum "string list"
  | KOption ty
  | KResult "ty option" "ty option"
  | KList ty
  | KMap ty ty
  | KFixedLengthList ty "32 word"
  | KFuture "ty option"
  | KStream "ty option"
  | KType ty
  | KUnknown

datatype type_owner = OwnerWorld nat | OwnerInterface iface_id | OwnerNone

record type_def =
  td_name :: "string option"
  td_owner :: type_owner
  td_kind :: kind

datatype function_kind =
    Freestanding | AsyncFreestanding
  | Method tid | AsyncMethod tid
  | Static tid | AsyncStatic tid
  | Constructor tid

record func =
  fn_name :: string
  fn_kind :: function_kind
  fn_params :: "field list"
  fn_result :: "ty option"

datatype world_key = WKName string | WKInterface iface_id

datatype world_item = WIFunction func | WIInterface iface_id | WIType tid

record world =
  w_name :: string
  w_imports :: "(world_key \<times> world_item) list"
  w_exports :: "(world_key \<times> world_item) list"
  w_package :: "package_id option"

record iface =
  if_name :: "string option"
  if_types :: "(string \<times> tid) list"
  if_functions :: "(string \<times> func) list"
  if_package :: "package_id option"

record package_name =
  pn_namespace :: string
  pn_name :: string
  pn_version :: "string option"

text \<open>The arenas of \<open>Resolve\<close>: an id is an index; indexing out of range panics.\<close>

record resolve =
  r_types :: "type_def list"
  r_worlds :: "world list"
  r_interfaces :: "iface list"
  r_packages :: "package_name list"

definition type_at :: "resolve \<Rightarrow> tid \<Rightarrow> type_def res" where
  "type_at r i = index (r_types r) i"

abbreviation kind_at :: "resolve \<Rightarrow> tid \<Rightarrow> kind" where
  "kind_at r i \<equiv> td_kind (r_types r ! i)"

abbreviation valid_id :: "resolve \<Rightarrow> tid \<Rightarrow> bool" where
  "valid_id r i \<equiv> i < length (r_types r)"

lemma type_at_ok [simp]: "valid_id r i \<Longrightarrow> type_at r i = Inr (r_types r ! i)"
  by (simp add: type_at_def)

text \<open>A rank on ids, extended to types, witnesses that a set of types is not recursive.\<close>

definition ty_rank :: "(tid \<Rightarrow> nat) \<Rightarrow> ty \<Rightarrow> nat" where
  "ty_rank rk t = (case t of TId i \<Rightarrow> Suc (rk i) | _ \<Rightarrow> 0)"

section \<open>Core wasm types and the functions of the crate\<close>

datatype wasm_type = WI32 | WI64 | WF32 | WF64 | WPointer | WPointerOrI64 | WLength

datatype abi_variant =
    GuestImport | GuestExport | GuestImportAsync | GuestExportAsync | GuestExportAsyncStackful

record wasm_signature =
  sig_params :: "wasm_type list"
  sig_results :: "wasm_type list"
  sig_indirect_params :: bool
  sig_retptr :: bool

datatype int_repr = IU8 | IU16 | IU32 | IU64

datatype flags_repr = FlagsU8 | FlagsU16 | FlagsU32 nat

text \<open>
  \<open>ArchitectureSize\<close> and \<open>Alignment\<close> of the crate are the type parameters \<open>'z\<close> and \<open>'a\<close>.
  \<open>push_flat r t n\<close> is \<open>Resolve::push_flat\<close> on a buffer of \<open>n\<close> slots: whether it succeeded, and
  the buffer's contents.
\<close>

record ('z, 'a) wit_env =
  push_flat :: "resolve \<Rightarrow> ty \<Rightarrow> nat \<Rightarrow> bool \<times> wasm_type list"
  wasm_signature_of :: "resolve \<Rightarrow> abi_variant \<Rightarrow> func \<Rightarrow> wasm_signature"
  flags_repr_of :: "string list \<Rightarrow> flags_repr"
  repr_count :: "flags_repr \<Rightarrow> nat"
  variant_tag :: "vcase list \<Rightarrow> int_repr"
  enum_tag :: "string list \<Rightarrow> int_repr"
  size_zero :: 'z
  size_add :: "'z \<Rightarrow> 'z \<Rightarrow> 'z"
  size_add_bytes :: "'z \<Rightarrow> nat \<Rightarrow> 'z"
  size_of_align :: "'a \<Rightarrow> 'z"
  align_to_arch :: "'z \<Rightarrow> 'a \<Rightarrow> 'z"

record ('z, 'a) size_align =
  sa_size :: "ty \<Rightarrow> 'z"
  sa_align :: "ty \<Rightarrow> 'a"
  sa_field_offsets :: "ty list \<Rightarrow> ('z \<times> ty) list"
  sa_payload_offset :: "int_repr \<Rightarrow> ty option list \<Rightarrow> 'z"
  sa_record :: "ty list \<Rightarrow> 'z \<times> 'a"
  sa_params :: "ty list \<Rightarrow> 'z \<times> 'a"

end
