(* ===== verification/Abi_Instruction.thy ===== *)
theory Abi_Instruction
  imports Wit
begin

text \<open>
  \<open>crates/core/src/abi.rs\<close>: the abstract instructions, how many operands each pops and how many
  results it pushes, the bitcasts between flat core types, and the small enums of that file.
\<close>

section \<open>Bitcasts\<close>

datatype bitcast =
    F32ToI32 | F64ToI64 | I32ToI64 | F32ToI64
  | I32ToF32 | I64ToF64 | I64ToI32 | I64ToF32
  | P64ToI64 | I64ToP64 | P64ToP | PToP64
  | I32ToP | PToI32 | PToL | LToP
  | I32ToL | LToI32 | I64ToL | LToI64
  | Sequence bitcast bitcast
  | NoCast

text \<open>
  \<open>cast\<close>, arm by arm in the source's order; \<open>unreachable!\<close> is the last arm. The recursive arms
  go through \<open>i64\<close> or \<open>i32\<close>, which is what the measure of the termination proof counts.
\<close>

definition cast_seq :: "bitcast res \<Rightarrow> bitcast res \<Rightarrow> bitcast res" where
  "cast_seq a b = and_then a (\<lambda>x. and_then b (\<lambda>y. Inr (Sequence x y)))"

definition cast_rank :: "wasm_type \<Rightarrow> wasm_type \<Rightarrow> nat" where
  "cast_rank a b =
     (if a = WI64 \<or> b = WI64 then 0
      else if a = WPointerOrI64 \<or> b = WPointerOrI64 then 2
      else if (a = WF32) \<noteq> (b = WF32) \<and> a \<noteq> WI32 \<and> b \<noteq> WI32 then 1 else 0)"

function (sequential) cast :: "wasm_type \<Rightarrow> wasm_type \<Rightarrow> bitcast res" where
  "cast WI32 WI32 = Inr NoCast"
| "cast WI64 WI64 = Inr NoCast"
| "cast WF32 WF32 = Inr NoCast"
| "cast WF64 WF64 = Inr NoCast"
| "cast WPointer WPointer = Inr NoCast"
| "cast WPointerOrI64 WPointerOrI64 = Inr NoCast"
| "cast WLength WLength = Inr NoCast"
| "cast WI32 WI64 = Inr I32ToI64"
| "cast WF32 WI32 = Inr F32ToI32"
| "cast WF64 WI64 = Inr F64ToI64"
| "cast WI64 WI32 = Inr I64ToI32"
| "cast WI32 WF32 = Inr I32ToF32"
| "cast WI64 WF64 = Inr I64ToF64"
| "cast WF32 WI64 = Inr F32ToI64"
| "cast WI64 WF32 = Inr I64ToF32"
| "cast WI64 WPointerOrI64 = Inr I64ToP64"
| "cast WPointer WPointerOrI64 = Inr PToP64"
| "cast from WPointerOrI64 = cast_seq (cast from WI64) (cast WI64 WPointerOrI64)"
| "cast WPointerOrI64 WI64 = Inr P64ToI64"
| "cast WPointerOrI64 WPointer = Inr P64ToP"
| "cast WPointerOrI64 to = cast_seq (cast WPointerOrI64 WI64) (cast WI64 to)"
| "cast WI32 WPointer = Inr I32ToP"
| "cast WPointer WI32 = Inr PToI32"
| "cast WI32 WLength = Inr I32ToL"
| "cast WLength WI32 = Inr LToI32"
| "cast WI64 WLength = Inr I64ToL"
| "cast WLength WI64 = Inr LToI64"
| "cast WPointer WLength = Inr PToL"
| "cast WLength WPointer = Inr LToP"
| "cast WF32 WPointer = cast_seq (cast WF32 WI32) (cast WI32 WPointer)"
| "cast WF32 WLength = cast_seq (cast WF32 WI32) (cast WI32 WLength)"
| "cast WPointer WF32 = cast_seq (cast WPointer WI32) (cast WI32 WF32)"
| "cast WLength WF32 = cast_seq (cast WLength WI32) (cast WI32 WF32)"
| "cast _ _ = Inl Unreachable_Code"
  by pat_completeness auto
termination
  by (relation "measure (\<lambda>(a, b). cast_rank a b)") (simp_all add: cast_rank_def)

section \<open>Small enums\<close>

datatype lift_lower = LiftArgsLowerResults | LowerArgsLiftResults

datatype realloc = ReallocNone | ReallocExport string

datatype deallocate_what = DeallocLists | DeallocListsAndOwn

fun handles :: "deallocate_what \<Rightarrow> bool" where
  "handles DeallocLists = False"
| "handles DeallocListsAndOwn = True"

section \<open>Instructions\<close>

text \<open>
  \<open>Instruction\<close>, in the order of the source. The \<open>&'a\<close> references to types, records, flags and
  the like are the values themselves.
\<close>

datatype (plugins only: size) (dead 'z, dead 'a) instruction =
    GetArg nat
  | I32Const "32 word"
  | Bitcasts "bitcast list"
  | ConstZero "wasm_type list"
  | I32Load 'z | I32Load8U 'z | I32Load8S 'z | I32Load16U 'z | I32Load16S 'z
  | I64Load 'z | F32Load 'z | F64Load 'z | PointerLoad 'z | LengthLoad 'z
  | I32Store 'z | I32Store8 'z | I32Store16 'z | I64Store 'z | F32Store 'z | F64Store 'z
  | PointerStore 'z | LengthStore 'z
  | I32FromChar | I64FromU64 | I64FromS64 | I32FromU32 | I32FromS32 | I32FromU16 | I32FromS16
  | I32FromU8 | I32FromS8 | CoreF32FromF32 | CoreF64FromF64
  | S8FromI32 | U8FromI32 | S16FromI32 | U16FromI32 | S32FromI32 | U32FromI32 | S64FromI64
  | U64FromI64 | CharFromI32 | F32FromCoreF32 | F64FromCoreF64
  | BoolFromI32 | I32FromBool
  | ListCanonLower ty "string option"
  | StringLower "string option"
  | ListLower ty "string option"
  | ListCanonLift ty tid
  | StringLift
  | ListLift ty tid
  | MapLower ty ty "string option"
  | MapLift ty ty tid
  | FixedLengthListLift ty "32 word" tid
  | FixedLengthListLower ty "32 word" tid
  | FixedLengthListLowerToMemory ty "32 word" tid
  | FixedLengthListLiftFromMemory ty "32 word" tid
  | IterElem ty
  | IterMapKey ty
  | IterMapValue ty
  | IterBasePointer
  | RecordLower "field list" string tid
  | RecordLift "field list" string tid
  | HandleLower handle string tid
  | HandleLift handle string tid
  | FutureLower "ty option" tid
  | FutureLift "ty option" tid
  | StreamLower "ty option" tid
  | StreamLift "ty option" tid
  | ErrorContextLower
  | ErrorContextLift
  | TupleLower "ty list" tid
  | TupleLift "ty list" tid
  | FlagsLower "string list" string tid
  | FlagsLift "string list" string tid
  | VariantPayloadName
  | VariantLower "vcase list" string tid "wasm_type list"
  | VariantLift "vcase list" string tid
  | EnumLower "string list" string tid
  | EnumLift "string list" string tid
  | OptionLower ty tid "wasm_type list"
  | OptionLift ty tid
  | ResultLower "ty option" "ty option" tid "wasm_type list"
  | ResultLift "ty option" "ty option" tid
  | CallWasm string wasm_signature
  | CallInterface func bool
  | Return nat func
  | Malloc string 'z 'a
  | GuestDeallocate 'z 'a
  | GuestDeallocateString
  | GuestDeallocateList ty
  | GuestDeallocateMap ty ty
  | GuestDeallocateVariant nat
  | DropHandle ty
  | AsyncTaskReturn string "wasm_type list"
  | Flush nat

text \<open>
  \<open>operands_len\<close> and \<open>results_len\<close> are the \<open>[popped] => [pushed]\<close> annotations of the source.
\<close>

definition operands_len :: "('z, 'a) wit_env \<Rightarrow> ('z, 'a) instruction \<Rightarrow> nat" where
  "operands_len E i =
     (case i of
        GetArg _ \<Rightarrow> 0
      | I32Const _ \<Rightarrow> 0
      | Bitcasts casts \<Rightarrow> length casts
      | ConstZero _ \<Rightarrow> 0
      | I32Store _ \<Rightarrow> 2
      | I32Store8 _ \<Rightarrow> 2
      | I32Store16 _ \<Rightarrow> 2
      | I64Store _ \<Rightarrow> 2
      | F32Store _ \<Rightarrow> 2
      | F64Store _ \<Rightarrow> 2
      | PointerStore _ \<Rightarrow> 2
      | LengthStore _ \<Rightarrow> 2
      | ListCanonLift _ _ \<Rightarrow> 2
      | StringLift \<Rightarrow> 2
      | ListLift _ _ \<Rightarrow> 2
      | MapLift _ _ _ \<Rightarrow> 2
      | FixedLengthListLift _ n _ \<Rightarrow> unat n
      | FixedLengthListLowerToMemory _ _ _ \<Rightarrow> 2
      | IterElem _ \<Rightarrow> 0
      | IterMapKey _ \<Rightarrow> 0
      | IterMapValue _ \<Rightarrow> 0
      | IterBasePointer \<Rightarrow> 0
      | RecordLift fs _ _ \<Rightarrow> length fs
      | TupleLift tys _ \<Rightarrow> length tys
      | FlagsLift flags _ _ \<Rightarrow> repr_count E (flags_repr_of E flags)
      | VariantPayloadName \<Rightarrow> 0
      | CallWasm _ sig \<Rightarrow> length (sig_params sig)
      | CallInterface f _ \<Rightarrow> length (fn_params f)
      | Return amt _ \<Rightarrow> amt
      | Malloc _ _ _ \<Rightarrow> 0
      | GuestDeallocateString \<Rightarrow> 2
      | GuestDeallocateList _ \<Rightarrow> 2
      | GuestDeallocateMap _ _ \<Rightarrow> 2
      | AsyncTaskReturn _ params \<Rightarrow> length params
      | Flush amt \<Rightarrow> amt
      | _ \<Rightarrow> 1)"

definition results_len :: "('z, 'a) wit_env \<Rightarrow> ('z, 'a) instruction \<Rightarrow> nat" where
  "results_len E i =
     (case i of
        Bitcasts casts \<Rightarrow> length casts
      | ConstZero tys \<Rightarrow> length tys
      | I32Store _ \<Rightarrow> 0
      | I32Store8 _ \<Rightarrow> 0
      | I32Store16 _ \<Rightarrow> 0
      | I64Store _ \<Rightarrow> 0
      | F32Store _ \<Rightarrow> 0
      | F64Store _ \<Rightarrow> 0
      | PointerStore _ \<Rightarrow> 0
      | LengthStore _ \<Rightarrow> 0
      | ListCanonLower _ _ \<Rightarrow> 2
      | StringLower _ \<Rightarrow> 2
      | ListLower _ _ \<Rightarrow> 2
      | MapLower _ _ _ \<Rightarrow> 2
      | FixedLengthListLower _ n _ \<Rightarrow> unat n
      | FixedLengthListLowerToMemory _ _ _ \<Rightarrow> 0
      | RecordLower fs _ _ \<Rightarrow> length fs
      | TupleLower tys _ \<Rightarrow> length tys
      | FlagsLower flags _ _ \<Rightarrow> repr_count E (flags_repr_of E flags)
      | VariantLower _ _ _ results \<Rightarrow> length results
      | OptionLower _ _ results \<Rightarrow> length results
      | ResultLower _ _ _ results \<Rightarrow> length results
      | CallWasm _ sig \<Rightarrow> length (sig_results sig)
      | CallInterface f _ \<Rightarrow> (if fn_result f = None then 0 else 1)
      | Return _ _ \<Rightarrow> 0
      | GuestDeallocate _ _ \<Rightarrow> 0
      | GuestDeallocateString \<Rightarrow> 0
      | GuestDeallocateList _ \<Rightarrow> 0
      | GuestDeallocateMap _ _ \<Rightarrow> 0
      | GuestDeallocateVariant _ \<Rightarrow> 0
      | DropHandle _ \<Rightarrow> 0
      | AsyncTaskReturn _ _ \<Rightarrow> 0
      | Flush amt \<Rightarrow> amt
      | _ \<Rightarrow> 1)"

text \<open>The two tables as rewrite rules.\<close>

lemma operands_len_simps [simp]:
  "operands_len E (GetArg a1) = 0"
  "operands_len E (I32Const a2) = 0"
  "operands_len E (Bitcasts casts3) = length casts3"
  "operands_len E (ConstZero a4) = 0"
  "operands_len E (I32Load a5) = 1"
  "operands_len E (I32Load8U a6) = 1"
  "operands_len E (I32Load8S a7) = 1"
  "operands_len E (I32Load16U a8) = 1"
  "operands_len E (I32Load16S a9) = 1"
  "operands_len E (I64Load a10) = 1"
  "operands_len E (F32Load a11) = 1"
  "operands_len E (F64Load a12) = 1"
  "operands_len E (PointerLoad a13) = 1"
  "operands_len E (LengthLoad a14) = 1"
  "operands_len E (I32Store a15) = 2"
  "operands_len E (I32Store8 a16) = 2"
  "operands_len E (I32Store16 a17) = 2"
  "operands_len E (I64Store a18) = 2"
  "operands_len E (F32Store a19) = 2"
  "operands_len E (F64Store a20) = 2"
  "operands_len E (PointerStore a21) = 2"
  "operands_len E (LengthStore a22) = 2"
  "operands_len E I32FromChar = 1"
  "operands_len E I64FromU64 = 1"
  "operands_len E I64FromS64 = 1"
  "operands_len E I32FromU32 = 1"
  "operands_len E I32FromS32 = 1"
  "operands_len E I32FromU16 = 1"
  "operands_len E I32FromS16 = 1"
  "operands_len E I32FromU8 = 1"
  "operands_len E I32FromS8 = 1"
  "operands_len E CoreF32FromF32 = 1"
  "operands_len E CoreF64FromF64 = 1"
  "operands_len E S8FromI32 = 1"
  "operands_len E U8FromI32 = 1"
  "operands_len E S16FromI32 = 1"
  "operands_len E U16FromI32 = 1"
  "operands_len E S32FromI32 = 1"
  "operands_len E U32FromI32 = 1"
  "operands_len E S64FromI64 = 1"
  "operands_len E U64FromI64 = 1"
  "operands_len E CharFromI32 = 1"
  "operands_len E F32FromCoreF32 = 1"
  "operands_len E F64FromCoreF64 = 1"
  "operands_len E BoolFromI32 = 1"
  "operands_len E I32FromBool = 1"
  "operands_len E (ListCanonLower a47 b47) = 1"
  "operands_len E (StringLower a48) = 1"
  "operands_len E (ListLower a49 b49) = 1"
  "operands_len E (ListCanonLift a50 b50) = 2"
  "operands_len E StringLift = 2"
  "operands_len E (ListLift a52 b52) = 2"
  "operands_len E (MapLower a53 b53 c53) = 1"
  "operands_len E (MapLift a54 b54 c54) = 2"
  "operands_len E (FixedLengthListLift a55 n55 c55) = unat n55"
  "operands_len E (FixedLengthListLower a56 b56 c56) = 1"
  "operands_len E (FixedLengthListLowerToMemory a57 b57 c57) = 2"
  "operands_len E (FixedLengthListLiftFromMemory a58 b58 c58) = 1"
  "operands_len E (IterElem a59) = 0"
  "operands_len E (IterMapKey a60) = 0"
  "operands_len E (IterMapValue a61) = 0"
  "operands_len E IterBasePointer = 0"
  "operands_len E (RecordLower a63 b63 c63) = 1"
  "operands_len E (RecordLift fs64 b64 c64) = length fs64"
  "operands_len E (HandleLower a65 b65 c65) = 1"
  "operands_len E (HandleLift a66 b66 c66) = 1"
  "operands_len E (FutureLower a67 b67) = 1"
  "operands_len E (FutureLift a68 b68) = 1"
  "operands_len E (StreamLower a69 b69) = 1"
  "operands_len E (StreamLift a70 b70) = 1"
  "operands_len E ErrorContextLower = 1"
  "operands_len E ErrorContextLift = 1"
  "operands_len E (TupleLower a73 b73) = 1"
  "operands_len E (TupleLift tys74 b74) = length tys74"
  "operands_len E (FlagsLower a75 b75 c75) = 1"
  "operands_len E (FlagsLift flags76 b76 c76) = repr_count E (flags_repr_of E flags76)"
  "operands_len E VariantPayloadName = 0"
  "operands_len E (VariantLower a78 b78 c78 d78) = 1"
  "operands_len E (VariantLift a79 b79 c79) = 1"
  "operands_len E (EnumLower a80 b80 c80) = 1"
  "operands_len E (EnumLift a81 b81 c81) = 1"
  "operands_len E (OptionLower a82 b82 c82) = 1"
  "operands_len E (OptionLift a83 b83) = 1"
  "operands_len E (ResultLower a84 b84 c84 d84) = 1"
  "operands_len E (ResultLift a85 b85 c85) = 1"
  "operands_len E (CallWasm a86 sig86) = length (sig_params sig86)"
  "operands_len E (CallInterface f87 b87) = length (fn_params f87)"
  "operands_len E (Return amt88 b88) = amt88"
  "operands_len E (Malloc a89 b89 c89) = 0"
  "operands_len E (GuestDeallocate a90 b90) = 1"
  "operands_len E GuestDeallocateString = 2"
  "operands_len E (GuestDeallocateList a92) = 2"
  "operands_len E (GuestDeallocateMap a93 b93) = 2"
  "operands_len E (GuestDeallocateVariant a94) = 1"
  "operands_len E (DropHandle a95) = 1"
  "operands_len E (AsyncTaskReturn a96 params96) = length params96"
  "operands_len E (Flush amt97) = amt97"
  by (simp_all add: operands_len_def)

lemma results_len_simps [simp]:
  "results_len E (GetArg a98) = 1"
  "results_len E (I32Const a99) = 1"
  "results_len E (Bitcasts casts100) = length casts100"
  "results_len E (ConstZero tys101) = length tys101"
  "results_len E (I32Load a102) = 1"
  "results_len E (I32Load8U a103) = 1"
  "results_len E (I32Load8S a104) = 1"
  "results_len E (I32Load16U a105) = 1"
  "results_len E (I32Load16S a106) = 1"
  "results_len E (I64Load a107) = 1"
  "results_len E (F32Load a108) = 1"
  "results_len E (F64Load a109) = 1"
  "results_len E (PointerLoad a110) = 1"
  "results_len E (LengthLoad a111) = 1"
  "results_len E (I32Store a112) = 0"
  "results_len E (I32Store8 a113) = 0"
  "results_len E (I32Store16 a114) = 0"
  "results_len E (I64Store a115) = 0"
  "results_len E (F32Store a116) = 0"
  "results_len E (F64Store a117) = 0"
  "results_len E (PointerStore a118) = 0"
  "results_len E (LengthStore a119) = 0"
  "results_len E I32FromChar = 1"
  "results_len E I64FromU64 = 1"
  "results_len E I64FromS64 = 1"
  "results_len E I32FromU32 = 1"
  "results_len E I32FromS32 = 1"
  "results_len E I32FromU16 = 1"
  "results_len E I32FromS16 = 1"
  "results_len E I32FromU8 = 1"
  "results_len E I32FromS8 = 1"
  "results_len E CoreF32FromF32 = 1"
  "results_len E CoreF64FromF64 = 1"
  "results_len E S8FromI32 = 1"
  "results_len E U8FromI32 = 1"
  "results_len E S16FromI32 = 1"
  "results_len E U16FromI32 = 1"
  "results_len E S32FromI32 = 1"
  "results_len E U32FromI32 = 1"
  "results_len E S64FromI64 = 1"
  "results_len E U64FromI64 = 1"
  "results_len E CharFromI32 = 1"
  "results_len E F32FromCoreF32 = 1"
  "results_len E F64FromCoreF64 = 1"
  "results_len E BoolFromI32 = 1"
  "results_len E I32FromBool = 1"
  "results_len E (ListCanonLower a144 b144) = 2"
  "results_len E (StringLower a145) = 2"
  "results_len E (ListLower a146 b146) = 2"
  "results_len E (ListCanonLift a147 b147) = 1"
  "results_len E StringLift = 1"
  "results_len E (ListLift a149 b149) = 1"
  "results_len E (MapLower a150 b150 c150) = 2"
  "results_len E (MapLift a151 b151 c151) = 1"
  "results_len E (FixedLengthListLift a152 b152 c152) = 1"
  "results_len E (FixedLengthListLower a153 n153 c153) = unat n153"
  "results_len E (FixedLengthListLowerToMemory a154 b154 c154) = 0"
  "results_len E (FixedLengthListLiftFromMemory a155 b155 c155) = 1"
  "results_len E (IterElem a156) = 1"
  "results_len E (IterMapKey a157) = 1"
  "results_len E (IterMapValue a158) = 1"
  "results_len E IterBasePointer = 1"
  "results_len E (RecordLower fs160 b160 c160) = length fs160"
  "results_len E (RecordLift a161 b161 c161) = 1"
  "results_len E (HandleLower a162 b162 c162) = 1"
  "results_len E (HandleLift a163 b163 c163) = 1"
  "results_len E (FutureLower a164 b164) = 1"
  "results_len E (FutureLift a165 b165) = 1"
  "results_len E (StreamLower a166 b166) = 1"
  "results_len E (StreamLift a167 b167) = 1"
  "results_len E ErrorContextLower = 1"
  "results_len E ErrorContextLift = 1"
  "results_len E (TupleLower tys170 b170) = length tys170"
  "results_len E (TupleLift a171 b171) = 1"
  "results_len E (FlagsLower flags172 b172 c172) = repr_count E (flags_repr_of E flags172)"
  "results_len E (FlagsLift a173 b173 c173) = 1"
  "results_len E VariantPayloadName = 1"
  "results_len E (VariantLower a175 b175 c175 results175) = length results175"
  "results_len E (VariantLift a176 b176 c176) = 1"
  "results_len E (EnumLower a177 b177 c177) = 1"
  "results_len E (EnumLift a178 b178 c178) = 1"
  "results_len E (OptionLower a179 b179 results179) = length results179"
  "results_len E (OptionLift a180 b180) = 1"
  "results_len E (ResultLower a181 b181 c181 results181) = length results181"
  "results_len E (ResultLift a182 b182 c182) = 1"
  "results_len E (CallWasm a183 sig183) = length (sig_results sig183)"
  "results_len E (CallInterface f184 b184) = (if fn_result f184 = None then 0 else 1)"
  "results_len E (Return a185 b185) = 0"
  "results_len E (Malloc a186 b186 c186) = 1"
  "results_len E (GuestDeallocate a187 b187) = 0"
  "results_len E GuestDeallocateString = 0"
  "results_len E (GuestDeallocateList a189) = 0"
  "results_len E (GuestDeallocateMap a190 b190) = 0"
  "results_len E (GuestDeallocateVariant a191) = 0"
  "results_len E (DropHandle a192) = 0"
  "results_len E (AsyncTaskReturn a193 b193) = 0"
  "results_len E (Flush amt194) = amt194"
  by (simp_all add: results_len_def)

section \<open>Flattening with a bound\<close>

definition MAX_FLAT_PARAMS :: nat where
  "MAX_FLAT_PARAMS = 16"

definition MAX_FLAT_ASYNC_PARAMS :: nat where
  "MAX_FLAT_ASYNC_PARAMS = 4"

definition flat_types ::
    "('z, 'a) wit_env \<Rightarrow> resolve \<Rightarrow> ty \<Rightarrow> nat option \<Rightarrow> wasm_type list option" where
  "flat_types E r t max_params =
     (let m = (case max_params of None \<Rightarrow> MAX_FLAT_PARAMS | Some m \<Rightarrow> m);
          (ok, flat) = push_flat E r t m
      in if ok then Some flat else None)"

end
