(* ===== verification/Abi_Generator.thy ===== *)
theory Abi_Generator
  imports Abi_Instruction
begin

text \<open>
  \<open>crates/core/src/abi.rs\<close>: the \<open>Bindgen\<close> trait and the \<open>Generator\<close>'s stack machine: \<open>emit\<close>,
  blocks, and the lowering and lifting of values on the stack and in linear memory.

  The mutually recursive methods take a fuel argument, one unit per call; with no fuel left they
  panic with \<open>Out_Of_Fuel\<close>. The theory \<open>Abi_Stack\<close> proves how much fuel is enough for a type. The
  body of each recursive method is a definition of its own, whose first parameters are the
  recursive calls.
\<close>

section \<open>The Bindgen trait and the generator's state\<close>

text \<open>
  \<open>Bindgen\<close> is the interface a language backend implements; \<open>'b\<close> is the backend's own state and
  \<open>'o\<close> its \<open>Operand\<close>. \<open>bg_emit\<close> returns what it pushed onto \<open>results\<close>.
\<close>

record ('b, 'o, 'z, 'a) bindgen =
  bg_emit :: "'b \<Rightarrow> resolve \<Rightarrow> ('z, 'a) instruction \<Rightarrow> 'o list \<Rightarrow> 'b \<times> 'o list"
  bg_return_pointer :: "'b \<Rightarrow> 'z \<Rightarrow> 'a \<Rightarrow> 'b \<times> 'o"
  bg_push_block :: "'b \<Rightarrow> 'b"
  bg_finish_block :: "'b \<Rightarrow> 'o list \<Rightarrow> 'b"
  bg_sizes :: "'b \<Rightarrow> ('z, 'a) size_align"
  bg_is_list_canonical :: "'b \<Rightarrow> resolve \<Rightarrow> ty \<Rightarrow> bool"

text \<open>What a \<open>Generator\<close> borrows and never changes: the crate's functions, the trait, the types.\<close>

record ('b, 'o, 'z, 'a) ctx =
  cx_env :: "('z, 'a) wit_env"
  cx_bindgen :: "('b, 'o, 'z, 'a) bindgen"
  cx_resolve :: resolve

text \<open>
  \<open>Generator\<close>. The vectors \<open>operands\<close> and \<open>results\<close> of the source are scratch space that every
  use clears first, so they are local to \<open>emit\<close> and \<open>finish_block\<close> here. The last element of
  \<open>g_stack\<close> is the top of the stack.
\<close>

record ('b, 'o) gen =
  g_bindgen :: 'b
  g_stack :: "'o list"
  g_return_pointer :: "'o option"
  g_realloc :: "realloc option"

definition gen_new :: "'b \<Rightarrow> ('b, 'o) gen" where
  "gen_new b = \<lparr>g_bindgen = b, g_stack = [], g_return_pointer = None, g_realloc = None\<rparr>"

section \<open>Stack primitives\<close>

definition push :: "'o \<Rightarrow> ('b, 'o) gen step" where
  "push v g = Inr (g\<lparr>g_stack := g_stack g @ [v]\<rparr>)"

definition push_all :: "'o list \<Rightarrow> ('b, 'o) gen step" where
  "push_all vs g = Inr (g\<lparr>g_stack := g_stack g @ vs\<rparr>)"

text \<open>\<open>let v = self.stack.pop().unwrap()\<close>, then the rest of the block.\<close>

definition with_pop :: "('o \<Rightarrow> ('b, 'o) gen step) \<Rightarrow> ('b, 'o) gen step" where
  "with_pop f g =
     (if g_stack g = [] then Inl Unwrap_None
      else f (last (g_stack g)) (g\<lparr>g_stack := butlast (g_stack g)\<rparr>))"

text \<open>\<open>self.stack.drain(self.stack.len() - n ..)\<close>, then the rest of the block.\<close>

definition with_drain :: "nat \<Rightarrow> ('o list \<Rightarrow> ('b, 'o) gen step) \<Rightarrow> ('b, 'o) gen step" where
  "with_drain n f g =
     (if length (g_stack g) < n then Inl Sub_Overflow
      else f (tail_n n (g_stack g)) (g\<lparr>g_stack := but_tail_n n (g_stack g)\<rparr>))"

definition with_res :: "'x res \<Rightarrow> ('x \<Rightarrow> 's step) \<Rightarrow> 's step" where
  "with_res m f g = and_then m (\<lambda>x. f x g)"

abbreviation with_type :: "('b, 'o, 'z, 'a) ctx \<Rightarrow> tid \<Rightarrow> (type_def \<Rightarrow> 's step) \<Rightarrow> 's step" where
  "with_type cx i f \<equiv> with_res (type_at (cx_resolve cx) i) f"

abbreviation flat :: "('b, 'o, 'z, 'a) ctx \<Rightarrow> ty \<Rightarrow> wasm_type list res" where
  "flat cx t \<equiv> unwrap (flat_types (cx_env cx) (cx_resolve cx) t None)"

text \<open>\<open>self.bindgen.sizes()\<close> at this point of the run.\<close>

definition with_sizes ::
    "('b, 'o, 'z, 'a) ctx \<Rightarrow> (('z, 'a) size_align \<Rightarrow> ('b, 'o) gen step) \<Rightarrow> ('b, 'o) gen step" where
  "with_sizes cx f g = f (bg_sizes (cx_bindgen cx) (g_bindgen g)) g"

section \<open>Emitting an instruction, blocks\<close>

definition emit :: "('b, 'o, 'z, 'a) ctx \<Rightarrow> ('z, 'a) instruction \<Rightarrow> ('b, 'o) gen step" where
  "emit cx inst g =
     (let n = operands_len (cx_env cx) inst in
      if length (g_stack g) < n then Inl Assert_Failed
      else
        (let (b, results) =
             bg_emit (cx_bindgen cx) (g_bindgen g) (cx_resolve cx) inst (tail_n n (g_stack g)) in
         if length results \<noteq> results_len (cx_env cx) inst then Inl Assert_Failed
         else Inr (g\<lparr>g_bindgen := b, g_stack := but_tail_n n (g_stack g) @ results\<rparr>)))"

definition push_block :: "('b, 'o, 'z, 'a) ctx \<Rightarrow> ('b, 'o) gen step" where
  "push_block cx g = Inr (g\<lparr>g_bindgen := bg_push_block (cx_bindgen cx) (g_bindgen g)\<rparr>)"

definition finish_block :: "('b, 'o, 'z, 'a) ctx \<Rightarrow> nat \<Rightarrow> ('b, 'o) gen step" where
  "finish_block cx n g =
     (if length (g_stack g) < n then Inl Assert_Failed
      else Inr (g\<lparr>g_bindgen := bg_finish_block (cx_bindgen cx) (g_bindgen g) (tail_n n (g_stack g)),
                 g_stack := but_tail_n n (g_stack g)\<rparr>))"

text \<open>\<open>list_realloc\<close>: the export name of the allocator for a list that is lowered.\<close>

definition list_realloc :: "realloc option \<Rightarrow> string option res" where
  "list_realloc ro =
     (case ro of
        None \<Rightarrow> Inl Unwrap_None
      | Some ReallocNone \<Rightarrow> Inr None
      | Some (ReallocExport s) \<Rightarrow> Inr (Some s))"

definition with_list_realloc :: "(string option \<Rightarrow> ('b, 'o) gen step) \<Rightarrow> ('b, 'o) gen step" where
  "with_list_realloc f g = and_then (list_realloc (g_realloc g)) (\<lambda>s. f s g)"

definition load_intrepr :: "('b, 'o, 'z, 'a) ctx \<Rightarrow> 'z \<Rightarrow> int_repr \<Rightarrow> ('b, 'o) gen step" where
  "load_intrepr cx offset repr =
     emit cx (case repr of
        IU64 \<Rightarrow> I64Load offset | IU32 \<Rightarrow> I32Load offset
      | IU16 \<Rightarrow> I32Load16U offset | IU8 \<Rightarrow> I32Load8U offset)"

definition store_intrepr :: "('b, 'o, 'z, 'a) ctx \<Rightarrow> 'z \<Rightarrow> int_repr \<Rightarrow> ('b, 'o) gen step" where
  "store_intrepr cx offset repr =
     emit cx (case repr of
        IU64 \<Rightarrow> I64Store offset | IU32 \<Rightarrow> I32Store offset
      | IU16 \<Rightarrow> I32Store16 offset | IU8 \<Rightarrow> I32Store8 offset)"

section \<open>Variants on the stack\<close>

text \<open>
  The casts of one arm: \<open>casts.push(cast(*actual, *expected))\<close> over the zip of the arm's own flat
  types and the variant's, and the instruction only when some cast is not \<open>Bitcast::None\<close>.
\<close>

definition emit_casts ::
    "('b, 'o, 'z, 'a) ctx \<Rightarrow> (wasm_type \<times> wasm_type) list \<Rightarrow> ('b, 'o) gen step" where
  "emit_casts cx pairs =
     with_res (map_res (\<lambda>(from, to). cast from to) pairs) (\<lambda>casts.
       if \<exists>c \<in> set casts. c \<noteq> NoCast then emit cx (Bitcasts casts) else Inr)"

text \<open>\<open>&results[1..]\<close> panics on an empty slice.\<close>

definition slice_from_1 :: "'x list \<Rightarrow> 'x list res" where
  "slice_from_1 xs = (case xs of [] \<Rightarrow> Inl Index_Out_Of_Range | _ # ys \<Rightarrow> Inr ys)"

definition pad_zeros ::
    "('b, 'o, 'z, 'a) ctx \<Rightarrow> nat \<Rightarrow> wasm_type list \<Rightarrow> ('b, 'o) gen step" where
  "pad_zeros cx pushed results =
     (if pushed < length results then emit cx (ConstZero (drop pushed results)) else Inr)"

definition lower_variant_arm ::
    "('b, 'o, 'z, 'a) ctx \<Rightarrow> (ty \<Rightarrow> ('b, 'o) gen step) \<Rightarrow> wasm_type list
      \<Rightarrow> nat \<times> ty option \<Rightarrow> ('b, 'o) gen step" where
  "lower_variant_arm cx low results arm =
     seq [push_block cx,
       emit cx VariantPayloadName,
       with_pop (\<lambda>payload_name.
         seq [emit cx (I32Const (of_nat (fst arm))),
           (case snd arm of
              None \<Rightarrow> pad_zeros cx 1 results
            | Some t \<Rightarrow>
                seq [push payload_name, low t,
                  with_res (flat cx t) (\<lambda>temp.
                    with_res (slice_from_1 results) (\<lambda>rest.
                      seq [emit_casts cx (zip temp rest),
                        pad_zeros cx (1 + length temp) results]))]),
           finish_block cx (length results)])]"

definition lower_variant_arms ::
    "('b, 'o, 'z, 'a) ctx \<Rightarrow> (ty \<Rightarrow> ('b, 'o) gen step) \<Rightarrow> ty \<Rightarrow> ty option list
      \<Rightarrow> (wasm_type list \<Rightarrow> ('b, 'o) gen step) \<Rightarrow> ('b, 'o) gen step" where
  "lower_variant_arms cx low t cases then_emit =
     with_res (flat cx t) (\<lambda>results.
       seq [for_each (enumerate 0 cases) (lower_variant_arm cx low results),
         then_emit results])"

text \<open>
  \<open>flat_for_each_record_type\<close>: hand each component its own flat operands, in order.
\<close>

fun feed_types ::
    "('b, 'o, 'z, 'a) ctx \<Rightarrow> (ty \<Rightarrow> ('b, 'o) gen step) \<Rightarrow> ty list \<Rightarrow> 'o list \<Rightarrow> ('b, 'o) gen step" where
  "feed_types cx iter [] args g = Inr g"
| "feed_types cx iter (t # ts) args g =
     with_res (flat cx t) (\<lambda>temp g.
       if length args < length temp then Inl Index_Out_Of_Range
       else and_then (seq [push_all (take (length temp) args), iter t] g)
         (feed_types cx iter ts (drop (length temp) args))) g"

definition flat_for_each_record_type ::
    "('b, 'o, 'z, 'a) ctx \<Rightarrow> ty \<Rightarrow> ty list \<Rightarrow> (ty \<Rightarrow> ('b, 'o) gen step) \<Rightarrow> ('b, 'o) gen step" where
  "flat_for_each_record_type cx container types iter =
     with_res (flat cx container) (\<lambda>temp.
       with_drain (length temp) (feed_types cx iter types))"

definition lift_variant_arm ::
    "('b, 'o, 'z, 'a) ctx \<Rightarrow> (ty \<Rightarrow> ('b, 'o) gen step) \<Rightarrow> bool \<Rightarrow> wasm_type list \<Rightarrow> 'o list
      \<Rightarrow> ty option \<Rightarrow> ('b, 'o) gen step" where
  "lift_variant_arm cx iter have_result params block_inputs arm =
     seq [push_block cx,
       (case arm of
          None \<Rightarrow> Inr
        | Some t \<Rightarrow>
            with_res (flat cx t) (\<lambda>temp.
              if length block_inputs < length temp then (\<lambda>g. Inl Index_Out_Of_Range)
              else
                seq [push_all (take (length temp) block_inputs),
                  with_res (slice_from_1 params) (\<lambda>rest. emit_casts cx (zip rest temp)),
                  iter t])),
       finish_block cx (if have_result then of_bool (arm \<noteq> None) else 0)]"

definition flat_for_each_variant_arm ::
    "('b, 'o, 'z, 'a) ctx \<Rightarrow> ty \<Rightarrow> bool \<Rightarrow> ty option list \<Rightarrow> (ty \<Rightarrow> ('b, 'o) gen step)
      \<Rightarrow> ('b, 'o) gen step" where
  "flat_for_each_variant_arm cx t have_result cases iter =
     with_res (flat cx t) (\<lambda>params g.
       if params = [] then Inl Index_Out_Of_Range
       else with_drain (length params - 1) (\<lambda>block_inputs.
         for_each cases (lift_variant_arm cx iter have_result params block_inputs)) g)"

section \<open>Lowering\<close>

text \<open>
  Helpers of \<open>lower\<close> and \<open>write_to_memory\<close>; the parameters \<open>low\<close> and \<open>wr\<close> are those two methods.
\<close>

definition lower_and_emit ::
    "('b, 'o, 'z, 'a) ctx \<Rightarrow> (ty \<Rightarrow> ('b, 'o) gen step) \<Rightarrow> ty \<Rightarrow> 'o \<Rightarrow> ('z, 'a) instruction
      \<Rightarrow> ('b, 'o) gen step" where
  "lower_and_emit cx low t addr inst = seq [low t, push addr, emit cx inst]"

definition write_list_to_memory ::
    "('b, 'o, 'z, 'a) ctx \<Rightarrow> (ty \<Rightarrow> ('b, 'o) gen step) \<Rightarrow> ty \<Rightarrow> 'o \<Rightarrow> 'z \<Rightarrow> ('b, 'o) gen step" where
  "write_list_to_memory cx low t addr offset =
     seq [low t,
       push addr,
       with_sizes cx (\<lambda>sz. emit cx (LengthStore
         (size_add (cx_env cx) offset (size_of_align (cx_env cx) (sa_align sz t))))),
       push addr,
       emit cx (PointerStore offset)]"

definition write_fields_to_memory ::
    "('b, 'o, 'z, 'a) ctx \<Rightarrow> (ty \<Rightarrow> 'o \<Rightarrow> 'z \<Rightarrow> ('b, 'o) gen step) \<Rightarrow> ty list \<Rightarrow> 'o \<Rightarrow> 'z
      \<Rightarrow> ('b, 'o) gen step" where
  "write_fields_to_memory cx wr tys addr offset =
     with_drain (length tys) (\<lambda>ops.
       with_sizes cx (\<lambda>sz.
         for_each (zip (sa_field_offsets sz tys) ops) (\<lambda>((field_offset, t), op).
           seq [push op, wr t addr (size_add (cx_env cx) offset field_offset)])))"

definition write_params_to_memory ::
    "('b, 'o, 'z, 'a) ctx \<Rightarrow> (ty \<Rightarrow> 'o \<Rightarrow> 'z \<Rightarrow> ('b, 'o) gen step) \<Rightarrow> ty list \<Rightarrow> 'o \<Rightarrow> 'z
      \<Rightarrow> ('b, 'o) gen step" where
  "write_params_to_memory cx wr params addr offset =
     write_fields_to_memory cx wr params addr offset"

definition write_variant_arm_to_memory ::
    "('b, 'o, 'z, 'a) ctx \<Rightarrow> (ty \<Rightarrow> 'o \<Rightarrow> 'z \<Rightarrow> ('b, 'o) gen step) \<Rightarrow> 'z \<Rightarrow> 'o \<Rightarrow> int_repr \<Rightarrow> 'z
      \<Rightarrow> nat \<times> ty option \<Rightarrow> ('b, 'o) gen step" where
  "write_variant_arm_to_memory cx wr offset addr tag payload_offset arm =
     seq [push_block cx,
       emit cx VariantPayloadName,
       with_pop (\<lambda>payload_name.
         seq [emit cx (I32Const (of_nat (fst arm))),
           push addr,
           store_intrepr cx offset tag,
           (case snd arm of
              None \<Rightarrow> Inr
            | Some t \<Rightarrow> seq [push payload_name, wr t addr payload_offset]),
           finish_block cx 0])]"

definition write_variant_arms_to_memory ::
    "('b, 'o, 'z, 'a) ctx \<Rightarrow> (ty \<Rightarrow> 'o \<Rightarrow> 'z \<Rightarrow> ('b, 'o) gen step) \<Rightarrow> 'z \<Rightarrow> 'o \<Rightarrow> int_repr
      \<Rightarrow> ty option list \<Rightarrow> ('b, 'o) gen step" where
  "write_variant_arms_to_memory cx wr offset addr tag cases =
     with_sizes cx (\<lambda>sz.
       for_each (enumerate 0 cases)
         (write_variant_arm_to_memory cx wr offset addr tag
           (size_add (cx_env cx) offset (sa_payload_offset sz tag cases))))"

text \<open>Components of a record, tuple or fixed-length list, lowered one by one.\<close>

definition lower_components ::
    "(ty \<Rightarrow> ('b, 'o) gen step) \<Rightarrow> ty list \<Rightarrow> ('b, 'o) gen step" where
  "lower_components low tys =
     with_drain (length tys) (\<lambda>vals.
       for_each (zip tys vals) (\<lambda>(t, v). seq [push v, low t]))"

definition lower_list ::
    "('b, 'o, 'z, 'a) ctx \<Rightarrow> (ty \<Rightarrow> 'o \<Rightarrow> 'z \<Rightarrow> ('b, 'o) gen step) \<Rightarrow> ty \<Rightarrow> ('b, 'o) gen step" where
  "lower_list cx wr element =
     with_list_realloc (\<lambda>realloc g.
       if bg_is_list_canonical (cx_bindgen cx) (g_bindgen g) (cx_resolve cx) element
       then emit cx (ListCanonLower element realloc) g
       else
         seq [push_block cx,
           emit cx (IterElem element),
           emit cx IterBasePointer,
           with_pop (\<lambda>addr. wr element addr (size_zero (cx_env cx))),
           finish_block cx 0,
           emit cx (ListLower element realloc)] g)"

text \<open>\<open>field_offsets([key, value])[1].0\<close>\<close>

definition map_value_offset :: "('z, 'a) size_align \<Rightarrow> ty \<Rightarrow> ty \<Rightarrow> 'z res" where
  "map_value_offset sz key val =
     and_then (index (sa_field_offsets sz [key, val]) 1) (\<lambda>p. Inr (fst p))"

definition lower_map ::
    "('b, 'o, 'z, 'a) ctx \<Rightarrow> (ty \<Rightarrow> 'o \<Rightarrow> 'z \<Rightarrow> ('b, 'o) gen step) \<Rightarrow> ty \<Rightarrow> ty \<Rightarrow> ('b, 'o) gen step" where
  "lower_map cx wr key val =
     with_list_realloc (\<lambda>realloc.
       with_sizes cx (\<lambda>sz.
         with_res (map_value_offset sz key val) (\<lambda>value_offset.
           seq [push_block cx,
             emit cx (IterMapKey key),
             emit cx IterBasePointer,
             with_pop (\<lambda>key_addr. wr key key_addr (size_zero (cx_env cx))),
             emit cx (IterMapValue val),
             emit cx IterBasePointer,
             with_pop (\<lambda>value_addr. wr val value_addr value_offset),
             finish_block cx 0,
             emit cx (MapLower key val realloc)])))"

text \<open>\<open>self.resolve.types[id].name.as_deref().unwrap()\<close>\<close>

abbreviation with_name :: "type_def \<Rightarrow> (string \<Rightarrow> 's step) \<Rightarrow> 's step" where
  "with_name td f \<equiv> with_res (unwrap (td_name td)) f"

definition handle_tid :: "handle \<Rightarrow> tid" where
  "handle_tid h = (case h of Own i \<Rightarrow> i | Borrow i \<Rightarrow> i)"

definition lower_kind ::
    "('b, 'o, 'z, 'a) ctx \<Rightarrow> (ty \<Rightarrow> ('b, 'o) gen step) \<Rightarrow> (ty \<Rightarrow> 'o \<Rightarrow> 'z \<Rightarrow> ('b, 'o) gen step)
      \<Rightarrow> tid \<Rightarrow> type_def \<Rightarrow> ('b, 'o) gen step" where
  "lower_kind cx low wr i td =
     (case td_kind td of
        KType t \<Rightarrow> low t
      | KList element \<Rightarrow> lower_list cx wr element
      | KHandle h \<Rightarrow>
          with_type cx (handle_tid h) (\<lambda>target.
            with_name target (\<lambda>name. emit cx (HandleLower h name i)))
      | KResource \<Rightarrow> (\<lambda>g. Inl Todo_Code)
      | KRecord fs \<Rightarrow>
          with_name td (\<lambda>name.
            seq [emit cx (RecordLower fs name i), lower_components low (map snd fs)])
      | KTuple tys \<Rightarrow> seq [emit cx (TupleLower tys i), lower_components low tys]
      | KFlags flags \<Rightarrow> with_name td (\<lambda>name. emit cx (FlagsLower flags name i))
      | KVariant cases \<Rightarrow>
          lower_variant_arms cx low (TId i) (map snd cases) (\<lambda>results.
            with_name td (\<lambda>name. emit cx (VariantLower cases name i results)))
      | KEnum cases \<Rightarrow> with_name td (\<lambda>name. emit cx (EnumLower cases name i))
      | KOption t \<Rightarrow>
          lower_variant_arms cx low (TId i) [None, Some t] (\<lambda>results.
            emit cx (OptionLower t i results))
      | KResult ok err \<Rightarrow>
          lower_variant_arms cx low (TId i) [ok, err] (\<lambda>results.
            emit cx (ResultLower ok err i results))
      | KFuture t \<Rightarrow> emit cx (FutureLower t i)
      | KStream t \<Rightarrow> emit cx (StreamLower t i)
      | KUnknown \<Rightarrow> (\<lambda>g. Inl Unreachable_Code)
      | KFixedLengthList t n \<Rightarrow>
          seq [emit cx (FixedLengthListLower t n i), lower_components low (replicate (unat n) t)]
      | KMap key val \<Rightarrow> lower_map cx wr key val)"

definition lower_body ::
    "('b, 'o, 'z, 'a) ctx \<Rightarrow> (ty \<Rightarrow> ('b, 'o) gen step) \<Rightarrow> (ty \<Rightarrow> 'o \<Rightarrow> 'z \<Rightarrow> ('b, 'o) gen step)
      \<Rightarrow> ty \<Rightarrow> ('b, 'o) gen step" where
  "lower_body cx low wr t =
     (case t of
        TBool \<Rightarrow> emit cx I32FromBool
      | TS8 \<Rightarrow> emit cx I32FromS8
      | TU8 \<Rightarrow> emit cx I32FromU8
      | TS16 \<Rightarrow> emit cx I32FromS16
      | TU16 \<Rightarrow> emit cx I32FromU16
      | TS32 \<Rightarrow> emit cx I32FromS32
      | TU32 \<Rightarrow> emit cx I32FromU32
      | TS64 \<Rightarrow> emit cx I64FromS64
      | TU64 \<Rightarrow> emit cx I64FromU64
      | TChar \<Rightarrow> emit cx I32FromChar
      | TF32 \<Rightarrow> emit cx CoreF32FromF32
      | TF64 \<Rightarrow> emit cx CoreF64FromF64
      | TString \<Rightarrow> with_list_realloc (\<lambda>realloc. emit cx (StringLower realloc))
      | TErrorContext \<Rightarrow> emit cx ErrorContextLower
      | TId i \<Rightarrow> with_type cx i (lower_kind cx low wr i))"

text \<open>
  Writing a flags value: \<open>FlagsRepr::U32(n)\<close> stores its words from the last to the first, as the
  stack yields them.
\<close>

definition write_flags_to_memory ::
    "('b, 'o, 'z, 'a) ctx \<Rightarrow> (ty \<Rightarrow> ('b, 'o) gen step) \<Rightarrow> string list \<Rightarrow> ty \<Rightarrow> 'o \<Rightarrow> 'z
      \<Rightarrow> ('b, 'o) gen step" where
  "write_flags_to_memory cx low flags t addr offset =
     seq [low t,
       (case flags_repr_of (cx_env cx) flags of
          FlagsU8 \<Rightarrow> seq [push addr, store_intrepr cx offset IU8]
        | FlagsU16 \<Rightarrow> seq [push addr, store_intrepr cx offset IU16]
        | FlagsU32 n \<Rightarrow>
            for_each (rev [0..<n]) (\<lambda>k.
              seq [push addr, emit cx (I32Store (size_add_bytes (cx_env cx) offset (k * 4)))]))]"

definition write_kind ::
    "('b, 'o, 'z, 'a) ctx \<Rightarrow> (ty \<Rightarrow> ('b, 'o) gen step) \<Rightarrow> (ty \<Rightarrow> 'o \<Rightarrow> 'z \<Rightarrow> ('b, 'o) gen step)
      \<Rightarrow> tid \<Rightarrow> 'o \<Rightarrow> 'z \<Rightarrow> type_def \<Rightarrow> ('b, 'o) gen step" where
  "write_kind cx low wr i addr offset td =
     (case td_kind td of
        KType t \<Rightarrow> wr t addr offset
      | KList _ \<Rightarrow> write_list_to_memory cx low (TId i) addr offset
      | KMap _ _ \<Rightarrow> write_list_to_memory cx low (TId i) addr offset
      | KFuture _ \<Rightarrow> lower_and_emit cx low (TId i) addr (I32Store offset)
      | KStream _ \<Rightarrow> lower_and_emit cx low (TId i) addr (I32Store offset)
      | KHandle _ \<Rightarrow> lower_and_emit cx low (TId i) addr (I32Store offset)
      | KRecord fs \<Rightarrow>
          with_name td (\<lambda>name.
            seq [emit cx (RecordLower fs name i),
              write_fields_to_memory cx wr (map snd fs) addr offset])
      | KResource \<Rightarrow> (\<lambda>g. Inl Todo_Code)
      | KTuple tys \<Rightarrow>
          seq [emit cx (TupleLower tys i), write_fields_to_memory cx wr tys addr offset]
      | KFlags flags \<Rightarrow> write_flags_to_memory cx low flags (TId i) addr offset
      | KVariant cases \<Rightarrow>
          seq [write_variant_arms_to_memory cx wr offset addr
                 (variant_tag (cx_env cx) cases) (map snd cases),
            with_name td (\<lambda>name. emit cx (VariantLower cases name i []))]
      | KOption t \<Rightarrow>
          seq [write_variant_arms_to_memory cx wr offset addr IU8 [None, Some t],
            emit cx (OptionLower t i [])]
      | KResult ok err \<Rightarrow>
          seq [write_variant_arms_to_memory cx wr offset addr IU8 [ok, err],
            emit cx (ResultLower ok err i [])]
      | KEnum cases \<Rightarrow>
          seq [low (TId i), push addr, store_intrepr cx offset (enum_tag (cx_env cx) cases)]
      | KUnknown \<Rightarrow> (\<lambda>g. Inl Unreachable_Code)
      | KFixedLengthList element n \<Rightarrow>
          seq [push_block cx,
            emit cx (IterElem element),
            emit cx IterBasePointer,
            with_pop (\<lambda>elem_addr. wr element elem_addr offset),
            finish_block cx 0,
            push addr,
            emit cx (FixedLengthListLowerToMemory element n i)])"

definition write_body ::
    "('b, 'o, 'z, 'a) ctx \<Rightarrow> (ty \<Rightarrow> ('b, 'o) gen step) \<Rightarrow> (ty \<Rightarrow> 'o \<Rightarrow> 'z \<Rightarrow> ('b, 'o) gen step)
      \<Rightarrow> ty \<Rightarrow> 'o \<Rightarrow> 'z \<Rightarrow> ('b, 'o) gen step" where
  "write_body cx low wr t addr offset =
     (case t of
        TBool \<Rightarrow> lower_and_emit cx low t addr (I32Store8 offset)
      | TU8 \<Rightarrow> lower_and_emit cx low t addr (I32Store8 offset)
      | TS8 \<Rightarrow> lower_and_emit cx low t addr (I32Store8 offset)
      | TU16 \<Rightarrow> lower_and_emit cx low t addr (I32Store16 offset)
      | TS16 \<Rightarrow> lower_and_emit cx low t addr (I32Store16 offset)
      | TU32 \<Rightarrow> lower_and_emit cx low t addr (I32Store offset)
      | TS32 \<Rightarrow> lower_and_emit cx low t addr (I32Store offset)
      | TChar \<Rightarrow> lower_and_emit cx low t addr (I32Store offset)
      | TU64 \<Rightarrow> lower_and_emit cx low t addr (I64Store offset)
      | TS64 \<Rightarrow> lower_and_emit cx low t addr (I64Store offset)
      | TF32 \<Rightarrow> lower_and_emit cx low t addr (F32Store offset)
      | TF64 \<Rightarrow> lower_and_emit cx low t addr (F64Store offset)
      | TString \<Rightarrow> write_list_to_memory cx low t addr offset
      | TErrorContext \<Rightarrow> lower_and_emit cx low t addr (I32Store offset)
      | TId i \<Rightarrow> with_type cx i (write_kind cx low wr i addr offset))"

fun lower :: "('b, 'o, 'z, 'a) ctx \<Rightarrow> nat \<Rightarrow> ty \<Rightarrow> ('b, 'o) gen step"
and write_to_memory :: "('b, 'o, 'z, 'a) ctx \<Rightarrow> nat \<Rightarrow> ty \<Rightarrow> 'o \<Rightarrow> 'z \<Rightarrow> ('b, 'o) gen step" where
  "lower cx 0 t g = Inl Out_Of_Fuel"
| "lower cx (Suc n) t g =
     lower_body cx (\<lambda>t g. lower cx n t g) (\<lambda>t a z g. write_to_memory cx n t a z g) t g"
| "write_to_memory cx 0 t addr offset g = Inl Out_Of_Fuel"
| "write_to_memory cx (Suc n) t addr offset g =
     write_body cx (\<lambda>t g. lower cx n t g) (\<lambda>t a z g. write_to_memory cx n t a z g) t addr offset g"

section \<open>Lifting\<close>

text \<open>
  Helpers of \<open>lift\<close> and \<open>read_from_memory\<close>; the parameters \<open>lif\<close> and \<open>rd\<close> are those two methods.
\<close>

definition emit_and_lift ::
    "('b, 'o, 'z, 'a) ctx \<Rightarrow> (ty \<Rightarrow> ('b, 'o) gen step) \<Rightarrow> ty \<Rightarrow> 'o \<Rightarrow> ('z, 'a) instruction
      \<Rightarrow> ('b, 'o) gen step" where
  "emit_and_lift cx lif t addr inst = seq [push addr, emit cx inst, lif t]"

text \<open>The pointer and the length of a list, read from the two words at \<open>addr + offset\<close>.\<close>

definition load_pointer_and_length ::
    "('b, 'o, 'z, 'a) ctx \<Rightarrow> ty \<Rightarrow> 'o \<Rightarrow> 'z \<Rightarrow> ('b, 'o) gen step" where
  "load_pointer_and_length cx t addr offset =
     seq [push addr,
       emit cx (PointerLoad offset),
       push addr,
       with_sizes cx (\<lambda>sz. emit cx (LengthLoad
         (size_add (cx_env cx) offset (size_of_align (cx_env cx) (sa_align sz t)))))]"

definition read_list_from_memory ::
    "('b, 'o, 'z, 'a) ctx \<Rightarrow> (ty \<Rightarrow> ('b, 'o) gen step) \<Rightarrow> ty \<Rightarrow> 'o \<Rightarrow> 'z \<Rightarrow> ('b, 'o) gen step" where
  "read_list_from_memory cx lif t addr offset =
     seq [load_pointer_and_length cx t addr offset, lif t]"

definition read_fields_from_memory ::
    "('b, 'o, 'z, 'a) ctx \<Rightarrow> (ty \<Rightarrow> 'o \<Rightarrow> 'z \<Rightarrow> ('b, 'o) gen step) \<Rightarrow> ty list \<Rightarrow> 'o \<Rightarrow> 'z
      \<Rightarrow> ('b, 'o) gen step" where
  "read_fields_from_memory cx rd tys addr offset =
     with_sizes cx (\<lambda>sz.
       for_each (sa_field_offsets sz tys) (\<lambda>(field_offset, t).
         rd t addr (size_add (cx_env cx) offset field_offset)))"

definition read_results_from_memory ::
    "('b, 'o, 'z, 'a) ctx \<Rightarrow> (ty \<Rightarrow> 'o \<Rightarrow> 'z \<Rightarrow> ('b, 'o) gen step) \<Rightarrow> ty list \<Rightarrow> 'o \<Rightarrow> 'z
      \<Rightarrow> ('b, 'o) gen step" where
  "read_results_from_memory cx rd result addr offset =
     read_fields_from_memory cx rd result addr offset"

definition read_variant_arm_from_memory ::
    "('b, 'o, 'z, 'a) ctx \<Rightarrow> (ty \<Rightarrow> 'o \<Rightarrow> 'z \<Rightarrow> ('b, 'o) gen step) \<Rightarrow> 'o \<Rightarrow> 'z \<Rightarrow> ty option
      \<Rightarrow> ('b, 'o) gen step" where
  "read_variant_arm_from_memory cx rd addr payload_offset arm =
     seq [push_block cx,
       (case arm of None \<Rightarrow> Inr | Some t \<Rightarrow> rd t addr payload_offset),
       finish_block cx (of_bool (arm \<noteq> None))]"

definition read_variant_arms_from_memory ::
    "('b, 'o, 'z, 'a) ctx \<Rightarrow> (ty \<Rightarrow> 'o \<Rightarrow> 'z \<Rightarrow> ('b, 'o) gen step) \<Rightarrow> 'z \<Rightarrow> 'o \<Rightarrow> int_repr
      \<Rightarrow> ty option list \<Rightarrow> ('b, 'o) gen step" where
  "read_variant_arms_from_memory cx rd offset addr tag cases =
     seq [push addr,
       load_intrepr cx offset tag,
       with_sizes cx (\<lambda>sz.
         for_each cases (read_variant_arm_from_memory cx rd addr
           (size_add (cx_env cx) offset (sa_payload_offset sz tag cases))))]"

text \<open>A fixed-length list on the stack: \<open>size\<close> groups of the element's flat operands.\<close>

definition lift_fixed_length_list ::
    "('b, 'o, 'z, 'a) ctx \<Rightarrow> (ty \<Rightarrow> ('b, 'o) gen step) \<Rightarrow> ty \<Rightarrow> 32 word \<Rightarrow> tid \<Rightarrow> ('b, 'o) gen step" where
  "lift_fixed_length_list cx lif t n i =
     with_res (flat cx t) (\<lambda>temp.
       with_drain (length temp * unat n) (\<lambda>lowered_args.
         seq [for_each [0..<unat n] (\<lambda>k.
                seq [push_all (take (length temp) (drop (k * length temp) lowered_args)), lif t]),
           emit cx (FixedLengthListLift t n i)]))"

definition lift_kind ::
    "('b, 'o, 'z, 'a) ctx \<Rightarrow> (ty \<Rightarrow> ('b, 'o) gen step) \<Rightarrow> (ty \<Rightarrow> 'o \<Rightarrow> 'z \<Rightarrow> ('b, 'o) gen step)
      \<Rightarrow> tid \<Rightarrow> type_def \<Rightarrow> ('b, 'o) gen step" where
  "lift_kind cx lif rd i td =
     (case td_kind td of
        KType t \<Rightarrow> lif t
      | KList element \<Rightarrow>
          (\<lambda>g. if bg_is_list_canonical (cx_bindgen cx) (g_bindgen g) (cx_resolve cx) element
             then emit cx (ListCanonLift element i) g
             else
               seq [push_block cx,
                 emit cx IterBasePointer,
                 with_pop (\<lambda>addr. rd element addr (size_zero (cx_env cx))),
                 finish_block cx 1,
                 emit cx (ListLift element i)] g)
      | KHandle h \<Rightarrow>
          with_type cx (handle_tid h) (\<lambda>target.
            with_name target (\<lambda>name. emit cx (HandleLift h name i)))
      | KResource \<Rightarrow> (\<lambda>g. Inl Todo_Code)
      | KRecord fs \<Rightarrow>
          seq [flat_for_each_record_type cx (TId i) (map snd fs) lif,
            with_name td (\<lambda>name. emit cx (RecordLift fs name i))]
      | KTuple tys \<Rightarrow>
          seq [flat_for_each_record_type cx (TId i) tys lif, emit cx (TupleLift tys i)]
      | KFlags flags \<Rightarrow> with_name td (\<lambda>name. emit cx (FlagsLift flags name i))
      | KVariant cases \<Rightarrow>
          seq [flat_for_each_variant_arm cx (TId i) True (map snd cases) lif,
            with_name td (\<lambda>name. emit cx (VariantLift cases name i))]
      | KEnum cases \<Rightarrow> with_name td (\<lambda>name. emit cx (EnumLift cases name i))
      | KOption t \<Rightarrow>
          seq [flat_for_each_variant_arm cx (TId i) True [None, Some t] lif,
            emit cx (OptionLift t i)]
      | KResult ok err \<Rightarrow>
          seq [flat_for_each_variant_arm cx (TId i) True [ok, err] lif,
            emit cx (ResultLift ok err i)]
      | KFuture t \<Rightarrow> emit cx (FutureLift t i)
      | KStream t \<Rightarrow> emit cx (StreamLift t i)
      | KUnknown \<Rightarrow> (\<lambda>g. Inl Unreachable_Code)
      | KFixedLengthList t n \<Rightarrow> lift_fixed_length_list cx lif t n i
      | KMap key val \<Rightarrow>
          with_sizes cx (\<lambda>sz.
            with_res (map_value_offset sz key val) (\<lambda>value_offset.
              seq [push_block cx,
                emit cx IterBasePointer,
                with_pop (\<lambda>entry_addr.
                  seq [rd key entry_addr (size_zero (cx_env cx)), rd val entry_addr value_offset]),
                finish_block cx 2,
                emit cx (MapLift key val i)])))"

definition lift_body ::
    "('b, 'o, 'z, 'a) ctx \<Rightarrow> (ty \<Rightarrow> ('b, 'o) gen step) \<Rightarrow> (ty \<Rightarrow> 'o \<Rightarrow> 'z \<Rightarrow> ('b, 'o) gen step)
      \<Rightarrow> ty \<Rightarrow> ('b, 'o) gen step" where
  "lift_body cx lif rd t =
     (case t of
        TBool \<Rightarrow> emit cx BoolFromI32
      | TS8 \<Rightarrow> emit cx S8FromI32
      | TU8 \<Rightarrow> emit cx U8FromI32
      | TS16 \<Rightarrow> emit cx S16FromI32
      | TU16 \<Rightarrow> emit cx U16FromI32
      | TS32 \<Rightarrow> emit cx S32FromI32
      | TU32 \<Rightarrow> emit cx U32FromI32
      | TS64 \<Rightarrow> emit cx S64FromI64
      | TU64 \<Rightarrow> emit cx U64FromI64
      | TChar \<Rightarrow> emit cx CharFromI32
      | TF32 \<Rightarrow> emit cx F32FromCoreF32
      | TF64 \<Rightarrow> emit cx F64FromCoreF64
      | TString \<Rightarrow> emit cx StringLift
      | TErrorContext \<Rightarrow> emit cx ErrorContextLift
      | TId i \<Rightarrow> with_type cx i (lift_kind cx lif rd i))"

text \<open>Reading flags: \<open>FlagsRepr::U32(n)\<close> loads its words from the first to the last.\<close>

definition read_flags_from_memory ::
    "('b, 'o, 'z, 'a) ctx \<Rightarrow> (ty \<Rightarrow> ('b, 'o) gen step) \<Rightarrow> string list \<Rightarrow> ty \<Rightarrow> 'o \<Rightarrow> 'z
      \<Rightarrow> ('b, 'o) gen step" where
  "read_flags_from_memory cx lif flags t addr offset =
     seq [(case flags_repr_of (cx_env cx) flags of
            FlagsU8 \<Rightarrow> seq [push addr, load_intrepr cx offset IU8]
          | FlagsU16 \<Rightarrow> seq [push addr, load_intrepr cx offset IU16]
          | FlagsU32 n \<Rightarrow>
              for_each [0..<n] (\<lambda>k.
                seq [push addr, emit cx (I32Load (size_add_bytes (cx_env cx) offset (k * 4)))])),
       lif t]"

definition read_kind ::
    "('b, 'o, 'z, 'a) ctx \<Rightarrow> (ty \<Rightarrow> ('b, 'o) gen step) \<Rightarrow> (ty \<Rightarrow> 'o \<Rightarrow> 'z \<Rightarrow> ('b, 'o) gen step)
      \<Rightarrow> tid \<Rightarrow> 'o \<Rightarrow> 'z \<Rightarrow> type_def \<Rightarrow> ('b, 'o) gen step" where
  "read_kind cx lif rd i addr offset td =
     (case td_kind td of
        KType t \<Rightarrow> rd t addr offset
      | KList _ \<Rightarrow> read_list_from_memory cx lif (TId i) addr offset
      | KMap _ _ \<Rightarrow> read_list_from_memory cx lif (TId i) addr offset
      | KFuture _ \<Rightarrow> emit_and_lift cx lif (TId i) addr (I32Load offset)
      | KStream _ \<Rightarrow> emit_and_lift cx lif (TId i) addr (I32Load offset)
      | KHandle _ \<Rightarrow> emit_and_lift cx lif (TId i) addr (I32Load offset)
      | KResource \<Rightarrow> (\<lambda>g. Inl Todo_Code)
      | KRecord fs \<Rightarrow>
          seq [read_fields_from_memory cx rd (map snd fs) addr offset,
            with_name td (\<lambda>name. emit cx (RecordLift fs name i))]
      | KTuple tys \<Rightarrow>
          seq [read_fields_from_memory cx rd tys addr offset, emit cx (TupleLift tys i)]
      | KFlags flags \<Rightarrow> read_flags_from_memory cx lif flags (TId i) addr offset
      | KVariant cases \<Rightarrow>
          seq [read_variant_arms_from_memory cx rd offset addr
                 (variant_tag (cx_env cx) cases) (map snd cases),
            with_name td (\<lambda>name. emit cx (VariantLift cases name i))]
      | KOption t \<Rightarrow>
          seq [read_variant_arms_from_memory cx rd offset addr IU8 [None, Some t],
            emit cx (OptionLift t i)]
      | KResult ok err \<Rightarrow>
          seq [read_variant_arms_from_memory cx rd offset addr IU8 [ok, err],
            emit cx (ResultLift ok err i)]
      | KEnum cases \<Rightarrow>
          seq [push addr, load_intrepr cx offset (enum_tag (cx_env cx) cases), lif (TId i)]
      | KUnknown \<Rightarrow> (\<lambda>g. Inl Unreachable_Code)
      | KFixedLengthList t n \<Rightarrow>
          seq [push_block cx,
            emit cx IterBasePointer,
            with_pop (\<lambda>elem_addr. rd t elem_addr offset),
            finish_block cx 1,
            push addr,
            emit cx (FixedLengthListLiftFromMemory t n i)])"

definition read_body ::
    "('b, 'o, 'z, 'a) ctx \<Rightarrow> (ty \<Rightarrow> ('b, 'o) gen step) \<Rightarrow> (ty \<Rightarrow> 'o \<Rightarrow> 'z \<Rightarrow> ('b, 'o) gen step)
      \<Rightarrow> ty \<Rightarrow> 'o \<Rightarrow> 'z \<Rightarrow> ('b, 'o) gen step" where
  "read_body cx lif rd t addr offset =
     (case t of
        TBool \<Rightarrow> emit_and_lift cx lif t addr (I32Load8U offset)
      | TU8 \<Rightarrow> emit_and_lift cx lif t addr (I32Load8U offset)
      | TS8 \<Rightarrow> emit_and_lift cx lif t addr (I32Load8S offset)
      | TU16 \<Rightarrow> emit_and_lift cx lif t addr (I32Load16U offset)
      | TS16 \<Rightarrow> emit_and_lift cx lif t addr (I32Load16S offset)
      | TU32 \<Rightarrow> emit_and_lift cx lif t addr (I32Load offset)
      | TS32 \<Rightarrow> emit_and_lift cx lif t addr (I32Load offset)
      | TChar \<Rightarrow> emit_and_lift cx lif t addr (I32Load offset)
      | TU64 \<Rightarrow> emit_and_lift cx lif t addr (I64Load offset)
      | TS64 \<Rightarrow> emit_and_lift cx lif t addr (I64Load offset)
      | TF32 \<Rightarrow> emit_and_lift cx lif t addr (F32Load offset)
      | TF64 \<Rightarrow> emit_and_lift cx lif t addr (F64Load offset)
      | TString \<Rightarrow> read_list_from_memory cx lif t addr offset
      | TErrorContext \<Rightarrow> emit_and_lift cx lif t addr (I32Load offset)
      | TId i \<Rightarrow> with_type cx i (read_kind cx lif rd i addr offset))"

fun lift :: "('b, 'o, 'z, 'a) ctx \<Rightarrow> nat \<Rightarrow> ty \<Rightarrow> ('b, 'o) gen step"
and read_from_memory :: "('b, 'o, 'z, 'a) ctx \<Rightarrow> nat \<Rightarrow> ty \<Rightarrow> 'o \<Rightarrow> 'z \<Rightarrow> ('b, 'o) gen step" where
  "lift cx 0 t g = Inl Out_Of_Fuel"
| "lift cx (Suc n) t g =
     lift_body cx (\<lambda>t g. lift cx n t g) (\<lambda>t a z g. read_from_memory cx n t a z g) t g"
| "read_from_memory cx 0 t addr offset g = Inl Out_Of_Fuel"
| "read_from_memory cx (Suc n) t addr offset g =
     read_body cx (\<lambda>t g. lift cx n t g) (\<lambda>t a z g. read_from_memory cx n t a z g) t addr offset g"

end
