(* ===== verification/Abi_Dealloc.thy ===== *)
theory Abi_Dealloc
  imports Abi_Generator
begin

text \<open>
  \<open>crates/core/src/abi.rs\<close>: which types own allocations (\<open>needs_deallocate\<close>) and the generation
  of the instructions that free them, from flat operands (\<open>deallocate\<close>) and from linear memory
  (\<open>deallocate_indirect\<close>).
\<close>

section \<open>What needs deallocation\<close>

text \<open>\<open>iter().any(f)\<close>: left to right, stopping at the first hit.\<close>

fun any_res :: "('x \<Rightarrow> bool res) \<Rightarrow> 'x list \<Rightarrow> bool res" where
  "any_res f [] = Inr False"
| "any_res f (x # xs) = and_then (f x) (\<lambda>b. if b then Inr True else any_res f xs)"

lemma any_res_total:
  assumes "\<And>x. x \<in> set xs \<Longrightarrow> f x = Inr (p x)"
  shows "any_res f xs = Inr (\<exists>x \<in> set xs. p x)"
  using assms by (induction xs) simp_all

definition needs_deallocate_kind ::
    "(ty \<Rightarrow> bool res) \<Rightarrow> deallocate_what \<Rightarrow> kind \<Rightarrow> bool res" where
  "needs_deallocate_kind rec what k =
     (case k of
        KList _ \<Rightarrow> Inr True
      | KType t \<Rightarrow> rec t
      | KHandle (Own _) \<Rightarrow> Inr (handles what)
      | KHandle (Borrow _) \<Rightarrow> Inr False
      | KResource \<Rightarrow> Inr False
      | KRecord fs \<Rightarrow> any_res rec (map snd fs)
      | KTuple tys \<Rightarrow> any_res rec tys
      | KVariant cases \<Rightarrow> any_res rec (List.map_filter snd cases)
      | KOption t \<Rightarrow> rec t
      | KResult ok err \<Rightarrow> any_res rec (List.map_filter id [ok, err])
      | KFlags _ \<Rightarrow> Inr False
      | KEnum _ \<Rightarrow> Inr False
      | KFuture _ \<Rightarrow> Inr (handles what)
      | KStream _ \<Rightarrow> Inr (handles what)
      | KUnknown \<Rightarrow> Inl Unreachable_Code
      | KFixedLengthList t _ \<Rightarrow> rec t
      | KMap _ _ \<Rightarrow> Inr True)"

fun needs_deallocate :: "resolve \<Rightarrow> nat \<Rightarrow> ty \<Rightarrow> deallocate_what \<Rightarrow> bool res" where
  "needs_deallocate r 0 t what = Inl Out_Of_Fuel"
| "needs_deallocate r (Suc n) t what =
     (case t of
        TString \<Rightarrow> Inr True
      | TErrorContext \<Rightarrow> Inr True
      | TId i \<Rightarrow>
          and_then (type_at r i) (\<lambda>td.
            needs_deallocate_kind (\<lambda>t. needs_deallocate r n t what) what (td_kind td))
      | _ \<Rightarrow> Inr False)"

definition guest_export_needs_post_return :: "resolve \<Rightarrow> nat \<Rightarrow> func \<Rightarrow> bool res" where
  "guest_export_needs_post_return r n f =
     (case fn_result f of None \<Rightarrow> Inr False | Some t \<Rightarrow> needs_deallocate r n t DeallocLists)"

definition guest_export_params_have_allocations :: "resolve \<Rightarrow> nat \<Rightarrow> func \<Rightarrow> bool res" where
  "guest_export_params_have_allocations r n f =
     any_res (\<lambda>t. needs_deallocate r n t DeallocLists) (map snd (fn_params f))"

section \<open>Generating the deallocation\<close>

text \<open>The parameters \<open>de\<close>, \<open>di\<close>, \<open>lif\<close> and \<open>rd\<close> are the recursive methods.\<close>

definition discard :: "('b, 'o) gen step" where
  "discard = with_pop (\<lambda>_. Inr)"

definition deallocate_kind ::
    "('b, 'o, 'z, 'a) ctx \<Rightarrow> deallocate_what \<Rightarrow> (ty \<Rightarrow> ('b, 'o) gen step)
      \<Rightarrow> (ty \<Rightarrow> 'o \<Rightarrow> 'z \<Rightarrow> ('b, 'o) gen step) \<Rightarrow> (ty \<Rightarrow> ('b, 'o) gen step)
      \<Rightarrow> tid \<Rightarrow> type_def \<Rightarrow> ('b, 'o) gen step" where
  "deallocate_kind cx what de di lif i td =
     (let drop_handle =
            (if handles what then seq [lif (TId i), emit cx (DropHandle (TId i))] else discard)
      in case td_kind td of
        KType t \<Rightarrow> de t
      | KList element \<Rightarrow>
          seq [push_block cx,
            emit cx IterBasePointer,
            with_pop (\<lambda>elem_addr. di element elem_addr (size_zero (cx_env cx))),
            finish_block cx 0,
            emit cx (GuestDeallocateList element)]
      | KMap key val \<Rightarrow>
          with_sizes cx (\<lambda>sz.
            with_res (map_value_offset sz key val) (\<lambda>value_offset.
              seq [push_block cx,
                emit cx IterBasePointer,
                with_pop (\<lambda>entry_addr.
                  seq [di key entry_addr (size_zero (cx_env cx)), di val entry_addr value_offset]),
                finish_block cx 0,
                emit cx (GuestDeallocateMap key val)]))
      | KHandle (Own _) \<Rightarrow> drop_handle
      | KFuture _ \<Rightarrow> drop_handle
      | KStream _ \<Rightarrow> drop_handle
      | KRecord fs \<Rightarrow> flat_for_each_record_type cx (TId i) (map snd fs) de
      | KTuple tys \<Rightarrow> flat_for_each_record_type cx (TId i) tys de
      | KVariant cases \<Rightarrow>
          seq [flat_for_each_variant_arm cx (TId i) False (map snd cases) de,
            emit cx (GuestDeallocateVariant (length cases))]
      | KOption t \<Rightarrow>
          seq [flat_for_each_variant_arm cx (TId i) False [None, Some t] de,
            emit cx (GuestDeallocateVariant 2)]
      | KResult ok err \<Rightarrow>
          seq [flat_for_each_variant_arm cx (TId i) False [ok, err] de,
            emit cx (GuestDeallocateVariant 2)]
      | KFlags _ \<Rightarrow> discard
      | KEnum _ \<Rightarrow> discard
      | KHandle (Borrow _) \<Rightarrow> discard
      | KResource \<Rightarrow> (\<lambda>g. Inl Unreachable_Code)
      | KUnknown \<Rightarrow> (\<lambda>g. Inl Unreachable_Code)
      | KFixedLengthList _ _ \<Rightarrow> (\<lambda>g. Inl Todo_Code))"

definition deallocate_body ::
    "('b, 'o, 'z, 'a) ctx \<Rightarrow> deallocate_what \<Rightarrow> (ty \<Rightarrow> ('b, 'o) gen step)
      \<Rightarrow> (ty \<Rightarrow> 'o \<Rightarrow> 'z \<Rightarrow> ('b, 'o) gen step) \<Rightarrow> (ty \<Rightarrow> ('b, 'o) gen step)
      \<Rightarrow> ty \<Rightarrow> ('b, 'o) gen step" where
  "deallocate_body cx what de di lif t =
     (case t of
        TString \<Rightarrow> emit cx GuestDeallocateString
      | TId i \<Rightarrow> with_type cx i (deallocate_kind cx what de di lif i)
      | _ \<Rightarrow> discard)"

definition deallocate_indirect_fields ::
    "('b, 'o, 'z, 'a) ctx \<Rightarrow> (ty \<Rightarrow> 'o \<Rightarrow> 'z \<Rightarrow> ('b, 'o) gen step) \<Rightarrow> ty list \<Rightarrow> 'o \<Rightarrow> 'z
      \<Rightarrow> ('b, 'o) gen step" where
  "deallocate_indirect_fields cx di tys addr offset =
     with_sizes cx (\<lambda>sz.
       for_each (sa_field_offsets sz tys) (\<lambda>(field_offset, t).
         di t addr (size_add (cx_env cx) offset field_offset)))"

definition deallocate_indirect_arm ::
    "('b, 'o, 'z, 'a) ctx \<Rightarrow> (ty \<Rightarrow> 'o \<Rightarrow> 'z \<Rightarrow> ('b, 'o) gen step) \<Rightarrow> 'o \<Rightarrow> 'z \<Rightarrow> ty option
      \<Rightarrow> ('b, 'o) gen step" where
  "deallocate_indirect_arm cx di addr payload_offset arm =
     seq [push_block cx,
       (case arm of None \<Rightarrow> Inr | Some t \<Rightarrow> di t addr payload_offset),
       finish_block cx 0]"

definition deallocate_indirect_variant ::
    "('b, 'o, 'z, 'a) ctx \<Rightarrow> (ty \<Rightarrow> 'o \<Rightarrow> 'z \<Rightarrow> ('b, 'o) gen step) \<Rightarrow> 'z \<Rightarrow> 'o \<Rightarrow> int_repr
      \<Rightarrow> ty option list \<Rightarrow> ('b, 'o) gen step" where
  "deallocate_indirect_variant cx di offset addr tag cases =
     seq [push addr,
       load_intrepr cx offset tag,
       with_sizes cx (\<lambda>sz.
         for_each cases (deallocate_indirect_arm cx di addr
           (size_add (cx_env cx) offset (sa_payload_offset sz tag cases))))]"

definition deallocate_indirect_kind ::
    "('b, 'o, 'z, 'a) ctx \<Rightarrow> deallocate_what \<Rightarrow> (ty \<Rightarrow> ('b, 'o) gen step)
      \<Rightarrow> (ty \<Rightarrow> 'o \<Rightarrow> 'z \<Rightarrow> ('b, 'o) gen step) \<Rightarrow> (ty \<Rightarrow> 'o \<Rightarrow> 'z \<Rightarrow> ('b, 'o) gen step)
      \<Rightarrow> tid \<Rightarrow> 'o \<Rightarrow> 'z \<Rightarrow> type_def \<Rightarrow> ('b, 'o) gen step" where
  "deallocate_indirect_kind cx what de di rd i addr offset td =
     (let drop_handle =
            (if handles what then seq [rd (TId i) addr offset, emit cx (DropHandle (TId i))]
             else (\<lambda>g. Inl Unreachable_Code))
      in case td_kind td of
        KType t \<Rightarrow> di t addr offset
      | KList _ \<Rightarrow> seq [load_pointer_and_length cx (TId i) addr offset, de (TId i)]
      | KMap _ _ \<Rightarrow> seq [load_pointer_and_length cx (TId i) addr offset, de (TId i)]
      | KHandle (Own _) \<Rightarrow> drop_handle
      | KFuture _ \<Rightarrow> drop_handle
      | KStream _ \<Rightarrow> drop_handle
      | KHandle (Borrow _) \<Rightarrow> (\<lambda>g. Inl Unreachable_Code)
      | KResource \<Rightarrow> (\<lambda>g. Inl Unreachable_Code)
      | KRecord fs \<Rightarrow> deallocate_indirect_fields cx di (map snd fs) addr offset
      | KTuple tys \<Rightarrow> deallocate_indirect_fields cx di tys addr offset
      | KFlags _ \<Rightarrow> Inr
      | KVariant cases \<Rightarrow>
          seq [deallocate_indirect_variant cx di offset addr
                 (variant_tag (cx_env cx) cases) (map snd cases),
            emit cx (GuestDeallocateVariant (length cases))]
      | KOption t \<Rightarrow>
          seq [deallocate_indirect_variant cx di offset addr IU8 [None, Some t],
            emit cx (GuestDeallocateVariant 2)]
      | KResult ok err \<Rightarrow>
          seq [deallocate_indirect_variant cx di offset addr IU8 [ok, err],
            emit cx (GuestDeallocateVariant 2)]
      | KEnum _ \<Rightarrow> Inr
      | KUnknown \<Rightarrow> (\<lambda>g. Inl Unreachable_Code)
      | KFixedLengthList _ _ \<Rightarrow> Inr)"

definition deallocate_indirect_body ::
    "('b, 'o, 'z, 'a) ctx \<Rightarrow> deallocate_what \<Rightarrow> (ty \<Rightarrow> bool res) \<Rightarrow> (ty \<Rightarrow> ('b, 'o) gen step)
      \<Rightarrow> (ty \<Rightarrow> 'o \<Rightarrow> 'z \<Rightarrow> ('b, 'o) gen step) \<Rightarrow> (ty \<Rightarrow> 'o \<Rightarrow> 'z \<Rightarrow> ('b, 'o) gen step)
      \<Rightarrow> ty \<Rightarrow> 'o \<Rightarrow> 'z \<Rightarrow> ('b, 'o) gen step" where
  "deallocate_indirect_body cx what needs de di rd t addr offset =
     with_res (needs t) (\<lambda>b.
       if \<not> b then Inr
       else
         (case t of
            TString \<Rightarrow> seq [load_pointer_and_length cx t addr offset, de t]
          | TId i \<Rightarrow> with_type cx i (deallocate_indirect_kind cx what de di rd i addr offset)
          | _ \<Rightarrow> Inr))"

fun deallocate ::
    "('b, 'o, 'z, 'a) ctx \<Rightarrow> nat \<Rightarrow> ty \<Rightarrow> deallocate_what \<Rightarrow> ('b, 'o) gen step"
and deallocate_indirect ::
    "('b, 'o, 'z, 'a) ctx \<Rightarrow> nat \<Rightarrow> ty \<Rightarrow> 'o \<Rightarrow> 'z \<Rightarrow> deallocate_what \<Rightarrow> ('b, 'o) gen step" where
  "deallocate cx 0 t what g = Inl Out_Of_Fuel"
| "deallocate cx (Suc n) t what g =
     deallocate_body cx what (\<lambda>t g. deallocate cx n t what g)
       (\<lambda>t a z g. deallocate_indirect cx n t a z what g) (lift cx n) t g"
| "deallocate_indirect cx 0 t addr offset what g = Inl Out_Of_Fuel"
| "deallocate_indirect cx (Suc n) t addr offset what g =
     deallocate_indirect_body cx what (\<lambda>t. needs_deallocate (cx_resolve cx) (Suc n) t what)
       (\<lambda>t g. deallocate cx n t what g) (\<lambda>t a z g. deallocate_indirect cx n t a z what g)
       (read_from_memory cx n) t addr offset g"

section \<open>Entry points\<close>

text \<open>
  \<open>deallocate_in_types\<close>: indirect operands are one pointer to the types laid out as the fields of
  a record, direct operands are split type by type (\<open>split_at\<close> panics when too few are left).
\<close>

definition stack_is_empty :: "('b, 'o) gen step" where
  "stack_is_empty g = check (g_stack g = []) Assert_Failed g"

fun deallocate_direct ::
    "('b, 'o, 'z, 'a) ctx \<Rightarrow> nat \<Rightarrow> ty list \<Rightarrow> 'o list \<Rightarrow> deallocate_what \<Rightarrow> ('b, 'o) gen step" where
  "deallocate_direct cx n [] operands what g = check (operands = []) Assert_Failed g"
| "deallocate_direct cx n (t # ts) operands what g =
     and_then (flat cx t) (\<lambda>types.
       if length operands < length types then Inl Index_Out_Of_Range
       else
         and_then
           (seq [push_all (take (length types) operands), deallocate cx n t what, stack_is_empty] g)
           (deallocate_direct cx n ts (drop (length types) operands) what))"

definition deallocate_in_types ::
    "('b, 'o, 'z, 'a) ctx \<Rightarrow> nat \<Rightarrow> ty list \<Rightarrow> 'o list \<Rightarrow> bool \<Rightarrow> deallocate_what
      \<Rightarrow> ('b, 'o) gen step" where
  "deallocate_in_types cx n types operands indirect what =
     (if indirect then
        (case operands of
           [addr] \<Rightarrow>
             seq [with_sizes cx (\<lambda>sz.
                    for_each (sa_field_offsets sz types) (\<lambda>(offset, t).
                      deallocate_indirect cx n t addr offset what)),
               stack_is_empty]
         | _ \<Rightarrow> (\<lambda>g. Inl Assert_Failed))
      else deallocate_direct cx n types operands what)"

definition deallocate_lists_in_types ::
    "('b, 'o, 'z, 'a) ctx \<Rightarrow> nat \<Rightarrow> ty list \<Rightarrow> 'o list \<Rightarrow> bool \<Rightarrow> 'b \<Rightarrow> 'b res" where
  "deallocate_lists_in_types cx n types operands indirect b =
     and_then (deallocate_in_types cx n types operands indirect DeallocLists (gen_new b))
       (\<lambda>g. Inr (g_bindgen g))"

definition deallocate_lists_and_own_in_types ::
    "('b, 'o, 'z, 'a) ctx \<Rightarrow> nat \<Rightarrow> ty list \<Rightarrow> 'o list \<Rightarrow> bool \<Rightarrow> 'b \<Rightarrow> 'b res" where
  "deallocate_lists_and_own_in_types cx n types operands indirect b =
     and_then (deallocate_in_types cx n types operands indirect DeallocListsAndOwn (gen_new b))
       (\<lambda>g. Inr (g_bindgen g))"

definition option_list :: "'x option \<Rightarrow> 'x list" where
  "option_list x = (case x of None \<Rightarrow> [] | Some v \<Rightarrow> [v])"

text \<open>\<open>Generator::post_return\<close> and the function that runs it on a fresh generator.\<close>

definition gen_post_return :: "('b, 'o, 'z, 'a) ctx \<Rightarrow> nat \<Rightarrow> func \<Rightarrow> ('b, 'o) gen step" where
  "gen_post_return cx n f =
     (let sg = wasm_signature_of (cx_env cx) (cx_resolve cx) GuestExport f in
      seq [check (sig_retptr sg) Assert_Failed,
        emit cx (GetArg 0),
        with_pop (\<lambda>addr.
          deallocate_in_types cx n (option_list (fn_result f)) [addr] True DeallocLists),
        emit cx (Return 0 f)])"

definition post_return :: "('b, 'o, 'z, 'a) ctx \<Rightarrow> nat \<Rightarrow> func \<Rightarrow> 'b \<Rightarrow> 'b res" where
  "post_return cx n f b = and_then (gen_post_return cx n f (gen_new b)) (\<lambda>g. Inr (g_bindgen g))"

end
