(* ===== verification/Abi_Call.thy ===== *)
theory Abi_Call
  imports Abi_Dealloc
begin

text \<open>
  \<open>crates/core/src/abi.rs\<close>: \<open>Generator::call\<close>, which glues a component-level function to its core
  wasm signature in either direction, and the public entry points of the module.
\<close>

section \<open>Pieces shared by both directions\<close>

definition set_realloc :: "realloc option \<Rightarrow> ('b, 'o) gen step" where
  "set_realloc ro g = Inr (g\<lparr>g_realloc := ro\<rparr>)"

definition realloc_is_none :: "('b, 'o) gen step" where
  "realloc_is_none g = check (g_realloc g = None) Assert_Failed g"

definition with_return_pointer ::
    "('b, 'o, 'z, 'a) ctx \<Rightarrow> 'z \<times> 'a \<Rightarrow> ('o \<Rightarrow> ('b, 'o) gen step) \<Rightarrow> ('b, 'o) gen step" where
  "with_return_pointer cx info f g =
     (let (b, ptr) = bg_return_pointer (cx_bindgen cx) (g_bindgen g) (fst info) (snd info)
      in f ptr (g\<lparr>g_bindgen := b\<rparr>))"

text \<open>Whether ownership of lowered lists is passed on.\<close>

definition call_realloc :: "abi_variant \<Rightarrow> lift_lower \<Rightarrow> bool \<Rightarrow> realloc" where
  "call_realloc variant ll async =
     (case (variant, ll, async) of
        (GuestImport, LowerArgsLiftResults, _) \<Rightarrow> ReallocNone
      | (GuestExport, LiftArgsLowerResults, True) \<Rightarrow> ReallocNone
      | (GuestExportAsync, LiftArgsLowerResults, True) \<Rightarrow> ReallocNone
      | (GuestExportAsyncStackful, LiftArgsLowerResults, True) \<Rightarrow> ReallocNone
      | _ \<Rightarrow> ReallocExport ''cabi_realloc'')"

abbreviation param_types :: "func \<Rightarrow> ty list" where
  "param_types f \<equiv> map snd (fn_params f)"

abbreviation result_types :: "func \<Rightarrow> ty list" where
  "result_types f \<equiv> option_list (fn_result f)"

section \<open>Lowering arguments, lifting results\<close>

fun lower_params_to_memory ::
    "('b, 'o, 'z, 'a) ctx \<Rightarrow> nat \<Rightarrow> nat \<Rightarrow> 'z \<Rightarrow> ty list \<Rightarrow> 'o \<Rightarrow> ('b, 'o) gen step" where
  "lower_params_to_memory cx n k offset [] ptr g = push ptr g"
| "lower_params_to_memory cx n k offset (t # ts) ptr g =
     seq [emit cx (GetArg k),
       with_sizes cx (\<lambda>sz.
         (let offset = align_to_arch (cx_env cx) offset (sa_align sz t) in
          seq [write_to_memory cx n t ptr offset,
            with_sizes cx (\<lambda>sz g.
              lower_params_to_memory cx n (Suc k) (size_add (cx_env cx) offset (sa_size sz t))
                ts ptr g)]))] g"

definition lower_params_indirect ::
    "('b, 'o, 'z, 'a) ctx \<Rightarrow> nat \<Rightarrow> func \<Rightarrow> abi_variant \<Rightarrow> ('b, 'o) gen step" where
  "lower_params_indirect cx n f variant =
     with_sizes cx (\<lambda>sz.
       (let info = sa_record sz (param_types f);
            lower_to_memory = lower_params_to_memory cx n 0 (size_zero (cx_env cx)) (param_types f)
        in case variant of
          GuestImport \<Rightarrow> with_return_pointer cx info lower_to_memory
        | GuestImportAsync \<Rightarrow> (\<lambda>g. Inl Todo_Code)
        | GuestExport \<Rightarrow>
            seq [emit cx (Malloc ''cabi_realloc'' (fst info) (snd info)), with_pop lower_to_memory]
        | GuestExportAsync \<Rightarrow> (\<lambda>g. Inl Todo_Code)
        | GuestExportAsyncStackful \<Rightarrow> (\<lambda>g. Inl Todo_Code)))"

definition lower_params_direct ::
    "('b, 'o, 'z, 'a) ctx \<Rightarrow> nat \<Rightarrow> ty list \<Rightarrow> ('b, 'o) gen step" where
  "lower_params_direct cx n tys =
     for_each (enumerate 0 tys) (\<lambda>(k, t). seq [emit cx (GetArg k), lower cx n t])"

definition prepare_return_pointer ::
    "('b, 'o, 'z, 'a) ctx \<Rightarrow> func \<Rightarrow> ('b, 'o) gen step" where
  "prepare_return_pointer cx f =
     with_sizes cx (\<lambda>sz.
       with_return_pointer cx (sa_params sz (result_types f)) (\<lambda>ptr g.
         push ptr (g\<lparr>g_return_pointer := Some ptr\<rparr>)))"

text \<open>Where the results are after the call, when there is a return pointer.\<close>

definition with_result_pointer ::
    "wasm_signature \<Rightarrow> abi_variant \<Rightarrow> ('o \<Rightarrow> ('b, 'o) gen step) \<Rightarrow> ('b, 'o) gen step" where
  "with_result_pointer sg variant f =
     (case variant of
        GuestImport \<Rightarrow>
          (\<lambda>g. if sig_results sg \<noteq> [] then Inl Assert_Failed
             else and_then (unwrap (g_return_pointer g)) (\<lambda>ptr.
               f ptr (g\<lparr>g_return_pointer := None\<rparr>)))
      | GuestExport \<Rightarrow> with_pop f
      | _ \<Rightarrow> (\<lambda>g. Inl Unreachable_Code))"

definition lift_call_results ::
    "('b, 'o, 'z, 'a) ctx \<Rightarrow> nat \<Rightarrow> func \<Rightarrow> wasm_signature \<Rightarrow> abi_variant \<Rightarrow> bool
      \<Rightarrow> ('b, 'o) gen step" where
  "lift_call_results cx n f sg variant async =
     (if sig_retptr sg then
        with_result_pointer sg variant (\<lambda>ptr.
          if variant = GuestExport \<and> async then push ptr
          else
            seq [read_results_from_memory cx (read_from_memory cx n) (result_types f) ptr
                   (size_zero (cx_env cx)),
              emit cx (Flush (of_bool (fn_result f \<noteq> None)))])
      else if \<not> async then
        (case fn_result f of None \<Rightarrow> Inr | Some t \<Rightarrow> lift cx n t)
      else Inr)"

definition call_lower_args ::
    "('b, 'o, 'z, 'a) ctx \<Rightarrow> nat \<Rightarrow> func \<Rightarrow> abi_variant \<Rightarrow> bool \<Rightarrow> ('b, 'o) gen step" where
  "call_lower_args cx n f variant async =
     (let sg = wasm_signature_of (cx_env cx) (cx_resolve cx) variant f in
      seq [set_realloc (Some (call_realloc variant LowerArgsLiftResults async)),
        (if sig_indirect_params sg then lower_params_indirect cx n f variant
         else lower_params_direct cx n (param_types f)),
        set_realloc None,
        (if variant = GuestImport \<and> sig_retptr sg then prepare_return_pointer cx f else Inr),
        (\<lambda>g. check (length (g_stack g) = length (sig_params sg)) Assert_Failed g),
        emit cx (CallWasm (fn_name f) sg),
        lift_call_results cx n f sg variant async,
        (if async then emit cx (AsyncTaskReturn (fn_name f) (sig_results sg))
         else emit cx (Return (of_bool (fn_result f \<noteq> None)) f))])"

section \<open>Lifting arguments, lowering results\<close>

fun read_params_from_memory ::
    "('b, 'o, 'z, 'a) ctx \<Rightarrow> nat \<Rightarrow> 'z \<Rightarrow> ty list \<Rightarrow> 'o \<Rightarrow> ('b, 'o) gen step" where
  "read_params_from_memory cx n offset [] ptr g = Inr g"
| "read_params_from_memory cx n offset (t # ts) ptr g =
     with_sizes cx (\<lambda>sz.
       (let offset = align_to_arch (cx_env cx) offset (sa_align sz t) in
        seq [read_from_memory cx n t ptr offset,
          with_sizes cx (\<lambda>sz g.
            read_params_from_memory cx n (size_add (cx_env cx) offset (sa_size sz t)) ts ptr g)])) g"

fun lift_params_direct ::
    "('b, 'o, 'z, 'a) ctx \<Rightarrow> nat \<Rightarrow> nat \<Rightarrow> nat \<Rightarrow> ty list \<Rightarrow> ('b, 'o) gen step" where
  "lift_params_direct cx n max_flat offset [] g = Inr g"
| "lift_params_direct cx n max_flat offset (t # ts) g =
     (case flat_types (cx_env cx) (cx_resolve cx) t (Some max_flat) of
        None \<Rightarrow> Inl Explicit_Panic
      | Some types \<Rightarrow>
          and_then
            (seq [for_each [offset..<offset + length types] (\<lambda>k. emit cx (GetArg k)),
              lift cx n t] g)
            (lift_params_direct cx n max_flat (offset + length types) ts))"

definition call_max_flat :: "abi_variant \<Rightarrow> bool \<Rightarrow> nat" where
  "call_max_flat variant async =
     (case (variant, async) of
        (GuestImportAsync, True) \<Rightarrow> MAX_FLAT_ASYNC_PARAMS
      | _ \<Rightarrow> MAX_FLAT_PARAMS)"

text \<open>The flat results an async function passes to \<open>task.return\<close>; \<open>None\<close> when there are too many.\<close>

definition async_results ::
    "('b, 'o, 'z, 'a) ctx \<Rightarrow> func \<Rightarrow> nat \<Rightarrow> wasm_type list option" where
  "async_results cx f max_flat =
     (case fn_result f of
        None \<Rightarrow> Some []
      | Some t \<Rightarrow> flat_types (cx_env cx) (cx_resolve cx) t (Some max_flat))"

definition is_guest_export :: "abi_variant \<Rightarrow> bool" where
  "is_guest_export variant =
     (case variant of
        GuestExport \<Rightarrow> True | GuestExportAsync \<Rightarrow> True | GuestExportAsyncStackful \<Rightarrow> True
      | _ \<Rightarrow> False)"

definition deallocate_indirect_params ::
    "('b, 'o, 'z, 'a) ctx \<Rightarrow> func \<Rightarrow> ('b, 'o) gen step" where
  "deallocate_indirect_params cx f =
     with_sizes cx (\<lambda>sz.
       (let info = sa_record sz (param_types f)
        in seq [emit cx (GetArg 0), emit cx (GuestDeallocate (fst info) (snd info))]))"

definition lower_call_results ::
    "('b, 'o, 'z, 'a) ctx \<Rightarrow> nat \<Rightarrow> func \<Rightarrow> wasm_signature \<Rightarrow> abi_variant \<Rightarrow> bool
      \<Rightarrow> ('b, 'o) gen step" where
  "lower_call_results cx n f sg variant to_memory =
     (if \<not> to_memory then
        (case fn_result f of None \<Rightarrow> Inr | Some t \<Rightarrow> lower cx n t)
      else if sig_retptr sg \<and> (variant = GuestImport \<or> variant = GuestImportAsync) then
        (if sig_params sg = [] then (\<lambda>g. Inl Sub_Overflow)
         else
           seq [emit cx (GetArg (length (sig_params sg) - 1)),
             with_pop (\<lambda>ptr.
               write_params_to_memory cx (write_to_memory cx n) (result_types f) ptr
                 (size_zero (cx_env cx)))])
      else
        (case variant of
           GuestImport \<Rightarrow> (\<lambda>g. Inl Unreachable_Code)
         | GuestImportAsync \<Rightarrow> (\<lambda>g. Inl Unreachable_Code)
         | GuestExportAsyncStackful \<Rightarrow> (\<lambda>g. Inl Todo_Code)
         | _ \<Rightarrow>
             with_sizes cx (\<lambda>sz.
               with_return_pointer cx (sa_params sz (result_types f)) (\<lambda>ptr.
                 seq [write_params_to_memory cx (write_to_memory cx n) (result_types f) ptr
                        (size_zero (cx_env cx)),
                   push ptr]))))"

definition emit_call_return ::
    "('b, 'o, 'z, 'a) ctx \<Rightarrow> func \<Rightarrow> wasm_signature \<Rightarrow> abi_variant \<Rightarrow> bool
      \<Rightarrow> wasm_type list option option \<Rightarrow> ('b, 'o) gen step" where
  "emit_call_return cx f sg variant async flat_results =
     (let name = ''[task-return]'' @ fn_name f;
          is_import = (variant = GuestImport \<or> variant = GuestImportAsync)
      in case flat_results of
        None \<Rightarrow>
          if is_import \<and> async then (\<lambda>g. Inl Unreachable_Code)
          else if async then
            emit cx (AsyncTaskReturn name
              (if MAX_FLAT_ASYNC_PARAMS < length (sig_results sg) then [WPointer]
               else sig_results sg))
          else emit cx (Return (length (sig_results sg)) f)
      | Some results \<Rightarrow>
          if is_import \<and> async then
            emit cx (AsyncTaskReturn name (case results of None \<Rightarrow> [] | Some tys \<Rightarrow> tys))
          else emit cx (AsyncTaskReturn name (case results of None \<Rightarrow> [WPointer] | Some tys \<Rightarrow> tys)))"

definition call_lift_args ::
    "('b, 'o, 'z, 'a) ctx \<Rightarrow> nat \<Rightarrow> func \<Rightarrow> abi_variant \<Rightarrow> bool \<Rightarrow> ('b, 'o) gen step" where
  "call_lift_args cx n f variant async =
     (let sg = wasm_signature_of (cx_env cx) (cx_resolve cx) variant f;
          max_flat = call_max_flat variant async;
          flat_results = (if async then Some (async_results cx f max_flat) else None);
          to_memory = (if async then async_results cx f max_flat = None else sig_retptr sg)
      in seq [
        (if sig_indirect_params sg then
           seq [emit cx (GetArg 0),
             with_pop (read_params_from_memory cx n (size_zero (cx_env cx)) (param_types f))]
         else lift_params_direct cx n max_flat 0 (param_types f)),
        emit cx (CallInterface f async),
        (if is_guest_export variant \<and> sig_indirect_params sg \<and> \<not> async
         then deallocate_indirect_params cx f else Inr),
        set_realloc (Some (call_realloc variant LiftArgsLowerResults async)),
        lower_call_results cx n f sg variant to_memory,
        emit_call_return cx f sg variant async flat_results,
        set_realloc None])"

section \<open>The whole call, and the module's entry points\<close>

definition gen_call ::
    "('b, 'o, 'z, 'a) ctx \<Rightarrow> nat \<Rightarrow> func \<Rightarrow> abi_variant \<Rightarrow> lift_lower \<Rightarrow> bool
      \<Rightarrow> ('b, 'o) gen step" where
  "gen_call cx n f variant ll async =
     seq [realloc_is_none,
       (case ll of
          LowerArgsLiftResults \<Rightarrow> call_lower_args cx n f variant async
        | LiftArgsLowerResults \<Rightarrow> call_lift_args cx n f variant async),
       realloc_is_none,
       stack_is_empty]"

definition call ::
    "('b, 'o, 'z, 'a) ctx \<Rightarrow> nat \<Rightarrow> abi_variant \<Rightarrow> lift_lower \<Rightarrow> func \<Rightarrow> 'b \<Rightarrow> bool \<Rightarrow> 'b res" where
  "call cx n variant ll f b async =
     and_then (gen_call cx n f variant ll async (gen_new b)) (\<lambda>g. Inr (g_bindgen g))"

definition lower_to_memory :: "('b, 'o, 'z, 'a) ctx \<Rightarrow> nat \<Rightarrow> 'b \<Rightarrow> 'o \<Rightarrow> 'o \<Rightarrow> ty \<Rightarrow> 'b res" where
  "lower_to_memory cx n b address val t =
     and_then
       (seq [set_realloc (Some (ReallocExport ''cabi_realloc'')), push val,
          write_to_memory cx n t address (size_zero (cx_env cx))] (gen_new b))
       (\<lambda>g. Inr (g_bindgen g))"

definition lower_flat :: "('b, 'o, 'z, 'a) ctx \<Rightarrow> nat \<Rightarrow> 'b \<Rightarrow> 'o \<Rightarrow> ty \<Rightarrow> ('b \<times> 'o list) res" where
  "lower_flat cx n b val t =
     and_then
       (seq [push val, set_realloc (Some (ReallocExport ''cabi_realloc'')), lower cx n t] (gen_new b))
       (\<lambda>g. Inr (g_bindgen g, g_stack g))"

definition lift_from_memory :: "('b, 'o, 'z, 'a) ctx \<Rightarrow> nat \<Rightarrow> 'b \<Rightarrow> 'o \<Rightarrow> ty \<Rightarrow> ('b \<times> 'o) res" where
  "lift_from_memory cx n b address t =
     and_then (read_from_memory cx n t address (size_zero (cx_env cx)) (gen_new b))
       (\<lambda>g. if g_stack g = [] then Inl Unwrap_None else Inr (g_bindgen g, last (g_stack g)))"

end
