(* ===== verification/Abi_Effect.thy ===== *)
theory Abi_Effect
  imports Abi_Call
begin

text \<open>
  The stack effect of a step of the generator: how many operands it takes from the top of the
  stack and how many it leaves there, without touching what lies below, the return pointer or the
  allocator setting. The rules below compute the effect of a block statement by statement; they
  are collected in \<open>eff_basic_intros\<close>.
\<close>

section \<open>The contract of a backend\<close>

text \<open>
  \<open>Bindgen::emit\<close> must push as many results as the instruction says, and \<open>SizeAlign\<close> yields one
  offset per type, in order.
\<close>

definition bindgen_contract :: "('b, 'o, 'z, 'a) ctx \<Rightarrow> bool" where
  "bindgen_contract cx \<longleftrightarrow>
     (\<forall>b i ops. length ops = operands_len (cx_env cx) i \<longrightarrow>
        length (snd (bg_emit (cx_bindgen cx) b (cx_resolve cx) i ops)) = results_len (cx_env cx) i)"

definition sizes_contract :: "('b, 'o, 'z, 'a) ctx \<Rightarrow> bool" where
  "sizes_contract cx \<longleftrightarrow>
     (\<forall>b tys. map snd (sa_field_offsets (bg_sizes (cx_bindgen cx) b) tys) = tys)"

section \<open>Effects\<close>

definition frame :: "('b, 'o) gen \<Rightarrow> ('b, 'o) gen \<Rightarrow> bool" where
  "frame g g' \<longleftrightarrow> g_realloc g' = g_realloc g \<and> g_return_pointer g' = g_return_pointer g"

lemma frame_refl [simp]: "frame g g"
  by (simp add: frame_def)

lemma frame_trans: "frame g h \<Longrightarrow> frame h k \<Longrightarrow> frame g k"
  by (simp add: frame_def)

definition effect :: "realloc option \<Rightarrow> ('b, 'o) gen step \<Rightarrow> nat \<Rightarrow> nat \<Rightarrow> bool" where
  "effect ro f m n \<longleftrightarrow>
     (\<forall>g base args. g_realloc g = ro \<longrightarrow> g_stack g = base @ args \<longrightarrow> length args = m \<longrightarrow>
        (\<exists>g' out. f g = Inr g' \<and> g_stack g' = base @ out \<and> length out = n \<and> frame g g'))"

lemma effectI:
  assumes "\<And>g base args. g_realloc g = ro \<Longrightarrow> g_stack g = base @ args \<Longrightarrow> length args = m \<Longrightarrow>
    \<exists>g' out. f g = Inr g' \<and> g_stack g' = base @ out \<and> length out = n \<and> frame g g'"
  shows "effect ro f m n"
  using assms unfolding effect_def by blast

lemma effectE:
  assumes "effect ro f m n" "g_realloc g = ro" "g_stack g = base @ args" "length args = m"
  obtains g' out where "f g = Inr g'" "g_stack g' = base @ out" "length out = n" "frame g g'"
  using assms unfolding effect_def by blast

text \<open>Operands below those a step takes stay where they are.\<close>

lemma effect_frame:
  fixes f :: "('b, 'o) gen step"
  assumes "effect ro f m n"
  shows "effect ro f (k + m) (k + n)"
proof (rule effectI)
  fix g :: "('b, 'o) gen" and base args
  assume g: "g_realloc g = ro" "g_stack g = base @ args" "length args = k + m"
  then have *: "g_stack g = (base @ take k args) @ drop k args" "length (drop k args) = m"
    by simp_all
  obtain g' out where "f g = Inr g'" "g_stack g' = (base @ take k args) @ out"
    "length out = n" "frame g g'"
    by (rule effectE [OF assms g(1) *])
  moreover have "length (take k args) = k" using g(3) by simp
  ultimately show "\<exists>g' out. f g = Inr g' \<and> g_stack g' = base @ out \<and> length out = k + n \<and> frame g g'"
    by (intro exI [of _ g'] exI [of _ "take k args @ out"]) simp
qed

lemma eff_Nil [intro!]: "d = e \<Longrightarrow> effect ro (seq []) d e"
  by (auto intro!: effectI)

lemma eff_Inr [intro!]: "d = e \<Longrightarrow> effect ro Inr d e"
  by (auto intro!: effectI)

lemma eff_Cons:
  fixes f :: "('b, 'o) gen step"
  assumes "effect ro f m n" "m \<le> d" "effect ro (seq fs) (d - m + n) e"
  shows "effect ro (seq (f # fs)) d e"
proof (rule effectI)
  fix g :: "('b, 'o) gen" and base args
  assume g: "g_realloc g = ro" "g_stack g = base @ args" "length args = d"
  have f: "effect ro f d (d - m + n)"
    using effect_frame [OF assms(1), of "d - m"] assms(2) by simp
  obtain h out where h: "f g = Inr h" "g_stack h = base @ out" "length out = d - m + n" "frame g h"
    by (rule effectE [OF f g])
  have "g_realloc h = ro" using h(4) g(1) by (simp add: frame_def)
  then obtain g' out' where "seq fs h = Inr g'" "g_stack g' = base @ out'" "length out' = e"
    "frame h g'"
    by (rule effectE [OF assms(3) _ h(2,3)])
  then show "\<exists>g' out. seq (f # fs) g = Inr g' \<and> g_stack g' = base @ out \<and> length out = e \<and> frame g g'"
    using h by (auto intro: frame_trans)
qed

lemma eff_single:
  assumes "effect ro (seq [f]) d e"
  shows "effect ro f d e"
proof -
  have "seq [f] = f" by (auto simp: fun_eq_iff and_then_def split: sum.splits)
  with assms show ?thesis by simp
qed

lemma effect_step_eq:
  assumes "\<And>g. g_realloc g = ro \<Longrightarrow> f g = h g" "effect ro h m n"
  shows "effect ro f m n"
  using assms unfolding effect_def by metis

lemma eff_emit:
  fixes cx :: "('b, 'o, 'z, 'a) ctx"
  assumes "bindgen_contract cx"
  shows "effect ro (emit cx i) (operands_len (cx_env cx) i) (results_len (cx_env cx) i)"
proof (rule effectI)
  fix g :: "('b, 'o) gen" and base args
  assume g: "g_stack g = base @ args" "length args = operands_len (cx_env cx) i"
  have "length (snd (bg_emit (cx_bindgen cx) (g_bindgen g) (cx_resolve cx) i args))
    = results_len (cx_env cx) i"
    using assms g(2) unfolding bindgen_contract_def by blast
  then show "\<exists>g' out. emit cx i g = Inr g' \<and> g_stack g' = base @ out \<and>
      length out = results_len (cx_env cx) i \<and> frame g g'"
    using g by (auto simp: emit_def Let_def frame_def split: prod.splits)
qed

lemma eff_emit_Cons:
  assumes "bindgen_contract cx" "operands_len (cx_env cx) i \<le> d"
    "effect ro (seq fs) (d - operands_len (cx_env cx) i + results_len (cx_env cx) i) e"
  shows "effect ro (seq (emit cx i # fs)) d e"
  by (rule eff_Cons [OF eff_emit [OF assms(1)] assms(2,3)])

lemma eff_push_Cons:
  assumes "effect ro (seq fs) (Suc d) e"
  shows "effect ro (seq (push v # fs)) d e"
proof -
  have "effect ro (push v) 0 1"
    by (auto intro!: effectI simp: push_def frame_def)
  then show ?thesis by (rule eff_Cons) (use assms in simp_all)
qed

lemma eff_push_all_Cons:
  assumes "effect ro (seq fs) (d + length vs) e"
  shows "effect ro (seq (push_all vs # fs)) d e"
proof -
  have "effect ro (push_all vs) 0 (length vs)"
    by (auto intro!: effectI simp: push_all_def frame_def)
  then show ?thesis by (rule eff_Cons) (use assms in simp_all)
qed

lemma eff_push_block_Cons:
  assumes "effect ro (seq fs) d e"
  shows "effect ro (seq (push_block cx # fs)) d e"
proof -
  have "effect ro (push_block cx) 0 0"
    by (auto intro!: effectI simp: push_block_def frame_def)
  then show ?thesis by (rule eff_Cons) (use assms in simp_all)
qed

lemma eff_finish_block_Cons:
  assumes "n \<le> d" "effect ro (seq fs) (d - n) e"
  shows "effect ro (seq (finish_block cx n # fs)) d e"
proof -
  have "effect ro (finish_block cx n) n 0"
    by (auto intro!: effectI simp: finish_block_def frame_def)
  then show ?thesis by (rule eff_Cons) (use assms in simp_all)
qed

lemma eff_Inr_Cons: "effect ro (seq fs) d e \<Longrightarrow> effect ro (seq (Inr # fs)) d e"
  by (simp add: effect_def)

lemma eff_seq_Cons:
  assumes "effect ro (seq (gs @ fs)) d e"
  shows "effect ro (seq (seq gs # fs)) d e"
  using assms by (simp add: effect_def seq_append)

lemma eff_with_pop_Cons:
  fixes f :: "'o \<Rightarrow> ('b, 'o) gen step"
  assumes "0 < d" "\<And>v. effect ro (seq (f v # fs)) (d - 1) e"
  shows "effect ro (seq (with_pop f # fs)) d e"
proof (rule effectI)
  fix g :: "('b, 'o) gen" and base args
  assume g: "g_realloc g = ro" "g_stack g = base @ args" "length args = d"
  with assms(1) have ne: "args \<noteq> []" by auto
  let ?h = "g\<lparr>g_stack := base @ butlast args\<rparr>"
  have "seq (with_pop f # fs) g = seq (f (last args) # fs) ?h"
    using g(2) ne by (simp add: with_pop_def butlast_append)
  moreover obtain g' out where "seq (f (last args) # fs) ?h = Inr g'" "g_stack g' = base @ out"
    "length out = e" "frame ?h g'"
    by (rule effectE [OF assms(2), of ?h base "butlast args"]) (use g in simp_all)
  ultimately show "\<exists>g' out. seq (with_pop f # fs) g = Inr g' \<and> g_stack g' = base @ out \<and>
      length out = e \<and> frame g g'"
    by (auto simp: frame_def)
qed

lemma eff_with_drain_Cons:
  fixes f :: "'o list \<Rightarrow> ('b, 'o) gen step"
  assumes "n \<le> d" "\<And>vs. length vs = n \<Longrightarrow> effect ro (seq (f vs # fs)) (d - n) e"
  shows "effect ro (seq (with_drain n f # fs)) d e"
proof (rule effectI)
  fix g :: "('b, 'o) gen" and base args
  assume g: "g_realloc g = ro" "g_stack g = base @ args" "length args = d"
  obtain ys zs where yz: "args = ys @ zs" "length zs = n"
    by (rule split_last_n [of n args]) (use assms(1) g(3) in simp)
  let ?h = "g\<lparr>g_stack := base @ ys\<rparr>"
  have tl: "tail_n n (g_stack g) = zs" "but_tail_n n (g_stack g) = base @ ys"
    using tail_n_append [of zs n "base @ ys"] but_tail_n_append [of zs n "base @ ys"] g(2) yz
    by simp_all
  have "\<not> length (g_stack g) < n" using g(2) yz by simp
  then have "seq (with_drain n f # fs) g = seq (f zs # fs) ?h"
    by (simp add: with_drain_def tl)
  moreover obtain g' out where "seq (f zs # fs) ?h = Inr g'" "g_stack g' = base @ out"
    "length out = e" "frame ?h g'"
    by (rule effectE [OF assms(2) [OF yz(2)], of ?h base ys]) (use g yz in simp_all)
  ultimately show "\<exists>g' out. seq (with_drain n f # fs) g = Inr g' \<and> g_stack g' = base @ out \<and>
      length out = e \<and> frame g g'"
    by (auto simp: frame_def)
qed

lemma eff_with_res_Cons:
  assumes "m = Inr x" "effect ro (seq (f x # fs)) d e"
  shows "effect ro (seq (with_res m f # fs)) d e"
  using assms by (simp add: effect_def with_res_def)

lemma eff_with_type_Cons:
  assumes "valid_id (cx_resolve cx) i" "effect ro (seq (f (r_types (cx_resolve cx) ! i) # fs)) d e"
  shows "effect ro (seq (with_type cx i f # fs)) d e"
  using assms by (intro eff_with_res_Cons) simp_all

lemma eff_with_sizes_Cons:
  assumes "\<And>b. effect ro (seq (f (bg_sizes (cx_bindgen cx) b) # fs)) d e"
  shows "effect ro (seq (with_sizes cx f # fs)) d e"
  using assms by (simp add: effect_def with_sizes_def)

lemma eff_with_list_realloc_Cons:
  assumes "ro \<noteq> None" "\<And>s. effect ro (seq (f s # fs)) d e"
  shows "effect ro (seq (with_list_realloc f # fs)) d e"
proof -
  obtain s where s: "list_realloc ro = Inr s"
  proof -
    from assms(1) obtain r where "ro = Some r" by auto
    then show ?thesis using that by (cases r) (simp_all add: list_realloc_def)
  qed
  show ?thesis
    by (rule effect_step_eq [OF _ assms(2) [of s]]) (simp add: with_list_realloc_def s)
qed

lemma eff_if_Cons:
  assumes "c \<Longrightarrow> effect ro (seq (f # fs)) d e" "\<not> c \<Longrightarrow> effect ro (seq (h # fs)) d e"
  shows "effect ro (seq ((if c then f else h) # fs)) d e"
  using assms by (cases c) simp_all

lemma eff_dynamic_if_Cons:
  assumes "effect ro (seq (f # fs)) d e" "effect ro (seq (h # fs)) d e"
  shows "effect ro (seq ((\<lambda>g. if c g then f g else h g) # fs)) d e"
  using assms by (simp add: effect_def)

text \<open>A loop whose every turn leaves a known number of results.\<close>

lemma eff_for_each:
  assumes "\<And>x. x \<in> set xs \<Longrightarrow> effect ro (f x) 0 (c x)"
  shows "effect ro (for_each xs f) 0 (sum_list (map c xs))"
proof -
  have "effect ro (seq (map f xs)) d (d + sum_list (map c xs))" for d
    using assms
  proof (induction xs arbitrary: d)
    case Nil
    then show ?case by (auto simp del: seq.simps)
  next
    case (Cons x xs)
    have "effect ro (seq (map f xs)) (d + c x) (d + c x + sum_list (map c xs))"
      by (rule Cons.IH) (use Cons.prems in simp)
    with Cons.prems [of x] show ?case
      by (auto intro!: eff_Cons simp: add.assoc simp del: seq.simps)
  qed
  from this [of 0] show ?thesis by (simp add: for_each_def effect_def)
qed

lemma eff_for_each_Cons:
  assumes "\<And>x. x \<in> set xs \<Longrightarrow> effect ro (f x) 0 (c x)"
    "effect ro (seq fs) (d + sum_list (map c xs)) e"
  shows "effect ro (seq (for_each xs f # fs)) d e"
  by (rule eff_Cons [OF eff_for_each [OF assms(1)]]) (use assms(2) in simp_all)

text \<open>A loop that takes one operand per turn.\<close>

lemma eff_for_each_pop:
  assumes "\<And>x. x \<in> set xs \<Longrightarrow> effect ro (f x) 1 0"
  shows "effect ro (for_each xs f) (length xs) 0"
proof -
  have "effect ro (seq (map f xs)) (length xs) 0"
    using assms
  proof (induction xs)
    case Nil
    then show ?case by (auto simp del: seq.simps)
  next
    case (Cons x xs)
    then show ?case by (auto intro!: eff_Cons [of _ _ 1 0] simp del: seq.simps)
  qed
  then show ?thesis by (simp add: for_each_def effect_def)
qed

lemmas eff_basic_intros =
  eff_emit_Cons eff_push_Cons eff_push_all_Cons eff_push_block_Cons eff_finish_block_Cons
  eff_Inr_Cons eff_seq_Cons eff_with_pop_Cons eff_with_drain_Cons eff_with_type_Cons
  eff_with_sizes_Cons eff_with_list_realloc_Cons eff_Nil

declare seq.simps [simp del]

end
