(* ===== verification/Abi_Stack.thy ===== *)
theory Abi_Stack
  imports Abi_Effect
begin

text \<open>
  The stack discipline of the generator: on well-formed types and with a backend that keeps its
  contract, lowering, lifting, writing, reading and deallocating never panic, and each leaves on
  the stack exactly the operands its counterpart takes.
\<close>

section \<open>Well-formed types\<close>

text \<open>
  \<open>F\<close> is the canonical flattening of a type without a bound and \<open>rk\<close> a rank that shows the types
  are not recursive. Two flat types can share a slot when they can be cast into each other.
\<close>

definition castable :: "wasm_type \<Rightarrow> wasm_type \<Rightarrow> bool" where
  "castable a b \<longleftrightarrow> isl (cast a b) = False \<and> isl (cast b a) = False"

definition flat_contract :: "('b, 'o, 'z, 'a) ctx \<Rightarrow> (ty \<Rightarrow> wasm_type list) \<Rightarrow> bool" where
  "flat_contract cx F \<longleftrightarrow>
     (\<forall>t m. fst (push_flat (cx_env cx) (cx_resolve cx) t m) = (length (F t) \<le> m) \<and>
        (length (F t) \<le> m \<longrightarrow> snd (push_flat (cx_env cx) (cx_resolve cx) t m) = F t))"

definition repr_contract :: "('z, 'a) wit_env \<Rightarrow> bool" where
  "repr_contract E \<longleftrightarrow>
     repr_count E FlagsU8 = 1 \<and> repr_count E FlagsU16 = 1 \<and> (\<forall>n. repr_count E (FlagsU32 n) = n)"

definition arm_fits :: "(ty \<Rightarrow> wasm_type list) \<Rightarrow> wasm_type list \<Rightarrow> ty option \<Rightarrow> bool" where
  "arm_fits F R arm =
     (case arm of
        None \<Rightarrow> True
      | Some t \<Rightarrow> length (F t) < length R \<and> list_all2 castable (F t) (take (length (F t)) (tl R)))"

definition variant_fits ::
    "(ty \<Rightarrow> wasm_type list) \<Rightarrow> wasm_type list \<Rightarrow> ty option list \<Rightarrow> bool" where
  "variant_fits F R arms \<longleftrightarrow> R \<noteq> [] \<and> (\<forall>arm \<in> set arms. arm_fits F R arm)"

definition scalar_flat :: "(ty \<Rightarrow> wasm_type list) \<Rightarrow> bool" where
  "scalar_flat F \<longleftrightarrow>
     (\<forall>t \<in> {TBool, TU8, TS8, TU16, TS16, TU32, TS32, TU64, TS64, TF32, TF64, TChar, TErrorContext}.
        length (F t) = 1) \<and> length (F TString) = 2"

definition kind_flat :: "('z, 'a) wit_env \<Rightarrow> (ty \<Rightarrow> wasm_type list) \<Rightarrow> tid \<Rightarrow> kind \<Rightarrow> bool" where
  "kind_flat E F i k =
     (case k of
        KType t \<Rightarrow> F (TId i) = F t
      | KList _ \<Rightarrow> length (F (TId i)) = 2
      | KMap _ _ \<Rightarrow> length (F (TId i)) = 2
      | KHandle _ \<Rightarrow> length (F (TId i)) = 1
      | KFuture _ \<Rightarrow> length (F (TId i)) = 1
      | KStream _ \<Rightarrow> length (F (TId i)) = 1
      | KEnum _ \<Rightarrow> length (F (TId i)) = 1
      | KFlags fl \<Rightarrow>
          length (F (TId i)) = repr_count E (flags_repr_of E fl) \<and> length (F (TId i)) \<le> 16
      | KRecord fs \<Rightarrow> F (TId i) = concat (map F (map snd fs))
      | KTuple tys \<Rightarrow> F (TId i) = concat (map F tys)
      | KFixedLengthList t n \<Rightarrow>
          0 < unat n \<and> F (TId i) = concat (map F (replicate (unat n) t))
      | KVariant cases \<Rightarrow> variant_fits F (F (TId i)) (map snd cases)
      | KOption t \<Rightarrow> variant_fits F (F (TId i)) [None, Some t]
      | KResult ok err \<Rightarrow> variant_fits F (F (TId i)) [ok, err]
      | KResource \<Rightarrow> True
      | KUnknown \<Rightarrow> True)"

text \<open>The types a method recurses into; the payload of a future, stream or handle is not one.\<close>

definition kind_types :: "kind \<Rightarrow> ty list" where
  "kind_types k =
     (case k of
        KType t \<Rightarrow> [t]
      | KList t \<Rightarrow> [t]
      | KMap a b \<Rightarrow> [a, b]
      | KRecord fs \<Rightarrow> map snd fs
      | KTuple tys \<Rightarrow> tys
      | KFixedLengthList t _ \<Rightarrow> [t]
      | KVariant cases \<Rightarrow> List.map_filter snd cases
      | KOption t \<Rightarrow> [t]
      | KResult ok err \<Rightarrow> List.map_filter id [ok, err]
      | _ \<Rightarrow> [])"

definition named :: "resolve \<Rightarrow> type_def \<Rightarrow> bool" where
  "named r td =
     (case td_kind td of
        KRecord _ \<Rightarrow> td_name td \<noteq> None
      | KFlags _ \<Rightarrow> td_name td \<noteq> None
      | KVariant _ \<Rightarrow> td_name td \<noteq> None
      | KEnum _ \<Rightarrow> td_name td \<noteq> None
      | KHandle h \<Rightarrow> valid_id r (handle_tid h) \<and> td_name (r_types r ! handle_tid h) \<noteq> None
      | _ \<Rightarrow> True)"

text \<open>
  A type that a value can have: nothing it is made of is a resource itself, or unknown. Other types
  may be in the arena too, such as resources and aliases of them.
\<close>

inductive usable :: "resolve \<Rightarrow> ty \<Rightarrow> bool" for r where
  usable_scalar: "\<forall>i. t \<noteq> TId i \<Longrightarrow> usable r t"
| usable_id: "valid_id r i \<Longrightarrow> kind_at r i \<noteq> KResource \<Longrightarrow> kind_at r i \<noteq> KUnknown \<Longrightarrow>
    \<forall>t \<in> set (kind_types (kind_at r i)). usable r t \<Longrightarrow> usable r (TId i)"

inductive_simps usable_TId: "usable r (TId i)"

inductive_simps usable_scalars [simp]:
  "usable r TBool" "usable r TU8" "usable r TU16" "usable r TU32" "usable r TU64"
  "usable r TS8" "usable r TS16" "usable r TS32" "usable r TS64" "usable r TF32" "usable r TF64"
  "usable r TChar" "usable r TString" "usable r TErrorContext"

definition wf_types ::
    "('z, 'a) wit_env \<Rightarrow> resolve \<Rightarrow> (ty \<Rightarrow> wasm_type list) \<Rightarrow> (tid \<Rightarrow> nat) \<Rightarrow> bool" where
  "wf_types E r F rk \<longleftrightarrow>
     scalar_flat F \<and>
     (\<forall>i. usable r (TId i) \<longrightarrow>
        named r (r_types r ! i) \<and> kind_flat E F i (kind_at r i) \<and>
        (\<forall>t \<in> set (kind_types (kind_at r i)). ty_rank rk t \<le> rk i))"

text \<open>Everything the stack discipline relies on.\<close>

definition abi_ok ::
    "('b, 'o, 'z, 'a) ctx \<Rightarrow> (ty \<Rightarrow> wasm_type list) \<Rightarrow> (tid \<Rightarrow> nat) \<Rightarrow> bool" where
  "abi_ok cx F rk \<longleftrightarrow>
     bindgen_contract cx \<and> sizes_contract cx \<and> flat_contract cx F \<and> repr_contract (cx_env cx) \<and>
     wf_types (cx_env cx) (cx_resolve cx) F rk"

lemma abi_okD:
  assumes "abi_ok cx F rk"
  shows "bindgen_contract cx" "sizes_contract cx" "flat_contract cx F" "repr_contract (cx_env cx)"
    "wf_types (cx_env cx) (cx_resolve cx) F rk"
  using assms by (simp_all add: abi_ok_def)

lemma flat_ok:
  assumes "flat_contract cx F" "length (F t) \<le> 16"
  shows "flat cx t = Inr (F t)"
proof -
  have "fst (push_flat (cx_env cx) (cx_resolve cx) t 16) = (length (F t) \<le> 16)"
    "length (F t) \<le> 16 \<longrightarrow> snd (push_flat (cx_env cx) (cx_resolve cx) t 16) = F t"
    using assms(1) unfolding flat_contract_def by blast+
  with assms(2) show ?thesis
    by (simp add: flat_types_def MAX_FLAT_PARAMS_def split_beta)
qed

lemma length_concat_ge: "xs \<in> set xss \<Longrightarrow> length xs \<le> length (concat xss)"
  by (simp add: length_concat member_le_sum_list)

lemma enumerate_snd: "x \<in> set (enumerate n xs) \<Longrightarrow> snd x \<in> set xs"
  by (metis enumerate_eq_zip prod.collapse set_zip_rightD)

lemma in_zip_fst: "x \<in> set (zip xs ys) \<Longrightarrow> fst x \<in> set xs"
  by (metis prod.collapse set_zip_leftD)

section \<open>Variants\<close>

lemma eff_emit_casts:
  assumes "bindgen_contract cx" "\<And>p. p \<in> set ps \<Longrightarrow> \<exists>c. cast (fst p) (snd p) = Inr c"
  shows "effect ro (emit_casts cx ps) (length ps) (length ps)"
proof -
  obtain cs where cs: "map_res (\<lambda>(from, to). cast from to) ps = Inr cs"
    using map_res_ok [of ps "\<lambda>(from, to). cast from to"] assms(2) by (auto simp: split_beta)
  have len: "length cs = length ps" using map_res_length [OF cs] by simp
  have "effect ro (if \<exists>c\<in>set cs. c \<noteq> NoCast then emit cx (Bitcasts cs) else Inr) (length ps) (length ps)"
    using eff_emit [OF assms(1), of ro "Bitcasts cs"] len by auto
  then show ?thesis by (simp add: emit_casts_def effect_def with_res_def cs)
qed

lemma castableD:
  assumes "castable a b"
  shows "\<exists>c. cast a b = Inr c" "\<exists>c. cast b a = Inr c"
  using assms unfolding castable_def by (cases "cast a b"; cases "cast b a"; simp)+

lemma castable_zip:
  assumes "list_all2 castable xs (take (length xs) ys)" "p \<in> set (zip xs ys)"
  shows "\<exists>c. cast (fst p) (snd p) = Inr c" "\<exists>c. cast (snd p) (fst p) = Inr c"
proof -
  from assms(2) obtain i where i: "i < length xs" "i < length ys" "p = (xs ! i, ys ! i)"
    by (auto simp: set_zip)
  have c: "castable (xs ! i) (ys ! i)"
    using list_all2_nthD [OF assms(1) i(1)] i by simp
  show "\<exists>c. cast (fst p) (snd p) = Inr c" "\<exists>c. cast (snd p) (fst p) = Inr c"
    using castableD [OF c] i(3) by simp_all
qed

lemma eff_pad_zeros:
  assumes "bindgen_contract cx" "p \<le> length R"
  shows "effect ro (pad_zeros cx p R) 0 (length R - p)"
proof (cases "p < length R")
  case True
  then show ?thesis
    using eff_emit [OF assms(1), of ro "ConstZero (drop p R)"] by (simp add: pad_zeros_def)
next
  case False
  with assms(2) show ?thesis by (auto simp: pad_zeros_def)
qed

lemma arm_fits_Some:
  assumes "arm_fits F R (Some t)" "R \<noteq> []"
  shows "length (F t) < length R" "list_all2 castable (F t) (take (length (F t)) (tl R))"
    "slice_from_1 R = Inr (tl R)" "length (zip (F t) (tl R)) = length (F t)"
    "length (zip (tl R) (F t)) = length (F t)"
  using assms by (cases R; simp add: arm_fits_def slice_from_1_def)+

lemma eff_lower_variant_arm:
  assumes B: "bindgen_contract cx" and FC: "flat_contract cx F"
    and R: "R \<noteq> []" "length R \<le> 16" and fits: "arm_fits F R (snd arm)"
    and low: "\<And>t. snd arm = Some t \<Longrightarrow> effect ro (low t) 1 (length (F t))"
  shows "effect ro (lower_variant_arm cx low R arm) 0 0"
proof (cases "snd arm")
  case None
  have pz: "effect ro (pad_zeros cx (Suc 0) R) 0 (length R - Suc 0)"
    by (rule eff_pad_zeros [OF B]) (use R in \<open>cases R; simp\<close>)
  show ?thesis
    unfolding lower_variant_arm_def None using R(1)
    by (auto intro!: eff_basic_intros B eff_Cons [OF pz] simp: Suc_leI)
next
  case (Some t)
  note ft = arm_fits_Some [OF fits [unfolded Some] R(1)]
  have fl: "flat cx t = Inr (F t)" by (rule flat_ok [OF FC]) (use ft R in simp)
  have ec: "effect ro (emit_casts cx (zip (F t) (tl R))) (length (F t)) (length (F t))"
    using eff_emit_casts [where ps = "zip (F t) (tl R)" and ro = ro, OF B castable_zip(1) [OF ft(2)]]
    unfolding ft(4) .
  have pz: "effect ro (pad_zeros cx (1 + length (F t)) R) 0 (length R - (1 + length (F t)))"
    by (rule eff_pad_zeros [OF B]) (use ft in simp)
  show ?thesis
    unfolding lower_variant_arm_def Some using ft(1)
    by (auto intro!: eff_basic_intros B eff_Cons [OF low [OF Some]] eff_with_res_Cons [OF fl]
        eff_with_res_Cons [OF ft(3)] eff_Cons [OF ec] eff_Cons [OF pz [simplified]]) arith
qed

lemma variant_arm_in:
  "variant_fits F R cases \<Longrightarrow> arm \<in> set cases \<Longrightarrow> arm_fits F R arm"
  "variant_fits F R cases \<Longrightarrow> R \<noteq> []"
  by (simp_all add: variant_fits_def)

lemma eff_lower_variant_arms:
  assumes B: "bindgen_contract cx" and FC: "flat_contract cx F"
    and len: "length (F t) \<le> 16" and fits: "variant_fits F (F t) cases"
    and low: "\<And>u. Some u \<in> set cases \<Longrightarrow> effect ro (low u) 1 (length (F u))"
    and fin: "effect ro (then_emit (F t)) 1 n"
  shows "effect ro (lower_variant_arms cx low t cases then_emit) 1 n"
proof -
  have "effect ro (for_each (enumerate 0 cases) (lower_variant_arm cx low (F t))) 0
      (sum_list (map (\<lambda>_. 0) (enumerate 0 cases)))"
  proof (rule eff_for_each)
    fix x assume "x \<in> set (enumerate 0 cases)"
    then have x: "snd x \<in> set cases" by (rule enumerate_snd)
    show "effect ro (lower_variant_arm cx low (F t) x) 0 0"
      by (rule eff_lower_variant_arm [OF B FC variant_arm_in(2) [OF fits] len
            variant_arm_in(1) [OF fits x]]) (use low x in auto)
  qed
  then have arms: "effect ro (for_each (enumerate 0 cases) (lower_variant_arm cx low (F t))) 0 0"
    by simp
  have "effect ro (seq [lower_variant_arms cx low t cases then_emit]) 1 n"
    unfolding lower_variant_arms_def
    by (rule eff_with_res_Cons [OF flat_ok [OF FC len]])
      (auto intro!: eff_basic_intros eff_Cons [OF arms] eff_Cons [OF fin])
  then show ?thesis by (rule eff_single)
qed

section \<open>Lowering\<close>

lemma sum_list_zip_fst:
  "length xs = length ys \<Longrightarrow> sum_list (map (\<lambda>(x, y). f x) (zip xs ys)) = sum_list (map f xs)"
  by (induction xs ys rule: list_induct2) simp_all

lemma eff_lower_components:
  assumes "\<And>t. t \<in> set tys \<Longrightarrow> effect ro (low t) 1 (length (F t))"
  shows "effect ro (lower_components low tys) (length tys) (length (concat (map F tys)))"
proof -
  have "effect ro (for_each (zip tys vals) (\<lambda>(t, v). seq [push v, low t])) 0
      (length (concat (map F tys)))" if "length vals = length tys" for vals
  proof -
    have "effect ro (for_each (zip tys vals) (\<lambda>(t, v). seq [push v, low t])) 0
        (sum_list (map (\<lambda>(t, v). length (F t)) (zip tys vals)))"
    proof (rule eff_for_each)
      fix x assume "x \<in> set (zip tys vals)"
      then obtain t v where x: "x = (t, v)" "t \<in> set tys" by (metis in_zip_fst prod.collapse)
      show "effect ro (case x of (t, v) \<Rightarrow> seq [push v, low t]) 0
          (case x of (t, v) \<Rightarrow> length (F t))"
        using x by (auto intro!: eff_basic_intros eff_Cons [OF assms])
    qed
    then show ?thesis
      using that by (simp add: sum_list_zip_fst length_concat comp_def)
  qed
  note fe = this
  show ?thesis
    unfolding lower_components_def
    by (rule eff_single) (auto intro!: eff_basic_intros eff_Cons [OF fe])
qed

lemma eff_write_fields:
  assumes S: "sizes_contract cx"
    and wr: "\<And>t a z. t \<in> set tys \<Longrightarrow> effect ro (wr t a z) 1 0"
  shows "effect ro (write_fields_to_memory cx wr tys addr offset) (length tys) 0"
proof -
  let ?offs = "\<lambda>b. sa_field_offsets (bg_sizes (cx_bindgen cx) b) tys"
  let ?turn = "\<lambda>((field_offset, t), op). seq [push op, wr t addr (size_add (cx_env cx) offset field_offset)]"
  have "effect ro (for_each (zip (?offs b) ops) ?turn) 0
      (sum_list (map (\<lambda>_. 0) (zip (?offs b) ops)))" for b ops
  proof (rule eff_for_each)
    fix x assume "x \<in> set (zip (?offs b) ops)"
    then obtain z t v where x: "x = ((z, t), v)" "(z, t) \<in> set (?offs b)"
      by (metis in_zip_fst prod.collapse)
    have "map snd (?offs b) = tys" using S by (simp add: sizes_contract_def)
    then have "t \<in> set tys" using x(2) by (metis image_eqI list.set_map snd_conv)
    then show "effect ro (?turn x) 0 0"
      using x(1) by (auto intro!: eff_basic_intros eff_Cons [OF wr])
  qed
  then have fe: "effect ro (for_each (zip (?offs b) ops) ?turn) 0 0" for b ops by simp
  show ?thesis
    unfolding write_fields_to_memory_def
    by (rule eff_single) (auto intro!: eff_basic_intros eff_Cons [OF fe])
qed

lemma eff_store_intrepr:
  assumes "bindgen_contract cx"
  shows "effect ro (store_intrepr cx offset repr) 2 0"
  unfolding store_intrepr_def
  by (cases repr; rule eff_single; auto intro!: eff_basic_intros assms)

lemma eff_load_intrepr:
  assumes "bindgen_contract cx"
  shows "effect ro (load_intrepr cx offset repr) 1 1"
  unfolding load_intrepr_def
  by (cases repr; rule eff_single; auto intro!: eff_basic_intros assms)

lemma eff_write_variant_arms:
  assumes B: "bindgen_contract cx"
    and wr: "\<And>t a z. Some t \<in> set cases \<Longrightarrow> effect ro (wr t a z) 1 0"
  shows "effect ro (write_variant_arms_to_memory cx wr offset addr tag cases) 0 0"
proof -
  have arm: "effect ro (write_variant_arm_to_memory cx wr offset addr tag z x) 0 0"
    if "x \<in> set (enumerate 0 cases)" for x z
  proof -
    have x: "snd x \<in> set cases" by (rule enumerate_snd [OF that])
    show ?thesis
    proof (cases "snd x")
      case None
      then show ?thesis
        unfolding write_variant_arm_to_memory_def
        by (auto intro!: eff_basic_intros B eff_Cons [OF eff_store_intrepr [OF B]])
    next
      case (Some t)
      then show ?thesis
        unfolding write_variant_arm_to_memory_def using x
        by (auto intro!: eff_basic_intros B eff_Cons [OF eff_store_intrepr [OF B]] eff_Cons [OF wr])
    qed
  qed
  have "effect ro (for_each (enumerate 0 cases)
      (write_variant_arm_to_memory cx wr offset addr tag z)) 0 (sum_list (map (\<lambda>_. 0) (enumerate 0 cases)))" for z
    by (rule eff_for_each) (rule arm)
  then have fe: "effect ro (for_each (enumerate 0 cases)
      (write_variant_arm_to_memory cx wr offset addr tag z)) 0 0" for z
    by simp
  show ?thesis
    unfolding write_variant_arms_to_memory_def
    by (rule eff_single) (auto intro!: eff_basic_intros eff_Cons [OF fe])
qed

lemma eff_lower_list:
  assumes B: "bindgen_contract cx" and ro: "ro \<noteq> None"
    and wr: "\<And>a z. effect ro (wr t a z) 1 0"
  shows "effect ro (lower_list cx wr t) 1 2"
proof -
  have canon: "effect ro (emit cx (ListCanonLower t s)) 1 2" for s
    using eff_emit [OF B, of ro "ListCanonLower t s"] by simp
  have loop: "effect ro (seq [push_block cx, emit cx (IterElem t), emit cx IterBasePointer,
      with_pop (\<lambda>addr. wr t addr (size_zero (cx_env cx))), finish_block cx 0,
      emit cx (ListLower t s)]) 1 2" for s
    by (auto intro!: eff_basic_intros B eff_Cons [OF wr])
  have "effect ro (\<lambda>g. if bg_is_list_canonical (cx_bindgen cx) (g_bindgen g) (cx_resolve cx) t
       then emit cx (ListCanonLower t s) g
       else seq [push_block cx, emit cx (IterElem t), emit cx IterBasePointer,
         with_pop (\<lambda>addr. wr t addr (size_zero (cx_env cx))), finish_block cx 0,
         emit cx (ListLower t s)] g) 1 2" for s
    using canon [of s] loop [of s] by (simp add: effect_def)
  note body = eff_Cons [OF this]
  show ?thesis
    unfolding lower_list_def
    by (rule eff_single, rule eff_with_list_realloc_Cons [OF ro])
      (rule body; auto intro!: eff_basic_intros)
qed

lemma eff_with_value_offset_Cons:
  assumes S: "sizes_contract cx"
    and "\<And>z. effect ro (seq (f z # fs)) d e"
  shows "effect ro (seq (with_res (map_value_offset (bg_sizes (cx_bindgen cx) b) key val) f # fs)) d e"
proof -
  let ?offs = "sa_field_offsets (bg_sizes (cx_bindgen cx) b) [key, val]"
  have "map snd ?offs = [key, val]"
    using S by (simp add: sizes_contract_def)
  then have "length ?offs = 2" by (metis length_map length_Cons list.size(3) numeral_2_eq_2)
  then obtain z where "map_value_offset (bg_sizes (cx_bindgen cx) b) key val = Inr z"
    by (simp add: map_value_offset_def)
  then show ?thesis by (rule eff_with_res_Cons) (rule assms(2))
qed

lemma eff_lower_map:
  assumes B: "bindgen_contract cx" and S: "sizes_contract cx" and ro: "ro \<noteq> None"
    and wr: "\<And>a z. effect ro (wr key a z) 1 0" "\<And>a z. effect ro (wr val a z) 1 0"
  shows "effect ro (lower_map cx wr key val) 1 2"
  unfolding lower_map_def
  by (rule eff_single, rule eff_with_list_realloc_Cons [OF ro])
    (auto intro!: eff_basic_intros eff_with_value_offset_Cons [OF S] B
      eff_Cons [OF wr(1)] eff_Cons [OF wr(2)])

lemma eff_lower_and_emit:
  assumes B: "bindgen_contract cx" and low: "effect ro (low t) 1 1"
    and i: "operands_len (cx_env cx) inst = 2" "results_len (cx_env cx) inst = 0"
  shows "effect ro (lower_and_emit cx low t addr inst) 1 0"
  unfolding lower_and_emit_def
  using i by (auto intro!: eff_basic_intros B eff_Cons [OF low])

lemma eff_write_list_to_memory:
  assumes B: "bindgen_contract cx" and low: "effect ro (low t) 1 2"
  shows "effect ro (write_list_to_memory cx low t addr offset) 1 0"
  unfolding write_list_to_memory_def
  by (auto intro!: eff_basic_intros B eff_Cons [OF low])

lemma eff_write_flags:
  assumes B: "bindgen_contract cx" and R: "repr_contract (cx_env cx)"
    and low: "effect ro (low t) 1 (repr_count (cx_env cx) (flags_repr_of (cx_env cx) flags))"
  shows "effect ro (write_flags_to_memory cx low flags t addr offset) 1 0"
proof (cases "flags_repr_of (cx_env cx) flags")
  case (FlagsU32 n)
  let ?store = "\<lambda>k. seq [push addr, emit cx (I32Store (size_add_bytes (cx_env cx) offset (k * 4)))]"
  have "effect ro (for_each (rev [0..<n]) ?store) (length (rev [0..<n])) 0"
    by (rule eff_for_each_pop) (auto intro!: eff_basic_intros B)
  then have fe: "effect ro (for_each (rev [0..<n]) ?store) n 0" by simp
  have "effect ro (low t) 1 n" using low R FlagsU32 by (simp add: repr_contract_def)
  note l = eff_Cons [OF this]
  show ?thesis
    unfolding write_flags_to_memory_def FlagsU32
    by (auto intro!: eff_basic_intros B l eff_Cons [OF fe])
next
  case FlagsU8
  then have "effect ro (low t) 1 1" using low R by (simp add: repr_contract_def)
  note l = eff_Cons [OF this]
  show ?thesis
    unfolding write_flags_to_memory_def FlagsU8
    by (auto intro!: eff_basic_intros B l eff_Cons [OF eff_store_intrepr [OF B]])
next
  case FlagsU16
  then have "effect ro (low t) 1 1" using low R by (simp add: repr_contract_def)
  note l = eff_Cons [OF this]
  show ?thesis
    unfolding write_flags_to_memory_def FlagsU16
    by (auto intro!: eff_basic_intros B l eff_Cons [OF eff_store_intrepr [OF B]])
qed

lemma eff_emit_eq:
  assumes "bindgen_contract cx" "operands_len (cx_env cx) i = m" "results_len (cx_env cx) i = n"
  shows "effect ro (emit cx i) m n"
  using eff_emit [OF assms(1), of ro i] assms(2,3) by simp

lemma eff_with_type:
  assumes "valid_id (cx_resolve cx) i" "effect ro (f (r_types (cx_resolve cx) ! i)) m n"
  shows "effect ro (with_type cx i f) m n"
  using assms by (simp add: effect_def with_res_def)

lemma eff_with_some:
  assumes "effect ro (f x) m n"
  shows "effect ro (with_res (unwrap (Some x)) f) m n"
  using assms by (simp add: effect_def with_res_def)

lemma eff_with_name:
  assumes "td_name td \<noteq> None" "\<And>x. effect ro (f x) m n"
  shows "effect ro (with_name td f) m n"
  using assms eff_with_some by fastforce

lemma wf_kind:
  assumes "wf_types E r F rk" "usable r (TId i)"
  shows "named r (r_types r ! i)" "kind_flat E F i (kind_at r i)"
    "\<And>t. t \<in> set (kind_types (kind_at r i)) \<Longrightarrow> usable r t \<and> ty_rank rk t \<le> rk i"
  using assms by (auto simp: wf_types_def usable_TId)

lemma eff_lower_kind:
  assumes ok: "abi_ok cx F rk" and ro: "ro \<noteq> None" and us: "usable (cx_resolve cx) (TId i)"
    and len: "length (F (TId i)) \<le> 16"
    and low: "\<And>t. t \<in> set (kind_types (kind_at (cx_resolve cx) i)) \<Longrightarrow> length (F t) \<le> 16
        \<Longrightarrow> effect ro (low t) 1 (length (F t))"
    and wr: "\<And>t a z. t \<in> set (kind_types (kind_at (cx_resolve cx) i)) \<Longrightarrow> effect ro (wr t a z) 1 0"
  shows "effect ro (lower_kind cx low wr i (r_types (cx_resolve cx) ! i)) 1 (length (F (TId i)))"
proof -
  let ?r = "cx_resolve cx"
  let ?td = "r_types ?r ! i"
  note B = abi_okD(1) [OF ok] and S = abi_okD(2) [OF ok] and FC = abi_okD(3) [OF ok]
    and RC = abi_okD(4) [OF ok]
  have vi: "valid_id ?r i" and nr: "td_kind ?td \<noteq> KResource" "td_kind ?td \<noteq> KUnknown"
    using us by (simp_all add: usable_TId)
  note w = wf_kind [OF abi_okD(5) [OF ok] us]
  note fl = w(2) [unfolded kind_flat_def] and nm = w(1) [unfolded named_def]
  have comps: "effect ro (lower_components low tys) (length tys) (length (concat (map F tys)))"
    if "\<And>t. t \<in> set tys \<Longrightarrow> t \<in> set (kind_types (td_kind ?td))"
      "length (concat (map F tys)) \<le> 16" for tys
  proof (rule eff_lower_components)
    fix t assume t: "t \<in> set tys"
    then have "length (F t) \<le> length (concat (map F tys))" by (intro length_concat_ge) simp
    then show "effect ro (low t) 1 (length (F t))" by (intro low that t) (use that(2) in simp)
  qed
  have arms: "effect ro (lower_variant_arms cx low (TId i) cases fin) 1 (length (F (TId i)))"
    if fits: "variant_fits F (F (TId i)) cases"
      and sub: "\<And>u. Some u \<in> set cases \<Longrightarrow> u \<in> set (kind_types (td_kind ?td))"
      and fin: "effect ro (fin (F (TId i))) 1 (length (F (TId i)))"
    for cases fin
  proof (rule eff_lower_variant_arms [where F = F and t = "TId i" and then_emit = fin, OF B FC len fits _ fin])
    fix u assume u: "Some u \<in> set cases"
    have "arm_fits F (F (TId i)) (Some u)" "F (TId i) \<noteq> []"
      using variant_arm_in [OF fits] u by auto
    then have "length (F u) < length (F (TId i))" by (rule arm_fits_Some)
    then show "effect ro (low u) 1 (length (F u))" by (intro low sub u) (use len in simp)
  qed
  show ?thesis
  proof (cases "td_kind ?td")
    case (KRecord fs)
    then have L: "length (F (TId i)) = length (concat (map F (map snd fs)))" and n: "td_name ?td \<noteq> None"
      using fl nm by simp_all
    have c: "effect ro (lower_components low (map snd fs)) (length fs) (length (F (TId i)))"
      using comps [of "map snd fs"] KRecord len unfolding L by (simp add: kind_types_def)
    show ?thesis
      unfolding lower_kind_def KRecord kind.case
      by (rule eff_with_name [OF n]) (auto intro!: eff_basic_intros B eff_Cons [OF c])
  next
    case (KTuple tys)
    then have L: "length (F (TId i)) = length (concat (map F tys))" using fl by simp
    have c: "effect ro (lower_components low tys) (length tys) (length (F (TId i)))"
      using comps [of tys] KTuple len unfolding L by (simp add: kind_types_def)
    show ?thesis
      unfolding lower_kind_def KTuple kind.case
      by (auto intro!: eff_basic_intros B eff_Cons [OF c])
  next
    case (KFixedLengthList t n)
    then have L: "length (F (TId i)) = length (concat (map F (replicate (unat n) t)))" using fl by simp
    have c: "effect ro (lower_components low (replicate (unat n) t)) (unat n) (length (F (TId i)))"
      using comps [of "replicate (unat n) t"] KFixedLengthList len unfolding L
      by (simp add: kind_types_def)
    show ?thesis
      unfolding lower_kind_def KFixedLengthList kind.case
      by (auto intro!: eff_basic_intros B eff_Cons [OF c])
  next
    case (KHandle h)
    then have v: "valid_id ?r (handle_tid h)" "td_name (r_types ?r ! handle_tid h) \<noteq> None"
      and L: "length (F (TId i)) = 1" using fl nm by simp_all
    show ?thesis
      unfolding lower_kind_def KHandle kind.case L
      by (rule eff_with_type [OF v(1)], rule eff_with_name [OF v(2)], rule eff_emit_eq [OF B]) simp_all
  next
    case (KFlags x)
    then show ?thesis
      using fl nm unfolding lower_kind_def KFlags kind.case
      by (intro eff_with_name eff_emit_eq [OF B]) simp_all
  next
    case (KEnum x)
    then show ?thesis
      using fl nm unfolding lower_kind_def KEnum kind.case
      by (intro eff_with_name eff_emit_eq [OF B]) simp_all
  next
    case (KVariant cases)
    then have n: "td_name ?td \<noteq> None" and v: "variant_fits F (F (TId i)) (map snd cases)"
      using fl nm by simp_all
    show ?thesis
      unfolding lower_kind_def KVariant kind.case
      by (rule arms [OF v]) (auto simp: KVariant kind_types_def map_filter_def
          intro!: eff_with_name [OF n] eff_emit_eq [OF B] image_eqI)
  next
    case (KOption t)
    then have v: "variant_fits F (F (TId i)) [None, Some t]" using fl by simp
    show ?thesis
      unfolding lower_kind_def KOption kind.case
      by (rule arms [OF v]) (auto simp: KOption kind_types_def intro!: eff_emit_eq [OF B])
  next
    case (KResult okt err)
    then have v: "variant_fits F (F (TId i)) [okt, err]" using fl by simp
    show ?thesis
      unfolding lower_kind_def KResult kind.case
      by (rule arms [OF v]) (auto simp: KResult kind_types_def map_filter_def intro!: eff_emit_eq [OF B])
  next
    case (KList t)
    then have "length (F (TId i)) = 2" using fl by simp
    then show ?thesis
      unfolding lower_kind_def KList kind.case
      using eff_lower_list [OF B ro wr] KList by (simp add: kind_types_def)
  next
    case (KMap k v)
    then have "length (F (TId i)) = 2" using fl by simp
    then show ?thesis
      unfolding lower_kind_def KMap kind.case
      using eff_lower_map [OF B S ro wr wr] KMap by (simp add: kind_types_def)
  next
    case (KFuture t)
    then show ?thesis
      using fl unfolding lower_kind_def KFuture kind.case by (intro eff_emit_eq [OF B]) simp_all
  next
    case (KStream t)
    then show ?thesis
      using fl unfolding lower_kind_def KStream kind.case by (intro eff_emit_eq [OF B]) simp_all
  next
    case (KType t)
    then have "F (TId i) = F t" using fl by simp
    then show ?thesis
      unfolding lower_kind_def KType kind.case using low [of t] len KType by (simp add: kind_types_def)
  qed (use nr in simp_all)
qed

lemma eff_write_kind:
  assumes ok: "abi_ok cx F rk" and ro: "ro \<noteq> None" and us: "usable (cx_resolve cx) (TId i)"
    and low: "length (F (TId i)) \<le> 16 \<Longrightarrow> effect ro (low (TId i)) 1 (length (F (TId i)))"
    and wr: "\<And>t a z. t \<in> set (kind_types (kind_at (cx_resolve cx) i)) \<Longrightarrow> effect ro (wr t a z) 1 0"
  shows "effect ro (write_kind cx low wr i addr offset (r_types (cx_resolve cx) ! i)) 1 0"
proof -
  let ?r = "cx_resolve cx"
  let ?td = "r_types ?r ! i"
  note B = abi_okD(1) [OF ok] and S = abi_okD(2) [OF ok] and RC = abi_okD(4) [OF ok]
  have vi: "valid_id ?r i" and nr: "td_kind ?td \<noteq> KResource" "td_kind ?td \<noteq> KUnknown"
    using us by (simp_all add: usable_TId)
  note w = wf_kind [OF abi_okD(5) [OF ok] us]
  note fl = w(2) [unfolded kind_flat_def] and nm = w(1) [unfolded named_def]
  have flds: "effect ro (write_fields_to_memory cx wr tys addr offset) (length tys) 0"
    if "\<And>t. t \<in> set tys \<Longrightarrow> t \<in> set (kind_types (td_kind ?td))" for tys
    by (rule eff_write_fields [OF S]) (rule wr [OF that])
  have arms: "effect ro (write_variant_arms_to_memory cx wr offset addr tag cases) 0 0"
    if "\<And>u. Some u \<in> set cases \<Longrightarrow> u \<in> set (kind_types (td_kind ?td))" for tag cases
    by (rule eff_write_variant_arms [OF B]) (rule wr [OF that])
  show ?thesis
  proof (cases "td_kind ?td")
    case (KRecord fs)
    then have n: "td_name ?td \<noteq> None" using nm by simp
    have c: "effect ro (write_fields_to_memory cx wr (map snd fs) addr offset) (length fs) 0"
      using flds [of "map snd fs"] KRecord by (simp add: kind_types_def)
    show ?thesis
      unfolding write_kind_def KRecord kind.case
      by (rule eff_with_name [OF n]) (auto intro!: eff_basic_intros B eff_Cons [OF c])
  next
    case (KTuple tys)
    have c: "effect ro (write_fields_to_memory cx wr tys addr offset) (length tys) 0"
      using flds [of tys] KTuple by (simp add: kind_types_def)
    show ?thesis
      unfolding write_kind_def KTuple kind.case by (auto intro!: eff_basic_intros B eff_Cons [OF c])
  next
    case (KFixedLengthList t n)
    then have c: "effect ro (wr t a z) 1 0" for a z by (intro wr) (simp add: kind_types_def)
    show ?thesis
      unfolding write_kind_def KFixedLengthList kind.case
      by (auto intro!: eff_basic_intros B eff_Cons [OF c])
  next
    case (KFlags x)
    then have "length (F (TId i)) \<le> 16"
      "length (F (TId i)) = repr_count (cx_env cx) (flags_repr_of (cx_env cx) x)"
      using fl by simp_all
    then show ?thesis
      using low unfolding write_kind_def KFlags kind.case by (intro eff_write_flags [OF B RC]) simp
  next
    case (KEnum x)
    then have c: "effect ro (low (TId i)) 1 1" using fl low by simp
    show ?thesis
      unfolding write_kind_def KEnum kind.case
      by (auto intro!: eff_basic_intros B eff_Cons [OF c] eff_Cons [OF eff_store_intrepr [OF B]])
  next
    case (KVariant cases)
    then have n: "td_name ?td \<noteq> None" using nm by simp
    have c: "effect ro (write_variant_arms_to_memory cx wr offset addr tag (map snd cases)) 0 0" for tag
      by (rule arms) (auto simp: KVariant kind_types_def map_filter_def intro!: image_eqI)
    have d: "effect ro (with_name ?td (\<lambda>name. emit cx (VariantLower cases name i []))) 1 0"
      by (rule eff_with_name [OF n], rule eff_emit_eq [OF B]) simp_all
    show ?thesis
      unfolding write_kind_def KVariant kind.case
      by (auto intro!: eff_basic_intros B eff_Cons [OF c] eff_Cons [OF d])
  next
    case (KOption t)
    then have c: "effect ro (write_variant_arms_to_memory cx wr offset addr tag [None, Some t]) 0 0" for tag
      by (intro arms) (auto simp: kind_types_def)
    show ?thesis
      unfolding write_kind_def KOption kind.case
      by (auto intro!: eff_basic_intros B eff_Cons [OF c])
  next
    case (KResult okt err)
    then have c: "effect ro (write_variant_arms_to_memory cx wr offset addr tag [okt, err]) 0 0" for tag
      by (intro arms) (auto simp: kind_types_def map_filter_def)
    show ?thesis
      unfolding write_kind_def KResult kind.case
      by (auto intro!: eff_basic_intros B eff_Cons [OF c])
  next
    case (KList t)
    then show ?thesis
      using fl low unfolding write_kind_def KList kind.case by (intro eff_write_list_to_memory [OF B]) simp
  next
    case (KMap k v)
    then show ?thesis
      using fl low unfolding write_kind_def KMap kind.case by (intro eff_write_list_to_memory [OF B]) simp
  next
    case (KFuture t)
    then show ?thesis
      using fl low unfolding write_kind_def KFuture kind.case by (intro eff_lower_and_emit [OF B]) simp_all
  next
    case (KStream t)
    then show ?thesis
      using fl low unfolding write_kind_def KStream kind.case by (intro eff_lower_and_emit [OF B]) simp_all
  next
    case (KHandle t)
    then show ?thesis
      using fl low unfolding write_kind_def KHandle kind.case by (intro eff_lower_and_emit [OF B]) simp_all
  next
    case (KType t)
    then show ?thesis
      unfolding write_kind_def KType kind.case using wr [of t] KType by (simp add: kind_types_def)
  qed (use nr in simp_all)
qed

lemma eff_lower_scalar:
  assumes B: "bindgen_contract cx" and SF: "scalar_flat F" and ro: "ro \<noteq> None" and t: "\<forall>i. t \<noteq> TId i"
  shows "effect ro (lower_body cx low wr t) 1 (length (F t))"
proof (cases t)
  case TString
  then show ?thesis
    using SF unfolding lower_body_def TString ty.case
    by (intro eff_single [of ro "with_list_realloc (\<lambda>realloc. emit cx (StringLower realloc))"])
      (auto simp: scalar_flat_def intro!: eff_basic_intros B ro)
qed (use t SF in \<open>auto simp: scalar_flat_def lower_body_def intro!: eff_emit_eq [OF B]\<close>)

lemma eff_write_scalar:
  assumes B: "bindgen_contract cx" and SF: "scalar_flat F" and t: "\<forall>i. t \<noteq> TId i"
    and low: "effect ro (low t) 1 (length (F t))"
  shows "effect ro (write_body cx low wr t addr offset) 1 0"
  using t SF low
  by (cases t) (auto simp: scalar_flat_def write_body_def
      intro!: eff_lower_and_emit [OF B, simplified] eff_write_list_to_memory [OF B, simplified])

theorem lower_write_effect:
  assumes ok: "abi_ok cx F rk" and ro: "ro \<noteq> None" and us: "usable (cx_resolve cx) t"
  shows "(length (F t) \<le> 16 \<longrightarrow> 2 * ty_rank rk t + 1 \<le> n
        \<longrightarrow> effect ro (lower cx n t) 1 (length (F t)))
    \<and> (\<forall>a z. 2 * ty_rank rk t + 2 \<le> n \<longrightarrow> effect ro (write_to_memory cx n t a z) 1 0)"
  using us
proof (induction n arbitrary: t)
  case 0
  then show ?case by simp
next
  case (Suc n)
  note B = abi_okD(1) [OF ok]
  have SF: "scalar_flat F" using abi_okD(5) [OF ok] by (simp add: wf_types_def)
  have lowS: "effect ro (lower cx (Suc n) t) 1 (length (F t))"
    if "effect ro (lower_body cx (lower cx n) (write_to_memory cx n) t) 1 (length (F t))"
    using that by (simp add: effect_def)
  have wrS: "effect ro (write_to_memory cx (Suc n) t a z) 1 0"
    if "effect ro (write_body cx (lower cx n) (write_to_memory cx n) t a z) 1 0" for a z
    using that by (simp add: effect_def)
  show ?case
  proof (cases "\<exists>i. t = TId i")
    case False
    then have rt: "ty_rank rk t = 0" by (cases t) (auto simp: ty_rank_def)
    have len: "length (F t) \<le> 16" using SF False by (cases t) (auto simp: scalar_flat_def)
    have "effect ro (lower cx n t) 1 (length (F t))" if "2 \<le> Suc n"
      using Suc.IH [OF Suc.prems] len rt that by simp
    moreover have "effect ro (lower cx (Suc n) t) 1 (length (F t))"
      by (rule lowS, rule eff_lower_scalar [OF B SF ro]) (use False in simp)
    moreover have "effect ro (write_to_memory cx (Suc n) t a z) 1 0"
      if "effect ro (lower cx n t) 1 (length (F t))" for a z
      by (rule wrS, rule eff_write_scalar [OF B SF]) (use False that in simp_all)
    ultimately show ?thesis using rt by (simp del: lower.simps write_to_memory.simps)
  next
    case True
    then obtain i where t: "t = TId i" by auto
    have us: "usable (cx_resolve cx) (TId i)" using Suc.prems t by simp
    then have vi: "valid_id (cx_resolve cx) i" by (simp add: usable_TId)
    note sub = wf_kind(3) [OF abi_okD(5) [OF ok] us]
    have rt: "ty_rank rk (TId i) = Suc (rk i)" by (simp add: ty_rank_def)
    have low: "effect ro (lower cx n u) 1 (length (F u))"
      if "u \<in> set (kind_types (kind_at (cx_resolve cx) i))" "length (F u) \<le> 16" "2 * Suc (rk i) \<le> n" for u
      using Suc.IH [of u] sub [OF that(1)] that(2,3) by auto
    have wr: "effect ro (write_to_memory cx n u a z) 1 0"
      if "u \<in> set (kind_types (kind_at (cx_resolve cx) i))" "2 * Suc (rk i) \<le> n" for u a z
      using Suc.IH [of u] sub [OF that(1)] that(2) by auto
    have low_i: "effect ro (lower cx n (TId i)) 1 (length (F (TId i)))"
      if "2 * Suc (rk i) + 1 \<le> n" "length (F (TId i)) \<le> 16"
      using Suc.IH [OF us] that by (simp add: ty_rank_def)
    have "effect ro (lower cx (Suc n) t) 1 (length (F t))"
      if "length (F t) \<le> 16" "2 * ty_rank rk t + 1 \<le> Suc n"
      using that unfolding t rt
      by (intro lowS [unfolded t]) (auto simp: lower_body_def intro!: eff_with_type vi
          eff_lower_kind [OF ok ro us, simplified] low [simplified] wr [simplified])
    moreover have "effect ro (write_to_memory cx (Suc n) t a z) 1 0"
      if "2 * ty_rank rk t + 2 \<le> Suc n" for a z
      using that unfolding t rt
      by (intro wrS [unfolded t]) (auto simp: write_body_def intro!: eff_with_type vi
          eff_write_kind [OF ok ro us, simplified] low_i [simplified] wr [simplified])
    ultimately show ?thesis by (simp del: lower.simps write_to_memory.simps)
  qed
qed

section \<open>Records and variants on the stack\<close>

lemma eff_feed_types:
  fixes cx :: "('b, 'o, 'z, 'a) ctx"
  assumes FC: "flat_contract cx F"
    and it: "\<And>t. t \<in> set tys \<Longrightarrow> length (F t) \<le> 16 \<and> effect ro (iter t) (length (F t)) c"
    and args: "length args = length (concat (map F tys))"
  shows "effect ro (feed_types cx iter tys args) 0 (c * length tys)"
  using it args
proof (induction tys arbitrary: args)
  case Nil
  then show ?case by (auto intro!: effectI)
next
  case (Cons t ts)
  have fl: "flat cx t = Inr (F t)" by (rule flat_ok [OF FC]) (use Cons.prems(1) in simp)
  have le: "length (F t) \<le> length args" using Cons.prems(2) by simp
  have rest: "effect ro (feed_types cx iter ts (drop (length (F t)) args)) 0 (c * length ts)"
    by (rule Cons.IH) (use Cons.prems in simp_all)
  have one: "effect ro (iter t) (length (F t)) c" using Cons.prems(1) by simp
  have "effect ro (seq [push_all (take (length (F t)) args), iter t,
      feed_types cx iter ts (drop (length (F t)) args)]) 0 (c * length (t # ts))"
    using le by (auto intro!: eff_basic_intros eff_Cons [OF one] eff_Cons [OF rest])
  moreover have "feed_types cx iter (t # ts) args g = seq [push_all (take (length (F t)) args), iter t,
      feed_types cx iter ts (drop (length (F t)) args)] g" for g
    using le fl by (simp add: with_res_def and_then_def seq.simps split: sum.splits)
  ultimately show ?case by (simp add: effect_def)
qed

lemma eff_record_type:
  assumes FC: "flat_contract cx F" and len: "length (F t) \<le> 16"
    and F: "F t = concat (map F tys)"
    and it: "\<And>u. u \<in> set tys \<Longrightarrow> length (F u) \<le> 16 \<Longrightarrow> effect ro (iter u) (length (F u)) c"
  shows "effect ro (flat_for_each_record_type cx t tys iter) (length (F t)) (c * length tys)"
proof -
  have sub: "length (F u) \<le> 16 \<and> effect ro (iter u) (length (F u)) c" if "u \<in> set tys" for u
  proof -
    have "length (F u) \<le> length (concat (map F tys))" using that by (intro length_concat_ge) simp
    with it [OF that] len F show ?thesis by simp
  qed
  have fd: "effect ro (feed_types cx iter tys vs) 0 (c * length tys)"
    if "length vs = length (F t)" for vs
    by (rule eff_feed_types [OF FC sub]) (use that F in simp_all)
  show ?thesis
    unfolding flat_for_each_record_type_def
    by (rule eff_single, rule eff_with_res_Cons [OF flat_ok [OF FC len]])
      (auto intro!: eff_basic_intros eff_Cons [OF fd])
qed

lemma eff_lift_variant_arm:
  assumes B: "bindgen_contract cx" and FC: "flat_contract cx F"
    and R: "R \<noteq> []" "length R \<le> 16" and fits: "arm_fits F R arm"
    and inp: "length block_inputs = length R - 1"
    and it: "\<And>t. arm = Some t \<Longrightarrow> effect ro (iter t) (length (F t)) (of_bool h)"
  shows "effect ro (lift_variant_arm cx iter h R block_inputs arm) 0 0"
proof (cases arm)
  case None
  show ?thesis
    unfolding lift_variant_arm_def None by (auto intro!: eff_basic_intros)
next
  case (Some t)
  note ft = arm_fits_Some [OF fits [unfolded Some] R(1)]
  have fl: "flat cx t = Inr (F t)" by (rule flat_ok [OF FC]) (use ft R in simp)
  have "effect ro (emit_casts cx (zip (tl R) (F t))) (length (zip (tl R) (F t)))
      (length (zip (tl R) (F t)))"
  proof (rule eff_emit_casts [OF B])
    fix p assume "p \<in> set (zip (tl R) (F t))"
    then have "(snd p, fst p) \<in> set (zip (F t) (tl R))"
      by (auto simp: in_set_zip)
    from castable_zip(2) [OF ft(2) this] show "\<exists>c. cast (fst p) (snd p) = Inr c" by simp
  qed
  then have ec: "effect ro (emit_casts cx (zip (tl R) (F t))) (length (F t)) (length (F t))"
    unfolding ft(5) .
  have le: "length (F t) \<le> length block_inputs" using ft(1) inp by simp
  note l = eff_Cons [OF it [OF Some]]
  have wr: "effect ro (with_res (slice_from_1 R) (\<lambda>rest. emit_casts cx (zip rest (F t))))
      (length (F t)) (length (F t))"
    using ec ft(3) by (simp add: effect_def with_res_def)
  have body: "effect ro (seq [push_all (take (length (F t)) block_inputs),
      with_res (slice_from_1 R) (\<lambda>rest. emit_casts cx (zip rest (F t))), iter t]) 0 (of_bool h)"
    using le by (auto intro!: eff_basic_intros eff_Cons [OF wr] l)
  have payload: "effect ro (with_res (flat cx t) (\<lambda>temp.
        if length block_inputs < length temp then (\<lambda>g. Inl Index_Out_Of_Range)
        else seq [push_all (take (length temp) block_inputs),
          with_res (slice_from_1 R) (\<lambda>rest. emit_casts cx (zip rest temp)), iter t]))
      0 (of_bool h)"
    using le body by (simp add: effect_def with_res_def fl)
  show ?thesis
    unfolding lift_variant_arm_def Some option.case
    by (auto intro!: eff_push_block_Cons eff_Cons [OF payload] eff_finish_block_Cons eff_Nil)
qed

lemma eff_variant_type:
  assumes B: "bindgen_contract cx" and FC: "flat_contract cx F"
    and len: "length (F t) \<le> 16" and fits: "variant_fits F (F t) cases"
    and it: "\<And>u. Some u \<in> set cases \<Longrightarrow> length (F u) \<le> 16
        \<Longrightarrow> effect ro (iter u) (length (F u)) (of_bool h)"
  shows "effect ro (flat_for_each_variant_arm cx t h cases iter) (length (F t) - 1) 0"
proof -
  let ?R = "F t"
  have ne: "?R \<noteq> []" using fits by (simp add: variant_fits_def)
  have fe: "effect ro (for_each cases (lift_variant_arm cx iter h ?R ins)) 0 0"
    if "length ins = length ?R - 1" for ins
  proof -
    have "effect ro (for_each cases (lift_variant_arm cx iter h ?R ins)) 0 (sum_list (map (\<lambda>_. 0) cases))"
    proof (rule eff_for_each)
      fix arm assume arm: "arm \<in> set cases"
      note af = variant_arm_in(1) [OF fits arm]
      show "effect ro (lift_variant_arm cx iter h ?R ins arm) 0 0"
      proof (rule eff_lift_variant_arm [OF B FC ne len af that])
        fix u assume u: "arm = Some u"
        have "length (F u) < length ?R" by (rule arm_fits_Some [OF af [unfolded u] ne])
        then show "effect ro (iter u) (length (F u)) (of_bool h)"
          using arm u len by (intro it) simp_all
      qed
    qed
    then show ?thesis by simp
  qed
  have "effect ro (with_drain (length ?R - 1) (\<lambda>ins. for_each cases (lift_variant_arm cx iter h ?R ins)))
      (length ?R - 1) 0"
    by (rule eff_single) (auto intro!: eff_basic_intros eff_Cons [OF fe])
  then show ?thesis
    unfolding flat_for_each_variant_arm_def
    using ne flat_ok [OF FC len] by (simp add: effect_def with_res_def)
qed

end
