(* ===== verification/Abi_Lift_Stack.thy ===== *)
theory Abi_Lift_Stack
  imports Abi_Stack
begin

text \<open>
  The stack discipline of lifting: \<open>lift\<close> takes the flat operands of a type and leaves the value,
  \<open>read_from_memory\<close> takes nothing and leaves the value.
\<close>

section \<open>Helpers\<close>

lemma eff_emit_and_lift:
  assumes B: "bindgen_contract cx" and lif: "effect ro (lif t) 1 1"
    and i: "operands_len (cx_env cx) inst = 1" "results_len (cx_env cx) inst = 1"
  shows "effect ro (emit_and_lift cx lif t addr inst) 0 1"
  unfolding emit_and_lift_def
  using i by (auto intro!: eff_basic_intros B eff_Cons [OF lif])

lemma eff_load_pointer_and_length:
  assumes B: "bindgen_contract cx"
  shows "effect ro (load_pointer_and_length cx t addr offset) 0 2"
  unfolding load_pointer_and_length_def by (auto intro!: eff_basic_intros B)

lemma eff_read_list:
  assumes B: "bindgen_contract cx" and lif: "effect ro (lif t) 2 1"
  shows "effect ro (read_list_from_memory cx lif t addr offset) 0 1"
  unfolding read_list_from_memory_def
  by (auto intro!: eff_basic_intros eff_Cons [OF eff_load_pointer_and_length [OF B]] eff_Cons [OF lif])

text \<open>A loop over the fields of a record in memory, each turn leaving \<open>c\<close> values.\<close>

lemma eff_offset_loop:
  assumes S: "sizes_contract cx"
    and rd: "\<And>t a z. t \<in> set tys \<Longrightarrow> effect ro (rd t a z) 0 c"
  shows "effect ro (with_sizes cx (\<lambda>sz. for_each (sa_field_offsets sz tys)
      (\<lambda>(field_offset, t). rd t addr (size_add (cx_env cx) offset field_offset)))) 0 (c * length tys)"
proof -
  let ?offs = "\<lambda>b. sa_field_offsets (bg_sizes (cx_bindgen cx) b) tys"
  have m: "map snd (?offs b) = tys" for b using S by (simp add: sizes_contract_def)
  then have len: "length (?offs b) = length tys" for b by (metis length_map)
  have "effect ro (for_each (?offs b)
      (\<lambda>(field_offset, t). rd t addr (size_add (cx_env cx) offset field_offset))) 0
      (sum_list (map (\<lambda>_. c) (?offs b)))" for b
  proof (rule eff_for_each)
    fix x assume x: "x \<in> set (?offs b)"
    then have "snd x \<in> set tys" using m [of b] by (metis image_eqI list.set_map)
    then show "effect ro (case x of (field_offset, t) \<Rightarrow>
        rd t addr (size_add (cx_env cx) offset field_offset)) 0 c"
      by (cases x) (simp add: rd)
  qed
  then have fe: "effect ro (for_each (?offs b)
      (\<lambda>(field_offset, t). rd t addr (size_add (cx_env cx) offset field_offset))) 0 (c * length tys)" for b
    by (simp add: len sum_list_triv mult.commute)
  show ?thesis
    by (rule eff_single) (auto intro!: eff_basic_intros eff_Cons [OF fe])
qed

lemma eff_read_fields:
  assumes S: "sizes_contract cx"
    and rd: "\<And>t a z. t \<in> set tys \<Longrightarrow> effect ro (rd t a z) 0 1"
  shows "effect ro (read_fields_from_memory cx rd tys addr offset) 0 (length tys)"
  using eff_offset_loop [OF S rd] by (simp add: read_fields_from_memory_def)

lemma eff_read_variant_arms:
  assumes B: "bindgen_contract cx"
    and rd: "\<And>t a z. Some t \<in> set cases \<Longrightarrow> effect ro (rd t a z) 0 1"
  shows "effect ro (read_variant_arms_from_memory cx rd offset addr tag cases) 0 1"
proof -
  have arm: "effect ro (read_variant_arm_from_memory cx rd addr z x) 0 0" if x: "x \<in> set cases" for x z
  proof (cases x)
    case None
    show ?thesis
      unfolding read_variant_arm_from_memory_def None by (auto intro!: eff_basic_intros)
  next
    case (Some t)
    show ?thesis
      unfolding read_variant_arm_from_memory_def Some using x
      by (auto intro!: eff_basic_intros eff_Cons [OF rd] simp: Some)
  qed
  have "effect ro (for_each cases (read_variant_arm_from_memory cx rd addr z)) 0
      (sum_list (map (\<lambda>_. 0) cases))" for z
    by (rule eff_for_each) (rule arm)
  then have fe: "effect ro (for_each cases (read_variant_arm_from_memory cx rd addr z)) 0 0" for z
    by simp
  show ?thesis
    unfolding read_variant_arms_from_memory_def
    by (auto intro!: eff_basic_intros eff_Cons [OF eff_load_intrepr [OF B]] eff_Cons [OF fe])
qed

lemma eff_read_flags:
  assumes B: "bindgen_contract cx" and R: "repr_contract (cx_env cx)"
    and lif: "effect ro (lif t) (repr_count (cx_env cx) (flags_repr_of (cx_env cx) flags)) 1"
  shows "effect ro (read_flags_from_memory cx lif flags t addr offset) 0 1"
proof (cases "flags_repr_of (cx_env cx) flags")
  case (FlagsU32 n)
  let ?load = "\<lambda>k. seq [push addr, emit cx (I32Load (size_add_bytes (cx_env cx) offset (k * 4)))]"
  have "effect ro (for_each [0..<n] ?load) 0 (sum_list (map (\<lambda>_. 1) [0..<n]))"
    by (rule eff_for_each) (auto intro!: eff_basic_intros B)
  then have fe: "effect ro (for_each [0..<n] ?load) 0 n" by (simp add: sum_list_triv)
  have "effect ro (lif t) n 1" using lif R FlagsU32 by (simp add: repr_contract_def)
  note l = eff_Cons [OF this]
  show ?thesis
    unfolding read_flags_from_memory_def FlagsU32
    by (auto intro!: eff_basic_intros B l eff_Cons [OF fe])
next
  case FlagsU8
  then have "effect ro (lif t) 1 1" using lif R by (simp add: repr_contract_def)
  note l = eff_Cons [OF this]
  show ?thesis
    unfolding read_flags_from_memory_def FlagsU8
    by (auto intro!: eff_basic_intros B l eff_Cons [OF eff_load_intrepr [OF B]])
next
  case FlagsU16
  then have "effect ro (lif t) 1 1" using lif R by (simp add: repr_contract_def)
  note l = eff_Cons [OF this]
  show ?thesis
    unfolding read_flags_from_memory_def FlagsU16
    by (auto intro!: eff_basic_intros B l eff_Cons [OF eff_load_intrepr [OF B]])
qed

lemma eff_lift_fixed_length_list:
  assumes B: "bindgen_contract cx" and FC: "flat_contract cx F" and len: "length (F t) \<le> 16"
    and lif: "effect ro (lif t) (length (F t)) 1"
  shows "effect ro (lift_fixed_length_list cx lif t n i) (length (F t) * unat n) 1"
proof -
  let ?turn = "\<lambda>ops k. seq [push_all (take (length (F t)) (drop (k * length (F t)) ops)), lif t]"
  have fe: "effect ro (for_each [0..<unat n] (?turn ops)) 0 (unat n)"
    if ops: "length ops = length (F t) * unat n" for ops
  proof -
    have "effect ro (for_each [0..<unat n] (?turn ops)) 0 (sum_list (map (\<lambda>_. 1) [0..<unat n]))"
    proof (rule eff_for_each)
      fix k assume "k \<in> set [0..<unat n]"
      then have "Suc k * length (F t) \<le> unat n * length (F t)" by (intro mult_le_mono1) simp
      then have tk: "length (take (length (F t)) (drop (k * length (F t)) ops)) = length (F t)"
        using ops by (simp add: mult.commute)
      show "effect ro (?turn ops k) 0 1"
        by (rule eff_push_all_Cons) (unfold tk, auto intro!: eff_basic_intros eff_Cons [OF lif])
    qed
    then show ?thesis by (simp add: sum_list_triv)
  qed
  show ?thesis
    unfolding lift_fixed_length_list_def
    by (rule eff_single, rule eff_with_res_Cons [OF flat_ok [OF FC len]])
      (auto intro!: eff_basic_intros B eff_Cons [OF fe])
qed

section \<open>Lifting a type\<close>

lemma eff_lift_list:
  assumes B: "bindgen_contract cx" and rd: "\<And>a z. effect ro (rd t a z) 0 1"
  shows "effect ro (\<lambda>g. if bg_is_list_canonical (cx_bindgen cx) (g_bindgen g) (cx_resolve cx) t
     then emit cx (ListCanonLift t i) g
     else seq [push_block cx, emit cx IterBasePointer,
       with_pop (\<lambda>addr. rd t addr (size_zero (cx_env cx))), finish_block cx 1,
       emit cx (ListLift t i)] g) 2 1"
proof -
  have canon: "effect ro (emit cx (ListCanonLift t i)) 2 1"
    by (rule eff_emit_eq [OF B]) simp_all
  have "effect ro (seq [push_block cx, emit cx IterBasePointer,
      with_pop (\<lambda>addr. rd t addr (size_zero (cx_env cx))), finish_block cx 1,
      emit cx (ListLift t i)]) 2 1"
    by (auto intro!: eff_basic_intros B eff_Cons [OF rd])
  with canon show ?thesis by (simp add: effect_def)
qed

lemma eff_lift_map:
  assumes B: "bindgen_contract cx" and S: "sizes_contract cx"
    and rd: "\<And>a z. effect ro (rd key a z) 0 1" "\<And>a z. effect ro (rd val a z) 0 1"
  shows "effect ro (with_sizes cx (\<lambda>sz.
      with_res (map_value_offset sz key val) (\<lambda>value_offset.
        seq [push_block cx, emit cx IterBasePointer,
          with_pop (\<lambda>entry_addr.
            seq [rd key entry_addr (size_zero (cx_env cx)), rd val entry_addr value_offset]),
          finish_block cx 2,
          emit cx (MapLift key val i)]))) 2 1"
  by (rule eff_single) (auto intro!: eff_basic_intros eff_with_value_offset_Cons [OF S] B
      eff_Cons [OF rd(1)] eff_Cons [OF rd(2)])

lemma eff_lift_kind:
  assumes ok: "abi_ok cx F rk" and us: "usable (cx_resolve cx) (TId i)"
    and len: "length (F (TId i)) \<le> 16"
    and lif: "\<And>t. t \<in> set (kind_types (kind_at (cx_resolve cx) i)) \<Longrightarrow> length (F t) \<le> 16
        \<Longrightarrow> effect ro (lif t) (length (F t)) 1"
    and rd: "\<And>t a z. t \<in> set (kind_types (kind_at (cx_resolve cx) i)) \<Longrightarrow> effect ro (rd t a z) 0 1"
  shows "effect ro (lift_kind cx lif rd i (r_types (cx_resolve cx) ! i)) (length (F (TId i))) 1"
proof -
  let ?r = "cx_resolve cx"
  let ?td = "r_types ?r ! i"
  note B = abi_okD(1) [OF ok] and S = abi_okD(2) [OF ok] and FC = abi_okD(3) [OF ok]
  have vi: "valid_id ?r i" and nr: "td_kind ?td \<noteq> KResource" "td_kind ?td \<noteq> KUnknown"
    using us by (simp_all add: usable_TId)
  note w = wf_kind [OF abi_okD(5) [OF ok] us]
  note fl = w(2) [unfolded kind_flat_def] and nm = w(1) [unfolded named_def]
  have comps: "effect ro (flat_for_each_record_type cx (TId i) tys lif) (length (F (TId i))) (length tys)"
    if "\<And>t. t \<in> set tys \<Longrightarrow> t \<in> set (kind_types (td_kind ?td))"
      "F (TId i) = concat (map F tys)" for tys
    using eff_record_type [where c = 1 and iter = lif and ro = ro, OF FC len that(2)] lif that(1) by simp
  have arms: "effect ro (flat_for_each_variant_arm cx (TId i) True cases lif)
      (length (F (TId i)) - 1) 0"
    if "variant_fits F (F (TId i)) cases"
      "\<And>u. Some u \<in> set cases \<Longrightarrow> u \<in> set (kind_types (td_kind ?td))" for cases
    using eff_variant_type [where h = True and iter = lif and ro = ro, OF B FC len that(1)] lif that(2)
    by simp
  have pos: "Suc (length (F (TId i)) - Suc 0) = length (F (TId i))"
    if "variant_fits F (F (TId i)) cases" for cases
    using that by (cases "F (TId i)") (simp_all add: variant_fits_def)
  show ?thesis
  proof (cases "td_kind ?td")
    case (KRecord fs)
    then have L: "F (TId i) = concat (map F (map snd fs))" and n: "td_name ?td \<noteq> None"
      using fl nm by simp_all
    have c: "effect ro (flat_for_each_record_type cx (TId i) (map snd fs) lif)
        (length (F (TId i))) (length fs)"
      using comps [OF _ L] KRecord by (simp add: kind_types_def)
    have d: "effect ro (with_name ?td (\<lambda>name. emit cx (RecordLift fs name i))) (length fs) 1"
      by (rule eff_with_name [OF n], rule eff_emit_eq [OF B]) simp_all
    show ?thesis
      unfolding lift_kind_def KRecord kind.case
      by (auto intro!: eff_Nil eff_Cons [OF c] eff_Cons [OF d])
  next
    case (KTuple tys)
    then have L: "F (TId i) = concat (map F tys)" using fl by simp
    have c: "effect ro (flat_for_each_record_type cx (TId i) tys lif) (length (F (TId i))) (length tys)"
      using comps [OF _ L] KTuple by (simp add: kind_types_def)
    show ?thesis
      unfolding lift_kind_def KTuple kind.case
      by (auto intro!: eff_basic_intros B eff_Cons [OF c])
  next
    case (KFixedLengthList t n)
    then have n: "0 < unat n" and L: "F (TId i) = concat (map F (replicate (unat n) t))"
      using fl by simp_all
    have "length (F t) \<le> length (F (TId i))"
      unfolding L by (rule length_concat_ge) (use n in simp)
    with len have "length (F t) \<le> 16" by simp
    then have "effect ro (lift_fixed_length_list cx lif t n i) (length (F t) * unat n) 1"
      by (intro eff_lift_fixed_length_list [OF B FC] lif) (simp_all add: KFixedLengthList kind_types_def)
    moreover have "length (F (TId i)) = length (F t) * unat n"
      unfolding L by (simp add: length_concat sum_list_replicate mult.commute)
    ultimately show ?thesis unfolding lift_kind_def KFixedLengthList kind.case by simp
  next
    case (KHandle h)
    then have v: "valid_id ?r (handle_tid h)" "td_name (r_types ?r ! handle_tid h) \<noteq> None"
      and L: "length (F (TId i)) = 1" using fl nm by simp_all
    show ?thesis
      unfolding lift_kind_def KHandle kind.case L
      by (rule eff_with_type [OF v(1)], rule eff_with_name [OF v(2)], rule eff_emit_eq [OF B]) simp_all
  next
    case (KFlags x)
    then show ?thesis
      using fl nm unfolding lift_kind_def KFlags kind.case
      by (intro eff_with_name eff_emit_eq [OF B]) simp_all
  next
    case (KEnum x)
    then show ?thesis
      using fl nm unfolding lift_kind_def KEnum kind.case
      by (intro eff_with_name eff_emit_eq [OF B]) simp_all
  next
    case (KVariant cases)
    then have n: "td_name ?td \<noteq> None" and v: "variant_fits F (F (TId i)) (map snd cases)"
      using fl nm by simp_all
    have c: "effect ro (flat_for_each_variant_arm cx (TId i) True (map snd cases) lif)
        (length (F (TId i)) - 1) 0"
      by (rule arms [OF v]) (auto simp: KVariant kind_types_def map_filter_def intro!: image_eqI)
    have d: "effect ro (with_name ?td (\<lambda>name. emit cx (VariantLift cases name i))) 1 1"
      by (rule eff_with_name [OF n], rule eff_emit_eq [OF B]) simp_all
    show ?thesis
      unfolding lift_kind_def KVariant kind.case using pos [OF v]
      by (auto intro!: eff_Nil eff_Cons [OF c] eff_Cons [OF d])
  next
    case (KOption t)
    then have v: "variant_fits F (F (TId i)) [None, Some t]" using fl by simp
    have c: "effect ro (flat_for_each_variant_arm cx (TId i) True [None, Some t] lif)
        (length (F (TId i)) - 1) 0"
      by (rule arms [OF v]) (auto simp: KOption kind_types_def)
    show ?thesis
      unfolding lift_kind_def KOption kind.case using pos [OF v]
      by (auto intro!: eff_basic_intros B eff_Cons [OF c])
  next
    case (KResult okt err)
    then have v: "variant_fits F (F (TId i)) [okt, err]" using fl by simp
    have c: "effect ro (flat_for_each_variant_arm cx (TId i) True [okt, err] lif)
        (length (F (TId i)) - 1) 0"
      by (rule arms [OF v]) (auto simp: KResult kind_types_def map_filter_def)
    show ?thesis
      unfolding lift_kind_def KResult kind.case using pos [OF v]
      by (auto intro!: eff_basic_intros B eff_Cons [OF c])
  next
    case (KList t)
    then have L: "length (F (TId i)) = 2" using fl by simp
    show ?thesis
      unfolding lift_kind_def KList kind.case L
      by (rule eff_lift_list [OF B]) (rule rd, simp add: KList kind_types_def)
  next
    case (KMap k v)
    then have L: "length (F (TId i)) = 2" using fl by simp
    show ?thesis
      unfolding lift_kind_def KMap kind.case L
      by (rule eff_lift_map [OF B S]) (rule rd, simp add: KMap kind_types_def)+
  next
    case (KFuture t)
    then show ?thesis
      using fl unfolding lift_kind_def KFuture kind.case by (intro eff_emit_eq [OF B]) simp_all
  next
    case (KStream t)
    then show ?thesis
      using fl unfolding lift_kind_def KStream kind.case by (intro eff_emit_eq [OF B]) simp_all
  next
    case (KType t)
    then have "F (TId i) = F t" using fl by simp
    then show ?thesis
      unfolding lift_kind_def KType kind.case using lif [of t] len KType by (simp add: kind_types_def)
  qed (use nr in simp_all)
qed

lemma eff_read_kind:
  assumes ok: "abi_ok cx F rk" and us: "usable (cx_resolve cx) (TId i)"
    and lif: "length (F (TId i)) \<le> 16 \<Longrightarrow> effect ro (lif (TId i)) (length (F (TId i))) 1"
    and rd: "\<And>t a z. t \<in> set (kind_types (kind_at (cx_resolve cx) i)) \<Longrightarrow> effect ro (rd t a z) 0 1"
  shows "effect ro (read_kind cx lif rd i addr offset (r_types (cx_resolve cx) ! i)) 0 1"
proof -
  let ?r = "cx_resolve cx"
  let ?td = "r_types ?r ! i"
  note B = abi_okD(1) [OF ok] and S = abi_okD(2) [OF ok] and RC = abi_okD(4) [OF ok]
  have vi: "valid_id ?r i" and nr: "td_kind ?td \<noteq> KResource" "td_kind ?td \<noteq> KUnknown"
    using us by (simp_all add: usable_TId)
  note w = wf_kind [OF abi_okD(5) [OF ok] us]
  note fl = w(2) [unfolded kind_flat_def] and nm = w(1) [unfolded named_def]
  have flds: "effect ro (read_fields_from_memory cx rd tys addr offset) 0 (length tys)"
    if "\<And>t. t \<in> set tys \<Longrightarrow> t \<in> set (kind_types (td_kind ?td))" for tys
    by (rule eff_read_fields [OF S]) (rule rd [OF that])
  have arms: "effect ro (read_variant_arms_from_memory cx rd offset addr tag cases) 0 1"
    if "\<And>u. Some u \<in> set cases \<Longrightarrow> u \<in> set (kind_types (td_kind ?td))" for tag cases
    by (rule eff_read_variant_arms [OF B]) (rule rd [OF that])
  show ?thesis
  proof (cases "td_kind ?td")
    case (KRecord fs)
    then have n: "td_name ?td \<noteq> None" using nm by simp
    have c: "effect ro (read_fields_from_memory cx rd (map snd fs) addr offset) 0 (length fs)"
      using flds [of "map snd fs"] KRecord by (simp add: kind_types_def)
    have d: "effect ro (with_name ?td (\<lambda>name. emit cx (RecordLift fs name i))) (length fs) 1"
      by (rule eff_with_name [OF n], rule eff_emit_eq [OF B]) simp_all
    show ?thesis
      unfolding read_kind_def KRecord kind.case by (auto intro!: eff_Nil eff_Cons [OF c] eff_Cons [OF d])
  next
    case (KTuple tys)
    have c: "effect ro (read_fields_from_memory cx rd tys addr offset) 0 (length tys)"
      using flds [of tys] KTuple by (simp add: kind_types_def)
    show ?thesis
      unfolding read_kind_def KTuple kind.case by (auto intro!: eff_basic_intros B eff_Cons [OF c])
  next
    case (KFixedLengthList t n)
    then have c: "effect ro (rd t a z) 0 1" for a z by (intro rd) (simp add: kind_types_def)
    show ?thesis
      unfolding read_kind_def KFixedLengthList kind.case
      by (auto intro!: eff_basic_intros B eff_Cons [OF c])
  next
    case (KFlags x)
    then have "length (F (TId i)) \<le> 16"
      "length (F (TId i)) = repr_count (cx_env cx) (flags_repr_of (cx_env cx) x)"
      using fl by simp_all
    then show ?thesis
      using lif unfolding read_kind_def KFlags kind.case by (intro eff_read_flags [OF B RC]) simp
  next
    case (KEnum x)
    then have c: "effect ro (lif (TId i)) 1 1" using fl lif by simp
    show ?thesis
      unfolding read_kind_def KEnum kind.case
      by (auto intro!: eff_basic_intros B eff_Cons [OF c] eff_Cons [OF eff_load_intrepr [OF B]])
  next
    case (KVariant cases)
    then have n: "td_name ?td \<noteq> None" using nm by simp
    have c: "effect ro (read_variant_arms_from_memory cx rd offset addr tag (map snd cases)) 0 1" for tag
      by (rule arms) (auto simp: KVariant kind_types_def map_filter_def intro!: image_eqI)
    have d: "effect ro (with_name ?td (\<lambda>name. emit cx (VariantLift cases name i))) 1 1"
      by (rule eff_with_name [OF n], rule eff_emit_eq [OF B]) simp_all
    show ?thesis
      unfolding read_kind_def KVariant kind.case
      by (auto intro!: eff_Nil eff_Cons [OF c] eff_Cons [OF d])
  next
    case (KOption t)
    then have c: "effect ro (read_variant_arms_from_memory cx rd offset addr tag [None, Some t]) 0 1" for tag
      by (intro arms) (auto simp: kind_types_def)
    show ?thesis
      unfolding read_kind_def KOption kind.case
      by (auto intro!: eff_basic_intros B eff_Cons [OF c])
  next
    case (KResult okt err)
    then have c: "effect ro (read_variant_arms_from_memory cx rd offset addr tag [okt, err]) 0 1" for tag
      by (intro arms) (auto simp: kind_types_def map_filter_def)
    show ?thesis
      unfolding read_kind_def KResult kind.case
      by (auto intro!: eff_basic_intros B eff_Cons [OF c])
  next
    case (KList t)
    then show ?thesis
      using fl lif unfolding read_kind_def KList kind.case by (intro eff_read_list [OF B]) simp
  next
    case (KMap k v)
    then show ?thesis
      using fl lif unfolding read_kind_def KMap kind.case by (intro eff_read_list [OF B]) simp
  next
    case (KFuture t)
    then show ?thesis
      using fl lif unfolding read_kind_def KFuture kind.case by (intro eff_emit_and_lift [OF B]) simp_all
  next
    case (KStream t)
    then show ?thesis
      using fl lif unfolding read_kind_def KStream kind.case by (intro eff_emit_and_lift [OF B]) simp_all
  next
    case (KHandle t)
    then show ?thesis
      using fl lif unfolding read_kind_def KHandle kind.case by (intro eff_emit_and_lift [OF B]) simp_all
  next
    case (KType t)
    then show ?thesis
      unfolding read_kind_def KType kind.case using rd [of t] KType by (simp add: kind_types_def)
  qed (use nr in simp_all)
qed

lemma eff_lift_scalar:
  assumes B: "bindgen_contract cx" and SF: "scalar_flat F" and t: "\<forall>i. t \<noteq> TId i"
  shows "effect ro (lift_body cx lif rd t) (length (F t)) 1"
  using t SF by (cases t) (auto simp: scalar_flat_def lift_body_def intro!: eff_emit_eq [OF B])

lemma eff_read_scalar:
  assumes B: "bindgen_contract cx" and SF: "scalar_flat F" and t: "\<forall>i. t \<noteq> TId i"
    and lif: "effect ro (lif t) (length (F t)) 1"
  shows "effect ro (read_body cx lif rd t addr offset) 0 1"
  using t SF lif
  by (cases t) (auto simp: scalar_flat_def read_body_def
      intro!: eff_emit_and_lift [OF B, simplified] eff_read_list [OF B, simplified])

theorem lift_read_effect:
  assumes ok: "abi_ok cx F rk" and us: "usable (cx_resolve cx) t"
  shows "(length (F t) \<le> 16 \<longrightarrow> 2 * ty_rank rk t + 1 \<le> n
        \<longrightarrow> effect ro (lift cx n t) (length (F t)) 1)
    \<and> (\<forall>a z. 2 * ty_rank rk t + 2 \<le> n \<longrightarrow> effect ro (read_from_memory cx n t a z) 0 1)"
  using us
proof (induction n arbitrary: t)
  case 0
  then show ?case by simp
next
  case (Suc n)
  note B = abi_okD(1) [OF ok]
  have SF: "scalar_flat F" using abi_okD(5) [OF ok] by (simp add: wf_types_def)
  have lifS: "effect ro (lift cx (Suc n) t) (length (F t)) 1"
    if "effect ro (lift_body cx (lift cx n) (read_from_memory cx n) t) (length (F t)) 1"
    using that by (simp add: effect_def)
  have rdS: "effect ro (read_from_memory cx (Suc n) t a z) 0 1"
    if "effect ro (read_body cx (lift cx n) (read_from_memory cx n) t a z) 0 1" for a z
    using that by (simp add: effect_def)
  show ?case
  proof (cases "\<exists>i. t = TId i")
    case False
    then have rt: "ty_rank rk t = 0" by (cases t) (auto simp: ty_rank_def)
    have len: "length (F t) \<le> 16" using SF False by (cases t) (auto simp: scalar_flat_def)
    have "effect ro (lift cx n t) (length (F t)) 1" if "2 \<le> Suc n"
      using Suc.IH [OF Suc.prems] len rt that by simp
    moreover have "effect ro (lift cx (Suc n) t) (length (F t)) 1"
      by (rule lifS, rule eff_lift_scalar [OF B SF]) (use False in simp)
    moreover have "effect ro (read_from_memory cx (Suc n) t a z) 0 1"
      if "effect ro (lift cx n t) (length (F t)) 1" for a z
      by (rule rdS, rule eff_read_scalar [OF B SF]) (use False that in simp_all)
    ultimately show ?thesis using rt by (simp del: lift.simps read_from_memory.simps)
  next
    case True
    then obtain i where t: "t = TId i" by auto
    have us: "usable (cx_resolve cx) (TId i)" using Suc.prems t by simp
    then have vi: "valid_id (cx_resolve cx) i" by (simp add: usable_TId)
    note sub = wf_kind(3) [OF abi_okD(5) [OF ok] us]
    have rt: "ty_rank rk (TId i) = Suc (rk i)" by (simp add: ty_rank_def)
    have lif: "effect ro (lift cx n u) (length (F u)) 1"
      if "u \<in> set (kind_types (kind_at (cx_resolve cx) i))" "length (F u) \<le> 16" "2 * Suc (rk i) \<le> n" for u
      using Suc.IH [of u] sub [OF that(1)] that(2,3) by auto
    have rd: "effect ro (read_from_memory cx n u a z) 0 1"
      if "u \<in> set (kind_types (kind_at (cx_resolve cx) i))" "2 * Suc (rk i) \<le> n" for u a z
      using Suc.IH [of u] sub [OF that(1)] that(2) by auto
    have lif_i: "effect ro (lift cx n (TId i)) (length (F (TId i))) 1"
      if "2 * Suc (rk i) + 1 \<le> n" "length (F (TId i)) \<le> 16"
      using Suc.IH [OF us] that by (simp add: ty_rank_def)
    have "effect ro (lift cx (Suc n) t) (length (F t)) 1"
      if "length (F t) \<le> 16" "2 * ty_rank rk t + 1 \<le> Suc n"
      using that unfolding t rt
      by (intro lifS [unfolded t]) (auto simp: lift_body_def intro!: eff_with_type vi
          eff_lift_kind [OF ok us, simplified] lif [simplified] rd [simplified])
    moreover have "effect ro (read_from_memory cx (Suc n) t a z) 0 1"
      if "2 * ty_rank rk t + 2 \<le> Suc n" for a z
      using that unfolding t rt
      by (intro rdS [unfolded t]) (auto simp: read_body_def intro!: eff_with_type vi
          eff_read_kind [OF ok us, simplified] lif_i [simplified] rd [simplified])
    ultimately show ?thesis by (simp del: lift.simps read_from_memory.simps)
  qed
qed

end
