(* ===== verification/Abi_Dealloc_Stack.thy ===== *)
theory Abi_Dealloc_Stack
  imports Abi_Lift_Stack
begin

text \<open>
  Which types own memory, and the stack discipline of deallocation: \<open>deallocate\<close> takes the flat
  operands of a type and leaves nothing, \<open>deallocate_indirect\<close> leaves the stack as it was. Both
  stop at \<open>todo!()\<close> on a fixed-length list, so they are total on types without one.
\<close>

section \<open>What owns memory\<close>

lemma any_res_total_on:
  assumes "\<And>x. x \<in> set xs \<Longrightarrow> \<exists>b. f x = Inr b"
  shows "\<exists>b. any_res f xs = Inr b"
  using assms
proof (induction xs)
  case Nil
  have "any_res f [] = Inr False" by simp
  then show ?case by blast
next
  case (Cons x xs)
  obtain b where "f x = Inr b" using Cons.prems [of x] by auto
  moreover obtain c where "any_res f xs = Inr c" using Cons by auto
  ultimately have "any_res f (x # xs) = Inr (b \<or> c)" by simp
  then show ?case by blast
qed

lemma needs_deallocate_total:
  assumes wf: "wf_types E r F rk" and us: "usable r t" and n: "ty_rank rk t < n"
  shows "\<exists>b. needs_deallocate r n t what = Inr b"
  using us n
proof (induction n arbitrary: t)
  case 0
  then show ?case by simp
next
  case (Suc n)
  show ?case
  proof (cases "\<exists>i. t = TId i")
    case False
    then show ?thesis by (cases t) auto
  next
    case True
    then obtain i where t: "t = TId i" by auto
    have us: "usable r (TId i)" using Suc.prems(1) by (simp add: t)
    then have vi: "valid_id r i" and nr: "kind_at r i \<noteq> KResource" "kind_at r i \<noteq> KUnknown"
      by (simp_all add: usable_TId)
    note sub = wf_kind(3) [OF wf us]
    have rec: "\<exists>b. needs_deallocate r n u what = Inr b" if "u \<in> set (kind_types (kind_at r i))" for u
      using Suc.IH [of u] sub [OF that] Suc.prems(2) by (auto simp: t ty_rank_def)
    have "\<exists>b. needs_deallocate_kind (\<lambda>t. needs_deallocate r n t what) what (kind_at r i) = Inr b"
    proof (cases "kind_at r i")
      case (KHandle h)
      then show ?thesis by (cases h) (auto simp: needs_deallocate_kind_def)
    next
      case (KRecord fs)
      show ?thesis
        using any_res_total_on [of "map snd fs" "\<lambda>t. needs_deallocate r n t what"] rec
        by (simp add: KRecord needs_deallocate_kind_def kind_types_def)
    next
      case (KTuple tys)
      show ?thesis
        using any_res_total_on [of tys "\<lambda>t. needs_deallocate r n t what"] rec
        by (simp add: KTuple needs_deallocate_kind_def kind_types_def)
    next
      case (KVariant cases)
      show ?thesis
        using any_res_total_on [of "List.map_filter snd cases" "\<lambda>t. needs_deallocate r n t what"] rec
        by (simp add: KVariant needs_deallocate_kind_def kind_types_def)
    next
      case (KResult a b)
      show ?thesis
        using any_res_total_on [of "List.map_filter id [a, b]" "\<lambda>t. needs_deallocate r n t what"] rec
        by (simp add: KResult needs_deallocate_kind_def kind_types_def)
    qed (use rec nr in \<open>auto simp: needs_deallocate_kind_def kind_types_def\<close>)
    then show ?thesis using vi by (simp add: t)
  qed
qed

text \<open>
  The abstract specification: an owner is reachable through the components of the type (through the
  arms of variants, but not through the element of a list, which is itself an owner).
\<close>

inductive owns :: "resolve \<Rightarrow> deallocate_what \<Rightarrow> ty \<Rightarrow> bool" for r what where
  owns_string: "owns r what TString"
| owns_error_context: "owns r what TErrorContext"
| owns_list: "kind_at r i = KList t \<Longrightarrow> owns r what (TId i)"
| owns_map: "kind_at r i = KMap k v \<Longrightarrow> owns r what (TId i)"
| owns_own: "kind_at r i = KHandle (Own j) \<Longrightarrow> handles what \<Longrightarrow> owns r what (TId i)"
| owns_future: "kind_at r i = KFuture t \<Longrightarrow> handles what \<Longrightarrow> owns r what (TId i)"
| owns_stream: "kind_at r i = KStream t \<Longrightarrow> handles what \<Longrightarrow> owns r what (TId i)"
| owns_part: "t \<in> set (kind_types (kind_at r i)) \<Longrightarrow> owns r what t \<Longrightarrow> owns r what (TId i)"

inductive_cases owns_TIdE: "owns r what (TId i)"
inductive_cases owns_scalarE:
  "owns r what TBool" "owns r what TU8" "owns r what TS8" "owns r what TU16" "owns r what TS16"
  "owns r what TU32" "owns r what TS32" "owns r what TU64" "owns r what TS64" "owns r what TF32"
  "owns r what TF64" "owns r what TChar"

lemma any_res_spec:
  assumes "any_res f xs = Inr b" "\<And>x c. x \<in> set xs \<Longrightarrow> f x = Inr c \<Longrightarrow> c = P x"
    "\<And>x. x \<in> set xs \<Longrightarrow> \<exists>c. f x = Inr c"
  shows "b = (\<exists>x \<in> set xs. P x)"
proof -
  have "any_res f xs = Inr (\<exists>x \<in> set xs. P x)"
    by (rule any_res_total) (use assms(2,3) in force)
  with assms(1) show ?thesis by simp
qed

lemma needs_deallocate_iff_owns:
  assumes wf: "wf_types E r F rk" and us: "usable r t" and n: "ty_rank rk t < n"
    and b: "needs_deallocate r n t what = Inr b"
  shows "b = owns r what t"
  using us n b
proof (induction n arbitrary: t b)
  case 0
  then show ?case by simp
next
  case (Suc n)
  show ?case
  proof (cases "\<exists>i. t = TId i")
    case False
    with Suc.prems(3) show ?thesis
      by (cases t) (auto intro: owns_string owns_error_context elim: owns_scalarE)
  next
    case True
    then obtain i where t: "t = TId i" by auto
    have us: "usable r (TId i)" using Suc.prems(1) by (simp add: t)
    then have vi: "valid_id r i" and nr: "kind_at r i \<noteq> KResource" "kind_at r i \<noteq> KUnknown"
      by (simp_all add: usable_TId)
    note sub = wf_kind(3) [OF wf us]
    have rank: "usable r u" "ty_rank rk u < n" if "u \<in> set (kind_types (kind_at r i))" for u
      using sub [OF that] Suc.prems(2) by (auto simp: t ty_rank_def)
    have rec: "c = owns r what u"
      if "u \<in> set (kind_types (kind_at r i))" "needs_deallocate r n u what = Inr c" for u c
      by (rule Suc.IH [OF rank [OF that(1)] that(2)])
    have tot: "\<exists>c. needs_deallocate r n u what = Inr c" if "u \<in> set (kind_types (kind_at r i))" for u
      by (rule needs_deallocate_total [OF wf rank [OF that]])
    have k: "needs_deallocate_kind (\<lambda>t. needs_deallocate r n t what) what (kind_at r i) = Inr b"
      using Suc.prems(3) vi by (simp add: t)
    have anyP: "b = (\<exists>u \<in> set us. owns r what u)"
      if "any_res (\<lambda>t. needs_deallocate r n t what) us = Inr b" "set us \<subseteq> set (kind_types (kind_at r i))" for us
      by (rule any_res_spec [OF that(1)]) (use rec tot that(2) in blast)+
    have T: "owns r what (TId i) = (\<exists>u \<in> set (kind_types (kind_at r i)). owns r what u)"
      if "\<forall>t. kind_at r i \<noteq> KList t" "\<forall>k v. kind_at r i \<noteq> KMap k v" "\<forall>h. kind_at r i \<noteq> KHandle h"
        "\<forall>t. kind_at r i \<noteq> KFuture t" "\<forall>t. kind_at r i \<noteq> KStream t"
      using that by (auto intro: owns_part elim: owns_TIdE)
    show ?thesis
    proof (cases "kind_at r i")
      case (KList t')
      with k owns_list [OF KList] show ?thesis by (simp add: t needs_deallocate_kind_def)
    next
      case (KMap a c)
      with k owns_map [OF KMap] show ?thesis by (simp add: t needs_deallocate_kind_def)
    next
      case (KHandle h)
      then show ?thesis
        using k by (cases h) (auto simp: t needs_deallocate_kind_def kind_types_def
            intro: owns_own elim: owns_TIdE)
    next
      case (KFuture p)
      then show ?thesis
        using k by (auto simp: t needs_deallocate_kind_def kind_types_def intro: owns_future elim: owns_TIdE)
    next
      case (KStream p)
      then show ?thesis
        using k by (auto simp: t needs_deallocate_kind_def kind_types_def intro: owns_stream elim: owns_TIdE)
    next
      case (KRecord fs)
      show ?thesis
        using anyP [of "map snd fs"] k T by (simp add: t KRecord needs_deallocate_kind_def kind_types_def)
    next
      case (KTuple tys)
      show ?thesis
        using anyP [of tys] k T by (simp add: t KTuple needs_deallocate_kind_def kind_types_def)
    next
      case (KVariant cases)
      show ?thesis
        using anyP [of "List.map_filter snd cases"] k T
        by (simp add: t KVariant needs_deallocate_kind_def kind_types_def)
    next
      case (KResult a c)
      show ?thesis
        using anyP [of "List.map_filter id [a, c]"] k T
        by (simp add: t KResult needs_deallocate_kind_def kind_types_def)
    next
      case (KOption u)
      show ?thesis
        using rec [of u b] k T by (simp add: t KOption needs_deallocate_kind_def kind_types_def)
    next
      case (KType u)
      show ?thesis
        using rec [of u b] k T by (simp add: t KType needs_deallocate_kind_def kind_types_def)
    next
      case (KFixedLengthList u m)
      show ?thesis
        using rec [of u b] k T by (simp add: t KFixedLengthList needs_deallocate_kind_def kind_types_def)
    next
      case (KFlags x)
      then show ?thesis using k T by (simp add: t needs_deallocate_kind_def kind_types_def)
    next
      case (KEnum x)
      then show ?thesis using k T by (simp add: t needs_deallocate_kind_def kind_types_def)
    qed (use nr in simp_all)
  qed
qed

section \<open>The stack discipline of deallocation\<close>

text \<open>
  What \<open>deallocate\<close> can free: no fixed-length list, and flags of one core value, since the code
  discards a single operand for flags.
\<close>

definition freeable :: "('z, 'a) wit_env \<Rightarrow> resolve \<Rightarrow> bool" where
  "freeable E r \<longleftrightarrow>
     (\<forall>td \<in> set (r_types r).
        (case td_kind td of
           KFixedLengthList _ _ \<Rightarrow> False
         | KFlags fs \<Rightarrow> repr_count E (flags_repr_of E fs) = 1
         | _ \<Rightarrow> True))"

lemma freeableD:
  assumes "freeable E r" "valid_id r i"
  shows "kind_at r i \<noteq> KFixedLengthList t n"
    "kind_at r i = KFlags fs \<Longrightarrow> repr_count E (flags_repr_of E fs) = 1"
  using assms unfolding freeable_def by (auto dest!: nth_mem bspec [of "set (r_types r)" _ "r_types r ! i"])

lemma eff_discard: "effect ro discard 1 0"
  unfolding discard_def by (rule eff_single) (auto intro!: eff_basic_intros)

lemma eff_deallocate_kind:
  assumes ok: "abi_ok cx F rk" and nf: "freeable (cx_env cx) (cx_resolve cx)"
    and us: "usable (cx_resolve cx) (TId i)" and len: "length (F (TId i)) \<le> 16"
    and de: "\<And>t. t \<in> set (kind_types (kind_at (cx_resolve cx) i)) \<Longrightarrow> length (F t) \<le> 16
        \<Longrightarrow> effect ro (de t) (length (F t)) 0"
    and di: "\<And>t a z. t \<in> set (kind_types (kind_at (cx_resolve cx) i)) \<Longrightarrow> effect ro (di t a z) 0 0"
    and lif: "effect ro (lif (TId i)) (length (F (TId i))) 1"
  shows "effect ro (deallocate_kind cx what de di lif i (r_types (cx_resolve cx) ! i))
    (length (F (TId i))) 0"
proof -
  let ?r = "cx_resolve cx"
  let ?td = "r_types ?r ! i"
  note B = abi_okD(1) [OF ok] and S = abi_okD(2) [OF ok] and FC = abi_okD(3) [OF ok]
  have vi: "valid_id ?r i" and nr: "td_kind ?td \<noteq> KResource" "td_kind ?td \<noteq> KUnknown"
    using us by (simp_all add: usable_TId)
  note nfi = freeableD [OF nf vi]
  note w = wf_kind [OF abi_okD(5) [OF ok] us]
  note fl = w(2) [unfolded kind_flat_def]
  have comps: "effect ro (flat_for_each_record_type cx (TId i) tys de) (length (F (TId i))) 0"
    if "\<And>t. t \<in> set tys \<Longrightarrow> t \<in> set (kind_types (td_kind ?td))"
      "F (TId i) = concat (map F tys)" for tys
    using eff_record_type [where c = 0 and iter = de and ro = ro, OF FC len that(2)] de that(1) by simp
  have arms: "effect ro (seq [flat_for_each_variant_arm cx (TId i) False cases de,
      emit cx (GuestDeallocateVariant k)]) (length (F (TId i))) 0"
    if v: "variant_fits F (F (TId i)) cases"
      and sub: "\<And>u. Some u \<in> set cases \<Longrightarrow> u \<in> set (kind_types (td_kind ?td))" for cases k
  proof -
    have c: "effect ro (flat_for_each_variant_arm cx (TId i) False cases de) (length (F (TId i)) - 1) 0"
      using eff_variant_type [where h = False and iter = de and ro = ro, OF B FC len v] de sub by simp
    have "F (TId i) \<noteq> []" using v by (simp add: variant_fits_def)
    then have "Suc (length (F (TId i)) - Suc 0) = length (F (TId i))" by simp
    then show ?thesis by (auto intro!: eff_basic_intros B eff_Cons [OF c])
  qed
  have drop: "effect ro (if handles what then seq [lif (TId i), emit cx (DropHandle (TId i))] else discard) 1 0"
    if "length (F (TId i)) = 1"
    using lif eff_discard [of ro] that
    by (auto intro!: eff_basic_intros B intro: eff_Cons)
  show ?thesis
  proof (cases "td_kind ?td")
    case (KRecord fs)
    then show ?thesis
      using comps [of "map snd fs"] fl by (simp add: deallocate_kind_def KRecord kind_types_def)
  next
    case (KTuple tys)
    then show ?thesis
      using comps [of tys] fl by (simp add: deallocate_kind_def KTuple kind_types_def)
  next
    case (KHandle h)
    then show ?thesis
      using drop eff_discard [of ro] fl by (cases h) (simp_all add: deallocate_kind_def)
  next
    case (KFuture t)
    then show ?thesis using drop fl by (simp add: deallocate_kind_def)
  next
    case (KStream t)
    then show ?thesis using drop fl by (simp add: deallocate_kind_def)
  next
    case (KVariant cases)
    then have "Some u \<in> set (map snd cases) \<Longrightarrow> u \<in> set (kind_types (td_kind ?td))" for u
      by (auto simp: kind_types_def map_filter_def intro!: image_eqI)
    then show ?thesis using arms [of "map snd cases"] fl KVariant by (simp add: deallocate_kind_def)
  next
    case (KOption t)
    then show ?thesis
      using arms [of "[None, Some t]"] fl by (simp add: deallocate_kind_def kind_types_def)
  next
    case (KResult a b)
    then have "Some u \<in> set [a, b] \<Longrightarrow> u \<in> set (kind_types (td_kind ?td))" for u
      by (auto simp: kind_types_def map_filter_def)
    then show ?thesis using arms [of "[a, b]"] fl KResult by (simp add: deallocate_kind_def)
  next
    case (KList t)
    then have c: "effect ro (di t a z) 0 0" for a z by (intro di) (simp add: kind_types_def)
    from KList have "length (F (TId i)) = 2" using fl by simp
    then show ?thesis
      unfolding deallocate_kind_def KList kind.case Let_def
      by (auto intro!: eff_basic_intros B eff_Cons [OF c])
  next
    case (KMap k v)
    then have c: "effect ro (di k a z) 0 0" "effect ro (di v a z) 0 0" for a z
      by (auto intro!: di simp: kind_types_def)
    from KMap have L: "length (F (TId i)) = 2" using fl by simp
    show ?thesis
      unfolding deallocate_kind_def KMap kind.case Let_def L
      by (rule eff_single) (auto intro!: eff_basic_intros eff_with_value_offset_Cons [OF S] B
          eff_Cons [OF c(1)] eff_Cons [OF c(2)])
  next
    case (KFlags x)
    then have "length (F (TId i)) = 1" using fl nfi(2) by simp
    then show ?thesis using eff_discard [of ro] KFlags by (simp add: deallocate_kind_def)
  next
    case (KEnum x)
    then show ?thesis using eff_discard [of ro] fl by (simp add: deallocate_kind_def)
  next
    case (KType t)
    then have "F (TId i) = F t" using fl by simp
    then show ?thesis using de [of t] len KType by (simp add: deallocate_kind_def kind_types_def)
  qed (use nr nfi(1) in simp_all)
qed

lemma eff_deallocate_indirect_arms:
  assumes B: "bindgen_contract cx"
    and di: "\<And>t a z. Some t \<in> set cases \<Longrightarrow> effect ro (di t a z) 0 0"
  shows "effect ro (seq [deallocate_indirect_variant cx di offset addr tag cases,
      emit cx (GuestDeallocateVariant k)]) 0 0"
proof -
  have arm: "effect ro (deallocate_indirect_arm cx di addr z x) 0 0" if x: "x \<in> set cases" for x z
  proof (cases x)
    case None
    show ?thesis
      unfolding deallocate_indirect_arm_def None by (auto intro!: eff_basic_intros)
  next
    case (Some t)
    show ?thesis
      unfolding deallocate_indirect_arm_def Some using x
      by (auto intro!: eff_basic_intros eff_Cons [OF di] simp: Some)
  qed
  have "effect ro (for_each cases (deallocate_indirect_arm cx di addr z)) 0
      (sum_list (map (\<lambda>_. 0) cases))" for z
    by (rule eff_for_each) (rule arm)
  then have fe: "effect ro (for_each cases (deallocate_indirect_arm cx di addr z)) 0 0" for z
    by simp
  show ?thesis
    unfolding deallocate_indirect_variant_def
    by (auto intro!: eff_basic_intros B eff_Cons [OF eff_load_intrepr [OF B]] eff_Cons [OF fe])
qed

lemma eff_deallocate_indirect_kind:
  assumes ok: "abi_ok cx F rk" and us: "usable (cx_resolve cx) (TId i)"
    and needs: "needs_deallocate_kind nd what (kind_at (cx_resolve cx) i) = Inr True"
    and de: "length (F (TId i)) \<le> 16 \<Longrightarrow> effect ro (de (TId i)) (length (F (TId i))) 0"
    and di: "\<And>t a z. t \<in> set (kind_types (kind_at (cx_resolve cx) i)) \<Longrightarrow> effect ro (di t a z) 0 0"
    and rd: "\<And>a z. effect ro (rd (TId i) a z) 0 1"
  shows "effect ro (deallocate_indirect_kind cx what de di rd i addr offset
    (r_types (cx_resolve cx) ! i)) 0 0"
proof -
  let ?r = "cx_resolve cx"
  let ?td = "r_types ?r ! i"
  note B = abi_okD(1) [OF ok] and S = abi_okD(2) [OF ok]
  have vi: "valid_id ?r i" and nr: "td_kind ?td \<noteq> KResource" "td_kind ?td \<noteq> KUnknown"
    using us by (simp_all add: usable_TId)
  note fl = wf_kind(2) [OF abi_okD(5) [OF ok] us, unfolded kind_flat_def]
  have drop: "effect ro (seq [rd (TId i) addr offset, emit cx (DropHandle (TId i))]) 0 0"
    by (auto intro!: eff_basic_intros B eff_Cons [OF rd])
  have flds: "effect ro (deallocate_indirect_fields cx di tys addr offset) 0 0"
    if "\<And>t. t \<in> set tys \<Longrightarrow> t \<in> set (kind_types (td_kind ?td))" for tys
    using eff_offset_loop [where c = 0 and rd = di and ro = ro, OF S di] that
    by (simp add: deallocate_indirect_fields_def)
  have list: "effect ro (seq [load_pointer_and_length cx (TId i) addr offset, de (TId i)]) 0 0"
    if "length (F (TId i)) = 2"
  proof -
    have d: "effect ro (de (TId i)) 2 0" using de that by simp
    show ?thesis
      by (auto intro!: eff_basic_intros eff_Cons [OF eff_load_pointer_and_length [OF B]] eff_Cons [OF d])
  qed
  note arms = eff_deallocate_indirect_arms [OF B di]
  note defs = deallocate_indirect_kind_def needs_deallocate_kind_def
  show ?thesis
  proof (cases "td_kind ?td")
    case (KRecord fs)
    then show ?thesis using flds [of "map snd fs"] by (simp add: defs kind_types_def)
  next
    case (KTuple tys)
    then show ?thesis using flds [of tys] by (simp add: defs kind_types_def)
  next
    case (KHandle h)
    then show ?thesis using drop needs by (cases h) (simp_all add: defs)
  next
    case (KFuture t)
    then show ?thesis using drop needs by (simp add: defs)
  next
    case (KStream t)
    then show ?thesis using drop needs by (simp add: defs)
  next
    case (KVariant cases)
    then have "Some u \<in> set (map snd cases) \<Longrightarrow> u \<in> set (kind_types (td_kind ?td))" for u
      by (auto simp: kind_types_def map_filter_def intro!: image_eqI)
    then show ?thesis using arms [of "map snd cases"] KVariant by (simp add: defs)
  next
    case (KOption t)
    then show ?thesis using arms [of "[None, Some t]"] by (simp add: defs kind_types_def)
  next
    case (KResult a b)
    then have "Some u \<in> set [a, b] \<Longrightarrow> u \<in> set (kind_types (td_kind ?td))" for u
      by (auto simp: kind_types_def map_filter_def)
    then show ?thesis using arms [of "[a, b]"] KResult by (simp add: defs)
  next
    case (KList t)
    then show ?thesis using list fl by (simp add: defs)
  next
    case (KMap k v)
    then show ?thesis using list fl by (simp add: defs)
  next
    case (KType t)
    then show ?thesis using di [of t] by (simp add: defs kind_types_def)
  qed (use nr needs in \<open>auto simp: defs intro!: eff_Inr\<close>)
qed

lemma eff_deallocate_scalar:
  assumes B: "bindgen_contract cx" and SF: "scalar_flat F" and t: "\<forall>i. t \<noteq> TId i"
  shows "effect ro (deallocate_body cx what de di lif t) (length (F t)) 0"
  using t SF eff_discard [of ro]
  by (cases t) (auto simp: scalar_flat_def deallocate_body_def intro!: eff_emit_eq [OF B])

lemma eff_deallocate_indirect_body:
  assumes nd: "needs t = Inr b"
    and body: "b \<Longrightarrow> effect ro (case t of
            TString \<Rightarrow> seq [load_pointer_and_length cx t addr offset, de t]
          | TId i \<Rightarrow> with_type cx i (deallocate_indirect_kind cx what de di rd i addr offset)
          | _ \<Rightarrow> Inr) 0 0"
  shows "effect ro (deallocate_indirect_body cx what needs de di rd t addr offset) 0 0"
proof (cases b)
  case True
  have "deallocate_indirect_body cx what needs de di rd t addr offset =
      (case t of
            TString \<Rightarrow> seq [load_pointer_and_length cx t addr offset, de t]
          | TId i \<Rightarrow> with_type cx i (deallocate_indirect_kind cx what de di rd i addr offset)
          | _ \<Rightarrow> Inr)"
    by (rule ext) (simp add: deallocate_indirect_body_def with_res_def nd True)
  with body [OF True] show ?thesis by simp
next
  case False
  have "deallocate_indirect_body cx what needs de di rd t addr offset = Inr"
    by (rule ext) (simp add: deallocate_indirect_body_def with_res_def nd False)
  then show ?thesis by auto
qed

theorem deallocate_effect:
  assumes ok: "abi_ok cx F rk" and nf: "freeable (cx_env cx) (cx_resolve cx)"
    and us: "usable (cx_resolve cx) t"
  shows "(length (F t) \<le> 16 \<longrightarrow> 2 * ty_rank rk t + 2 \<le> n
        \<longrightarrow> effect ro (deallocate cx n t what) (length (F t)) 0)
    \<and> (\<forall>a z. 2 * ty_rank rk t + 3 \<le> n \<longrightarrow> effect ro (deallocate_indirect cx n t a z what) 0 0)"
  using us
proof (induction n arbitrary: t)
  case 0
  then show ?case by simp
next
  case (Suc n)
  note B = abi_okD(1) [OF ok] and wf = abi_okD(5) [OF ok]
  have SF: "scalar_flat F" using wf by (simp add: wf_types_def)
  have deS: "effect ro (deallocate cx (Suc n) t what) (length (F t)) 0"
    if "effect ro (deallocate_body cx what (\<lambda>t. deallocate cx n t what)
       (\<lambda>t a z. deallocate_indirect cx n t a z what) (lift cx n) t) (length (F t)) 0"
    using that by (simp add: effect_def)
  have diS: "effect ro (deallocate_indirect cx (Suc n) t a z what) 0 0"
    if "effect ro (deallocate_indirect_body cx what
       (\<lambda>t. needs_deallocate (cx_resolve cx) (Suc n) t what) (\<lambda>t. deallocate cx n t what)
       (\<lambda>t a z. deallocate_indirect cx n t a z what) (read_from_memory cx n) t a z) 0 0" for a z
    using that by (simp add: effect_def)
  have nd: "\<exists>b. needs_deallocate (cx_resolve cx) (Suc n) t what = Inr b" if "ty_rank rk t < Suc n"
    by (rule needs_deallocate_total [OF wf Suc.prems that])
  show ?case
  proof (cases "\<exists>i. t = TId i")
    case False
    then have rt: "ty_rank rk t = 0" by (cases t) (auto simp: ty_rank_def)
    have len: "length (F t) \<le> 16" using SF False by (cases t) (auto simp: scalar_flat_def)
    have de: "effect ro (deallocate cx n t what) (length (F t)) 0" if "2 \<le> n"
      using Suc.IH [OF Suc.prems] len rt that by simp
    have "effect ro (deallocate cx (Suc n) t what) (length (F t)) 0"
      by (rule deS, rule eff_deallocate_scalar [OF B SF]) (use False in simp)
    moreover have "effect ro (deallocate_indirect cx (Suc n) t a z what) 0 0" if n: "3 \<le> Suc n" for a z
    proof -
      obtain b where b: "needs_deallocate (cx_resolve cx) (Suc n) t what = Inr b"
        using nd rt by auto
      have l: "effect ro (load_pointer_and_length cx t a z) 0 2"
        by (rule eff_load_pointer_and_length [OF B])
      have str: "effect ro (seq [load_pointer_and_length cx t a z, deallocate cx n t what]) 0 0"
        if "t = TString"
      proof -
        have d: "effect ro (deallocate cx n t what) 2 0" using de n that SF by (simp add: scalar_flat_def)
        show ?thesis by (auto intro!: eff_Nil eff_Cons [OF l] eff_Cons [OF d])
      qed
      show ?thesis
        by (rule diS, rule eff_deallocate_indirect_body [where t = t and b = b and
              needs = "\<lambda>t. needs_deallocate (cx_resolve cx) (Suc n) t what"], rule b)
          (use False str in \<open>auto split: ty.splits intro!: eff_Inr\<close>)
    qed
    ultimately show ?thesis using rt by (simp del: deallocate.simps deallocate_indirect.simps)
  next
    case True
    then obtain i where t: "t = TId i" by auto
    have us: "usable (cx_resolve cx) (TId i)" using Suc.prems t by simp
    then have vi: "valid_id (cx_resolve cx) i" by (simp add: usable_TId)
    note sub = wf_kind(3) [OF wf us]
    have rt: "ty_rank rk (TId i) = Suc (rk i)" by (simp add: ty_rank_def)
    have de: "effect ro (deallocate cx n u what) (length (F u)) 0"
      if "u \<in> set (kind_types (kind_at (cx_resolve cx) i))" "length (F u) \<le> 16" "2 * Suc (rk i) + 1 \<le> n" for u
      using Suc.IH [of u] sub [OF that(1)] that(2,3) by auto
    have di: "effect ro (deallocate_indirect cx n u a z what) 0 0"
      if "u \<in> set (kind_types (kind_at (cx_resolve cx) i))" "2 * Suc (rk i) + 1 \<le> n" for u a z
      using Suc.IH [of u] sub [OF that(1)] that(2) by auto
    have de_i: "effect ro (deallocate cx n (TId i) what) (length (F (TId i))) 0"
      if "2 * Suc (rk i) + 2 \<le> n" "length (F (TId i)) \<le> 16"
      using Suc.IH [OF us] that by (simp add: ty_rank_def)
    have lif: "effect ro (lift cx n (TId i)) (length (F (TId i))) 1"
      if "length (F (TId i)) \<le> 16" "2 * Suc (rk i) + 1 \<le> n"
      using lift_read_effect [OF ok us, of n ro] that rt by simp
    have rd: "effect ro (read_from_memory cx n (TId i) a z) 0 1" if "2 * Suc (rk i) + 2 \<le> n" for a z
      using lift_read_effect [OF ok us, of n ro] that rt by simp
    have "effect ro (deallocate cx (Suc n) t what) (length (F t)) 0"
      if "length (F t) \<le> 16" "2 * ty_rank rk t + 2 \<le> Suc n"
      using that unfolding t rt
      by (intro deS [unfolded t]) (auto simp: deallocate_body_def intro!: eff_with_type vi
          eff_deallocate_kind [OF ok nf us] de [simplified] di [simplified] lif [simplified])
    moreover have "effect ro (deallocate_indirect cx (Suc n) t a z what) 0 0"
      if k: "2 * ty_rank rk t + 3 \<le> Suc n" for a z
    proof -
      obtain b where b: "needs_deallocate (cx_resolve cx) (Suc n) t what = Inr b"
        using nd k rt t by auto
      then have k': "needs_deallocate_kind (\<lambda>t. needs_deallocate (cx_resolve cx) n t what) what
          (kind_at (cx_resolve cx) i) = Inr b"
        using vi by (simp add: t)
      have "2 * Suc (rk i) + 2 \<le> n" using k unfolding t rt by simp
      note de_i' = de_i [OF this] and rd' = rd [OF this]
      have n: "2 * Suc (rk i) + 1 \<le> n" using k unfolding t rt by simp
      show ?thesis
        by (rule diS, rule eff_deallocate_indirect_body [where t = t and b = b and
              needs = "\<lambda>t. needs_deallocate (cx_resolve cx) (Suc n) t what"], rule b)
          (use k' n de_i' rd' in \<open>auto simp: t intro!: eff_with_type vi
            eff_deallocate_indirect_kind [OF ok us, simplified] di [simplified]\<close>)
    qed
    ultimately show ?thesis by (simp del: deallocate.simps deallocate_indirect.simps)
  qed
qed

end
