(* ===== verification/Abi_Call_Stack.thy ===== *)
theory Abi_Call_Stack
  imports Abi_Dealloc_Stack
begin

text \<open>
  \<open>call\<close> and the other entry points run to the end: every \<open>assert!\<close>, \<open>unwrap\<close> and index on the
  way holds, and the stack is empty when they return, for every signature that agrees with the
  canonical flattening.
\<close>

section \<open>Conditions on a generator\<close>

text \<open>The allocator setting, whether a return pointer is set, and the height of the stack.\<close>

definition st :: "realloc option \<Rightarrow> bool \<Rightarrow> nat \<Rightarrow> ('b, 'o) gen \<Rightarrow> bool" where
  "st ro rp k g \<longleftrightarrow>
     g_realloc g = ro \<and> (g_return_pointer g \<noteq> None) = rp \<and> length (g_stack g) = k"

definition runs :: "('s \<Rightarrow> bool) \<Rightarrow> 's step \<Rightarrow> ('s \<Rightarrow> bool) \<Rightarrow> bool" where
  "runs P f Q \<longleftrightarrow> (\<forall>g. P g \<longrightarrow> (\<exists>g'. f g = Inr g' \<and> Q g'))"

lemma runs_Nil [intro]: "(\<And>g. P g \<Longrightarrow> Q g) \<Longrightarrow> runs P (seq []) Q"
  by (simp add: runs_def seq.simps)

lemma runs_Cons:
  assumes "runs P f Q" "runs Q (seq fs) R"
  shows "runs P (seq (f # fs)) R"
  using assms unfolding runs_def by (fastforce simp: seq.simps)

lemma runs_effect:
  fixes f :: "('b, 'o) gen step"
  assumes "effect ro f m n" "m \<le> k"
  shows "runs (st ro rp k) f (st ro rp (k - m + n))"
  unfolding runs_def
proof (intro allI impI)
  fix g :: "('b, 'o) gen" assume g: "st ro rp k g"
  have s: "g_stack g = take (k - m) (g_stack g) @ drop (k - m) (g_stack g)"
    "length (drop (k - m) (g_stack g)) = m"
    using g assms(2) by (simp_all add: st_def)
  obtain g' out where "f g = Inr g'" "g_stack g' = take (k - m) (g_stack g) @ out" "length out = n"
    "frame g g'"
    by (rule effectE [OF assms(1) _ s]) (use g in \<open>simp add: st_def\<close>)
  then show "\<exists>g'. f g = Inr g' \<and> st ro rp (k - m + n) g'"
    using g by (auto simp: st_def frame_def)
qed

lemma runs_effect_eq:
  assumes "effect ro f m n" "m \<le> k" "k - m + n = j"
  shows "runs (st ro rp k) f (st ro rp j)"
  using runs_effect [OF assms(1,2)] assms(3) by simp

lemma runs_effect_Cons:
  assumes "effect ro f m n" "m \<le> k" "runs (st ro rp (k - m + n)) (seq fs) R"
  shows "runs (st ro rp k) (seq (f # fs)) R"
  by (rule runs_Cons [OF runs_effect [OF assms(1,2)] assms(3)])

lemma runs_set_realloc_Cons:
  assumes "runs (st ro' rp k) (seq fs) R"
  shows "runs (st ro rp k) (seq (set_realloc ro' # fs)) R"
proof (rule runs_Cons [OF _ assms])
  show "runs (st ro rp k) (set_realloc ro') (st ro' rp k)"
    by (simp add: runs_def st_def set_realloc_def)
qed

lemma runs_realloc_is_none_Cons:
  assumes "runs (st None rp k) (seq fs) R"
  shows "runs (st None rp k) (seq (realloc_is_none # fs)) R"
proof (rule runs_Cons [OF _ assms])
  show "runs (st None rp k) realloc_is_none (st None rp k)"
    by (simp add: runs_def st_def realloc_is_none_def)
qed

lemma runs_stack_is_empty_Cons:
  assumes "runs (st ro rp 0) (seq fs) R"
  shows "runs (st ro rp 0) (seq (stack_is_empty # fs)) R"
proof (rule runs_Cons [OF _ assms])
  show "runs (st ro rp 0) stack_is_empty (st ro rp 0)"
    by (simp add: runs_def st_def stack_is_empty_def)
qed

lemma runs_seq_Cons:
  assumes "runs P (seq (gs @ fs)) R"
  shows "runs P (seq (seq gs # fs)) R"
  using assms by (simp add: runs_def seq_append seq.simps)

lemma runs_Inr_Cons:
  assumes "runs P (seq fs) R"
  shows "runs P (seq (Inr # fs)) R"
  using assms by (simp add: runs_def seq.simps)

section \<open>Parameters\<close>

lemma eff_with_return_pointer:
  fixes f :: "'o \<Rightarrow> ('b, 'o) gen step"
  assumes "\<And>p. effect ro (f p) m n"
  shows "effect ro (with_return_pointer cx info f) m n"
proof (rule effectI)
  fix g :: "('b, 'o) gen" and base args
  assume g: "g_realloc g = ro" "g_stack g = base @ args" "length args = m"
  obtain b p where bp: "bg_return_pointer (cx_bindgen cx) (g_bindgen g) (fst info) (snd info) = (b, p)"
    by fastforce
  let ?h = "g\<lparr>g_bindgen := b\<rparr>"
  obtain g' out where "f p ?h = Inr g'" "g_stack g' = base @ out" "length out = n" "frame ?h g'"
    by (rule effectE [OF assms [of p], of ?h base args]) (use g in simp_all)
  then show "\<exists>g' out. with_return_pointer cx info f g = Inr g' \<and> g_stack g' = base @ out \<and>
      length out = n \<and> frame g g'"
    by (auto simp: with_return_pointer_def bp frame_def)
qed

lemma eff_lower_params_to_memory:
  fixes cx :: "('b, 'o, 'z, 'a) ctx"
  assumes B: "bindgen_contract cx"
    and wr: "\<And>t a z. t \<in> set tys \<Longrightarrow> effect ro (write_to_memory cx n t a z) 1 0"
  shows "effect ro (lower_params_to_memory cx n k offset tys ptr) 0 1"
  using wr
proof (induction tys arbitrary: k offset)
  case Nil
  have "effect ro (seq [push ptr]) 0 1" by (auto intro!: eff_basic_intros)
  then have "effect ro (push ptr) 0 1" by (rule eff_single)
  moreover have "lower_params_to_memory cx n k offset [] ptr = push ptr" by (rule ext) simp
  ultimately show ?case by simp
next
  case (Cons t ts)
  have w: "effect ro (write_to_memory cx n t a z) 1 0" for a z using Cons.prems by simp
  have r: "effect ro (lower_params_to_memory cx n k offset ts ptr) 0 1" for k offset
    by (rule Cons.IH) (use Cons.prems in simp)
  have "effect ro (seq [emit cx (GetArg k),
       with_sizes cx (\<lambda>sz.
         (let offset = align_to_arch (cx_env cx) offset (sa_align sz t) in
          seq [write_to_memory cx n t ptr offset,
            with_sizes cx (\<lambda>sz g.
              lower_params_to_memory cx n (Suc k) (size_add (cx_env cx) offset (sa_size sz t))
                ts ptr g)]))]) 0 1"
    unfolding Let_def by (auto intro!: eff_basic_intros B eff_Cons [OF w] eff_Cons [OF r])
  then show ?case by (simp add: effect_def)
qed

lemma eff_read_params_from_memory:
  fixes cx :: "('b, 'o, 'z, 'a) ctx"
  assumes rd: "\<And>t a z. t \<in> set tys \<Longrightarrow> effect ro (read_from_memory cx n t a z) 0 1"
  shows "effect ro (read_params_from_memory cx n offset tys ptr) 0 (length tys)"
  using rd
proof (induction tys arbitrary: offset)
  case Nil
  then show ?case by (auto intro!: effectI)
next
  case (Cons t ts)
  have w: "effect ro (read_from_memory cx n t a z) 0 1" for a z using Cons.prems by simp
  have r: "effect ro (read_params_from_memory cx n offset ts ptr) 0 (length ts)" for offset
    by (rule Cons.IH) (use Cons.prems in simp)
  have "effect ro (seq [with_sizes cx (\<lambda>sz.
       (let offset = align_to_arch (cx_env cx) offset (sa_align sz t) in
        seq [read_from_memory cx n t ptr offset,
          with_sizes cx (\<lambda>sz g.
            read_params_from_memory cx n (size_add (cx_env cx) offset (sa_size sz t)) ts ptr g)]))])
      0 (length (t # ts))"
    unfolding Let_def by (auto intro!: eff_basic_intros eff_Cons [OF w] eff_Cons [OF r])
  from eff_single [OF this] show ?case by (simp add: effect_def)
qed

lemma flat_types_bound:
  assumes "flat_contract cx F" "length (F t) \<le> m"
  shows "flat_types (cx_env cx) (cx_resolve cx) t (Some m) = Some (F t)"
proof -
  have "fst (push_flat (cx_env cx) (cx_resolve cx) t m) = (length (F t) \<le> m)"
    "length (F t) \<le> m \<longrightarrow> snd (push_flat (cx_env cx) (cx_resolve cx) t m) = F t"
    using assms(1) unfolding flat_contract_def by blast+
  with assms(2) show ?thesis by (simp add: flat_types_def split_beta)
qed

lemma eff_get_args:
  assumes B: "bindgen_contract cx"
  shows "effect ro (for_each [a..<a + k] (\<lambda>k. emit cx (GetArg k))) 0 k"
proof -
  have "effect ro (for_each [a..<a + k] (\<lambda>k. emit cx (GetArg k))) 0 (sum_list (map (\<lambda>_. 1) [a..<a + k]))"
    by (rule eff_for_each) (rule eff_emit_eq [OF B]; simp)
  then show ?thesis by (simp add: sum_list_triv)
qed

lemma eff_lift_params_direct:
  fixes cx :: "('b, 'o, 'z, 'a) ctx"
  assumes B: "bindgen_contract cx" and FC: "flat_contract cx F"
    and lif: "\<And>t. t \<in> set tys \<Longrightarrow> length (F t) \<le> m \<and> effect ro (lift cx n t) (length (F t)) 1"
  shows "effect ro (lift_params_direct cx n m offset tys) 0 (length tys)"
  using lif
proof (induction tys arbitrary: offset)
  case Nil
  then show ?case by (auto intro!: effectI)
next
  case (Cons t ts)
  have ft: "flat_types (cx_env cx) (cx_resolve cx) t (Some m) = Some (F t)"
    by (rule flat_types_bound [OF FC]) (use Cons.prems in simp)
  have l: "effect ro (lift cx n t) (length (F t)) 1" using Cons.prems by simp
  have r: "effect ro (lift_params_direct cx n m offset ts) 0 (length ts)" for offset
    by (rule Cons.IH) (use Cons.prems in simp)
  have "effect ro (seq [for_each [offset..<offset + length (F t)] (\<lambda>k. emit cx (GetArg k)),
      lift cx n t, lift_params_direct cx n m (offset + length (F t)) ts]) 0 (length (t # ts))"
    by (auto intro!: eff_Nil eff_Cons [OF eff_get_args [OF B]] eff_Cons [OF l] eff_Cons [OF r])
  moreover have "lift_params_direct cx n m offset (t # ts) g =
      seq [for_each [offset..<offset + length (F t)] (\<lambda>k. emit cx (GetArg k)),
        lift cx n t, lift_params_direct cx n m (offset + length (F t)) ts] g" for g
    by (simp add: ft and_then_def seq.simps split: sum.splits)
  ultimately show ?case by (simp add: effect_def)
qed

lemma eff_lower_params_direct:
  assumes B: "bindgen_contract cx"
    and low: "\<And>t. t \<in> set tys \<Longrightarrow> effect ro (lower cx n t) 1 (length (F t))"
  shows "effect ro (lower_params_direct cx n tys) 0 (length (concat (map F tys)))"
proof -
  have "effect ro (for_each (enumerate 0 tys) (\<lambda>(k, t). seq [emit cx (GetArg k), lower cx n t])) 0
      (sum_list (map (\<lambda>(k, t). length (F t)) (enumerate 0 tys)))"
  proof (rule eff_for_each)
    fix x assume "x \<in> set (enumerate 0 tys)"
    then have "snd x \<in> set tys" by (rule enumerate_snd)
    moreover obtain k t where x: "x = (k, t)" by fastforce
    ultimately have l: "effect ro (lower cx n t) 1 (length (F t))" by (intro low) simp
    show "effect ro (case x of (k, t) \<Rightarrow> seq [emit cx (GetArg k), lower cx n t]) 0
        (case x of (k, t) \<Rightarrow> length (F t))"
      unfolding x by (auto intro!: eff_basic_intros B eff_Cons [OF l])
  qed
  moreover have "sum_list (map (\<lambda>(k, t). length (F t)) (enumerate j tys)) = length (concat (map F tys))" for j
    by (induction tys arbitrary: j) simp_all
  ultimately show ?thesis by (simp add: lower_params_direct_def)
qed

section \<open>Signatures\<close>

definition flat_list :: "(ty \<Rightarrow> wasm_type list) \<Rightarrow> ty list \<Rightarrow> wasm_type list" where
  "flat_list F tys = concat (map F tys)"

text \<open>
  What \<open>Resolve::wasm_signature\<close> documents for the synchronous ABI: indirect parameters are one
  pointer, a return pointer is an extra parameter of an import and the only result of an export.
\<close>

definition signature_ok ::
    "('b, 'o, 'z, 'a) ctx \<Rightarrow> (ty \<Rightarrow> wasm_type list) \<Rightarrow> abi_variant \<Rightarrow> func \<Rightarrow> bool" where
  "signature_ok cx F variant f \<longleftrightarrow>
     (let sg = wasm_signature_of (cx_env cx) (cx_resolve cx) variant f;
          params = (if sig_indirect_params sg then 1 else length (flat_list F (param_types f)))
      in (\<not> sig_indirect_params sg \<longrightarrow> length (flat_list F (param_types f)) \<le> 16) \<and>
         length (sig_params sg) = params + of_bool (variant = GuestImport \<and> sig_retptr sg) \<and>
         length (sig_results sg) =
           (if sig_retptr sg then of_bool (variant \<noteq> GuestImport)
            else length (flat_list F (result_types f))) \<and>
         (\<not> sig_retptr sg \<longrightarrow> length (flat_list F (result_types f)) \<le> 16))"

text \<open>The types of a function can be used and the fuel covers them.\<close>

definition func_ok :: "resolve \<Rightarrow> (tid \<Rightarrow> nat) \<Rightarrow> nat \<Rightarrow> func \<Rightarrow> bool" where
  "func_ok r rk n f \<longleftrightarrow>
     (\<forall>t \<in> set (param_types f @ result_types f). usable r t \<and> 2 * ty_rank rk t + 2 \<le> n)"

lemma option_list_simps [simp]: "option_list None = []" "option_list (Some x) = [x]"
  by (simp_all add: option_list_def)

lemma length_flat_list_ge: "t \<in> set tys \<Longrightarrow> length (F t) \<le> length (flat_list F tys)"
  unfolding flat_list_def by (rule length_concat_ge) simp

lemma func_effects:
  assumes ok: "abi_ok cx F rk" and fo: "func_ok (cx_resolve cx) rk n f"
    and t: "t \<in> set (param_types f) \<or> t \<in> set (result_types f)"
  shows "ro \<noteq> None \<Longrightarrow> length (F t) \<le> 16 \<Longrightarrow> effect ro (lower cx n t) 1 (length (F t))"
    "ro \<noteq> None \<Longrightarrow> effect ro (write_to_memory cx n t a z) 1 0"
    "length (F t) \<le> 16 \<Longrightarrow> effect ro (lift cx n t) (length (F t)) 1"
    "effect ro (read_from_memory cx n t a z) 0 1"
proof -
  have u: "usable (cx_resolve cx) t" "2 * ty_rank rk t + 2 \<le> n"
    using fo t by (auto simp: func_ok_def)
  then have "2 * ty_rank rk t + 1 \<le> n" by simp
  note u = u this
  show "ro \<noteq> None \<Longrightarrow> length (F t) \<le> 16 \<Longrightarrow> effect ro (lower cx n t) 1 (length (F t))"
    "ro \<noteq> None \<Longrightarrow> effect ro (write_to_memory cx n t a z) 1 0"
    using lower_write_effect [OF ok _ u(1)] u(2,3) by blast+
  show "length (F t) \<le> 16 \<Longrightarrow> effect ro (lift cx n t) (length (F t)) 1"
    "effect ro (read_from_memory cx n t a z) 0 1"
    using lift_read_effect [OF ok u(1)] u(2,3) by blast+
qed

lemma eff_read_results:
  assumes ok: "abi_ok cx F rk" and fo: "func_ok (cx_resolve cx) rk n f"
  shows "effect ro (read_results_from_memory cx (read_from_memory cx n) (result_types f) ptr z) 0
    (of_bool (fn_result f \<noteq> None))"
proof -
  have "effect ro (read_fields_from_memory cx (read_from_memory cx n) (result_types f) ptr z) 0
      (length (result_types f))"
    by (rule eff_read_fields [OF abi_okD(2) [OF ok]]) (rule func_effects(4) [OF ok fo], simp)
  then show ?thesis by (cases "fn_result f") (simp_all add: read_results_from_memory_def)
qed

lemma eff_write_results:
  assumes ok: "abi_ok cx F rk" and fo: "func_ok (cx_resolve cx) rk n f" and ro: "ro \<noteq> None"
  shows "effect ro (write_params_to_memory cx (write_to_memory cx n) (result_types f) ptr z)
    (of_bool (fn_result f \<noteq> None)) 0"
proof -
  have "effect ro (write_fields_to_memory cx (write_to_memory cx n) (result_types f) ptr z)
      (length (result_types f)) 0"
    by (rule eff_write_fields [OF abi_okD(2) [OF ok]]) (rule func_effects(2) [OF ok fo _ ro], simp)
  then show ?thesis by (cases "fn_result f") (simp_all add: write_params_to_memory_def)
qed

lemma eff_lower_results:
  assumes ok: "abi_ok cx F rk" and fo: "func_ok (cx_resolve cx) rk n f" and ro: "ro \<noteq> None"
    and len: "length (flat_list F (result_types f)) \<le> 16"
  shows "effect ro (case fn_result f of None \<Rightarrow> Inr | Some t \<Rightarrow> lower cx n t)
    (of_bool (fn_result f \<noteq> None)) (length (flat_list F (result_types f)))"
proof (cases "fn_result f")
  case (Some t)
  then have "length (F t) \<le> 16" using len by (simp add: flat_list_def)
  then show ?thesis using func_effects(1) [OF ok fo _ ro, of t] Some by (simp add: flat_list_def)
qed (auto simp: flat_list_def)

lemma eff_lift_results:
  assumes ok: "abi_ok cx F rk" and fo: "func_ok (cx_resolve cx) rk n f"
    and len: "length (flat_list F (result_types f)) \<le> 16"
  shows "effect ro (case fn_result f of None \<Rightarrow> Inr | Some t \<Rightarrow> lift cx n t)
    (length (flat_list F (result_types f))) (of_bool (fn_result f \<noteq> None))"
proof (cases "fn_result f")
  case (Some t)
  then have "length (F t) \<le> 16" using len by (simp add: flat_list_def)
  then show ?thesis using func_effects(3) [OF ok fo, of t] Some by (simp add: flat_list_def)
qed (auto simp: flat_list_def)

section \<open>Lowering the arguments and lifting the results\<close>

lemma eff_lower_params_indirect:
  assumes ok: "abi_ok cx F rk" and fo: "func_ok (cx_resolve cx) rk n f" and ro: "ro \<noteq> None"
    and v: "variant = GuestImport \<or> variant = GuestExport"
  shows "effect ro (lower_params_indirect cx n f variant) 0 1"
proof -
  note B = abi_okD(1) [OF ok]
  have l: "effect ro (lower_params_to_memory cx n 0 z (param_types f) ptr) 0 1" for z ptr
    by (rule eff_lower_params_to_memory [OF B]) (rule func_effects(2) [OF ok fo _ ro], simp)
  have i: "effect ro (with_return_pointer cx info (lower_params_to_memory cx n 0 z (param_types f))) 0 1"
    for info z by (rule eff_with_return_pointer) (rule l)
  show ?thesis
    unfolding lower_params_indirect_def using v
    by (intro eff_single [of ro "with_sizes cx h" for h])
      (auto simp: Let_def intro!: eff_basic_intros B eff_Cons [OF l] eff_Cons [OF i])
qed

lemma runs_prepare_return_pointer:
  "runs (st ro False k) (prepare_return_pointer cx f) (st ro True (Suc k))"
  by (auto simp: runs_def st_def prepare_return_pointer_def with_sizes_def with_return_pointer_def
      push_def split: prod.splits)

lemma runs_maybe_return_pointer:
  "runs (st ro False k) (if c then prepare_return_pointer cx f else Inr) (st ro c (k + of_bool c))"
  using runs_prepare_return_pointer [of ro k cx f] by (cases c) (simp_all add: runs_def)

lemma runs_take_return_pointer:
  assumes "sig_results sg = []" "\<And>ptr. runs (st ro False k) (h ptr) R"
  shows "runs (st ro True k) (with_result_pointer sg GuestImport h) R"
  using assms by (auto simp: runs_def st_def with_result_pointer_def)

lemma runs_lift_call_results:
  assumes ok: "abi_ok cx F rk" and fo: "func_ok (cx_resolve cx) rk n f"
    and v: "variant = GuestImport \<or> variant = GuestExport" and so: "signature_ok cx F variant f"
    and sg: "sg = wasm_signature_of (cx_env cx) (cx_resolve cx) variant f"
  shows "runs (st None (variant = GuestImport \<and> sig_retptr sg) (length (sig_results sg)))
    (lift_call_results cx n f sg variant False) (st None False (of_bool (fn_result f \<noteq> None)))"
proof (cases "sig_retptr sg")
  case False
  have so': "length (sig_results sg) = length (flat_list F (result_types f))"
    "length (flat_list F (result_types f)) \<le> 16"
    using so False unfolding signature_ok_def sg by (simp_all add: Let_def)
  have "runs (st None False (length (sig_results sg)))
      (case fn_result f of None \<Rightarrow> Inr | Some t \<Rightarrow> lift cx n t)
      (st None False (of_bool (fn_result f \<noteq> None)))"
    by (rule runs_effect_eq [OF eff_lift_results [OF ok fo so'(2)]]) (use so'(1) in simp_all)
  then show ?thesis using False by (simp add: lift_call_results_def)
next
  case True
  have body: "effect None (seq [read_results_from_memory cx (read_from_memory cx n) (result_types f)
        ptr z, emit cx (Flush (of_bool (fn_result f \<noteq> None)))]) 0 (of_bool (fn_result f \<noteq> None))" for ptr z
    by (rule eff_Cons [OF eff_read_results [OF ok fo]], simp,
        rule eff_emit_Cons [OF abi_okD(1) [OF ok]]) (simp, rule eff_Nil, simp)
  show ?thesis
  proof (cases "variant = GuestImport")
    case imp: True
    have "sig_results sg = []" using so True imp unfolding signature_ok_def sg by (simp add: Let_def)
    then show ?thesis
      using True imp runs_effect [OF body, of 0 False]
      by (auto simp: lift_call_results_def intro!: runs_take_return_pointer)
  next
    case imp: False
    then have ve: "variant = GuestExport" using v by simp
    have r: "length (sig_results sg) = 1"
      using so True ve unfolding signature_ok_def sg by (simp add: Let_def)
    have "effect None (with_pop (\<lambda>ptr. seq [read_results_from_memory cx (read_from_memory cx n)
        (result_types f) ptr z, emit cx (Flush (of_bool (fn_result f \<noteq> None)))])) 1
        (of_bool (fn_result f \<noteq> None))" for z
      by (rule eff_single, rule eff_with_pop_Cons) (simp, rule eff_Cons [OF body], simp, rule eff_Nil, simp)
    from runs_effect [OF this, of 1 False] show ?thesis
      using True ve r by (simp add: lift_call_results_def with_result_pointer_def)
  qed
qed

lemma runs_check_stack:
  "runs (st ro rp k) (\<lambda>g. check (length (g_stack g) = k) Assert_Failed g) (st ro rp k)"
  by (simp add: runs_def st_def)

lemma call_lower_args_runs:
  assumes ok: "abi_ok cx F rk" and fo: "func_ok (cx_resolve cx) rk n f"
    and v: "variant = GuestImport \<or> variant = GuestExport" and so: "signature_ok cx F variant f"
  shows "runs (st None False 0) (call_lower_args cx n f variant False) (st None False 0)"
proof -
  define sg where "sg = wasm_signature_of (cx_env cx) (cx_resolve cx) variant f"
  let ?sg = sg
  let ?R = "call_realloc variant LowerArgsLiftResults False"
  let ?p = "if sig_indirect_params ?sg then 1 else length (flat_list F (param_types f))"
  note B = abi_okD(1) [OF ok]
  have so': "length (flat_list F (param_types f)) \<le> 16" if "\<not> sig_indirect_params ?sg"
    using so that by (simp add: signature_ok_def Let_def sg_def)
  have len: "length (sig_params ?sg) = ?p + of_bool (variant = GuestImport \<and> sig_retptr ?sg)"
    using so by (simp add: signature_ok_def Let_def sg_def)
  have d: "effect (Some ?R) (lower_params_direct cx n (param_types f)) 0
      (length (flat_list F (param_types f)))" if "\<not> sig_indirect_params ?sg"
    unfolding flat_list_def
  proof (rule eff_lower_params_direct [OF B])
    fix t assume t: "t \<in> set (param_types f)"
    show "effect (Some ?R) (lower cx n t) 1 (length (F t))"
      by (rule func_effects(1) [OF ok fo])
        (use t length_flat_list_ge [OF t, of F] so' [OF that] in simp_all)
  qed
  have params: "effect (Some ?R) (if sig_indirect_params ?sg then lower_params_indirect cx n f variant
       else lower_params_direct cx n (param_types f)) 0 ?p"
    using eff_lower_params_indirect [OF ok fo _ v, of "Some ?R"] d by simp
  have prep: "runs (st None False ?p) (if variant = GuestImport \<and> sig_retptr ?sg
      then prepare_return_pointer cx f else Inr)
      (st None (variant = GuestImport \<and> sig_retptr ?sg) (length (sig_params ?sg)))"
    unfolding len by (rule runs_maybe_return_pointer)
  have lifted: "runs (st None (variant = GuestImport \<and> sig_retptr ?sg) (length (sig_results ?sg)))
    (lift_call_results cx n f ?sg variant False) (st None False (of_bool (fn_result f \<noteq> None)))"
    by (rule runs_lift_call_results [OF ok fo v so sg_def])
  have call: "effect None (emit cx (CallWasm (fn_name f) ?sg)) (length (sig_params ?sg))
      (length (sig_results ?sg))"
    by (rule eff_emit_eq [OF B]) simp_all
  have ret: "effect None (emit cx (Return (of_bool (fn_result f \<noteq> None)) f))
      (of_bool (fn_result f \<noteq> None)) 0"
    by (rule eff_emit_eq [OF B]) simp_all
  have "runs (st None False 0) (seq [set_realloc (Some ?R),
        (if sig_indirect_params ?sg then lower_params_indirect cx n f variant
         else lower_params_direct cx n (param_types f)),
        set_realloc None,
        (if variant = GuestImport \<and> sig_retptr ?sg then prepare_return_pointer cx f else Inr),
        (\<lambda>g. check (length (g_stack g) = length (sig_params ?sg)) Assert_Failed g),
        emit cx (CallWasm (fn_name f) ?sg),
        lift_call_results cx n f ?sg variant False,
        emit cx (Return (of_bool (fn_result f \<noteq> None)) f)]) (st None False 0)"
    by (rule runs_set_realloc_Cons, rule runs_Cons [OF runs_effect_eq [OF params le0 refl]],
        rule runs_set_realloc_Cons, unfold diff_0_eq_0 add_0,
        rule runs_Cons [OF prep runs_Cons [OF runs_check_stack]],
        rule runs_Cons [OF runs_effect_eq [OF call order.refl]], simp,
        rule runs_Cons [OF lifted runs_Cons [OF runs_effect_eq [OF ret order.refl]]], simp)
      blast
  then show ?thesis by (simp add: call_lower_args_def Let_def sg_def)
qed

section \<open>Lifting the arguments and lowering the results\<close>

definition params_flat_ok ::
    "('b, 'o, 'z, 'a) ctx \<Rightarrow> (ty \<Rightarrow> wasm_type list) \<Rightarrow> abi_variant \<Rightarrow> func \<Rightarrow> bool" where
  "params_flat_ok cx F variant f \<longleftrightarrow>
     sig_indirect_params (wasm_signature_of (cx_env cx) (cx_resolve cx) variant f) \<or>
     (\<forall>t \<in> set (param_types f). length (F t) \<le> 16)"

lemma signature_params_flat_ok:
  assumes "signature_ok cx F variant f"
  shows "params_flat_ok cx F variant f"
proof (cases "sig_indirect_params (wasm_signature_of (cx_env cx) (cx_resolve cx) variant f)")
  case False
  then have "length (flat_list F (param_types f)) \<le> 16"
    using assms by (simp add: signature_ok_def Let_def)
  then have "length (F t) \<le> 16" if "t \<in> set (param_types f)" for t
    using length_flat_list_ge [OF that, of F] by linarith
  then show ?thesis by (auto simp: params_flat_ok_def)
qed (simp add: params_flat_ok_def)

lemma eff_lift_params:
  assumes ok: "abi_ok cx F rk" and fo: "func_ok (cx_resolve cx) rk n f"
    and po: "params_flat_ok cx F variant f"
    and sg: "sg = wasm_signature_of (cx_env cx) (cx_resolve cx) variant f"
  shows "effect ro (if sig_indirect_params sg then
           seq [emit cx (GetArg 0),
             with_pop (read_params_from_memory cx n (size_zero (cx_env cx)) (param_types f))]
         else lift_params_direct cx n 16 0 (param_types f)) 0 (length (fn_params f))"
proof (cases "sig_indirect_params sg")
  case True
  have r: "effect ro (read_params_from_memory cx n z (param_types f) ptr) 0 (length (param_types f))" for z ptr
    by (rule eff_read_params_from_memory) (rule func_effects(4) [OF ok fo], simp)
  show ?thesis
    using True by (auto intro!: eff_basic_intros abi_okD(1) [OF ok] eff_Cons [OF r])
next
  case False
  have "effect ro (lift_params_direct cx n 16 0 (param_types f)) 0 (length (param_types f))"
  proof (rule eff_lift_params_direct [where F = F, OF abi_okD(1,3) [OF ok]])
    fix t assume t: "t \<in> set (param_types f)"
    then have len: "length (F t) \<le> 16" using False po sg by (auto simp: params_flat_ok_def)
    with func_effects(3) [OF ok fo disjI1 [OF t]]
    show "length (F t) \<le> 16 \<and> effect ro (lift cx n t) (length (F t)) 1" by simp
  qed
  with False show ?thesis by simp
qed

lemma eff_deallocate_indirect_params:
  assumes "bindgen_contract cx"
  shows "effect ro (if c then deallocate_indirect_params cx f else Inr) 0 0"
proof (cases c)
  case True
  then show ?thesis
    unfolding deallocate_indirect_params_def
    by (simp, intro eff_single [of ro "with_sizes cx h" for h])
      (auto simp: Let_def intro!: eff_basic_intros assms)
qed auto

text \<open>What \<open>lower_call_results\<close> leaves for the return instruction.\<close>

definition results_height ::
    "(ty \<Rightarrow> wasm_type list) \<Rightarrow> func \<Rightarrow> wasm_signature \<Rightarrow> abi_variant \<Rightarrow> bool \<Rightarrow> nat" where
  "results_height F f sg variant to_memory =
     (if \<not> to_memory then length (flat_list F (result_types f))
      else of_bool (\<not> (sig_retptr sg \<and> (variant = GuestImport \<or> variant = GuestImportAsync))))"

lemma eff_lower_call_results:
  assumes ok: "abi_ok cx F rk" and fo: "func_ok (cx_resolve cx) rk n f" and ro: "ro \<noteq> None"
    and direct: "\<not> to_memory \<Longrightarrow> length (flat_list F (result_types f)) \<le> 16"
    and import: "to_memory \<Longrightarrow> variant = GuestImport \<or> variant = GuestImportAsync \<Longrightarrow>
        sig_retptr sg \<and> sig_params sg \<noteq> []"
    and stackful: "to_memory \<Longrightarrow> variant \<noteq> GuestExportAsyncStackful"
  shows "effect ro (lower_call_results cx n f sg variant to_memory) (of_bool (fn_result f \<noteq> None))
    (results_height F f sg variant to_memory)"
proof (cases "\<not> to_memory")
  case True
  with eff_lower_results [OF ok fo ro direct] show ?thesis
    by (simp add: lower_call_results_def results_height_def)
next
  case False
  note B = abi_okD(1) [OF ok]
  note w = eff_write_results [OF ok fo ro]
  show ?thesis
  proof (cases "variant = GuestImport \<or> variant = GuestImportAsync")
    case imp: True
    have "effect ro (seq [emit cx (GetArg (length (sig_params sg) - 1)),
        with_pop (\<lambda>ptr. write_params_to_memory cx (write_to_memory cx n) (result_types f) ptr
          (size_zero (cx_env cx)))]) (of_bool (fn_result f \<noteq> None)) 0"
      by (rule eff_emit_Cons [OF B], simp, rule eff_with_pop_Cons, simp, rule eff_Cons [OF w], simp)
        (rule eff_Nil, simp)
    with False imp import show ?thesis
      by (auto simp: lower_call_results_def results_height_def)
  next
    case exp: False
    have "effect ro (seq [write_params_to_memory cx (write_to_memory cx n) (result_types f) ptr
        (size_zero (cx_env cx)), push ptr]) (of_bool (fn_result f \<noteq> None)) 1" for ptr
      by (rule eff_Cons [OF w], simp, rule eff_push_Cons, rule eff_Nil, simp)
    then have "effect ro (with_return_pointer cx info (\<lambda>ptr.
        seq [write_params_to_memory cx (write_to_memory cx n) (result_types f) ptr
          (size_zero (cx_env cx)), push ptr])) (of_bool (fn_result f \<noteq> None)) 1" for info
      by (rule eff_with_return_pointer)
    then have "effect ro (with_sizes cx (\<lambda>sz. with_return_pointer cx (sa_params sz (result_types f)) (\<lambda>ptr.
        seq [write_params_to_memory cx (write_to_memory cx n) (result_types f) ptr
          (size_zero (cx_env cx)), push ptr]))) (of_bool (fn_result f \<noteq> None)) 1"
      by (simp add: effect_def with_sizes_def)
    with False exp stackful show ?thesis
      by (cases variant) (simp_all add: lower_call_results_def results_height_def)
  qed
qed

text \<open>The shape both modes share: parameters, the call, results, the return instruction.\<close>

lemma call_lift_args_runs:
  fixes cx :: "('b, 'o, 'z, 'a) ctx"
  assumes ok: "abi_ok cx F rk" and fo: "func_ok (cx_resolve cx) rk n f"
    and po: "params_flat_ok cx F variant f"
    and sg: "sg = wasm_signature_of (cx_env cx) (cx_resolve cx) variant f"
    and mf: "call_max_flat variant async = 16"
    and tm: "to_memory = (if async then async_results cx f 16 = None else sig_retptr sg)"
    and low: "\<And>ro. ro \<noteq> None \<Longrightarrow> effect ro (lower_call_results cx n f sg variant to_memory)
        (of_bool (fn_result f \<noteq> None)) h"
    and ret: "\<And>ro. effect ro (emit_call_return cx f sg variant async
        (if async then Some (async_results cx f 16) else None)) h 0"
  shows "runs (st None False 0) (call_lift_args cx n f variant async) (st None False 0)"
proof -
  let ?R = "call_realloc variant LiftArgsLowerResults async"
  note B = abi_okD(1) [OF ok]
  note params = eff_lift_params [OF ok fo po sg, of None]
  have call: "effect None (emit cx (CallInterface f async)) (length (fn_params f))
      (of_bool (fn_result f \<noteq> None))"
    by (rule eff_emit_eq [OF B]) simp_all
  have r1: "runs (st None False 0) (if sig_indirect_params sg then
           seq [emit cx (GetArg 0),
             with_pop (read_params_from_memory cx n (size_zero (cx_env cx)) (param_types f))]
         else lift_params_direct cx n 16 0 (param_types f)) (st None False (length (fn_params f)))"
    by (rule runs_effect_eq [OF params]) simp_all
  have r2: "runs (st None False (length (fn_params f))) (emit cx (CallInterface f async))
      (st None False (of_bool (fn_result f \<noteq> None)))"
    by (rule runs_effect_eq [OF call]) simp_all
  have r3: "runs (st None False (of_bool (fn_result f \<noteq> None)))
      (if is_guest_export variant \<and> sig_indirect_params sg \<and> \<not> async
       then deallocate_indirect_params cx f else Inr) (st None False (of_bool (fn_result f \<noteq> None)))"
    by (rule runs_effect_eq [OF eff_deallocate_indirect_params [OF B]]) simp_all
  have r4: "runs (st (Some ?R) False (of_bool (fn_result f \<noteq> None)))
      (lower_call_results cx n f sg variant to_memory) (st (Some ?R) False h)"
    by (rule runs_effect_eq [OF low]) simp_all
  have r5: "runs (st (Some ?R) False h) (emit_call_return cx f sg variant async
        (if async then Some (async_results cx f 16) else None)) (st (Some ?R) False 0)"
    by (rule runs_effect_eq [OF ret]) simp_all
  have "runs (st None False 0) (seq [
        (if sig_indirect_params sg then
           seq [emit cx (GetArg 0),
             with_pop (read_params_from_memory cx n (size_zero (cx_env cx)) (param_types f))]
         else lift_params_direct cx n 16 0 (param_types f)),
        emit cx (CallInterface f async),
        (if is_guest_export variant \<and> sig_indirect_params sg \<and> \<not> async
         then deallocate_indirect_params cx f else Inr),
        set_realloc (Some ?R),
        lower_call_results cx n f sg variant to_memory,
        emit_call_return cx f sg variant async (if async then Some (async_results cx f 16) else None),
        set_realloc None]) (st None False 0)"
    by (rule runs_Cons [OF r1 runs_Cons [OF r2 runs_Cons [OF r3 runs_set_realloc_Cons [OF
          runs_Cons [OF r4 runs_Cons [OF r5 runs_set_realloc_Cons]]]]]]) blast
  then show ?thesis
    by (simp add: call_lift_args_def Let_def sg [symmetric] mf tm [symmetric])
qed

section \<open>The whole call\<close>

lemma gen_call_runs:
  assumes "runs (st None False 0) (case ll of
          LowerArgsLiftResults \<Rightarrow> call_lower_args cx n f variant async
        | LiftArgsLowerResults \<Rightarrow> call_lift_args cx n f variant async) (st None False 0)"
  shows "runs (st None False 0) (gen_call cx n f variant ll async) (st None False 0)"
  unfolding gen_call_def
  by (rule runs_realloc_is_none_Cons, rule runs_Cons [OF assms], rule runs_realloc_is_none_Cons,
      rule runs_stack_is_empty_Cons) blast

lemma call_ok_of_runs:
  assumes "runs (st None False 0) (gen_call cx n f variant ll async) (st None False 0)"
  shows "\<exists>b'. call cx n variant ll f b async = Inr b'"
proof -
  have "st None False 0 (gen_new b)" by (simp add: st_def gen_new_def)
  with assms obtain g where "gen_call cx n f variant ll async (gen_new b) = Inr g"
    unfolding runs_def by blast
  then show ?thesis by (simp add: call_def)
qed

lemma call_sync_runs:
  assumes ok: "abi_ok cx F rk" and fo: "func_ok (cx_resolve cx) rk n f"
    and v: "variant = GuestImport \<or> variant = GuestExport" and so: "signature_ok cx F variant f"
  shows "runs (st None False 0) (gen_call cx n f variant ll False) (st None False 0)"
proof (rule gen_call_runs, cases ll)
  case LowerArgsLiftResults
  with call_lower_args_runs [OF assms]
  show "runs (st None False 0) (case ll of
          LowerArgsLiftResults \<Rightarrow> call_lower_args cx n f variant False
        | LiftArgsLowerResults \<Rightarrow> call_lift_args cx n f variant False) (st None False 0)" by simp
next
  case LiftArgsLowerResults
  define sg where "sg = wasm_signature_of (cx_env cx) (cx_resolve cx) variant f"
  let ?h = "results_height F f sg variant (sig_retptr sg)"
  have so': "\<not> sig_retptr sg \<Longrightarrow> length (flat_list F (result_types f)) \<le> 16"
    "sig_retptr sg \<Longrightarrow> variant = GuestImport \<Longrightarrow> sig_params sg \<noteq> []"
    using so by (auto simp: signature_ok_def Let_def sg_def)
  have len: "length (sig_results sg) =
           (if sig_retptr sg then of_bool (variant \<noteq> GuestImport)
            else length (flat_list F (result_types f)))"
    using so by (simp add: signature_ok_def Let_def sg_def)
  then have h: "?h = length (sig_results sg)"
    using v by (auto simp: results_height_def)
  have "runs (st None False 0) (call_lift_args cx n f variant False) (st None False 0)"
  proof (rule call_lift_args_runs [OF ok fo signature_params_flat_ok [OF so] sg_def])
    show "call_max_flat variant False = 16"
      by (simp add: call_max_flat_def MAX_FLAT_PARAMS_def split: abi_variant.split)
    show "sig_retptr sg = (if False then async_results cx f 16 = None else sig_retptr sg)" by simp
    show "effect ro (lower_call_results cx n f sg variant (sig_retptr sg)) (of_bool (fn_result f \<noteq> None)) ?h"
      if "ro \<noteq> None" for ro
      by (rule eff_lower_call_results [OF ok fo that]) (use so' v in auto)
    show "effect ro (emit_call_return cx f sg variant False (if False then Some (async_results cx f 16) else None))
        ?h 0" for ro
      unfolding h using eff_emit_eq [OF abi_okD(1) [OF ok], of "Return (length (sig_results sg)) f"]
      by (simp add: emit_call_return_def)
  qed
  with LiftArgsLowerResults
  show "runs (st None False 0) (case ll of
          LowerArgsLiftResults \<Rightarrow> call_lower_args cx n f variant False
        | LiftArgsLowerResults \<Rightarrow> call_lift_args cx n f variant False) (st None False 0)" by simp
qed

lemma async_results_iff:
  assumes FC: "flat_contract cx F"
  shows "async_results cx f m =
    (if length (flat_list F (result_types f)) \<le> m then Some (flat_list F (result_types f)) else None)"
proof (cases "fn_result f")
  case (Some t)
  have "fst (push_flat (cx_env cx) (cx_resolve cx) t m) = (length (F t) \<le> m)"
    "length (F t) \<le> m \<longrightarrow> snd (push_flat (cx_env cx) (cx_resolve cx) t m) = F t"
    using FC unfolding flat_contract_def by blast+
  with Some show ?thesis by (simp add: async_results_def flat_types_def flat_list_def split_beta)
qed (simp add: async_results_def flat_list_def)

lemma call_async_runs:
  assumes ok: "abi_ok cx F rk" and fo: "func_ok (cx_resolve cx) rk n f"
    and po: "params_flat_ok cx F variant f" and v: "is_guest_export variant"
    and st: "variant = GuestExportAsyncStackful \<Longrightarrow> length (flat_list F (result_types f)) \<le> 16"
  shows "runs (st None False 0) (gen_call cx n f variant LiftArgsLowerResults True) (st None False 0)"
proof (rule gen_call_runs)
  define sg where "sg = wasm_signature_of (cx_env cx) (cx_resolve cx) variant f"
  define tm where "tm = (async_results cx f 16 = None)"
  let ?h = "results_height F f sg variant tm"
  note ar = async_results_iff [OF abi_okD(3) [OF ok], of f 16]
  have tm: "tm = (\<not> length (flat_list F (result_types f)) \<le> 16)"
    unfolding tm_def ar by simp
  have nv: "variant \<noteq> GuestImport" "variant \<noteq> GuestImportAsync"
    using v by (auto simp: is_guest_export_def)
  have "runs (st None False 0) (call_lift_args cx n f variant True) (st None False 0)"
  proof (rule call_lift_args_runs [OF ok fo po sg_def])
    show "call_max_flat variant True = 16"
      using nv by (cases variant) (simp_all add: call_max_flat_def MAX_FLAT_PARAMS_def)
    show "tm = (if True then async_results cx f 16 = None else sig_retptr sg)"
      unfolding tm_def by simp
    show "effect ro (lower_call_results cx n f sg variant tm) (of_bool (fn_result f \<noteq> None)) ?h"
      if "ro \<noteq> None" for ro
      by (rule eff_lower_call_results [OF ok fo that]) (use nv st tm in auto)
    show "effect ro (emit_call_return cx f sg variant True (if True then Some (async_results cx f 16) else None))
        ?h 0" for ro
      using nv ar tm eff_emit_eq [OF abi_okD(1) [OF ok]]
      by (simp add: emit_call_return_def results_height_def)
  qed
  then show "runs (st None False 0) (case LiftArgsLowerResults of
          LowerArgsLiftResults \<Rightarrow> call_lower_args cx n f variant True
        | LiftArgsLowerResults \<Rightarrow> call_lift_args cx n f variant True) (st None False 0)" by simp
qed

section \<open>Deallocation entry points\<close>

definition types_ok :: "resolve \<Rightarrow> (tid \<Rightarrow> nat) \<Rightarrow> nat \<Rightarrow> ty list \<Rightarrow> bool" where
  "types_ok r rk n tys \<longleftrightarrow> (\<forall>t \<in> set tys. usable r t \<and> 2 * ty_rank rk t + 3 \<le> n)"

lemma types_effects:
  assumes ok: "abi_ok cx F rk" and fr: "freeable (cx_env cx) (cx_resolve cx)"
    and ty: "types_ok (cx_resolve cx) rk n tys" and t: "t \<in> set tys"
  shows "length (F t) \<le> 16 \<Longrightarrow> effect ro (deallocate cx n t what) (length (F t)) 0"
    "effect ro (deallocate_indirect cx n t a z what) 0 0"
proof -
  have u: "usable (cx_resolve cx) t" "2 * ty_rank rk t + 3 \<le> n" "2 * ty_rank rk t + 2 \<le> n"
    using ty t by (auto simp: types_ok_def)
  show "length (F t) \<le> 16 \<Longrightarrow> effect ro (deallocate cx n t what) (length (F t)) 0"
    "effect ro (deallocate_indirect cx n t a z what) 0 0"
    using deallocate_effect [OF ok fr u(1)] u(2,3) by blast+
qed

lemma deallocate_direct_runs:
  fixes cx :: "('b, 'o, 'z, 'a) ctx"
  assumes ok: "abi_ok cx F rk" and fr: "freeable (cx_env cx) (cx_resolve cx)"
    and ty: "types_ok (cx_resolve cx) rk n tys" and len: "\<And>t. t \<in> set tys \<Longrightarrow> length (F t) \<le> 16"
    and ops: "length ops = length (flat_list F tys)"
  shows "runs (st None False 0) (deallocate_direct cx n tys ops what) (st None False 0)"
  using ty len ops
proof (induction tys arbitrary: ops)
  case Nil
  then show ?case by (simp add: runs_def flat_list_def)
next
  case (Cons t ts)
  have fl: "flat cx t = Inr (F t)" by (rule flat_ok [OF abi_okD(3) [OF ok]]) (use Cons.prems(2) in simp)
  have le: "length (F t) \<le> length ops" using Cons.prems(3) by (simp add: flat_list_def)
  have rest: "runs (st None False 0) (deallocate_direct cx n ts (drop (length (F t)) ops) what) (st None False 0)"
    by (rule Cons.IH) (use Cons.prems in \<open>simp_all add: types_ok_def flat_list_def\<close>)
  have d: "effect None (deallocate cx n t what) (length (F t)) 0"
    by (rule types_effects(1) [OF ok fr Cons.prems(1)]) (use Cons.prems(2) in simp_all)
  have "effect None (seq [push_all (take (length (F t)) ops), deallocate cx n t what]) 0 0"
    using le by (auto intro!: eff_basic_intros eff_Cons [OF d])
  then have "runs (st None False 0) (seq [push_all (take (length (F t)) ops), deallocate cx n t what])
      (st None False 0)"
    by (rule runs_effect_eq) simp_all
  then have one: "runs (st None False 0) (seq [seq [push_all (take (length (F t)) ops), deallocate cx n t what],
      stack_is_empty, deallocate_direct cx n ts (drop (length (F t)) ops) what]) (st None False 0)"
    by (rule runs_Cons) (rule runs_stack_is_empty_Cons, rule runs_Cons [OF rest], blast)
  have "deallocate_direct cx n (t # ts) ops what g =
      seq [seq [push_all (take (length (F t)) ops), deallocate cx n t what],
      stack_is_empty, deallocate_direct cx n ts (drop (length (F t)) ops) what] g" for g
    using le fl by (simp add: and_then_def seq.simps split: sum.splits)
  with one show ?case by (simp add: runs_def)
qed

lemma deallocate_indirect_runs:
  assumes ok: "abi_ok cx F rk" and fr: "freeable (cx_env cx) (cx_resolve cx)"
    and ty: "types_ok (cx_resolve cx) rk n tys"
  shows "runs (st None False 0) (deallocate_in_types cx n tys [addr] True what) (st None False 0)"
proof -
  let ?loop = "\<lambda>sz. for_each (sa_field_offsets sz tys)
      (\<lambda>(offset, t). deallocate_indirect cx n t addr offset what)"
  have fe: "effect None (?loop (bg_sizes (cx_bindgen cx) b)) 0 0" for b
  proof -
    have m: "map snd (sa_field_offsets (bg_sizes (cx_bindgen cx) b) tys) = tys"
      using abi_okD(2) [OF ok] by (simp add: sizes_contract_def)
    have "effect None (?loop (bg_sizes (cx_bindgen cx) b)) 0
        (sum_list (map (\<lambda>_. 0) (sa_field_offsets (bg_sizes (cx_bindgen cx) b) tys)))"
    proof (rule eff_for_each)
      fix x assume "x \<in> set (sa_field_offsets (bg_sizes (cx_bindgen cx) b) tys)"
      then have "snd x \<in> set tys" using m by (metis image_eqI list.set_map)
      then show "effect None (case x of (offset, t) \<Rightarrow> deallocate_indirect cx n t addr offset what) 0 0"
        by (cases x) (simp add: types_effects(2) [OF ok fr ty])
    qed
    then show ?thesis by simp
  qed
  have "effect None (with_sizes cx ?loop) 0 0"
    by (rule eff_single) (auto intro!: eff_basic_intros eff_Cons [OF fe])
  then have "runs (st None False 0) (with_sizes cx ?loop) (st None False 0)"
    by (rule runs_effect_eq) simp_all
  then have "runs (st None False 0) (seq [with_sizes cx ?loop, stack_is_empty]) (st None False 0)"
    by (rule runs_Cons) (rule runs_stack_is_empty_Cons, blast)
  then show ?thesis by (simp add: deallocate_in_types_def)
qed

lemma deallocate_in_types_runs:
  assumes ok: "abi_ok cx F rk" and fr: "freeable (cx_env cx) (cx_resolve cx)"
    and ty: "types_ok (cx_resolve cx) rk n tys"
    and ops: "if indirect then length ops = 1
      else length ops = length (flat_list F tys) \<and> (\<forall>t \<in> set tys. length (F t) \<le> 16)"
  shows "runs (st None False 0) (deallocate_in_types cx n tys ops indirect what) (st None False 0)"
proof (cases indirect)
  case True
  then obtain addr where "ops = [addr]" using ops by (auto simp: length_Suc_conv)
  with True deallocate_indirect_runs [OF ok fr ty] show ?thesis by simp
next
  case False
  then show ?thesis
    using deallocate_direct_runs [OF ok fr ty, of ops] ops by (simp add: deallocate_in_types_def)
qed

lemma gen_post_return_runs:
  fixes cx :: "('b, 'o, 'z, 'a) ctx"
  assumes ok: "abi_ok cx F rk" and fr: "freeable (cx_env cx) (cx_resolve cx)"
    and ty: "types_ok (cx_resolve cx) rk n (result_types f)"
    and rp: "sig_retptr (wasm_signature_of (cx_env cx) (cx_resolve cx) GuestExport f)"
  shows "runs (st None False 0) (gen_post_return cx n f) (st None False 0)"
proof -
  note B = abi_okD(1) [OF ok]
  let ?d = "\<lambda>addr. deallocate_in_types cx n (result_types f) [addr] True DeallocLists"
  have pop: "runs (st None False 1) (with_pop ?d) (st None False 0)"
    unfolding runs_def
  proof (intro allI impI)
    fix g :: "('b, 'o) gen" assume g: "st None False 1 g"
    then have "g_stack g \<noteq> []" "st None False 0 (g\<lparr>g_stack := butlast (g_stack g)\<rparr>)"
      by (auto simp: st_def)
    then show "\<exists>g'. with_pop ?d g = Inr g' \<and> st None False 0 g'"
      using deallocate_indirect_runs [OF ok fr ty, of "last (g_stack g)" DeallocLists]
      unfolding runs_def with_pop_def by auto
  qed
  have get: "runs (st None False 0) (emit cx (GetArg 0)) (st None False 1)"
    by (rule runs_effect_eq [OF eff_emit_eq [OF B refl refl]]) simp_all
  have ret: "runs (st None False 0) (emit cx (Return 0 f)) (st None False 0)"
    by (rule runs_effect_eq [OF eff_emit_eq [OF B refl refl]]) simp_all
  have "runs (st None False 0) (seq [check (sig_retptr (wasm_signature_of (cx_env cx) (cx_resolve cx) GuestExport f))
      Assert_Failed, emit cx (GetArg 0), with_pop ?d, emit cx (Return 0 f)]) (st None False 0)"
    by (rule runs_Cons [OF _ runs_Cons [OF get runs_Cons [OF pop runs_Cons [OF ret]]]])
      (use rp in \<open>auto simp: runs_def seq.simps\<close>)
  then show ?thesis by (simp add: gen_post_return_def Let_def)
qed

lemma runs_new:
  assumes "runs (st None False 0) f (st None False 0)"
  shows "\<exists>g. f (gen_new b) = Inr g \<and> g_stack g = []"
proof -
  have "st None False 0 (gen_new b)" by (simp add: st_def gen_new_def)
  with assms show ?thesis unfolding runs_def by (auto simp: st_def)
qed

end
