(* ===== verification/Abi_Backend.thy ===== *)
theory Abi_Backend
  imports Abi_Call_Stack
begin

text \<open>
  A backend that records the instructions it is given, over a small set of types, for evaluating
  the generator on concrete functions: its state is the list of instructions, the operands an
  instruction pushes carry the instruction's position.
\<close>

section \<open>Types\<close>

definition demo_types :: "type_def list" where
  "demo_types =
     [\<lparr>td_name = Some ''point'', td_owner = OwnerNone, td_kind = KRecord [(''x'', TU32), (''y'', TU32)]\<rparr>,
      \<lparr>td_name = None, td_owner = OwnerNone, td_kind = KList TU8\<rparr>,
      \<lparr>td_name = Some ''shape'', td_owner = OwnerNone, td_kind = KVariant [(''empty'', None), (''at'', Some (TId 0)),
         (''label'', Some TString)]\<rparr>,
      \<lparr>td_name = None, td_owner = OwnerNone, td_kind = KResult (Some (TId 2)) (Some TU64)\<rparr>,
      \<lparr>td_name = Some ''file'', td_owner = OwnerNone, td_kind = KResource\<rparr>,
      \<lparr>td_name = None, td_owner = OwnerNone, td_kind = KHandle (Own 4)\<rparr>,
      \<lparr>td_name = Some ''perms'', td_owner = OwnerNone, td_kind = KFlags [''read'', ''write'']\<rparr>,
      \<lparr>td_name = Some ''stream-file'', td_owner = OwnerNone, td_kind = KType (TId 4)\<rparr>]"

definition demo_resolve :: resolve where
  "demo_resolve = \<lparr>r_types = demo_types, r_worlds = [], r_interfaces = [], r_packages = []\<rparr>"

definition demo_flat :: "ty \<Rightarrow> wasm_type list" where
  "demo_flat t =
     (case t of
        TU64 \<Rightarrow> [WI64] | TS64 \<Rightarrow> [WI64] | TF32 \<Rightarrow> [WF32] | TF64 \<Rightarrow> [WF64]
      | TString \<Rightarrow> [WPointer, WLength]
      | TId i \<Rightarrow>
          (if i = 0 then [WI32, WI32]
           else if i = 1 then [WPointer, WLength]
           else if i = 2 then [WI32, WPointer, WLength]
           else if i = 3 then [WI32, WI64, WPointer, WLength]
           else [WI32])
      | _ \<Rightarrow> [WI32])"

definition demo_rank :: "tid \<Rightarrow> nat" where
  "demo_rank i = (if i = 2 then 1 else if i = 3 then 2 else 0)"

section \<open>The crate's functions and the backend\<close>

definition demo_signature :: "abi_variant \<Rightarrow> func \<Rightarrow> wasm_signature" where
  "demo_signature variant f =
     (let ps = flat_list demo_flat (param_types f); rs = flat_list demo_flat (result_types f);
          indirect = 16 < length ps; retptr = 1 < length rs
      in \<lparr>sig_params = (if indirect then [WPointer] else ps) @
            (if variant = GuestImport \<and> retptr then [WPointer] else []),
          sig_results = (if retptr then (if variant = GuestImport then [] else [WPointer]) else rs),
          sig_indirect_params = indirect, sig_retptr = retptr\<rparr>)"

definition demo_env :: "(nat, nat) wit_env" where
  "demo_env =
     \<lparr>push_flat = (\<lambda>r t m. (length (demo_flat t) \<le> m, take m (demo_flat t))),
      wasm_signature_of = (\<lambda>r. demo_signature),
      flags_repr_of = (\<lambda>fs. if length fs \<le> 8 then FlagsU8 else if length fs \<le> 16 then FlagsU16
        else FlagsU32 ((length fs + 31) div 32)),
      repr_count = (\<lambda>k. case k of FlagsU32 n \<Rightarrow> n | _ \<Rightarrow> 1),
      variant_tag = (\<lambda>_. IU8), enum_tag = (\<lambda>_. IU8),
      size_zero = 0, size_add = (+), size_add_bytes = (+), size_of_align = id,
      align_to_arch = (\<lambda>z a. ((z + a - 1) div a) * a)\<rparr>"

text \<open>Field offsets of eight bytes per field are enough for a recording.\<close>

definition demo_sizes :: "(nat, nat) size_align" where
  "demo_sizes =
     \<lparr>sa_size = (\<lambda>_. 8), sa_align = (\<lambda>_. 8),
      sa_field_offsets = (\<lambda>tys. map (\<lambda>(k, t). (8 * k, t)) (enumerate 0 tys)),
      sa_payload_offset = (\<lambda>_ _. 8),
      sa_record = (\<lambda>tys. (8 * length tys, 8)), sa_params = (\<lambda>tys. (8 * length tys, 8))\<rparr>"

type_synonym demo_instr = "(nat, nat) instruction"

definition demo_bindgen :: "(demo_instr list, nat, nat, nat) bindgen" where
  "demo_bindgen =
     \<lparr>bg_emit = (\<lambda>b r i ops. (b @ [i], replicate (results_len demo_env i) (length b))),
      bg_return_pointer = (\<lambda>b z a. (b, 0)),
      bg_push_block = id, bg_finish_block = (\<lambda>b ops. b),
      bg_sizes = (\<lambda>b. demo_sizes), bg_is_list_canonical = (\<lambda>b r t. t = TU8)\<rparr>"

definition demo_cx :: "(demo_instr list, nat, nat, nat) ctx" where
  "demo_cx = \<lparr>cx_env = demo_env, cx_bindgen = demo_bindgen, cx_resolve = demo_resolve\<rparr>"

lemma demo_cx_simps [simp]:
  "cx_env demo_cx = demo_env" "cx_bindgen demo_cx = demo_bindgen" "cx_resolve demo_cx = demo_resolve"
  "r_types demo_resolve = demo_types" "length demo_types = 8"
  by (simp_all add: demo_cx_def demo_resolve_def demo_types_def)

section \<open>The backend keeps the contracts\<close>

lemma demo_bindgen_contract: "bindgen_contract demo_cx"
  by (simp add: bindgen_contract_def demo_bindgen_def)

lemma map_snd_enumerate: "map snd (enumerate k xs) = xs"
  by (induction xs arbitrary: k) simp_all

lemma demo_sizes_contract: "sizes_contract demo_cx"
  by (simp add: sizes_contract_def demo_bindgen_def demo_sizes_def split_beta comp_def map_snd_enumerate)

lemma demo_flat_contract: "flat_contract demo_cx demo_flat"
  by (simp add: flat_contract_def demo_env_def)

lemma demo_repr_contract: "repr_contract demo_env"
  by (simp add: repr_contract_def demo_env_def)

lemma demo_castable:
  "castable WI32 WPointer" "castable WI32 WLength" "castable WPointer WPointer"
  "castable WLength WLength" "castable WI32 WI64" "castable WI64 WI64"
  by (simp_all add: castable_def)

lemma less_8: "i < 8 \<longleftrightarrow> i \<in> {0, 1, 2, 3, 4, 5, 6, 7::nat}"
  by auto

lemma demo_usable_ids:
  "usable demo_resolve (TId 0)" "usable demo_resolve (TId (Suc 0))" "usable demo_resolve (TId 2)"
  "usable demo_resolve (TId 3)" "usable demo_resolve (TId 5)" "usable demo_resolve (TId 6)"
  "\<not> usable demo_resolve (TId 4)" "\<not> usable demo_resolve (TId 7)"
  by (simp_all add: usable_TId demo_types_def kind_types_def map_filter_def)

lemma demo_usable_valid: "usable demo_resolve (TId i) \<Longrightarrow> i \<in> {0, 1, 2, 3, 5, 6}"
  using usable_TId [of demo_resolve i] demo_usable_ids(7,8) less_8 [of i] by (auto simp: demo_types_def)

lemma demo_wf_types: "wf_types demo_env demo_resolve demo_flat demo_rank"
  unfolding wf_types_def demo_cx_simps
  by (auto dest!: demo_usable_valid simp: scalar_flat_def demo_flat_def named_def demo_types_def kind_flat_def
      kind_types_def ty_rank_def demo_rank_def variant_fits_def arm_fits_def demo_castable demo_env_def
      handle_tid_def map_filter_def split: ty.splits)

lemma demo_ok: "abi_ok demo_cx demo_flat demo_rank"
  by (simp add: abi_ok_def demo_bindgen_contract demo_sizes_contract demo_flat_contract
      demo_repr_contract demo_wf_types)

lemma demo_signature_ok:
  "length (flat_list demo_flat (param_types f)) \<le> 16 \<Longrightarrow> signature_ok demo_cx demo_flat variant f"
  by (auto simp: signature_ok_def demo_signature_def demo_env_def Let_def)

lemma demo_freeable: "freeable demo_env demo_resolve"
  unfolding freeable_def demo_cx_simps by (simp add: demo_types_def demo_env_def)

section \<open>Functions\<close>

definition demo_func :: func where
  "demo_func = \<lparr>fn_name = ''draw'', fn_kind = Freestanding,
     fn_params = [(''from'', TId 0), (''data'', TId 1)], fn_result = Some (TId 3)\<rparr>"

lemma demo_func_ok: "func_ok demo_resolve demo_rank 8 demo_func"
  by (simp add: func_ok_def demo_func_def demo_usable_ids ty_rank_def demo_rank_def demo_types_def)

lemma demo_usable: "usable demo_resolve (TId 3)" "ty_rank demo_rank (TId 3) = 3"
  "length (demo_flat (TId 3)) = 4"
  by (simp_all add: demo_usable_ids ty_rank_def demo_rank_def demo_types_def demo_flat_def)

end
