(* ===== verification/Abi_Properties.thy ===== *)
theory Abi_Properties
  imports Abi_Backend
begin

text \<open>
  The properties of \<open>crates/core/src/abi.rs\<close>, each with a run on the recording backend of
  \<open>Abi_Backend\<close>.
\<close>

section \<open>Calls\<close>

text \<open>
  C1: Generating a synchronous call never panics, in either direction, for imports and for exports:
  on well-formed types, with a backend that keeps its contract and a signature that agrees with the
  flattening, every assertion of \<open>call\<close> holds (the realloc setting, the stack height before the
  core call, the empty stack at the end) and a backend state is returned.
\<close>

theorem call_sync_total:
  assumes "abi_ok cx F rk" "func_ok (cx_resolve cx) rk n f"
    and "variant = GuestImport \<or> variant = GuestExport" "signature_ok cx F variant f"
  shows "\<exists>b'. call cx n variant ll f b False = Inr b'"
  by (rule call_ok_of_runs [OF call_sync_runs [OF assms]])

theorem call_sync_total_witness:
  "\<exists>b'. call demo_cx 8 GuestImport LowerArgsLiftResults demo_func [] False = Inr b'"
proof (rule call_sync_total [OF demo_ok])
  show "func_ok (cx_resolve demo_cx) demo_rank 8 demo_func" by (simp add: demo_func_ok)
  show "GuestImport = GuestImport \<or> GuestImport = GuestExport" by simp
  show "signature_ok demo_cx demo_flat GuestImport demo_func"
    by (rule demo_signature_ok) (simp add: demo_func_def flat_list_def demo_flat_def)
qed



section \<open>Lowering and lifting\<close>

text \<open>
  C4: \<open>lower\<close> replaces the value on top of the stack by exactly the flat operands of its type,
  touches nothing below it, and twice the rank of the type is enough recursion depth.
\<close>

theorem lower_yields_flat_operands:
  assumes "abi_ok cx F rk" "usable (cx_resolve cx) t" "length (F t) \<le> 16"
    and "2 * ty_rank rk t + 1 \<le> n" "g_realloc g \<noteq> None" "g_stack g = below @ [v]"
  shows "\<exists>g' out. lower cx n t g = Inr g' \<and> g_stack g' = below @ out \<and> length out = length (F t)"
proof -
  have "effect (g_realloc g) (lower cx n t) 1 (length (F t))"
    using lower_write_effect [OF assms(1,5,2)] assms(3,4) by blast
  from effectE [OF this refl assms(6)] show ?thesis by (metis length_Cons list.size(3) One_nat_def)
qed

theorem lower_yields_flat_operands_witness:
  "\<exists>g' out. lower demo_cx 7 (TId 3)
      \<lparr>g_bindgen = [], g_stack = [0] @ [9], g_return_pointer = None, g_realloc = Some ReallocNone\<rparr> = Inr g'
    \<and> g_stack g' = [0] @ out \<and> length out = length (demo_flat (TId 3))"
  by (rule lower_yields_flat_operands [OF demo_ok]) (simp_all add: demo_usable)

text \<open>
  \<open>write_to_memory\<close> consumes exactly the value on top of the stack.
\<close>

theorem write_consumes_value:
  assumes "abi_ok cx F rk" "usable (cx_resolve cx) t" "2 * ty_rank rk t + 2 \<le> n"
    and "g_realloc g \<noteq> None" "g_stack g = below @ [v]"
  shows "\<exists>g'. write_to_memory cx n t addr offset g = Inr g' \<and> g_stack g' = below"
proof -
  have "effect (g_realloc g) (write_to_memory cx n t addr offset) 1 0"
    using lower_write_effect [OF assms(1,4,2)] assms(3) by blast
  from effectE [OF this refl assms(5)] show ?thesis by auto
qed

theorem write_consumes_value_witness:
  "\<exists>g'. write_to_memory demo_cx 8 (TId 3) 1 0
      \<lparr>g_bindgen = [], g_stack = [0] @ [9], g_return_pointer = None, g_realloc = Some ReallocNone\<rparr> = Inr g'
    \<and> g_stack g' = [0]"
  by (rule write_consumes_value [OF demo_ok]) (simp_all add: demo_usable)

text \<open>
  C5: \<open>lift\<close> takes exactly the flat operands of the type, as many as \<open>lower\<close> left, and pushes one
  value.
\<close>

theorem lift_takes_flat_operands:
  assumes "abi_ok cx F rk" "usable (cx_resolve cx) t" "length (F t) \<le> 16"
    and "2 * ty_rank rk t + 1 \<le> n" "g_stack g = below @ ops" "length ops = length (F t)"
  shows "\<exists>g' v. lift cx n t g = Inr g' \<and> g_stack g' = below @ [v]"
proof -
  have "effect (g_realloc g) (lift cx n t) (length (F t)) 1"
    using lift_read_effect [OF assms(1,2)] assms(3,4) by blast
  from effectE [OF this refl assms(5,6)] show ?thesis by (metis length_0_conv length_Suc_conv One_nat_def)
qed

theorem lift_takes_flat_operands_witness:
  "\<exists>g' v. lift demo_cx 7 (TId 3)
      \<lparr>g_bindgen = [], g_stack = [0] @ [1, 2, 3, 4], g_return_pointer = None, g_realloc = None\<rparr> = Inr g'
    \<and> g_stack g' = [0] @ [v]"
  by (rule lift_takes_flat_operands [OF demo_ok, where ops = "[1, 2, 3, 4]"])
    (simp_all add: demo_usable)

text \<open>\<open>read_from_memory\<close> takes no operand and pushes one value.\<close>

theorem read_pushes_value:
  assumes "abi_ok cx F rk" "usable (cx_resolve cx) t" "2 * ty_rank rk t + 2 \<le> n"
  shows "\<exists>g' v. read_from_memory cx n t addr offset g = Inr g' \<and> g_stack g' = g_stack g @ [v]"
proof -
  have "effect (g_realloc g) (read_from_memory cx n t addr offset) 0 1"
    using lift_read_effect [OF assms(1,2)] assms(3) by blast
  from effectE [OF this refl, of "g_stack g" "[]"] show ?thesis
    by simp (metis length_0_conv length_Suc_conv)
qed

theorem read_pushes_value_witness:
  "\<exists>g' v. read_from_memory demo_cx 8 (TId 3) 1 0 (gen_new []) = Inr g'
    \<and> g_stack g' = g_stack (gen_new [] :: (demo_instr list, nat) gen) @ [v]"
  by (rule read_pushes_value [OF demo_ok]) (simp_all add: demo_usable)

section \<open>Deallocation\<close>





text \<open>
  The entry points \<open>deallocate_lists_in_types\<close> and \<open>deallocate_lists_and_own_in_types\<close> succeed
  on direct operands (one per flat type) and on one indirect pointer; all their assertions hold.
\<close>

theorem deallocate_in_types_total:
  assumes "abi_ok cx F rk" "freeable (cx_env cx) (cx_resolve cx)" "types_ok (cx_resolve cx) rk n tys"
    and "if indirect then length ops = 1
      else length ops = length (flat_list F tys) \<and> (\<forall>t \<in> set tys. length (F t) \<le> 16)"
  shows "(\<exists>b'. deallocate_lists_in_types cx n tys ops indirect b = Inr b') \<and>
    (\<exists>b'. deallocate_lists_and_own_in_types cx n tys ops indirect b = Inr b')"
  unfolding deallocate_lists_in_types_def deallocate_lists_and_own_in_types_def
  using runs_new [OF deallocate_in_types_runs [OF assms], of DeallocLists b]
    runs_new [OF deallocate_in_types_runs [OF assms], of DeallocListsAndOwn b] by auto

theorem deallocate_in_types_total_witness:
  "(\<exists>b'. deallocate_lists_in_types demo_cx 9 [TId 1, TId 3, TId 6] [1, 2, 3, 4, 5, 6, 7] False [] = Inr b') \<and>
    (\<exists>b'. deallocate_lists_and_own_in_types demo_cx 9 [TId 1, TId 3, TId 6] [1, 2, 3, 4, 5, 6, 7] False [] = Inr b')"
  by (rule deallocate_in_types_total [OF demo_ok])
    (simp_all add: demo_freeable types_ok_def demo_usable_ids ty_rank_def demo_rank_def
      flat_list_def demo_flat_def)

section \<open>post-return\<close>





text \<open>
  For a function that returns a bare error context the two functions disagree:
  \<open>guest_export_needs_post_return\<close> asks for a post-return, and \<open>post_return\<close> panics on its assertion,
  since one flat result needs no return pointer.
\<close>

theorem post_return_error_context_panics:
  assumes "fn_result f = Some TErrorContext"
    and "\<not> sig_retptr (wasm_signature_of (cx_env cx) (cx_resolve cx) GuestExport f)"
  shows "guest_export_needs_post_return (cx_resolve cx) (Suc n) f = Inr True \<and>
    post_return cx (Suc n) f b = Inl Assert_Failed"
  using assms
  by (simp add: guest_export_needs_post_return_def post_return_def gen_post_return_def seq.simps)

definition demo_fail_func :: func where
  "demo_fail_func = \<lparr>fn_name = ''last-error'', fn_kind = Freestanding, fn_params = [],
     fn_result = Some TErrorContext\<rparr>"

theorem post_return_error_context_panics_witness:
  "guest_export_needs_post_return (cx_resolve demo_cx) (Suc 8) demo_fail_func = Inr True \<and>
    post_return demo_cx (Suc 8) demo_fail_func [] = Inl Assert_Failed"
  by (rule post_return_error_context_panics)
    (simp_all add: demo_fail_func_def demo_env_def demo_signature_def Let_def flat_list_def demo_flat_def)

text \<open>
  \<open>deallocate\<close> discards a single operand for flags, whatever their number of words: the other
  words of flags with more than 32 labels stay on the stack.
\<close>

theorem deallocate_flags_leaves_words:
  assumes "valid_id (cx_resolve cx) i" "kind_at (cx_resolve cx) i = KFlags flags"
    and "g_stack g = below @ ops" "length ops = repr_count (cx_env cx) (flags_repr_of (cx_env cx) flags)"
    and "0 < length ops"
  shows "deallocate cx (Suc n) (TId i) what g = Inr (g\<lparr>g_stack := below @ butlast ops\<rparr>)"
proof -
  have "ops \<noteq> []" using assms(5) by simp
  then show ?thesis
    using assms(1-3)
    by (simp add: deallocate_body_def with_res_def deallocate_kind_def discard_def with_pop_def
        butlast_append)
qed

definition flags_cx :: "(demo_instr list, nat, nat, nat) ctx" where
  "flags_cx = demo_cx\<lparr>cx_resolve := demo_resolve\<lparr>r_types :=
     [\<lparr>td_name = Some ''many'', td_owner = OwnerNone, td_kind = KFlags (replicate 40 ''f'')\<rparr>]\<rparr>\<rparr>"

theorem deallocate_flags_leaves_words_witness:
  "deallocate flags_cx (Suc 3) (TId 0) DeallocLists
      \<lparr>g_bindgen = [], g_stack = [] @ [1, 2], g_return_pointer = None, g_realloc = None\<rparr>
    = Inr (\<lparr>g_bindgen = [], g_stack = [] @ [1, 2], g_return_pointer = None, g_realloc = None\<rparr>
        \<lparr>g_stack := [] @ butlast [1, 2]\<rparr>)"
  by (rule deallocate_flags_leaves_words [where flags = "replicate 40 ''f''"])
    (simp_all add: flags_cx_def demo_env_def)

text \<open>
  A fixed-length list of owners is never freed: \<open>needs_deallocate\<close> is true for it,
  \<open>deallocate_indirect\<close> emits nothing and \<open>deallocate\<close> stops at \<open>todo!()\<close>.
\<close>

theorem fixed_length_list_not_freed:
  assumes "valid_id (cx_resolve cx) i" "kind_at (cx_resolve cx) i = KFixedLengthList t k"
    and "needs_deallocate (cx_resolve cx) n t what = Inr True"
  shows "needs_deallocate (cx_resolve cx) (Suc n) (TId i) what = Inr True \<and>
    deallocate_indirect cx (Suc n) (TId i) addr offset what g = Inr g \<and>
    deallocate cx (Suc n) (TId i) what g = Inl Todo_Code"
  using assms
  by (simp add: needs_deallocate_kind_def deallocate_indirect_body_def deallocate_body_def with_res_def
      deallocate_indirect_kind_def deallocate_kind_def Let_def)

definition fixed_cx :: "(demo_instr list, nat, nat, nat) ctx" where
  "fixed_cx = demo_cx\<lparr>cx_resolve := demo_resolve\<lparr>r_types :=
     [\<lparr>td_name = None, td_owner = OwnerNone, td_kind = KFixedLengthList TString 4\<rparr>]\<rparr>\<rparr>"

theorem fixed_length_list_not_freed_witness:
  "needs_deallocate (cx_resolve fixed_cx) (Suc 1) (TId 0) DeallocLists = Inr True \<and>
    deallocate_indirect fixed_cx (Suc 1) (TId 0) 5 0 DeallocLists (gen_new []) = Inr (gen_new []) \<and>
    deallocate fixed_cx (Suc 1) (TId 0) DeallocLists (gen_new []) = Inl Todo_Code"
  by (rule fixed_length_list_not_freed [where t = TString and k = 4]) (simp_all add: fixed_cx_def)

section \<open>Bitcasts\<close>

text \<open>
  The source and target types of a bitcast, as its constructor names them, and what it does to the
  bits of a value; \<open>w\<close> is the width of a pointer. Widening adds zero bits, narrowing drops the upper
  bits, and a float is reinterpreted.
\<close>

fun bitcast_typed :: "bitcast \<Rightarrow> wasm_type \<Rightarrow> wasm_type \<Rightarrow> bool" where
  "bitcast_typed F32ToI32 a b = (a = WF32 \<and> b = WI32)"
| "bitcast_typed F64ToI64 a b = (a = WF64 \<and> b = WI64)"
| "bitcast_typed I32ToI64 a b = (a = WI32 \<and> b = WI64)"
| "bitcast_typed F32ToI64 a b = (a = WF32 \<and> b = WI64)"
| "bitcast_typed I32ToF32 a b = (a = WI32 \<and> b = WF32)"
| "bitcast_typed I64ToF64 a b = (a = WI64 \<and> b = WF64)"
| "bitcast_typed I64ToI32 a b = (a = WI64 \<and> b = WI32)"
| "bitcast_typed I64ToF32 a b = (a = WI64 \<and> b = WF32)"
| "bitcast_typed P64ToI64 a b = (a = WPointerOrI64 \<and> b = WI64)"
| "bitcast_typed I64ToP64 a b = (a = WI64 \<and> b = WPointerOrI64)"
| "bitcast_typed P64ToP a b = (a = WPointerOrI64 \<and> b = WPointer)"
| "bitcast_typed PToP64 a b = (a = WPointer \<and> b = WPointerOrI64)"
| "bitcast_typed I32ToP a b = (a = WI32 \<and> b = WPointer)"
| "bitcast_typed PToI32 a b = (a = WPointer \<and> b = WI32)"
| "bitcast_typed PToL a b = (a = WPointer \<and> b = WLength)"
| "bitcast_typed LToP a b = (a = WLength \<and> b = WPointer)"
| "bitcast_typed I32ToL a b = (a = WI32 \<and> b = WLength)"
| "bitcast_typed LToI32 a b = (a = WLength \<and> b = WI32)"
| "bitcast_typed I64ToL a b = (a = WI64 \<and> b = WLength)"
| "bitcast_typed LToI64 a b = (a = WLength \<and> b = WI64)"
| "bitcast_typed (Sequence c d) a b =
     (\<exists>m \<in> {WI32, WI64, WF32, WF64, WPointer, WPointerOrI64, WLength}.
        bitcast_typed c a m \<and> bitcast_typed d m b)"
| "bitcast_typed NoCast a b = (a = b)"



text \<open>
  \<open>cast a b\<close> yields a bitcast from \<open>a\<close> to \<open>b\<close>: the members of a sequence fit together, and
  \<open>NoCast\<close> is only returned for equal types.
\<close>

theorem cast_typed:
  assumes "cast a b = Inr c"
  shows "bitcast_typed c a b"
  using assms by (cases a; cases b) (auto simp: cast_seq_def)

theorem cast_typed_witness: "bitcast_typed (Sequence F32ToI32 I32ToP) WF32 WPointer"
  using cast_typed [of WF32 WPointer] by (simp add: cast_seq_def)

text \<open>
  \<open>cast\<close> is defined in both directions or in neither, so that whatever a variant's arm was
  lowered to can be lifted again; the pairs it rejects are those that no flattening joins.
\<close>

theorem cast_symmetric:
  "isl (cast a b) = isl (cast b a) \<and>
   (isl (cast a b) \<longleftrightarrow>
      {a, b} \<in> {{WF64, WI32}, {WF64, WF32}, {WF64, WPointer}, {WF64, WLength}, {WI64, WPointer}})"
  by (cases a; cases b) (auto simp: cast_seq_def doubleton_eq_iff)



end
