(* ===== verification/Abi_Blocks.thy ===== *)
theory Abi_Blocks
  imports Abi_Call
begin

text \<open>
  The block discipline of the generator. A backend collects the code of a block between
  \<open>push_block\<close> and \<open>finish_block\<close>, and some instructions take finished blocks: one per arm of a
  variant, one for the body of a loop. The locale \<open>block_backend\<close> is the contract of a backend
  whose methods may panic: they do not, as long as the blocks they take are there. The lemmas in it
  show that the generator keeps its side: every method takes exactly the blocks it has finished.
\<close>

section \<open>Backends that may panic\<close>

text \<open>
  \<open>Bindgen\<close> as the source has it: \<open>emit\<close> and \<open>finish_block\<close> may panic. A panic ends the
  generation, so in \<open>checked\<close> the state after it is the panic and nothing happens any more; a wrong
  number of results is the failure of the generator's own assertion. \<open>filler\<close> stands for operands
  that nobody looks at after a panic.
\<close>

record ('b, 'o, 'z, 'a) backend =
  bk_emit :: "'b \<Rightarrow> resolve \<Rightarrow> ('z, 'a) instruction \<Rightarrow> 'o list \<Rightarrow> ('b \<times> 'o list) res"
  bk_return_pointer :: "'b \<Rightarrow> 'z \<Rightarrow> 'a \<Rightarrow> 'b \<times> 'o"
  bk_push_block :: "'b \<Rightarrow> 'b"
  bk_finish_block :: "'b \<Rightarrow> 'o list \<Rightarrow> 'b res"
  bk_sizes :: "('z, 'a) size_align"
  bk_is_list_canonical :: "resolve \<Rightarrow> ty \<Rightarrow> bool"

definition checked_emit ::
    "('z, 'a) wit_env \<Rightarrow> 'o \<Rightarrow> ('b, 'o, 'z, 'a) backend \<Rightarrow> 'b res \<Rightarrow> resolve
      \<Rightarrow> ('z, 'a) instruction \<Rightarrow> 'o list \<Rightarrow> 'b res \<times> 'o list" where
  "checked_emit E filler B s r i ops =
     (case and_then s (\<lambda>b. bk_emit B b r i ops) of
        Inl p \<Rightarrow> (Inl p, replicate (results_len E i) filler)
      | Inr (b, results) \<Rightarrow>
          if length results = results_len E i then (Inr b, results)
          else (Inl Assert_Failed, replicate (results_len E i) filler))"

definition checked ::
    "('z, 'a) wit_env \<Rightarrow> 'o \<Rightarrow> ('b, 'o, 'z, 'a) backend \<Rightarrow> ('b res, 'o, 'z, 'a) bindgen" where
  "checked E filler B =
     \<lparr>bg_emit = checked_emit E filler B,
      bg_return_pointer = (\<lambda>s z a. case s of
          Inl p \<Rightarrow> (Inl p, filler)
        | Inr b \<Rightarrow> (let (b, ptr) = bk_return_pointer B b z a in (Inr b, ptr))),
      bg_push_block = (\<lambda>s. and_then s (\<lambda>b. Inr (bk_push_block B b))),
      bg_finish_block = (\<lambda>s ops. and_then s (\<lambda>b. bk_finish_block B b ops)),
      bg_sizes = (\<lambda>_. bk_sizes B),
      bg_is_list_canonical = (\<lambda>_. bk_is_list_canonical B)\<rparr>"

lemma checked_emit_length: "length (snd (checked_emit E filler B s r i ops)) = results_len E i"
  by (auto simp: checked_emit_def split: sum.split prod.split)

section \<open>The blocks an instruction takes\<close>

text \<open>
  One flag per block, in the order they were finished: whether it must be the block of an arm
  without payload and without code, which the arm \<open>None\<close> of a lifted option is.
\<close>

definition taken :: "('z, 'a) instruction \<Rightarrow> bool list" where
  "taken i =
     (case i of
        ListLower _ _ \<Rightarrow> [False]
      | MapLower _ _ _ \<Rightarrow> [False]
      | FixedLengthListLowerToMemory _ _ _ \<Rightarrow> [False]
      | ListLift _ _ \<Rightarrow> [False]
      | MapLift _ _ _ \<Rightarrow> [False]
      | FixedLengthListLiftFromMemory _ _ _ \<Rightarrow> [False]
      | VariantLower cases _ _ _ \<Rightarrow> replicate (length cases) False
      | VariantLift cases _ _ \<Rightarrow> replicate (length cases) False
      | OptionLower _ _ _ \<Rightarrow> [False, False]
      | OptionLift _ _ \<Rightarrow> [True, False]
      | ResultLower _ _ _ _ \<Rightarrow> [False, False]
      | ResultLift _ _ _ \<Rightarrow> [False, False]
      | GuestDeallocateList _ \<Rightarrow> [False]
      | GuestDeallocateMap _ _ \<Rightarrow> [False]
      | GuestDeallocateVariant n \<Rightarrow> replicate n False
      | _ \<Rightarrow> [])"

text \<open>The instructions that a backend takes whatever their arguments are.\<close>

definition plain_instruction :: "('z, 'a) instruction \<Rightarrow> bool" where
  "plain_instruction i =
     (case i of
        GetArg _ \<Rightarrow> False
      | Malloc _ _ _ \<Rightarrow> False
      | HandleLift _ _ _ \<Rightarrow> False
      | FlagsLift _ _ _ \<Rightarrow> False
      | RecordLower _ _ _ \<Rightarrow> False
      | RecordLift _ _ _ \<Rightarrow> False
      | VariantLower _ _ _ _ \<Rightarrow> False
      | VariantLift _ _ _ \<Rightarrow> False
      | EnumLift _ _ _ \<Rightarrow> False
      | FutureLift _ _ \<Rightarrow> False
      | StreamLift _ _ \<Rightarrow> False
      | CallWasm _ _ \<Rightarrow> False
      | CallInterface _ _ \<Rightarrow> False
      | Return _ _ \<Rightarrow> False
      | GuestDeallocateVariant n \<Rightarrow> 0 < n
      | _ \<Rightarrow> True)"

section \<open>The contract\<close>

text \<open>
  \<open>inv\<close> is the invariant of the backend, \<open>depth\<close> the number of blocks that are open, \<open>finished\<close> the
  finished ones with whether each is empty, \<open>fresh\<close> whether nothing was emitted in the innermost
  open block; \<open>allowed\<close> are the instructions the backend is prepared for.
\<close>

locale block_backend =
  fixes E :: "('z, 'a) wit_env" and R :: resolve and filler :: 'o
    and B :: "('b, 'o, 'z, 'a) backend"
    and allowed :: "('z, 'a) instruction \<Rightarrow> bool"
    and inv :: "'b \<Rightarrow> bool" and depth :: "'b \<Rightarrow> nat" and finished :: "'b \<Rightarrow> bool list"
    and fresh :: "'b \<Rightarrow> bool"
  assumes plain_allowed: "plain_instruction i \<Longrightarrow> allowed i"
    and emit_ok: "inv b \<Longrightarrow> length ops = operands_len E i \<Longrightarrow> allowed i \<Longrightarrow> finished b = ds @ us \<Longrightarrow>
      list_all2 (\<longrightarrow>) (taken i) us \<Longrightarrow>
      \<exists>b' out. bk_emit B b R i ops = Inr (b', out) \<and> length out = results_len E i \<and> inv b' \<and>
        depth b' = depth b \<and> finished b' = ds"
    and return_pointer_ok: "inv b \<Longrightarrow> bk_return_pointer B b z a = (b', ptr) \<Longrightarrow>
      inv b' \<and> depth b' = depth b \<and> finished b' = finished b"
    and push_block_ok: "inv b \<Longrightarrow> inv (bk_push_block B b) \<and> depth (bk_push_block B b) = Suc (depth b) \<and>
      finished (bk_push_block B b) = finished b \<and> fresh (bk_push_block B b)"
    and finish_block_ok: "inv b \<Longrightarrow> 0 < depth b \<Longrightarrow>
      \<exists>b' u. bk_finish_block B b ops = Inr b' \<and> inv b' \<and> Suc (depth b') = depth b \<and>
        finished b' = finished b @ [u] \<and> (fresh b \<and> ops = [] \<longrightarrow> u)"
begin

definition cx :: "('b res, 'o, 'z, 'a) ctx" where
  "cx = \<lparr>cx_env = E, cx_bindgen = checked E filler B, cx_resolve = R\<rparr>"

lemma cx_simps [simp]: "cx_env cx = E" "cx_bindgen cx = checked E filler B" "cx_resolve cx = R"
  by (simp_all add: cx_def)

text \<open>
  A step takes \<open>k\<close> open and \<open>p\<close> finished blocks, and leaves \<open>k'\<close> open and \<open>q\<close> finished ones; a flag
  that is set says that the block is empty. Nothing is said of steps that panic.
\<close>

definition blocks ::
    "('b res, 'o) gen step \<Rightarrow> nat \<Rightarrow> bool list \<Rightarrow> nat \<Rightarrow> bool list \<Rightarrow> bool" where
  "blocks f k p k' q \<longleftrightarrow>
     (\<forall>g g' b ds us. f g = Inr g' \<longrightarrow> g_bindgen g = Inr b \<longrightarrow> inv b \<longrightarrow> k \<le> depth b \<longrightarrow>
        finished b = ds @ us \<longrightarrow> list_all2 (\<longrightarrow>) p us \<longrightarrow>
        (\<exists>b' vs. g_bindgen g' = Inr b' \<and> inv b' \<and> depth b' + k = depth b + k' \<and>
           finished b' = ds @ vs \<and> list_all2 (\<longrightarrow>) q vs))"

lemma blocksI:
  assumes "\<And>g g' b ds us. f g = Inr g' \<Longrightarrow> g_bindgen g = Inr b \<Longrightarrow> inv b \<Longrightarrow> k \<le> depth b \<Longrightarrow>
    finished b = ds @ us \<Longrightarrow> list_all2 (\<longrightarrow>) p us \<Longrightarrow>
    \<exists>b' vs. g_bindgen g' = Inr b' \<and> inv b' \<and> depth b' + k = depth b + k' \<and>
      finished b' = ds @ vs \<and> list_all2 (\<longrightarrow>) q vs"
  shows "blocks f k p k' q"
  using assms unfolding blocks_def by blast

lemma blocksE:
  assumes "blocks f k p k' q" "f g = Inr g'" "g_bindgen g = Inr b" "inv b" "k \<le> depth b"
    "finished b = ds @ us" "list_all2 (\<longrightarrow>) p us"
  obtains b' vs where "g_bindgen g' = Inr b'" "inv b'" "depth b' + k = depth b + k'"
    "finished b' = ds @ vs" "list_all2 (\<longrightarrow>) q vs"
  using assms unfolding blocks_def by blast

text \<open>A step that leaves the blocks alone.\<close>

abbreviation balanced :: "('b res, 'o) gen step \<Rightarrow> bool" where
  "balanced f \<equiv> blocks f 0 [] 0 []"

lemma imp_refl: "list_all2 (\<longrightarrow>) us us"
  by (simp add: list_all2_conv_all_nth)

lemma imp_trans: "list_all2 (\<longrightarrow>) ps us \<Longrightarrow> list_all2 (\<longrightarrow>) us vs \<Longrightarrow> list_all2 (\<longrightarrow>) ps vs"
  by (simp add: list_all2_conv_all_nth)

lemma blocks_frame:
  assumes "blocks f k p k' q"
  shows "blocks f (k + j) (r @ p) (k' + j) (r @ q)"
proof (rule blocksI)
  fix g g' b ds us
  assume g: "f g = Inr g'" "g_bindgen g = Inr b" "inv b" "k + j \<le> depth b" "finished b = ds @ us"
    "list_all2 (\<longrightarrow>) (r @ p) us"
  then obtain u1 u2 where u: "us = u1 @ u2" "list_all2 (\<longrightarrow>) r u1" "list_all2 (\<longrightarrow>) p u2"
    by (auto simp: list_all2_append1)
  have "k \<le> depth b" "finished b = (ds @ u1) @ u2" using g(4,5) u(1) by simp_all
  from blocksE [OF assms g(1-3) this u(3)] obtain b' vs where "g_bindgen g' = Inr b'" "inv b'"
    "depth b' + k = depth b + k'" "finished b' = (ds @ u1) @ vs" "list_all2 (\<longrightarrow>) q vs" .
  then show "\<exists>b' vs. g_bindgen g' = Inr b' \<and> inv b' \<and> depth b' + (k + j) = depth b + (k' + j) \<and>
      finished b' = ds @ vs \<and> list_all2 (\<longrightarrow>) (r @ q) vs"
    using u(2) by (intro exI [of _ b'] exI [of _ "u1 @ vs"]) (simp add: list_all2_appendI)
qed

lemma blocks_weaken: "blocks f k p k' q \<Longrightarrow> list_all2 (\<longrightarrow>) q' q \<Longrightarrow> blocks f k p k' q'"
  unfolding blocks_def by (meson imp_trans)

lemma blocks_Nil: "k = k' \<Longrightarrow> list_all2 (\<longrightarrow>) q p \<Longrightarrow> blocks (seq []) k p k' q"
  by (rule blocksI) (auto intro: imp_trans)

lemma blocks_Inr: "blocks Inr k p k p"
  by (rule blocksI) auto

lemma blocks_panic: "blocks (\<lambda>g. Inl e) k p k' q"
  by (rule blocksI) simp

lemma blocks_Cons:
  assumes "blocks f a p a' p'" "a \<le> k" "bs = r @ p" "blocks (seq fs) (k - a + a') (r @ p') k' q"
  shows "blocks (seq (f # fs)) k bs k' q"
proof (rule blocksI)
  fix g g' b ds us
  assume g: "seq (f # fs) g = Inr g'" "g_bindgen g = Inr b" "inv b" "k \<le> depth b" "finished b = ds @ us"
    "list_all2 (\<longrightarrow>) bs us"
  then obtain h where h: "f g = Inr h" "seq fs h = Inr g'" by (auto simp: res_simps)
  have f: "blocks f k bs (k - a + a') (r @ p')"
    using blocks_frame [OF assms(1), of "k - a" r] assms(2,3) by (simp add: add.commute)
  obtain c ws where c: "g_bindgen h = Inr c" "inv c" "depth c + k = depth b + (k - a + a')"
    "finished c = ds @ ws" "list_all2 (\<longrightarrow>) (r @ p') ws"
    by (rule blocksE [OF f h(1) g(2-6)])
  have "k - a + a' \<le> depth c" using c(3) g(4) by simp
  then obtain b' vs where "g_bindgen g' = Inr b'" "inv b'" "depth b' + (k - a + a') = depth c + k'"
    "finished b' = ds @ vs" "list_all2 (\<longrightarrow>) q vs"
    by (rule blocksE [OF assms(4) h(2) c(1,2) _ c(4,5)])
  then show "\<exists>b' vs. g_bindgen g' = Inr b' \<and> inv b' \<and> depth b' + k = depth b + k' \<and>
      finished b' = ds @ vs \<and> list_all2 (\<longrightarrow>) q vs"
    using c(3) by (intro exI [of _ b'] exI [of _ vs]) simp
qed

lemma blocks_single:
  assumes "blocks (seq [f]) k p k' q"
  shows "blocks f k p k' q"
proof -
  have "seq [f] = f" by (auto simp: fun_eq_iff and_then_def split: sum.splits)
  with assms show ?thesis by simp
qed

text \<open>One rule per kind of statement, for a block of statements that starts with it.\<close>

named_theorems blocks_intros

lemma balanced_Cons:
  assumes "balanced f" "blocks (seq fs) k p k' q"
  shows "blocks (seq (f # fs)) k p k' q"
  by (rule blocks_Cons [OF assms(1), of _ _ p]) (use assms(2) in simp_all)

lemma seq_Cons [blocks_intros]:
  assumes "blocks (seq (gs @ fs)) k p k' q"
  shows "blocks (seq (seq gs # fs)) k p k' q"
  using assms by (simp add: blocks_def seq_append)

lemma Inr_Cons [blocks_intros]: "blocks (seq fs) k p k' q \<Longrightarrow> blocks (seq (Inr # fs)) k p k' q"
  by (simp add: blocks_def)

lemma panic_Cons [blocks_intros]: "blocks (seq ((\<lambda>g. Inl e) # fs)) k p k' q"
  by (simp add: blocks_def)

text \<open>Statements that leave the backend alone.\<close>

lemma same_backend:
  assumes "\<And>g g'. f g = Inr g' \<Longrightarrow> g_bindgen g' = g_bindgen g"
  shows "balanced f"
  by (rule blocksI) (use assms in fastforce)

lemma push_Cons [blocks_intros]: "blocks (seq fs) k p k' q \<Longrightarrow> blocks (seq (push v # fs)) k p k' q"
  by (rule balanced_Cons [OF same_backend]) (auto simp: push_def)

lemma push_all_Cons [blocks_intros]: "blocks (seq fs) k p k' q \<Longrightarrow> blocks (seq (push_all vs # fs)) k p k' q"
  by (rule balanced_Cons [OF same_backend]) (auto simp: push_all_def)

lemma check_Cons [blocks_intros]:
  "blocks (seq fs) k p k' q \<Longrightarrow> blocks (seq ((\<lambda>g. check (c g) e g) # fs)) k p k' q"
  by (rule balanced_Cons [OF same_backend]) (auto simp: check_def split: if_splits)

lemma same_backend_Cons:
  assumes "\<And>g g'. f g = Inr g' \<Longrightarrow> \<exists>h v. g_bindgen h = g_bindgen g \<and> seq (F v # fs) h = Inr g' "
    "\<And>v. blocks (seq (F v # fs)) k p k' q"
  shows "blocks f k p k' q"
proof (rule blocksI)
  fix g g' b ds us
  assume g: "f g = Inr g'" "g_bindgen g = Inr b" "inv b" "k \<le> depth b" "finished b = ds @ us"
    "list_all2 (\<longrightarrow>) p us"
  obtain h v where h: "g_bindgen h = g_bindgen g" "seq (F v # fs) h = Inr g'"
    using assms(1) [OF g(1)] by blast
  show "\<exists>b' vs. g_bindgen g' = Inr b' \<and> inv b' \<and> depth b' + k = depth b + k' \<and>
      finished b' = ds @ vs \<and> list_all2 (\<longrightarrow>) q vs"
    by (rule blocksE [OF assms(2) h(2) _ g(3-6)]) (use h(1) g(2) in auto)
qed

lemma with_pop_Cons [blocks_intros]:
  assumes "\<And>v. blocks (seq (F v # fs)) k p k' q"
  shows "blocks (seq (with_pop F # fs)) k p k' q"
proof (rule same_backend_Cons [OF _ assms])
  fix g g' :: "('b res, 'o) gen"
  assume "seq (with_pop F # fs) g = Inr g'"
  then have "seq (F (last (g_stack g)) # fs) (g\<lparr>g_stack := butlast (g_stack g)\<rparr>) = Inr g'"
    by (auto simp: with_pop_def split: if_splits)
  then show "\<exists>h v. g_bindgen h = g_bindgen g \<and> seq (F v # fs) h = Inr g'"
    by (intro exI conjI) simp_all
qed

lemma with_drain_Cons [blocks_intros]:
  assumes "\<And>vs. blocks (seq (F vs # fs)) k p k' q"
  shows "blocks (seq (with_drain n F # fs)) k p k' q"
proof (rule same_backend_Cons [OF _ assms])
  fix g g' :: "('b res, 'o) gen"
  assume "seq (with_drain n F # fs) g = Inr g'"
  then have "seq (F (tail_n n (g_stack g)) # fs) (g\<lparr>g_stack := but_tail_n n (g_stack g)\<rparr>) = Inr g'"
    by (auto simp: with_drain_def split: if_splits)
  then show "\<exists>h v. g_bindgen h = g_bindgen g \<and> seq (F v # fs) h = Inr g'"
    by (intro exI conjI) simp_all
qed

lemma with_res_Cons [blocks_intros]:
  assumes "\<And>x. m = Inr x \<Longrightarrow> blocks (seq (F x # fs)) k p k' q"
  shows "blocks (seq (with_res m F # fs)) k p k' q"
proof (cases m)
  case (Inl e)
  then show ?thesis by (simp add: blocks_def with_res_def)
next
  case (Inr x)
  then show ?thesis using assms [OF Inr] by (simp add: blocks_def with_res_def)
qed

lemma with_sizes_Cons [blocks_intros]:
  assumes "\<And>sz. blocks (seq (F sz # fs)) k p k' q"
  shows "blocks (seq (with_sizes cx F # fs)) k p k' q"
  by (rule same_backend_Cons [OF _ assms]) (auto simp: with_sizes_def)

lemma with_list_realloc_Cons [blocks_intros]:
  assumes "\<And>s. blocks (seq (F s # fs)) k p k' q"
  shows "blocks (seq (with_list_realloc F # fs)) k p k' q"
proof (rule same_backend_Cons [OF _ assms])
  fix g g' :: "('b res, 'o) gen"
  assume "seq (with_list_realloc F # fs) g = Inr g'"
  then obtain s where "list_realloc (g_realloc g) = Inr s" "seq (F s # fs) g = Inr g'"
    by (auto simp: with_list_realloc_def res_simps)
  then show "\<exists>h v. g_bindgen h = g_bindgen g \<and> seq (F v # fs) h = Inr g'" by blast
qed

lemma if_Cons [blocks_intros]:
  assumes "c \<Longrightarrow> blocks (seq (f # fs)) k p k' q" "\<not> c \<Longrightarrow> blocks (seq (h # fs)) k p k' q"
  shows "blocks (seq ((if c then f else h) # fs)) k p k' q"
  using assms by (cases c) simp_all

lemma dynamic_if_Cons [blocks_intros]:
  assumes "blocks (seq (f # fs)) k p k' q" "blocks (seq (h # fs)) k p k' q"
  shows "blocks (seq ((\<lambda>g. if c g then f g else h g) # fs)) k p k' q"
  using assms by (simp add: blocks_def)

text \<open>Statements that call the backend.\<close>

lemma emit_blocks:
  assumes "allowed i"
  shows "blocks (emit cx i) 0 (taken i) 0 []"
proof (rule blocksI)
  fix g g' :: "('b res, 'o) gen" and b ds us
  assume g: "emit cx i g = Inr g'" "g_bindgen g = Inr b" "inv b" "finished b = ds @ us"
    "list_all2 (\<longrightarrow>) (taken i) us"
  let ?ops = "tail_n (operands_len E i) (g_stack g)"
  have n: "operands_len E i \<le> length (g_stack g)" using g(1) by (auto simp: emit_def Let_def split: if_splits)
  then have "length ?ops = operands_len E i" by (simp add: tail_n_def)
  from emit_ok [OF g(3) this assms g(4,5)] obtain b' out where b': "bk_emit B b R i ?ops = Inr (b', out)"
    "length out = results_len E i" "inv b'" "depth b' = depth b" "finished b' = ds" by blast
  have "g_bindgen g' = Inr b'"
    using g(1,2) b'(1,2) n by (simp add: emit_def Let_def checked_def checked_emit_def) auto
  then show "\<exists>b' vs. g_bindgen g' = Inr b' \<and> inv b' \<and> depth b' + 0 = depth b + 0 \<and>
      finished b' = ds @ vs \<and> list_all2 (\<longrightarrow>) [] vs"
    using b' by simp
qed

lemma emit_Cons:
  assumes "allowed i" "taken i = []" "blocks (seq fs) k p k' q"
  shows "blocks (seq (emit cx i # fs)) k p k' q"
  by (rule balanced_Cons [OF _ assms(3)]) (use emit_blocks [OF assms(1)] assms(2) in simp)

lemma emit_taking_Cons:
  assumes "allowed i" "list_all2 (\<longrightarrow>) (taken i) us" "blocks (seq fs) k r k' q"
  shows "blocks (seq (emit cx i # fs)) k (r @ us) k' q"
proof (rule blocks_Cons [of _ 0 us 0 "[]" _ _ r])
  show "blocks (emit cx i) 0 us 0 []"
    using emit_blocks [OF assms(1)] assms(2) unfolding blocks_def by (meson imp_trans)
qed (use assms(3) in simp_all)

lemma push_block_Cons [blocks_intros]:
  assumes "blocks (seq fs) (Suc k) p k' q"
  shows "blocks (seq (push_block cx # fs)) k p k' q"
proof (rule blocks_Cons [of _ 0 "[]" 1 "[]" _ _ p])
  show "blocks (push_block cx) 0 [] 1 []"
    by (rule blocksI) (use push_block_ok in \<open>fastforce simp: push_block_def checked_def\<close>)
qed (use assms in simp_all)

lemma finish_block_Cons [blocks_intros]:
  assumes "blocks (seq fs) k (p @ [False]) k' q"
  shows "blocks (seq (finish_block cx n # fs)) (Suc k) p k' q"
proof (rule blocks_Cons [of _ 1 "[]" 0 "[False]" _ _ p])
  show "blocks (finish_block cx n) 1 [] 0 [False]"
  proof (rule blocksI)
    fix g g' :: "('b res, 'o) gen" and b ds us
    assume g: "finish_block cx n g = Inr g'" "g_bindgen g = Inr b" "inv b" "1 \<le> depth b"
      "finished b = ds @ us" "list_all2 (\<longrightarrow>) [] us"
    obtain b' u where "bk_finish_block B b (tail_n n (g_stack g)) = Inr b'" "inv b'"
      "Suc (depth b') = depth b" "finished b' = finished b @ [u]"
      using finish_block_ok [OF g(3), of "tail_n n (g_stack g)"] g(4) by auto
    then show "\<exists>b' vs. g_bindgen g' = Inr b' \<and> inv b' \<and> depth b' + 1 = depth b + 0 \<and>
        finished b' = ds @ vs \<and> list_all2 (\<longrightarrow>) [False] vs"
      using g by (auto simp: finish_block_def checked_def split: if_splits)
  qed
qed (use assms in simp_all)

text \<open>The block of an arm that does nothing.\<close>

lemma empty_block: "blocks (seq [push_block cx, Inr, finish_block cx 0]) 0 [] 0 [True]"
proof (rule blocksI)
  fix g g' :: "('b res, 'o) gen" and b ds us
  assume g: "seq [push_block cx, Inr, finish_block cx 0] g = Inr g'" "g_bindgen g = Inr b" "inv b"
    "finished b = ds @ us" "list_all2 (\<longrightarrow>) [] us"
  let ?b = "bk_push_block B b"
  note p = push_block_ok [OF g(3)]
  obtain b' u where "bk_finish_block B ?b [] = Inr b'" "inv b'"
    "Suc (depth b') = depth ?b" "finished b' = finished ?b @ [u]" "fresh ?b \<longrightarrow> u"
    using finish_block_ok [of ?b "[]"] p by auto
  then show "\<exists>b' vs. g_bindgen g' = Inr b' \<and> inv b' \<and> depth b' + 0 = depth b + 0 \<and>
      finished b' = ds @ vs \<and> list_all2 (\<longrightarrow>) [True] vs"
    using g p by (auto simp: push_block_def finish_block_def checked_def tail_n_def)
qed

lemma with_return_pointer_Cons [blocks_intros]:
  assumes "\<And>ptr. blocks (seq (F ptr # fs)) k p k' q"
  shows "blocks (seq (with_return_pointer cx info F # fs)) k p k' q"
proof (rule blocksI)
  fix g g' b ds us
  assume g: "seq (with_return_pointer cx info F # fs) g = Inr g'" "g_bindgen g = Inr b" "inv b"
    "k \<le> depth b" "finished b = ds @ us" "list_all2 (\<longrightarrow>) p us"
  obtain c ptr where c: "bk_return_pointer B b (fst info) (snd info) = (c, ptr)" by fastforce
  note rp = return_pointer_ok [OF g(3) c]
  have "seq (F ptr # fs) (g\<lparr>g_bindgen := Inr c\<rparr>) = Inr g'"
    using g(1,2) c by (simp add: with_return_pointer_def checked_def)
  then obtain b' vs where "g_bindgen g' = Inr b'" "inv b'" "depth b' + k = depth c + k'"
    "finished b' = ds @ vs" "list_all2 (\<longrightarrow>) q vs"
    by (rule blocksE [OF assms, of _ _ _ c ds us]) (use rp g in simp_all)
  then show "\<exists>b' vs. g_bindgen g' = Inr b' \<and> inv b' \<and> depth b' + k = depth b + k' \<and>
      finished b' = ds @ vs \<and> list_all2 (\<longrightarrow>) q vs"
    using rp by auto
qed

text \<open>Loops.\<close>

lemma for_each_blocks:
  assumes "\<And>x. x \<in> set xs \<Longrightarrow> blocks (f x) 0 [] 0 [u x]"
  shows "blocks (for_each xs f) 0 [] 0 (map u xs)"
proof -
  have "blocks (seq (map f xs)) 0 p 0 (p @ map u xs)" for p
    using assms
  proof (induction xs arbitrary: p)
    case Nil
    then show ?case by (simp add: blocks_Nil imp_refl del: seq.simps)
  next
    case (Cons x xs)
    have "blocks (seq (map f xs)) 0 (p @ [u x]) 0 ((p @ [u x]) @ map u xs)"
      by (rule Cons.IH) (use Cons.prems in simp)
    then show ?case
      by (simp del: seq.simps) (rule blocks_Cons [OF Cons.prems [of x], of _ _ p]; simp)
  qed
  from this [of "[]"] show ?thesis by (simp add: for_each_def)
qed

lemma for_each_balanced:
  assumes "\<And>x. x \<in> set xs \<Longrightarrow> balanced (f x)"
  shows "balanced (for_each xs f)"
proof -
  have "balanced (seq (map f xs))"
    using assms
  proof (induction xs)
    case Nil
    then show ?case by (simp add: blocks_Nil del: seq.simps)
  next
    case (Cons x xs)
    have "balanced (f x)" using Cons.prems by simp
    then show ?case
      unfolding list.map using Cons by (intro balanced_Cons) simp_all
  qed
  then show ?thesis by (simp add: for_each_def)
qed

lemma for_each_Cons' [blocks_intros]:
  assumes "\<And>x. x \<in> set xs \<Longrightarrow> balanced (f x)" "blocks (seq fs) k p k' q"
  shows "blocks (seq (for_each xs f # fs)) k p k' q"
  by (rule balanced_Cons [OF for_each_balanced assms(2)]) (rule assms(1))

declare seq.simps [simp del]

end

end
