(* ===== verification/Abi_Block_Discipline.thy ===== *)
theory Abi_Block_Discipline
  imports Abi_Blocks
begin

text \<open>
  The generator keeps the block discipline: lowering, lifting, writing, reading and deallocating a
  value take exactly the blocks they have finished, and the blocks an instruction takes are those of
  its arms or of its loop.
\<close>

context block_backend
begin

text \<open>The backend is prepared for the instructions that name a type of the arena.\<close>

definition arena_allowed :: bool where
  "arena_allowed \<longleftrightarrow>
     (\<forall>i < length (r_types R).
        case kind_at R i of
          KHandle h \<Rightarrow> \<forall>name. allowed (HandleLift h name i)
        | KFlags fl \<Rightarrow> \<forall>name. allowed (FlagsLift fl name i)
        | KRecord fs \<Rightarrow> \<forall>name. allowed (RecordLower fs name i) \<and> allowed (RecordLift fs name i)
        | KVariant cases \<Rightarrow>
            cases \<noteq> [] \<and>
            (\<forall>name tys. allowed (VariantLower cases name i tys) \<and> allowed (VariantLift cases name i))
        | KEnum cases \<Rightarrow> \<forall>name. allowed (EnumLift cases name i)
        | KFuture payload \<Rightarrow> allowed (FutureLift payload i)
        | KStream payload \<Rightarrow> allowed (StreamLift payload i)
        | _ \<Rightarrow> True)"

lemma emit_plain_Cons [blocks_intros]:
  assumes "plain_instruction i" "taken i = []" "blocks (seq fs) k p k' q"
  shows "blocks (seq (emit cx i # fs)) k p k' q"
  by (rule emit_Cons [OF plain_allowed]) fact+

text \<open>An instruction that takes all finished blocks.\<close>

lemma emit_all_Cons:
  assumes "allowed i" "list_all2 (\<longrightarrow>) (taken i) us" "blocks (seq fs) k [] k' q"
  shows "blocks (seq (emit cx i # fs)) k us k' q"
  using emit_taking_Cons [OF assms(1,2), of fs k "[]" k' q] assms(3) by simp

lemma false_flags: "length us = n \<Longrightarrow> list_all2 (\<longrightarrow>) (replicate n False) us"
  by (simp add: list_all2_conv_all_nth)

lemma blocks_done: "blocks (seq []) k p k p"
  by (rule blocks_Nil) (simp_all add: imp_refl)

lemma emit_done: "plain_instruction i \<Longrightarrow> taken i = [] \<Longrightarrow> balanced (emit cx i)"
  by (rule blocks_single) (simp add: emit_plain_Cons blocks_done)

lemmas block_simps = plain_instruction_def taken_def

section \<open>Variants\<close>

lemma emit_casts_balanced: "balanced (emit_casts cx ps)"
  unfolding emit_casts_def
  by (rule blocks_single) (auto intro!: blocks_intros blocks_done simp: block_simps)

lemma pad_zeros_balanced: "balanced (pad_zeros cx n R')"
  unfolding pad_zeros_def
  by (rule blocks_single) (auto intro!: blocks_intros blocks_done simp: block_simps)

lemma lower_variant_arm_blocks:
  assumes "\<And>t. snd arm = Some t \<Longrightarrow> balanced (low t)"
  shows "blocks (lower_variant_arm cx low R' arm) 0 [] 0 [False]"
proof (cases "snd arm")
  case None
  show ?thesis
    unfolding lower_variant_arm_def None option.case
    by (auto intro!: blocks_intros balanced_Cons [OF pad_zeros_balanced] blocks_done simp: block_simps)
next
  case (Some t)
  show ?thesis
    unfolding lower_variant_arm_def Some option.case
    by (auto intro!: blocks_intros balanced_Cons [OF pad_zeros_balanced] balanced_Cons [OF emit_casts_balanced]
        balanced_Cons [OF assms [OF Some]] blocks_done simp: block_simps)
qed

text \<open>The arms, one block each, and the instruction that takes them.\<close>

lemma arms_blocks:
  assumes "\<And>x. x \<in> set xs \<Longrightarrow> blocks (f x) 0 [] 0 [False]"
    "blocks (seq fs) k (replicate (length xs) False) k' q"
  shows "blocks (seq (for_each xs f # fs)) k [] k' q"
proof (rule blocks_Cons [of _ 0 "[]" 0 "map (\<lambda>_. False) xs" _ _ "[]"])
  show "blocks (for_each xs f) 0 [] 0 (map (\<lambda>_. False) xs)"
    by (rule for_each_blocks) (rule assms(1))
qed (use assms(2) in \<open>simp_all add: map_replicate_const\<close>)

lemma lower_variant_arms_balanced:
  assumes "\<And>t. balanced (low t)" "\<And>res. blocks (fin res) 0 (replicate (length cases) False) 0 []"
  shows "balanced (lower_variant_arms cx low t cases fin)"
proof -
  have fin: "blocks (seq [fin res]) 0 (replicate (length cases) False) 0 []" for res
    by (rule blocks_Cons [OF assms(2), of _ _ "[]"]) (simp_all add: blocks_done)
  show ?thesis
    unfolding lower_variant_arms_def
  proof (rule blocks_single, rule with_res_Cons)
    fix res
    have "blocks (seq [for_each (enumerate 0 cases) (lower_variant_arm cx low res), fin res]) 0 [] 0 []"
      by (rule arms_blocks) (simp_all add: lower_variant_arm_blocks assms(1) fin)
    then show "blocks (seq [seq [for_each (enumerate 0 cases) (lower_variant_arm cx low res), fin res]]) 0 [] 0 []"
      by (intro seq_Cons) simp
  qed
qed

lemma emit_takes:
  assumes "plain_instruction i" "taken i = us"
  shows "blocks (emit cx i) 0 us 0 []"
  using emit_blocks [OF plain_allowed [OF assms(1)]] assms(2) by simp

lemma with_name_emit_takes:
  assumes "\<And>name. allowed (i name)" "\<And>name. taken (i name) = replicate n False"
  shows "blocks (with_res m (\<lambda>name. emit cx (i name))) 0 (replicate n False) 0 []"
proof (cases m)
  case (Inl e)
  then show ?thesis by (simp add: blocks_def with_res_def)
next
  case (Inr name)
  then have "with_res m (\<lambda>name. emit cx (i name)) = emit cx (i name)"
    by (simp add: with_res_def fun_eq_iff)
  then show ?thesis using emit_blocks [OF assms(1)] assms(2) by simp
qed

lemma arena_allowedD:
  assumes "arena_allowed" "i < length (r_types R)"
  shows "kind_at R i = KHandle h \<Longrightarrow> allowed (HandleLift h name i)"
    "kind_at R i = KFlags fl \<Longrightarrow> allowed (FlagsLift fl name i)"
    "kind_at R i = KRecord fs \<Longrightarrow> allowed (RecordLower fs name i)"
    "kind_at R i = KRecord fs \<Longrightarrow> allowed (RecordLift fs name i)"
    "kind_at R i = KVariant cases \<Longrightarrow> allowed (VariantLower cases name i tys)"
    "kind_at R i = KVariant cases \<Longrightarrow> allowed (VariantLift cases name i)"
    "kind_at R i = KEnum enum \<Longrightarrow> allowed (EnumLift enum name i)"
    "kind_at R i = KFuture payload \<Longrightarrow> allowed (FutureLift payload i)"
    "kind_at R i = KStream payload \<Longrightarrow> allowed (StreamLift payload i)"
  using assms by (auto simp: arena_allowed_def)

section \<open>Lowering and writing\<close>

lemma lower_components_balanced:
  assumes "\<And>t. balanced (low t)"
  shows "balanced (lower_components low tys)"
  unfolding lower_components_def
  by (rule blocks_single)
    (auto intro!: blocks_intros blocks_done blocks_single [of "case _ of (t, v) \<Rightarrow> _ t v"]
      balanced_Cons [OF assms] split: prod.split)

lemma write_fields_balanced:
  assumes "\<And>t a z. balanced (wr t a z)"
  shows "balanced (write_fields_to_memory cx wr tys addr offset)"
  unfolding write_fields_to_memory_def
  by (rule blocks_single)
    (auto intro!: blocks_intros blocks_done balanced_Cons [OF assms] split: prod.split)

lemma store_intrepr_balanced: "balanced (store_intrepr cx offset repr)"
  unfolding store_intrepr_def by (rule emit_done) (simp_all add: block_simps split: int_repr.split)

lemma load_intrepr_balanced: "balanced (load_intrepr cx offset repr)"
  unfolding load_intrepr_def by (rule emit_done) (simp_all add: block_simps split: int_repr.split)

lemma write_variant_arm_blocks:
  assumes "\<And>t a z. balanced (wr t a z)"
  shows "blocks (write_variant_arm_to_memory cx wr offset addr tag z arm) 0 [] 0 [False]"
  unfolding write_variant_arm_to_memory_def
  by (cases "snd arm") (auto intro!: blocks_intros balanced_Cons [OF store_intrepr_balanced]
      balanced_Cons [OF assms] blocks_done simp: block_simps)

lemma write_variant_arms_Cons:
  assumes "\<And>t a z. balanced (wr t a z)" "blocks (seq fs) k (replicate (length cases) False) k' q"
  shows "blocks (seq (write_variant_arms_to_memory cx wr offset addr tag cases # fs)) k [] k' q"
  unfolding write_variant_arms_to_memory_def
  by (rule with_sizes_Cons, rule arms_blocks)
    (use assms(2) in \<open>auto intro!: write_variant_arm_blocks assms(1)\<close>)

lemma lower_list_balanced:
  assumes "\<And>t a z. balanced (wr t a z)"
  shows "balanced (lower_list cx wr t)"
  unfolding lower_list_def
  by (rule blocks_single) (auto intro!: blocks_intros emit_all_Cons plain_allowed
      balanced_Cons [OF assms] blocks_done simp: block_simps)

lemma lower_map_balanced:
  assumes "\<And>t a z. balanced (wr t a z)"
  shows "balanced (lower_map cx wr key val)"
  unfolding lower_map_def
  by (rule blocks_single) (auto intro!: blocks_intros emit_all_Cons plain_allowed
      balanced_Cons [OF assms] blocks_done simp: block_simps)

lemma lower_kind_balanced:
  assumes low: "\<And>t. balanced (low t)" and wr: "\<And>t a z. balanced (wr t a z)"
    and A: "arena_allowed" "i < length (r_types R)"
  shows "balanced (lower_kind cx low wr i (r_types R ! i))"
proof (cases "kind_at R i")
  case (KRecord fs)
  show ?thesis
    unfolding lower_kind_def KRecord kind.case
    by (auto intro!: blocks_single [of "with_res _ _"] with_res_Cons seq_Cons
        emit_Cons [OF arena_allowedD(3) [OF A KRecord]] blocks_done balanced_Cons [OF lower_components_balanced [OF low]]
        simp: block_simps)
next
  case (KVariant cases)
  show ?thesis
    unfolding lower_kind_def KVariant kind.case
    by (rule lower_variant_arms_balanced [OF low])
      (auto intro!: with_name_emit_takes arena_allowedD(5) [OF A KVariant] simp: block_simps)
next
  case (KOption t)
  show ?thesis
    unfolding lower_kind_def KOption kind.case
    by (rule lower_variant_arms_balanced [OF low]) (simp add: emit_takes block_simps)
next
  case (KResult okt err)
  show ?thesis
    unfolding lower_kind_def KResult kind.case
    by (rule lower_variant_arms_balanced [OF low]) (simp add: emit_takes block_simps)
qed (auto simp: lower_kind_def block_simps blocks_panic low lower_list_balanced [OF wr] lower_map_balanced [OF wr]
    intro!: blocks_single [of "with_res _ _"] emit_done blocks_intros blocks_done balanced_Cons [OF lower_components_balanced [OF low]])

lemma lower_body_balanced:
  assumes low: "\<And>t. balanced (low t)" and wr: "\<And>t a z. balanced (wr t a z)" and A: arena_allowed
  shows "balanced (lower_body cx low wr t)"
  unfolding lower_body_def
  by (cases t) (auto simp: block_simps res_simps type_at_def intro!: blocks_single [of "with_res _ _"] emit_done
      blocks_single [of "with_list_realloc _"] blocks_intros blocks_done
      balanced_Cons [OF lower_kind_balanced [OF low wr A]])

lemma lower_and_emit_balanced:
  assumes "\<And>t. balanced (low t)" "plain_instruction i" "taken i = []"
  shows "balanced (lower_and_emit cx low t addr i)"
  unfolding lower_and_emit_def
  using assms(2,3) by (auto intro!: blocks_intros blocks_done balanced_Cons [OF assms(1)])

lemma write_list_balanced:
  assumes "\<And>t. balanced (low t)"
  shows "balanced (write_list_to_memory cx low t addr offset)"
  unfolding write_list_to_memory_def
  by (auto intro!: blocks_intros blocks_done balanced_Cons [OF assms] simp: block_simps)

lemma write_flags_balanced:
  assumes "\<And>t. balanced (low t)"
  shows "balanced (write_flags_to_memory cx low flags t addr offset)"
  unfolding write_flags_to_memory_def
  by (cases "flags_repr_of (cx_env cx) flags") (auto intro!: blocks_intros blocks_done balanced_Cons [OF assms]
      balanced_Cons [OF store_intrepr_balanced] simp: block_simps)

lemma write_kind_balanced:
  assumes low: "\<And>t. balanced (low t)" and wr: "\<And>t a z. balanced (wr t a z)"
    and A: "arena_allowed" "i < length (r_types R)"
  shows "balanced (write_kind cx low wr i addr offset (r_types R ! i))"
proof (cases "kind_at R i")
  case (KRecord fs)
  show ?thesis
    unfolding write_kind_def KRecord kind.case
    by (auto intro!: blocks_single [of "with_res _ _"] with_res_Cons seq_Cons push_Cons
        emit_Cons [OF arena_allowedD(3) [OF A KRecord]] blocks_done balanced_Cons [OF write_fields_balanced [OF wr]]
        simp: block_simps)
next
  case (KVariant cases)
  show ?thesis
    unfolding write_kind_def KVariant kind.case
    by (auto intro!: write_variant_arms_Cons [OF wr] with_res_Cons emit_all_Cons arena_allowedD(5) [OF A KVariant]
        blocks_done false_flags simp: block_simps)
next
  case (KOption t)
  show ?thesis
    unfolding write_kind_def KOption kind.case
    by (auto intro!: write_variant_arms_Cons [OF wr] emit_all_Cons plain_allowed blocks_done simp: block_simps)
next
  case (KResult okt err)
  show ?thesis
    unfolding write_kind_def KResult kind.case
    by (auto intro!: write_variant_arms_Cons [OF wr] emit_all_Cons plain_allowed blocks_done simp: block_simps)
next
  case (KFixedLengthList t n)
  show ?thesis
    unfolding write_kind_def KFixedLengthList kind.case
    by (auto intro!: blocks_intros emit_all_Cons plain_allowed balanced_Cons [OF wr] blocks_done simp: block_simps)
qed (auto simp: write_kind_def block_simps blocks_panic wr write_list_balanced [OF low] write_flags_balanced [OF low]
    lower_and_emit_balanced [OF low]
    intro!: blocks_single [of "with_res _ _"] blocks_intros blocks_done balanced_Cons [OF low]
      balanced_Cons [OF write_fields_balanced [OF wr]] balanced_Cons [OF store_intrepr_balanced])

lemma write_body_balanced:
  assumes low: "\<And>t. balanced (low t)" and wr: "\<And>t a z. balanced (wr t a z)" and A: arena_allowed
  shows "balanced (write_body cx low wr t addr offset)"
  unfolding write_body_def
  by (cases t) (auto simp: block_simps res_simps type_at_def lower_and_emit_balanced [OF low] write_list_balanced [OF low]
      intro!: blocks_single [of "with_res _ _"] blocks_intros blocks_done
      balanced_Cons [OF write_kind_balanced [OF low wr A]])

theorem lower_write_balanced:
  assumes A: arena_allowed
  shows "balanced (lower cx n t) \<and> balanced (write_to_memory cx n t a z)"
proof (induction n arbitrary: t a z)
  case 0
  then show ?case by (simp add: blocks_def)
next
  case (Suc n)
  have "lower cx (Suc n) t = lower_body cx (lower cx n) (write_to_memory cx n) t"
    "write_to_memory cx (Suc n) t a z = write_body cx (lower cx n) (write_to_memory cx n) t a z"
    by (simp_all add: fun_eq_iff)
  then show ?case using Suc.IH A by (simp add: lower_body_balanced write_body_balanced)
qed

section \<open>Lifting and reading\<close>

lemma feed_types_balanced:
  assumes "\<And>t. balanced (iter t)"
  shows "balanced (feed_types cx iter tys args)"
proof (induction tys arbitrary: args)
  case Nil
  then show ?case by (simp add: blocks_def)
next
  case (Cons t ts)
  let ?f = "\<lambda>temp. if length args < length temp then (\<lambda>g. Inl Index_Out_Of_Range)
      else seq [push_all (take (length temp) args), iter t, feed_types cx iter ts (drop (length temp) args)]"
  have "feed_types cx iter (t # ts) args = with_res (flat cx t) ?f"
    by (auto simp: fun_eq_iff with_res_def and_then_def seq.simps split: sum.split)
  then show ?case
    by (auto intro!: blocks_single [of "with_res _ _"] blocks_intros blocks_done balanced_Cons [OF assms]
        balanced_Cons [OF Cons.IH])
qed

lemma record_type_balanced:
  assumes "\<And>t. balanced (iter t)"
  shows "balanced (flat_for_each_record_type cx t tys iter)"
  unfolding flat_for_each_record_type_def
  by (auto intro!: blocks_single [of "with_res _ _"] blocks_intros blocks_done
      balanced_Cons [OF feed_types_balanced [OF assms]])

lemma lift_variant_arm_blocks:
  assumes "\<And>t. balanced (iter t)"
  shows "blocks (lift_variant_arm cx iter h R' ins arm) 0 [] 0 [arm = None]"
proof (cases arm)
  case None
  then show ?thesis using empty_block by (simp add: lift_variant_arm_def)
next
  case (Some t)
  show ?thesis
    unfolding lift_variant_arm_def Some option.case
    by (auto intro!: blocks_intros blocks_done balanced_Cons [OF assms] balanced_Cons [OF emit_casts_balanced])
qed

lemma variant_type_Cons:
  assumes "\<And>t. balanced (iter t)" "blocks (seq fs) k (map (\<lambda>arm. arm = None) cases) k' q"
  shows "blocks (seq (flat_for_each_variant_arm cx t h cases iter # fs)) k [] k' q"
proof (rule blocks_Cons [of _ 0 "[]" 0 "map (\<lambda>arm. arm = None) cases" _ _ "[]"])
  let ?arms = "map (\<lambda>arm. arm = (None :: ty option)) cases"
  have "blocks (for_each cases (lift_variant_arm cx iter h ps ins)) 0 [] 0 ?arms" for ps ins
    by (rule for_each_blocks) (rule lift_variant_arm_blocks [OF assms(1)])
  then have arms: "blocks (seq [for_each cases (lift_variant_arm cx iter h ps ins)]) 0 [] 0 ?arms" for ps ins
    by (rule blocks_Cons [of _ _ _ _ _ _ _ "[]"]) (simp_all add: blocks_done)
  show "blocks (flat_for_each_variant_arm cx t h cases iter) 0 [] 0 ?arms"
    unfolding flat_for_each_variant_arm_def
    by (auto intro!: blocks_single [of "with_res _ _"] blocks_intros arms)
qed (use assms(2) in simp_all)

lemma emit_and_lift_balanced:
  assumes "\<And>t. balanced (lif t)" "plain_instruction i" "taken i = []"
  shows "balanced (emit_and_lift cx lif t addr i)"
  unfolding emit_and_lift_def
  using assms(2,3) by (auto intro!: blocks_intros blocks_done balanced_Cons [OF assms(1)])

lemma load_pointer_and_length_balanced: "balanced (load_pointer_and_length cx t addr offset)"
  unfolding load_pointer_and_length_def by (auto intro!: blocks_intros blocks_done simp: block_simps)

lemma read_list_balanced:
  assumes "\<And>t. balanced (lif t)"
  shows "balanced (read_list_from_memory cx lif t addr offset)"
  unfolding read_list_from_memory_def
  by (intro balanced_Cons [OF load_pointer_and_length_balanced] balanced_Cons [OF assms] blocks_done)

lemma read_fields_balanced:
  assumes "\<And>t a z. balanced (rd t a z)"
  shows "balanced (read_fields_from_memory cx rd tys addr offset)"
  unfolding read_fields_from_memory_def
  by (rule blocks_single) (auto intro!: blocks_intros blocks_done assms split: prod.split)

lemma read_variant_arm_blocks:
  assumes "\<And>t a z. balanced (rd t a z)"
  shows "blocks (read_variant_arm_from_memory cx rd addr z arm) 0 [] 0 [arm = None]"
proof (cases arm)
  case None
  then show ?thesis using empty_block by (simp add: read_variant_arm_from_memory_def)
next
  case (Some t)
  show ?thesis
    unfolding read_variant_arm_from_memory_def Some option.case
    by (auto intro!: blocks_intros blocks_done balanced_Cons [OF assms])
qed

lemma flagged_arms_Cons:
  assumes "\<And>x. x \<in> set xs \<Longrightarrow> blocks (f x) 0 [] 0 [u x]" "blocks (seq fs) k (map u xs) k' q"
  shows "blocks (seq (for_each xs f # fs)) k [] k' q"
  by (rule blocks_Cons [where r = "[]", OF for_each_blocks [OF assms(1)]]) (use assms(2) in simp_all)

lemma read_variant_arms_Cons:
  assumes "\<And>t a z. balanced (rd t a z)" "blocks (seq fs) k (map (\<lambda>arm. arm = None) cases) k' q"
  shows "blocks (seq (read_variant_arms_from_memory cx rd offset addr tag cases # fs)) k [] k' q"
  unfolding read_variant_arms_from_memory_def
  by (auto intro!: seq_Cons push_Cons balanced_Cons [OF load_intrepr_balanced] with_sizes_Cons
      flagged_arms_Cons [OF read_variant_arm_blocks [OF assms(1)] assms(2)])

lemma lift_fixed_length_list_balanced:
  assumes "\<And>t. balanced (lif t)"
  shows "balanced (lift_fixed_length_list cx lif t n i)"
  unfolding lift_fixed_length_list_def
  by (auto intro!: blocks_single [of "with_res _ _"] blocks_intros blocks_done balanced_Cons [OF assms]
      simp: block_simps)

lemma lift_kind_balanced:
  assumes lif: "\<And>t. balanced (lif t)" and rd: "\<And>t a z. balanced (rd t a z)"
    and A: "arena_allowed" "i < length (r_types R)"
  shows "balanced (lift_kind cx lif rd i (r_types R ! i))"
proof (cases "kind_at R i")
  case (KVariant cases)
  show ?thesis
    unfolding lift_kind_def KVariant kind.case
    by (auto intro!: variant_type_Cons [OF lif] with_res_Cons emit_all_Cons arena_allowedD(6) [OF A KVariant]
        blocks_done false_flags simp: block_simps)
next
  case (KOption t)
  show ?thesis
    unfolding lift_kind_def KOption kind.case
    by (auto intro!: variant_type_Cons [OF lif] emit_all_Cons plain_allowed blocks_done simp: block_simps)
next
  case (KResult okt err)
  show ?thesis
    unfolding lift_kind_def KResult kind.case
    by (auto intro!: variant_type_Cons [OF lif] emit_all_Cons plain_allowed blocks_done simp: block_simps)
next
  case (KHandle h)
  note h = arena_allowedD(1) [OF A KHandle]
  show ?thesis
    unfolding lift_kind_def KHandle kind.case
    by (auto intro!: blocks_single [of "with_res _ _"] with_res_Cons emit_Cons [OF h] blocks_done simp: block_simps)
next
  case (KFlags fl)
  show ?thesis
    unfolding lift_kind_def KFlags kind.case
    by (auto intro!: blocks_single [of "with_res _ _"] with_res_Cons seq_Cons emit_Cons [OF arena_allowedD(2) [OF A KFlags]]
        blocks_done simp: block_simps)
next
  case (KRecord fs)
  show ?thesis
    unfolding lift_kind_def KRecord kind.case
    by (auto intro!: blocks_single [of "with_res _ _"] with_res_Cons seq_Cons
        emit_Cons [OF arena_allowedD(4) [OF A KRecord]] blocks_done balanced_Cons [OF record_type_balanced [OF lif]]
        simp: block_simps)
next
  case (KEnum cases)
  show ?thesis
    unfolding lift_kind_def KEnum kind.case
    by (auto intro!: blocks_single [of "with_res _ _"] with_res_Cons seq_Cons
        emit_Cons [OF arena_allowedD(7) [OF A KEnum]] blocks_done simp: block_simps)
next
  case (KFuture payload)
  show ?thesis
    unfolding lift_kind_def KFuture kind.case
    by (rule blocks_single, rule emit_Cons [OF arena_allowedD(8) [OF A KFuture]]) (simp_all add: blocks_done block_simps)
next
  case (KStream payload)
  show ?thesis
    unfolding lift_kind_def KStream kind.case
    by (rule blocks_single, rule emit_Cons [OF arena_allowedD(9) [OF A KStream]]) (simp_all add: blocks_done block_simps)
next
  case (KList t)
  show ?thesis
    unfolding lift_kind_def KList kind.case
    by (rule blocks_single) (auto intro!: blocks_intros emit_all_Cons plain_allowed balanced_Cons [OF rd] blocks_done
        simp: block_simps)
next
  case (KMap key val)
  show ?thesis
    unfolding lift_kind_def KMap kind.case
    by (rule blocks_single) (auto intro!: blocks_intros emit_all_Cons plain_allowed balanced_Cons [OF rd] blocks_done
        simp: block_simps)
qed (auto simp: lift_kind_def block_simps blocks_panic lif lift_fixed_length_list_balanced [OF lif]
    intro!: blocks_single [of "with_res _ _"] emit_done blocks_intros blocks_done
      balanced_Cons [OF record_type_balanced [OF lif]])

lemma lift_body_balanced:
  assumes lif: "\<And>t. balanced (lif t)" and rd: "\<And>t a z. balanced (rd t a z)" and A: arena_allowed
  shows "balanced (lift_body cx lif rd t)"
  unfolding lift_body_def
  by (cases t) (auto simp: block_simps res_simps type_at_def intro!: blocks_single [of "with_res _ _"] emit_done
      with_res_Cons blocks_done balanced_Cons [OF lift_kind_balanced [OF lif rd A]])

lemma read_flags_balanced:
  assumes "\<And>t. balanced (lif t)"
  shows "balanced (read_flags_from_memory cx lif flags t addr offset)"
  unfolding read_flags_from_memory_def
  by (cases "flags_repr_of (cx_env cx) flags") (auto intro!: blocks_intros blocks_done balanced_Cons [OF assms]
      balanced_Cons [OF load_intrepr_balanced] simp: block_simps)

lemma read_kind_balanced:
  assumes lif: "\<And>t. balanced (lif t)" and rd: "\<And>t a z. balanced (rd t a z)"
    and A: "arena_allowed" "i < length (r_types R)"
  shows "balanced (read_kind cx lif rd i addr offset (r_types R ! i))"
proof (cases "kind_at R i")
  case (KRecord fs)
  show ?thesis
    unfolding read_kind_def KRecord kind.case
    by (auto intro!: balanced_Cons [OF read_fields_balanced [OF rd]] with_res_Cons
        emit_Cons [OF arena_allowedD(4) [OF A KRecord]] blocks_done simp: block_simps)
next
  case (KVariant cases)
  show ?thesis
    unfolding read_kind_def KVariant kind.case
    by (auto intro!: read_variant_arms_Cons [OF rd] with_res_Cons emit_all_Cons arena_allowedD(6) [OF A KVariant]
        blocks_done false_flags simp: block_simps)
next
  case (KOption t)
  show ?thesis
    unfolding read_kind_def KOption kind.case
    by (auto intro!: read_variant_arms_Cons [OF rd] emit_all_Cons plain_allowed blocks_done simp: block_simps)
next
  case (KResult okt err)
  show ?thesis
    unfolding read_kind_def KResult kind.case
    by (auto intro!: read_variant_arms_Cons [OF rd] emit_all_Cons plain_allowed blocks_done simp: block_simps)
next
  case (KFixedLengthList t n)
  show ?thesis
    unfolding read_kind_def KFixedLengthList kind.case
    by (auto intro!: blocks_intros emit_all_Cons plain_allowed balanced_Cons [OF rd] blocks_done simp: block_simps)
qed (auto simp: read_kind_def block_simps blocks_panic rd read_list_balanced [OF lif] read_flags_balanced [OF lif]
    emit_and_lift_balanced [OF lif]
    intro!: blocks_intros blocks_done balanced_Cons [OF lif]
      balanced_Cons [OF read_fields_balanced [OF rd]] balanced_Cons [OF load_intrepr_balanced])

lemma read_body_balanced:
  assumes lif: "\<And>t. balanced (lif t)" and rd: "\<And>t a z. balanced (rd t a z)" and A: arena_allowed
  shows "balanced (read_body cx lif rd t addr offset)"
  unfolding read_body_def
  by (cases t) (auto simp: block_simps res_simps type_at_def emit_and_lift_balanced [OF lif] read_list_balanced [OF lif]
      intro!: blocks_single [of "with_res _ _"] blocks_intros blocks_done
      balanced_Cons [OF read_kind_balanced [OF lif rd A]])

theorem lift_read_balanced:
  assumes A: arena_allowed
  shows "balanced (lift cx n t) \<and> balanced (read_from_memory cx n t a z)"
proof (induction n arbitrary: t a z)
  case 0
  then show ?case by (simp add: blocks_def)
next
  case (Suc n)
  have "lift cx (Suc n) t = lift_body cx (lift cx n) (read_from_memory cx n) t"
    "read_from_memory cx (Suc n) t a z = read_body cx (lift cx n) (read_from_memory cx n) t a z"
    by (simp_all add: fun_eq_iff)
  then show ?case using Suc.IH A by (simp add: lift_body_balanced read_body_balanced)
qed

section \<open>Deallocation\<close>

lemma discard_balanced: "balanced discard"
  unfolding discard_def by (rule blocks_single) (auto intro!: blocks_intros blocks_done)

lemma deallocate_kind_balanced:
  assumes de: "\<And>t. balanced (de t)" and di: "\<And>t a z. balanced (di t a z)" and lif: "\<And>t. balanced (lif t)"
    and A: "arena_allowed" "i < length (r_types R)"
  shows "balanced (deallocate_kind cx what de di lif i (r_types R ! i))"
proof -
  have drop_handle: "balanced (if handles what then seq [lif (TId i), emit cx (DropHandle (TId i))] else discard)"
    by (auto intro!: balanced_Cons [OF lif] blocks_intros blocks_done discard_balanced simp: block_simps)
  show ?thesis
  proof (cases "kind_at R i")
    case (KHandle h)
    show ?thesis
      unfolding deallocate_kind_def KHandle Let_def kind.case by (cases h) (use drop_handle discard_balanced in simp_all)
  next
    case (KVariant cases)
    then have "cases \<noteq> []" using A by (auto simp: arena_allowed_def)
    then show ?thesis
      unfolding deallocate_kind_def KVariant Let_def kind.case
      by (auto intro!: variant_type_Cons [OF de] emit_all_Cons plain_allowed blocks_done false_flags simp: block_simps)
  next
    case (KOption t)
    show ?thesis
      unfolding deallocate_kind_def KOption Let_def kind.case
      by (auto intro!: variant_type_Cons [OF de] emit_all_Cons plain_allowed blocks_done false_flags simp: block_simps)
  next
    case (KResult okt err)
    show ?thesis
      unfolding deallocate_kind_def KResult Let_def kind.case
      by (auto intro!: variant_type_Cons [OF de] emit_all_Cons plain_allowed blocks_done false_flags simp: block_simps)
  next
    case (KList t)
    show ?thesis
      unfolding deallocate_kind_def KList Let_def kind.case
      by (auto intro!: blocks_intros emit_all_Cons plain_allowed balanced_Cons [OF di] blocks_done simp: block_simps)
  next
    case (KMap key val)
    show ?thesis
      unfolding deallocate_kind_def KMap Let_def kind.case
      by (rule blocks_single) (auto intro!: blocks_intros emit_all_Cons plain_allowed balanced_Cons [OF di] blocks_done
          simp: block_simps)
  next
    case (KFuture t)
    show ?thesis unfolding deallocate_kind_def KFuture Let_def kind.case by (rule drop_handle)
  next
    case (KStream t)
    show ?thesis unfolding deallocate_kind_def KStream Let_def kind.case by (rule drop_handle)
  qed (simp_all add: deallocate_kind_def Let_def blocks_panic de discard_balanced record_type_balanced [OF de])
qed

lemma deallocate_body_balanced:
  assumes de: "\<And>t. balanced (de t)" and di: "\<And>t a z. balanced (di t a z)" and lif: "\<And>t. balanced (lif t)"
    and A: "arena_allowed"
  shows "balanced (deallocate_body cx what de di lif t)"
  unfolding deallocate_body_def
  by (cases t) (auto simp: block_simps res_simps type_at_def discard_balanced
      intro!: blocks_single [of "with_res _ _"] emit_done with_res_Cons blocks_done
        balanced_Cons [OF deallocate_kind_balanced [OF de di lif A]])

lemma deallocate_indirect_arm_blocks:
  assumes "\<And>t a z. balanced (di t a z)"
  shows "blocks (deallocate_indirect_arm cx di addr z arm) 0 [] 0 [False]"
  unfolding deallocate_indirect_arm_def
  by (cases arm) (auto intro!: blocks_intros blocks_done balanced_Cons [OF assms])

lemma deallocate_indirect_variant_Cons:
  assumes "\<And>t a z. balanced (di t a z)" "blocks (seq fs) k (replicate (length cases) False) k' q"
  shows "blocks (seq (deallocate_indirect_variant cx di offset addr tag cases # fs)) k [] k' q"
  unfolding deallocate_indirect_variant_def
  by (auto intro!: seq_Cons push_Cons balanced_Cons [OF load_intrepr_balanced] with_sizes_Cons
      arms_blocks [OF deallocate_indirect_arm_blocks [OF assms(1)] assms(2)])

lemma deallocate_indirect_kind_balanced:
  assumes de: "\<And>t. balanced (de t)" and di: "\<And>t a z. balanced (di t a z)" and rd: "\<And>t a z. balanced (rd t a z)"
    and A: "arena_allowed" "i < length (r_types R)"
  shows "balanced (deallocate_indirect_kind cx what de di rd i addr offset (r_types R ! i))"
proof -
  have drop_handle: "balanced (if handles what then seq [rd (TId i) addr offset, emit cx (DropHandle (TId i))]
      else (\<lambda>g. Inl Unreachable_Code))"
    by (auto intro!: balanced_Cons [OF rd] blocks_intros blocks_done blocks_panic simp: block_simps)
  have fields: "balanced (deallocate_indirect_fields cx di tys addr offset)" for tys
    unfolding deallocate_indirect_fields_def
    by (rule blocks_single) (auto intro!: blocks_intros blocks_done di split: prod.split)
  show ?thesis
  proof (cases "kind_at R i")
    case (KHandle h)
    show ?thesis
      unfolding deallocate_indirect_kind_def KHandle Let_def kind.case
      by (cases h) (use drop_handle blocks_panic in simp_all)
  next
    case (KVariant cases)
    then have "cases \<noteq> []" using A by (auto simp: arena_allowed_def)
    then show ?thesis
      unfolding deallocate_indirect_kind_def KVariant Let_def kind.case
      by (auto intro!: deallocate_indirect_variant_Cons [OF di] emit_all_Cons plain_allowed blocks_done false_flags
          simp: block_simps)
  next
    case (KOption t)
    show ?thesis
      unfolding deallocate_indirect_kind_def KOption Let_def kind.case
      by (auto intro!: deallocate_indirect_variant_Cons [OF di] emit_all_Cons plain_allowed blocks_done false_flags
          simp: block_simps)
  next
    case (KResult okt err)
    show ?thesis
      unfolding deallocate_indirect_kind_def KResult Let_def kind.case
      by (auto intro!: deallocate_indirect_variant_Cons [OF di] emit_all_Cons plain_allowed blocks_done false_flags
          simp: block_simps)
  next
    case (KFuture t)
    show ?thesis unfolding deallocate_indirect_kind_def KFuture Let_def kind.case by (rule drop_handle)
  next
    case (KStream t)
    show ?thesis unfolding deallocate_indirect_kind_def KStream Let_def kind.case by (rule drop_handle)
  qed (auto simp: deallocate_indirect_kind_def Let_def blocks_panic blocks_Inr di fields
      intro!: balanced_Cons [OF load_pointer_and_length_balanced] balanced_Cons [OF de] blocks_done)
qed

lemma deallocate_indirect_body_balanced:
  assumes de: "\<And>t. balanced (de t)" and di: "\<And>t a z. balanced (di t a z)" and rd: "\<And>t a z. balanced (rd t a z)"
    and A: "arena_allowed"
  shows "balanced (deallocate_indirect_body cx what needs de di rd t addr offset)"
  unfolding deallocate_indirect_body_def
  by (cases t) (auto simp: res_simps type_at_def
      intro!: blocks_single [of "with_res _ _"] with_res_Cons if_Cons Inr_Cons seq_Cons blocks_done
        balanced_Cons [OF load_pointer_and_length_balanced] balanced_Cons [OF de]
        balanced_Cons [OF deallocate_indirect_kind_balanced [OF de di rd A]])

theorem deallocate_balanced:
  assumes A: arena_allowed
  shows "balanced (deallocate cx n t what) \<and> balanced (deallocate_indirect cx n t a z what)"
proof (induction n arbitrary: t a z)
  case 0
  then show ?case by (simp add: blocks_def)
next
  case (Suc n)
  note lr = lift_read_balanced [OF A, of n]
  have "deallocate cx (Suc n) t what = deallocate_body cx what (\<lambda>t. deallocate cx n t what)
      (\<lambda>t a z. deallocate_indirect cx n t a z what) (lift cx n) t"
    "deallocate_indirect cx (Suc n) t a z what = deallocate_indirect_body cx what
      (\<lambda>t. needs_deallocate R (Suc n) t what) (\<lambda>t. deallocate cx n t what)
      (\<lambda>t a z. deallocate_indirect cx n t a z what) (read_from_memory cx n) t a z"
    by (simp_all add: fun_eq_iff del: needs_deallocate.simps)
  then show ?case using Suc.IH A lr by (simp add: deallocate_body_balanced deallocate_indirect_body_balanced)
qed

end

end
