(* ===== verification/Abi_Block_Calls.thy ===== *)
theory Abi_Block_Calls
  imports Abi_Block_Discipline Abi_Call_Stack
begin

text \<open>
  The block discipline of whole calls, and what it gives together with the stack discipline: a
  backend that keeps its contract never panics, and when the generation of a call is over no block is
  left open and none is left over.
\<close>

context block_backend
begin

lemma set_realloc_balanced: "balanced (set_realloc ro)"
  by (rule same_backend) (auto simp: set_realloc_def)

lemma realloc_is_none_balanced: "balanced realloc_is_none"
  by (rule same_backend) (auto simp: realloc_is_none_def check_def split: if_splits)

lemma stack_is_empty_balanced: "balanced stack_is_empty"
  by (rule same_backend) (auto simp: stack_is_empty_def check_def split: if_splits)

lemma lower_params_to_memory_balanced:
  assumes A: arena_allowed and "\<And>j. j < length ts \<Longrightarrow> allowed (GetArg (k + j))"
  shows "balanced (lower_params_to_memory cx n k offset ts ptr)"
  using assms(2)
proof (induction ts arbitrary: k offset)
  case Nil
  then show ?case by (auto intro!: same_backend simp: push_def)
next
  case (Cons t ts)
  have k: "allowed (GetArg k)" using Cons.prems [of 0] by simp
  have rec: "balanced (\<lambda>g. lower_params_to_memory cx n (Suc k) z ts ptr g)" for z
    using Cons.IH [of "Suc k" z] Cons.prems [of "Suc _"] by simp
  show ?case
    unfolding lower_params_to_memory.simps(2) [abs_def] Let_def
    by (auto intro!: emit_Cons k with_sizes_Cons seq_Cons balanced_Cons [OF conjunct2 [OF lower_write_balanced [OF A]]]
        balanced_Cons [OF rec] blocks_done simp: block_simps)
qed

lemma with_pop_balanced: "(\<And>v. balanced (F v)) \<Longrightarrow> balanced (with_pop F)"
  by (rule blocks_single) (auto intro!: with_pop_Cons balanced_Cons blocks_done)

lemma with_return_pointer_balanced: "(\<And>v. balanced (F v)) \<Longrightarrow> balanced (with_return_pointer cx info F)"
  by (rule blocks_single) (auto intro!: with_return_pointer_Cons balanced_Cons blocks_done)

lemma with_sizes_balanced: "(\<And>v. balanced (F v)) \<Longrightarrow> balanced (with_sizes cx F)"
  by (rule blocks_single) (auto intro!: with_sizes_Cons balanced_Cons blocks_done)

lemma lower_params_indirect_balanced:
  assumes A: arena_allowed
    and "\<And>j. j < length (fn_params f) \<Longrightarrow> allowed (GetArg j)" "variant \<noteq> GuestExport"
  shows "balanced (lower_params_indirect cx n f variant)"
proof -
  have "balanced (lower_params_to_memory cx n 0 z (param_types f) ptr)" for z ptr
    by (rule lower_params_to_memory_balanced [OF A]) (use assms(2) in simp)
  then show ?thesis
    unfolding lower_params_indirect_def Let_def
    by (cases variant) (auto intro!: with_sizes_balanced with_return_pointer_balanced blocks_panic simp: assms(3))
qed

lemma lower_params_direct_balanced:
  assumes A: arena_allowed and "\<And>j. j < length tys \<Longrightarrow> allowed (GetArg j)"
  shows "balanced (lower_params_direct cx n tys)"
  unfolding lower_params_direct_def
proof (rule for_each_balanced)
  fix x assume "x \<in> set (enumerate 0 tys)"
  then obtain k t where x: "x = (k, t)" "k < length tys" by (auto simp: in_set_enumerate_eq) (metis prod.collapse)
  show "balanced (case x of (k, t) \<Rightarrow> seq [emit cx (GetArg k), lower cx n t])"
    using x by (auto intro!: emit_Cons assms(2) balanced_Cons [OF conjunct1 [OF lower_write_balanced [OF A]]] blocks_done
        simp: block_simps)
qed

lemma push_balanced: "balanced (push v)"
  by (rule same_backend) (auto simp: push_def)

lemma if_balanced: "balanced f \<Longrightarrow> balanced h \<Longrightarrow> balanced (if c then f else h)"
  by simp

lemma prepare_return_pointer_balanced: "balanced (prepare_return_pointer cx f)"
  unfolding prepare_return_pointer_def
  by (intro with_sizes_balanced with_return_pointer_balanced same_backend) (auto simp: push_def)

lemma with_result_pointer_balanced:
  assumes "\<And>ptr. balanced (F ptr)"
  shows "balanced (with_result_pointer sg variant F)"
proof -
  have "balanced (\<lambda>g. if sig_results sg \<noteq> [] then Inl Assert_Failed
      else and_then (unwrap (g_return_pointer g)) (\<lambda>ptr. F ptr (g\<lparr>g_return_pointer := None\<rparr>)))"
  proof (rule same_backend_Cons [where F = F and fs = "[]"])
    show "blocks (seq [F ptr]) 0 [] 0 []" for ptr by (intro balanced_Cons [OF assms] blocks_done)
  next
    fix g g' :: "('b res, 'o) gen"
    assume "(if sig_results sg \<noteq> [] then Inl Assert_Failed
      else and_then (unwrap (g_return_pointer g)) (\<lambda>ptr. F ptr (g\<lparr>g_return_pointer := None\<rparr>))) = Inr g'"
    then obtain ptr where "F ptr (g\<lparr>g_return_pointer := None\<rparr>) = Inr g'"
      by (auto simp: res_simps split: if_splits)
    then show "\<exists>h v. g_bindgen h = g_bindgen g \<and> seq [F v] h = Inr g'"
      by (intro exI [of _ "g\<lparr>g_return_pointer := None\<rparr>"] exI [of _ ptr]) (simp add: seq.simps [abs_def] and_then_def)
  qed
  then show ?thesis
    unfolding with_result_pointer_def by (cases variant) (auto intro!: with_pop_balanced assms blocks_panic)
qed

lemma lift_call_results_balanced:
  assumes A: arena_allowed
  shows "balanced (lift_call_results cx n f sg variant async)"
proof -
  note lr = lift_read_balanced [OF A]
  have "balanced (if variant = GuestExport \<and> async then push ptr
      else seq [read_results_from_memory cx (read_from_memory cx n) (result_types f) ptr (size_zero (cx_env cx)),
        emit cx (Flush (of_bool (fn_result f \<noteq> None)))])" for ptr
    unfolding read_results_from_memory_def
    by (intro if_balanced push_balanced balanced_Cons [OF read_fields_balanced [OF conjunct2 [OF lr]]]
        balanced_Cons [OF emit_done] blocks_done) (simp_all add: block_simps)
  then show ?thesis
    unfolding lift_call_results_def
    using conjunct1 [OF lr] by (auto intro!: with_result_pointer_balanced blocks_Inr split: option.split)
qed

lemma check_stack_balanced: "balanced (\<lambda>g. check (c g) e g)"
  by (rule same_backend) (auto simp: check_def split: if_splits)

text \<open>Lifting the parameters: as many arguments as they have flat types.\<close>

definition flat_total :: "nat \<Rightarrow> ty list \<Rightarrow> nat" where
  "flat_total m ts = sum_list (map (\<lambda>t. case flat_types E R t (Some m) of None \<Rightarrow> 0 | Some tys \<Rightarrow> length tys) ts)"

text \<open>
  What a backend must be prepared for, for a function in one direction: \<open>args\<close> is the number of
  arguments of the function that is generated.
\<close>

definition call_allowed :: "func \<Rightarrow> abi_variant \<Rightarrow> lift_lower \<Rightarrow> bool \<Rightarrow> nat \<Rightarrow> bool" where
  "call_allowed f variant ll async args \<longleftrightarrow>
     (\<forall>k < args. allowed (GetArg k)) \<and>
     (let sg = wasm_signature_of E R variant f in
      case ll of
        LowerArgsLiftResults \<Rightarrow>
          variant \<noteq> GuestExport \<and> length (fn_params f) \<le> args \<and> allowed (CallWasm (fn_name f) sg) \<and>
          allowed (Return (of_bool (fn_result f \<noteq> None)) f)
      | LiftArgsLowerResults \<Rightarrow>
          allowed (CallInterface f async) \<and> allowed (Return (length (sig_results sg)) f) \<and> length (sig_params sg) \<le> args \<and>
          (if sig_indirect_params sg then 1 else flat_total (call_max_flat variant async) (param_types f)) \<le> args)"

lemma call_lower_args_balanced:
  assumes A: arena_allowed and c: "call_allowed f variant LowerArgsLiftResults async args"
  shows "balanced (call_lower_args cx n f variant async)"
proof -
  have a: "\<And>j. j < length (fn_params f) \<Longrightarrow> allowed (GetArg j)" "variant \<noteq> GuestExport"
    "allowed (CallWasm (fn_name f) (wasm_signature_of E R variant f))" "allowed (Return (of_bool (fn_result f \<noteq> None)) f)"
    using c by (auto simp: call_allowed_def Let_def)
  have params: "balanced (if sig_indirect_params (wasm_signature_of E R variant f) then lower_params_indirect cx n f variant
      else lower_params_direct cx n (param_types f))"
    by (intro if_balanced lower_params_indirect_balanced [OF A] lower_params_direct_balanced [OF A] a) (simp_all add: a)
  have call: "balanced (emit cx (CallWasm (fn_name f) (wasm_signature_of E R variant f)))" "balanced (emit cx (Return (of_bool (fn_result f \<noteq> None)) f))"
    using emit_blocks [OF a(3)] emit_blocks [OF a(4)] by (simp_all add: taken_def)
  show ?thesis
    unfolding call_lower_args_def Let_def cx_simps
    by (intro balanced_Cons [OF set_realloc_balanced] balanced_Cons [OF params] balanced_Cons [OF call(1)]
        balanced_Cons [OF if_balanced] prepare_return_pointer_balanced blocks_Inr check_Cons
        balanced_Cons [OF lift_call_results_balanced [OF A]] emit_done call(2) blocks_done) (simp_all add: block_simps)
qed

lemma lift_params_direct_balanced:
  assumes A: arena_allowed and "\<And>j. j < offset + flat_total m ts \<Longrightarrow> allowed (GetArg j)"
  shows "balanced (lift_params_direct cx n m offset ts)"
  using assms(2)
proof (induction ts arbitrary: offset)
  case Nil
  then show ?case by (simp add: blocks_def)
next
  case (Cons t ts)
  show ?case
  proof (cases "flat_types E R t (Some m)")
    case None
    then show ?thesis by (simp add: blocks_def)
  next
    case (Some types)
    have rest: "balanced (lift_params_direct cx n m (offset + length types) ts)"
      by (rule Cons.IH) (use Cons.prems in \<open>simp add: flat_total_def Some\<close>)
    have args: "balanced (for_each [offset..<offset + length types] (\<lambda>k. emit cx (GetArg k)))"
    proof (rule for_each_balanced)
      fix k assume "k \<in> set [offset..<offset + length types]"
      then have "allowed (GetArg k)" by (intro Cons.prems) (simp add: flat_total_def Some)
      from emit_blocks [OF this] show "balanced (emit cx (GetArg k))" by (simp add: taken_def)
    qed
    have "balanced (seq [for_each [offset..<offset + length types] (\<lambda>k. emit cx (GetArg k)), lift cx n t,
        lift_params_direct cx n m (offset + length types) ts])"
      by (intro balanced_Cons [OF args] balanced_Cons [OF conjunct1 [OF lift_read_balanced [OF A]]]
          balanced_Cons [OF rest] blocks_done)
    moreover have "lift_params_direct cx n m offset (t # ts) = seq [for_each [offset..<offset + length types]
        (\<lambda>k. emit cx (GetArg k)), lift cx n t, lift_params_direct cx n m (offset + length types) ts]"
      by (auto simp: fun_eq_iff Some seq.simps [abs_def] and_then_def split: sum.split)
    ultimately show ?thesis by (simp del: lift_params_direct.simps)
  qed
qed

lemma read_params_from_memory_balanced:
  assumes A: arena_allowed
  shows "balanced (read_params_from_memory cx n offset ts ptr)"
proof (induction ts arbitrary: offset)
  case Nil
  then show ?case by (simp add: blocks_def)
next
  case (Cons t ts)
  have rec: "balanced (\<lambda>g. read_params_from_memory cx n z ts ptr g)" for z
    using Cons.IH [of z] by simp
  show ?case
    unfolding read_params_from_memory.simps(2) [abs_def] Let_def
    by (intro with_sizes_balanced balanced_Cons [OF conjunct2 [OF lift_read_balanced [OF A]]]
        balanced_Cons [OF with_sizes_balanced] rec blocks_done)
qed

lemma lower_call_results_balanced:
  assumes A: arena_allowed and args: "\<And>k. k < length (sig_params sg) \<Longrightarrow> allowed (GetArg k)"
  shows "balanced (lower_call_results cx n f sg variant to_memory)"
proof -
  have wr: "balanced (write_params_to_memory cx (write_to_memory cx n) ts ptr z)" for ts ptr z
    unfolding write_params_to_memory_def by (rule write_fields_balanced [OF conjunct2 [OF lower_write_balanced [OF A]]])
  have arg: "balanced (emit cx (GetArg (length (sig_params sg) - 1)))" if "sig_params sg \<noteq> []"
    using emit_blocks [OF args, of "length (sig_params sg) - 1"] that by (simp add: taken_def)
  show ?thesis
    unfolding lower_call_results_def
    by (cases variant; cases "fn_result f"; cases "sig_params sg = []")
      (auto intro!: blocks_Inr blocks_panic conjunct1 [OF lower_write_balanced [OF A]] balanced_Cons [OF arg [simplified]] with_pop_Cons
        balanced_Cons [OF wr] with_sizes_balanced with_return_pointer_balanced balanced_Cons [OF push_balanced] blocks_done)
qed

lemma call_lift_args_balanced:
  assumes A: arena_allowed and c: "call_allowed f variant LiftArgsLowerResults async args"
  shows "balanced (call_lift_args cx n f variant async)"
proof -
  let ?sg = "wasm_signature_of E R variant f"
  have a: "\<And>k. k < args \<Longrightarrow> allowed (GetArg k)" "allowed (Return (length (sig_results ?sg)) f)" "allowed (CallInterface f async)"
    "length (sig_params ?sg) \<le> args"
    "(if sig_indirect_params ?sg then 1 else flat_total (call_max_flat variant async) (param_types f)) \<le> args"
    using c by (simp_all add: call_allowed_def Let_def)
  have arg: "balanced (emit cx (GetArg k))" if "k < args" for k
    using emit_blocks [OF a(1) [OF that]] by (simp add: taken_def)
  have zero: "balanced (emit cx (GetArg 0))" if "sig_indirect_params ?sg" using arg [of 0] a(5) that by simp
  have call: "balanced (emit cx (CallInterface f async))" "balanced (emit cx (Return (length (sig_results ?sg)) f))"
    using emit_blocks [OF a(3)] emit_blocks [OF a(2)] by (simp_all add: taken_def)
  have params: "balanced (if sig_indirect_params ?sg
      then seq [emit cx (GetArg 0), with_pop (read_params_from_memory cx n (size_zero E) (param_types f))]
      else lift_params_direct cx n (call_max_flat variant async) 0 (param_types f))"
  proof (cases "sig_indirect_params ?sg")
    case True
    have "balanced (seq [emit cx (GetArg 0), with_pop (read_params_from_memory cx n (size_zero E) (param_types f))])"
      by (intro balanced_Cons [OF zero [OF True]] balanced_Cons [OF with_pop_balanced] blocks_done
          read_params_from_memory_balanced [OF A])
    then show ?thesis using True by simp
  next
    case False
    have "balanced (lift_params_direct cx n (call_max_flat variant async) 0 (param_types f))"
      by (rule lift_params_direct_balanced [OF A]) (use a(1,5) False in simp)
    then show ?thesis using False by simp
  qed
  have free: "balanced (if is_guest_export variant \<and> sig_indirect_params ?sg \<and> \<not> async
      then deallocate_indirect_params cx f else Inr)"
  proof (cases "sig_indirect_params ?sg")
    case True
    have "balanced (deallocate_indirect_params cx f)"
      unfolding deallocate_indirect_params_def Let_def
      by (intro with_sizes_balanced balanced_Cons [OF zero [OF True]] balanced_Cons [OF emit_done] blocks_done)
        (simp_all add: block_simps)
    then show ?thesis by (simp add: blocks_Inr)
  qed (simp add: blocks_Inr)
  have ret: "balanced (emit_call_return cx f ?sg variant async fr)" for fr
    unfolding emit_call_return_def
    by (auto intro!: emit_done blocks_panic call(2) simp: block_simps Let_def split: option.split)
  show ?thesis
    unfolding call_lift_args_def Let_def cx_simps
    by (intro balanced_Cons [OF params] balanced_Cons [OF call(1)] balanced_Cons [OF free]
        balanced_Cons [OF set_realloc_balanced] balanced_Cons [OF lower_call_results_balanced [OF A]] balanced_Cons [OF ret]
        blocks_done) (use a(1,4) in simp)
qed

theorem gen_call_balanced:
  assumes "arena_allowed" "call_allowed f variant ll async args"
  shows "balanced (gen_call cx n f variant ll async)"
proof -
  have "balanced (case ll of LowerArgsLiftResults \<Rightarrow> call_lower_args cx n f variant async
      | LiftArgsLowerResults \<Rightarrow> call_lift_args cx n f variant async)"
    using assms by (cases ll) (simp_all add: call_lower_args_balanced call_lift_args_balanced)
  then show ?thesis
    unfolding gen_call_def
    by (intro balanced_Cons [OF realloc_is_none_balanced] balanced_Cons balanced_Cons [OF stack_is_empty_balanced]
        blocks_done)
qed

lemma bindgen_contract_cx: "bindgen_contract cx"
  by (simp add: bindgen_contract_def checked_def checked_emit_length)

text \<open>A call that is generated at all leaves a backend that has not panicked, and no block.\<close>

lemma call_keeps_blocks:
  assumes "arena_allowed" "call_allowed f variant ll async args" "inv b"
    "call cx n variant ll f (Inr b) async = Inr s"
  obtains b' where "s = Inr b'" "inv b'" "depth b' = depth b" "finished b' = finished b"
proof -
  obtain g where g: "gen_call cx n f variant ll async (gen_new (Inr b)) = Inr g" "s = g_bindgen g"
    using assms(4) by (auto simp: call_def res_simps)
  show ?thesis
    by (rule blocksE [OF gen_call_balanced [OF assms(1,2)] g(1) _ assms(3), of "finished b" "[]"])
      (use that g(2) in \<open>simp_all add: gen_new_def\<close>)
qed

text \<open>Together with the stack discipline: a call is always generated.\<close>

lemma abi_ok_cx:
  assumes "sizes_contract cx" "flat_contract cx F" "repr_contract E" "wf_types E R F rk"
  shows "abi_ok cx F rk"
  using assms bindgen_contract_cx by (simp add: abi_ok_def)

theorem sync_call_never_panics:
  assumes "abi_ok cx F rk" "func_ok R rk n f" "variant = GuestImport \<or> variant = GuestExport"
    "signature_ok cx F variant f" "arena_allowed" "call_allowed f variant ll False args" "inv b"
  shows "\<exists>b'. call cx n variant ll f (Inr b) False = Inr (Inr b') \<and> inv b' \<and> depth b' = depth b \<and>
    finished b' = finished b"
proof -
  have "\<exists>s. call cx n variant ll f (Inr b) False = Inr s"
    by (rule call_ok_of_runs [OF call_sync_runs [OF assms(1) _ assms(3,4)]]) (simp add: assms(2))
  then show ?thesis using call_keeps_blocks [OF assms(5-7)] by metis
qed

theorem async_export_never_panics:
  assumes "abi_ok cx F rk" "func_ok R rk n f" "params_flat_ok cx F variant f" "is_guest_export variant"
    "variant = GuestExportAsyncStackful \<Longrightarrow> length (flat_list F (result_types f)) \<le> 16"
    "arena_allowed" "call_allowed f variant LiftArgsLowerResults True args" "inv b"
  shows "\<exists>b'. call cx n variant LiftArgsLowerResults f (Inr b) True = Inr (Inr b') \<and> inv b' \<and>
    depth b' = depth b \<and> finished b' = finished b"
proof -
  have "\<exists>s. call cx n variant LiftArgsLowerResults f (Inr b) True = Inr s"
    by (rule call_ok_of_runs [OF call_async_runs [OF assms(1) _ assms(3-5)]]) (simp_all add: assms(2))
  then show ?thesis using call_keeps_blocks [OF assms(6-8)] by metis
qed

lemma flat_total_le:
  assumes "flat_contract cx F"
  shows "flat_total m ts \<le> length (flat_list F ts)"
proof -
  have "(case flat_types E R t (Some m) of None \<Rightarrow> 0 | Some tys \<Rightarrow> length tys) \<le> length (F t)" for t
  proof -
    have "fst (push_flat E R t m) = (length (F t) \<le> m)" "length (F t) \<le> m \<longrightarrow> snd (push_flat E R t m) = F t"
      using assms by (simp_all add: flat_contract_def)
    then show ?thesis by (auto simp: flat_types_def split_beta split: option.split)
  qed
  then show ?thesis
    unfolding flat_total_def flat_list_def length_concat by (simp add: comp_def sum_list_mono)
qed

end

end
