(* ===== verification/Union_Find.thy ===== *)
theory Union_Find
  imports Wit
begin

text \<open>
  \<open>UnionFind\<close> of \<open>crates/core/src/types.rs\<close>: a map from ids to parents, \<open>find\<close> with path
  compression and \<open>union\<close> with the smaller id as the root. \<open>find\<close> would not return on a cyclic map,
  so it is a partial function; the invariant (every parent is smaller than its child) shows that it
  returns on every map that \<open>union\<close> builds. The locale \<open>equivalence_store\<close> is what the clients of
  the structure rely on.
\<close>

type_synonym union_find = "tid \<Rightarrow> tid option"

partial_function (option) find :: "union_find \<Rightarrow> tid \<Rightarrow> (tid \<times> union_find) option" where
  "find p i =
     (let parent = (case p i of None \<Rightarrow> i | Some q \<Rightarrow> q) in
      if parent \<noteq> i then
        Option.bind (find p parent) (\<lambda>(root, p'). Some (root, p'(i \<mapsto> root)))
      else Some (i, p))"

definition union :: "union_find \<Rightarrow> tid \<Rightarrow> tid \<Rightarrow> union_find option" where
  "union p a b =
     Option.bind (find p a) (\<lambda>(ra, p).
       Option.bind (find p b) (\<lambda>(rb, p).
         Some (if ra \<noteq> rb then (if ra < rb then p(rb \<mapsto> ra) else p(ra \<mapsto> rb)) else p)))"

section \<open>The invariant and the representative\<close>

definition uf_inv :: "union_find \<Rightarrow> bool" where
  "uf_inv p \<longleftrightarrow> (\<forall>i q. p i = Some q \<longrightarrow> q < i)"

lemma uf_invD: "uf_inv p \<Longrightarrow> p i = Some q \<Longrightarrow> q < i"
  by (simp add: uf_inv_def)

lemma uf_inv_empty [simp]: "uf_inv Map.empty"
  by (simp add: uf_inv_def)

text \<open>The representative as a total function: at most \<open>i\<close> steps lead from \<open>i\<close> to its root.\<close>

fun climb :: "union_find \<Rightarrow> nat \<Rightarrow> tid \<Rightarrow> tid" where
  "climb p 0 i = i"
| "climb p (Suc n) i = (case p i of None \<Rightarrow> i | Some q \<Rightarrow> climb p n q)"

definition rep :: "union_find \<Rightarrow> tid \<Rightarrow> tid" where
  "rep p i = climb p i i"

lemma climb_enough:
  assumes "uf_inv p" "i \<le> n" "i \<le> m"
  shows "climb p n i = climb p m i"
  using assms
proof (induction n arbitrary: i m)
  case 0
  then show ?case by (cases m) (auto split: option.split dest: uf_invD)
next
  case (Suc n)
  show ?case
  proof (cases "p i")
    case None
    then show ?thesis by (cases m) simp_all
  next
    case (Some q)
    then have "q < i" using Suc.prems(1) by (rule uf_invD [rotated])
    with Suc.prems obtain k where m: "m = Suc k" by (cases m) auto
    have "climb p n q = climb p k q"
      using Suc.IH [OF Suc.prems(1), of q k] \<open>q < i\<close> Suc.prems m by simp
    with Some m show ?thesis by simp
  qed
qed

lemma rep_simps:
  assumes "uf_inv p"
  shows "p i = None \<Longrightarrow> rep p i = i" "p i = Some q \<Longrightarrow> rep p i = rep p q"
proof -
  show "p i = None \<Longrightarrow> rep p i = i" by (cases i) (simp_all add: rep_def)
  assume q: "p i = Some q"
  then have lt: "q < i" using assms by (rule uf_invD [rotated])
  then obtain j where i: "i = Suc j" by (cases i) auto
  have "climb p (Suc j) i = climb p j q" using q by simp
  also have "\<dots> = climb p q q" by (rule climb_enough [OF assms]) (use lt i in simp_all)
  finally show "rep p i = rep p q" by (simp add: rep_def i)
qed

lemma rep_root:
  assumes "uf_inv p"
  shows "p (rep p i) = None"
proof (induction i rule: less_induct)
  case (less i)
  then show ?case
    using rep_simps [OF assms, of i] uf_invD [OF assms] by (cases "p i") auto
qed

lemma rep_le: "uf_inv p \<Longrightarrow> rep p i \<le> i"
proof (induction i rule: less_induct)
  case (less i)
  show ?case
  proof (cases "p i")
    case None
    then show ?thesis using rep_simps(1) [OF less.prems] by simp
  next
    case (Some q)
    then show ?thesis
      using less rep_simps(2) [OF less.prems Some] uf_invD [OF less.prems Some] by fastforce
  qed
qed

lemma rep_rep [simp]: "uf_inv p \<Longrightarrow> rep p (rep p i) = rep p i"
  by (rule rep_simps(1)) (simp_all add: rep_root)

text \<open>Hanging a node under its own root changes no representative.\<close>

lemma rep_upd_root:
  assumes p: "uf_inv p" and i: "rep p i \<noteq> i"
    and p': "p' i = Some (rep p i)" "\<And>j. j \<noteq> i \<Longrightarrow> p' j = p j"
  shows "uf_inv p'" "rep p' = rep p"
proof -
  have lt: "rep p i < i" using rep_le [OF p, of i] i by simp
  show inv: "uf_inv p'"
    unfolding uf_inv_def
  proof (intro allI impI)
    fix j q assume "p' j = Some q"
    then show "q < j" using p' lt uf_invD [OF p] by (cases "j = i") auto
  qed
  have "rep p' j = rep p j" for j
  proof (induction j rule: less_induct)
    case (less j)
    show ?case
    proof (cases "j = i")
      case True
      have "p' (rep p i) = None" using rep_root [OF p] i p'(2) by simp
      then have "rep p' (rep p i) = rep p i" by (rule rep_simps(1) [OF inv])
      with rep_simps(2) [OF inv p'(1)] True show ?thesis by simp
    next
      case False
      note pj = p'(2) [OF False]
      show ?thesis
      proof (cases "p j")
        case None
        with pj rep_simps(1) [OF inv, of j] rep_simps(1) [OF p None] show ?thesis by simp
      next
        case (Some q)
        with pj rep_simps(2) [OF inv, of j q] rep_simps(2) [OF p Some]
          less.IH [OF uf_invD [OF p Some]] show ?thesis by simp
      qed
    qed
  qed
  then show "rep p' = rep p" by (rule ext)
qed

text \<open>Hanging a root under a smaller root merges the two classes.\<close>

lemma rep_upd_union:
  assumes p: "uf_inv p" and roots: "p a = None" "p b = None" and lt: "b < a"
    and p': "p' a = Some b" "\<And>j. j \<noteq> a \<Longrightarrow> p' j = p j"
  shows "uf_inv p'" "rep p' j = (if rep p j = a then b else rep p j)"
proof -
  show inv: "uf_inv p'"
    unfolding uf_inv_def
  proof (intro allI impI)
    fix j q assume "p' j = Some q"
    then show "q < j" using p' lt uf_invD [OF p] by (cases "j = a") auto
  qed
  show "rep p' j = (if rep p j = a then b else rep p j)"
  proof (induction j rule: less_induct)
    case (less j)
    show ?case
    proof (cases "j = a")
      case True
      have "rep p' b = b" by (rule rep_simps(1) [OF inv]) (use p'(2) roots lt in simp)
      moreover have "rep p a = a" by (rule rep_simps(1) [OF p roots(1)])
      ultimately show ?thesis using True rep_simps(2) [OF inv p'(1)] by simp
    next
      case False
      note pj = p'(2) [OF False]
      show ?thesis
      proof (cases "p j")
        case None
        with pj False rep_simps(1) [OF inv, of j] rep_simps(1) [OF p None] show ?thesis by simp
      next
        case (Some q)
        with pj rep_simps(2) [OF inv, of j q] rep_simps(2) [OF p Some]
          less.IH [OF uf_invD [OF p Some]] show ?thesis by simp
      qed
    qed
  qed
qed

section \<open>\<open>find\<close> and \<open>union\<close>\<close>

theorem find_correct:
  assumes "uf_inv p"
  shows "\<exists>p'. find p i = Some (rep p i, p') \<and> uf_inv p' \<and> rep p' = rep p"
  using assms
proof (induction i rule: less_induct)
  case (less i)
  note p = less.prems
  show ?case
  proof (cases "p i")
    case None
    then show ?thesis using p by (simp add: find.simps [of p i] rep_simps(1))
  next
    case (Some q)
    then have q: "q < i" using p by (rule uf_invD [rotated])
    obtain p' where p': "find p q = Some (rep p q, p')" "uf_inv p'" "rep p' = rep p"
      using less.IH [OF q p] by blast
    have r: "rep p i = rep p q" by (rule rep_simps(2) [OF p Some])
    have ne: "rep p' i \<noteq> i" using rep_le [OF p, of q] q r p'(3) by simp
    have "find p i = Some (rep p i, p'(i \<mapsto> rep p i))"
      using Some q p'(1) r by (simp add: find.simps [of p i])
    moreover have "uf_inv (p'(i \<mapsto> rep p i))" "rep (p'(i \<mapsto> rep p i)) = rep p"
      using rep_upd_root [OF p'(2) ne, of "p'(i \<mapsto> rep p i)"] p'(3) r by simp_all
    ultimately show ?thesis by blast
  qed
qed

theorem union_correct:
  assumes p: "uf_inv p"
  shows "\<exists>p'. union p a b = Some p' \<and> uf_inv p' \<and>
    (\<forall>x y. rep p' x = rep p' y \<longleftrightarrow>
       rep p x = rep p y \<or> {rep p x, rep p y} = {rep p a, rep p b})"
proof -
  obtain p1 where 1: "find p a = Some (rep p a, p1)" "uf_inv p1" "rep p1 = rep p"
    using find_correct [OF p] by blast
  obtain p2 where 2: "find p1 b = Some (rep p b, p2)" "uf_inv p2" "rep p2 = rep p"
    using find_correct [OF 1(2), of b] 1(3) by auto
  have roots: "p2 (rep p a) = None" "p2 (rep p b) = None"
    using rep_root [OF 2(2)] 2(3) by metis+
  consider "rep p a = rep p b" | "rep p a < rep p b" | "rep p b < rep p a" by linarith
  then show ?thesis
  proof cases
    case 1
    then show ?thesis using 2 \<open>find p a = _\<close> by (auto simp: union_def)
  next
    case c: 2
    note u = rep_upd_union [OF 2(2) roots(2,1) c, of "p2(rep p b \<mapsto> rep p a)", simplified]
    show ?thesis
      using 1 2 c u by (intro exI [of _ "p2(rep p b \<mapsto> rep p a)"]) (auto simp: union_def doubleton_eq_iff)
  next
    case c: 3
    note u = rep_upd_union [OF 2(2) roots c, of "p2(rep p a \<mapsto> rep p b)", simplified]
    show ?thesis
      using 1 2 c u by (intro exI [of _ "p2(rep p a \<mapsto> rep p b)"]) (auto simp: union_def doubleton_eq_iff)
  qed
qed

section \<open>The contract\<close>

text \<open>Uniting the pairs of a list, first to last.\<close>

fun unite_all ::
    "('u \<Rightarrow> tid \<Rightarrow> tid \<Rightarrow> 'u option) \<Rightarrow> (tid \<times> tid) list \<Rightarrow> 'u \<Rightarrow> 'u option" where
  "unite_all unites [] u = Some u"
| "unite_all unites ((a, b) # ps) u = Option.bind (unites u a b) (unite_all unites ps)"

text \<open>The least equivalence that relates the pairs.\<close>

definition linked :: "(tid \<times> tid) set \<Rightarrow> (tid \<times> tid) set" where
  "linked R = (R \<union> R\<inverse>)\<^sup>*"

lemma linked_refl [simp]: "(x, x) \<in> linked R"
  by (simp add: linked_def)

lemma linked_step: "(x, y) \<in> R \<Longrightarrow> (x, y) \<in> linked R" "(y, x) \<in> R \<Longrightarrow> (x, y) \<in> linked R"
  by (auto simp: linked_def)

lemma linked_trans: "(x, y) \<in> linked R \<Longrightarrow> (y, z) \<in> linked R \<Longrightarrow> (x, z) \<in> linked R"
  unfolding linked_def by (rule rtrancl_trans)

lemma linked_sym: "(x, y) \<in> linked R \<Longrightarrow> (y, x) \<in> linked R"
  unfolding linked_def by (rule symD [OF sym_rtrancl]) (auto simp: sym_def)

lemma linked_mono: "(x, y) \<in> linked R \<Longrightarrow> R \<subseteq> S \<Longrightarrow> (x, y) \<in> linked S"
  unfolding linked_def by (rule rev_subsetD [OF _ rtrancl_mono]) auto

lemma linked_induct:
  assumes "(x, y) \<in> linked R" and "P x"
    and "\<And>a b. P a \<Longrightarrow> (a, b) \<in> R \<or> (b, a) \<in> R \<Longrightarrow> P b"
  shows "P y"
  using assms(1) unfolding linked_def by (induction rule: rtrancl_induct) (auto intro: assms(2,3))

lemma linked_equivp: "equivp (\<lambda>x y. (x, y) \<in> linked R)"
  by (rule equivpI) (auto intro: reflpI sympI transpI linked_sym linked_trans)

locale equivalence_store =
  fixes finds :: "'u \<Rightarrow> tid \<Rightarrow> (tid \<times> 'u) option"
    and unites :: "'u \<Rightarrow> tid \<Rightarrow> tid \<Rightarrow> 'u option"
    and fresh :: 'u
    and ok :: "'u \<Rightarrow> bool"
    and root :: "'u \<Rightarrow> tid \<Rightarrow> tid"
  assumes fresh_ok: "ok fresh" and fresh_root: "root fresh i = i"
    and finds_law: "ok u \<Longrightarrow> \<exists>u'. finds u i = Some (root u i, u') \<and> ok u' \<and> root u' = root u"
    and unites_law: "ok u \<Longrightarrow> \<exists>u'. unites u a b = Some u' \<and> ok u' \<and>
      (\<forall>x y. root u' x = root u' y \<longleftrightarrow>
         root u x = root u y \<or> {root u x, root u y} = {root u a, root u b})"
    and root_least: "ok u \<Longrightarrow> root u i \<le> i"
    and root_idem: "ok u \<Longrightarrow> root u (root u i) = root u i"
begin

lemma finds_root:
  assumes "ok u" "finds u i = Some (r, u')"
  shows "r = root u i" "ok u'" "root u' = root u"
  using finds_law [OF assms(1), of i] assms(2) by auto

text \<open>A relation that holds on the classes of a store still holds after two related ids are united.\<close>

lemma unites_preserves:
  assumes u: "ok u" and eq: "equivp R" and R: "\<And>x y. root u x = root u y \<Longrightarrow> R x y"
    and ab: "R a b" and u': "unites u a b = Some u'" and xy: "root u' x = root u' y"
  shows "R x y"
proof -
  note sym = equivp_symp [OF eq] and trans = equivp_transp [OF eq]
  have "root u x = root u y \<or> {root u x, root u y} = {root u a, root u b}"
    using unites_law [OF u, of a b] u' xy by auto
  then consider "root u x = root u y" | "root u x = root u a" "root u y = root u b"
    | "root u x = root u b" "root u y = root u a"
    by (auto simp: doubleton_eq_iff)
  then show ?thesis
  proof cases
    case 1
    then show ?thesis by (rule R)
  next
    case 2
    show ?thesis by (rule trans [OF R [OF 2(1)] trans [OF ab sym [OF R [OF 2(2)]]]])
  next
    case 3
    show ?thesis by (rule trans [OF R [OF 3(1)] trans [OF sym [OF ab] sym [OF R [OF 3(2)]]]])
  qed
qed

lemma unites_joins:
  assumes "ok u" "unites u a b = Some u'"
  shows "root u' a = root u' b"
  using unites_law [OF assms(1), of a b] assms(2) by auto

lemma unites_keeps:
  assumes "ok u" "unites u a b = Some u'" "root u x = root u y"
  shows "root u' x = root u' y"
  using unites_law [OF assms(1), of a b] assms(2,3) by auto

lemma unite_all_linked:
  assumes "ok u" "\<And>x y. root u x = root u y \<longleftrightarrow> (x, y) \<in> linked R"
  shows "\<exists>u'. unite_all unites ps u = Some u' \<and> ok u' \<and>
    (\<forall>x y. root u' x = root u' y \<longleftrightarrow> (x, y) \<in> linked (R \<union> set ps))"
  using assms
proof (induction ps arbitrary: u R)
  case Nil
  then show ?case by simp
next
  case (Cons ab ps)
  obtain a b where ab: "ab = (a, b)" by fastforce
  obtain u1 where u1: "unites u a b = Some u1" "ok u1" using unites_law [OF Cons.prems(1), of a b] by blast
  let ?S = "insert (a, b) R"
  have "root u1 x = root u1 y \<longleftrightarrow> (x, y) \<in> linked ?S" for x y
  proof
    show "(x, y) \<in> linked ?S" if "root u1 x = root u1 y"
    proof (rule unites_preserves [OF Cons.prems(1) linked_equivp _ _ u1(1) that])
      show "(v, w) \<in> linked ?S" if "root u v = root u w" for v w
        using Cons.prems(2) that linked_mono by blast
      show "(a, b) \<in> linked ?S" by (rule linked_step) simp
    qed
    show "root u1 x = root u1 y" if "(x, y) \<in> linked ?S"
    proof (rule linked_induct [OF that, of "\<lambda>z. root u1 x = root u1 z"])
      fix v w assume v: "root u1 x = root u1 v" and vw: "(v, w) \<in> ?S \<or> (w, v) \<in> ?S"
      have "root u1 v = root u1 w"
      proof (cases "(v, w) = (a, b) \<or> (w, v) = (a, b)")
        case True
        then show ?thesis using unites_joins [OF Cons.prems(1) u1(1)] by auto
      next
        case False
        then have "(v, w) \<in> R \<or> (w, v) \<in> R" using vw by blast
        then have "(v, w) \<in> linked R" by (auto intro: linked_step)
        then show ?thesis using Cons.prems(2) unites_keeps [OF Cons.prems(1) u1(1)] by blast
      qed
      then show "root u1 x = root u1 w" using v by simp
    qed simp
  qed
  from Cons.IH [OF u1(2) this] show ?case by (simp add: ab u1(1))
qed

lemma unite_all_classes:
  "\<exists>u'. unite_all unites ps fresh = Some u' \<and> ok u' \<and>
    (\<forall>x y. root u' x = root u' y \<longleftrightarrow> (x, y) \<in> linked (set ps))"
proof -
  have "root fresh x = root fresh y \<longleftrightarrow> (x, y) \<in> linked {}" for x y
    by (simp add: fresh_root linked_def)
  from unite_all_linked [OF fresh_ok this] show ?thesis by simp
qed

end

interpretation uf: equivalence_store find union "Map.empty" uf_inv rep
proof
  show "rep Map.empty i = i" for i by (rule rep_simps(1)) simp_all
qed (simp_all add: find_correct union_correct rep_le)

end
