(* ===== verification/Struct_Equal.thy ===== *)
theory Struct_Equal
  imports Union_Find
begin

text \<open>
  \<open>is_structurally_equal\<close> and its helpers of \<open>crates/core/src/types.rs\<close>. The methods ask the
  union-find whether two ids are already known to be equal, so they are queries on its state; the
  parameter \<open>finds\<close> is \<open>UnionFind::find\<close>. The specification of the answer is the tree a type
  unfolds to when every \<open>type a = b\<close> is followed.
\<close>

type_synonym 'u query = "'u \<Rightarrow> (bool \<times> 'u) res"

section \<open>Queries\<close>

definition answer :: "bool \<Rightarrow> 'u query" where
  "answer b u = Inr (b, u)"

text \<open>\<open>iter().all(f)\<close> and \<open>&&\<close> stop at the first false.\<close>

fun all_query :: "'u query list \<Rightarrow> 'u query" where
  "all_query [] u = Inr (True, u)"
| "all_query (q # qs) u = and_then (q u) (\<lambda>(b, u). if b then all_query qs u else Inr (False, u))"

definition and_query :: "bool \<Rightarrow> 'u query \<Rightarrow> 'u query" where
  "and_query b q = (if b then q else answer False)"

definition same_root :: "('u \<Rightarrow> tid \<Rightarrow> (tid \<times> 'u) option) \<Rightarrow> tid \<Rightarrow> tid \<Rightarrow> 'u query" where
  "same_root finds a b u =
     (case finds u a of
        None \<Rightarrow> Inl Out_Of_Fuel
      | Some (ra, u) \<Rightarrow>
          (case finds u b of None \<Rightarrow> Inl Out_Of_Fuel | Some (rb, u) \<Rightarrow> Inr (ra = rb, u)))"

section \<open>Structural equality\<close>

definition optional_types_equal ::
    "(ty \<Rightarrow> ty \<Rightarrow> 'u query) \<Rightarrow> ty option \<Rightarrow> ty option \<Rightarrow> 'u query" where
  "optional_types_equal te a b =
     (case (a, b) of
        (Some x, Some y) \<Rightarrow> te x y
      | (None, None) \<Rightarrow> answer True
      | _ \<Rightarrow> answer False)"

definition handles_equal :: "(tid \<Rightarrow> tid \<Rightarrow> 'u query) \<Rightarrow> handle \<Rightarrow> handle \<Rightarrow> 'u query" where
  "handles_equal se a b =
     (case (a, b) of
        (Own x, Own y) \<Rightarrow> se x y
      | (Borrow x, Borrow y) \<Rightarrow> se x y
      | _ \<Rightarrow> answer False)"

text \<open>The arms of \<open>is_structurally_equal\<close> below the two that peel off a typedef.\<close>

definition same_kind ::
    "(tid \<Rightarrow> tid \<Rightarrow> 'u query) \<Rightarrow> (ty \<Rightarrow> ty \<Rightarrow> 'u query) \<Rightarrow> tid \<Rightarrow> tid \<Rightarrow> kind \<Rightarrow> kind \<Rightarrow> 'u query" where
  "same_kind se te a b ka kb =
     (case ka of
        KRecord fa \<Rightarrow>
          (case kb of
             KRecord fb \<Rightarrow>
               and_query (length fa = length fb)
                 (all_query (map (\<lambda>((na, ta), (nb, tb)). and_query (na = nb) (te ta tb)) (zip fa fb)))
           | _ \<Rightarrow> answer False)
      | KVariant ca \<Rightarrow>
          (case kb of
             KVariant cb \<Rightarrow>
               and_query (length ca = length cb)
                 (all_query (map (\<lambda>((na, ta), (nb, tb)).
                    and_query (na = nb) (optional_types_equal te ta tb)) (zip ca cb)))
           | _ \<Rightarrow> answer False)
      | KEnum ca \<Rightarrow> (case kb of KEnum cb \<Rightarrow> answer (ca = cb) | _ \<Rightarrow> answer False)
      | KFlags fa \<Rightarrow> (case kb of KFlags fb \<Rightarrow> answer (fa = fb) | _ \<Rightarrow> answer False)
      | KTuple tsa \<Rightarrow>
          (case kb of
             KTuple tsb \<Rightarrow>
               and_query (length tsa = length tsb)
                 (all_query (map (\<lambda>(ta, tb). te ta tb) (zip tsa tsb)))
           | _ \<Rightarrow> answer False)
      | KList ta \<Rightarrow> (case kb of KList tb \<Rightarrow> te ta tb | _ \<Rightarrow> answer False)
      | KFixedLengthList ta sa \<Rightarrow>
          (case kb of KFixedLengthList tb sb \<Rightarrow> and_query (sa = sb) (te ta tb) | _ \<Rightarrow> answer False)
      | KOption ta \<Rightarrow> (case kb of KOption tb \<Rightarrow> te ta tb | _ \<Rightarrow> answer False)
      | KResult oka erra \<Rightarrow>
          (case kb of
             KResult okb errb \<Rightarrow>
               all_query [optional_types_equal te oka okb, optional_types_equal te erra errb]
           | _ \<Rightarrow> answer False)
      | KMap keya va \<Rightarrow>
          (case kb of KMap keyb vb \<Rightarrow> all_query [te keya keyb, te va vb] | _ \<Rightarrow> answer False)
      | KFuture ta \<Rightarrow>
          (case kb of KFuture tb \<Rightarrow> optional_types_equal te ta tb | _ \<Rightarrow> answer False)
      | KStream ta \<Rightarrow>
          (case kb of KStream tb \<Rightarrow> optional_types_equal te ta tb | _ \<Rightarrow> answer False)
      | KHandle ha \<Rightarrow> (case kb of KHandle hb \<Rightarrow> handles_equal se ha hb | _ \<Rightarrow> answer False)
      | KUnknown \<Rightarrow> (\<lambda>u. Inl Unreachable_Code)
      | KResource \<Rightarrow> (case kb of KResource \<Rightarrow> answer (a = b) | _ \<Rightarrow> answer False)
      | KType _ \<Rightarrow> (\<lambda>u. Inl Unreachable_Code))"

definition kinds_equal ::
    "(tid \<Rightarrow> tid \<Rightarrow> 'u query) \<Rightarrow> (tid \<Rightarrow> ty \<Rightarrow> 'u query) \<Rightarrow> (ty \<Rightarrow> ty \<Rightarrow> 'u query)
      \<Rightarrow> tid \<Rightarrow> tid \<Rightarrow> kind \<Rightarrow> kind \<Rightarrow> 'u query" where
  "kinds_equal se tie te a b ka kb =
     (case ka of
        KType ta \<Rightarrow> tie b ta
      | _ \<Rightarrow> (case kb of KType tb \<Rightarrow> tie a tb | _ \<Rightarrow> same_kind se te a b ka kb))"

text \<open>The three mutually recursive methods, with fuel.\<close>

fun is_structurally_equal ::
    "('u \<Rightarrow> tid \<Rightarrow> (tid \<times> 'u) option) \<Rightarrow> resolve \<Rightarrow> nat \<Rightarrow> tid \<Rightarrow> tid \<Rightarrow> 'u query"
and type_id_equal_to_type ::
    "('u \<Rightarrow> tid \<Rightarrow> (tid \<times> 'u) option) \<Rightarrow> resolve \<Rightarrow> nat \<Rightarrow> tid \<Rightarrow> ty \<Rightarrow> 'u query"
and types_equal ::
    "('u \<Rightarrow> tid \<Rightarrow> (tid \<times> 'u) option) \<Rightarrow> resolve \<Rightarrow> nat \<Rightarrow> ty \<Rightarrow> ty \<Rightarrow> 'u query" where
  "is_structurally_equal finds r 0 a b u = Inl Out_Of_Fuel"
| "is_structurally_equal finds r (Suc n) a b u =
     and_then (type_at r a) (\<lambda>ad.
       and_then (type_at r b) (\<lambda>bd.
         and_then (same_root finds a b u) (\<lambda>(eq, u).
           if eq then Inr (True, u)
           else
             kinds_equal (\<lambda>a b u. is_structurally_equal finds r n a b u)
               (\<lambda>a t u. type_id_equal_to_type finds r n a t u)
               (\<lambda>s t u. types_equal finds r n s t u) a b (td_kind ad) (td_kind bd) u)))"
| "type_id_equal_to_type finds r 0 a t u = Inl Out_Of_Fuel"
| "type_id_equal_to_type finds r (Suc n) a t u =
     and_then (type_at r a) (\<lambda>ad.
       case (td_kind ad, t) of
         (KType s, t) \<Rightarrow> types_equal finds r n s t u
       | (_, TId b) \<Rightarrow> is_structurally_equal finds r n a b u
       | _ \<Rightarrow> Inr (False, u))"
| "types_equal finds r 0 s t u = Inl Out_Of_Fuel"
| "types_equal finds r (Suc n) s t u =
     (case (s, t) of
        (TId a, t) \<Rightarrow> type_id_equal_to_type finds r n a t u
      | (s, TId b) \<Rightarrow> type_id_equal_to_type finds r n b s u
      | (s, t) \<Rightarrow> Inr (s = t, u))"

section \<open>The specification: what a type unfolds to\<close>

datatype tree =
    Prim ty
  | TreeRecord "(string \<times> tree) list"
  | TreeResource tid
  | TreeOwn tree
  | TreeBorrow tree
  | TreeFlags "string list"
  | TreeTuple "tree list"
  | TreeVariant "(string \<times> tree option) list"
  | TreeEnum "string list"
  | TreeOption tree
  | TreeResult "tree option" "tree option"
  | TreeList tree
  | TreeMap tree tree
  | TreeFixed tree "32 word"
  | TreeFuture "tree option"
  | TreeStream "tree option"
  | TreeUnknown

definition kind_tree :: "(ty \<Rightarrow> tree) \<Rightarrow> tid \<Rightarrow> kind \<Rightarrow> tree" where
  "kind_tree f i k =
     (case k of
        KRecord fs \<Rightarrow> TreeRecord (map (\<lambda>(x, t). (x, f t)) fs)
      | KResource \<Rightarrow> TreeResource i
      | KHandle (Own j) \<Rightarrow> TreeOwn (f (TId j))
      | KHandle (Borrow j) \<Rightarrow> TreeBorrow (f (TId j))
      | KFlags fs \<Rightarrow> TreeFlags fs
      | KTuple ts \<Rightarrow> TreeTuple (map f ts)
      | KVariant cs \<Rightarrow> TreeVariant (map (\<lambda>(x, t). (x, map_option f t)) cs)
      | KEnum cs \<Rightarrow> TreeEnum cs
      | KOption t \<Rightarrow> TreeOption (f t)
      | KResult a b \<Rightarrow> TreeResult (map_option f a) (map_option f b)
      | KList t \<Rightarrow> TreeList (f t)
      | KMap a b \<Rightarrow> TreeMap (f a) (f b)
      | KFixedLengthList t n \<Rightarrow> TreeFixed (f t) n
      | KFuture t \<Rightarrow> TreeFuture (map_option f t)
      | KStream t \<Rightarrow> TreeStream (map_option f t)
      | KType t \<Rightarrow> f t
      | KUnknown \<Rightarrow> TreeUnknown)"

fun unfold_ty :: "resolve \<Rightarrow> nat \<Rightarrow> ty \<Rightarrow> tree" where
  "unfold_ty r 0 t = TreeUnknown"
| "unfold_ty r (Suc n) t = (case t of TId i \<Rightarrow> kind_tree (unfold_ty r n) i (kind_at r i) | _ \<Rightarrow> Prim t)"

text \<open>The types an id refers to; unlike in the ABI, handles and payloads count.\<close>

definition eq_types :: "kind \<Rightarrow> ty list" where
  "eq_types k =
     (case k of
        KRecord fs \<Rightarrow> map snd fs
      | KHandle (Own j) \<Rightarrow> [TId j]
      | KHandle (Borrow j) \<Rightarrow> [TId j]
      | KTuple ts \<Rightarrow> ts
      | KVariant cs \<Rightarrow> concat (map (\<lambda>c. case snd c of None \<Rightarrow> [] | Some t \<Rightarrow> [t]) cs)
      | KOption t \<Rightarrow> [t]
      | KResult a b \<Rightarrow> concat (map (\<lambda>c. case c of None \<Rightarrow> [] | Some t \<Rightarrow> [t]) [a, b])
      | KList t \<Rightarrow> [t]
      | KMap a b \<Rightarrow> [a, b]
      | KFixedLengthList t n \<Rightarrow> [t]
      | KFuture t \<Rightarrow> (case t of None \<Rightarrow> [] | Some t \<Rightarrow> [t])
      | KStream t \<Rightarrow> (case t of None \<Rightarrow> [] | Some t \<Rightarrow> [t])
      | KType t \<Rightarrow> [t]
      | _ \<Rightarrow> [])"

definition valid_ty :: "resolve \<Rightarrow> ty \<Rightarrow> bool" where
  "valid_ty r t = (case t of TId i \<Rightarrow> valid_id r i | _ \<Rightarrow> True)"

definition acyclic_types :: "resolve \<Rightarrow> (tid \<Rightarrow> nat) \<Rightarrow> bool" where
  "acyclic_types r rk \<longleftrightarrow>
     (\<forall>i < length (r_types r). kind_at r i \<noteq> KUnknown \<and>
        (\<forall>t \<in> set (eq_types (kind_at r i)). valid_ty r t \<and> ty_rank rk t \<le> rk i))"

definition tree_of :: "resolve \<Rightarrow> (tid \<Rightarrow> nat) \<Rightarrow> ty \<Rightarrow> tree" where
  "tree_of r rk t = unfold_ty r (Suc (ty_rank rk t)) t"

lemma acyclicD:
  assumes "acyclic_types r rk" "valid_id r i"
  shows "kind_at r i \<noteq> KUnknown"
    "\<And>t. t \<in> set (eq_types (kind_at r i)) \<Longrightarrow> valid_ty r t \<and> ty_rank rk t \<le> rk i"
  using assms by (auto simp: acyclic_types_def)

lemma kind_tree_cong:
  assumes "\<And>t. t \<in> set (eq_types k) \<Longrightarrow> f t = g t"
  shows "kind_tree f i k = kind_tree g i k"
proof (cases k)
  case (KHandle h)
  then show ?thesis using assms by (cases h) (simp_all add: kind_tree_def eq_types_def)
next
  case (KVariant cs)
  have "map_option f t = map_option g t" if "(x, t) \<in> set cs" for x t
    using assms that by (cases t) (force simp: KVariant eq_types_def)+
  then show ?thesis by (auto simp: KVariant kind_tree_def)
next
  case (KRecord fs)
  have "f t = g t" if "(x, t) \<in> set fs" for x t
    using assms that by (force simp: KRecord eq_types_def)
  then show ?thesis by (auto simp: KRecord kind_tree_def)
next
  case (KResult a b)
  then show ?thesis
    using assms by (cases a; cases b) (simp_all add: kind_tree_def eq_types_def)
next
  case (KFuture t)
  then show ?thesis using assms by (cases t) (simp_all add: kind_tree_def eq_types_def)
next
  case (KStream t)
  then show ?thesis using assms by (cases t) (simp_all add: kind_tree_def eq_types_def)
qed (use assms in \<open>simp_all add: kind_tree_def eq_types_def\<close>)

lemma unfold_ty_enough:
  assumes "acyclic_types r rk" "valid_ty r t" "ty_rank rk t < n" "ty_rank rk t < m"
  shows "unfold_ty r n t = unfold_ty r m t"
  using assms(2-4)
proof (induction n arbitrary: t m)
  case 0
  then show ?case by simp
next
  case (Suc n)
  then obtain k where m: "m = Suc k" by (cases m) auto
  show ?case
  proof (cases "\<exists>i. t = TId i")
    case False
    then show ?thesis by (cases t) (simp_all add: m)
  next
    case True
    then obtain i where t: "t = TId i" by auto
    have vi: "valid_id r i" using Suc.prems(1) by (simp add: t valid_ty_def)
    have eq: "unfold_ty r n u = unfold_ty r k u" if "u \<in> set (eq_types (kind_at r i))" for u
      using acyclicD(2) [OF assms(1) vi that] Suc.IH [of u k] Suc.prems(2,3)
      by (simp add: t m ty_rank_def)
    have "kind_tree (unfold_ty r n) i (kind_at r i) = kind_tree (unfold_ty r k) i (kind_at r i)"
      by (rule kind_tree_cong) (rule eq)
    then show ?thesis by (simp add: t m)
  qed
qed

lemma tree_of_TId:
  assumes "acyclic_types r rk" "valid_id r i"
  shows "tree_of r rk (TId i) = kind_tree (tree_of r rk) i (kind_at r i)"
proof -
  have "unfold_ty r (Suc (rk i)) u = tree_of r rk u" if "u \<in> set (eq_types (kind_at r i))" for u
    unfolding tree_of_def
    by (rule unfold_ty_enough [OF assms(1)]) (use acyclicD(2) [OF assms that] in simp_all)
  then show ?thesis
    by (simp add: tree_of_def ty_rank_def) (rule kind_tree_cong, simp add: tree_of_def ty_rank_def)
qed

lemma tree_of_prim: "\<forall>i. t \<noteq> TId i \<Longrightarrow> tree_of r rk t = Prim t"
  by (cases t) (simp_all add: tree_of_def)

section \<open>Queries that decide a proposition\<close>

text \<open>\<open>q\<close> answers \<open>P\<close> in every good state with the classes \<open>R\<close>, and keeps the classes.\<close>

definition decides ::
    "('u \<Rightarrow> bool) \<Rightarrow> ('u \<Rightarrow> tid \<Rightarrow> tid) \<Rightarrow> (tid \<Rightarrow> tid) \<Rightarrow> 'u query \<Rightarrow> bool \<Rightarrow> bool" where
  "decides ok root R q P \<longleftrightarrow>
     (\<forall>u. ok u \<and> root u = R \<longrightarrow> (\<exists>u'. q u = Inr (P, u') \<and> ok u' \<and> root u' = R))"

lemma decidesI:
  "(\<And>u. ok u \<Longrightarrow> root u = R \<Longrightarrow> \<exists>u'. q u = Inr (P, u') \<and> ok u' \<and> root u' = R)
    \<Longrightarrow> decides ok root R q P"
  by (simp add: decides_def)

lemma decidesE:
  assumes "decides ok root R q P" "ok u" "root u = R"
  obtains u' where "q u = Inr (P, u')" "ok u'" "root u' = R"
  using assms by (auto simp: decides_def)

lemma decides_answer [intro]: "decides ok root R (answer P) P"
  by (simp add: decides_def answer_def)

lemma decides_and_query:
  "(b \<Longrightarrow> decides ok root R q P) \<Longrightarrow> decides ok root R (and_query b q) (b \<and> P)"
  by (auto simp: and_query_def)

lemma decides_all:
  assumes "\<And>x. x \<in> set xs \<Longrightarrow> decides ok root R (q x) (P x)"
  shows "decides ok root R (all_query (map q xs)) (\<forall>x \<in> set xs. P x)"
  using assms
proof (induction xs)
  case Nil
  then show ?case by (simp add: decides_def)
next
  case (Cons x xs)
  have "decides ok root R (q x) (P x)" "decides ok root R (all_query (map q xs)) (\<forall>x \<in> set xs. P x)"
    using Cons by simp_all
  then show ?case
    unfolding decides_def by (cases "P x") fastforce+
qed

lemma decides_optional:
  assumes "\<And>x y. a = Some x \<Longrightarrow> b = Some y \<Longrightarrow> decides ok root R (te x y) (f x = f y)"
  shows "decides ok root R (optional_types_equal te a b) (map_option f a = map_option f b)"
  using assms decides_answer [of ok root R]
  by (cases a; cases b) (simp_all add: optional_types_equal_def)

lemma map_eq_zip:
  "(map f xs = map g ys) = (length xs = length ys \<and> (\<forall>(x, y) \<in> set (zip xs ys). f x = g y))"
proof (cases "length xs = length ys")
  case True
  then show ?thesis by (induction xs ys rule: list_induct2) auto
next
  case False
  then show ?thesis by (metis length_map)
qed

lemma decides_lists:
  assumes "\<And>x y. x \<in> set xs \<Longrightarrow> y \<in> set ys \<Longrightarrow> decides ok root R (q (x, y)) (f x = g y)"
  shows "decides ok root R (and_query (length xs = length ys) (all_query (map q (zip xs ys))))
    (map f xs = map g ys)"
proof -
  have "decides ok root R (all_query (map q (zip xs ys))) (\<forall>p \<in> set (zip xs ys). f (fst p) = g (snd p))"
  proof (rule decides_all)
    fix p assume "p \<in> set (zip xs ys)"
    then show "decides ok root R (q p) (f (fst p) = g (snd p))"
      using assms [of "fst p" "snd p"] by (metis prod.collapse set_zip_leftD set_zip_rightD)
  qed
  from decides_and_query [OF this, of "length xs = length ys"] show ?thesis
    by (simp add: map_eq_zip split_beta)
qed

lemma decides_two:
  assumes "decides ok root R q P" "decides ok root R q' P'"
  shows "decides ok root R (all_query [q, q']) (P \<and> P')"
  using assms unfolding decides_def by (cases P) fastforce+

lemma same_kind_decides:
  assumes te: "\<And>s t. s \<in> set (eq_types ka) \<Longrightarrow> t \<in> set (eq_types kb) \<Longrightarrow>
        decides ok root R (te s t) (f s = f t)"
    and se: "\<And>x y. TId x \<in> set (eq_types ka) \<Longrightarrow> TId y \<in> set (eq_types kb) \<Longrightarrow>
        decides ok root R (se x y) (f (TId x) = f (TId y))"
    and k: "\<forall>t. ka \<noteq> KType t" "\<forall>t. kb \<noteq> KType t" "ka \<noteq> KUnknown"
  shows "decides ok root R (same_kind se te a b ka kb) (kind_tree f a ka = kind_tree f b kb)"
proof -
  note defs = same_kind_def kind_tree_def eq_types_def
  have ans: "decides ok root R (answer False) P" if "\<not> P" for P
    using decides_answer [of ok root R False] that by simp
  have opt: "decides ok root R (optional_types_equal te x y) (map_option f x = map_option f y)"
    if "\<And>s t. x = Some s \<Longrightarrow> y = Some t \<Longrightarrow> s \<in> set (eq_types ka) \<and> t \<in> set (eq_types kb)" for x y
    by (rule decides_optional) (use that te in blast)
  show ?thesis
  proof (cases ka)
    case ka: (KRecord fa)
    show ?thesis
    proof (cases kb)
      case kb: (KRecord fb)
      have "decides ok root R (and_query (length fa = length fb)
          (all_query (map (\<lambda>((na, ta), (nb, tb)). and_query (na = nb) (te ta tb)) (zip fa fb))))
          (map (\<lambda>(x, t). (x, f t)) fa = map (\<lambda>(x, t). (x, f t)) fb)"
      proof (rule decides_lists)
        fix x y assume "x \<in> set fa" "y \<in> set fb"
        then have "snd x \<in> set (eq_types ka)" "snd y \<in> set (eq_types kb)"
          by (simp_all add: ka kb eq_types_def)
        from decides_and_query [OF te [OF this], of "fst x = fst y"]
        show "decides ok root R ((\<lambda>((na, ta), (nb, tb)). and_query (na = nb) (te ta tb)) (x, y))
            ((\<lambda>(x, t). (x, f t)) x = (\<lambda>(x, t). (x, f t)) y)"
          by (simp add: split_beta)
      qed
      then show ?thesis by (simp add: ka kb defs)
    qed (use k(2) in \<open>auto simp: ka defs intro!: ans split: handle.split\<close>)
  next
    case ka: (KVariant fa)
    show ?thesis
    proof (cases kb)
      case kb: (KVariant fb)
      have "decides ok root R (and_query (length fa = length fb)
          (all_query (map (\<lambda>((na, ta), (nb, tb)).
             and_query (na = nb) (optional_types_equal te ta tb)) (zip fa fb))))
          (map (\<lambda>(x, t). (x, map_option f t)) fa = map (\<lambda>(x, t). (x, map_option f t)) fb)"
      proof (rule decides_lists)
        fix x y assume xy: "x \<in> set fa" "y \<in> set fb"
        have "decides ok root R (optional_types_equal te (snd x) (snd y))
            (map_option f (snd x) = map_option f (snd y))"
          by (rule opt) (use xy in \<open>force simp: ka kb eq_types_def\<close>)
        from decides_and_query [OF this, of "fst x = fst y"]
        show "decides ok root R ((\<lambda>((na, ta), (nb, tb)).
              and_query (na = nb) (optional_types_equal te ta tb)) (x, y))
            ((\<lambda>(x, t). (x, map_option f t)) x = (\<lambda>(x, t). (x, map_option f t)) y)"
          by (simp add: split_beta)
      qed
      then show ?thesis by (simp add: ka kb defs)
    qed (use k(2) in \<open>auto simp: ka defs intro!: ans split: handle.split\<close>)
  next
    case ka: (KTuple fa)
    show ?thesis
    proof (cases kb)
      case kb: (KTuple fb)
      have "decides ok root R (and_query (length fa = length fb)
          (all_query (map (\<lambda>(ta, tb). te ta tb) (zip fa fb)))) (map f fa = map f fb)"
        by (rule decides_lists) (use te in \<open>simp add: ka kb eq_types_def\<close>)
      then show ?thesis by (simp add: ka kb defs)
    qed (use k(2) in \<open>auto simp: ka defs intro!: ans split: handle.split\<close>)
  next
    case ka: (KResult x y)
    show ?thesis
    proof (cases kb)
      case kb: (KResult x' y')
      have "decides ok root R (all_query [optional_types_equal te x x', optional_types_equal te y y'])
          (map_option f x = map_option f x' \<and> map_option f y = map_option f y')"
        by (rule decides_two; rule opt) (simp_all add: ka kb eq_types_def)
      then show ?thesis by (simp add: ka kb defs)
    qed (use k(2) in \<open>auto simp: ka defs intro!: ans split: handle.split\<close>)
  next
    case ka: (KMap x y)
    show ?thesis
    proof (cases kb)
      case kb: (KMap x' y')
      have "decides ok root R (all_query [te x x', te y y']) (f x = f x' \<and> f y = f y')"
        by (rule decides_two; rule te) (simp_all add: ka kb eq_types_def)
      then show ?thesis by (simp add: ka kb defs)
    qed (use k(2) in \<open>auto simp: ka defs intro!: ans split: handle.split\<close>)
  next
    case ka: (KFixedLengthList x m)
    show ?thesis
    proof (cases kb)
      case kb: (KFixedLengthList x' m')
      have "decides ok root R (and_query (m = m') (te x x')) (m = m' \<and> f x = f x')"
        by (rule decides_and_query, rule te) (simp_all add: ka kb eq_types_def)
      then show ?thesis by (simp add: ka kb defs conj_commute)
    qed (use k(2) in \<open>auto simp: ka defs intro!: ans split: handle.split\<close>)
  next
    case ka: (KHandle h)
    show ?thesis
    proof (cases kb)
      case kb: (KHandle h')
      show ?thesis
        using se by (cases h; cases h') (auto simp: ka kb defs handles_equal_def intro!: ans)
    qed (use k(2) in \<open>auto simp: ka defs intro!: ans split: handle.split\<close>)
  next
    case ka: (KFuture x)
    show ?thesis
    proof (cases kb)
      case kb: (KFuture x')
      have "decides ok root R (optional_types_equal te x x') (map_option f x = map_option f x')"
        by (rule opt) (simp add: ka kb eq_types_def)
      then show ?thesis by (simp add: ka kb defs)
    qed (use k(2) in \<open>auto simp: ka defs intro!: ans split: handle.split\<close>)
  next
    case ka: (KStream x)
    show ?thesis
    proof (cases kb)
      case kb: (KStream x')
      have "decides ok root R (optional_types_equal te x x') (map_option f x = map_option f x')"
        by (rule opt) (simp add: ka kb eq_types_def)
      then show ?thesis by (simp add: ka kb defs)
    qed (use k(2) in \<open>auto simp: ka defs intro!: ans split: handle.split\<close>)
  next
    case ka: (KList x)
    show ?thesis
      using k(2) te by (cases kb) (auto simp: ka defs intro!: ans split: handle.split)
  next
    case ka: (KOption x)
    show ?thesis
      using k(2) te by (cases kb) (auto simp: ka defs intro!: ans split: handle.split)
  next
    case ka: (KEnum x)
    show ?thesis
      using k(2) by (cases kb) (auto simp: ka defs intro!: ans split: handle.split)
  next
    case ka: (KFlags x)
    show ?thesis
      using k(2) by (cases kb) (auto simp: ka defs intro!: ans split: handle.split)
  next
    case ka: KResource
    show ?thesis
      using k(2) by (cases kb) (auto simp: ka defs intro!: ans split: handle.split)
  qed (use k in simp_all)
qed

lemma kind_tree_alias: "kind_tree f i (KType t) = f t"
  by (simp add: kind_tree_def)

lemma prim_not_kind_tree:
  assumes "kind_tree f i k = Prim t"
  shows "\<exists>s. k = KType s"
  using assms by (cases k) (auto simp: kind_tree_def split: handle.splits)

lemma decides_eq: "P = Q \<Longrightarrow> decides ok root R q P \<Longrightarrow> decides ok root R q Q"
  by simp

section \<open>Structural equality is equality of the unfolded types\<close>

context equivalence_store
begin

lemma same_root_decides: "decides ok root R (same_root finds a b) (R a = R b)"
proof (rule decidesI)
  fix u assume u: "ok u" "root u = R"
  obtain u1 where 1: "finds u a = Some (root u a, u1)" "ok u1" "root u1 = root u"
    using finds_law [OF u(1)] by blast
  obtain u2 where 2: "finds u1 b = Some (root u1 b, u2)" "ok u2" "root u2 = root u1"
    using finds_law [OF 1(2)] by blast
  show "\<exists>u'. same_root finds a b u = Inr (R a = R b, u') \<and> ok u' \<and> root u' = R"
    using 1 2 u by (auto simp: same_root_def)
qed

lemma decides_shortcut:
  assumes imp: "R a = R b \<Longrightarrow> P" and q: "decides ok root R q P"
  shows "decides ok root R (\<lambda>u. and_then (same_root finds a b u)
      (\<lambda>(eq, u). if eq then Inr (True, u) else q u)) P"
proof (rule decidesI)
  fix u assume u: "ok u" "root u = R"
  obtain u1 where 1: "same_root finds a b u = Inr (R a = R b, u1)" "ok u1" "root u1 = R"
    by (rule decidesE [OF same_root_decides u])
  obtain u2 where "q u1 = Inr (P, u2)" "ok u2" "root u2 = R"
    by (rule decidesE [OF q 1(2,3)])
  then show "\<exists>u'. and_then (same_root finds a b u) (\<lambda>(eq, u). if eq then Inr (True, u) else q u)
      = Inr (P, u') \<and> ok u' \<and> root u' = R"
    using 1 imp by auto
qed

lemma structural_equality:
  assumes ac: "acyclic_types r rk"
    and R: "\<And>x y. valid_id r x \<Longrightarrow> valid_id r y \<Longrightarrow> R x = R y \<Longrightarrow>
        tree_of r rk (TId x) = tree_of r rk (TId y)"
  shows "(valid_id r a \<and> valid_id r b \<and> 3 * (ty_rank rk (TId a) + ty_rank rk (TId b)) + 1 \<le> n \<longrightarrow>
      decides ok root R (is_structurally_equal finds r n a b)
        (tree_of r rk (TId a) = tree_of r rk (TId b))) \<and>
    (valid_id r a \<and> valid_ty r t \<and> 3 * (ty_rank rk (TId a) + ty_rank rk t) + 2 \<le> n \<longrightarrow>
      decides ok root R (type_id_equal_to_type finds r n a t)
        (tree_of r rk (TId a) = tree_of r rk t)) \<and>
    (valid_ty r s \<and> valid_ty r t \<and> 3 * (ty_rank rk s + ty_rank rk t) + 3 \<le> n \<longrightarrow>
      decides ok root R (types_equal finds r n s t) (tree_of r rk s = tree_of r rk t))"
proof (induction n arbitrary: a b s t)
  case 0
  then show ?case by simp
next
  case (Suc n)
  let ?T = "tree_of r rk"
  have se: "decides ok root R (is_structurally_equal finds r n a b) (?T (TId a) = ?T (TId b))"
    if "valid_id r a" "valid_id r b" "3 * (ty_rank rk (TId a) + ty_rank rk (TId b)) + 1 \<le> n" for a b
    using Suc.IH that by blast
  have tie: "decides ok root R (type_id_equal_to_type finds r n a t) (?T (TId a) = ?T t)"
    if "valid_id r a" "valid_ty r t" "3 * (ty_rank rk (TId a) + ty_rank rk t) + 2 \<le> n" for a t
    using Suc.IH that by blast
  have te: "decides ok root R (types_equal finds r n s t) (?T s = ?T t)"
    if "valid_ty r s" "valid_ty r t" "3 * (ty_rank rk s + ty_rank rk t) + 3 \<le> n" for s t
    using Suc.IH that by blast
  have rkI: "ty_rank rk (TId i) = Suc (rk i)" for i by (simp add: ty_rank_def)
  have peel: "valid_ty r u" "Suc (ty_rank rk u) \<le> ty_rank rk (TId i)" "?T (TId i) = ?T u"
    if "valid_id r i" "kind_at r i = KType u" for i u
    using acyclicD(2) [OF ac that(1), of u] tree_of_TId [OF ac that(1)] that(2)
    by (simp_all add: eq_types_def rkI kind_tree_alias)
  have A: "decides ok root R (is_structurally_equal finds r (Suc n) a b) (?T (TId a) = ?T (TId b))"
    if v: "valid_id r a" "valid_id r b" and n: "3 * (ty_rank rk (TId a) + ty_rank rk (TId b)) + 1 \<le> Suc n"
  proof -
    let ?se = "\<lambda>a b u. is_structurally_equal finds r n a b u"
    let ?tie = "\<lambda>a t u. type_id_equal_to_type finds r n a t u"
    let ?te = "\<lambda>s t u. types_equal finds r n s t u"
    have k: "decides ok root R (kinds_equal ?se ?tie ?te a b (kind_at r a) (kind_at r b))
        (?T (TId a) = ?T (TId b))"
    proof (cases "\<exists>u. kind_at r a = KType u")
      case True
      then obtain u where u: "kind_at r a = KType u" by auto
      note al = peel [OF v(1) u]
      have "decides ok root R (?tie b u) (?T (TId b) = ?T u)"
        by (rule tie [OF v(2) al(1)]) (use al(2) n in simp)
      then show ?thesis using al(3) by (simp add: kinds_equal_def u eq_commute)
    next
      case na: False
      show ?thesis
      proof (cases "\<exists>u. kind_at r b = KType u")
        case True
        then obtain u where u: "kind_at r b = KType u" by auto
        note al = peel [OF v(2) u]
        have "decides ok root R (?tie a u) (?T (TId a) = ?T u)"
          by (rule tie [OF v(1) al(1)]) (use al(2) n in simp)
        then show ?thesis using al(3) na by (cases "kind_at r a") (simp_all add: kinds_equal_def u)
      next
        case nb: False
        have te': "decides ok root R (?te s t) (?T s = ?T t)"
          if st: "s \<in> set (eq_types (kind_at r a))" "t \<in> set (eq_types (kind_at r b))" for s t
        proof -
          note ds = acyclicD(2) [OF ac v(1) st(1)] and dt = acyclicD(2) [OF ac v(2) st(2)]
          show ?thesis by (rule te) (use ds dt n in \<open>simp_all add: rkI\<close>)
        qed
        have se': "decides ok root R (?se x y) (?T (TId x) = ?T (TId y))"
          if st: "TId x \<in> set (eq_types (kind_at r a))" "TId y \<in> set (eq_types (kind_at r b))" for x y
        proof -
          note ds = acyclicD(2) [OF ac v(1) st(1)] and dt = acyclicD(2) [OF ac v(2) st(2)]
          show ?thesis by (rule se) (use ds dt n in \<open>simp_all add: rkI valid_ty_def\<close>)
        qed
        have "decides ok root R (same_kind ?se ?te a b (kind_at r a) (kind_at r b))
            (kind_tree ?T a (kind_at r a) = kind_tree ?T b (kind_at r b))"
          by (rule same_kind_decides) (use te' se' na nb acyclicD(1) [OF ac v(1)] in auto)
        moreover have "kinds_equal ?se ?tie ?te a b (kind_at r a) (kind_at r b) =
            same_kind ?se ?te a b (kind_at r a) (kind_at r b)"
          using na nb by (cases "kind_at r a"; cases "kind_at r b") (simp_all add: kinds_equal_def)
        ultimately show ?thesis by (simp add: tree_of_TId [OF ac] v)
      qed
    qed
    have "is_structurally_equal finds r (Suc n) a b = (\<lambda>u. and_then (same_root finds a b u)
        (\<lambda>(eq, u). if eq then Inr (True, u)
          else kinds_equal ?se ?tie ?te a b (kind_at r a) (kind_at r b) u))"
      using v by (simp add: fun_eq_iff)
    with decides_shortcut [OF R [OF v] k] show ?thesis by simp
  qed
  have B: "decides ok root R (type_id_equal_to_type finds r (Suc n) a t) (?T (TId a) = ?T t)"
    if v: "valid_id r a" "valid_ty r t" and n: "3 * (ty_rank rk (TId a) + ty_rank rk t) + 2 \<le> Suc n"
  proof (cases "\<exists>u. kind_at r a = KType u")
    case True
    then obtain u where u: "kind_at r a = KType u" by auto
    note al = peel [OF v(1) u]
    have "decides ok root R (types_equal finds r n u t) (?T u = ?T t)"
      by (rule te [OF al(1) v(2)]) (use al(2) n in simp)
    then show ?thesis using al(3) v(1) by (simp add: decides_def u)
  next
    case na: False
    show ?thesis
    proof (cases "\<exists>b. t = TId b")
      case True
      then obtain b where b: "t = TId b" by auto
      have "decides ok root R (is_structurally_equal finds r n a b) (?T (TId a) = ?T (TId b))"
        by (rule se [OF v(1)]) (use v(2) n in \<open>simp_all add: b valid_ty_def\<close>)
      then show ?thesis using na v(1)
        by (cases "kind_at r a") (simp_all add: decides_def b)
    next
      case False
      have "?T (TId a) \<noteq> ?T t"
        using prim_not_kind_tree [of ?T a "kind_at r a" t] na tree_of_TId [OF ac v(1)]
          tree_of_prim [of t r rk] False by auto
      then show ?thesis using na False v(1)
        by (cases "kind_at r a"; cases t) (simp_all add: decides_def)
    qed
  qed
  have C: "decides ok root R (types_equal finds r (Suc n) s t) (?T s = ?T t)"
    if v: "valid_ty r s" "valid_ty r t" and n: "3 * (ty_rank rk s + ty_rank rk t) + 3 \<le> Suc n"
  proof (cases "\<exists>a. s = TId a")
    case True
    then obtain a where a: "s = TId a" by auto
    have "decides ok root R (type_id_equal_to_type finds r n a t) (?T (TId a) = ?T t)"
      by (rule tie) (use v n in \<open>simp_all add: a valid_ty_def\<close>)
    then show ?thesis by (simp add: a decides_def)
  next
    case sp: False
    show ?thesis
    proof (cases "\<exists>b. t = TId b")
      case True
      then obtain b where b: "t = TId b" by auto
      have "decides ok root R (type_id_equal_to_type finds r n b s) (?T (TId b) = ?T s)"
        by (rule tie) (use v n in \<open>simp_all add: b valid_ty_def\<close>)
      then show ?thesis using sp by (cases s) (auto simp: b decides_def eq_commute)
    next
      case False
      then show ?thesis
        using sp tree_of_prim [of s r rk] tree_of_prim [of t r rk]
        by (cases s; cases t) (simp_all add: decides_def)
    qed
  qed
  show ?case using A B C by blast
qed

end

end
