(* ===== verification/Type_Info.thy ===== *)
theory Type_Info
  imports Struct_Equal
begin

text \<open>
  \<open>TypeInfo\<close> and \<open>Types::analyze\<close> of \<open>crates/core/src/types.rs\<close>: what every type contains and how
  the functions of the worlds use it. The structural flags are specified by reachability through
  the parts of a type, the usage flags by the functions that mention it.
\<close>

section \<open>TypeInfo\<close>

record type_info =
  borrowed :: bool
  owned :: bool
  error :: bool
  has_list :: bool
  has_tuple :: bool
  has_resource :: bool
  has_borrow_handle :: bool
  has_own_handle :: bool

definition no_info :: type_info where
  "no_info = \<lparr>borrowed = False, owned = False, error = False, has_list = False, has_tuple = False,
     has_resource = False, has_borrow_handle = False, has_own_handle = False\<rparr>"

definition bitor :: "type_info \<Rightarrow> type_info \<Rightarrow> type_info" where
  "bitor x y =
     \<lparr>borrowed = borrowed x \<or> borrowed y, owned = owned x \<or> owned y, error = error x \<or> error y,
      has_list = has_list x \<or> has_list y, has_tuple = has_tuple x \<or> has_tuple y,
      has_resource = has_resource x \<or> has_resource y,
      has_borrow_handle = has_borrow_handle x \<or> has_borrow_handle y,
      has_own_handle = has_own_handle x \<or> has_own_handle y\<rparr>"

definition is_clone :: "type_info \<Rightarrow> bool" where
  "is_clone x \<longleftrightarrow> \<not> has_resource x"

definition is_copy :: "type_info \<Rightarrow> bool" where
  "is_copy x \<longleftrightarrow> \<not> has_list x \<and> \<not> has_resource x"

lemma bitor_laws [simp]:
  "bitor no_info x = x" "bitor x no_info = x" "bitor x x = x"
  by (simp_all add: bitor_def no_info_def)

lemma bitor_assoc: "bitor (bitor x y) z = bitor x (bitor y z)"
  by (simp add: bitor_def disj_assoc)

lemma bitor_commute: "bitor x y = bitor y x"
  by (auto simp: bitor_def)

section \<open>Computing the structural flags\<close>

type_synonym infos = "tid \<Rightarrow> type_info option"

text \<open>\<open>for x in xs { info |= f(x) }\<close>\<close>

fun or_all ::
    "('x \<Rightarrow> infos \<Rightarrow> (type_info \<times> infos) res) \<Rightarrow> 'x list \<Rightarrow> type_info \<Rightarrow> infos
      \<Rightarrow> (type_info \<times> infos) res" where
  "or_all f [] info m = Inr (info, m)"
| "or_all f (x # xs) info m = and_then (f x m) (\<lambda>(i, m). or_all f xs (bitor info i) m)"

definition optional_type_info ::
    "(ty \<Rightarrow> infos \<Rightarrow> (type_info \<times> infos) res) \<Rightarrow> ty option \<Rightarrow> infos \<Rightarrow> (type_info \<times> infos) res" where
  "optional_type_info ti t m = (case t of None \<Rightarrow> Inr (no_info, m) | Some t \<Rightarrow> ti t m)"

definition kind_type_info ::
    "(ty \<Rightarrow> infos \<Rightarrow> (type_info \<times> infos) res) \<Rightarrow> kind \<Rightarrow> infos \<Rightarrow> (type_info \<times> infos) res" where
  "kind_type_info ti k m =
     (case k of
        KRecord fs \<Rightarrow> or_all ti (map snd fs) no_info m
      | KResource \<Rightarrow> Inr (no_info\<lparr>has_resource := True\<rparr>, m)
      | KHandle (Borrow _) \<Rightarrow>
          Inr (no_info\<lparr>has_borrow_handle := True, has_resource := True\<rparr>, m)
      | KHandle (Own _) \<Rightarrow> Inr (no_info\<lparr>has_own_handle := True, has_resource := True\<rparr>, m)
      | KTuple ts \<Rightarrow>
          and_then (or_all ti ts no_info m) (\<lambda>(i, m). Inr (i\<lparr>has_tuple := True\<rparr>, m))
      | KFlags _ \<Rightarrow> Inr (no_info, m)
      | KEnum _ \<Rightarrow> Inr (no_info, m)
      | KVariant cs \<Rightarrow> or_all (optional_type_info ti) (map snd cs) no_info m
      | KList t \<Rightarrow> and_then (ti t m) (\<lambda>(i, m). Inr (i\<lparr>has_list := True\<rparr>, m))
      | KType t \<Rightarrow> ti t m
      | KOption t \<Rightarrow> ti t m
      | KResult a b \<Rightarrow>
          and_then (optional_type_info ti a m) (\<lambda>(i, m).
            and_then (optional_type_info ti b m) (\<lambda>(j, m). Inr (bitor i j, m)))
      | KFuture _ \<Rightarrow> Inr (no_info\<lparr>has_resource := True, has_own_handle := True\<rparr>, m)
      | KStream _ \<Rightarrow> Inr (no_info\<lparr>has_resource := True, has_own_handle := True\<rparr>, m)
      | KFixedLengthList t _ \<Rightarrow> ti t m
      | KMap a b \<Rightarrow>
          and_then (ti a m) (\<lambda>(i, m).
            and_then (ti b m) (\<lambda>(j, m). Inr ((bitor i j)\<lparr>has_list := True\<rparr>, m)))
      | KUnknown \<Rightarrow> Inl Unreachable_Code)"

fun type_id_info :: "resolve \<Rightarrow> nat \<Rightarrow> tid \<Rightarrow> infos \<Rightarrow> (type_info \<times> infos) res"
and type_info_of :: "resolve \<Rightarrow> nat \<Rightarrow> ty \<Rightarrow> infos \<Rightarrow> (type_info \<times> infos) res" where
  "type_id_info r 0 i m = Inl Out_Of_Fuel"
| "type_id_info r (Suc n) i m =
     (case m i of
        Some info \<Rightarrow> Inr (info, m)
      | None \<Rightarrow>
          and_then (type_at r i) (\<lambda>td.
            and_then (kind_type_info (\<lambda>t m. type_info_of r n t m) (td_kind td) m) (\<lambda>(info, m).
              if m i \<noteq> None then Inl Assert_Failed else Inr (info, m(i \<mapsto> info)))))"
| "type_info_of r 0 t m = Inl Out_Of_Fuel"
| "type_info_of r (Suc n) t m =
     (case t of
        TString \<Rightarrow> Inr (no_info\<lparr>has_list := True\<rparr>, m)
      | TErrorContext \<Rightarrow> Inr (no_info\<lparr>has_resource := True\<rparr>, m)
      | TId i \<Rightarrow> type_id_info r n i m
      | _ \<Rightarrow> Inr (no_info, m))"

section \<open>The specification by reachability\<close>

text \<open>The types whose flags a kind inherits.\<close>

definition parts :: "kind \<Rightarrow> ty list" where
  "parts k =
     (case k of
        KHandle _ \<Rightarrow> []
      | KFuture _ \<Rightarrow> []
      | KStream _ \<Rightarrow> []
      | k \<Rightarrow> eq_types k)"

inductive contains :: "resolve \<Rightarrow> (ty \<Rightarrow> bool) \<Rightarrow> ty \<Rightarrow> bool" for r P where
  here: "P t \<Longrightarrow> contains r P t"
| inside: "u \<in> set (parts (kind_at r i)) \<Longrightarrow> contains r P u \<Longrightarrow> contains r P (TId i)"

inductive_cases contains_TIdE: "contains r P (TId i)"

definition is_list_type :: "resolve \<Rightarrow> ty \<Rightarrow> bool" where
  "is_list_type r t =
     (case t of
        TString \<Rightarrow> True
      | TId i \<Rightarrow> (case kind_at r i of KList _ \<Rightarrow> True | KMap _ _ \<Rightarrow> True | _ \<Rightarrow> False)
      | _ \<Rightarrow> False)"

definition is_tuple_type :: "resolve \<Rightarrow> ty \<Rightarrow> bool" where
  "is_tuple_type r t = (case t of TId i \<Rightarrow> (case kind_at r i of KTuple _ \<Rightarrow> True | _ \<Rightarrow> False) | _ \<Rightarrow> False)"

definition is_resource_type :: "resolve \<Rightarrow> ty \<Rightarrow> bool" where
  "is_resource_type r t =
     (case t of
        TErrorContext \<Rightarrow> True
      | TId i \<Rightarrow>
          (case kind_at r i of
             KResource \<Rightarrow> True | KHandle _ \<Rightarrow> True | KFuture _ \<Rightarrow> True | KStream _ \<Rightarrow> True | _ \<Rightarrow> False)
      | _ \<Rightarrow> False)"

definition is_borrow_type :: "resolve \<Rightarrow> ty \<Rightarrow> bool" where
  "is_borrow_type r t =
     (case t of TId i \<Rightarrow> (case kind_at r i of KHandle (Borrow _) \<Rightarrow> True | _ \<Rightarrow> False) | _ \<Rightarrow> False)"

definition is_own_type :: "resolve \<Rightarrow> ty \<Rightarrow> bool" where
  "is_own_type r t =
     (case t of
        TId i \<Rightarrow>
          (case kind_at r i of
             KHandle (Own _) \<Rightarrow> True | KFuture _ \<Rightarrow> True | KStream _ \<Rightarrow> True | _ \<Rightarrow> False)
      | _ \<Rightarrow> False)"

text \<open>The info of a type that no function has been seen to use.\<close>

definition info_spec :: "resolve \<Rightarrow> ty \<Rightarrow> type_info" where
  "info_spec r t =
     no_info
       \<lparr>has_list := contains r (is_list_type r) t,
        has_tuple := contains r (is_tuple_type r) t,
        has_resource := contains r (is_resource_type r) t,
        has_borrow_handle := contains r (is_borrow_type r) t,
        has_own_handle := contains r (is_own_type r) t\<rparr>"

text \<open>The structural flags of an info.\<close>

definition structural :: "type_info \<Rightarrow> type_info" where
  "structural x = x\<lparr>borrowed := False, owned := False, error := False\<rparr>"

lemma structural_simps [simp]:
  "structural no_info = no_info"
  "structural (bitor x y) = bitor (structural x) (structural y)"
  "structural (x\<lparr>has_list := b\<rparr>) = (structural x)\<lparr>has_list := b\<rparr>"
  "structural (x\<lparr>has_tuple := b\<rparr>) = (structural x)\<lparr>has_tuple := b\<rparr>"
  "structural (x\<lparr>has_resource := b\<rparr>) = (structural x)\<lparr>has_resource := b\<rparr>"
  "structural (x\<lparr>has_own_handle := b\<rparr>) = (structural x)\<lparr>has_own_handle := b\<rparr>"
  "structural (x\<lparr>has_borrow_handle := b\<rparr>) = (structural x)\<lparr>has_borrow_handle := b\<rparr>"
  "structural (x\<lparr>borrowed := b\<rparr>) = structural x"
  "structural (x\<lparr>owned := b\<rparr>) = structural x"
  "structural (x\<lparr>error := b\<rparr>) = structural x"
  "structural (structural x) = structural x"
  by (simp_all add: structural_def no_info_def bitor_def)

lemma structural_info_spec [simp]: "structural (info_spec r t) = info_spec r t"
  by (simp add: info_spec_def)

text \<open>The info of an id from the infos of its parts.\<close>

definition or_list :: "type_info list \<Rightarrow> type_info" where
  "or_list xs = foldr bitor xs no_info"

lemma or_list_simps [simp]: "or_list [] = no_info" "or_list (x # xs) = bitor x (or_list xs)"
  by (simp_all add: or_list_def)

lemma or_list_append [simp]: "or_list (xs @ ys) = bitor (or_list xs) (or_list ys)"
  by (induction xs) (simp_all add: bitor_assoc)

lemma contains_TId:
  "contains r P (TId i) \<longleftrightarrow> P (TId i) \<or> (\<exists>u \<in> set (parts (kind_at r i)). contains r P u)"
  by (auto intro: here inside elim: contains_TIdE)

lemma contains_prim: "\<forall>i. t \<noteq> TId i \<Longrightarrow> contains r P t = P t"
  by (auto intro: here elim: contains.cases)

lemma or_list_info_spec:
  "or_list (map (info_spec r) ts) = no_info
     \<lparr>has_list := \<exists>t \<in> set ts. contains r (is_list_type r) t,
      has_tuple := \<exists>t \<in> set ts. contains r (is_tuple_type r) t,
      has_resource := \<exists>t \<in> set ts. contains r (is_resource_type r) t,
      has_borrow_handle := \<exists>t \<in> set ts. contains r (is_borrow_type r) t,
      has_own_handle := \<exists>t \<in> set ts. contains r (is_own_type r) t\<rparr>"
  by (induction ts) (simp_all add: info_spec_def bitor_def no_info_def)

text \<open>The flags a kind adds itself.\<close>

definition own_flags :: "kind \<Rightarrow> type_info" where
  "own_flags k =
     (case k of
        KResource \<Rightarrow> no_info\<lparr>has_resource := True\<rparr>
      | KHandle (Borrow _) \<Rightarrow> no_info\<lparr>has_borrow_handle := True, has_resource := True\<rparr>
      | KHandle (Own _) \<Rightarrow> no_info\<lparr>has_own_handle := True, has_resource := True\<rparr>
      | KTuple _ \<Rightarrow> no_info\<lparr>has_tuple := True\<rparr>
      | KList _ \<Rightarrow> no_info\<lparr>has_list := True\<rparr>
      | KMap _ _ \<Rightarrow> no_info\<lparr>has_list := True\<rparr>
      | KFuture _ \<Rightarrow> no_info\<lparr>has_resource := True, has_own_handle := True\<rparr>
      | KStream _ \<Rightarrow> no_info\<lparr>has_resource := True, has_own_handle := True\<rparr>
      | _ \<Rightarrow> no_info)"

lemma info_spec_TId:
  "info_spec r (TId i) = bitor (or_list (map (info_spec r) (parts (kind_at r i)))) (own_flags (kind_at r i))"
proof -
  have "info_spec r (TId i) = bitor (no_info
     \<lparr>has_list := \<exists>t \<in> set (parts (kind_at r i)). contains r (is_list_type r) t,
      has_tuple := \<exists>t \<in> set (parts (kind_at r i)). contains r (is_tuple_type r) t,
      has_resource := \<exists>t \<in> set (parts (kind_at r i)). contains r (is_resource_type r) t,
      has_borrow_handle := \<exists>t \<in> set (parts (kind_at r i)). contains r (is_borrow_type r) t,
      has_own_handle := \<exists>t \<in> set (parts (kind_at r i)). contains r (is_own_type r) t\<rparr>)
     (own_flags (kind_at r i))"
    unfolding info_spec_def contains_TId bitor_def
    by (cases "kind_at r i")
      (auto simp: no_info_def own_flags_def is_list_type_def is_tuple_type_def is_resource_type_def
        is_borrow_type_def is_own_type_def split: handle.splits)
  then show ?thesis by (simp add: or_list_info_spec)
qed

section \<open>The memoised computation meets the specification\<close>

text \<open>Every cached info is that of its id.\<close>

definition memo_ok :: "resolve \<Rightarrow> infos \<Rightarrow> bool" where
  "memo_ok r m \<longleftrightarrow> (\<forall>i x. m i = Some x \<longrightarrow> valid_id r i \<and> x = info_spec r (TId i))"

text \<open>\<open>g\<close> yields the info \<open>x\<close>, keeps the cache and only caches ids of a rank below \<open>d\<close>.\<close>

definition yields ::
    "resolve \<Rightarrow> (tid \<Rightarrow> nat) \<Rightarrow> nat \<Rightarrow> (infos \<Rightarrow> (type_info \<times> infos) res) \<Rightarrow> type_info \<Rightarrow> bool" where
  "yields r rk d g x \<longleftrightarrow>
     (\<forall>m. memo_ok r m \<longrightarrow>
        (\<exists>m'. g m = Inr (x, m') \<and> memo_ok r m' \<and> m \<subseteq>\<^sub>m m' \<and> (\<forall>j. m' j \<noteq> m j \<longrightarrow> rk j < d)))"

lemma yieldsE:
  assumes "yields r rk d g x" "memo_ok r m"
  obtains m' where "g m = Inr (x, m')" "memo_ok r m'" "m \<subseteq>\<^sub>m m'" "\<And>j. m' j \<noteq> m j \<Longrightarrow> rk j < d"
  using assms unfolding yields_def by blast

lemma yields_pure: "(\<And>m. g m = Inr (x, m)) \<Longrightarrow> yields r rk d g x"
  unfolding yields_def using map_le_refl by fastforce

lemma yields_mono: "yields r rk d g x \<Longrightarrow> d \<le> e \<Longrightarrow> yields r rk e g x"
  unfolding yields_def by (meson less_le_trans)

lemma yields_bind:
  assumes "yields r rk d g x" "yields r rk d h y" "\<And>m. k x m = h m"
  shows "yields r rk d (\<lambda>m. and_then (g m) (\<lambda>(i, m). and_then (k i m) (\<lambda>(j, m). Inr (c i j, m)))) (c x y)"
  unfolding yields_def
proof (intro allI impI)
  fix m assume "memo_ok r m"
  from yieldsE [OF assms(1) this] obtain m1 where 1: "g m = Inr (x, m1)" "memo_ok r m1" "m \<subseteq>\<^sub>m m1"
    "\<And>j. m1 j \<noteq> m j \<Longrightarrow> rk j < d" by blast
  from yieldsE [OF assms(2) 1(2)] obtain m2 where 2: "h m1 = Inr (y, m2)" "memo_ok r m2" "m1 \<subseteq>\<^sub>m m2"
    "\<And>j. m2 j \<noteq> m1 j \<Longrightarrow> rk j < d" by blast
  have "rk j < d" if "m2 j \<noteq> m j" for j using 1(4) 2(4) that by metis
  then show "\<exists>m'. and_then (g m) (\<lambda>(i, m). and_then (k i m) (\<lambda>(j, m). Inr (c i j, m))) = Inr (c x y, m') \<and>
      memo_ok r m' \<and> m \<subseteq>\<^sub>m m' \<and> (\<forall>j. m' j \<noteq> m j \<longrightarrow> rk j < d)"
    using 1 2 assms(3) map_le_trans by auto
qed

lemma yields_map:
  assumes "yields r rk d g x"
  shows "yields r rk d (\<lambda>m. and_then (g m) (\<lambda>(i, m). Inr (c i, m))) (c x)"
  using assms unfolding yields_def by fastforce

lemma yields_or_all:
  assumes "\<And>x. x \<in> set xs \<Longrightarrow> yields r rk d (f x) (s x)"
  shows "yields r rk d (or_all f xs info) (bitor info (or_list (map s xs)))"
  using assms
proof (induction xs arbitrary: info)
  case Nil
  then show ?case by (auto intro: yields_pure)
next
  case (Cons x xs)
  have x: "yields r rk d (f x) (s x)" using Cons.prems by simp
  have xs: "yields r rk d (or_all f xs (bitor info (s x))) (bitor info (or_list (map s (x # xs))))"
    using Cons.IH [of "bitor info (s x)"] Cons.prems by (simp add: bitor_assoc)
  show ?case
    using yields_bind [OF x xs, of "\<lambda>i. or_all f xs (bitor info i)" "\<lambda>i j. j"]
    by (simp add: yields_def)
qed

lemma yields_optional:
  assumes "\<And>u. t = Some u \<Longrightarrow> yields r rk d (ti u) (s u)"
  shows "yields r rk d (optional_type_info ti t) (case t of None \<Rightarrow> no_info | Some u \<Rightarrow> s u)"
  using assms by (cases t) (auto simp: optional_type_info_def [abs_def] intro: yields_pure)

lemma or_list_options:
  "or_list (map s (concat (map (\<lambda>c. case f c of None \<Rightarrow> [] | Some t \<Rightarrow> [t]) cs)))
    = or_list (map (\<lambda>c. case f c of None \<Rightarrow> no_info | Some t \<Rightarrow> s t) cs)"
  by (induction cs) (auto split: option.split)

lemma kind_type_info_yields:
  assumes "\<And>u. u \<in> set (parts k) \<Longrightarrow> yields r rk d (ti u) (info_spec r u)" "k \<noteq> KUnknown"
  shows "yields r rk d (kind_type_info ti k) (bitor (or_list (map (info_spec r) (parts k))) (own_flags k))"
proof -
  note defs = parts_def eq_types_def own_flags_def
  have upd: "bitor x (no_info\<lparr>has_list := True\<rparr>) = x\<lparr>has_list := True\<rparr>"
    "bitor x (no_info\<lparr>has_tuple := True\<rparr>) = x\<lparr>has_tuple := True\<rparr>" for x
    by (simp_all add: bitor_def no_info_def)
  show ?thesis
  proof (cases k)
    case (KRecord fs)
    then have "yields r rk d (or_all ti (map snd fs) no_info)
        (bitor no_info (or_list (map (info_spec r) (map snd fs))))"
      by (intro yields_or_all) (use assms(1) in \<open>simp add: defs\<close>)
    then show ?thesis by (simp add: KRecord kind_type_info_def defs yields_def)
  next
    case (KTuple ts)
    then have "yields r rk d (or_all ti ts no_info) (bitor no_info (or_list (map (info_spec r) ts)))"
      by (intro yields_or_all) (use assms(1) in \<open>simp add: defs\<close>)
    from yields_map [OF this, of "\<lambda>i. i\<lparr>has_tuple := True\<rparr>"] show ?thesis
      by (simp add: KTuple kind_type_info_def defs yields_def upd)
  next
    case (KVariant cs)
    have part: "u \<in> set (parts k)" if u: "Some u \<in> set (map snd cs)" for u
    proof -
      obtain c where "c \<in> set cs" "snd c = Some u" using u by auto
      then show ?thesis by (auto simp: KVariant parts_def eq_types_def intro!: bexI [of _ c])
    qed
    have "yields r rk d (or_all (optional_type_info ti) (map snd cs) no_info)
        (bitor no_info (or_list (map (\<lambda>t. case t of None \<Rightarrow> no_info | Some u \<Rightarrow> info_spec r u) (map snd cs))))"
      by (intro yields_or_all yields_optional assms(1) part) simp
    moreover have "or_list (map (info_spec r) (parts k)) =
        or_list (map (\<lambda>t. case t of None \<Rightarrow> no_info | Some u \<Rightarrow> info_spec r u) (map snd cs))"
      using or_list_options [of "info_spec r" snd cs]
      by (simp only: KVariant parts_def eq_types_def kind.case map_map comp_def)
    ultimately show ?thesis
      by (simp add: KVariant kind_type_info_def [abs_def] own_flags_def)
  next
    case (KResult a b)
    have "yields r rk d (optional_type_info ti a) (case a of None \<Rightarrow> no_info | Some u \<Rightarrow> info_spec r u)"
      "yields r rk d (optional_type_info ti b) (case b of None \<Rightarrow> no_info | Some u \<Rightarrow> info_spec r u)"
      by (rule yields_optional; use assms(1) in \<open>simp add: KResult defs\<close>)+
    from yields_bind [OF this, of "\<lambda>_. optional_type_info ti b" bitor] show ?thesis
      by (simp add: KResult kind_type_info_def defs yields_def bitor_commute split: option.splits)
  next
    case (KMap a b)
    have "yields r rk d (ti a) (info_spec r a)" "yields r rk d (ti b) (info_spec r b)"
      using assms(1) by (simp_all add: KMap defs)
    from yields_bind [OF this, of "\<lambda>_. ti b" "\<lambda>i j. (bitor i j)\<lparr>has_list := True\<rparr>"] show ?thesis
      by (simp add: KMap kind_type_info_def defs yields_def upd)
  next
    case (KList t)
    then have "yields r rk d (ti t) (info_spec r t)" using assms(1) by (simp add: defs)
    from yields_map [OF this, of "\<lambda>i. i\<lparr>has_list := True\<rparr>"] show ?thesis
      by (simp add: KList kind_type_info_def defs yields_def upd)
  next
    case (KHandle h)
    then show ?thesis
      by (cases h) (simp_all add: kind_type_info_def [abs_def] defs yields_pure)
  qed (use assms in \<open>simp_all add: kind_type_info_def [abs_def] defs yields_pure\<close>)
qed

lemma parts_eq_types: "u \<in> set (parts k) \<Longrightarrow> u \<in> set (eq_types k)"
  by (cases k) (simp_all add: parts_def)

lemma type_info_yields:
  assumes ac: "acyclic_types r rk"
  shows "(valid_id r i \<and> 2 * Suc (rk i) \<le> n \<longrightarrow>
      yields r rk (Suc (rk i)) (type_id_info r n i) (info_spec r (TId i))) \<and>
    (valid_ty r t \<and> 2 * ty_rank rk t + 1 \<le> n \<longrightarrow>
      yields r rk (ty_rank rk t) (type_info_of r n t) (info_spec r t))"
proof (induction n arbitrary: i t)
  case 0
  then show ?case by simp
next
  case (Suc n)
  have A: "yields r rk (Suc (rk i)) (type_id_info r (Suc n) i) (info_spec r (TId i))"
    if v: "valid_id r i" and n: "2 * Suc (rk i) \<le> Suc n"
    unfolding yields_def
  proof (intro allI impI)
    fix m assume m: "memo_ok r m"
    show "\<exists>m'. type_id_info r (Suc n) i m = Inr (info_spec r (TId i), m') \<and> memo_ok r m' \<and>
        m \<subseteq>\<^sub>m m' \<and> (\<forall>j. m' j \<noteq> m j \<longrightarrow> rk j < Suc (rk i))"
    proof (cases "m i")
      case (Some x)
      then show ?thesis using m by (auto simp: memo_ok_def)
    next
      case None
      have "yields r rk (rk i) (type_info_of r n u) (info_spec r u)"
        if u: "u \<in> set (parts (kind_at r i))" for u
      proof -
        note d = acyclicD(2) [OF ac v parts_eq_types [OF u]]
        then have "yields r rk (ty_rank rk u) (type_info_of r n u) (info_spec r u)"
          using Suc.IH [of i u] n by auto
        then show ?thesis by (rule yields_mono) (use d in simp)
      qed
      from kind_type_info_yields [where ti = "type_info_of r n", OF this acyclicD(1) [OF ac v]]
      have "yields r rk (rk i) (kind_type_info (type_info_of r n) (kind_at r i)) (info_spec r (TId i))"
        by (simp add: info_spec_TId)
      from yieldsE [OF this m] obtain m1 where
        1: "kind_type_info (type_info_of r n) (kind_at r i) m = Inr (info_spec r (TId i), m1)"
          "memo_ok r m1" "m \<subseteq>\<^sub>m m1" "\<And>j. m1 j \<noteq> m j \<Longrightarrow> rk j < rk i" by blast
      have m1i: "m1 i = None" using 1(4) [of i] None by fastforce
      then have "type_id_info r (Suc n) i m = Inr (info_spec r (TId i), m1(i \<mapsto> info_spec r (TId i)))"
        using None v 1(1) by simp
      moreover have "memo_ok r (m1(i \<mapsto> info_spec r (TId i)))" using 1(2) v by (simp add: memo_ok_def)
      moreover have "m \<subseteq>\<^sub>m m1(i \<mapsto> info_spec r (TId i))"
        using 1(3) None by (auto simp: map_le_def)
      moreover have "rk j < Suc (rk i)" if "(m1(i \<mapsto> info_spec r (TId i))) j \<noteq> m j" for j
        using that 1(4) [of j] by (cases "j = i") auto
      ultimately show ?thesis by blast
    qed
  qed
  have B: "yields r rk (ty_rank rk t) (type_info_of r (Suc n) t) (info_spec r t)"
    if v: "valid_ty r t" and n: "2 * ty_rank rk t + 1 \<le> Suc n"
  proof (cases "\<exists>i. t = TId i")
    case True
    then obtain i where i: "t = TId i" by auto
    have "yields r rk (Suc (rk i)) (type_id_info r n i) (info_spec r (TId i))"
      using Suc.IH [of i t] v n by (simp add: i valid_ty_def ty_rank_def)
    then show ?thesis by (simp add: i yields_def ty_rank_def)
  next
    case False
    then have "info_spec r t = (case t of TString \<Rightarrow> no_info\<lparr>has_list := True\<rparr>
        | TErrorContext \<Rightarrow> no_info\<lparr>has_resource := True\<rparr> | _ \<Rightarrow> no_info)"
      using contains_prim [of t r]
      by (cases t) (auto simp: info_spec_def is_list_type_def is_tuple_type_def is_resource_type_def
          is_borrow_type_def is_own_type_def no_info_def)
    then show ?thesis using False by (cases t) (auto intro!: yields_pure)
  qed
  show ?case using A B by blast
qed

end
