(* ===== verification/Type_Analysis.thy ===== *)
theory Type_Analysis
  imports Type_Info
begin

text \<open>
  \<open>Types::analyze\<close>, \<open>type_info_func\<close> and \<open>collect_equal_types\<close> of \<open>crates/core/src/types.rs\<close>.
  \<open>LiveTypes\<close> of \<open>wit_parser\<close> is a parameter: \<open>live ts\<close> are the ids live in the types \<open>ts\<close>.
\<close>

record types =
  t_infos :: infos
  t_equal :: union_find

section \<open>Usage flags\<close>

text \<open>\<open>self.type_info.get_mut(&id).unwrap()\<close> and an assignment to a flag.\<close>

definition mark :: "(type_info \<Rightarrow> type_info) \<Rightarrow> tid \<Rightarrow> infos \<Rightarrow> infos res" where
  "mark f i m = (case m i of None \<Rightarrow> Inl Unwrap_None | Some x \<Rightarrow> Inr (m(i \<mapsto> f x)))"

fun mark_named :: "resolve \<Rightarrow> (type_info \<Rightarrow> type_info) \<Rightarrow> tid list \<Rightarrow> infos \<Rightarrow> infos res" where
  "mark_named r f [] m = Inr m"
| "mark_named r f (i # ids) m =
     and_then (type_at r i) (\<lambda>td.
       and_then (if td_name td \<noteq> None then mark f i m else Inr m) (mark_named r f ids))"

fun visit_types :: "resolve \<Rightarrow> nat \<Rightarrow> ty list \<Rightarrow> infos \<Rightarrow> infos res" where
  "visit_types r n [] m = Inr m"
| "visit_types r n (t # ts) m =
     and_then (type_info_of r n t m) (\<lambda>(_, m). visit_types r n ts m)"

text \<open>The loop of \<open>resolve_type_definition_id\<close> does not end on a cyclic chain of aliases.\<close>

partial_function (option) resolve_type_definition_id :: "resolve \<Rightarrow> tid \<Rightarrow> tid res option" where
  "resolve_type_definition_id r i =
     (if valid_id r i then
        (case kind_at r i of
           KType (TId d) \<Rightarrow> resolve_type_definition_id r d
         | _ \<Rightarrow> Some (Inr i))
      else Some (Inl Index_Out_Of_Range))"

definition definition_id :: "resolve \<Rightarrow> tid \<Rightarrow> tid res" where
  "definition_id r i =
     (case resolve_type_definition_id r i of None \<Rightarrow> Inl Out_Of_Fuel | Some d \<Rightarrow> d)"

definition mark_error :: "resolve \<Rightarrow> ty option \<Rightarrow> infos \<Rightarrow> infos res" where
  "mark_error r result m =
     (case result of
        Some (TId i) \<Rightarrow>
          and_then (type_at r i) (\<lambda>td.
            case td_kind td of
              KResult _ (Some (TId j)) \<Rightarrow>
                and_then (definition_id r j) (\<lambda>d. mark (\<lambda>x. x\<lparr>error := True\<rparr>) d m)
            | _ \<Rightarrow> Inr m)
      | _ \<Rightarrow> Inr m)"

definition result_list :: "ty option \<Rightarrow> ty list" where
  "result_list x = (case x of None \<Rightarrow> [] | Some t \<Rightarrow> [t])"

definition type_info_func ::
    "resolve \<Rightarrow> (ty list \<Rightarrow> tid list) \<Rightarrow> nat \<Rightarrow> bool \<Rightarrow> func \<Rightarrow> infos \<Rightarrow> infos res" where
  "type_info_func r live n import f m =
     (let params = map snd (fn_params f) in
      and_then (visit_types r n params m) (\<lambda>m.
        and_then
          (mark_named r
            (if import then (\<lambda>x. x\<lparr>borrowed := True\<rparr>) else (\<lambda>x. x\<lparr>owned := True\<rparr>))
            (live params) m) (\<lambda>m.
          and_then (visit_types r n (result_list (fn_result f)) m) (\<lambda>m.
            and_then (mark_named r (\<lambda>x. x\<lparr>owned := True\<rparr>) (live (result_list (fn_result f))) m)
              (mark_error r (fn_result f))))))"

section \<open>The whole analysis\<close>

fun visit_ids :: "resolve \<Rightarrow> nat \<Rightarrow> tid list \<Rightarrow> infos \<Rightarrow> infos res" where
  "visit_ids r n [] m = Inr m"
| "visit_ids r n (i # ids) m = and_then (type_id_info r n i m) (\<lambda>(_, m). visit_ids r n ids m)"

fun visit_funcs ::
    "resolve \<Rightarrow> (ty list \<Rightarrow> tid list) \<Rightarrow> nat \<Rightarrow> (bool \<times> func) list \<Rightarrow> infos \<Rightarrow> infos res" where
  "visit_funcs r live n [] m = Inr m"
| "visit_funcs r live n ((import, f) # fs) m =
     and_then (type_info_func r live n import f m) (visit_funcs r live n fs)"

definition visit_item ::
    "resolve \<Rightarrow> (ty list \<Rightarrow> tid list) \<Rightarrow> nat \<Rightarrow> bool \<times> world_item \<Rightarrow> infos \<Rightarrow> infos res" where
  "visit_item r live n it m =
     (case snd it of
        WIFunction f \<Rightarrow> type_info_func r live n (fst it) f m
      | WIInterface i \<Rightarrow>
          and_then (index (r_interfaces r) i) (\<lambda>ifc.
            visit_funcs r live n (map (\<lambda>(_, f). (fst it, f)) (if_functions ifc)) m)
      | WIType _ \<Rightarrow> Inr m)"

fun visit_items ::
    "resolve \<Rightarrow> (ty list \<Rightarrow> tid list) \<Rightarrow> nat \<Rightarrow> (bool \<times> world_item) list \<Rightarrow> infos \<Rightarrow> infos res" where
  "visit_items r live n [] m = Inr m"
| "visit_items r live n (it # its) m = and_then (visit_item r live n it m) (visit_items r live n its)"

definition world_items :: "world \<Rightarrow> (bool \<times> world_item) list" where
  "world_items w = map (\<lambda>(_, it). (True, it)) (w_imports w) @ map (\<lambda>(_, it). (False, it)) (w_exports w)"

definition analyze :: "resolve \<Rightarrow> (ty list \<Rightarrow> tid list) \<Rightarrow> nat \<Rightarrow> types \<Rightarrow> types res" where
  "analyze r live n ts =
     and_then (visit_ids r n [0..<length (r_types r)] (t_infos ts)) (\<lambda>m.
       and_then (visit_items r live n (concat (map world_items (r_worlds r))) m) (\<lambda>m.
         Inr (ts\<lparr>t_infos := m\<rparr>)))"

definition get_info :: "types \<Rightarrow> tid \<Rightarrow> type_info res" where
  "get_info ts i = (case t_infos ts i of None \<Rightarrow> Inl Index_Out_Of_Range | Some x \<Rightarrow> Inr x)"

section \<open>Structurally equal types\<close>

text \<open>
  The inner loop over the earlier live types, with its \<open>continue\<close> and its \<open>break\<close>, then the outer
  loop; \<open>finds\<close> and \<open>unites\<close> are the methods of \<open>UnionFind\<close>.
\<close>

fun match_earlier ::
    "('u \<Rightarrow> tid \<Rightarrow> (tid \<times> 'u) option) \<Rightarrow> ('u \<Rightarrow> tid \<Rightarrow> tid \<Rightarrow> 'u option) \<Rightarrow> resolve \<Rightarrow> nat
      \<Rightarrow> tid \<Rightarrow> tid list \<Rightarrow> 'u \<Rightarrow> 'u res" where
  "match_earlier finds unites r n ty [] u = Inr u"
| "match_earlier finds unites r n ty (e # es) u =
     and_then (same_root finds ty e u) (\<lambda>(same, u).
       if same then match_earlier finds unites r n ty es u
       else
         and_then (is_structurally_equal finds r n ty e u) (\<lambda>(eq, u).
           if eq then (case unites u ty e of None \<Rightarrow> Inl Out_Of_Fuel | Some u \<Rightarrow> Inr u)
           else match_earlier finds unites r n ty es u))"

fun collect_loop ::
    "('u \<Rightarrow> tid \<Rightarrow> (tid \<times> 'u) option) \<Rightarrow> ('u \<Rightarrow> tid \<Rightarrow> tid \<Rightarrow> 'u option) \<Rightarrow> resolve \<Rightarrow> nat
      \<Rightarrow> (tid \<Rightarrow> bool) \<Rightarrow> tid list \<Rightarrow> tid list \<Rightarrow> 'u \<Rightarrow> 'u res" where
  "collect_loop finds unites r n may_alias earlier [] u = Inr u"
| "collect_loop finds unites r n may_alias earlier (ty # tys) u =
     (if \<not> may_alias ty then collect_loop finds unites r n may_alias (earlier @ [ty]) tys u
      else
        and_then (match_earlier finds unites r n ty earlier u)
          (collect_loop finds unites r n may_alias (earlier @ [ty]) tys))"

text \<open>Merging the infos: \<open>order\<close> is the order in which the hash map yields its keys.\<close>

definition find_res :: "union_find \<Rightarrow> tid \<Rightarrow> (tid \<times> union_find) res" where
  "find_res p i = (case find p i of None \<Rightarrow> Inl Out_Of_Fuel | Some x \<Rightarrow> Inr x)"

fun merge_infos ::
    "infos \<Rightarrow> tid list \<Rightarrow> union_find \<Rightarrow> infos \<Rightarrow> (infos \<times> union_find) res" where
  "merge_infos m [] p merged = Inr (merged, p)"
| "merge_infos m (i # order) p merged =
     and_then (find_res p i) (\<lambda>(rep, p).
       let old = (case merged rep of None \<Rightarrow> no_info | Some x \<Rightarrow> x);
           info = (case m i of None \<Rightarrow> no_info | Some x \<Rightarrow> x)
       in merge_infos m order p (merged(rep \<mapsto> bitor old info)))"

fun spread_infos :: "infos \<Rightarrow> tid list \<Rightarrow> union_find \<Rightarrow> infos \<Rightarrow> (infos \<times> union_find) res" where
  "spread_infos merged [] p m = Inr (m, p)"
| "spread_infos merged (i # order) p m =
     and_then (find_res p i) (\<lambda>(rep, p).
       spread_infos merged order p (case merged rep of None \<Rightarrow> m | Some x \<Rightarrow> m(i \<mapsto> x)))"

definition collect_equal_types ::
    "resolve \<Rightarrow> nat \<Rightarrow> tid list \<Rightarrow> (tid \<Rightarrow> bool) \<Rightarrow> tid list \<Rightarrow> types \<Rightarrow> types res" where
  "collect_equal_types r n live_types may_alias order ts =
     and_then (collect_loop find union r n may_alias [] live_types (t_equal ts)) (\<lambda>p.
       and_then (merge_infos (t_infos ts) order p Map.empty) (\<lambda>(merged, p).
         and_then (spread_infos merged order p (t_infos ts)) (\<lambda>(m, p).
           Inr \<lparr>t_infos = m, t_equal = p\<rparr>)))"

definition get_representative_type :: "types \<Rightarrow> tid \<Rightarrow> (tid \<times> types) res" where
  "get_representative_type ts i =
     and_then (find_res (t_equal ts) i) (\<lambda>(rep, p). Inr (rep, ts\<lparr>t_equal := p\<rparr>))"

section \<open>The classes found are the classes of equal types\<close>

text \<open>The earliest live type with the same tree.\<close>

definition first_equal :: "(tid \<Rightarrow> tree) \<Rightarrow> tid \<Rightarrow> tid list \<Rightarrow> tid option" where
  "first_equal T x es = List.find (\<lambda>e. T e = T x) es"

context equivalence_store
begin

definition sound_classes :: "(tid \<Rightarrow> tree) \<Rightarrow> (tid \<Rightarrow> bool) \<Rightarrow> 'u \<Rightarrow> bool" where
  "sound_classes T V u \<longleftrightarrow>
     ok u \<and> (\<forall>x y. V x \<and> V y \<and> root u x = root u y \<longrightarrow> T x = T y)"

lemma match_earlier_correct:
  assumes ac: "acyclic_types r rk" and T: "T = (\<lambda>i. tree_of r rk (TId i))"
    and u: "sound_classes T (valid_id r) u" and ty: "valid_id r ty" and es: "\<forall>e \<in> set es. valid_id r e"
    and n: "\<forall>e \<in> set (ty # es). 3 * (ty_rank rk (TId ty) + ty_rank rk (TId e)) + 1 \<le> n"
    and old: "\<And>x y. root u x = root u y \<Longrightarrow> x \<noteq> y \<Longrightarrow> valid_id r x \<and> valid_id r y"
  shows "\<exists>u'. match_earlier finds unites r n ty es u = Inr u' \<and> sound_classes T (valid_id r) u' \<and>
    (\<forall>x y. root u x = root u y \<longrightarrow> root u' x = root u' y) \<and>
    (\<forall>x y. root u' x = root u' y \<longrightarrow> x \<noteq> y \<longrightarrow> valid_id r x \<and> valid_id r y) \<and>
    (\<forall>e. first_equal T ty es = Some e \<longrightarrow> root u' ty = root u' e)"
  using u es n old
proof (induction es arbitrary: u)
  case Nil
  then show ?case by (simp add: first_equal_def)
next
  case (Cons e es)
  note okU = Cons.prems(1) [unfolded sound_classes_def, THEN conjunct1]
  have ve: "valid_id r e" using Cons.prems(2) by simp
  obtain u1 where 1: "same_root finds ty e u = Inr (root u ty = root u e, u1)" "ok u1" "root u1 = root u"
    by (rule decidesE [OF same_root_decides okU refl])
  have s1: "sound_classes T (valid_id r) u1" using Cons.prems(1) 1 by (simp add: sound_classes_def)
  have rest: "\<exists>u'. match_earlier finds unites r n ty es v = Inr u' \<and> sound_classes T (valid_id r) u' \<and>
    (\<forall>x y. root u x = root u y \<longrightarrow> root u' x = root u' y) \<and>
    (\<forall>x y. root u' x = root u' y \<longrightarrow> x \<noteq> y \<longrightarrow> valid_id r x \<and> valid_id r y) \<and>
    (\<forall>e. first_equal T ty es = Some e \<longrightarrow> root u' ty = root u' e)"
    if v: "sound_classes T (valid_id r) v" "root v = root u" for v
    unfolding v(2) [symmetric]
    by (rule Cons.IH [OF v(1)]) (use Cons.prems(2-4) v(2) in simp_all)
  show ?case
  proof (cases "root u ty = root u e")
    case True
    then have Te: "T ty = T e" using Cons.prems(1) ve ty unfolding sound_classes_def by blast
    obtain u' where u': "match_earlier finds unites r n ty es u1 = Inr u'" "sound_classes T (valid_id r) u'"
      "\<forall>x y. root u x = root u y \<longrightarrow> root u' x = root u' y"
      "\<forall>x y. root u' x = root u' y \<longrightarrow> x \<noteq> y \<longrightarrow> valid_id r x \<and> valid_id r y"
      using rest [OF s1 1(3)] by blast
    have "root u' ty = root u' e" using u'(3) True by blast
    moreover have "match_earlier finds unites r n ty (e # es) u = Inr u'" by (simp add: 1(1) True u'(1))
    moreover have "first_equal T ty (e # es) = Some e" using Te by (simp add: first_equal_def)
    ultimately show ?thesis using u'(1-4) by (metis option.inject)
  next
    case False
    have sound: "tree_of r rk (TId x) = tree_of r rk (TId y)"
      if "valid_id r x" "valid_id r y" "root u x = root u y" for x y
      using Cons.prems(1) that unfolding sound_classes_def T by blast
    have eq: "decides ok root (root u) (is_structurally_equal finds r n ty e) (T ty = T e)"
      unfolding T
      by (rule structural_equality [OF ac sound, THEN conjunct1, rule_format])
        (use ty ve Cons.prems(3) in simp_all)
    obtain u2 where 2: "is_structurally_equal finds r n ty e u1 = Inr (T ty = T e, u2)" "ok u2"
      "root u2 = root u"
      by (rule decidesE [OF eq 1(2,3)])
    have s2: "sound_classes T (valid_id r) u2" using Cons.prems(1) 2 by (simp add: sound_classes_def)
    show ?thesis
    proof (cases "T ty = T e")
      case Te: True
      obtain u3 where 3: "unites u2 ty e = Some u3" "ok u3"
        "\<forall>x y. root u3 x = root u3 y \<longleftrightarrow>
           root u2 x = root u2 y \<or> {root u2 x, root u2 y} = {root u2 ty, root u2 e}"
        using unites_law [OF 2(2), of ty e] by blast
      have old3: "valid_id r x \<and> valid_id r y" if xy: "root u3 x = root u3 y" "x \<noteq> y" for x y
      proof -
        have "valid_id r z" if "root u2 z = root u2 w" "valid_id r w" for z w
          using Cons.prems(4) [of z w] that 2(3) by (cases "z = w") auto
        moreover have "root u2 x = root u2 y \<or> {root u2 x, root u2 y} = {root u2 ty, root u2 e}"
          using xy 3(3) by simp
        ultimately show ?thesis
          using Cons.prems(4) [of x y] xy(2) 2(3) ty ve by (auto simp: doubleton_eq_iff)
      qed
      have "T x = T y" if "valid_id r x" "valid_id r y" "root u3 x = root u3 y" for x y
      proof -
        have "root u2 x = root u2 y \<or> {root u2 x, root u2 y} = {root u2 ty, root u2 e}"
          using that 3(3) by simp
        then consider "root u2 x = root u2 y" | "root u2 x = root u2 ty" "root u2 y = root u2 e"
          | "root u2 x = root u2 e" "root u2 y = root u2 ty"
          by (auto simp: doubleton_eq_iff)
        then show ?thesis
          using s2 Te that(1,2) ty ve unfolding sound_classes_def by cases metis+
      qed
      then have s3: "sound_classes T (valid_id r) u3" using 3(2) by (simp add: sound_classes_def)
      have "root u3 ty = root u3 e" using 3(3) by simp
      moreover have "\<forall>x y. root u x = root u y \<longrightarrow> root u3 x = root u3 y" using 3(3) 2(3) by auto
      moreover have "match_earlier finds unites r n ty (e # es) u = Inr u3"
        by (simp add: 1(1) 2(1) 3(1) False Te)
      moreover have fe: "first_equal T ty (e # es) = Some e" using Te by (simp add: first_equal_def)
      ultimately show ?thesis unfolding fe option.inject using s3 old3 by blast
    next
      case Te: False
      obtain u' where u': "match_earlier finds unites r n ty es u2 = Inr u'" "sound_classes T (valid_id r) u'"
        "\<forall>x y. root u x = root u y \<longrightarrow> root u' x = root u' y"
        "\<forall>x y. root u' x = root u' y \<longrightarrow> x \<noteq> y \<longrightarrow> valid_id r x \<and> valid_id r y"
        "\<forall>e. first_equal T ty es = Some e \<longrightarrow> root u' ty = root u' e"
        using rest [OF s2 2(3)] by blast
      have "match_earlier finds unites r n ty (e # es) u = Inr u'"
        by (simp add: 1(1) 2(1) False Te u'(1))
      moreover have fe: "first_equal T ty (e # es) = first_equal T ty es"
        using Te by (simp add: first_equal_def)
      ultimately show ?thesis unfolding fe using u'(2-5) by blast
    qed
  qed
qed

lemma first_equal_append:
  "first_equal T x (xs @ ys) =
     (case first_equal T x xs of None \<Rightarrow> first_equal T x ys | Some e \<Rightarrow> Some e)"
  by (induction xs) (simp_all add: first_equal_def)

lemma first_equal_None: "x \<in> set xs \<Longrightarrow> first_equal T x xs \<noteq> None"
  by (induction xs) (auto simp: first_equal_def)

lemma collect_loop_correct:
  assumes ac: "acyclic_types r rk" and T: "T = (\<lambda>i. tree_of r rk (TId i))"
    and v: "\<forall>e \<in> set (earlier @ tys). valid_id r e"
    and n: "\<forall>x \<in> set (earlier @ tys). \<forall>y \<in> set (earlier @ tys).
      3 * (ty_rank rk (TId x) + ty_rank rk (TId y)) + 1 \<le> n"
    and u: "sound_classes T (valid_id r) u"
    and old: "\<forall>x y. root u x = root u y \<longrightarrow> x \<noteq> y \<longrightarrow> valid_id r x \<and> valid_id r y"
    and seen: "\<forall>x \<in> set earlier. may_alias x \<longrightarrow>
      (\<forall>e. first_equal T x earlier = Some e \<longrightarrow> root u x = root u e)"
  shows "\<exists>u'. collect_loop finds unites r n may_alias earlier tys u = Inr u' \<and>
    sound_classes T (valid_id r) u' \<and>
    (\<forall>x \<in> set (earlier @ tys). may_alias x \<longrightarrow>
      (\<forall>e. first_equal T x (earlier @ tys) = Some e \<longrightarrow> root u' x = root u' e))"
  using v n u old seen
proof (induction tys arbitrary: earlier u)
  case Nil
  then show ?case by simp
next
  case (Cons ty tys)
  have keep: "first_equal T x (earlier @ [ty]) = first_equal T x earlier" if "x \<in> set earlier" for x
    using first_equal_None [OF that, of T] by (auto simp: first_equal_append)
  have new: "first_equal T ty (earlier @ [ty]) =
      (case first_equal T ty earlier of None \<Rightarrow> Some ty | Some e \<Rightarrow> Some e)"
    unfolding first_equal_append by (simp add: first_equal_def split: option.split)
  obtain v where v: "(if may_alias ty then match_earlier finds unites r n ty earlier u else Inr u) = Inr v"
    "sound_classes T (valid_id r) v" "\<forall>x y. root u x = root u y \<longrightarrow> root v x = root v y"
    "\<forall>x y. root v x = root v y \<longrightarrow> x \<noteq> y \<longrightarrow> valid_id r x \<and> valid_id r y"
    "may_alias ty \<longrightarrow> (\<forall>e. first_equal T ty earlier = Some e \<longrightarrow> root v ty = root v e)"
  proof (cases "may_alias ty")
    case False
    with that [of u] Cons.prems(3,4) show ?thesis by simp
  next
    case True
    have "\<exists>u'. match_earlier finds unites r n ty earlier u = Inr u' \<and> sound_classes T (valid_id r) u' \<and>
        (\<forall>x y. root u x = root u y \<longrightarrow> root u' x = root u' y) \<and>
        (\<forall>x y. root u' x = root u' y \<longrightarrow> x \<noteq> y \<longrightarrow> valid_id r x \<and> valid_id r y) \<and>
        (\<forall>e. first_equal T ty earlier = Some e \<longrightarrow> root u' ty = root u' e)"
      by (rule match_earlier_correct [OF ac T Cons.prems(3)]) (use Cons.prems(1,2,4) in simp_all)
    then obtain u' where u': "match_earlier finds unites r n ty earlier u = Inr u'"
      "sound_classes T (valid_id r) u'" "\<forall>x y. root u x = root u y \<longrightarrow> root u' x = root u' y"
      "\<forall>x y. root u' x = root u' y \<longrightarrow> x \<noteq> y \<longrightarrow> valid_id r x \<and> valid_id r y"
      "\<forall>e. first_equal T ty earlier = Some e \<longrightarrow> root u' ty = root u' e" by blast
    show ?thesis by (rule that [OF _ u'(2-4) impI [OF u'(5)]]) (simp add: True u'(1))
  qed
  have IH: "\<exists>u'. collect_loop finds unites r n may_alias (earlier @ [ty]) tys v = Inr u' \<and>
    sound_classes T (valid_id r) u' \<and>
    (\<forall>x \<in> set ((earlier @ [ty]) @ tys). may_alias x \<longrightarrow>
      (\<forall>e. first_equal T x ((earlier @ [ty]) @ tys) = Some e \<longrightarrow> root u' x = root u' e))"
  proof (rule Cons.IH [OF _ _ v(2,4)])
    show "\<forall>x \<in> set (earlier @ [ty]). may_alias x \<longrightarrow>
        (\<forall>e. first_equal T x (earlier @ [ty]) = Some e \<longrightarrow> root v x = root v e)"
    proof (intro ballI impI allI)
      fix x e assume x: "x \<in> set (earlier @ [ty])" "may_alias x" "first_equal T x (earlier @ [ty]) = Some e"
      show "root v x = root v e"
      proof (cases "x \<in> set earlier")
        case True
        then have "root u x = root u e" using Cons.prems(5) x(2,3) keep by metis
        then show ?thesis using v(3) by blast
      next
        case False
        then have "x = ty" using x(1) by simp
        then show ?thesis using v(5) x(2,3) new by (cases "first_equal T ty earlier") fastforce+
      qed
    qed
  qed (use Cons.prems(1,2) in simp_all)
  have "collect_loop finds unites r n may_alias earlier (ty # tys) u =
      collect_loop finds unites r n may_alias (earlier @ [ty]) tys v"
    using v(1) by (cases "may_alias ty") simp_all
  with IH show ?case by simp
qed

lemma collect_loop_classes:
  assumes ac: "acyclic_types r rk" and T: "T = (\<lambda>i. tree_of r rk (TId i))"
    and v: "\<forall>e \<in> set tys. valid_id r e"
    and n: "\<forall>x \<in> set tys. \<forall>y \<in> set tys. 3 * (ty_rank rk (TId x) + ty_rank rk (TId y)) + 1 \<le> n"
  shows "\<exists>u'. collect_loop finds unites r n may_alias [] tys fresh = Inr u' \<and> ok u' \<and>
    (\<forall>x y. valid_id r x \<and> valid_id r y \<and> root u' x = root u' y \<longrightarrow> T x = T y) \<and>
    (\<forall>x \<in> set tys. \<forall>y \<in> set tys. may_alias x \<and> may_alias y \<and> T x = T y \<longrightarrow> root u' x = root u' y)"
proof -
  have "sound_classes T (valid_id r) fresh"
    by (simp add: sound_classes_def fresh_ok fresh_root)
  then obtain u' where u': "collect_loop finds unites r n may_alias [] tys fresh = Inr u'"
    "sound_classes T (valid_id r) u'"
    "\<forall>x \<in> set tys. may_alias x \<longrightarrow> (\<forall>e. first_equal T x tys = Some e \<longrightarrow> root u' x = root u' e)"
    using collect_loop_correct [OF ac T, of "[]" tys n fresh may_alias] v n by (auto simp: fresh_root)
  have "root u' x = root u' y"
    if xy: "x \<in> set tys" "y \<in> set tys" "may_alias x" "may_alias y" "T x = T y" for x y
  proof -
    obtain e where e: "first_equal T x tys = Some e" using first_equal_None [OF xy(1), of T] by auto
    moreover have "first_equal T y tys = Some e" using e xy(5) by (simp add: first_equal_def)
    ultimately show ?thesis using u'(3) xy(1-4) by metis
  qed
  with u'(1,2) show ?thesis unfolding sound_classes_def by blast
qed

end

section \<open>Merged infos\<close>

lemma find_res_ok:
  assumes "uf_inv p"
  obtains p' where "find_res p i = Inr (rep p i, p')" "uf_inv p'" "rep p' = rep p"
  using find_correct [OF assms, of i] by (auto simp: find_res_def)

definition info_or :: "infos \<Rightarrow> tid \<Rightarrow> type_info" where
  "info_or m i = (case m i of None \<Rightarrow> no_info | Some x \<Rightarrow> x)"

lemma merge_infos_ok:
  assumes "uf_inv p"
  shows "\<exists>merged' p'. merge_infos m order p merged = Inr (merged', p') \<and> uf_inv p' \<and> rep p' = rep p \<and>
    (\<forall>k. info_or merged' k = bitor (info_or merged k)
       (or_list (map (info_or m) (filter (\<lambda>i. rep p i = k) order)))) \<and>
    (\<forall>i \<in> set order. merged' (rep p i) \<noteq> None) \<and> (\<forall>k. merged k \<noteq> None \<longrightarrow> merged' k \<noteq> None)"
  using assms
proof (induction order arbitrary: p merged)
  case Nil
  then show ?case by simp
next
  case (Cons i order)
  obtain p1 where p1: "find_res p i = Inr (rep p i, p1)" "uf_inv p1" "rep p1 = rep p"
    by (rule find_res_ok [OF Cons.prems])
  define m1 where "m1 = merged(rep p i \<mapsto> bitor (info_or merged (rep p i)) (info_or m i))"
  obtain merged' p' where IH: "merge_infos m order p1 m1 = Inr (merged', p')" "uf_inv p'" "rep p' = rep p1"
    "\<forall>k. info_or merged' k = bitor (info_or m1 k)
       (or_list (map (info_or m) (filter (\<lambda>i. rep p1 i = k) order)))"
    "\<forall>i \<in> set order. merged' (rep p1 i) \<noteq> None" "\<forall>k. m1 k \<noteq> None \<longrightarrow> merged' k \<noteq> None"
    using Cons.IH [OF p1(2)] by blast
  have "merge_infos m (i # order) p merged = Inr (merged', p')"
    using p1(1) IH(1) by (simp add: m1_def info_or_def)
  moreover have "info_or merged' k = bitor (info_or merged k)
       (or_list (map (info_or m) (filter (\<lambda>i. rep p i = k) (i # order))))" for k
    using IH(4) p1(3) by (auto simp: m1_def bitor_assoc info_or_def [of "fun_upd _ _ _"] simp del: fun_upd_apply)
      (auto simp: info_or_def bitor_assoc)
  moreover have "\<forall>j \<in> set (i # order). merged' (rep p j) \<noteq> None"
    using IH(5,6) p1(3) by (auto simp: m1_def)
  moreover have "\<forall>k. merged k \<noteq> None \<longrightarrow> merged' k \<noteq> None" using IH(6) by (auto simp: m1_def)
  ultimately show ?case using IH(2,3) p1(3) by auto
qed

lemma spread_infos_ok:
  assumes "uf_inv p"
  shows "\<exists>m' p'. spread_infos merged order p m = Inr (m', p') \<and> uf_inv p' \<and> rep p' = rep p \<and>
    (\<forall>k. m' k = (if k \<in> set order \<and> merged (rep p k) \<noteq> None then merged (rep p k) else m k))"
  using assms
proof (induction order arbitrary: p m)
  case Nil
  then show ?case by simp
next
  case (Cons i order)
  obtain p1 where p1: "find_res p i = Inr (rep p i, p1)" "uf_inv p1" "rep p1 = rep p"
    by (rule find_res_ok [OF Cons.prems])
  define m1 where "m1 = (case merged (rep p i) of None \<Rightarrow> m | Some x \<Rightarrow> m(i \<mapsto> x))"
  obtain m' p' where IH: "spread_infos merged order p1 m1 = Inr (m', p')" "uf_inv p'" "rep p' = rep p1"
    "\<forall>k. m' k = (if k \<in> set order \<and> merged (rep p1 k) \<noteq> None then merged (rep p1 k) else m1 k)"
    using Cons.IH [OF p1(2)] by blast
  have "spread_infos merged (i # order) p m = Inr (m', p')" using p1(1) IH(1) by (simp add: m1_def)
  moreover have "m' k = (if k \<in> set (i # order) \<and> merged (rep p k) \<noteq> None then merged (rep p k) else m k)" for k
    using IH(4) p1(3) by (auto simp: m1_def split: option.splits)
  ultimately show ?case using IH(2,3) p1(3) by auto
qed

lemma collect_equal_types_infos_of:
  assumes "collect_loop find union r n may_alias [] tys q = Inr p" "uf_inv p"
  obtains m' p' where "collect_equal_types r n tys may_alias order \<lparr>t_infos = m, t_equal = q\<rparr> =
      Inr \<lparr>t_infos = m', t_equal = p'\<rparr>" "uf_inv p'" "rep p' = rep p"
    "\<And>k. m' k = (if k \<in> set order
       then Some (or_list (map (info_or m) (filter (\<lambda>i. rep p i = rep p k) order))) else m k)"
proof -
  obtain merged p1 where 1: "merge_infos m order p Map.empty = Inr (merged, p1)" "uf_inv p1" "rep p1 = rep p"
    "\<forall>k. info_or merged k = bitor (info_or Map.empty k)
       (or_list (map (info_or m) (filter (\<lambda>i. rep p i = k) order)))"
    "\<forall>i \<in> set order. merged (rep p i) \<noteq> None"
    using merge_infos_ok [OF assms(2), of m order Map.empty] by blast
  obtain m' p2 where 2: "spread_infos merged order p1 m = Inr (m', p2)" "uf_inv p2" "rep p2 = rep p1"
    "\<forall>k. m' k = (if k \<in> set order \<and> merged (rep p1 k) \<noteq> None then merged (rep p1 k) else m k)"
    using spread_infos_ok [OF 1(2), of merged order m] by blast
  have "collect_equal_types r n tys may_alias order \<lparr>t_infos = m, t_equal = q\<rparr> =
      Inr \<lparr>t_infos = m', t_equal = p2\<rparr>"
    by (simp add: collect_equal_types_def assms(1) 1(1) 2(1))
  moreover have "rep p2 = rep p" using 1(3) 2(3) by simp
  moreover have "m' k = (if k \<in> set order
       then Some (or_list (map (info_or m) (filter (\<lambda>i. rep p i = rep p k) order))) else m k)" for k
  proof (cases "k \<in> set order")
    case True
    then obtain x where x: "merged (rep p k) = Some x" using 1(5) by auto
    have "info_or merged (rep p k) = x" by (simp add: info_or_def x)
    then show ?thesis using 1(3,4) 2(4) True x by (simp add: info_or_def [of Map.empty])
  next
    case False
    then show ?thesis using 2(4) by simp
  qed
  ultimately show ?thesis by (rule that [OF _ 2(2)])
qed

lemma get_representative_type_ok:
  assumes "uf_inv (t_equal ts)"
  shows "\<exists>p'. get_representative_type ts i = Inr (rep (t_equal ts) i, ts\<lparr>t_equal := p'\<rparr>) \<and>
    uf_inv p' \<and> rep p' = rep (t_equal ts)"
proof -
  obtain p' where "find_res (t_equal ts) i = Inr (rep (t_equal ts) i, p')" "uf_inv p'"
    "rep p' = rep (t_equal ts)"
    by (rule find_res_ok [OF assms])
  then show ?thesis by (intro exI [of _ p']) (simp add: get_representative_type_def)
qed

end
