(* ===== verification/Type_Usage.thy ===== *)
theory Type_Usage
  imports Type_Analysis
begin

text \<open>
  Which flags \<open>analyze\<close> of \<open>crates/core/src/types.rs\<close> leaves on every type: the structural flags of
  \<open>type_id_info\<close> and the usage flags of the functions it visits.
\<close>

section \<open>The usage flags\<close>

text \<open>The functions that \<open>analyze\<close> visits, in its order, with whether they are imports.\<close>

definition item_uses :: "resolve \<Rightarrow> bool \<times> world_item \<Rightarrow> (bool \<times> func) list" where
  "item_uses r it =
     (case snd it of
        WIFunction f \<Rightarrow> [(fst it, f)]
      | WIInterface i \<Rightarrow> map (\<lambda>(_, f). (fst it, f)) (if_functions (r_interfaces r ! i))
      | WIType _ \<Rightarrow> [])"

definition uses :: "resolve \<Rightarrow> (bool \<times> func) list" where
  "uses r = concat (map (item_uses r) (concat (map world_items (r_worlds r))))"

definition is_named :: "resolve \<Rightarrow> tid \<Rightarrow> bool" where
  "is_named r i \<longleftrightarrow> td_name (r_types r ! i) \<noteq> None"

text \<open>The id whose \<open>error\<close> flag a function's result type sets.\<close>

definition error_target :: "resolve \<Rightarrow> func \<Rightarrow> tid option" where
  "error_target r f =
     (case fn_result f of
        Some (TId i) \<Rightarrow>
          (case kind_at r i of
             KResult _ (Some (TId j)) \<Rightarrow> (case definition_id r j of Inl _ \<Rightarrow> None | Inr d \<Rightarrow> Some d)
           | _ \<Rightarrow> None)
      | _ \<Rightarrow> None)"

definition use_flags ::
    "resolve \<Rightarrow> (ty list \<Rightarrow> tid list) \<Rightarrow> bool \<times> func \<Rightarrow> tid \<Rightarrow> type_info \<Rightarrow> type_info" where
  "use_flags r live use i x =
     (let (import, f) = use;
          in_params = (is_named r i \<and> i \<in> set (live (map snd (fn_params f))));
          in_result = (is_named r i \<and> i \<in> set (live (result_list (fn_result f))))
      in x\<lparr>borrowed := borrowed x \<or> import \<and> in_params,
           owned := owned x \<or> \<not> import \<and> in_params \<or> in_result,
           error := error x \<or> error_target r f = Some i\<rparr>)"

definition uses_borrowed :: "resolve \<Rightarrow> (ty list \<Rightarrow> tid list) \<Rightarrow> tid \<Rightarrow> bool \<times> func \<Rightarrow> bool" where
  "uses_borrowed r live i u \<longleftrightarrow>
     fst u \<and> is_named r i \<and> i \<in> set (live (map snd (fn_params (snd u))))"

definition uses_owned :: "resolve \<Rightarrow> (ty list \<Rightarrow> tid list) \<Rightarrow> tid \<Rightarrow> bool \<times> func \<Rightarrow> bool" where
  "uses_owned r live i u \<longleftrightarrow> is_named r i \<and>
     (\<not> fst u \<and> i \<in> set (live (map snd (fn_params (snd u)))) \<or>
      i \<in> set (live (result_list (fn_result (snd u)))))"

definition apply_infos :: "(tid \<Rightarrow> type_info \<Rightarrow> type_info) \<Rightarrow> infos \<Rightarrow> infos" where
  "apply_infos g m = (\<lambda>i. map_option (g i) (m i))"

definition live_ok :: "resolve \<Rightarrow> (ty list \<Rightarrow> tid list) \<Rightarrow> bool" where
  "live_ok r live \<longleftrightarrow> (\<forall>ts. (\<forall>t \<in> set ts. valid_ty r t) \<longrightarrow> (\<forall>i \<in> set (live ts). valid_id r i))"

definition func_types_ok :: "resolve \<Rightarrow> func \<Rightarrow> bool" where
  "func_types_ok r f \<longleftrightarrow>
     (\<forall>t \<in> set (map snd (fn_params f) @ result_list (fn_result f)). valid_ty r t)"

definition cached :: "resolve \<Rightarrow> infos \<Rightarrow> bool" where
  "cached r m \<longleftrightarrow> (\<forall>i. valid_id r i \<longrightarrow> m i \<noteq> None)"

lemma apply_infos_simps:
  shows "cached r (apply_infos g m) = cached r m"
    and "apply_infos h (apply_infos g m) = apply_infos (\<lambda>i. h i \<circ> g i) m"
    and "apply_infos (\<lambda>i x. x) m = m"
proof -
  show "cached r (apply_infos g m) = cached r m" unfolding cached_def apply_infos_def by simp
  show "apply_infos h (apply_infos g m) = apply_infos (\<lambda>i. h i \<circ> g i) m"
    unfolding apply_infos_def by (simp add: option.map_comp comp_def)
  show "apply_infos (\<lambda>i x. x) m = m" unfolding apply_infos_def by (simp add: option.map_ident)
qed

lemma visit_types_cached:
  assumes "cached r m" "\<forall>t \<in> set ts. valid_ty r t" "2 \<le> n"
  shows "visit_types r n ts m = Inr m"
  using assms(2)
proof (induction ts)
  case Nil
  then show ?case by simp
next
  case (Cons t ts)
  obtain k where n: "n = Suc (Suc k)" using le_Suc_ex [OF assms(3)] by auto
  have "\<exists>x. type_info_of r n t m = Inr (x, m)"
  proof (cases "\<exists>i. t = TId i")
    case True
    then obtain i where i: "t = TId i" by auto
    then have "m i \<noteq> None" using Cons.prems assms(1) by (simp add: cached_def valid_ty_def)
    then show ?thesis by (auto simp: n i)
  next
    case False
    then show ?thesis by (cases t) (simp_all add: n)
  qed
  with Cons show ?case by auto
qed

lemma mark_named_cached:
  assumes "cached r m" "\<forall>i \<in> set ids. valid_id r i" and idem: "\<And>x. g (g x) = g x"
  shows "mark_named r g ids m =
    Inr (apply_infos (\<lambda>i x. if is_named r i \<and> i \<in> set ids then g x else x) m)"
  using assms(1,2)
proof (induction ids arbitrary: m)
  case Nil
  then show ?case by (simp add: apply_infos_simps)
next
  case (Cons i ids)
  then obtain x where x: "m i = Some x" by (auto simp: cached_def)
  define m1 where "m1 = apply_infos (\<lambda>j x. if is_named r i \<and> j = i then g x else x) m"
  have "(if td_name (r_types r ! i) \<noteq> None then mark g i m else Inr m) = Inr m1"
    by (auto simp: mark_def x m1_def is_named_def apply_infos_def option.map_ident)
  moreover have "cached r m1" using Cons.prems(1) by (simp add: m1_def apply_infos_simps)
  ultimately have "mark_named r g (i # ids) m =
      Inr (apply_infos (\<lambda>i x. if is_named r i \<and> i \<in> set ids then g x else x) m1)"
    using Cons by simp
  moreover have "apply_infos (\<lambda>i x. if is_named r i \<and> i \<in> set ids then g x else x) m1 =
      apply_infos (\<lambda>j x. if is_named r j \<and> j \<in> set (i # ids) then g x else x) m"
    unfolding m1_def apply_infos_simps(2)
    by (rule arg_cong [of _ _ "\<lambda>h. apply_infos h m"]) (auto simp: fun_eq_iff idem)
  ultimately show ?case by simp
qed

lemma definition_id_ok:
  assumes ac: "acyclic_types r rk" and v: "valid_id r i"
  shows "\<exists>d. definition_id r i = Inr d \<and> valid_id r d"
proof -
  have "\<exists>d. resolve_type_definition_id r i = Some (Inr d) \<and> valid_id r d"
    using v
  proof (induction "rk i" arbitrary: i rule: less_induct)
    case less
    show ?case
    proof (cases "\<exists>d. kind_at r i = KType (TId d)")
      case True
      then obtain d where d: "kind_at r i = KType (TId d)" by auto
      have "valid_id r d" "rk d < rk i"
        using acyclicD(2) [OF ac less.prems, of "TId d"]
        by (simp_all add: d eq_types_def valid_ty_def ty_rank_def)
      from less.hyps [OF this(2,1)] show ?thesis
        using less.prems by (simp add: resolve_type_definition_id.simps [of r i] d)
    next
      case False
      then have "resolve_type_definition_id r i = Some (Inr i)"
        using less.prems
        by (auto simp: resolve_type_definition_id.simps [of r i] split: kind.split ty.split)
      then show ?thesis using less.prems by simp
    qed
  qed
  then show ?thesis by (auto simp: definition_id_def)
qed

lemma mark_error_cached:
  assumes ac: "acyclic_types r rk" and m: "cached r m"
    and v: "\<forall>t \<in> set (result_list (fn_result f)). valid_ty r t"
  shows "mark_error r (fn_result f) m =
    Inr (apply_infos (\<lambda>i x. x\<lparr>error := error x \<or> error_target r f = Some i\<rparr>) m)"
proof -
  show ?thesis
  proof (cases "\<exists>i a j. fn_result f = Some (TId i) \<and> kind_at r i = KResult a (Some (TId j))")
    case True
    then obtain i a j where ij: "fn_result f = Some (TId i)" "kind_at r i = KResult a (Some (TId j))"
      by auto
    have vi: "valid_id r i" using v ij(1) by (simp add: result_list_def valid_ty_def)
    have "TId j \<in> set (eq_types (kind_at r i))" by (simp add: ij(2) eq_types_def)
    from acyclicD(2) [OF ac vi this] have "valid_id r j" by (simp add: valid_ty_def)
    from definition_id_ok [OF ac this] obtain d where d: "definition_id r j = Inr d" "valid_id r d" by blast
    then obtain x where x: "m d = Some x" using m by (auto simp: cached_def)
    have t: "error_target r f = Some d" by (simp add: error_target_def ij d)
    have "m(d \<mapsto> x\<lparr>error := True\<rparr>) =
        apply_infos (\<lambda>i x. x\<lparr>error := error x \<or> error_target r f = Some i\<rparr>) m"
      using x by (auto simp: fun_eq_iff apply_infos_def t option.map_ident)
    then show ?thesis by (simp add: mark_error_def ij vi d mark_def x)
  next
    case False
    then have n: "error_target r f = None"
      by (auto simp: error_target_def split: option.splits ty.splits kind.splits)
    have "mark_error r (fn_result f) m = Inr m"
    proof (cases "\<exists>i. fn_result f = Some (TId i)")
      case True
      then obtain i where i: "fn_result f = Some (TId i)" by auto
      then have "valid_id r i" using v by (simp add: result_list_def valid_ty_def)
      with False i show ?thesis
        by (auto simp: mark_error_def split: kind.split option.split ty.split)
    next
      case nr: False
      then show ?thesis by (auto simp: mark_error_def split: option.split ty.split)
    qed
    then show ?thesis by (simp add: n apply_infos_simps(3))
  qed
qed

lemma type_info_func_cached:
  assumes ac: "acyclic_types r rk" and m: "cached r m" and lv: "live_ok r live"
    and f: "func_types_ok r f" and n: "2 \<le> n"
  shows "type_info_func r live n import f m = Inr (apply_infos (use_flags r live (import, f)) m)"
proof -
  have v: "\<forall>t \<in> set (map snd (fn_params f)). valid_ty r t"
    "\<forall>t \<in> set (result_list (fn_result f)). valid_ty r t"
    using f by (simp_all add: func_types_ok_def)
  have lp: "\<forall>i \<in> set (live (map snd (fn_params f))). valid_id r i"
    "\<forall>i \<in> set (live (result_list (fn_result f))). valid_id r i"
    using lv v unfolding live_ok_def by blast+
  note c = apply_infos_simps(1) m
  let ?g = "if import then (\<lambda>x. x\<lparr>borrowed := True\<rparr>) else (\<lambda>x. x\<lparr>owned := True\<rparr>)"
  note p = mark_named_cached [OF m lp(1), of ?g]
  have "type_info_func r live n import f m =
      Inr (apply_infos (\<lambda>i x. x\<lparr>error := error x \<or> error_target r f = Some i\<rparr>)
        (apply_infos (\<lambda>i x. if is_named r i \<and> i \<in> set (live (result_list (fn_result f)))
            then x\<lparr>owned := True\<rparr> else x)
          (apply_infos (\<lambda>i x. if is_named r i \<and> i \<in> set (live (map snd (fn_params f)))
            then ?g x else x) m)))"
    unfolding type_info_func_def Let_def
    by (simp add: visit_types_cached c v n p mark_named_cached lp mark_error_cached [OF ac])
  also have "\<dots> = Inr (apply_infos (use_flags r live (import, f)) m)"
    unfolding apply_infos_simps(2)
    by (rule arg_cong [of _ _ "\<lambda>h. Inr (apply_infos h m)"])
      (auto simp: fun_eq_iff use_flags_def Let_def)
  finally show ?thesis .
qed

lemma visit_funcs_cached:
  assumes ac: "acyclic_types r rk" and m: "cached r m" and lv: "live_ok r live"
    and f: "\<forall>u \<in> set fs. func_types_ok r (snd u)" and n: "2 \<le> n"
  shows "visit_funcs r live n fs m = Inr (apply_infos (\<lambda>i x. fold (\<lambda>u. use_flags r live u i) fs x) m)"
  using m f
proof (induction fs arbitrary: m)
  case Nil
  then show ?case by (simp add: apply_infos_simps)
next
  case (Cons u fs)
  obtain import f where u: "u = (import, f)" by fastforce
  have "cached r (apply_infos (use_flags r live u) m)" using Cons.prems(1) by (simp add: apply_infos_simps)
  from Cons.IH [OF this] Cons.prems show ?case
    using type_info_func_cached [OF ac Cons.prems(1) lv _ n, of f import]
    by (simp add: u apply_infos_simps comp_def)
qed

lemma visit_funcs_append:
  "visit_funcs r live n (fs @ gs) m = and_then (visit_funcs r live n fs m) (visit_funcs r live n gs)"
  by (induction fs arbitrary: m) (auto simp: and_then_def split: sum.splits)

lemma visit_items_uses:
  assumes "\<forall>it \<in> set its. \<forall>i. snd it = WIInterface i \<longrightarrow> i < length (r_interfaces r)"
  shows "visit_items r live n its m = visit_funcs r live n (concat (map (item_uses r) its)) m"
  using assms
proof (induction its arbitrary: m)
  case Nil
  then show ?case by simp
next
  case (Cons it its)
  have nil: "visit_funcs r live n [] = Inr" by (rule ext) simp
  have "visit_item r live n it m = visit_funcs r live n (item_uses r it) m"
    using Cons.prems by (cases "snd it") (auto simp: visit_item_def item_uses_def nil and_then_Inr_right)
  then show ?case
    using Cons by (simp add: visit_funcs_append and_then_def split: sum.split)
qed

lemma visit_ids_ok:
  assumes ac: "acyclic_types r rk" and m: "memo_ok r m" and v: "\<forall>i \<in> set ids. valid_id r i"
    and n: "\<forall>i \<in> set ids. 2 * Suc (rk i) \<le> n"
  shows "\<exists>m'. visit_ids r n ids m = Inr m' \<and> memo_ok r m' \<and> m \<subseteq>\<^sub>m m' \<and> (\<forall>i \<in> set ids. m' i \<noteq> None)"
  using m v n
proof (induction ids arbitrary: m)
  case Nil
  then show ?case by simp
next
  case (Cons i ids)
  have vi: "valid_id r i" and ni: "2 * Suc (rk i) \<le> n" using Cons.prems by simp_all
  have "yields r rk (Suc (rk i)) (type_id_info r n i) (info_spec r (TId i))"
    using type_info_yields [OF ac, of i n] vi ni by blast
  from yieldsE [OF this Cons.prems(1)] obtain m1 where
    1: "type_id_info r n i m = Inr (info_spec r (TId i), m1)" "memo_ok r m1" "m \<subseteq>\<^sub>m m1" by blast
  obtain m2 where 2: "visit_ids r n ids m1 = Inr m2" "memo_ok r m2" "m1 \<subseteq>\<^sub>m m2" "\<forall>i \<in> set ids. m2 i \<noteq> None"
    using Cons.IH [OF 1(2)] Cons.prems by auto
  have "m1 i \<noteq> None"
  proof -
    obtain k where k: "n = Suc k" using ni by (cases n) auto
    show ?thesis using 1(1) by (auto simp: k res_simps split: option.splits if_splits)
  qed
  then have "m2 i \<noteq> None" using 2(3) unfolding map_le_def dom_def by (metis (mono_tags) mem_Collect_eq)
  moreover have "m \<subseteq>\<^sub>m m2" by (rule map_le_trans [OF 1(3) 2(3)])
  ultimately show ?case using 1(1) 2(1,2,4) by simp
qed

lemma use_flags_simps [simp]:
  "structural (use_flags r live u i x) = structural x"
  "borrowed (use_flags r live u i x) \<longleftrightarrow> borrowed x \<or> uses_borrowed r live i u"
  "owned (use_flags r live u i x) \<longleftrightarrow> owned x \<or> uses_owned r live i u"
  "error (use_flags r live u i x) \<longleftrightarrow> error x \<or> error_target r (snd u) = Some i"
  by (simp_all add: use_flags_def Let_def structural_def uses_borrowed_def uses_owned_def
      split: prod.split)
    blast+

lemma fold_use_flags:
  shows "structural (fold (\<lambda>u. use_flags r live u i) us x) = structural x"
    and "borrowed (fold (\<lambda>u. use_flags r live u i) us x) \<longleftrightarrow>
      borrowed x \<or> (\<exists>u \<in> set us. uses_borrowed r live i u)"
    and "owned (fold (\<lambda>u. use_flags r live u i) us x) \<longleftrightarrow>
      owned x \<or> (\<exists>u \<in> set us. uses_owned r live i u)"
    and "error (fold (\<lambda>u. use_flags r live u i) us x) \<longleftrightarrow>
      error x \<or> (\<exists>u \<in> set us. error_target r (snd u) = Some i)"
  by (induction us arbitrary: x) simp_all

section \<open>The whole analysis\<close>

definition worlds_ok :: "resolve \<Rightarrow> bool" where
  "worlds_ok r \<longleftrightarrow>
     (\<forall>it \<in> set (concat (map world_items (r_worlds r))).
        \<forall>i. snd it = WIInterface i \<longrightarrow> i < length (r_interfaces r)) \<and>
     (\<forall>u \<in> set (uses r). func_types_ok r (snd u))"

lemma memo_ok_empty [simp]: "memo_ok r Map.empty"
  by (simp add: memo_ok_def)

lemma analyze_infos:
  assumes ac: "acyclic_types r rk" and lv: "live_ok r live" and w: "worlds_ok r"
    and n: "\<forall>i. valid_id r i \<longrightarrow> 2 * Suc (rk i) \<le> n" "2 \<le> n"
  shows "\<exists>m. analyze r live n \<lparr>t_infos = Map.empty, t_equal = p\<rparr> = Inr \<lparr>t_infos = m, t_equal = p\<rparr> \<and>
    (\<forall>i. m i = (if valid_id r i
       then Some (fold (\<lambda>u. use_flags r live u i) (uses r) (info_spec r (TId i))) else None))"
proof -
  obtain m where m: "visit_ids r n [0..<length (r_types r)] Map.empty = Inr m" "memo_ok r m"
    "\<forall>i \<in> set [0..<length (r_types r)]. m i \<noteq> None"
    using visit_ids_ok [OF ac memo_ok_empty, of "[0..<length (r_types r)]" n] n(1) by auto
  have c: "cached r m" using m(3) by (simp add: cached_def)
  have mi: "m i = (if valid_id r i then Some (info_spec r (TId i)) else None)" for i
  proof (cases "m i")
    case None
    then show ?thesis using c by (auto simp: cached_def)
  next
    case (Some x)
    then show ?thesis using m(2) by (auto simp: memo_ok_def)
  qed
  have "visit_items r live n (concat (map world_items (r_worlds r))) m =
      Inr (apply_infos (\<lambda>i x. fold (\<lambda>u. use_flags r live u i) (uses r) x) m)"
    using w visit_items_uses [of "concat (map world_items (r_worlds r))" r live n m]
      visit_funcs_cached [OF ac c lv, of "uses r" n] n(2)
    by (simp add: worlds_ok_def uses_def)
  then show ?thesis by (simp add: analyze_def m(1) apply_infos_def mi)
qed

end
