(* ===== verification/Type_Properties.thy ===== *)
theory Type_Properties
  imports Type_Usage
begin

text \<open>
  The properties of \<open>crates/core/src/types.rs\<close>, with a small set of types to apply them to: two
  records with the same fields, an alias of the first and a result whose error is that alias.
\<close>

section \<open>A small set of types\<close>

definition demo_import :: func where
  "demo_import = \<lparr>fn_name = ''f'', fn_kind = Freestanding, fn_params = [(''p'', TId 1)],
     fn_result = Some (TId 3)\<rparr>"

definition demo_arena :: resolve where
  "demo_arena =
     \<lparr>r_types =
        [\<lparr>td_name = Some ''a'', td_owner = OwnerNone, td_kind = KRecord [(''x'', TString)]\<rparr>,
         \<lparr>td_name = Some ''b'', td_owner = OwnerNone, td_kind = KRecord [(''x'', TString)]\<rparr>,
         \<lparr>td_name = Some ''c'', td_owner = OwnerNone, td_kind = KType (TId 0)\<rparr>,
         \<lparr>td_name = None, td_owner = OwnerNone, td_kind = KResult None (Some (TId 2))\<rparr>],
      r_worlds = [\<lparr>w_name = ''w'', w_imports = [(WKInterface 0, WIInterface 0)], w_exports = [], w_package = None\<rparr>],
      r_interfaces = [\<lparr>if_name = None, if_types = [], if_functions = [(''f'', demo_import)], if_package = None\<rparr>],
      r_packages = []\<rparr>"



lemma four_ids: "i < Suc (Suc (Suc (Suc 0))) \<longleftrightarrow> i = 0 \<or> i = 1 \<or> i = 2 \<or> i = 3"
  by auto

lemma demo_arena_length [simp]: "length (r_types demo_arena) = Suc (Suc (Suc (Suc 0)))"
  by (simp add: demo_arena_def)

lemma demo_kinds [simp]:
  "kind_at demo_arena 0 = KRecord [(''x'', TString)]"
  "kind_at demo_arena (Suc 0) = KRecord [(''x'', TString)]"
  "kind_at demo_arena 2 = KType (TId 0)"
  "kind_at demo_arena 3 = KResult None (Some (TId 2))"
  by (simp_all add: demo_arena_def)

lemma demo_acyclic: "acyclic_types demo_arena (\<lambda>i. i)"
  by (auto simp: acyclic_types_def four_ids eq_types_def valid_ty_def ty_rank_def)

lemma demo_trees:
  "tree_of demo_arena (\<lambda>i. i) (TId 0) = TreeRecord [(''x'', Prim TString)]"
  "tree_of demo_arena (\<lambda>i. i) (TId (Suc 0)) = TreeRecord [(''x'', Prim TString)]"
  "tree_of demo_arena (\<lambda>i. i) (TId 2) = TreeRecord [(''x'', Prim TString)]"
  by (simp_all add: tree_of_TId [OF demo_acyclic] kind_tree_def tree_of_prim)




section \<open>Usage analysis\<close>



section \<open>Equal types\<close>

text \<open>
  C11: \<open>UnionFind\<close> maintains exactly the least equivalence of the pairs that were united: after any
  sequence of \<open>union\<close> calls from the empty map, every \<open>find\<close> returns, gives equal roots for two
  ids if and only if a chain of united pairs links them, and leaves all classes as they were; a
  root is never larger than its members.
\<close>

theorem union_find_classes:
  "\<exists>p. unite_all union ps Map.empty = Some p \<and>
     (\<forall>x. \<exists>p'. find p x = Some (rep p x, p') \<and> rep p' = rep p) \<and>
     (\<forall>x y. rep p x = rep p y \<longleftrightarrow> (x, y) \<in> linked (set ps)) \<and> (\<forall>x. rep p x \<le> x)"
  using uf.unite_all_classes [of ps] uf.finds_law uf.root_least by meson

text \<open>
  C12: \<open>is_structurally_equal\<close> returns, and decides whether two ids unfold to the same tree when
  every alias is followed, whatever the union-find already knows, as long as that is right; it
  changes no class. Three times the sum of the two ranks is enough recursion depth.
\<close>

theorem structural_equality_decides:
  assumes "acyclic_types r rk" "valid_id r a" "valid_id r b" "uf_inv p"
    and "\<And>x y. valid_id r x \<Longrightarrow> valid_id r y \<Longrightarrow> rep p x = rep p y \<Longrightarrow>
      tree_of r rk (TId x) = tree_of r rk (TId y)"
    and "3 * (ty_rank rk (TId a) + ty_rank rk (TId b)) + 1 \<le> n"
  shows "\<exists>p'. is_structurally_equal find r n a b p =
      Inr (tree_of r rk (TId a) = tree_of r rk (TId b), p') \<and> uf_inv p' \<and> rep p' = rep p"
proof -
  have "decides uf_inv rep (rep p) (is_structurally_equal find r n a b)
      (tree_of r rk (TId a) = tree_of r rk (TId b))"
    using uf.structural_equality [where R = "rep p" and a = a and b = b and n = n, OF assms(1,5)] assms(2,3,6) by blast
  then show ?thesis using assms(4) by (auto simp: decides_def)
qed

theorem structural_equality_decides_witness:
  "\<exists>p'. is_structurally_equal find demo_arena 30 2 1 Map.empty = Inr (True, p')"
proof -
  have "\<exists>p'. is_structurally_equal find demo_arena 30 2 1 Map.empty =
      Inr (tree_of demo_arena (\<lambda>i. i) (TId 2) = tree_of demo_arena (\<lambda>i. i) (TId 1), p') \<and>
      uf_inv p' \<and> rep p' = rep Map.empty"
    by (rule structural_equality_decides [OF demo_acyclic])
      (simp_all add: uf.fresh_root ty_rank_def)
  then show ?thesis by (auto simp: demo_trees)
qed

lemma collect_equal_types_ok:
  assumes "acyclic_types r rk" "\<forall>e \<in> set tys. valid_id r e"
    and "\<forall>x \<in> set tys. \<forall>y \<in> set tys. 3 * (ty_rank rk (TId x) + ty_rank rk (TId y)) + 1 \<le> n"
  shows "\<exists>ts. collect_equal_types r n tys may_alias order \<lparr>t_infos = m, t_equal = Map.empty\<rparr> = Inr ts \<and>
    uf_inv (t_equal ts) \<and>
    (\<forall>x y. valid_id r x \<and> valid_id r y \<and> rep (t_equal ts) x = rep (t_equal ts) y \<longrightarrow>
       tree_of r rk (TId x) = tree_of r rk (TId y)) \<and>
    (\<forall>x \<in> set tys. \<forall>y \<in> set tys. may_alias x \<and> may_alias y \<and>
       tree_of r rk (TId x) = tree_of r rk (TId y) \<longrightarrow> rep (t_equal ts) x = rep (t_equal ts) y) \<and>
    (\<forall>i. t_infos ts i = (if i \<in> set order then Some (or_list (map (info_or m)
       (filter (\<lambda>j. rep (t_equal ts) j = rep (t_equal ts) i) order))) else m i))"
proof -
  obtain p where p: "collect_loop find union r n may_alias [] tys Map.empty = Inr p" "uf_inv p"
    "\<forall>x y. valid_id r x \<and> valid_id r y \<and> rep p x = rep p y \<longrightarrow>
       tree_of r rk (TId x) = tree_of r rk (TId y)"
    "\<forall>x \<in> set tys. \<forall>y \<in> set tys. may_alias x \<and> may_alias y \<and>
       tree_of r rk (TId x) = tree_of r rk (TId y) \<longrightarrow> rep p x = rep p y"
    using uf.collect_loop_classes [OF assms(1) refl assms(2,3), of may_alias] by blast
  obtain m' p' where c: "collect_equal_types r n tys may_alias order \<lparr>t_infos = m, t_equal = Map.empty\<rparr> =
      Inr \<lparr>t_infos = m', t_equal = p'\<rparr>" "uf_inv p'" "rep p' = rep p"
    "\<And>k. m' k = (if k \<in> set order
       then Some (or_list (map (info_or m) (filter (\<lambda>i. rep p i = rep p k) order))) else m k)"
    by (rule collect_equal_types_infos_of [OF p(1,2), of order m]) (rule that)
  show ?thesis
    unfolding c(1)
  proof (intro exI conjI)
    show "\<forall>i. t_infos \<lparr>t_infos = m', t_equal = p'\<rparr> i = (if i \<in> set order
        then Some (or_list (map (info_or m) (filter (\<lambda>j. rep (t_equal \<lparr>t_infos = m', t_equal = p'\<rparr>) j =
          rep (t_equal \<lparr>t_infos = m', t_equal = p'\<rparr>) i) order))) else m i)"
      using c(4) by (simp only: types.simps c(3)) blast
  qed (rule refl | simp only: types.simps c(2,3) | rule p(3) | rule p(4))+
qed

lemma get_representative_type_twice:
  assumes "uf_inv (t_equal ts)" "rep (t_equal ts) x = rep (t_equal ts) y"
  shows "\<exists>q ts1 ts2. get_representative_type ts x = Inr (q, ts1) \<and>
    get_representative_type ts1 y = Inr (q, ts2)"
proof -
  obtain p1 where p1: "get_representative_type ts x = Inr (rep (t_equal ts) x, ts\<lparr>t_equal := p1\<rparr>)"
    "uf_inv p1" "rep p1 = rep (t_equal ts)"
    using get_representative_type_ok [OF assms(1), of x] by blast
  obtain p2 where "get_representative_type (ts\<lparr>t_equal := p1\<rparr>) y = Inr (rep p1 y, ts\<lparr>t_equal := p2\<rparr>)"
    using get_representative_type_ok [of "ts\<lparr>t_equal := p1\<rparr>" y] p1(2) by auto
  with p1(1,3) assms(2) show ?thesis by auto
qed

text \<open>
  C13: \<open>collect_equal_types\<close> returns, and its classes are sound and complete: two types in one class
  unfold to the same tree, and two live types that may be aliased and unfold to the same tree are
  in one class, even when they were compared with an earlier, different member.
\<close>

theorem collect_equal_types_classes:
  assumes "acyclic_types r rk" "\<forall>e \<in> set tys. valid_id r e"
    and "\<forall>x \<in> set tys. \<forall>y \<in> set tys. 3 * (ty_rank rk (TId x) + ty_rank rk (TId y)) + 1 \<le> n"
  shows "\<exists>ts. collect_equal_types r n tys may_alias order \<lparr>t_infos = m, t_equal = Map.empty\<rparr> = Inr ts \<and>
    (\<forall>x y. valid_id r x \<and> valid_id r y \<and> rep (t_equal ts) x = rep (t_equal ts) y \<longrightarrow>
       tree_of r rk (TId x) = tree_of r rk (TId y)) \<and>
    (\<forall>x \<in> set tys. \<forall>y \<in> set tys. may_alias x \<and> may_alias y \<and>
       tree_of r rk (TId x) = tree_of r rk (TId y) \<longrightarrow>
       (\<exists>q ts1 ts2. get_representative_type ts x = Inr (q, ts1) \<and>
          get_representative_type ts1 y = Inr (q, ts2)))"
  using collect_equal_types_ok [OF assms, of may_alias order m] get_representative_type_twice by meson

theorem collect_equal_types_classes_witness:
  "\<exists>ts q ts1 ts2. collect_equal_types demo_arena 30 [0, 1, 2] (\<lambda>_. True) []
       \<lparr>t_infos = Map.empty, t_equal = Map.empty\<rparr> = Inr ts \<and>
     get_representative_type ts 1 = Inr (q, ts1) \<and> get_representative_type ts1 2 = Inr (q, ts2)"
proof -
  let ?live = "[0, 1, 2] :: tid list"
  have "\<forall>e \<in> set ?live. valid_id demo_arena e"
    "\<forall>x \<in> set ?live. \<forall>y \<in> set ?live.
       3 * (ty_rank (\<lambda>i. i) (TId x) + ty_rank (\<lambda>i. i) (TId y)) + 1 \<le> 30"
    by (simp_all add: ty_rank_def)
  from collect_equal_types_classes [OF demo_acyclic this, of "\<lambda>_. True" "[]" Map.empty]
  obtain ts where ts: "collect_equal_types demo_arena 30 ?live (\<lambda>_. True) []
      \<lparr>t_infos = Map.empty, t_equal = Map.empty\<rparr> = Inr ts"
    "\<forall>x \<in> set ?live. \<forall>y \<in> set ?live.
       tree_of demo_arena (\<lambda>i. i) (TId x) = tree_of demo_arena (\<lambda>i. i) (TId y) \<longrightarrow>
       (\<exists>q ts1 ts2. get_representative_type ts x = Inr (q, ts1) \<and>
          get_representative_type ts1 y = Inr (q, ts2))"
    by auto
  have "tree_of demo_arena (\<lambda>i. i) (TId 1) = tree_of demo_arena (\<lambda>i. i) (TId 2)"
    by (simp add: demo_trees)
  then have "\<exists>q ts1 ts2. get_representative_type ts 1 = Inr (q, ts1) \<and>
      get_representative_type ts1 2 = Inr (q, ts2)"
    using bspec [OF bspec [OF ts(2), of 1], of 2] by simp
  then show ?thesis using ts(1) by blast
qed

text \<open>
  C14: \<open>collect_equal_types\<close> gives every type with an info the union of the infos of its whole class,
  whatever the order in which the hash map yields its keys.
\<close>

theorem collect_equal_types_merges:
  assumes "acyclic_types r rk" "\<forall>e \<in> set tys. valid_id r e"
    and "\<forall>x \<in> set tys. \<forall>y \<in> set tys. 3 * (ty_rank rk (TId x) + ty_rank rk (TId y)) + 1 \<le> n"
    and "set order = dom m"
  shows "\<exists>ts. collect_equal_types r n tys may_alias order \<lparr>t_infos = m, t_equal = Map.empty\<rparr> = Inr ts \<and>
    dom (t_infos ts) = dom m \<and>
    (\<forall>i \<in> dom m. t_infos ts i = Some (or_list (map (info_or m)
       (filter (\<lambda>j. rep (t_equal ts) j = rep (t_equal ts) i) order))))"
proof -
  obtain ts where ts: "collect_equal_types r n tys may_alias order
      \<lparr>t_infos = m, t_equal = Map.empty\<rparr> = Inr ts"
    "\<forall>i. t_infos ts i = (if i \<in> set order then Some (or_list (map (info_or m)
       (filter (\<lambda>j. rep (t_equal ts) j = rep (t_equal ts) i) order))) else m i)"
    using collect_equal_types_ok [OF assms(1-3), of may_alias order m] by blast
  have "dom (t_infos ts) = dom m" using ts(2) assms(4) by (auto simp: dom_def)
  then show ?thesis using ts assms(4) by (intro exI [of _ ts]) simp
qed

theorem collect_equal_types_merges_witness:
  "\<exists>ts. collect_equal_types demo_arena 30 [0, 1, 2] (\<lambda>_. True) [1, 0]
     \<lparr>t_infos = [0 \<mapsto> no_info, 1 \<mapsto> no_info\<lparr>borrowed := True\<rparr>], t_equal = Map.empty\<rparr> = Inr ts \<and>
     dom (t_infos ts) = {0, 1}"
proof -
  let ?m = "[0 \<mapsto> no_info, 1 \<mapsto> no_info\<lparr>borrowed := True\<rparr>] :: infos"
  have "\<forall>e \<in> set [0, 1, 2]. valid_id demo_arena e"
    "\<forall>x \<in> set [0, 1, 2]. \<forall>y \<in> set [0, 1, 2].
       3 * (ty_rank (\<lambda>i. i) (TId x) + ty_rank (\<lambda>i. i) (TId y)) + 1 \<le> 30"
    "set [1, 0] = dom ?m" "dom ?m = {0, 1}"
    by (auto simp: ty_rank_def)
  from collect_equal_types_merges [OF demo_acyclic this(1-3), of "\<lambda>_. True"] this(4) show ?thesis
    by auto
qed

end
