(* ===== verification/Rt_Codes.thy ===== *)
theory Rt_Codes
  imports Prelude
begin

text \<open>
  The codes of the component-model ABI that the guest runtime (\<open>crates/guest-rust/src/rt\<close>) packs and
  unpacks: return codes of stream and future operations, callback codes, event and status numbers
  of \<open>async_support.rs\<close>, with the arithmetic on 32-bit words written out.
\<close>

unbundle bit_operations_syntax

type_synonym u32 = "32 word"

section \<open>Constants\<close>

definition EVENT_NONE :: u32 where "EVENT_NONE = 0"
definition EVENT_SUBTASK :: u32 where "EVENT_SUBTASK = 1"
definition EVENT_STREAM_READ :: u32 where "EVENT_STREAM_READ = 2"
definition EVENT_STREAM_WRITE :: u32 where "EVENT_STREAM_WRITE = 3"
definition EVENT_FUTURE_READ :: u32 where "EVENT_FUTURE_READ = 4"
definition EVENT_FUTURE_WRITE :: u32 where "EVENT_FUTURE_WRITE = 5"
definition EVENT_CANCEL :: u32 where "EVENT_CANCEL = 6"

definition STATUS_STARTING :: u32 where "STATUS_STARTING = 0"
definition STATUS_STARTED :: u32 where "STATUS_STARTED = 1"
definition STATUS_RETURNED :: u32 where "STATUS_RETURNED = 2"
definition STATUS_STARTED_CANCELLED :: u32 where "STATUS_STARTED_CANCELLED = 3"
definition STATUS_RETURNED_CANCELLED :: u32 where "STATUS_RETURNED_CANCELLED = 4"

definition BLOCKED :: u32 where "BLOCKED = 0xffffffff"
definition COMPLETED :: u32 where "COMPLETED = 0"
definition DROPPED :: u32 where "DROPPED = 1"
definition CANCELLED :: u32 where "CANCELLED = 2"

lemmas status_defs = STATUS_STARTING_def STATUS_STARTED_def STATUS_RETURNED_def
  STATUS_STARTED_CANCELLED_def STATUS_RETURNED_CANCELLED_def

lemmas code_defs = BLOCKED_def COMPLETED_def DROPPED_def CANCELLED_def

text \<open>Maximum size of a read or write: \<open>(1 << 28) - 1\<close>.\<close>

definition MAX_LENGTH :: nat where "MAX_LENGTH = 2 ^ 28 - 1"

section \<open>Return codes\<close>

datatype return_code = Blocked | Completed u32 | Dropped u32 | Cancelled u32

definition decode_return :: "u32 \<Rightarrow> return_code res" where
  "decode_return val =
     (if val = BLOCKED then Inr Blocked
      else
        let amt = drop_bit 4 val; tag = val AND 0xf in
        if tag = COMPLETED then Inr (Completed amt)
        else if tag = DROPPED then Inr (Dropped amt)
        else if tag = CANCELLED then Inr (Cancelled amt)
        else Inl Explicit_Panic)"

text \<open>What the host packs: four bits of tag below twenty-eight bits of count.\<close>

definition pack :: "u32 \<Rightarrow> u32 \<Rightarrow> u32" where
  "pack tag amt = tag OR push_bit 4 amt"

section \<open>Callback codes\<close>

datatype callback_code = Exit | Yield | Wait u32

definition encode_callback :: "callback_code \<Rightarrow> u32" where
  "encode_callback c =
     (case c of Exit \<Rightarrow> 0 | Yield \<Rightarrow> 1 | Wait waitable \<Rightarrow> 2 OR push_bit 4 waitable)"

section \<open>Packing and unpacking\<close>

lemma small_bits:
  assumes "(x :: u32) < 2 ^ k" "bit x n" "k \<le> 32"
  shows "n < k"
proof -
  have "take_bit k x = x" using less_mask_eq [OF assms(1)] by (simp add: take_bit_eq_mask)
  then have "bit (take_bit k x) n" using assms(2) by simp
  then show ?thesis by (simp add: bit_take_bit_iff)
qed

lemma and_15: "(x :: u32) AND 0xf = take_bit 4 x"
  by (simp add: take_bit_eq_mask mask_eq_exp_minus_1)

lemma pack_tag:
  assumes "tag < 16"
  shows "pack tag amt AND 0xf = tag"
proof -
  have "take_bit 4 (pack tag amt) = tag"
  proof (rule bit_eqI)
    fix n
    show "bit (take_bit 4 (pack tag amt)) n \<longleftrightarrow> bit tag n"
      using small_bits [of tag 4 n] assms by (auto simp: pack_def bit_simps)
  qed
  then show ?thesis by (simp only: and_15)
qed

lemma pack_count:
  assumes "tag < 16" "amt < 2 ^ 28"
  shows "drop_bit 4 (pack tag amt) = amt"
proof (rule bit_eqI)
  fix n
  show "bit (drop_bit 4 (pack tag amt)) n \<longleftrightarrow> bit amt n"
    using small_bits [of tag 4 "4 + n"] small_bits [OF assms(2), of n] assms(1)
    by (auto simp: pack_def bit_simps)
qed

lemma pack_not_blocked:
  assumes "tag < 15"
  shows "pack tag amt \<noteq> BLOCKED"
proof
  assume b: "pack tag amt = BLOCKED"
  have "tag < 16" using assms by (rule less_trans) simp
  then have "tag = BLOCKED AND 0xf" using pack_tag b by metis
  then have "tag = 15" by (simp add: BLOCKED_def)
  then show False using assms by simp
qed

lemma decode_pack:
  assumes "amt < 2 ^ 28"
  shows "decode_return (pack COMPLETED amt) = Inr (Completed amt)"
    and "decode_return (pack DROPPED amt) = Inr (Dropped amt)"
    and "decode_return (pack CANCELLED amt) = Inr (Cancelled amt)"
  unfolding decode_return_def Let_def COMPLETED_def DROPPED_def CANCELLED_def
  using pack_count [of 0, OF _ assms] pack_count [of 1, OF _ assms] pack_count [of 2, OF _ assms]
  by (simp_all add: pack_tag pack_not_blocked)

text \<open>A word whose tag is known is the packing of its tag and its count.\<close>

lemma pack_unpack: "pack (x AND 0xf) (drop_bit 4 x) = x"
proof -
  have "pack (take_bit 4 x) (drop_bit 4 x) = x"
  proof (rule bit_eqI)
    fix n
    assume "possible_bit TYPE(u32) n"
    then show "bit (pack (take_bit 4 x) (drop_bit 4 x)) n \<longleftrightarrow> bit x n"
      by (cases "n < 4") (auto simp: pack_def bit_simps)
  qed
  then show ?thesis by (simp only: and_15)
qed

lemma drop_4_bound: "drop_bit 4 (x :: u32) < 2 ^ 28"
proof -
  have "take_bit 28 (drop_bit 4 x) = drop_bit 4 x"
    by (rule bit_eqI) (auto simp: bit_simps dest: bit_imp_le_length)
  then show ?thesis using and_mask_less_size [of 28 "drop_bit 4 x"] by (simp add: take_bit_eq_mask word_size)
qed

end
