(* ===== verification/Rt_Memory.thy ===== *)
theory Rt_Memory
  imports Rt_Codes
begin

text \<open>
  The memory of the guest runtime: \<open>Layout\<close> of the standard library, \<open>Cleanup\<close> and \<open>cabi_realloc\<close>
  of \<open>crates/guest-rust/src/rt/mod.rs\<close>. The global allocator and the host are parameters that act on
  the raw state (the bytes and the host's own state \<open>'h\<close>); what the runtime asks of them is kept in a
  log, so that "freed exactly once" is a statement about that log.
\<close>

type_synonym addr = nat

record layout =
  l_size :: nat
  l_align :: nat

text \<open>
  \<open>Layout::from_size_align\<close> on a 32-bit target: a power of two, and a size that does not exceed
  \<open>isize::MAX\<close> when rounded up to it.
\<close>

definition power_of_two :: "nat \<Rightarrow> bool" where
  "power_of_two n \<longleftrightarrow> n \<in> set (map (\<lambda>k. 2 ^ k) [0..<32])"

definition from_size_align :: "nat \<Rightarrow> nat \<Rightarrow> layout option" where
  "from_size_align sz al =
     (if power_of_two al \<and> sz \<le> 2 ^ 31 - al then Some \<lparr>l_size = sz, l_align = al\<rparr>
      else None)"

type_synonym 'h raw = "(addr \<Rightarrow> 8 word) \<times> 'h"

text \<open>What the runtime asks of the allocator, of the generated bindings and of the host.\<close>

datatype rt_call =
    Alloc addr layout
  | Dealloc addr layout
  | Realloc addr layout nat addr
  | Lower addr
  | Lift addr
  | Dealloc_Lists addr
  | Write_Call u32 addr nat u32
  | Read_Call u32 addr nat u32
  | Cancel_Write u32 u32
  | Cancel_Read u32 u32
  | Drop_Writable u32
  | Drop_Readable u32
  | Call_Import addr addr u32
  | Params_Dealloc_Lists
  | Params_Dealloc_Lists_And_Own
  | Subtask_Cancel u32 u32
  | Subtask_Drop u32
  | Set_New u32
  | Join u32 u32
  | Set_Wait u32 "u32 \<times> u32 \<times> u32"
  | Set_Poll u32 "u32 \<times> u32 \<times> u32"
  | Set_Drop u32

record 'h machine =
  m_raw :: "'h raw"
  m_log :: "rt_call list"

definition logged :: "rt_call list \<Rightarrow> 'h raw \<Rightarrow> 'h machine \<Rightarrow> 'h machine" where
  "logged cs r m = m\<lparr>m_raw := r, m_log := m_log m @ cs\<rparr>"

lemma logged_simps [simp]:
  "m_raw (logged cs r m) = r" "m_log (logged cs r m) = m_log m @ cs"
  by (simp_all add: logged_def)

record 'h allocator =
  al_alloc :: "layout \<Rightarrow> 'h raw \<Rightarrow> addr \<times> 'h raw"
  al_dealloc :: "addr \<Rightarrow> layout \<Rightarrow> 'h raw \<Rightarrow> 'h raw"
  al_realloc :: "addr \<Rightarrow> layout \<Rightarrow> nat \<Rightarrow> 'h raw \<Rightarrow> addr \<times> 'h raw"

section \<open>Cleanup\<close>

record cleanup =
  c_ptr :: addr
  c_layout :: layout

definition cleanup_new ::
    "'h allocator \<Rightarrow> layout \<Rightarrow> 'h machine \<Rightarrow> ((addr \<times> cleanup option) \<times> 'h machine) res" where
  "cleanup_new A l m =
     (if l_size l = 0 then Inr ((0, None), m)
      else
        (let (p, r) = al_alloc A l (m_raw m) in
         if p = 0 then Inl Alloc_Failed
         else Inr ((p, Some \<lparr>c_ptr = p, c_layout = l\<rparr>), logged [Alloc p l] r m)))"

text \<open>The loop of \<open>Cleanup::drop\<close> that overwrites the block, then the deallocation.\<close>

definition poison :: "addr \<Rightarrow> nat \<Rightarrow> (addr \<Rightarrow> 8 word) \<Rightarrow> addr \<Rightarrow> 8 word" where
  "poison p n mem = fold (\<lambda>i mem. mem(p + i := 0xff)) [0..<n] mem"

definition cleanup_drop :: "'h allocator \<Rightarrow> cleanup \<Rightarrow> 'h machine \<Rightarrow> 'h machine" where
  "cleanup_drop A c m =
     (let (mem, h) = m_raw m in
      logged [Dealloc (c_ptr c) (c_layout c)]
        (al_dealloc A (c_ptr c) (c_layout c) (poison (c_ptr c) (l_size (c_layout c)) mem, h)) m)"

text \<open>Dropping an \<open>Option<Cleanup>\<close>.\<close>

definition drop_cleanup :: "'h allocator \<Rightarrow> cleanup option \<Rightarrow> 'h machine \<Rightarrow> 'h machine" where
  "drop_cleanup A c m = (case c of None \<Rightarrow> m | Some c \<Rightarrow> cleanup_drop A c m)"

text \<open>\<open>cleanup.as_ref().map(|c| c.ptr.as_ptr()).unwrap_or(ptr::null_mut())\<close>\<close>

definition cleanup_ptr :: "cleanup option \<Rightarrow> addr" where
  "cleanup_ptr c = (case c of None \<Rightarrow> 0 | Some c \<Rightarrow> c_ptr c)"

text \<open>The calls with which a block comes and goes.\<close>

definition alloc_calls :: "cleanup option \<Rightarrow> rt_call list" where
  "alloc_calls c = (case c of None \<Rightarrow> [] | Some c \<Rightarrow> [Alloc (c_ptr c) (c_layout c)])"

definition dealloc_calls :: "cleanup option \<Rightarrow> rt_call list" where
  "dealloc_calls c = (case c of None \<Rightarrow> [] | Some c \<Rightarrow> [Dealloc (c_ptr c) (c_layout c)])"

section \<open>cabi_realloc\<close>

definition cabi_realloc ::
    "bool \<Rightarrow> 'h allocator \<Rightarrow> addr \<Rightarrow> nat \<Rightarrow> nat \<Rightarrow> nat \<Rightarrow> 'h machine \<Rightarrow> (addr \<times> 'h machine) res" where
  "cabi_realloc debug A old_ptr old_len align new_len m =
     (if old_len = 0 then
        (if new_len = 0 then Inr (align, m)
         else
           (let l = \<lparr>l_size = new_len, l_align = align\<rparr>; (p, r) = al_alloc A l (m_raw m) in
            if p = 0 then Inl (if debug then Alloc_Failed else Unreachable_Code)
            else Inr (p, logged [Alloc p l] r m)))
      else if debug \<and> new_len = 0 then Inl Assert_Failed
      else
        (let l = \<lparr>l_size = old_len, l_align = align\<rparr>; (p, r) = al_realloc A old_ptr l new_len (m_raw m) in
         if p = 0 then Inl (if debug then Alloc_Failed else Unreachable_Code)
         else Inr (p, logged [Realloc old_ptr l new_len p] r m)))"

section \<open>Memory calls\<close>

text \<open>The calls that give or take ownership of memory: what "freed exactly once" is about.\<close>

definition mem_call :: "rt_call \<Rightarrow> bool" where
  "mem_call c =
     (case c of
        Alloc _ _ \<Rightarrow> True | Dealloc _ _ \<Rightarrow> True | Realloc _ _ _ _ \<Rightarrow> True | Lower _ \<Rightarrow> True | Lift _ \<Rightarrow> True
      | Dealloc_Lists _ \<Rightarrow> True | Params_Dealloc_Lists \<Rightarrow> True | Params_Dealloc_Lists_And_Own \<Rightarrow> True
      | Subtask_Drop _ \<Rightarrow> True | _ \<Rightarrow> False)"

definition mem_calls :: "'h machine \<Rightarrow> rt_call list" where
  "mem_calls m = filter mem_call (m_log m)"

lemma mem_calls_logged [simp]: "mem_calls (logged cs r m) = mem_calls m @ filter mem_call cs"
  by (simp add: mem_calls_def)

lemma mem_call_simps [simp]:
  "mem_call (Alloc p l)" "mem_call (Dealloc p l)" "mem_call (Realloc p l n q)" "mem_call (Lower p)"
  "mem_call (Lift p)" "mem_call (Dealloc_Lists p)" "mem_call Params_Dealloc_Lists"
  "mem_call Params_Dealloc_Lists_And_Own" "mem_call (Subtask_Drop h)"
  "\<not> mem_call (Write_Call h p n c)" "\<not> mem_call (Read_Call h p n c)" "\<not> mem_call (Cancel_Write h c)"
  "\<not> mem_call (Cancel_Read h c)" "\<not> mem_call (Drop_Writable h)" "\<not> mem_call (Drop_Readable h)"
  "\<not> mem_call (Call_Import p q c)" "\<not> mem_call (Subtask_Cancel h c)"
  by (simp_all add: mem_call_def)

lemma filter_mem_map [simp]:
  "filter mem_call (map Lift ps) = map Lift ps"
  "filter mem_call (map Dealloc_Lists ps) = map Dealloc_Lists ps"
  "filter mem_call (map Lower ps) = map Lower ps"
  by (simp_all add: filter_map comp_def)

lemma filter_alloc_calls [simp]:
  "filter mem_call (alloc_calls c) = alloc_calls c" "filter mem_call (dealloc_calls c) = dealloc_calls c"
  by (simp_all add: alloc_calls_def dealloc_calls_def split: option.split)

section \<open>Lemmas\<close>

lemma poison_Suc: "poison p (Suc n) mem = (poison p n mem)(p + n := 0xff)"
  by (simp add: poison_def)

lemma poison_apply: "poison p n mem a = (if p \<le> a \<and> a < p + n then 0xff else mem a)"
proof (induction n)
  case 0
  then show ?case by (auto simp: poison_def)
next
  case (Suc n)
  then show ?case by (auto simp: poison_Suc)
qed

text \<open>The allocator never fails: its result is never the null pointer.\<close>

definition never_fails :: "'h allocator \<Rightarrow> bool" where
  "never_fails A \<longleftrightarrow> (\<forall>l r. fst (al_alloc A l r) \<noteq> 0) \<and> (\<forall>p l n r. fst (al_realloc A p l n r) \<noteq> 0)"

lemma cleanup_new_ok:
  assumes "never_fails A"
  obtains p c r where
    "cleanup_new A l m = Inr ((p, c), logged (alloc_calls c) r m)"
    "p = cleanup_ptr c" "c = None \<longleftrightarrow> l_size l = 0" "\<And>d. c = Some d \<Longrightarrow> c_layout d = l"
proof (cases "l_size l = 0")
  case True
  then show ?thesis
    using that [of 0 None "m_raw m"] by (simp add: cleanup_new_def logged_def cleanup_ptr_def alloc_calls_def)
next
  case False
  obtain p r where pr: "al_alloc A l (m_raw m) = (p, r)" by (cases "al_alloc A l (m_raw m)")
  then have "p \<noteq> 0" using assms unfolding never_fails_def by (metis fst_conv)
  then show ?thesis
    using False pr that [of p "Some \<lparr>c_ptr = p, c_layout = l\<rparr>" r]
    by (simp add: cleanup_new_def cleanup_ptr_def alloc_calls_def)
qed

lemma drop_cleanup_log [simp]:
  "m_log (drop_cleanup A c m) =
     m_log m @ dealloc_calls c"
  by (cases c) (simp_all add: drop_cleanup_def cleanup_drop_def dealloc_calls_def split: prod.split)

lemma mem_calls_drop_cleanup [simp]: "mem_calls (drop_cleanup A c m) = mem_calls m @ dealloc_calls c"
  by (simp add: mem_calls_def)

end
