(* ===== verification/Rt_Abi_Buffer.thy ===== *)
theory Rt_Abi_Buffer
  imports Rt_Memory
begin

text \<open>
  \<open>AbiBuffer\<close> of \<open>async_support/abi_buffer.rs\<close>: the buffer of a stream write, which lowers a vector
  into canonical ABI memory, tracks how much of it was written and lifts the rest back. The trait
  \<open>StreamOps\<close> of \<open>stream_support.rs\<close> is a record of functions on the raw state; the two
  implementations of the source, \<open>StreamVtable\<close> and \<open>UnitStreamOps\<close>, are definitions of that record.
  The size of \<open>Payload\<close> and the value a native payload has in memory come with the type in Rust, so
  they are fields of the record too.
\<close>

section \<open>StreamOps\<close>

record ('p, 'h) stream_ops =
  so_new :: "'h raw \<Rightarrow> 64 word \<times> 'h raw"
  so_layout :: layout
  so_payload_size :: nat
  so_load :: "addr \<Rightarrow> 'h raw \<Rightarrow> 'p"
  so_native :: bool
  so_lists :: bool
  so_lower :: "'p \<Rightarrow> addr \<Rightarrow> 'h raw \<Rightarrow> 'h raw res"
  so_dealloc_lists :: "addr \<Rightarrow> 'h raw \<Rightarrow> 'h raw res"
  so_lift :: "addr \<Rightarrow> 'h raw \<Rightarrow> ('p \<times> 'h raw) res"
  so_start_write :: "u32 \<Rightarrow> addr \<Rightarrow> nat \<Rightarrow> 'h raw \<Rightarrow> u32 \<times> 'h raw"
  so_start_read :: "u32 \<Rightarrow> addr \<Rightarrow> nat \<Rightarrow> 'h raw \<Rightarrow> u32 \<times> 'h raw"
  so_cancel_read :: "u32 \<Rightarrow> 'h raw \<Rightarrow> u32 \<times> 'h raw"
  so_cancel_write :: "u32 \<Rightarrow> 'h raw \<Rightarrow> u32 \<times> 'h raw"
  so_drop_readable :: "u32 \<Rightarrow> 'h raw \<Rightarrow> 'h raw"
  so_drop_writable :: "u32 \<Rightarrow> 'h raw \<Rightarrow> 'h raw"

record ('p, 'h) stream_vtable =
  sv_layout :: layout
  sv_payload_size :: nat
  sv_load :: "addr \<Rightarrow> 'h raw \<Rightarrow> 'p"
  sv_lower :: "('p \<Rightarrow> addr \<Rightarrow> 'h raw \<Rightarrow> 'h raw) option"
  sv_dealloc_lists :: "(addr \<Rightarrow> 'h raw \<Rightarrow> 'h raw) option"
  sv_lift :: "(addr \<Rightarrow> 'h raw \<Rightarrow> 'p \<times> 'h raw) option"
  sv_start_write :: "u32 \<Rightarrow> addr \<Rightarrow> nat \<Rightarrow> 'h raw \<Rightarrow> u32 \<times> 'h raw"
  sv_start_read :: "u32 \<Rightarrow> addr \<Rightarrow> nat \<Rightarrow> 'h raw \<Rightarrow> u32 \<times> 'h raw"
  sv_cancel_write :: "u32 \<Rightarrow> 'h raw \<Rightarrow> u32 \<times> 'h raw"
  sv_cancel_read :: "u32 \<Rightarrow> 'h raw \<Rightarrow> u32 \<times> 'h raw"
  sv_drop_writable :: "u32 \<Rightarrow> 'h raw \<Rightarrow> 'h raw"
  sv_drop_readable :: "u32 \<Rightarrow> 'h raw \<Rightarrow> 'h raw"
  sv_new :: "'h raw \<Rightarrow> 64 word \<times> 'h raw"

definition vtable_ops :: "('p, 'h) stream_vtable \<Rightarrow> ('p, 'h) stream_ops" where
  "vtable_ops v =
     \<lparr>so_new = sv_new v, so_layout = sv_layout v, so_payload_size = sv_payload_size v,
      so_load = sv_load v,
      so_native = (sv_lift v = None), so_lists = (sv_dealloc_lists v \<noteq> None),
      so_lower = (\<lambda>x p r. Inr (case sv_lower v of None \<Rightarrow> r | Some f \<Rightarrow> f x p r)),
      so_dealloc_lists = (\<lambda>p r. Inr (case sv_dealloc_lists v of None \<Rightarrow> r | Some f \<Rightarrow> f p r)),
      so_lift = (\<lambda>p r. and_then (unwrap (sv_lift v)) (\<lambda>f. Inr (f p r))),
      so_start_write = sv_start_write v, so_start_read = sv_start_read v,
      so_cancel_read = sv_cancel_read v, so_cancel_write = sv_cancel_write v,
      so_drop_readable = sv_drop_readable v, so_drop_writable = sv_drop_writable v\<rparr>"

text \<open>The intrinsics of the unit stream, on which \<open>UnitStreamOps\<close> is defined.\<close>

record 'h unit_intrinsics =
  ui_new :: "'h raw \<Rightarrow> 64 word \<times> 'h raw"
  ui_write :: "u32 \<Rightarrow> addr \<Rightarrow> nat \<Rightarrow> 'h raw \<Rightarrow> u32 \<times> 'h raw"
  ui_read :: "u32 \<Rightarrow> addr \<Rightarrow> nat \<Rightarrow> 'h raw \<Rightarrow> u32 \<times> 'h raw"
  ui_cancel_read :: "u32 \<Rightarrow> 'h raw \<Rightarrow> u32 \<times> 'h raw"
  ui_cancel_write :: "u32 \<Rightarrow> 'h raw \<Rightarrow> u32 \<times> 'h raw"
  ui_drop_readable :: "u32 \<Rightarrow> 'h raw \<Rightarrow> 'h raw"
  ui_drop_writable :: "u32 \<Rightarrow> 'h raw \<Rightarrow> 'h raw"

definition unit_stream_ops :: "'h unit_intrinsics \<Rightarrow> (unit, 'h) stream_ops" where
  "unit_stream_ops u =
     \<lparr>so_new = ui_new u, so_layout = \<lparr>l_size = 0, l_align = 1\<rparr>, so_payload_size = 0,
      so_load = (\<lambda>p r. ()),
      so_native = True, so_lists = False,
      so_lower = (\<lambda>x p r. Inl Unreachable_Code), so_dealloc_lists = (\<lambda>p r. Inl Unreachable_Code),
      so_lift = (\<lambda>p r. Inl Unreachable_Code),
      so_start_write = ui_write u, so_start_read = ui_read u, so_cancel_read = ui_cancel_read u,
      so_cancel_write = ui_cancel_write u, so_drop_readable = ui_drop_readable u,
      so_drop_writable = ui_drop_writable u\<rparr>"

section \<open>Loops over the slots of a block\<close>

text \<open>A slot is as large as the element layout; the pointer moves up slot by slot.\<close>

abbreviation elem_size :: "('p, 'h) stream_ops \<Rightarrow> nat" where
  "elem_size ops \<equiv> l_size (so_layout ops)"

fun lower_all :: "('p, 'h) stream_ops \<Rightarrow> 'p list \<Rightarrow> addr \<Rightarrow> 'h machine step" where
  "lower_all ops [] p m = Inr m"
| "lower_all ops (x # xs) p m =
     and_then (so_lower ops x p (m_raw m)) (\<lambda>r.
       lower_all ops xs (p + elem_size ops) (logged [Lower p] r m))"

fun lift_all ::
    "('p, 'h) stream_ops \<Rightarrow> nat \<Rightarrow> addr \<Rightarrow> 'h machine \<Rightarrow> ('p list \<times> 'h machine) res" where
  "lift_all ops 0 p m = Inr ([], m)"
| "lift_all ops (Suc n) p m =
     and_then (so_lift ops p (m_raw m)) (\<lambda>(x, r).
       and_then (lift_all ops n (p + elem_size ops) (logged [Lift p] r m)) (\<lambda>(xs, m).
         Inr (x # xs, m)))"

section \<open>AbiBuffer\<close>

text \<open>\<open>None\<close> in the storage is a \<open>MaybeUninit\<close> whose value has been moved out.\<close>

record 'p abi_buffer =
  ab_storage :: "'p option list"
  ab_base :: addr
  ab_alloc :: "cleanup option"
  ab_cursor :: nat

definition buffer_new ::
    "'h allocator \<Rightarrow> ('p, 'h) stream_ops \<Rightarrow> addr \<Rightarrow> 'p list \<Rightarrow> 'h machine
      \<Rightarrow> ('p abi_buffer \<times> 'h machine) res" where
  "buffer_new A ops base xs m =
     (if so_native ops then
        Inr (\<lparr>ab_storage = map Some xs, ab_base = base, ab_alloc = None, ab_cursor = 0\<rparr>, m)
      else
        and_then (unwrap (from_size_align ((elem_size ops * length xs) mod 2 ^ 32)
          (l_align (so_layout ops)))) (\<lambda>l.
          and_then (cleanup_new A l m) (\<lambda>((p, c), m).
            and_then (lower_all ops xs p m) (\<lambda>m.
              Inr (\<lparr>ab_storage = map (\<lambda>_. None) xs, ab_base = base, ab_alloc = c, ab_cursor = 0\<rparr>,
                m)))))"

definition remaining :: "'p abi_buffer \<Rightarrow> nat" where
  "remaining b = length (ab_storage b) - ab_cursor b"

definition abi_ptr_and_len :: "('p, 'h) stream_ops \<Rightarrow> 'p abi_buffer \<Rightarrow> addr \<times> nat" where
  "abi_ptr_and_len ops b =
     (if so_native ops then
        (ab_base b + ab_cursor b * so_payload_size ops, length (ab_storage b) - ab_cursor b)
      else
        (cleanup_ptr (ab_alloc b) + ab_cursor b * elem_size ops,
         length (ab_storage b) - ab_cursor b))"

text \<open>The loop of \<open>advance\<close>, which counts an item as consumed before it frees its lists.\<close>

fun advance_loop ::
    "('p, 'h) stream_ops \<Rightarrow> nat \<Rightarrow> addr \<Rightarrow> 'p abi_buffer \<Rightarrow> 'h machine
      \<Rightarrow> ('p abi_buffer \<times> 'h machine) res" where
  "advance_loop ops 0 p b m = Inr (b, m)"
| "advance_loop ops (Suc n) p b m =
     (let b = b\<lparr>ab_cursor := ab_cursor b + 1\<rparr> in
      and_then (so_dealloc_lists ops p (m_raw m)) (\<lambda>r.
        advance_loop ops n (p + elem_size ops) b (logged [Dealloc_Lists p] r m)))"

definition advance ::
    "('p, 'h) stream_ops \<Rightarrow> nat \<Rightarrow> 'p abi_buffer \<Rightarrow> 'h machine
      \<Rightarrow> ('p abi_buffer \<times> 'h machine) res" where
  "advance ops amt b m =
     (if \<not> amt + ab_cursor b \<le> length (ab_storage b) then Inl Assert_Failed
      else if \<not> so_lists ops then Inr (b\<lparr>ab_cursor := ab_cursor b + amt\<rparr>, m)
      else
        (let (p, len) = abi_ptr_and_len ops b in
         if \<not> amt \<le> len then Inl Assert_Failed else advance_loop ops amt p b m))"

text \<open>Reading the initialised part of the storage back as a vector.\<close>

definition assume_init :: "'p option list \<Rightarrow> 'p list res" where
  "assume_init xs = map_res (\<lambda>x. case x of None \<Rightarrow> Inl Undefined_Behavior | Some y \<Rightarrow> Inr y) xs"

definition take_vec ::
    "'h allocator \<Rightarrow> ('p, 'h) stream_ops \<Rightarrow> 'p abi_buffer \<Rightarrow> 'h machine
      \<Rightarrow> (('p list \<times> 'p abi_buffer) \<times> 'h machine) res" where
  "take_vec A ops b m =
     and_then
       (if so_native ops then Inr (ab_storage b, m)
        else
          let (p, len) = abi_ptr_and_len ops b in
          if \<not> ab_cursor b \<le> length (ab_storage b) then Inl Index_Out_Of_Range
          else
            and_then (lift_all ops (length (drop (ab_cursor b) (ab_storage b))) p m) (\<lambda>(ys, m).
              if len - length ys = 0 \<and> length ys \<le> len
              then Inr (take (ab_cursor b) (ab_storage b) @ map Some ys, m)
              else Inl Assert_Failed))
       (\<lambda>(storage, m).
         if \<not> ab_cursor b \<le> length storage then Inl Index_Out_Of_Range
         else
           let m = drop_cleanup A (ab_alloc b) m in
           and_then (assume_init (drop (ab_cursor b) storage)) (\<lambda>xs.
             Inr ((xs, b\<lparr>ab_storage := [], ab_alloc := None, ab_cursor := 0\<rparr>), m)))"

definition buffer_drop ::
    "'h allocator \<Rightarrow> ('p, 'h) stream_ops \<Rightarrow> 'p abi_buffer \<Rightarrow> 'h machine step" where
  "buffer_drop A ops b m = and_then (take_vec A ops b m) (\<lambda>(_, m). Inr m)"

text \<open>\<open>into_vec\<close> takes the vector; the emptied buffer is dropped after it.\<close>

definition into_vec ::
    "'h allocator \<Rightarrow> ('p, 'h) stream_ops \<Rightarrow> 'p abi_buffer \<Rightarrow> 'h machine
      \<Rightarrow> ('p list \<times> 'h machine) res" where
  "into_vec A ops b m =
     and_then (take_vec A ops b m) (\<lambda>((xs, b), m).
       and_then (buffer_drop A ops b m) (\<lambda>m. Inr (xs, m)))"

section \<open>What the bindings promise\<close>

text \<open>
  \<open>R r p x\<close> says that the slot at \<open>p\<close> holds the canonical form of \<open>x\<close>, with everything that form
  owns. Lowering establishes it, lifting reads it back, and none of the three operations disturbs a
  slot apart from its own.
\<close>

definition apart :: "nat \<Rightarrow> addr \<Rightarrow> addr \<Rightarrow> bool" where
  "apart n p q \<longleftrightarrow> p + n \<le> q \<or> q + n \<le> p"

definition undisturbed ::
    "('h raw \<Rightarrow> addr \<Rightarrow> 'p \<Rightarrow> bool) \<Rightarrow> nat \<Rightarrow> addr \<Rightarrow> 'h raw \<Rightarrow> 'h raw \<Rightarrow> bool" where
  "undisturbed R n p r r' \<longleftrightarrow> (\<forall>q y. apart n p q \<and> R r q y \<longrightarrow> R r' q y)"

definition payload_contract ::
    "('p, 'h) stream_ops \<Rightarrow> ('h raw \<Rightarrow> addr \<Rightarrow> 'p \<Rightarrow> bool) \<Rightarrow> bool" where
  "payload_contract ops R \<longleftrightarrow>
     (\<forall>x p r. \<exists>r'. so_lower ops x p r = Inr r' \<and> R r' p x \<and> undisturbed R (elem_size ops) p r r') \<and>
     (\<forall>x p r. R r p x \<longrightarrow>
        (\<exists>r'. so_lift ops p r = Inr (x, r') \<and> undisturbed R (elem_size ops) p r r')) \<and>
     (\<forall>x p r. R r p x \<longrightarrow>
        (\<exists>r'. so_dealloc_lists ops p r = Inr r' \<and> undisturbed R (elem_size ops) p r r'))"

text \<open>Consecutive slots hold the values of a list.\<close>

definition slots ::
    "('h raw \<Rightarrow> addr \<Rightarrow> 'p \<Rightarrow> bool) \<Rightarrow> nat \<Rightarrow> 'h raw \<Rightarrow> addr \<Rightarrow> 'p list \<Rightarrow> bool" where
  "slots R n r p xs \<longleftrightarrow> (\<forall>i < length xs. R r (p + i * n) (xs ! i))"

text \<open>The addresses of \<open>k\<close> slots from \<open>p\<close> on.\<close>

definition slot_addrs :: "nat \<Rightarrow> addr \<Rightarrow> nat \<Rightarrow> addr list" where
  "slot_addrs n p k = map (\<lambda>i. p + i * n) [0..<k]"

lemma slot_addrs_simps [simp]:
  "slot_addrs n p 0 = []"
  "slot_addrs n p (Suc k) = p # slot_addrs n (p + n) k"
proof -
  show "slot_addrs n p (Suc k) = p # slot_addrs n (p + n) k"
    unfolding slot_addrs_def upt_conv_Cons [OF zero_less_Suc] map_Suc_upt [symmetric]
    by (simp add: algebra_simps)
qed (simp add: slot_addrs_def)

lemma slot_addrs_append:
  "slot_addrs n p (j + k) = slot_addrs n p j @ slot_addrs n (p + j * n) k"
  by (induction j arbitrary: p) (simp_all add: algebra_simps)

lemma slots_Cons: "slots R n r p (x # xs) \<longleftrightarrow> R r p x \<and> slots R n r (p + n) xs"
  unfolding slots_def by (auto simp: less_Suc_eq_0_disj algebra_simps)

lemma slots_Nil [simp]: "slots R n r p []"
  by (simp add: slots_def)

lemma slots_drop: "slots R n r p xs \<Longrightarrow> k \<le> length xs \<Longrightarrow> slots R n r (p + k * n) (drop k xs)"
  unfolding slots_def by (auto simp: algebra_simps)
    (metis add.commute add.left_commute add_mult_distrib less_diff_conv)

lemma undisturbed_slots:
  assumes "undisturbed R n p r r'" "slots R n r (p + n) xs"
  shows "slots R n r' (p + n) xs"
  using assms unfolding undisturbed_def slots_def apart_def
  by (metis add.commute le_add2 add.assoc)

lemma undisturbed_refl [simp]: "undisturbed R n p r r"
  by (simp add: undisturbed_def)

lemma contractD:
  assumes "payload_contract ops R"
  shows "\<exists>r'. so_lower ops x p r = Inr r' \<and> R r' p x \<and> undisturbed R (elem_size ops) p r r'"
    and "R r p x \<Longrightarrow> \<exists>r'. so_lift ops p r = Inr (x, r') \<and> undisturbed R (elem_size ops) p r r'"
    and "R r p x \<Longrightarrow> \<exists>r'. so_dealloc_lists ops p r = Inr r' \<and> undisturbed R (elem_size ops) p r r'"
  using assms unfolding payload_contract_def by blast+

section \<open>The loops\<close>

lemma logged_logged [simp]: "logged ds r' (logged cs r m) = logged (cs @ ds) r' m"
  by (simp add: logged_def)

lemma lower_all_ok:
  assumes c: "payload_contract ops R"
  shows "\<exists>r'. lower_all ops xs p m =
      Inr (logged (map Lower (slot_addrs (elem_size ops) p (length xs))) r' m) \<and>
    slots R (elem_size ops) r' p xs \<and>
    (\<forall>q y. q + elem_size ops \<le> p \<and> R (m_raw m) q y \<longrightarrow> R r' q y)"
proof (induction xs arbitrary: p m)
  case Nil
  then show ?case by (intro exI [of _ "m_raw m"]) (simp add: logged_def)
next
  case (Cons x xs)
  obtain r1 where r1: "so_lower ops x p (m_raw m) = Inr r1" "R r1 p x"
    "undisturbed R (elem_size ops) p (m_raw m) r1"
    using contractD(1) [OF c] by blast
  obtain r2 where r2: "lower_all ops xs (p + elem_size ops) (logged [Lower p] r1 m) =
      Inr (logged (map Lower (slot_addrs (elem_size ops) (p + elem_size ops) (length xs))) r2
        (logged [Lower p] r1 m))"
    "slots R (elem_size ops) r2 (p + elem_size ops) xs"
    "\<forall>q y. q + elem_size ops \<le> p + elem_size ops \<and> R r1 q y \<longrightarrow> R r2 q y"
    using Cons.IH [of "p + elem_size ops" "logged [Lower p] r1 m"] by auto
  have "R r2 q y" if "q + elem_size ops \<le> p" "R (m_raw m) q y" for q y
  proof -
    have "R r1 q y" using r1(3) that unfolding undisturbed_def apart_def by blast
    then show ?thesis using r2(3) that(1) by auto
  qed
  moreover have "R r2 p x" using r2(3) r1(2) by auto
  ultimately show ?case using r1(1) r2(1,2) by (intro exI [of _ r2]) (simp add: slots_Cons)
qed

lemma lift_all_ok:
  assumes c: "payload_contract ops R" and "slots R (elem_size ops) (m_raw m) p xs"
  shows "\<exists>r'. lift_all ops (length xs) p m =
    Inr (xs, logged (map Lift (slot_addrs (elem_size ops) p (length xs))) r' m)"
  using assms(2)
proof (induction xs arbitrary: p m)
  case Nil
  then show ?case by (intro exI [of _ "m_raw m"]) (simp add: logged_def)
next
  case (Cons x xs)
  obtain r1 where r1: "so_lift ops p (m_raw m) = Inr (x, r1)"
    "undisturbed R (elem_size ops) p (m_raw m) r1"
    using contractD(2) [OF c, of "m_raw m" p x] Cons.prems unfolding slots_Cons by blast
  have "slots R (elem_size ops) (m_raw (logged [Lift p] r1 m)) (p + elem_size ops) xs"
    using undisturbed_slots [OF r1(2)] Cons.prems by (simp add: slots_Cons)
  from Cons.IH [OF this] obtain r2 where "lift_all ops (length xs) (p + elem_size ops) (logged [Lift p] r1 m) =
      Inr (xs, logged (map Lift (slot_addrs (elem_size ops) (p + elem_size ops) (length xs))) r2
        (logged [Lift p] r1 m))" by blast
  then show ?case using r1(1) by (intro exI [of _ r2]) simp
qed

lemma advance_loop_ok:
  assumes c: "payload_contract ops R"
    and "slots R (elem_size ops) (m_raw m) p xs" "n \<le> length xs"
  shows "\<exists>r'. advance_loop ops n p b m =
      Inr (b\<lparr>ab_cursor := ab_cursor b + n\<rparr>,
        logged (map Dealloc_Lists (slot_addrs (elem_size ops) p n)) r' m) \<and>
    slots R (elem_size ops) r' (p + n * elem_size ops) (drop n xs)"
  using assms(2,3)
proof (induction n arbitrary: p m b xs)
  case 0
  then show ?case by (intro exI [of _ "m_raw m"]) (simp add: logged_def)
next
  case (Suc n)
  obtain x ys where xs: "xs = x # ys" using Suc.prems(2) by (cases xs) auto
  obtain r1 where r1: "so_dealloc_lists ops p (m_raw m) = Inr r1"
    "undisturbed R (elem_size ops) p (m_raw m) r1"
    using contractD(3) [OF c, of "m_raw m" p x] Suc.prems(1) unfolding xs slots_Cons by blast
  have s: "slots R (elem_size ops) (m_raw (logged [Dealloc_Lists p] r1 m)) (p + elem_size ops) ys"
    using undisturbed_slots [OF r1(2)] Suc.prems(1) by (simp add: slots_Cons xs)
  have "n \<le> length ys" using Suc.prems(2) by (simp add: xs)
  from Suc.IH [OF s this, of "b\<lparr>ab_cursor := ab_cursor b + 1\<rparr>"] r1(1) show ?case
    by (auto simp: xs algebra_simps)
qed

section \<open>The buffer\<close>

text \<open>The buffer was made from \<open>xs\<close>, and the first \<open>k\<close> items have been consumed.\<close>

definition buffer_holds ::
    "('p, 'h) stream_ops \<Rightarrow> ('h raw \<Rightarrow> addr \<Rightarrow> 'p \<Rightarrow> bool) \<Rightarrow> 'p list \<Rightarrow> nat \<Rightarrow> 'p abi_buffer
      \<Rightarrow> 'h raw \<Rightarrow> bool" where
  "buffer_holds ops R xs k b r \<longleftrightarrow>
     k \<le> length xs \<and> ab_cursor b = k \<and> length (ab_storage b) = length xs \<and>
     (if so_native ops then ab_storage b = map Some xs \<and> ab_alloc b = None
      else slots R (elem_size ops) r (cleanup_ptr (ab_alloc b) + k * elem_size ops) (drop k xs))"

definition ops_ok :: "('p, 'h) stream_ops \<Rightarrow> ('h raw \<Rightarrow> addr \<Rightarrow> 'p \<Rightarrow> bool) \<Rightarrow> bool" where
  "ops_ok ops R \<longleftrightarrow> (if so_native ops then \<not> so_lists ops else payload_contract ops R)"

lemma buffer_new_ok:
  assumes A: "never_fails A" and c: "ops_ok ops R"
    and l: "from_size_align (elem_size ops * length xs) (l_align (so_layout ops)) \<noteq> None"
  shows "\<exists>b m'. buffer_new A ops base xs m = Inr (b, m') \<and> buffer_holds ops R xs 0 b (m_raw m') \<and>
    m_log m' = m_log m @ alloc_calls (ab_alloc b) @
      (if so_native ops then []
       else map Lower (slot_addrs (elem_size ops) (cleanup_ptr (ab_alloc b)) (length xs)))"
proof (cases "so_native ops")
  case True
  then show ?thesis by (simp add: buffer_new_def buffer_holds_def alloc_calls_def)
next
  case False
  obtain lay where lay: "from_size_align (elem_size ops * length xs) (l_align (so_layout ops)) = Some lay"
    using l by auto
  then have "elem_size ops * length xs < 2 ^ 32"
    by (auto simp: from_size_align_def split: if_splits)
  then have eq: "(elem_size ops * length xs) mod 2 ^ 32 = elem_size ops * length xs" by simp
  obtain p c1 r where n: "cleanup_new A lay m = Inr ((p, c1), logged (alloc_calls c1) r m)"
    "p = cleanup_ptr c1"
    by (rule cleanup_new_ok [OF A]) (rule that)
  have "payload_contract ops R" using c False by (simp add: ops_ok_def)
  then obtain r' where r': "lower_all ops xs p (logged (alloc_calls c1) r m) =
      Inr (logged (map Lower (slot_addrs (elem_size ops) p (length xs))) r' (logged (alloc_calls c1) r m))"
    "slots R (elem_size ops) r' p xs"
    using lower_all_ok by blast
  show ?thesis
    unfolding buffer_new_def eq lay using False n r' by (simp add: buffer_holds_def)
qed

lemma advance_ok:
  assumes c: "ops_ok ops R" and b: "buffer_holds ops R xs k b (m_raw m)" and n: "k + n \<le> length xs"
  shows "\<exists>r'. advance ops n b m = Inr (b\<lparr>ab_cursor := k + n\<rparr>,
      logged (if so_lists ops
        then map Dealloc_Lists (slot_addrs (elem_size ops) (fst (abi_ptr_and_len ops b)) n) else []) r' m) \<and>
    buffer_holds ops R xs (k + n) (b\<lparr>ab_cursor := k + n\<rparr>) r'"
proof (cases "so_lists ops")
  case False
  have s: "slots R (elem_size ops) (m_raw m) (p + (k + n) * elem_size ops) (drop (k + n) xs)"
    if "slots R (elem_size ops) (m_raw m) (p + k * elem_size ops) (drop k xs)" for p
    using slots_drop [OF that, of n] n by (simp add: algebra_simps)
  have "logged [] (m_raw m) m = m" by (simp add: logged_def)
  then show ?thesis using False b n s
    by (intro exI [of _ "m_raw m"]) (auto simp: advance_def buffer_holds_def algebra_simps)
next
  case True
  then have nn: "\<not> so_native ops" and pc: "payload_contract ops R"
    using c by (auto simp: ops_ok_def split: if_splits)
  have sl: "slots R (elem_size ops) (m_raw m) (cleanup_ptr (ab_alloc b) + k * elem_size ops) (drop k xs)"
    using b nn by (simp add: buffer_holds_def)
  obtain r' where r': "advance_loop ops n (cleanup_ptr (ab_alloc b) + k * elem_size ops) b m =
      Inr (b\<lparr>ab_cursor := ab_cursor b + n\<rparr>, logged (map Dealloc_Lists
        (slot_addrs (elem_size ops) (cleanup_ptr (ab_alloc b) + k * elem_size ops) n)) r' m)"
    "slots R (elem_size ops) r' (cleanup_ptr (ab_alloc b) + k * elem_size ops + n * elem_size ops)
      (drop n (drop k xs))"
    using advance_loop_ok [OF pc sl, of n b] n unfolding length_drop by (metis add_le_imp_le_diff add.commute)
  show ?thesis
    using r' True nn b n
    by (intro exI [of _ r']) (simp add: advance_def buffer_holds_def abi_ptr_and_len_def algebra_simps)
qed

lemma assume_init_map [simp]: "assume_init (map Some xs) = Inr xs"
  unfolding assume_init_def by (induction xs) simp_all

lemma take_vec_ok:
  assumes c: "ops_ok ops R" and b: "buffer_holds ops R xs k b (m_raw m)"
  shows "\<exists>m'. take_vec A ops b m =
      Inr ((drop k xs, b\<lparr>ab_storage := [], ab_alloc := None, ab_cursor := 0\<rparr>), m') \<and>
    m_log m' = m_log m @
      (if so_native ops then []
       else map Lift (slot_addrs (elem_size ops) (fst (abi_ptr_and_len ops b)) (length xs - k))) @
      dealloc_calls (ab_alloc b)"
proof (cases "so_native ops")
  case True
  then show ?thesis using b by (simp add: take_vec_def buffer_holds_def drop_map drop_cleanup_def dealloc_calls_def)
next
  case False
  then have pc: "payload_contract ops R" using c by (simp add: ops_ok_def)
  have sl: "slots R (elem_size ops) (m_raw m) (cleanup_ptr (ab_alloc b) + k * elem_size ops) (drop k xs)"
    using b False by (simp add: buffer_holds_def)
  obtain r' where r': "lift_all ops (length xs - k) (cleanup_ptr (ab_alloc b) + k * elem_size ops) m =
      Inr (drop k xs, logged (map Lift
        (slot_addrs (elem_size ops) (cleanup_ptr (ab_alloc b) + k * elem_size ops) (length xs - k))) r' m)"
    using lift_all_ok [OF pc sl] by auto
  have "drop k (take k (ab_storage b)) = []" by simp
  then show ?thesis
    using r' False b by (simp add: take_vec_def buffer_holds_def abi_ptr_and_len_def Let_def)
qed

text \<open>The emptied buffer that \<open>into_vec\<close> drops holds nothing.\<close>

lemma emptied_buffer_drop:
  "buffer_drop A ops (b\<lparr>ab_storage := [], ab_alloc := None, ab_cursor := 0\<rparr>) m = Inr m"
  by (simp add: buffer_drop_def take_vec_def abi_ptr_and_len_def drop_cleanup_def assume_init_def)

lemma into_vec_ok:
  assumes "ops_ok ops R" "buffer_holds ops R xs k b (m_raw m)"
  shows "\<exists>m'. into_vec A ops b m = Inr (drop k xs, m') \<and>
    m_log m' = m_log m @
      (if so_native ops then []
       else map Lift (slot_addrs (elem_size ops) (fst (abi_ptr_and_len ops b)) (length xs - k))) @
      dealloc_calls (ab_alloc b)"
  using take_vec_ok [OF assms, of A] emptied_buffer_drop [of A ops b] by (auto simp: into_vec_def)

lemma buffer_holds_remaining: "buffer_holds ops R xs k b r \<Longrightarrow> remaining b = length xs - k"
  by (simp add: buffer_holds_def remaining_def)

section \<open>Keeping the slots\<close>

definition keeps_slots :: "('h raw \<Rightarrow> addr \<Rightarrow> 'p \<Rightarrow> bool) \<Rightarrow> 'h raw \<Rightarrow> 'h raw \<Rightarrow> bool" where
  "keeps_slots R r r' \<longleftrightarrow> (\<forall>p x. R r p x \<longrightarrow> R r' p x)"

lemma keeps_slotsD: "keeps_slots R r r' \<Longrightarrow> R r p x \<Longrightarrow> R r' p x"
  unfolding keeps_slots_def by blast

lemma slots_keep: "slots R n r p xs \<Longrightarrow> keeps_slots R r r' \<Longrightarrow> slots R n r' p xs"
  by (simp add: slots_def keeps_slots_def)

lemma buffer_holds_keep:
  "buffer_holds ops R xs k b r \<Longrightarrow> keeps_slots R r r' \<Longrightarrow> buffer_holds ops R xs k b r'"
  by (auto simp: buffer_holds_def intro: slots_keep)

text \<open>A step that keeps every slot and neither takes nor gives memory.\<close>

definition mem_quiet :: "('h raw \<Rightarrow> addr \<Rightarrow> 'p \<Rightarrow> bool) \<Rightarrow> 'h machine \<Rightarrow> 'h machine \<Rightarrow> bool" where
  "mem_quiet R m m' \<longleftrightarrow> keeps_slots R (m_raw m) (m_raw m') \<and> mem_calls m' = mem_calls m"

end
