(* ===== verification/Rt_Shared.thy ===== *)
theory Rt_Shared
  imports Rt_Abi_Buffer
begin

text \<open>
  \<open>SharedTaskState\<close> and its C ABI (\<open>async_support.rs\<close>), \<open>WaitableSet\<close> (\<open>waitable_set.rs\<close>) and the
  wake-up half of \<open>inter_task_wakeup.rs\<close>. Tasks and completion cells are an explicit store, since
  an operation shares a pointer to its cell with the task that waits for it. The \<open>TryLock\<close>s of the
  source only provide interior mutability: no lock is held while other code runs.
\<close>

section \<open>The world\<close>

text \<open>A waker of the standard library: that of a task, or any other one.\<close>

datatype waker = Task_Waker nat | Other_Waker nat

text \<open>\<open>CompletionStatus\<close>\<close>

record completion =
  cs_code :: "u32 option"
  cs_waker :: "waker option"

definition no_completion :: completion where
  "no_completion = \<lparr>cs_code = None, cs_waker = None\<rparr>"

text \<open>
  \<open>SharedTaskState\<close>, with the reference count of its \<open>Arc\<close>; a waitable is mapped to the pointer that
  was registered with it. The writer is the half of the inter-task stream that wakes the task.
\<close>

record shared =
  sh_sleep :: u32
  sh_writer :: "u32 option"
  sh_waitables :: "u32 \<Rightarrow> addr option"
  sh_set :: "u32 option"
  sh_refs :: nat

text \<open>The current task is what \<open>wasip3_task_set\<close> was last given: a task and its ABI version.\<close>

record 'h rt_world =
  w_mach :: "'h machine"
  w_tasks :: "nat \<Rightarrow> shared"
  w_current :: "(nat \<times> nat) option"
  w_cells :: "addr \<Rightarrow> completion"

record 'h rt_env =
  re_alloc :: "'h allocator"
  re_set_new :: "'h raw \<Rightarrow> u32 \<times> 'h raw"
  re_join :: "u32 \<Rightarrow> u32 \<Rightarrow> 'h raw \<Rightarrow> 'h raw"
  re_wait :: "u32 \<Rightarrow> 'h raw \<Rightarrow> (u32 \<times> u32 \<times> u32) \<times> 'h raw"
  re_poll :: "u32 \<Rightarrow> 'h raw \<Rightarrow> (u32 \<times> u32 \<times> u32) \<times> 'h raw"
  re_set_drop :: "u32 \<Rightarrow> 'h raw \<Rightarrow> 'h raw"
  re_unit :: "'h unit_intrinsics"
  re_inter_task :: bool

definition on_mach :: "('h machine \<Rightarrow> 'h machine) \<Rightarrow> 'h rt_world \<Rightarrow> 'h rt_world" where
  "on_mach f w = w\<lparr>w_mach := f (w_mach w)\<rparr>"

definition set_task :: "nat \<Rightarrow> shared \<Rightarrow> 'h rt_world \<Rightarrow> 'h rt_world" where
  "set_task t s w = w\<lparr>w_tasks := (w_tasks w)(t := s)\<rparr>"

definition set_cell :: "addr \<Rightarrow> completion \<Rightarrow> 'h rt_world \<Rightarrow> 'h rt_world" where
  "set_cell c s w = w\<lparr>w_cells := (w_cells w)(c := s)\<rparr>"

lemma world_simps [simp]:
  "w_tasks (on_mach f w) = w_tasks w" "w_current (on_mach f w) = w_current w"
  "w_cells (on_mach f w) = w_cells w" "w_mach (on_mach f w) = f (w_mach w)"
  "w_mach (set_task t s w) = w_mach w" "w_current (set_task t s w) = w_current w"
  "w_cells (set_task t s w) = w_cells w" "w_tasks (set_task t s w) = (w_tasks w)(t := s)"
  "w_mach (set_cell c d w) = w_mach w" "w_current (set_cell c d w) = w_current w"
  "w_tasks (set_cell c d w) = w_tasks w" "w_cells (set_cell c d w) = (w_cells w)(c := d)"
  by (simp_all add: on_mach_def set_task_def set_cell_def)

section \<open>Waitable sets\<close>

definition set_new :: "'h rt_env \<Rightarrow> 'h machine \<Rightarrow> (u32 \<times> 'h machine) res" where
  "set_new E m =
     (let (s, r) = re_set_new E (m_raw m) in
      if s = 0 then Inl Unwrap_None else Inr (s, logged [Set_New s] r m))"

definition set_join :: "'h rt_env \<Rightarrow> u32 \<Rightarrow> u32 \<Rightarrow> 'h machine \<Rightarrow> 'h machine" where
  "set_join E s waitable m = logged [Join waitable s] (re_join E waitable s (m_raw m)) m"

definition remove_waitable_from_all_sets :: "'h rt_env \<Rightarrow> u32 \<Rightarrow> 'h machine \<Rightarrow> 'h machine" where
  "remove_waitable_from_all_sets E waitable m = logged [Join waitable 0] (re_join E waitable 0 (m_raw m)) m"

definition set_wait :: "'h rt_env \<Rightarrow> u32 \<Rightarrow> 'h machine \<Rightarrow> (u32 \<times> u32 \<times> u32) \<times> 'h machine" where
  "set_wait E s m = (let (e, r) = re_wait E s (m_raw m) in (e, logged [Set_Wait s e] r m))"

definition set_poll :: "'h rt_env \<Rightarrow> u32 \<Rightarrow> 'h machine \<Rightarrow> (u32 \<times> u32 \<times> u32) \<times> 'h machine" where
  "set_poll E s m = (let (e, r) = re_poll E s (m_raw m) in (e, logged [Set_Poll s e] r m))"

definition set_drop :: "'h rt_env \<Rightarrow> u32 \<Rightarrow> 'h machine \<Rightarrow> 'h machine" where
  "set_drop E s m = logged [Set_Drop s] (re_set_drop E s (m_raw m)) m"

section \<open>The C ABI of a task\<close>

definition add_waitable :: "'h rt_env \<Rightarrow> nat \<Rightarrow> u32 \<Rightarrow> 'h rt_world step" where
  "add_waitable E t waitable w =
     and_then
       (case sh_set (w_tasks w t) of
          Some s \<Rightarrow> Inr (s, w)
        | None \<Rightarrow>
            and_then (set_new E (w_mach w)) (\<lambda>(s, m).
              Inr (s, set_task t ((w_tasks w t)\<lparr>sh_set := Some s\<rparr>) (w\<lparr>w_mach := m\<rparr>))))
       (\<lambda>(s, w). Inr (on_mach (set_join E s waitable) w))"

definition waitable_register :: "'h rt_env \<Rightarrow> nat \<Rightarrow> u32 \<Rightarrow> addr \<Rightarrow> 'h rt_world \<Rightarrow> (addr \<times> 'h rt_world) res" where
  "waitable_register E t waitable ptr w =
     and_then (add_waitable E t waitable w) (\<lambda>w.
       let s = w_tasks w t in
       Inr (case sh_waitables s waitable of Some prev \<Rightarrow> prev | None \<Rightarrow> 0,
         set_task t (s\<lparr>sh_waitables := (sh_waitables s)(waitable \<mapsto> ptr)\<rparr>) w))"

definition waitable_unregister :: "'h rt_env \<Rightarrow> nat \<Rightarrow> u32 \<Rightarrow> 'h rt_world \<Rightarrow> addr \<times> 'h rt_world" where
  "waitable_unregister E t waitable w =
     (let w = on_mach (remove_waitable_from_all_sets E waitable) w; s = w_tasks w t in
      (case sh_waitables s waitable of Some prev \<Rightarrow> prev | None \<Rightarrow> 0,
       set_task t (s\<lparr>sh_waitables := (sh_waitables s)(waitable := None)\<rparr>) w))"

definition cabi_clone :: "nat \<Rightarrow> 'h rt_world \<Rightarrow> 'h rt_world" where
  "cabi_clone t w = (let s = w_tasks w t in set_task t (s\<lparr>sh_refs := sh_refs s + 1\<rparr>) w)"

text \<open>
  Dropping the last reference drops the writer of the inter-task stream and then the waitable set. The
  record of a task that is gone stays in the store; nothing refers to it any more.
\<close>

definition shared_destroy :: "'h rt_env \<Rightarrow> shared \<Rightarrow> 'h machine \<Rightarrow> 'h machine" where
  "shared_destroy E s m =
     (let m = (case sh_writer s of None \<Rightarrow> m
        | Some h \<Rightarrow> logged [Drop_Writable h] (ui_drop_writable (re_unit E) h (m_raw m)) m) in
      case sh_set s of None \<Rightarrow> m | Some st \<Rightarrow> set_drop E st m)"

definition cabi_drop :: "'h rt_env \<Rightarrow> nat \<Rightarrow> 'h rt_world \<Rightarrow> 'h rt_world" where
  "cabi_drop E t w =
     (let s = w_tasks w t; w = set_task t (s\<lparr>sh_refs := sh_refs s - 1\<rparr>) w in
      if sh_refs s = 1 then on_mach (shared_destroy E s) w else w)"

section \<open>Waking a task\<close>

definition SLEEP_STATE_POLLING :: u32 where "SLEEP_STATE_POLLING = 0"
definition SLEEP_STATE_WOKEN :: u32 where "SLEEP_STATE_WOKEN = 1"
definition SLEEP_STATE_SLEEPING :: u32 where "SLEEP_STATE_SLEEPING = 2"

lemmas sleep_defs = SLEEP_STATE_POLLING_def SLEEP_STATE_WOKEN_def SLEEP_STATE_SLEEPING_def

text \<open>\<open>WakerState::wake\<close>, with the feature \<open>inter-task-wakeup\<close> and without it.\<close>

definition waker_state_wake :: "'h rt_env \<Rightarrow> u32 option \<Rightarrow> 'h machine step" where
  "waker_state_wake E writer m =
     and_then (unwrap writer) (\<lambda>h.
       let (rc, r) = ui_write (re_unit E) h 0 1 (m_raw m) in
       if rc = COMPLETED OR push_bit 4 1 then Inr (logged [Write_Call h 0 1 rc] r m)
       else Inl Assert_Failed)"

definition waker_state_wake_disabled :: "'h machine step" where
  "waker_state_wake_disabled m = Inl Explicit_Panic"

definition wake_task :: "'h rt_env \<Rightarrow> nat \<Rightarrow> 'h rt_world step" where
  "wake_task E t w =
     (let s = w_tasks w t; old = sh_sleep s; w = set_task t (s\<lparr>sh_sleep := SLEEP_STATE_WOKEN\<rparr>) w in
      if old = SLEEP_STATE_POLLING \<or> old = SLEEP_STATE_WOKEN then Inr w
      else if old \<noteq> SLEEP_STATE_SLEEPING then Inl Assert_Failed
      else
        and_then
          (if re_inter_task E then waker_state_wake E (sh_writer s) (w_mach w)
           else waker_state_wake_disabled (w_mach w))
          (\<lambda>m. Inr (w\<lparr>w_mach := m\<rparr>)))"

text \<open>Waking any waker; \<open>other\<close> is what the other wakers do.\<close>

definition wake :: "'h rt_env \<Rightarrow> (nat \<Rightarrow> 'h rt_world step) \<Rightarrow> waker \<Rightarrow> 'h rt_world step" where
  "wake E other k w = (case k of Task_Waker t \<Rightarrow> wake_task E t w | Other_Waker i \<Rightarrow> other i w)"

text \<open>The callback that \<open>register_waker\<close> installs: fill in the code, take the waker and wake it.\<close>

definition cabi_wake :: "'h rt_env \<Rightarrow> (nat \<Rightarrow> 'h rt_world step) \<Rightarrow> addr \<Rightarrow> u32 \<Rightarrow> 'h rt_world step" where
  "cabi_wake E other ptr code w =
     (let d = w_cells w ptr; w = set_cell ptr \<lparr>cs_code = Some code, cs_waker = None\<rparr> w in
      and_then (unwrap (cs_waker d)) (\<lambda>k. wake E other k w))"

text \<open>
  \<open>deliver_waitable_event\<close> for an event that the inter-task stream does not consume: the waitable
  leaves the set and the map before its callback runs.
\<close>

definition deliver :: "'h rt_env \<Rightarrow> (nat \<Rightarrow> 'h rt_world step) \<Rightarrow> nat \<Rightarrow> u32 \<Rightarrow> u32 \<Rightarrow> 'h rt_world step" where
  "deliver E other t waitable code w =
     (let w = on_mach (remove_waitable_from_all_sets E waitable) w; s = w_tasks w t in
      and_then (unwrap (sh_waitables s waitable)) (\<lambda>ptr.
        cabi_wake E other ptr code
          (set_task t (s\<lparr>sh_waitables := (sh_waitables s)(waitable := None)\<rparr>) w)))"

end
