(* ===== verification/Rt_Waitable.thy ===== *)
theory Rt_Waitable
  imports Rt_Shared
begin

text \<open>
  \<open>WaitableOperation\<close> of \<open>async_support/waitable.rs\<close>: the life cycle of every asynchronous read, write
  and call. The trait \<open>WaitableOp\<close> is the record \<open>waitable_op\<close>; what its implementations
  promise is the locale \<open>waitable_protocol\<close> of \<open>Rt_Protocol\<close>, inside which the safety of polling,
  cancelling and dropping is proved once for streams, futures and subtasks.
\<close>

section \<open>The trait\<close>

text \<open>What \<open>in_progress_update\<close> returns: \<open>Ok\<close> of a result or \<open>Err\<close> of a new state.\<close>

datatype ('r, 'i) update = Complete 'r | Still 'i

record ('s, 'a, 'i, 'r, 'c, 'h) waitable_op =
  wop_start :: "'a \<Rightarrow> 's \<times> 'h machine \<Rightarrow> ((u32 \<times> 'i) \<times> 's \<times> 'h machine) res"
  wop_update :: "'i \<Rightarrow> u32 \<Rightarrow> 's \<times> 'h machine \<Rightarrow> (('r, 'i) update \<times> 's \<times> 'h machine) res"
  wop_start_cancelled :: "'a \<Rightarrow> 's \<times> 'h machine \<Rightarrow> ('c \<times> 's \<times> 'h machine) res"
  wop_waitable :: "'i \<Rightarrow> 's \<Rightarrow> u32 res"
  wop_cancel :: "'i \<Rightarrow> 's \<times> 'h machine \<Rightarrow> (u32 \<times> 's \<times> 'h machine) res"
  wop_into_cancel :: "'r \<Rightarrow> 's \<times> 'h machine \<Rightarrow> ('c \<times> 's \<times> 'h machine) res"

section \<open>The operation\<close>

text \<open>\<open>CabiTask\<close>: a clone of a task and the waitable registered with it.\<close>

record cabi_task =
  ct_ptr :: nat
  ct_registered :: "u32 option"

datatype ('a, 'i) op_state = Start 'a | In_Progress 'i | Done

record ('s, 'a, 'i) operation =
  wo_op :: 's
  wo_state :: "('a, 'i) op_state"
  wo_task :: "cabi_task option"
  wo_cell :: addr

type_synonym ('s, 'a, 'i, 'h) run = "('s, 'a, 'i) operation \<times> 'h rt_world"

text \<open>The cell is the pinned \<open>CompletionStatus\<close> of the operation; its address is given.\<close>

definition operation_new :: "'s \<Rightarrow> 'a \<Rightarrow> addr \<Rightarrow> 'h rt_world \<Rightarrow> ('s, 'a, 'i, 'h) run" where
  "operation_new op a c w =
     (\<lparr>wo_op = op, wo_state = Start a, wo_task = None, wo_cell = c\<rparr>, set_cell c no_completion w)"

definition is_done :: "('s, 'a, 'i) operation \<Rightarrow> bool" where
  "is_done o1 \<longleftrightarrow> (case wo_state o1 of Done \<Rightarrow> True | _ \<Rightarrow> False)"

definition cabi_task_new :: "nat \<Rightarrow> 'h rt_world \<Rightarrow> cabi_task \<times> 'h rt_world" where
  "cabi_task_new t w = (\<lparr>ct_ptr = t, ct_registered = None\<rparr>, cabi_clone t w)"

definition cabi_task_unregister ::
    "'h rt_env \<Rightarrow> cabi_task \<Rightarrow> u32 \<Rightarrow> 'h rt_world \<Rightarrow> addr \<times> cabi_task \<times> 'h rt_world" where
  "cabi_task_unregister E ct waitable w =
     (let (prev, w) = waitable_unregister E (ct_ptr ct) waitable w in
      (prev, ct\<lparr>ct_registered := None\<rparr>, w))"

definition cabi_task_drop :: "'h rt_env \<Rightarrow> cabi_task \<Rightarrow> 'h rt_world \<Rightarrow> 'h rt_world" where
  "cabi_task_drop E ct w =
     cabi_drop E (ct_ptr ct)
       (case ct_registered ct of
          None \<Rightarrow> w
        | Some waitable \<Rightarrow> snd (snd (cabi_task_unregister E ct waitable w)))"

section \<open>Registering and unregistering the waker\<close>

text \<open>Keep the stored task, or store a clone of the current one, which drops the previous one.\<close>

definition insert_task ::
    "'h rt_env \<Rightarrow> nat \<Rightarrow> cabi_task option \<Rightarrow> 'h rt_world \<Rightarrow> cabi_task \<times> 'h rt_world" where
  "insert_task E t stored w =
     (case stored of
        Some prev \<Rightarrow>
          if ct_ptr prev = t then (prev, w)
          else (let (ct, w) = cabi_task_new t w in (ct, cabi_task_drop E prev w))
      | None \<Rightarrow> cabi_task_new t w)"

definition register_waker ::
    "'h rt_env \<Rightarrow> u32 \<Rightarrow> waker \<Rightarrow> ('s, 'a, 'i, 'h) run step" where
  "register_waker E waitable cx = (\<lambda>(o1, w).
     if cs_code (w_cells w (wo_cell o1)) \<noteq> None then Inl Assert_Failed
     else
       let w = set_cell (wo_cell o1) ((w_cells w (wo_cell o1))\<lparr>cs_waker := Some cx\<rparr>) w;
           task = w_current w; w = w\<lparr>w_current := None\<rparr> in
       (case task of
          None \<Rightarrow> Inl Assert_Failed
        | Some (t, version) \<Rightarrow>
            if version < 1 then Inl Assert_Failed
            else
              let (stored, w) =
                (if 2 \<le> version
                 then (let (ct, w) = insert_task E t (wo_task o1) w in
                       (Some (ct\<lparr>ct_registered := Some waitable\<rparr>), w))
                 else (wo_task o1, w))
              in
              and_then (waitable_register E t waitable (wo_cell o1) w) (\<lambda>(prev, w).
                if prev \<noteq> 0 \<and> prev \<noteq> wo_cell o1 then Inl Assert_Failed
                else Inr (o1\<lparr>wo_task := stored\<rparr>, w\<lparr>w_current := task\<rparr>))))"

definition unregister_waker :: "'h rt_env \<Rightarrow> u32 \<Rightarrow> ('s, 'a, 'i, 'h) run step" where
  "unregister_waker E waitable = (\<lambda>(o1, w).
     and_then
       (case wo_task o1 of
          Some ct \<Rightarrow>
            (let (prev, ct, w) = cabi_task_unregister E ct waitable w in Inr (prev, Some ct, w))
        | None \<Rightarrow>
            (case w_current w of
               None \<Rightarrow> Inl Assert_Failed
             | Some (t, version) \<Rightarrow>
                 if version < 1 then Inl Assert_Failed
                 else
                   let (prev, w') = waitable_unregister E t waitable (w\<lparr>w_current := None\<rparr>) in
                   Inr (prev, None, w'\<lparr>w_current := w_current w\<rparr>)))
       (\<lambda>(prev, task, w).
         if prev \<noteq> 0 \<and> prev \<noteq> wo_cell o1 then Inl Assert_Failed
         else Inr (o1\<lparr>wo_task := task\<rparr>, w)))"

section \<open>Polling and cancelling\<close>

text \<open>Running a method of the trait on the operation's own state and the machine.\<close>

definition with_op ::
    "('s \<times> 'h machine \<Rightarrow> ('x \<times> 's \<times> 'h machine) res) \<Rightarrow> ('s, 'a, 'i, 'h) run
      \<Rightarrow> ('x \<times> ('s, 'a, 'i, 'h) run) res" where
  "with_op f = (\<lambda>(o1, w).
     and_then (f (wo_op o1, w_mach w)) (\<lambda>(x, s, m). Inr (x, o1\<lparr>wo_op := s\<rparr>, w\<lparr>w_mach := m\<rparr>)))"

definition poll_complete_with_code ::
    "('s, 'a, 'i, 'r, 'c, 'h) waitable_op \<Rightarrow> 'h rt_env \<Rightarrow> waker option \<Rightarrow> u32 option
      \<Rightarrow> ('s, 'a, 'i, 'h) run \<Rightarrow> ('r option \<times> ('s, 'a, 'i, 'h) run) res" where
  "poll_complete_with_code W E cx optional_code = (\<lambda>(o1, w).
     and_then
       (case optional_code of
          None \<Rightarrow> Inr (None, o1, w)
        | Some code \<Rightarrow>
            let o1 = o1\<lparr>wo_task := map_option (\<lambda>ct. ct\<lparr>ct_registered := None\<rparr>) (wo_task o1)\<rparr> in
            (case wo_state o1 of
               In_Progress i \<Rightarrow>
                 and_then (with_op (wop_update W i code) (o1\<lparr>wo_state := Done\<rparr>, w)) (\<lambda>(u, o1, w).
                   case u of
                     Complete x \<Rightarrow> Inr (Some x, o1, w)
                   | Still i \<Rightarrow> Inr (None, o1\<lparr>wo_state := In_Progress i\<rparr>, w))
             | _ \<Rightarrow> Inl Unreachable_Code))
       (\<lambda>(ready, o1, w).
         case ready of
           Some x \<Rightarrow> Inr (Some x, o1, w)
         | None \<Rightarrow>
             (case wo_state o1 of
                In_Progress i \<Rightarrow>
                  (case cx of
                     None \<Rightarrow> Inr (None, o1, w)
                   | Some k \<Rightarrow>
                       and_then (wop_waitable W i (wo_op o1)) (\<lambda>h.
                         and_then (register_waker E h k (o1, w)) (\<lambda>(o1, w). Inr (None, o1, w))))
              | _ \<Rightarrow> Inl Unreachable_Code)))"

text \<open>\<open>None\<close> is \<open>Poll::Pending\<close>.\<close>

definition poll_complete ::
    "('s, 'a, 'i, 'r, 'c, 'h) waitable_op \<Rightarrow> 'h rt_env \<Rightarrow> waker \<Rightarrow> ('s, 'a, 'i, 'h) run
      \<Rightarrow> ('r option \<times> ('s, 'a, 'i, 'h) run) res" where
  "poll_complete W E cx = (\<lambda>(o1, w).
     case wo_state o1 of
       Start a \<Rightarrow>
         and_then (with_op (wop_start W a) (o1\<lparr>wo_state := Done\<rparr>, w)) (\<lambda>((code, i), o1, w).
           poll_complete_with_code W E (Some cx) (Some code) (o1\<lparr>wo_state := In_Progress i\<rparr>, w))
     | In_Progress i \<Rightarrow>
         let d = w_cells w (wo_cell o1) in
         poll_complete_with_code W E (Some cx) (cs_code d)
           (o1, set_cell (wo_cell o1) (d\<lparr>cs_code := None\<rparr>) w)
     | Done \<Rightarrow> Inl Explicit_Panic)"

text \<open>The last part of \<open>cancel\<close>: the operation is in progress and not registered.\<close>

definition cancel_in_progress ::
    "('s, 'a, 'i, 'r, 'c, 'h) waitable_op \<Rightarrow> 'h rt_env \<Rightarrow> ('s, 'a, 'i, 'h) run
      \<Rightarrow> ('c \<times> ('s, 'a, 'i, 'h) run) res" where
  "cancel_in_progress W E = (\<lambda>(o1, w).
     case wo_state o1 of
       In_Progress i \<Rightarrow>
         and_then (with_op (wop_cancel W i) (o1, w)) (\<lambda>(code, o1, w).
           and_then (poll_complete_with_code W E None (Some code) (o1, w)) (\<lambda>(ready, o1, w).
             case ready of
               Some x \<Rightarrow> with_op (wop_into_cancel W x) (o1, w)
             | None \<Rightarrow> Inl Unreachable_Code))
     | _ \<Rightarrow> Inl Unreachable_Code)"

definition cancel ::
    "('s, 'a, 'i, 'r, 'c, 'h) waitable_op \<Rightarrow> 'h rt_env \<Rightarrow> ('s, 'a, 'i, 'h) run
      \<Rightarrow> ('c \<times> ('s, 'a, 'i, 'h) run) res" where
  "cancel W E = (\<lambda>(o1, w).
     case wo_state o1 of
       Start a \<Rightarrow> with_op (wop_start_cancelled W a) (o1\<lparr>wo_state := Done\<rparr>, w)
     | In_Progress i \<Rightarrow>
         let d = w_cells w (wo_cell o1); w = set_cell (wo_cell o1) (d\<lparr>cs_code := None\<rparr>) w in
         (case cs_code d of
            Some code \<Rightarrow>
              and_then (poll_complete_with_code W E None (Some code) (o1, w)) (\<lambda>(ready, o1, w).
                case ready of
                  Some x \<Rightarrow> with_op (wop_into_cancel W x) (o1, w)
                | None \<Rightarrow> cancel_in_progress W E (o1, w))
          | None \<Rightarrow>
              and_then (wop_waitable W i (wo_op o1)) (\<lambda>h.
                and_then (unregister_waker E h (o1, w)) (cancel_in_progress W E)))
     | Done \<Rightarrow> Inl Explicit_Panic)"

text \<open>\<open>Drop\<close>: cancel what is not done, then drop the stored task with the other fields.\<close>

definition operation_drop ::
    "('s, 'a, 'i, 'r, 'c, 'h) waitable_op \<Rightarrow> 'h rt_env \<Rightarrow> ('s, 'a, 'i, 'h) run
      \<Rightarrow> ('c option \<times> ('s, 'a, 'i, 'h) run) res" where
  "operation_drop W E = (\<lambda>(o1, w).
     and_then
       (if is_done o1 then Inr (None, o1, w)
        else and_then (cancel W E (o1, w)) (\<lambda>(c, o1, w). Inr (Some c, o1, w)))
       (\<lambda>(c, o1, w).
         Inr (c, o1\<lparr>wo_task := None\<rparr>,
           case wo_task o1 of None \<Rightarrow> w | Some ct \<Rightarrow> cabi_task_drop E ct w)))"

end
