(* ===== verification/Rt_Protocol.thy ===== *)
theory Rt_Protocol
  imports Rt_Waitable
begin

text \<open>
  What \<open>WaitableOperation\<close> guarantees for every implementation of \<open>WaitableOp\<close> that keeps its
  promises: polling and cancelling never panic before completion, an operation that is pending is
  registered with exactly one task under exactly one waitable, and an operation that is done, was
  cancelled or was dropped is registered nowhere, so that no task keeps a pointer to its cell.
\<close>

section \<open>The promises of an implementation\<close>

text \<open>
  \<open>pr_running\<close> holds between start and completion, \<open>pr_parked\<close> once a waitable exists to wait on,
  \<open>pr_legal\<close> are the codes the host may deliver, \<open>pr_final\<close> those after which an operation cannot
  still be in progress, and \<open>pr_quiet\<close> relates machines that differ only in what the operation does
  not depend on.
\<close>

record ('s, 'a, 'i, 'r, 'h) protocol =
  pr_startable :: "'a \<Rightarrow> 's \<Rightarrow> 'h machine \<Rightarrow> bool"
  pr_running :: "'i \<Rightarrow> 's \<Rightarrow> 'h machine \<Rightarrow> bool"
  pr_parked :: "'i \<Rightarrow> 's \<Rightarrow> bool"
  pr_handle :: "'i \<Rightarrow> 's \<Rightarrow> u32"
  pr_legal :: "'i \<Rightarrow> 's \<Rightarrow> 'h machine \<Rightarrow> u32 \<Rightarrow> bool"
  pr_final :: "u32 \<Rightarrow> bool"
  pr_finished :: "'r \<Rightarrow> 's \<Rightarrow> 'h machine \<Rightarrow> bool"
  pr_quiet :: "'h machine \<Rightarrow> 'h machine \<Rightarrow> bool"

text \<open>The host's waitable-set intrinsics return real sets and are quiet.\<close>

definition quiet_env :: "'h rt_env \<Rightarrow> ('h machine \<Rightarrow> 'h machine \<Rightarrow> bool) \<Rightarrow> bool" where
  "quiet_env E Q \<longleftrightarrow>
     (\<forall>m. \<exists>s m'. set_new E m = Inr (s, m') \<and> Q m m') \<and>
     (\<forall>s h m. Q m (set_join E s h m)) \<and> (\<forall>h m. Q m (remove_waitable_from_all_sets E h m)) \<and>
     (\<forall>s m. Q m (set_drop E s m)) \<and>
     (\<forall>h m. Q m (logged [Drop_Writable h] (ui_drop_writable (re_unit E) h (m_raw m)) m))"

lemma quiet_envD:
  assumes "quiet_env E Q"
  shows "\<exists>s m'. set_new E m = Inr (s, m') \<and> Q m m'" "Q m (set_join E s h m)"
    "Q m (remove_waitable_from_all_sets E h m)" "Q m (set_drop E st m)"
    "Q m (logged [Drop_Writable h] (ui_drop_writable (re_unit E) h (m_raw m)) m)"
  using assms unfolding quiet_env_def by simp_all

section \<open>Registrations\<close>

definition waitables_of :: "'h rt_world \<Rightarrow> nat \<Rightarrow> u32 \<Rightarrow> addr option" where
  "waitables_of w t = sh_waitables (w_tasks w t)"

definition registered_at :: "'h rt_world \<Rightarrow> addr \<Rightarrow> (nat \<times> u32) set" where
  "registered_at w c = {(t, h). waitables_of w t h = Some c}"

text \<open>The pointer a lookup in the map returns: null when there is none.\<close>

definition ptr_or_null :: "addr option \<Rightarrow> addr" where
  "ptr_or_null x = (case x of None \<Rightarrow> 0 | Some p \<Rightarrow> p)"

text \<open>A step on the registrations that leaves everything else an operation sees as it was.\<close>

definition only_registers :: "('h machine \<Rightarrow> 'h machine \<Rightarrow> bool) \<Rightarrow> 'h rt_world \<Rightarrow> 'h rt_world \<Rightarrow> bool" where
  "only_registers Q w w' \<longleftrightarrow>
     Q\<^sup>*\<^sup>* (w_mach w) (w_mach w') \<and> w_cells w' = w_cells w \<and> w_current w' = w_current w"

lemma only_registers_refl [simp]: "only_registers Q w w"
  by (simp add: only_registers_def)

lemma only_registers_trans:
  "only_registers Q w w' \<Longrightarrow> only_registers Q w' w'' \<Longrightarrow> only_registers Q w w''"
  by (auto simp: only_registers_def)

lemma only_registersD:
  assumes "only_registers Q w w'"
  shows "Q\<^sup>*\<^sup>* (w_mach w) (w_mach w')" "w_cells w' = w_cells w"
    "w_current w' = w_current w"
  using assms by (simp_all add: only_registers_def)

lemma waitables_of_set_task:
  "waitables_of (set_task t s w) = (waitables_of w)(t := sh_waitables s)"
  by (rule ext) (simp add: waitables_of_def)

lemma waitables_of_same [simp]:
  "waitables_of (on_mach f w) = waitables_of w"
  "waitables_of (set_cell c d w) = waitables_of w"
  "waitables_of (w\<lparr>w_mach := m\<rparr>) = waitables_of w"
  "waitables_of (w\<lparr>w_current := cur\<rparr>) = waitables_of w"
  by (simp_all add: waitables_of_def fun_eq_iff)

lemma add_waitable_effect:
  assumes E: "quiet_env E Q"
  shows "\<exists>w'. add_waitable E t h w = Inr w' \<and> waitables_of w' = waitables_of w \<and> only_registers Q w w'"
proof (cases "sh_set (w_tasks w t)")
  case (Some s)
  have "Q (w_mach w) (set_join E s h (w_mach w))" by (rule quiet_envD(2) [OF E])
  then show ?thesis using Some by (auto simp: add_waitable_def only_registers_def)
next
  case None
  obtain s m where sm: "set_new E (w_mach w) = Inr (s, m)" "Q (w_mach w) m"
    using quiet_envD(1) [OF E] by blast
  have "Q m (set_join E s h m)" by (rule quiet_envD(2) [OF E])
  then have "Q\<^sup>*\<^sup>* (w_mach w) (set_join E s h m)" using sm(2) by auto
  moreover have "(waitables_of w)(t := sh_waitables (w_tasks w t)) = waitables_of w"
    by (rule ext) (simp add: waitables_of_def)
  ultimately show ?thesis
    using None sm(1) by (simp add: add_waitable_def only_registers_def waitables_of_set_task)
qed

lemma waitable_register_effect:
  assumes E: "quiet_env E Q"
  shows "\<exists>w'. waitable_register E t h p w = Inr (ptr_or_null (waitables_of w t h), w') \<and>
    waitables_of w' = (waitables_of w)(t := (waitables_of w t)(h \<mapsto> p)) \<and> only_registers Q w w'"
proof -
  obtain w1 where w1: "add_waitable E t h w = Inr w1" "waitables_of w1 = waitables_of w"
    "only_registers Q w w1"
    using add_waitable_effect [OF E] by blast
  have "sh_waitables (w_tasks w1 t) = waitables_of w t" using w1(2) by (simp add: waitables_of_def fun_eq_iff)
  then show ?thesis
    using w1 by (simp add: waitable_register_def ptr_or_null_def waitables_of_set_task only_registers_def)
qed

lemma waitable_unregister_effect:
  assumes E: "quiet_env E Q"
  shows "\<exists>w'. waitable_unregister E t h w = (ptr_or_null (waitables_of w t h), w') \<and>
    waitables_of w' = (waitables_of w)(t := (waitables_of w t)(h := None)) \<and> only_registers Q w w'"
proof -
  have "Q (w_mach w) (remove_waitable_from_all_sets E h (w_mach w))" by (rule quiet_envD(3) [OF E])
  then show ?thesis
    by (auto simp: waitable_unregister_def Let_def ptr_or_null_def waitables_of_set_task
        only_registers_def waitables_of_def fun_eq_iff)
qed

lemma shared_destroy_quiet:
  assumes E: "quiet_env E Q"
  shows "Q\<^sup>*\<^sup>* m (shared_destroy E s m)"
proof -
  have d: "Q m (logged [Drop_Writable h] (ui_drop_writable (re_unit E) h (m_raw m)) m)" for h m
    by (rule quiet_envD(5) [OF E])
  have x: "Q m (set_drop E st m)" for st m by (rule quiet_envD(4) [OF E])
  have "Q\<^sup>*\<^sup>* m (set_drop E st (logged [Drop_Writable h] (ui_drop_writable (re_unit E) h (m_raw m)) m))" for h st
    by (rule rtranclp.rtrancl_into_rtrancl, rule r_into_rtranclp [of Q], rule d, rule x)
  then show ?thesis
    using d x by (simp add: shared_destroy_def Let_def r_into_rtranclp split: option.split)
qed

lemma clone_effect:
  "waitables_of (cabi_clone t w) = waitables_of w" "only_registers Q w (cabi_clone t w)"
  by (simp_all add: cabi_clone_def Let_def only_registers_def waitables_of_def fun_eq_iff)

lemma drop_effect:
  assumes E: "quiet_env E Q"
  shows "waitables_of (cabi_drop E t w) = waitables_of w" "only_registers Q w (cabi_drop E t w)"
  using shared_destroy_quiet [OF E, of "w_mach w" "w_tasks w t"]
  by (simp_all add: cabi_drop_def Let_def only_registers_def waitables_of_def fun_eq_iff)

lemma cabi_task_drop_effect:
  assumes E: "quiet_env E Q"
  shows "\<exists>w'. cabi_task_drop E ct w = w' \<and> only_registers Q w w' \<and>
    waitables_of w' = (case ct_registered ct of None \<Rightarrow> waitables_of w
      | Some h \<Rightarrow> (waitables_of w)(ct_ptr ct := (waitables_of w (ct_ptr ct))(h := None)))"
proof (cases "ct_registered ct")
  case None
  then show ?thesis by (simp add: cabi_task_drop_def drop_effect [OF E])
next
  case (Some h)
  obtain w1 where w1: "waitable_unregister E (ct_ptr ct) h w = (ptr_or_null (waitables_of w (ct_ptr ct) h), w1)"
    "waitables_of w1 = (waitables_of w)(ct_ptr ct := (waitables_of w (ct_ptr ct))(h := None))"
    "only_registers Q w w1"
    using waitable_unregister_effect [OF E] by blast
  have "cabi_task_drop E ct w = cabi_drop E (ct_ptr ct) w1"
    by (simp add: cabi_task_drop_def Some cabi_task_unregister_def w1(1))
  then show ?thesis
    using w1(2,3) only_registers_trans [OF w1(3) drop_effect(2) [OF E]] by (simp add: Some drop_effect [OF E])
qed

text \<open>The stored task after \<open>insert_task\<close>, and the registration it gave up, if any.\<close>

lemma insert_task_effect:
  assumes E: "quiet_env E Q"
  shows "\<exists>ct w'. insert_task E t stored w = (ct, w') \<and> ct_ptr ct = t \<and> only_registers Q w w' \<and>
    waitables_of w' = (case stored of
        Some prev \<Rightarrow> if ct_ptr prev = t then waitables_of w
          else (case ct_registered prev of None \<Rightarrow> waitables_of w
            | Some h \<Rightarrow> (waitables_of w)(ct_ptr prev := (waitables_of w (ct_ptr prev))(h := None)))
      | None \<Rightarrow> waitables_of w)"
proof (cases stored)
  case None
  then show ?thesis by (simp add: insert_task_def cabi_task_new_def clone_effect)
next
  case (Some prev)
  show ?thesis
  proof (cases "ct_ptr prev = t")
    case True
    then show ?thesis by (simp add: insert_task_def Some)
  next
    case False
    have "only_registers Q w (cabi_task_drop E prev (cabi_clone t w))"
      using cabi_task_drop_effect [OF E, of prev "cabi_clone t w"] only_registers_trans clone_effect(2) by blast
    then show ?thesis
      using cabi_task_drop_effect [OF E, of prev "cabi_clone t w"] False
      by (simp add: insert_task_def Some cabi_task_new_def clone_effect split: option.split)
  qed
qed

section \<open>Registering and unregistering a cell\<close>

text \<open>
  Only our cell is registered under our waitable, and our cell is registered at most with the stored
  task, under that waitable.
\<close>

definition reg_bound :: "'h rt_world \<Rightarrow> addr \<Rightarrow> cabi_task option \<Rightarrow> u32 \<Rightarrow> bool" where
  "reg_bound w c stored h \<longleftrightarrow>
     (\<forall>t p. waitables_of w t h = Some p \<longrightarrow> p = c) \<and>
     (\<forall>t k. waitables_of w t k = Some c \<longrightarrow>
        k = h \<and> (\<exists>ct. stored = Some ct \<and> ct_ptr ct = t \<and> ct_registered ct = Some h)) \<and>
     (\<forall>ct. stored = Some ct \<longrightarrow> ct_registered ct = None \<or> ct_registered ct = Some h)"

text \<open>Nothing but our own waitable changes in the maps of the tasks.\<close>

definition others_kept :: "u32 \<Rightarrow> 'h rt_world \<Rightarrow> 'h rt_world \<Rightarrow> bool" where
  "others_kept h w w' \<longleftrightarrow> (\<forall>t k. k \<noteq> h \<longrightarrow> waitables_of w' t k = waitables_of w t k)"

lemma reg_boundD:
  assumes "reg_bound w c stored h"
  shows "\<And>t p. waitables_of w t h = Some p \<Longrightarrow> p = c"
    and "\<And>t k. waitables_of w t k = Some c \<Longrightarrow> k = h"
    and "\<And>t p. waitables_of w t h = Some p \<Longrightarrow>
      \<exists>ct. stored = Some ct \<and> ct_ptr ct = t \<and> ct_registered ct = Some h"
    and "\<And>ct. stored = Some ct \<Longrightarrow> ct_registered ct = None \<or> ct_registered ct = Some h"
proof -
  note d = assms [unfolded reg_bound_def]
  show *: "p = c" if "waitables_of w t h = Some p" for t p
    using d [THEN conjunct1, rule_format, OF that] .
  show "k = h" if "waitables_of w t k = Some c" for t k
    using d [THEN conjunct2, THEN conjunct1, rule_format, OF that] by (rule conjunct1)
  show "ct_registered ct = None \<or> ct_registered ct = Some h" if "stored = Some ct" for ct
    using d [THEN conjunct2, THEN conjunct2, rule_format, OF that] .
  show "\<exists>ct. stored = Some ct \<and> ct_ptr ct = t \<and> ct_registered ct = Some h"
    if "waitables_of w t h = Some p" for t p
    using d [THEN conjunct2, THEN conjunct1, rule_format, of t h] that * [OF that] by simp
qed

lemma reg_bound_null: "reg_bound w c stored h \<Longrightarrow> ptr_or_null (waitables_of w t h) \<in> {0, c}"
  using reg_boundD(1) [of w c stored h t] by (cases "waitables_of w t h") (simp_all add: ptr_or_null_def)

lemma insert_task_bound:
  assumes E: "quiet_env E Q" and b: "reg_bound w c stored h"
  shows "\<exists>ct w'. insert_task E t stored w = (ct, w') \<and> ct_ptr ct = t \<and> only_registers Q w w' \<and>
    others_kept h w w' \<and> (\<forall>u. u \<noteq> t \<longrightarrow> waitables_of w' u h = None) \<and>
    waitables_of w' t h = waitables_of w t h"
proof -
  obtain ct w' where i: "insert_task E t stored w = (ct, w')" "ct_ptr ct = t" "only_registers Q w w'"
    "waitables_of w' = (case stored of
        Some prev \<Rightarrow> if ct_ptr prev = t then waitables_of w
          else (case ct_registered prev of None \<Rightarrow> waitables_of w
            | Some h \<Rightarrow> (waitables_of w)(ct_ptr prev := (waitables_of w (ct_ptr prev))(h := None)))
      | None \<Rightarrow> waitables_of w)"
    using insert_task_effect [OF E] by blast
  have none: "waitables_of w u h = None"
    if "\<forall>ct. stored = Some ct \<longrightarrow> ct_ptr ct \<noteq> u \<or> ct_registered ct = None" for u
    using reg_boundD(3) [OF b, of u] that by (cases "waitables_of w u h") fastforce+
  have "waitables_of w' u k = waitables_of w u k" if "k \<noteq> h" for u k
    using i(4) reg_boundD(4) [OF b] that by (auto split: option.splits if_splits)
  moreover have "waitables_of w' u h = None" if "u \<noteq> t" for u
  proof (cases stored)
    case None
    then show ?thesis using i(4) none by simp
  next
    case (Some prev)
    then show ?thesis
      using i(4) none [of u] that reg_boundD(4) [OF b]
      by (cases "ct_ptr prev = u") (auto split: option.splits if_splits)
  qed
  moreover have "waitables_of w' t h = waitables_of w t h"
    using i(4) by (auto split: option.splits if_splits)
  ultimately show ?thesis using i(1-3) by (auto simp: others_kept_def)
qed

lemma register_waker_ok:
  assumes E: "quiet_env E Q" and b: "reg_bound w (wo_cell o1) (wo_task o1) h" and c: "wo_cell o1 \<noteq> 0"
    and code: "cs_code (w_cells w (wo_cell o1)) = None" and cur: "w_current w = Some (t, v)" "2 \<le> v"
  shows "\<exists>w'. register_waker E h k (o1, w) =
      Inr (o1\<lparr>wo_task := Some \<lparr>ct_ptr = t, ct_registered = Some h\<rparr>\<rparr>, w') \<and>
    registered_at w' (wo_cell o1) = {(t, h)} \<and> (\<forall>u p. waitables_of w' u h = Some p \<longrightarrow> p = wo_cell o1) \<and>
    others_kept h w w' \<and> w_current w' = w_current w \<and>
    w_cells w' = (w_cells w)(wo_cell o1 := \<lparr>cs_code = None, cs_waker = Some k\<rparr>) \<and>
    Q\<^sup>*\<^sup>* (w_mach w) (w_mach w')"
proof -
  let ?c = "wo_cell o1"
  have cell: "(w_cells w ?c)\<lparr>cs_waker := Some k\<rparr> = \<lparr>cs_code = None, cs_waker = Some k\<rparr>"
    using code by (cases "w_cells w ?c") simp
  define w0 where "w0 = (set_cell ?c ((w_cells w ?c)\<lparr>cs_waker := Some k\<rparr>) w)\<lparr>w_current := None\<rparr>"
  have w0: "waitables_of w0 = waitables_of w" "w_mach w0 = w_mach w" by (simp_all add: w0_def)
  have "reg_bound w0 ?c (wo_task o1) h" using b unfolding reg_bound_def w0(1) .
  then obtain ct w1 where 1: "insert_task E t (wo_task o1) w0 = (ct, w1)" "ct_ptr ct = t"
    "only_registers Q w0 w1" "others_kept h w0 w1" "\<forall>u. u \<noteq> t \<longrightarrow> waitables_of w1 u h = None"
    "waitables_of w1 t h = waitables_of w0 t h"
    using insert_task_bound [OF E] by blast
  obtain w2 where 2: "waitable_register E t h ?c w1 = Inr (ptr_or_null (waitables_of w1 t h), w2)"
    "waitables_of w2 = (waitables_of w1)(t := (waitables_of w1 t)(h \<mapsto> ?c))" "only_registers Q w1 w2"
    using waitable_register_effect [OF E] by blast
  have prev: "ptr_or_null (waitables_of w1 t h) = 0 \<or> ptr_or_null (waitables_of w1 t h) = ?c"
    using reg_bound_null [OF b, of t] 1(6) w0(1) by simp
  have ctr: "ct\<lparr>ct_registered := Some h\<rparr> = \<lparr>ct_ptr = t, ct_registered = Some h\<rparr>" using 1(2) by simp
  have run: "register_waker E h k (o1, w) =
      Inr (o1\<lparr>wo_task := Some \<lparr>ct_ptr = t, ct_registered = Some h\<rparr>\<rparr>, w2\<lparr>w_current := Some (t, v)\<rparr>)"
  proof -
    have v: "\<not> v < 1" using cur(2) by simp
    have "register_waker E h k (o1, w) =
        and_then (waitable_register E t h ?c w1) (\<lambda>(prev, w).
          if prev \<noteq> 0 \<and> prev \<noteq> ?c then Inl Assert_Failed
          else Inr (o1\<lparr>wo_task := Some \<lparr>ct_ptr = t, ct_registered = Some h\<rparr>\<rparr>,
            w\<lparr>w_current := Some (t, v)\<rparr>))"
      unfolding register_waker_def prod.case code cur(1) Let_def world_simps option.case
        w0_def [symmetric] 1(1) ctr
      using v cur(2) by simp
    then show ?thesis using prev by (auto simp: 2(1))
  qed
  have at: "waitables_of w2 u n = Some ?c \<longleftrightarrow> (u, n) = (t, h)" for u n
  proof (cases "n = h")
    case True
    then show ?thesis using 2(2) 1(5) by (cases "u = t") auto
  next
    case False
    then have "waitables_of w2 u n = waitables_of w u n"
      using 2(2) 1(4) w0(1) by (simp add: others_kept_def)
    then show ?thesis using reg_boundD(2) [OF b, of u n] False by auto
  qed
  have "others_kept h w w2" using 2(2) 1(4) w0(1) by (simp add: others_kept_def)
  moreover have "\<forall>u p. waitables_of w2 u h = Some p \<longrightarrow> p = ?c"
    using 2(2) 1(5) by (metis fun_upd_apply option.distinct(1) option.inject)
  moreover have "registered_at w2 ?c = {(t, h)}" using at by (auto simp: registered_at_def)
  moreover note only = only_registersD [OF only_registers_trans [OF 1(3) 2(3)]]
  ultimately show ?thesis
    using run code cur(1) only
    by (intro exI [of _ "w2\<lparr>w_current := Some (t, v)\<rparr>"])
      (simp add: registered_at_def others_kept_def w0_def cell)
qed

lemma unregister_waker_ok:
  assumes E: "quiet_env E Q" and b: "reg_bound w (wo_cell o1) (Some ct) h" and task: "wo_task o1 = Some ct"
    and reg: "ct_registered ct = Some h"
  shows "\<exists>w'. unregister_waker E h (o1, w) = Inr (o1\<lparr>wo_task := Some (ct\<lparr>ct_registered := None\<rparr>)\<rparr>, w') \<and>
    registered_at w' (wo_cell o1) = {} \<and> (\<forall>u. waitables_of w' u h = None) \<and> others_kept h w w' \<and>
    only_registers Q w w'"
proof -
  obtain w' where w': "waitable_unregister E (ct_ptr ct) h w = (ptr_or_null (waitables_of w (ct_ptr ct) h), w')"
    "waitables_of w' = (waitables_of w)(ct_ptr ct := (waitables_of w (ct_ptr ct))(h := None))"
    "only_registers Q w w'"
    using waitable_unregister_effect [OF E] by blast
  have prev: "ptr_or_null (waitables_of w (ct_ptr ct) h) = 0 \<or>
      ptr_or_null (waitables_of w (ct_ptr ct) h) = wo_cell o1"
    using reg_bound_null [OF b, of "ct_ptr ct"] by simp
  have none: "waitables_of w' u h = None" for u
  proof (cases "u = ct_ptr ct")
    case True
    then show ?thesis using w'(2) by simp
  next
    case False
    then show ?thesis using w'(2) reg_boundD(3) [OF b, of u] by (cases "waitables_of w u h") auto
  qed
  moreover have "registered_at w' (wo_cell o1) = {}"
  proof -
    have "waitables_of w' u k \<noteq> Some (wo_cell o1)" for u k
    proof (cases "k = h")
      case True
      then show ?thesis using none by simp
    next
      case False
      then have "waitables_of w' u k = waitables_of w u k" using w'(2) by simp
      then show ?thesis using reg_boundD(2) [OF b, of u k] False by auto
    qed
    then show ?thesis by (auto simp: registered_at_def)
  qed
  ultimately show ?thesis
    using w' prev by (auto simp: unregister_waker_def task cabi_task_unregister_def others_kept_def)
qed

section \<open>The invariant of an operation\<close>

text \<open>The operation waits: it is registered once, with the stored task, and has a waker.\<close>

definition waits :: "('s, 'a, 'i) operation \<Rightarrow> 'h rt_world \<Rightarrow> u32 \<Rightarrow> bool" where
  "waits o1 w h \<longleftrightarrow>
     (\<exists>t. wo_task o1 = Some \<lparr>ct_ptr = t, ct_registered = Some h\<rparr> \<and> registered_at w (wo_cell o1) = {(t, h)}) \<and>
     cs_waker (w_cells w (wo_cell o1)) \<noteq> None"

text \<open>The operation is registered nowhere and will not unregister anything either.\<close>

definition detached :: "('s, 'a, 'i) operation \<Rightarrow> 'h rt_world \<Rightarrow> bool" where
  "detached o1 w \<longleftrightarrow> registered_at w (wo_cell o1) = {} \<and>
     (\<forall>ct. wo_task o1 = Some ct \<longrightarrow> ct_registered ct = None)"

definition op_inv ::
    "('s, 'a, 'i, 'r, 'c, 'h) waitable_op \<Rightarrow> ('s, 'a, 'i, 'r, 'h) protocol \<Rightarrow> ('s, 'a, 'i, 'h) run \<Rightarrow> bool" where
  "op_inv W P = (\<lambda>(o1, w). wo_cell o1 \<noteq> 0 \<and>
     (case wo_state o1 of
        Start a \<Rightarrow>
          pr_startable P a (wo_op o1) (w_mach w) \<and> wo_task o1 = None \<and> registered_at w (wo_cell o1) = {} \<and>
          w_cells w (wo_cell o1) = no_completion \<and>
          (\<forall>code i s m. wop_start W a (wo_op o1, w_mach w) = Inr ((code, i), s, m) \<longrightarrow>
             (\<forall>t. waitables_of w t (pr_handle P i s) = None))
      | In_Progress i \<Rightarrow>
          pr_running P i (wo_op o1) (w_mach w) \<and> pr_parked P i (wo_op o1) \<and>
          reg_bound w (wo_cell o1) (wo_task o1) (pr_handle P i (wo_op o1)) \<and>
          (case cs_code (w_cells w (wo_cell o1)) of
             Some code \<Rightarrow> pr_legal P i (wo_op o1) (w_mach w) code \<and> registered_at w (wo_cell o1) = {} \<and>
               cs_waker (w_cells w (wo_cell o1)) = None
           | None \<Rightarrow> waits o1 w (pr_handle P i (wo_op o1)))
      | Done \<Rightarrow> detached o1 w))"

lemma reg_bound_unregistered:
  assumes "\<And>t. waitables_of w t h = None" "registered_at w c = {}"
    and "\<And>ct. stored = Some ct \<Longrightarrow> ct_registered ct = None"
  shows "reg_bound w c stored h"
  using assms unfolding reg_bound_def registered_at_def by fastforce

lemma reg_bound_empty:
  assumes "reg_bound w c stored h" "registered_at w c = {}"
  shows "waitables_of w t h = None"
  using reg_boundD(1) [OF assms(1), of t] assms(2) by (cases "waitables_of w t h") (auto simp: registered_at_def)

lemma registered_at_same [simp]:
  "registered_at (w\<lparr>w_mach := m\<rparr>) c = registered_at w c"
  "registered_at (set_cell a d w) c = registered_at w c"
  by (simp_all add: registered_at_def)

lemma reg_bound_same [simp]:
  "reg_bound (w\<lparr>w_mach := m\<rparr>) c st h = reg_bound w c st h"
  "reg_bound (set_cell a d w) c st h = reg_bound w c st h"
  unfolding reg_bound_def waitables_of_same by (rule refl)+

lemma take_code_same:
  assumes "cs_code (w_cells w c) = None"
  shows "set_cell c ((w_cells w c)\<lparr>cs_code := None\<rparr>) w = w"
proof -
  have "(w_cells w c)\<lparr>cs_code := None\<rparr> = w_cells w c" using assms by (cases "w_cells w c") simp
  then show ?thesis by (simp add: set_cell_def)
qed

section \<open>Polling, cancelling and dropping\<close>

locale waitable_protocol =
  fixes W :: "('s, 'a, 'i, 'r, 'c, 'h) waitable_op" and P :: "('s, 'a, 'i, 'r, 'h) protocol"
  assumes start_law: "pr_startable P a s m \<Longrightarrow>
      \<exists>code i s' m'. wop_start W a (s, m) = Inr ((code, i), s', m') \<and> pr_running P i s' m' \<and>
        pr_legal P i s' m' code"
    and update_law: "pr_running P i s m \<Longrightarrow> pr_legal P i s m code \<Longrightarrow>
      \<exists>u s' m'. wop_update W i code (s, m) = Inr (u, s', m') \<and>
        (case u of
           Complete x \<Rightarrow> pr_finished P x s' m'
         | Still j \<Rightarrow> \<not> pr_final P code \<and> pr_running P j s' m' \<and> pr_parked P j s' \<and>
             pr_handle P j s' = pr_handle P i s)"
    and waitable_law: "pr_parked P i s \<Longrightarrow> wop_waitable W i s = Inr (pr_handle P i s)"
    and cancel_law: "pr_running P i s m \<Longrightarrow> pr_parked P i s \<Longrightarrow>
      \<exists>code s' m'. wop_cancel W i (s, m) = Inr (code, s', m') \<and> pr_running P i s' m' \<and>
        pr_legal P i s' m' code \<and> pr_final P code \<and> pr_handle P i s' = pr_handle P i s"
    and start_cancelled_law: "pr_startable P a s m \<Longrightarrow>
      \<exists>c s' m'. wop_start_cancelled W a (s, m) = Inr (c, s', m')"
    and into_cancel_law: "pr_finished P x s m \<Longrightarrow>
      \<exists>c s' m'. wop_into_cancel W x (s, m) = Inr (c, s', m')"
    and stable_law: "pr_running P i s m \<Longrightarrow> pr_quiet P m m' \<Longrightarrow> pr_running P i s m'"
    and legal_stable_law: "pr_running P i s m \<Longrightarrow> pr_legal P i s m code \<Longrightarrow> pr_quiet P m m' \<Longrightarrow>
      pr_legal P i s m' code"
begin

lemma stable:
  assumes "(pr_quiet P)\<^sup>*\<^sup>* m m'" "pr_running P i s m"
  shows "pr_running P i s m'"
  using assms by (induction rule: rtranclp_induct) (auto intro: stable_law)

lemma legal_stable:
  assumes "(pr_quiet P)\<^sup>*\<^sup>* m m'" "pr_running P i s m" "pr_legal P i s m code"
  shows "pr_legal P i s m' code"
  using assms(1)
proof (induction rule: rtranclp_induct)
  case base
  show ?case by (rule assms(3))
next
  case (step y z)
  show ?case by (rule legal_stable_law [OF stable [OF step.hyps(1) assms(2)] step.IH step.hyps(2)])
qed

text \<open>What is true while a status code is being processed: the cell is taken out of every map.\<close>

definition processing :: "('s, 'a, 'i, 'h) run \<Rightarrow> 'i \<Rightarrow> bool" where
  "processing = (\<lambda>(o1, w) i. wo_cell o1 \<noteq> 0 \<and> wo_state o1 = In_Progress i \<and>
     pr_running P i (wo_op o1) (w_mach w) \<and> registered_at w (wo_cell o1) = {} \<and>
     (\<forall>t. waitables_of w t (pr_handle P i (wo_op o1)) = None) \<and> cs_code (w_cells w (wo_cell o1)) = None)"

lemma process_code_ok:
  assumes p: "processing (o1, w) i" and l: "pr_legal P i (wo_op o1) (w_mach w) code"
  shows "(\<exists>x o2 w2. poll_complete_with_code W E None (Some code) (o1, w) = Inr (Some x, o2, w2) \<and>
      (\<forall>k. poll_complete_with_code W E (Some k) (Some code) (o1, w) = Inr (Some x, o2, w2)) \<and>
      wo_state o2 = Done \<and> detached o2 w2 \<and> pr_finished P x (wo_op o2) (w_mach w2) \<and>
      wo_cell o2 = wo_cell o1 \<and> w_current w2 = w_current w \<and> w_cells w2 = w_cells w) \<or>
    (\<exists>j o2 w2. poll_complete_with_code W E None (Some code) (o1, w) = Inr (None, o2, w2) \<and>
      (\<forall>k. poll_complete_with_code W E (Some k) (Some code) (o1, w) =
         and_then (register_waker E (pr_handle P j (wo_op o2)) k (o2, w2)) (\<lambda>(o3, w3). Inr (None, o3, w3))) \<and>
      \<not> pr_final P code \<and> processing (o2, w2) j \<and> pr_parked P j (wo_op o2) \<and>
      (\<forall>ct. wo_task o2 = Some ct \<longrightarrow> ct_registered ct = None) \<and>
      pr_handle P j (wo_op o2) = pr_handle P i (wo_op o1) \<and>
      wo_cell o2 = wo_cell o1 \<and> w_current w2 = w_current w)"
proof -
  obtain u s m where u: "wop_update W i code (wo_op o1, w_mach w) = Inr (u, s, m)"
    "case u of Complete x \<Rightarrow> pr_finished P x s m
       | Still j \<Rightarrow> \<not> pr_final P code \<and> pr_running P j s m \<and> pr_parked P j s \<and>
           pr_handle P j s = pr_handle P i (wo_op o1)"
    using update_law [OF _ l] p by (auto simp: processing_def)
  let ?task = "map_option (\<lambda>ct. ct\<lparr>ct_registered := None\<rparr>) (wo_task o1)"
  show ?thesis
  proof (cases u)
    case (Complete x)
    let ?o = "o1\<lparr>wo_task := ?task, wo_state := Done, wo_op := s\<rparr>"
    have "\<forall>cx. poll_complete_with_code W E cx (Some code) (o1, w) = Inr (Some x, ?o, w\<lparr>w_mach := m\<rparr>)"
      using p u(1) Complete by (simp add: poll_complete_with_code_def processing_def with_op_def)
    then show ?thesis
      using p u(2) Complete by (intro disjI1 exI [of _ x] exI [of _ ?o] exI [of _ "w\<lparr>w_mach := m\<rparr>"])
        (auto simp: processing_def detached_def)
  next
    case (Still j)
    let ?o = "o1\<lparr>wo_task := ?task, wo_op := s, wo_state := In_Progress j\<rparr>"
    have w: "wop_waitable W j s = Inr (pr_handle P j s)" using waitable_law u(2) Still by simp
    have "poll_complete_with_code W E cx (Some code) (o1, w) =
        (case cx of None \<Rightarrow> Inr (None, ?o, w\<lparr>w_mach := m\<rparr>)
         | Some k \<Rightarrow> and_then (register_waker E (pr_handle P j s) k (?o, w\<lparr>w_mach := m\<rparr>))
             (\<lambda>(o3, w3). Inr (None, o3, w3)))" for cx
      using p u(1) Still w
      by (simp add: poll_complete_with_code_def processing_def with_op_def split: option.split)
    then show ?thesis
      using p u(2) Still by (intro disjI2 exI [of _ j] exI [of _ ?o] exI [of _ "w\<lparr>w_mach := m\<rparr>"])
        (auto simp: processing_def)
  qed
qed

text \<open>After registering, the operation waits.\<close>

lemma register_processing:
  assumes E: "quiet_env E (pr_quiet P)" and p: "processing (o1, w) i" and pk: "pr_parked P i (wo_op o1)"
    and st: "\<And>ct. wo_task o1 = Some ct \<Longrightarrow> ct_registered ct = None" and cur: "w_current w = Some (t, v)" "2 \<le> v"
  shows "\<exists>o2 w2. register_waker E (pr_handle P i (wo_op o1)) k (o1, w) = Inr (o2, w2) \<and> op_inv W P (o2, w2) \<and>
    wo_state o2 = In_Progress i \<and> registered_at w2 (wo_cell o2) = {(t, pr_handle P i (wo_op o1))} \<and>
    cs_waker (w_cells w2 (wo_cell o2)) = Some k \<and> wo_cell o2 = wo_cell o1 \<and> w_current w2 = w_current w"
proof -
  let ?h = "pr_handle P i (wo_op o1)"
  note q = p [unfolded processing_def prod.case]
  have b: "reg_bound w (wo_cell o1) (wo_task o1) ?h"
    by (rule reg_bound_unregistered) (use q st in auto)
  obtain w2 where w2: "register_waker E ?h k (o1, w) =
      Inr (o1\<lparr>wo_task := Some \<lparr>ct_ptr = t, ct_registered = Some ?h\<rparr>\<rparr>, w2)"
    "registered_at w2 (wo_cell o1) = {(t, ?h)}" "\<forall>u p. waitables_of w2 u ?h = Some p \<longrightarrow> p = wo_cell o1"
    "w_current w2 = w_current w"
    "w_cells w2 = (w_cells w)(wo_cell o1 := \<lparr>cs_code = None, cs_waker = Some k\<rparr>)"
    "(pr_quiet P)\<^sup>*\<^sup>* (w_mach w) (w_mach w2)"
    using register_waker_ok [OF E b _ _ cur, of k] q by auto
  let ?o = "o1\<lparr>wo_task := Some \<lparr>ct_ptr = t, ct_registered = Some ?h\<rparr>\<rparr>"
  have run: "pr_running P i (wo_op o1) (w_mach w2)" by (rule stable [OF w2(6)]) (use q in simp_all)
  have "reg_bound w2 (wo_cell o1) (Some \<lparr>ct_ptr = t, ct_registered = Some ?h\<rparr>) ?h"
    using w2(2,3) unfolding reg_bound_def registered_at_def by fastforce
  then have "op_inv W P (?o, w2)"
    using q run pk w2(2,5) by (simp add: op_inv_def waits_def)
  then show ?thesis using w2(1,2,4,5) q by (intro exI [of _ ?o] exI [of _ w2]) simp
qed

lemma process_and_register_ok:
  assumes E: "quiet_env E (pr_quiet P)" and p: "processing (o1, w) i" and l: "pr_legal P i (wo_op o1) (w_mach w) code"
    and cur: "w_current w = Some (t, v)" "2 \<le> v"
  shows "\<exists>x o2 w2. poll_complete_with_code W E (Some k) (Some code) (o1, w) = Inr (x, o2, w2) \<and>
    op_inv W P (o2, w2) \<and> (is_done o2 \<longleftrightarrow> x \<noteq> None) \<and> wo_cell o2 = wo_cell o1 \<and> w_current w2 = w_current w \<and>
    registered_at w2 (wo_cell o2) = (if x = None then {(t, pr_handle P i (wo_op o1))} else {}) \<and>
    cs_waker (w_cells w2 (wo_cell o2)) = (if x = None then Some k else cs_waker (w_cells w (wo_cell o1))) \<and>
    (\<forall>y. x = Some y \<longrightarrow> pr_finished P y (wo_op o2) (w_mach w2))"
  using process_code_ok [OF p l, of E]
proof (elim disjE exE conjE)
  fix x o2 w2 assume "\<forall>k. poll_complete_with_code W E (Some k) (Some code) (o1, w) = Inr (Some x, o2, w2)"
    "wo_state o2 = Done" "detached o2 w2" "pr_finished P x (wo_op o2) (w_mach w2)"
    "wo_cell o2 = wo_cell o1" "w_current w2 = w_current w" "w_cells w2 = w_cells w"
  then show ?thesis
    using p by (intro exI [of _ "Some x"] exI [of _ o2] exI [of _ w2])
      (simp add: op_inv_def is_done_def detached_def processing_def)
next
  fix j o2 w2
  assume *: "\<forall>k. poll_complete_with_code W E (Some k) (Some code) (o1, w) =
         and_then (register_waker E (pr_handle P j (wo_op o2)) k (o2, w2)) (\<lambda>(o3, w3). Inr (None, o3, w3))"
    "processing (o2, w2) j" "pr_parked P j (wo_op o2)" "\<forall>ct. wo_task o2 = Some ct \<longrightarrow> ct_registered ct = None"
    "pr_handle P j (wo_op o2) = pr_handle P i (wo_op o1)" "wo_cell o2 = wo_cell o1" "w_current w2 = w_current w"
  have cur2: "w_current w2 = Some (t, v)" using cur(1) *(7) by simp
  obtain o3 w3 where o3: "register_waker E (pr_handle P j (wo_op o2)) k (o2, w2) = Inr (o3, w3)"
    "op_inv W P (o3, w3)" "wo_state o3 = In_Progress j"
    "registered_at w3 (wo_cell o3) = {(t, pr_handle P j (wo_op o2))}"
    "cs_waker (w_cells w3 (wo_cell o3)) = Some k" "wo_cell o3 = wo_cell o2" "w_current w3 = w_current w2"
    using register_processing [OF E *(2,3) _ cur2 cur(2), of k] *(4) by blast
  then show ?thesis
    using * by (intro exI [of _ None] exI [of _ o3] exI [of _ w3]) (simp add: is_done_def)
qed

text \<open>
  Polling an operation that is not done never panics, keeps the invariant, and registers the
  operation with the current task alone if it stays pending.
\<close>

lemma poll_complete_ok:
  assumes E: "quiet_env E (pr_quiet P)" and inv: "op_inv W P (o1, w)" and nd: "\<not> is_done o1"
    and cur: "w_current w = Some (t, v)" "2 \<le> v"
  shows "\<exists>x o2 w2 h. poll_complete W E k (o1, w) = Inr (x, o2, w2) \<and> op_inv W P (o2, w2) \<and>
    (is_done o2 \<longleftrightarrow> x \<noteq> None) \<and> wo_cell o2 = wo_cell o1 \<and> w_current w2 = w_current w \<and>
    registered_at w2 (wo_cell o2) = (if x = None then {(t, h)} else {}) \<and>
    cs_waker (w_cells w2 (wo_cell o2)) = (if x = None then Some k else None) \<and>
    (\<forall>y. x = Some y \<longrightarrow> pr_finished P y (wo_op o2) (w_mach w2))"
proof (cases "wo_state o1")
  case Done
  then show ?thesis using nd by (simp add: is_done_def)
next
  case (Start a)
  note q = inv [unfolded op_inv_def prod.case Start op_state.case]
  obtain code i s m where st: "wop_start W a (wo_op o1, w_mach w) = Inr ((code, i), s, m)"
    "pr_running P i s m" "pr_legal P i s m code"
    using start_law [of a "wo_op o1" "w_mach w"] q by blast
  let ?o = "o1\<lparr>wo_op := s, wo_state := In_Progress i\<rparr>" and ?w = "w\<lparr>w_mach := m\<rparr>"
  have free: "\<forall>t. waitables_of w t (pr_handle P i s) = None" using q st(1) by blast
  have "processing (?o, ?w) i"
    using q st(2) free by (simp add: processing_def no_completion_def)
  from process_and_register_ok [OF E this _ _ cur(2), of code t k] st(3) cur(1)
  obtain x o2 w2 where "poll_complete_with_code W E (Some k) (Some code) (?o, ?w) = Inr (x, o2, w2)"
    "op_inv W P (o2, w2)" "is_done o2 \<longleftrightarrow> x \<noteq> None" "wo_cell o2 = wo_cell o1" "w_current w2 = w_current w"
    "registered_at w2 (wo_cell o2) = (if x = None then {(t, pr_handle P i s)} else {})"
    "cs_waker (w_cells w2 (wo_cell o2)) = (if x = None then Some k else None)"
    "\<forall>y. x = Some y \<longrightarrow> pr_finished P y (wo_op o2) (w_mach w2)" using q by (auto simp: no_completion_def)
  moreover have "poll_complete W E k (o1, w) = poll_complete_with_code W E (Some k) (Some code) (?o, ?w)"
    by (simp add: poll_complete_def Start with_op_def st(1))
  ultimately show ?thesis by auto
next
  case (In_Progress i)
  note q = inv [unfolded op_inv_def prod.case In_Progress op_state.case]
  let ?h = "pr_handle P i (wo_op o1)" and ?d = "w_cells w (wo_cell o1)"
  let ?w = "set_cell (wo_cell o1) (?d\<lparr>cs_code := None\<rparr>) w"
  have poll: "poll_complete W E k (o1, w) = poll_complete_with_code W E (Some k) (cs_code ?d) (o1, ?w)"
    by (simp add: poll_complete_def In_Progress Let_def)
  show ?thesis
  proof (cases "cs_code ?d")
    case (Some code)
    have r: "registered_at w (wo_cell o1) = {}" "pr_legal P i (wo_op o1) (w_mach w) code"
      "cs_waker ?d = None" using q Some by simp_all
    have p: "processing (o1, ?w) i"
      using q r(1) In_Progress reg_bound_empty by (auto simp: processing_def)
    have cur': "w_current ?w = Some (t, v)" using cur(1) by simp
    have l: "pr_legal P i (wo_op o1) (w_mach ?w) code" using r(2) by simp
    from process_and_register_ok [OF E p l cur' cur(2), of k]
    show ?thesis unfolding poll Some world_simps using r(3) by auto
  next
    case None
    note same = take_code_same [OF None]
    have w: "waits o1 w ?h" using q None by simp
    have h: "wop_waitable W i (wo_op o1) = Inr ?h" using waitable_law q by blast
    obtain w2 where w2: "register_waker E ?h k (o1, w) =
        Inr (o1\<lparr>wo_task := Some \<lparr>ct_ptr = t, ct_registered = Some ?h\<rparr>\<rparr>, w2)"
      "registered_at w2 (wo_cell o1) = {(t, ?h)}" "\<forall>u p. waitables_of w2 u ?h = Some p \<longrightarrow> p = wo_cell o1"
      "w_current w2 = w_current w"
      "w_cells w2 = (w_cells w)(wo_cell o1 := \<lparr>cs_code = None, cs_waker = Some k\<rparr>)"
      "(pr_quiet P)\<^sup>*\<^sup>* (w_mach w) (w_mach w2)"
      using register_waker_ok [OF E _ _ None cur, of ?h k] q by auto
    let ?o = "o1\<lparr>wo_task := Some \<lparr>ct_ptr = t, ct_registered = Some ?h\<rparr>\<rparr>"
    have run: "pr_running P i (wo_op o1) (w_mach w2)" by (rule stable [OF w2(6)]) (use q in simp_all)
    have "reg_bound w2 (wo_cell o1) (Some \<lparr>ct_ptr = t, ct_registered = Some ?h\<rparr>) ?h"
      using w2(2,3) unfolding reg_bound_def registered_at_def by fastforce
    then have "op_inv W P (?o, w2)"
      using q run In_Progress w2(2,5) by (simp add: op_inv_def waits_def)
    moreover have "poll_complete W E k (o1, w) = Inr (None, ?o, w2)"
      by (simp add: poll None same poll_complete_with_code_def In_Progress h w2(1))
    ultimately show ?thesis
      using w2(2,4,5) In_Progress
      by (intro exI [of _ None] exI [of _ ?o] exI [of _ w2] exI [of _ ?h]) (simp add: is_done_def)
  qed
qed

text \<open>The outcome of a cancellation: the operation is done and registered nowhere.\<close>

definition cancelled_ok ::
    "('s, 'a, 'i, 'h) run \<Rightarrow> ('c \<times> ('s, 'a, 'i, 'h) run) res \<Rightarrow> bool" where
  "cancelled_ok = (\<lambda>(o1, w) out. \<exists>c o2 w2. out = Inr (c, o2, w2) \<and> wo_state o2 = Done \<and> detached o2 w2 \<and>
     wo_cell o2 = wo_cell o1 \<and> w_current w2 = w_current w)"

lemma into_cancel_ok:
  assumes "pr_finished P x (wo_op o2) (w_mach w2)" "wo_state o2 = Done" "detached o2 w2"
    "wo_cell o2 = wo_cell o1" "w_current w2 = w_current w"
  shows "cancelled_ok (o1, w) (with_op (wop_into_cancel W x) (o2, w2))"
proof -
  obtain c s m where "wop_into_cancel W x (wo_op o2, w_mach w2) = Inr (c, s, m)"
    using into_cancel_law [OF assms(1)] by blast
  then show ?thesis using assms(2-5) by (simp add: cancelled_ok_def with_op_def detached_def)
qed

lemma cancel_in_progress_ok:
  assumes p: "processing (o1, w) i" and pk: "pr_parked P i (wo_op o1)"
  shows "cancelled_ok (o1, w) (cancel_in_progress W E (o1, w))"
proof -
  note q = p [unfolded processing_def prod.case]
  obtain code s m where c: "wop_cancel W i (wo_op o1, w_mach w) = Inr (code, s, m)"
    "pr_running P i s m" "pr_legal P i s m code" "pr_final P code" "pr_handle P i s = pr_handle P i (wo_op o1)"
    using cancel_law [OF _ pk] q by blast
  let ?o = "o1\<lparr>wo_op := s\<rparr>" and ?w = "w\<lparr>w_mach := m\<rparr>"
  have "processing (?o, ?w) i" using q c(2,5) by (simp add: processing_def)
  from process_code_ok [OF this, of code E] c(3)
  obtain x o2 w2 where r: "poll_complete_with_code W E None (Some code) (?o, ?w) = Inr (Some x, o2, w2)"
    "wo_state o2 = Done" "detached o2 w2" "pr_finished P x (wo_op o2) (w_mach w2)"
    "wo_cell o2 = wo_cell o1" "w_current w2 = w_current w"
    using c(4) by auto
  have "cancel_in_progress W E (o1, w) = with_op (wop_into_cancel W x) (o2, w2)"
    using q c(1) r(1) by (simp add: cancel_in_progress_def with_op_def)
  then show ?thesis using into_cancel_ok [OF r(4,2,3,5,6)] by simp
qed

text \<open>Cancelling an operation that is not done never panics and detaches it.\<close>

lemma cancel_ok:
  assumes E: "quiet_env E (pr_quiet P)" and inv: "op_inv W P (o1, w)" and nd: "\<not> is_done o1"
  shows "cancelled_ok (o1, w) (cancel W E (o1, w))"
proof (cases "wo_state o1")
  case Done
  then show ?thesis using nd by (simp add: is_done_def)
next
  case (Start a)
  note q = inv [unfolded op_inv_def prod.case Start op_state.case]
  obtain c s m where "wop_start_cancelled W a (wo_op o1, w_mach w) = Inr (c, s, m)"
    using start_cancelled_law [of a "wo_op o1" "w_mach w"] q by blast
  then show ?thesis
    using q by (simp add: cancel_def Start cancelled_ok_def with_op_def detached_def)
next
  case (In_Progress i)
  note q = inv [unfolded op_inv_def prod.case In_Progress op_state.case]
  let ?h = "pr_handle P i (wo_op o1)" and ?d = "w_cells w (wo_cell o1)"
  let ?w = "set_cell (wo_cell o1) (?d\<lparr>cs_code := None\<rparr>) w"
  show ?thesis
  proof (cases "cs_code ?d")
    case (Some code)
    have r: "registered_at w (wo_cell o1) = {}" "pr_legal P i (wo_op o1) (w_mach w) code"
      "cs_waker ?d = None" using q Some by simp_all
    have p: "processing (o1, ?w) i"
      using q r(1) In_Progress reg_bound_empty by (auto simp: processing_def)
    have run: "cancel W E (o1, w) =
        and_then (poll_complete_with_code W E None (Some code) (o1, ?w)) (\<lambda>(ready, o1, w).
          case ready of
            Some x \<Rightarrow> with_op (wop_into_cancel W x) (o1, w)
          | None \<Rightarrow> cancel_in_progress W E (o1, w))"
      by (simp add: cancel_def In_Progress Let_def Some)
    have l: "pr_legal P i (wo_op o1) (w_mach ?w) code" using r(2) by simp
    from process_code_ok [OF p l, of E] show ?thesis
    proof (elim disjE exE conjE)
      fix x o2 w2 assume *: "poll_complete_with_code W E None (Some code) (o1, ?w) = Inr (Some x, o2, w2)"
        "wo_state o2 = Done" "detached o2 w2" "pr_finished P x (wo_op o2) (w_mach w2)"
        "wo_cell o2 = wo_cell o1" "w_current w2 = w_current ?w"
      then show ?thesis using into_cancel_ok [of x o2 w2 o1 w] by (simp add: run)
    next
      fix j o2 w2 assume *: "poll_complete_with_code W E None (Some code) (o1, ?w) = Inr (None, o2, w2)"
        "processing (o2, w2) j" "pr_parked P j (wo_op o2)" "wo_cell o2 = wo_cell o1" "w_current w2 = w_current ?w"
      from cancel_in_progress_ok [OF *(2,3), of E] *(1,4,5) show ?thesis
        by (simp add: run cancelled_ok_def)
    qed
  next
    case None
    note same = take_code_same [OF None]
    have h: "wop_waitable W i (wo_op o1) = Inr ?h" using waitable_law q by blast
    obtain t where t: "wo_task o1 = Some \<lparr>ct_ptr = t, ct_registered = Some ?h\<rparr>"
      using q None by (auto simp: waits_def)
    have b: "reg_bound w (wo_cell o1) (Some \<lparr>ct_ptr = t, ct_registered = Some ?h\<rparr>) ?h" using q t by simp
    obtain w2 where w2: "unregister_waker E ?h (o1, w) =
        Inr (o1\<lparr>wo_task := Some \<lparr>ct_ptr = t, ct_registered = None\<rparr>\<rparr>, w2)"
      "registered_at w2 (wo_cell o1) = {}" "\<forall>u. waitables_of w2 u ?h = None"
      "only_registers (pr_quiet P) w w2"
      using unregister_waker_ok [OF E b t] by auto
    have run: "pr_running P i (wo_op o1) (w_mach w2)"
      by (rule stable [OF only_registersD(1) [OF w2(4)]]) (use q in simp_all)
    let ?o = "o1\<lparr>wo_task := Some \<lparr>ct_ptr = t, ct_registered = None\<rparr>\<rparr>"
    have "processing (?o, w2) i"
      using q In_Progress run w2(2,3) None only_registersD(2) [OF w2(4)] by (simp add: processing_def)
    from cancel_in_progress_ok [OF this, of E] q have "cancelled_ok (?o, w2) (cancel_in_progress W E (?o, w2))"
      by simp
    moreover have "cancel W E (o1, w) = cancel_in_progress W E (?o, w2)"
      by (simp add: cancel_def In_Progress Let_def None same h w2(1))
    ultimately show ?thesis using only_registersD(3) [OF w2(4)] by (simp add: cancelled_ok_def)
  qed
qed

text \<open>Dropping an operation in any state leaves no task with a pointer to its cell.\<close>

lemma operation_drop_ok:
  assumes E: "quiet_env E (pr_quiet P)" and inv: "op_inv W P (o1, w)"
  shows "\<exists>c o2 w2. operation_drop W E (o1, w) = Inr (c, o2, w2) \<and> is_done o2 \<and> wo_task o2 = None \<and>
    registered_at w2 (wo_cell o1) = {} \<and> w_current w2 = w_current w"
proof -
  obtain c o2 w2 where c: "(if is_done o1 then Inr (None, o1, w)
      else and_then (cancel W E (o1, w)) (\<lambda>(c, o1, w). Inr (Some c, o1, w))) = Inr (c, o2, w2)"
    "wo_state o2 = Done" "detached o2 w2" "wo_cell o2 = wo_cell o1" "w_current w2 = w_current w"
  proof (cases "is_done o1")
    case True
    then have d: "wo_state o1 = Done" by (simp add: is_done_def split: op_state.splits)
    then show ?thesis using that [of None o1 w] inv True by (simp add: op_inv_def)
  next
    case False
    then show ?thesis
      using cancel_ok [OF E inv] that by (auto simp: cancelled_ok_def)
  qed
  have "only_registers (pr_quiet P) w2 (cabi_task_drop E ct w2) \<and>
      waitables_of (cabi_task_drop E ct w2) = waitables_of w2" if "wo_task o2 = Some ct" for ct
    using cabi_task_drop_effect [OF E, of ct w2] c(3) that by (simp add: detached_def)
  then show ?thesis
    using c unfolding operation_drop_def detached_def registered_at_def
    by (cases "wo_task o2") (auto simp: is_done_def only_registers_def)
qed

end

end
