(* ===== verification/Rt_Lifecycle.thy ===== *)
theory Rt_Lifecycle
  imports Rt_Protocol
begin

text \<open>
  The life of an operation as a transition system: it is polled, the host delivers its event, it is
  cancelled, the runtime switches to another task, or the host moves on without it. The invariant of
  \<open>Rt_Protocol\<close> holds in every state that can be reached, whatever the order of these steps.
\<close>

section \<open>Waking\<close>

text \<open>Waking a task or another waker changes neither registrations nor cells.\<close>

definition quiet_wakes ::
    "'h rt_env \<Rightarrow> (nat \<Rightarrow> 'h rt_world step) \<Rightarrow> ('h machine \<Rightarrow> 'h machine \<Rightarrow> bool) \<Rightarrow> bool" where
  "quiet_wakes E other Q \<longleftrightarrow>
     (\<forall>i w w'. other i w = Inr w' \<longrightarrow> waitables_of w' = waitables_of w \<and> only_registers Q w w') \<and>
     (\<forall>wr m m'. waker_state_wake E wr m = Inr m' \<longrightarrow> Q m m')"

lemma wake_task_effect:
  assumes "quiet_wakes E other Q" "wake_task E t w = Inr w'"
  shows "waitables_of w' = waitables_of w \<and> only_registers Q w w'"
proof -
  let ?w = "set_task t ((w_tasks w t)\<lparr>sh_sleep := SLEEP_STATE_WOKEN\<rparr>) w"
  have same: "waitables_of ?w = waitables_of w"
    by (rule ext) (simp add: waitables_of_def)
  consider "w' = ?w"
    | m where "w' = ?w\<lparr>w_mach := m\<rparr>" "waker_state_wake E (sh_writer (w_tasks w t)) (w_mach w) = Inr m"
    using assms(2)
    by (auto simp: wake_task_def Let_def waker_state_wake_disabled_def res_simps split: if_splits)
  then show ?thesis
  proof cases
    case 1
    then show ?thesis using same by (simp add: only_registers_def)
  next
    case (2 m)
    have "Q (w_mach w) m" using assms(1) 2(2) unfolding quiet_wakes_def by blast
    then show ?thesis using same 2(1) by (simp add: only_registers_def)
  qed
qed

lemma wake_effect:
  assumes "quiet_wakes E other Q" "wake E other k w = Inr w'"
  shows "waitables_of w' = waitables_of w \<and> only_registers Q w w'"
proof (cases k)
  case (Task_Waker t)
  then show ?thesis using wake_task_effect [OF assms(1)] assms(2) by (simp add: wake_def)
next
  case (Other_Waker i)
  then show ?thesis using assms unfolding wake_def quiet_wakes_def by auto
qed

section \<open>Delivering an event\<close>

text \<open>The waitable leaves the map, the code is in the cell, and nothing else is different.\<close>

lemma deliver_effect:
  assumes E: "quiet_env E Q" and K: "quiet_wakes E other Q" and at: "waitables_of w t h = Some c"
    and d: "deliver E other t h code w = Inr w'"
  shows "waitables_of w' = (waitables_of w)(t := (waitables_of w t)(h := None)) \<and>
    w_cells w' = (w_cells w)(c := \<lparr>cs_code = Some code, cs_waker = None\<rparr>) \<and>
    w_current w' = w_current w \<and> Q\<^sup>*\<^sup>* (w_mach w) (w_mach w')"
proof -
  let ?m = "remove_waitable_from_all_sets E h (w_mach w)"
  let ?s = "w_tasks w t"
  let ?w = "set_cell c \<lparr>cs_code = Some code, cs_waker = None\<rparr>
    (set_task t (?s\<lparr>sh_waitables := (sh_waitables ?s)(h := None)\<rparr>) (w\<lparr>w_mach := ?m\<rparr>))"
  have "sh_waitables ?s h = Some c" using at by (simp add: waitables_of_def)
  then obtain k where k: "wake E other k ?w = Inr w'"
    using d by (auto simp: deliver_def Let_def cabi_wake_def on_mach_def res_simps)
  have "Q (w_mach w) ?m" by (rule quiet_envD(3) [OF E])
  then have m: "Q\<^sup>*\<^sup>* (w_mach w) (w_mach w')"
    using wake_effect [OF K k] converse_rtranclp_into_rtranclp [of Q "w_mach w" ?m "w_mach w'"]
    by (auto simp: only_registers_def)
  have "waitables_of ?w = (waitables_of w)(t := (waitables_of w t)(h := None))"
    by (rule ext) (simp add: waitables_of_def)
  then show ?thesis using wake_effect [OF K k] m by (simp add: only_registers_def)
qed

section \<open>The transition system\<close>

inductive op_step ::
    "('s, 'a, 'i, 'r, 'c, 'h) waitable_op \<Rightarrow> ('s, 'a, 'i, 'r, 'h) protocol \<Rightarrow> 'h rt_env
      \<Rightarrow> (nat \<Rightarrow> 'h rt_world step) \<Rightarrow> ('s, 'a, 'i, 'h) run \<Rightarrow> ('s, 'a, 'i, 'h) run \<Rightarrow> bool"
  for W P E other where
  polled: "\<not> is_done o1 \<Longrightarrow> w_current w = Some (t, v) \<Longrightarrow> 2 \<le> v \<Longrightarrow>
    poll_complete W E k (o1, w) = Inr (x, o2, w2) \<Longrightarrow> op_step W P E other (o1, w) (o2, w2)"
| cancelled: "\<not> is_done o1 \<Longrightarrow> cancel W E (o1, w) = Inr (c, o2, w2) \<Longrightarrow>
    op_step W P E other (o1, w) (o2, w2)"
| delivered: "wo_state o1 = In_Progress i \<Longrightarrow> waitables_of w t h = Some (wo_cell o1) \<Longrightarrow>
    pr_legal P i (wo_op o1) (w_mach w) code \<Longrightarrow> deliver E other t h code w = Inr w' \<Longrightarrow>
    op_step W P E other (o1, w) (o1, w')"
| switched: "op_step W P E other (o1, w) (o1, w\<lparr>w_current := cur\<rparr>)"
| host_moved: "wo_state o1 = In_Progress i \<Longrightarrow> pr_quiet P (w_mach w) m \<Longrightarrow>
    op_step W P E other (o1, w) (o1, w\<lparr>w_mach := m\<rparr>)"

inductive_cases op_stepE: "op_step W P E other s s'"

abbreviation op_steps where
  "op_steps W P E other \<equiv> (op_step W P E other)\<^sup>*\<^sup>*"

lemma registered_at_current [simp]: "registered_at (w\<lparr>w_current := cur\<rparr>) c = registered_at w c"
  by (simp add: registered_at_def)

lemma reg_bound_current [simp]: "reg_bound (w\<lparr>w_current := cur\<rparr>) c st h = reg_bound w c st h"
  unfolding reg_bound_def waitables_of_same by (rule refl)

lemma op_inv_current [simp]: "op_inv W P (o1, w\<lparr>w_current := cur\<rparr>) = op_inv W P (o1, w)"
  unfolding op_inv_def waits_def detached_def
  by (cases "wo_state o1") (simp_all split: option.split)

text \<open>The invariant bounds the registrations: none, or one under the operation's own waitable.\<close>

lemma op_inv_registered:
  assumes "op_inv W P (o1, w)"
  shows "case wo_state o1 of
      In_Progress i \<Rightarrow> \<exists>t. registered_at w (wo_cell o1) \<subseteq> {(t, pr_handle P i (wo_op o1))}
    | _ \<Rightarrow> registered_at w (wo_cell o1) = {}"
  using assms by (auto simp: op_inv_def waits_def detached_def split: op_state.splits option.splits)

context waitable_protocol
begin

lemma deliver_ok:
  assumes E: "quiet_env E (pr_quiet P)" and K: "quiet_wakes E other (pr_quiet P)"
    and inv: "op_inv W P (o1, w)" and st: "wo_state o1 = In_Progress i"
    and at: "waitables_of w t h = Some (wo_cell o1)" and l: "pr_legal P i (wo_op o1) (w_mach w) code"
    and d: "deliver E other t h code w = Inr w'"
  shows "op_inv W P (o1, w')"
proof -
  note q = inv [unfolded op_inv_def prod.case st op_state.case]
  let ?c = "wo_cell o1" and ?h = "pr_handle P i (wo_op o1)"
  have reg: "(t, h) \<in> registered_at w ?c" using at by (simp add: registered_at_def)
  then have none: "cs_code (w_cells w ?c) = None" using q by (auto split: option.splits)
  then have "waits o1 w ?h" using q by simp
  then obtain t' where "registered_at w ?c = {(t', ?h)}" by (auto simp: waits_def)
  then have one: "registered_at w ?c = {(t, h)}" and h: "h = ?h" using reg by auto
  have b: "reg_bound w ?c (wo_task o1) h" using q h by simp
  note e = deliver_effect [OF E K at d]
  have w': "waitables_of w' = (waitables_of w)(t := (waitables_of w t)(h := None))" using e by blast
  have empty: "waitables_of w' u k \<noteq> Some ?c" for u k
  proof (cases "(u, k) = (t, h)")
    case True
    then show ?thesis using w' by simp
  next
    case False
    then have "waitables_of w u k \<noteq> Some ?c" using one by (auto simp: registered_at_def)
    then show ?thesis using w' False by (cases "u = t") auto
  qed
  have free: "waitables_of w' u h = None" for u
    using reg_boundD(1) [OF b, of u] empty [of u h] w' by (cases "waitables_of w' u h"; cases "u = t") auto
  have "reg_bound w' ?c (wo_task o1) h"
    unfolding reg_bound_def using free empty reg_boundD(4) [OF b] by auto
  moreover have "registered_at w' ?c = {}" using empty by (auto simp: registered_at_def)
  moreover have "pr_running P i (wo_op o1) (w_mach w')" using stable [of "w_mach w" "w_mach w'" i "wo_op o1"] e q by blast
  moreover have "pr_legal P i (wo_op o1) (w_mach w') code" using legal_stable [of "w_mach w" "w_mach w'" i "wo_op o1"] e q l by blast
  ultimately show ?thesis using q st e h by (simp add: op_inv_def)
qed

lemma host_moved_ok:
  assumes "op_inv W P (o1, w)" "wo_state o1 = In_Progress i" "pr_quiet P (w_mach w) m"
  shows "op_inv W P (o1, w\<lparr>w_mach := m\<rparr>)"
proof -
  note q = assms(1) [unfolded op_inv_def prod.case assms(2) op_state.case]
  have "pr_running P i (wo_op o1) m" using stable_law q assms(3) by blast
  moreover have "\<And>code. pr_legal P i (wo_op o1) (w_mach w) code \<Longrightarrow> pr_legal P i (wo_op o1) m code"
    using legal_stable_law q assms(3) by blast
  ultimately show ?thesis
    using q assms(2) by (simp add: op_inv_def waits_def split: option.splits)
qed

lemma step_ok:
  assumes E: "quiet_env E (pr_quiet P)" and K: "quiet_wakes E other (pr_quiet P)"
    and step: "op_step W P E other s s'" and inv: "op_inv W P s"
  shows "op_inv W P s'"
  using step
proof (cases rule: op_step.cases)
  case (polled o1 w t v k x o2 w2)
  then show ?thesis using poll_complete_ok [OF E, of o1 w t v k] inv by auto
next
  case (cancelled o1 w c o2 w2)
  then have "wo_cell o1 \<noteq> 0" using inv by (simp add: op_inv_def)
  then show ?thesis
    using cancel_ok [OF E, of o1 w] cancelled inv by (auto simp: cancelled_ok_def op_inv_def)
next
  case (delivered o1 i w t h code w')
  then show ?thesis using deliver_ok [OF E K] inv by blast
next
  case (switched o1 w cur)
  then show ?thesis using inv by simp
next
  case (host_moved o1 i w m)
  then show ?thesis using host_moved_ok inv by blast
qed

lemma reachable_ok:
  assumes E: "quiet_env E (pr_quiet P)" and K: "quiet_wakes E other (pr_quiet P)"
    and steps: "op_steps W P E other s s'" and inv: "op_inv W P s"
  shows "op_inv W P s'"
  using steps inv by (induction rule: rtranclp_induct) (auto intro: step_ok [OF E K])

text \<open>Once the host has delivered a final code, the next poll completes the operation.\<close>

lemma final_poll_ok:
  assumes E: "quiet_env E (pr_quiet P)" and inv: "op_inv W P (o1, w)" and st: "wo_state o1 = In_Progress i"
    and code: "cs_code (w_cells w (wo_cell o1)) = Some code" "pr_final P code"
    and cur: "w_current w = Some (t, v)" "2 \<le> v"
  shows "\<exists>x o2 w2. poll_complete W E k (o1, w) = Inr (Some x, o2, w2) \<and> is_done o2 \<and>
    registered_at w2 (wo_cell o2) = {} \<and> pr_finished P x (wo_op o2) (w_mach w2)"
proof -
  note q = inv [unfolded op_inv_def prod.case st op_state.case]
  let ?d = "w_cells w (wo_cell o1)"
  let ?w = "set_cell (wo_cell o1) (?d\<lparr>cs_code := None\<rparr>) w"
  have r: "registered_at w (wo_cell o1) = {}" "pr_legal P i (wo_op o1) (w_mach w) code"
    using q code(1) by simp_all
  have p: "processing (o1, ?w) i"
    using q r(1) st reg_bound_empty by (auto simp: processing_def)
  have l: "pr_legal P i (wo_op o1) (w_mach ?w) code" using r(2) by simp
  have poll: "poll_complete W E k (o1, w) = poll_complete_with_code W E (Some k) (Some code) (o1, ?w)"
    by (simp add: poll_complete_def st Let_def code(1))
  from process_code_ok [OF p l, of E] code(2)
  obtain x o2 w2 where "poll_complete_with_code W E (Some k) (Some code) (o1, ?w) = Inr (Some x, o2, w2)"
    "wo_state o2 = Done" "detached o2 w2" "pr_finished P x (wo_op o2) (w_mach w2)"
    by blast
  then show ?thesis unfolding poll by (auto simp: is_done_def detached_def)
qed

text \<open>A new operation satisfies the invariant.\<close>

lemma operation_new_ok:
  assumes "c \<noteq> 0" "pr_startable P a s (w_mach w)" "registered_at w c = {}"
    and "\<And>code i s' m. wop_start W a (s, w_mach w) = Inr ((code, i), s', m) \<Longrightarrow>
      \<forall>t. waitables_of w t (pr_handle P i s') = None"
  shows "op_inv W P (operation_new s a c w)"
  using assms by (auto simp add: op_inv_def operation_new_def)

end

end
