(* ===== verification/Rt_Stream.thy ===== *)
theory Rt_Stream
  imports Rt_Lifecycle
begin

text \<open>
  \<open>stream_support.rs\<close>: creating a stream, its writable and readable ends, and the two
  implementations of \<open>WaitableOp\<close> behind a stream write and a stream read, each shown to keep the
  promises of \<open>waitable_protocol\<close> as long as the host keeps its own.
\<close>

datatype stream_result = Completed_Items nat | Stream_Dropped | Stream_Cancelled

section \<open>The ends of a stream\<close>

record stream_writer =
  sw_handle :: u32
  sw_done :: bool

record stream_reader =
  sr_handle :: u32
  sr_done :: bool

text \<open>\<open>raw_stream_new\<close>: the reader's handle is in the low half of what the host returns.\<close>

definition stream_new ::
    "('p, 'h) stream_ops \<Rightarrow> 'h machine \<Rightarrow> (stream_writer \<times> stream_reader) \<times> 'h machine" where
  "stream_new ops m =
     (let (handles, r) = so_new ops (m_raw m) in
      ((\<lparr>sw_handle = ucast (drop_bit 32 handles), sw_done = False\<rparr>,
        \<lparr>sr_handle = ucast handles, sr_done = False\<rparr>),
       logged [] r m))"

definition writer_drop :: "('p, 'h) stream_ops \<Rightarrow> stream_writer \<Rightarrow> 'h machine \<Rightarrow> 'h machine" where
  "writer_drop ops s m = logged [Drop_Writable (sw_handle s)] (so_drop_writable ops (sw_handle s) (m_raw m)) m"

text \<open>\<open>u32::MAX\<close> stands for a handle that has been taken.\<close>

definition NO_HANDLE :: u32 where "NO_HANDLE = 0xffffffff"

definition opt_handle :: "u32 \<Rightarrow> u32 option" where
  "opt_handle h = (if h = NO_HANDLE then None else Some h)"

lemma opt_handle_some [simp]: "h \<noteq> NO_HANDLE \<Longrightarrow> opt_handle h = Some h"
  by (simp add: opt_handle_def)

definition reader_take_handle :: "stream_reader \<Rightarrow> (u32 \<times> stream_reader) res" where
  "reader_take_handle s =
     and_then (unwrap (opt_handle (sr_handle s))) (\<lambda>h. Inr (h, s\<lparr>sr_handle := NO_HANDLE\<rparr>))"

definition reader_drop :: "('p, 'h) stream_ops \<Rightarrow> stream_reader \<Rightarrow> 'h machine \<Rightarrow> 'h machine" where
  "reader_drop ops s m =
     (case opt_handle (sr_handle s) of
        None \<Rightarrow> m
      | Some h \<Rightarrow> logged [Drop_Readable h] (so_drop_readable ops h (m_raw m)) m)"

section \<open>Writing\<close>

definition stream_write_start ::
    "('p, 'h) stream_ops \<Rightarrow> 'p abi_buffer \<Rightarrow> stream_writer \<times> 'h machine
      \<Rightarrow> ((u32 \<times> 'p abi_buffer) \<times> stream_writer \<times> 'h machine) res" where
  "stream_write_start ops b = (\<lambda>(s, m).
     if sw_done s then Inr ((DROPPED, b), s, m)
     else
       let (p, len) = abi_ptr_and_len ops b;
           (code, r) = so_start_write ops (sw_handle s) p (min len MAX_LENGTH) (m_raw m) in
       Inr ((code, b), s, logged [Write_Call (sw_handle s) p (min len MAX_LENGTH) code] r m))"

text \<open>The case of a completion with a count, shared by the three codes that carry one.\<close>

definition stream_write_count ::
    "('p, 'h) stream_ops \<Rightarrow> 'p abi_buffer \<Rightarrow> nat \<Rightarrow> bool \<Rightarrow> stream_writer \<times> 'h machine
      \<Rightarrow> ((stream_result \<times> 'p abi_buffer, 'p abi_buffer) update \<times> stream_writer \<times> 'h machine) res" where
  "stream_write_count ops b amt dropped = (\<lambda>(s, m).
     and_then (advance ops amt b m) (\<lambda>(b, m).
       Inr (Complete (Completed_Items amt, b), s\<lparr>sw_done := sw_done s \<or> dropped\<rparr>, m)))"

definition stream_write_update ::
    "('p, 'h) stream_ops \<Rightarrow> 'p abi_buffer \<Rightarrow> u32 \<Rightarrow> stream_writer \<times> 'h machine
      \<Rightarrow> ((stream_result \<times> 'p abi_buffer, 'p abi_buffer) update \<times> stream_writer \<times> 'h machine) res" where
  "stream_write_update ops b code = (\<lambda>(s, m).
     and_then (decode_return code) (\<lambda>c.
       case c of
         Blocked \<Rightarrow> Inr (Still b, s, m)
       | Dropped amt \<Rightarrow>
           if amt = 0 then Inr (Complete (Stream_Dropped, b), s, m)
           else stream_write_count ops b (unat amt) True (s, m)
       | Cancelled amt \<Rightarrow>
           if amt = 0 then Inr (Complete (Stream_Cancelled, b), s, m)
           else stream_write_count ops b (unat amt) False (s, m)
       | Completed amt \<Rightarrow> stream_write_count ops b (unat amt) False (s, m)))"

definition stream_write_op ::
    "('p, 'h) stream_ops \<Rightarrow> (stream_writer, 'p abi_buffer, 'p abi_buffer, stream_result \<times> 'p abi_buffer,
      stream_result \<times> 'p abi_buffer, 'h) waitable_op" where
  "stream_write_op ops =
     \<lparr>wop_start = stream_write_start ops,
      wop_update = stream_write_update ops,
      wop_start_cancelled = (\<lambda>b (s, m). Inr ((Stream_Cancelled, b), s, m)),
      wop_waitable = (\<lambda>b s. Inr (sw_handle s)),
      wop_cancel = (\<lambda>b (s, m).
        let (code, r) = so_cancel_write ops (sw_handle s) (m_raw m) in
        Inr (code, s, logged [Cancel_Write (sw_handle s) code] r m)),
      wop_into_cancel = (\<lambda>x (s, m). Inr (x, s, m))\<rparr>"

section \<open>Reading\<close>

text \<open>The vector that a read fills: its items, its capacity and where its storage is.\<close>

record 'p read_buf =
  rb_items :: "'p list"
  rb_cap :: nat
  rb_base :: addr

text \<open>Where the host reads into: the spare capacity, or a block of its own if items are lifted.\<close>

definition stream_read_block ::
    "'h allocator \<Rightarrow> ('p, 'h) stream_ops \<Rightarrow> 'p read_buf \<Rightarrow> 'h machine \<Rightarrow> ((addr \<times> cleanup option) \<times> 'h machine) res" where
  "stream_read_block A ops b m =
     (if so_native ops then Inr ((rb_base b + length (rb_items b) * so_payload_size ops, None), m)
      else
        and_then (unwrap (from_size_align ((elem_size ops * (rb_cap b - length (rb_items b))) mod 2 ^ 32)
          (l_align (so_layout ops)))) (\<lambda>l. cleanup_new A l m))"

definition stream_read_start ::
    "'h allocator \<Rightarrow> ('p, 'h) stream_ops \<Rightarrow> 'p read_buf \<Rightarrow> stream_reader \<times> 'h machine
      \<Rightarrow> ((u32 \<times> 'p read_buf \<times> cleanup option) \<times> stream_reader \<times> 'h machine) res" where
  "stream_read_start A ops b = (\<lambda>(s, m).
     if sr_done s then Inr ((DROPPED, b, None), s, m)
     else
       let cap = rb_cap b - length (rb_items b) in
       and_then (stream_read_block A ops b m) (\<lambda>((p, c), m).
         and_then (unwrap (opt_handle (sr_handle s))) (\<lambda>h.
           let (code, r) = so_start_read ops h p (min cap MAX_LENGTH) (m_raw m) in
           Inr ((code, b, c), s, logged [Read_Call h p (min cap MAX_LENGTH) code] r m))))"

text \<open>Native items are initialised by the host in place; the length is set over them.\<close>

definition load_all :: "('p, 'h) stream_ops \<Rightarrow> nat \<Rightarrow> addr \<Rightarrow> 'h raw \<Rightarrow> 'p list" where
  "load_all ops n p r = map (\<lambda>i. so_load ops (p + i * so_payload_size ops) r) [0..<n]"

definition stream_read_count ::
    "'h allocator \<Rightarrow> ('p, 'h) stream_ops \<Rightarrow> 'p read_buf \<times> cleanup option \<Rightarrow> nat \<Rightarrow> bool
      \<Rightarrow> stream_reader \<times> 'h machine
      \<Rightarrow> ((stream_result \<times> 'p read_buf, 'p read_buf \<times> cleanup option) update \<times> stream_reader \<times> 'h machine) res" where
  "stream_read_count A ops = (\<lambda>(b, c) amt dropped (s, m).
     if \<not> amt \<le> rb_cap b - length (rb_items b) then Inl Assert_Failed
     else
       and_then
         (if so_native ops then
            Inr (load_all ops amt (rb_base b + length (rb_items b) * so_payload_size ops) (m_raw m), m)
          else lift_all ops amt (cleanup_ptr c) m)
         (\<lambda>(ys, m).
           Inr (Complete (Completed_Items amt, b\<lparr>rb_items := rb_items b @ ys\<rparr>),
             s\<lparr>sr_done := sr_done s \<or> dropped\<rparr>, drop_cleanup A c m)))"

definition stream_read_update ::
    "'h allocator \<Rightarrow> ('p, 'h) stream_ops \<Rightarrow> 'p read_buf \<times> cleanup option \<Rightarrow> u32 \<Rightarrow> stream_reader \<times> 'h machine
      \<Rightarrow> ((stream_result \<times> 'p read_buf, 'p read_buf \<times> cleanup option) update \<times> stream_reader \<times> 'h machine) res" where
  "stream_read_update A ops = (\<lambda>(b, c) code (s, m).
     and_then (decode_return code) (\<lambda>rc.
       case rc of
         Blocked \<Rightarrow> Inr (Still (b, c), s, m)
       | Dropped amt \<Rightarrow>
           if amt = 0 then Inr (Complete (Stream_Dropped, b), s, drop_cleanup A c m)
           else stream_read_count A ops (b, c) (unat amt) True (s, m)
       | Cancelled amt \<Rightarrow>
           if amt = 0 then Inr (Complete (Stream_Cancelled, b), s, drop_cleanup A c m)
           else stream_read_count A ops (b, c) (unat amt) False (s, m)
       | Completed amt \<Rightarrow> stream_read_count A ops (b, c) (unat amt) False (s, m)))"

definition stream_read_op ::
    "'h allocator \<Rightarrow> ('p, 'h) stream_ops \<Rightarrow> (stream_reader, 'p read_buf, 'p read_buf \<times> cleanup option,
      stream_result \<times> 'p read_buf, stream_result \<times> 'p read_buf, 'h) waitable_op" where
  "stream_read_op A ops =
     \<lparr>wop_start = stream_read_start A ops,
      wop_update = stream_read_update A ops,
      wop_start_cancelled = (\<lambda>b (s, m). Inr ((Stream_Cancelled, b), s, m)),
      wop_waitable = (\<lambda>i s. unwrap (opt_handle (sr_handle s))),
      wop_cancel = (\<lambda>i (s, m).
        and_then (unwrap (opt_handle (sr_handle s))) (\<lambda>h.
          let (code, r) = so_cancel_read ops h (m_raw m) in
          Inr (code, s, logged [Cancel_Read h code] r m))),
      wop_into_cancel = (\<lambda>x (s, m). Inr (x, s, m))\<rparr>"

section \<open>What the host promises\<close>

text \<open>A code that the runtime understands, with a count within what was offered.\<close>

definition legal_code :: "nat \<Rightarrow> u32 \<Rightarrow> bool" where
  "legal_code n code =
     (case decode_return code of
        Inl _ \<Rightarrow> False
      | Inr Blocked \<Rightarrow> True
      | Inr (Completed a) \<Rightarrow> unat a \<le> n
      | Inr (Dropped a) \<Rightarrow> unat a \<le> n
      | Inr (Cancelled a) \<Rightarrow> unat a \<le> n)"

definition code_count :: "u32 \<Rightarrow> nat" where
  "code_count code =
     (case decode_return code of
        Inr (Completed a) \<Rightarrow> unat a | Inr (Dropped a) \<Rightarrow> unat a | Inr (Cancelled a) \<Rightarrow> unat a | _ \<Rightarrow> 0)"


text \<open>
  \<open>H r h n\<close>: the host has a write of \<open>n\<close> items pending on the handle \<open>h\<close>. A write never touches the
  guest's items, and cancelling completes it.
\<close>

definition write_host ::
    "('p, 'h) stream_ops \<Rightarrow> ('h raw \<Rightarrow> addr \<Rightarrow> 'p \<Rightarrow> bool) \<Rightarrow> ('h raw \<Rightarrow> u32 \<Rightarrow> nat \<Rightarrow> bool) \<Rightarrow> bool" where
  "write_host ops R H \<longleftrightarrow>
     (\<forall>h p n r. legal_code n (fst (so_start_write ops h p n r)) \<and>
        H (snd (so_start_write ops h p n r)) h n \<and> keeps_slots R r (snd (so_start_write ops h p n r))) \<and>
     (\<forall>h n r. H r h n \<longrightarrow>
        legal_code n (fst (so_cancel_write ops h r)) \<and> fst (so_cancel_write ops h r) \<noteq> BLOCKED \<and>
        H (snd (so_cancel_write ops h r)) h n \<and> keeps_slots R r (snd (so_cancel_write ops h r)))"

text \<open>
  \<open>H r h p n\<close>: the host has a read of up to \<open>n\<close> items into the memory at \<open>p\<close> pending on \<open>h\<close>, and the
  items it reports are there.
\<close>

definition read_legal ::
    "('p, 'h) stream_ops \<Rightarrow> ('h raw \<Rightarrow> addr \<Rightarrow> 'p \<Rightarrow> bool) \<Rightarrow> addr \<Rightarrow> nat \<Rightarrow> 'h raw \<Rightarrow> u32 \<Rightarrow> bool" where
  "read_legal ops R p n r code \<longleftrightarrow> legal_code n code \<and>
     (so_native ops \<or> (\<exists>ys. length ys = code_count code \<and> slots R (elem_size ops) r p ys))"

definition read_host ::
    "('p, 'h) stream_ops \<Rightarrow> ('h raw \<Rightarrow> addr \<Rightarrow> 'p \<Rightarrow> bool)
      \<Rightarrow> ('h raw \<Rightarrow> u32 \<Rightarrow> addr \<Rightarrow> nat \<Rightarrow> bool) \<Rightarrow> bool" where
  "read_host ops R H \<longleftrightarrow>
     (\<forall>h p n r. read_legal ops R p n (snd (so_start_read ops h p n r)) (fst (so_start_read ops h p n r)) \<and>
        H (snd (so_start_read ops h p n r)) h p n) \<and>
     (\<forall>h p n r. H r h p n \<longrightarrow>
        read_legal ops R p n (snd (so_cancel_read ops h r)) (fst (so_cancel_read ops h r)) \<and>
        fst (so_cancel_read ops h r) \<noteq> BLOCKED \<and> H (snd (so_cancel_read ops h r)) h p n)"

lemma decode_blocked [simp]: "decode_return BLOCKED = Inr Blocked"
  by (simp add: decode_return_def)

lemma decode_eq_blocked: "decode_return code = Inr Blocked \<longleftrightarrow> code = BLOCKED"
  by (auto simp: decode_return_def Let_def split: if_splits)

lemma legal_codeE:
  assumes "legal_code n code"
  obtains "code = BLOCKED" "decode_return code = Inr Blocked"
  | a where "code \<noteq> BLOCKED" "decode_return code = Inr (Completed a)" "unat a \<le> n" "code_count code = unat a"
  | a where "code \<noteq> BLOCKED" "decode_return code = Inr (Dropped a)" "unat a \<le> n" "code_count code = unat a"
  | a where "code \<noteq> BLOCKED" "decode_return code = Inr (Cancelled a)" "unat a \<le> n" "code_count code = unat a"
  using assms decode_eq_blocked [of code]
  by (auto simp: legal_code_def code_count_def split: sum.splits return_code.splits)

lemma legal_code_mono: "legal_code m code \<Longrightarrow> m \<le> n \<Longrightarrow> legal_code n code"
  by (auto simp: legal_code_def split: sum.splits return_code.splits)

lemma decode_dropped [simp]: "decode_return DROPPED = Inr (Dropped 0)"
  using decode_pack(2) [of 0] by (simp add: pack_def)

lemma dropped_not_blocked [simp]: "DROPPED \<noteq> BLOCKED"
  by (simp add: DROPPED_def BLOCKED_def)

lemma legal_dropped [simp]: "legal_code n DROPPED" "code_count DROPPED = 0"
  by (simp_all add: legal_code_def code_count_def)

section \<open>A stream write keeps the protocol\<close>

text \<open>
  The buffer was made from \<open>xs\<close> and \<open>k\<close> items had been written before this write; \<open>L\<close> are the memory
  calls so far. A completed write of \<open>n\<close> items frees the lists of exactly these items.
\<close>

definition stream_write_protocol ::
    "('p, 'h) stream_ops \<Rightarrow> ('h raw \<Rightarrow> addr \<Rightarrow> 'p \<Rightarrow> bool) \<Rightarrow> ('h raw \<Rightarrow> u32 \<Rightarrow> nat \<Rightarrow> bool) \<Rightarrow> 'p list \<Rightarrow> nat
      \<Rightarrow> rt_call list
      \<Rightarrow> (stream_writer, 'p abi_buffer, 'p abi_buffer, stream_result \<times> 'p abi_buffer, 'h) protocol" where
  "stream_write_protocol ops R H xs k L =
     \<lparr>pr_startable = (\<lambda>b s m. ops_ok ops R \<and> write_host ops R H \<and> buffer_holds ops R xs k b (m_raw m) \<and>
        mem_calls m = L),
      pr_running = (\<lambda>b s m. ops_ok ops R \<and> write_host ops R H \<and> buffer_holds ops R xs k b (m_raw m) \<and>
        mem_calls m = L \<and> (\<not> sw_done s \<longrightarrow> (\<exists>n \<le> length xs - k. H (m_raw m) (sw_handle s) n))),
      pr_parked = (\<lambda>b s. \<not> sw_done s),
      pr_handle = (\<lambda>b s. sw_handle s),
      pr_legal = (\<lambda>b s m code. legal_code (length xs - k) code \<and> (sw_done s \<longrightarrow> code \<noteq> BLOCKED)),
      pr_final = (\<lambda>code. code \<noteq> BLOCKED),
      pr_finished = (\<lambda>(x, b) s m.
        case x of
          Completed_Items n \<Rightarrow> k + n \<le> length xs \<and> buffer_holds ops R xs (k + n) b (m_raw m) \<and>
            mem_calls m = L @ (if so_lists ops
              then map Dealloc_Lists (slot_addrs (elem_size ops) (cleanup_ptr (ab_alloc b) + k * elem_size ops) n)
              else [])
        | _ \<Rightarrow> buffer_holds ops R xs k b (m_raw m) \<and> mem_calls m = L),
      pr_quiet = (\<lambda>m m'. mem_quiet R m m' \<and> (\<forall>h n. H (m_raw m) h n \<longrightarrow> H (m_raw m') h n))\<rparr>"

lemma stream_write_fields [simp]:
  "pr_final (stream_write_protocol ops R H xs k L) code \<longleftrightarrow> code \<noteq> BLOCKED"
  "pr_parked (stream_write_protocol ops R H xs k L) b s \<longleftrightarrow> \<not> sw_done s"
  "pr_handle (stream_write_protocol ops R H xs k L) b s = sw_handle s"
  by (simp_all add: stream_write_protocol_def)

lemma stream_write_start_ok:
  assumes "pr_startable (stream_write_protocol ops R H xs k L) b s m"
  shows "\<exists>code s' m'. stream_write_start ops b (s, m) = Inr ((code, b), s', m') \<and>
    pr_running (stream_write_protocol ops R H xs k L) b s' m' \<and>
    pr_legal (stream_write_protocol ops R H xs k L) b s' m' code"
proof (cases "sw_done s")
  case True
  then show ?thesis using assms by (simp add: stream_write_start_def stream_write_protocol_def)
next
  case False
  note a = assms [unfolded stream_write_protocol_def, simplified]
  obtain p len where pl: "abi_ptr_and_len ops b = (p, len)" by fastforce
  then have len: "len = length xs - k" using a by (auto simp: abi_ptr_and_len_def buffer_holds_def split: if_splits)
  obtain code r where cr: "so_start_write ops (sw_handle s) p (min len MAX_LENGTH) (m_raw m) = (code, r)"
    by (cases "so_start_write ops (sw_handle s) p (min len MAX_LENGTH) (m_raw m)")
  have "write_host ops R H" using a by simp
  then have w: "legal_code (min len MAX_LENGTH) code" "H r (sw_handle s) (min len MAX_LENGTH)"
    "keeps_slots R (m_raw m) r"
    using cr unfolding write_host_def by (metis fst_conv snd_conv)+
  have "legal_code (length xs - k) code" using legal_code_mono [OF w(1)] len by simp
  moreover have "buffer_holds ops R xs k b r" using buffer_holds_keep [OF _ w(3)] a by simp
  moreover have "\<exists>n \<le> length xs - k. H r (sw_handle s) n" using w(2) len by (intro exI [of _ "min len MAX_LENGTH"]) simp
  ultimately show ?thesis
    using a False by (simp add: stream_write_start_def pl cr stream_write_protocol_def)
qed

lemma stream_write_count_ok:
  assumes "ops_ok ops R" "buffer_holds ops R xs k b (m_raw m)" "n \<le> length xs - k" "mem_calls m = L"
  shows "\<exists>b' s' m'. stream_write_count ops b n d (s, m) = Inr (Complete (Completed_Items n, b'), s', m') \<and>
    pr_finished (stream_write_protocol ops R H xs k L) (Completed_Items n, b') s' m'"
proof -
  have k: "k \<le> length xs" "ab_cursor b = k" using assms(2) by (simp_all add: buffer_holds_def)
  then have "k + n \<le> length xs" using assms(3) by linarith
  moreover have "so_lists ops \<Longrightarrow> \<not> so_native ops" using assms(1) by (auto simp: ops_ok_def)
  ultimately show ?thesis
    using advance_ok [OF assms(1,2)] assms(4) k(2)
    by (fastforce simp: stream_write_count_def stream_write_protocol_def abi_ptr_and_len_def)
qed

lemma stream_write_update_ok:
  assumes "pr_running (stream_write_protocol ops R H xs k L) b s m"
    and "pr_legal (stream_write_protocol ops R H xs k L) b s m code"
  shows "\<exists>u s' m'. stream_write_update ops b code (s, m) = Inr (u, s', m') \<and>
    (case u of
       Complete x \<Rightarrow> pr_finished (stream_write_protocol ops R H xs k L) x s' m'
     | Still j \<Rightarrow> code = BLOCKED \<and> j = b \<and> s' = s \<and> m' = m \<and> \<not> sw_done s)"
proof -
  note a = assms [unfolded stream_write_protocol_def, simplified]
  have count: "\<exists>u s' m'. stream_write_count ops b (unat c) d (s, m) = Inr (u, s', m') \<and>
      (case u of
         Complete x \<Rightarrow> pr_finished (stream_write_protocol ops R H xs k L) x s' m'
       | Still j \<Rightarrow> code = BLOCKED \<and> j = b \<and> s' = s \<and> m' = m \<and> \<not> sw_done s)"
    if "unat c \<le> length xs - k" for c :: u32 and d
    using stream_write_count_ok [OF _ _ that, of ops R b m L d s H] a by fastforce
  have "legal_code (length xs - k) code" using a by simp
  then show ?thesis
    using a count
    by (cases rule: legal_codeE) (simp_all add: stream_write_update_def stream_write_protocol_def)
qed

lemma stream_write_stable:
  assumes "pr_running (stream_write_protocol ops R H xs k L) b s m"
    and "pr_quiet (stream_write_protocol ops R H xs k L) m m'"
  shows "pr_running (stream_write_protocol ops R H xs k L) b s m'"
proof -
  note a = assms [unfolded stream_write_protocol_def mem_quiet_def, simplified]
  have b: "buffer_holds ops R xs k b (m_raw m')" using a buffer_holds_keep by blast
  have "H (m_raw m) h n \<Longrightarrow> H (m_raw m') h n" for h n using a(2) by auto
  then have "\<not> sw_done s \<Longrightarrow> \<exists>n \<le> length xs - k. H (m_raw m') (sw_handle s) n" using a(1) by blast
  then show ?thesis using a b by (simp add: stream_write_protocol_def)
qed

interpretation stream_write: waitable_protocol "stream_write_op ops" "stream_write_protocol ops R H xs k L"
  for ops :: "('p, 'h) stream_ops" and R H xs k L
proof
  fix a s and m :: "'h machine"
  assume "pr_startable (stream_write_protocol ops R H xs k L) a s m"
  from stream_write_start_ok [OF this]
  show "\<exists>code i s' m'. wop_start (stream_write_op ops) a (s, m) = Inr ((code, i), s', m') \<and>
      pr_running (stream_write_protocol ops R H xs k L) i s' m' \<and>
      pr_legal (stream_write_protocol ops R H xs k L) i s' m' code"
    by (auto simp: stream_write_op_def)
next
  fix i s and m :: "'h machine" and code
  assume *: "pr_running (stream_write_protocol ops R H xs k L) i s m"
    "pr_legal (stream_write_protocol ops R H xs k L) i s m code"
  from stream_write_update_ok [OF this] *(1)
  show "\<exists>u s' m'. wop_update (stream_write_op ops) i code (s, m) = Inr (u, s', m') \<and>
      (case u of
         Complete x \<Rightarrow> pr_finished (stream_write_protocol ops R H xs k L) x s' m'
       | Still j \<Rightarrow> \<not> pr_final (stream_write_protocol ops R H xs k L) code \<and>
           pr_running (stream_write_protocol ops R H xs k L) j s' m' \<and>
           pr_parked (stream_write_protocol ops R H xs k L) j s' \<and>
           pr_handle (stream_write_protocol ops R H xs k L) j s' = pr_handle (stream_write_protocol ops R H xs k L) i s)"
    by (elim exE) (rename_tac u s' m', case_tac u, auto simp: stream_write_op_def)
next
  fix i s and m :: "'h machine"
  assume *: "pr_running (stream_write_protocol ops R H xs k L) i s m" "pr_parked (stream_write_protocol ops R H xs k L) i s"
  note a = * [unfolded stream_write_protocol_def, simplified]
  obtain n where n: "n \<le> length xs - k" "H (m_raw m) (sw_handle s) n" using a by auto
  obtain code r where cr: "so_cancel_write ops (sw_handle s) (m_raw m) = (code, r)"
    by (cases "so_cancel_write ops (sw_handle s) (m_raw m)")
  have "write_host ops R H" using a by simp
  then have w: "legal_code n code" "code \<noteq> BLOCKED" "H r (sw_handle s) n" "keeps_slots R (m_raw m) r"
    using cr n(2) unfolding write_host_def by (metis fst_conv snd_conv)+
  show "\<exists>code s' m'. wop_cancel (stream_write_op ops) i (s, m) = Inr (code, s', m') \<and>
      pr_running (stream_write_protocol ops R H xs k L) i s' m' \<and>
      pr_legal (stream_write_protocol ops R H xs k L) i s' m' code \<and> pr_final (stream_write_protocol ops R H xs k L) code \<and>
      pr_handle (stream_write_protocol ops R H xs k L) i s' = pr_handle (stream_write_protocol ops R H xs k L) i s"
    using a w n(1) cr buffer_holds_keep [OF _ w(4)] legal_code_mono [OF w(1) n(1)]
    by (auto simp: stream_write_op_def stream_write_protocol_def)
next
  fix i s and m m' :: "'h machine"
  assume "pr_running (stream_write_protocol ops R H xs k L) i s m"
    and "pr_quiet (stream_write_protocol ops R H xs k L) m m'"
  then show "pr_running (stream_write_protocol ops R H xs k L) i s m'"
    by (rule stream_write_stable)
qed (simp_all add: stream_write_op_def stream_write_protocol_def)

end
