(* ===== verification/Rt_Task.thy ===== *)
theory Rt_Task
  imports Rt_Stream
begin

text \<open>
  \<open>TaskState\<close> of \<open>async_support.rs\<close>: the event loop of a component-model task, with the inter-task
  stream of \<open>inter_task_wakeup.rs\<close>, the executor of \<open>spawn_disabled.rs\<close> and the entry points
  \<open>start_task\<close>, \<open>callback\<close> and \<open>block_on\<close>. User futures are parameters: what polling one does is given.
\<close>

section \<open>Executors\<close>

text \<open>The interface of \<open>spawn::Tasks\<close>; \<open>True\<close> is \<open>Poll::Ready(())\<close>.\<close>

record ('u, 'h) executor =
  ex_poll_next :: "waker \<Rightarrow> 'u \<times> 'h rt_world \<Rightarrow> (bool \<times> 'u \<times> 'h rt_world) res"
  ex_is_empty :: "'u \<Rightarrow> bool"
  ex_drop_all :: "'u \<times> 'h rt_world \<Rightarrow> ('u \<times> 'h rt_world) res"

text \<open>What a future does when it is polled and when it is dropped.\<close>

record ('f, 'h) user_future =
  uf_poll :: "waker \<Rightarrow> 'f \<times> 'h rt_world \<Rightarrow> (bool \<times> 'f \<times> 'h rt_world) res"
  uf_drop :: "'f \<Rightarrow> 'h rt_world step"

definition tasks_is_empty :: "'f option \<Rightarrow> bool" where
  "tasks_is_empty u = (u = None)"

definition tasks_poll_next ::
    "('f, 'h) user_future \<Rightarrow> waker \<Rightarrow> 'f option \<times> 'h rt_world \<Rightarrow> (bool \<times> 'f option \<times> 'h rt_world) res" where
  "tasks_poll_next F k = (\<lambda>(u, w).
     and_then
       (case u of
          None \<Rightarrow> Inr (u, w)
        | Some f \<Rightarrow>
            and_then (uf_poll F k (f, w)) (\<lambda>(ready, f, w).
              if ready then and_then (uf_drop F f w) (\<lambda>w. Inr (None, w)) else Inr (Some f, w)))
       (\<lambda>(u, w). Inr (tasks_is_empty u, u, w)))"

definition tasks_executor :: "('f, 'h) user_future \<Rightarrow> ('f option, 'h) executor" where
  "tasks_executor F =
     \<lparr>ex_poll_next = tasks_poll_next F, ex_is_empty = tasks_is_empty,
      ex_drop_all = (\<lambda>(u, w). case u of None \<Rightarrow> Inr (None, w)
        | Some f \<Rightarrow> and_then (uf_drop F f w) (\<lambda>w. Inr (None, w)))\<rparr>"

section \<open>The task\<close>

text \<open>The shared half is the task \<open>ts_shared\<close> of the world.\<close>

record 'u task_state =
  ts_tasks :: 'u
  ts_shared :: nat
  ts_stream :: "stream_reader option"
  ts_reading :: bool

definition shared_new :: shared where
  "shared_new = \<lparr>sh_sleep = 0, sh_writer = None, sh_waitables = Map.empty, sh_set = None, sh_refs = 2\<rparr>"

definition task_state_new :: "'u \<Rightarrow> nat \<Rightarrow> 'h rt_world \<Rightarrow> 'u task_state \<times> 'h rt_world" where
  "task_state_new u t w =
     (\<lparr>ts_tasks = u, ts_shared = t, ts_stream = None, ts_reading = False\<rparr>, set_task t shared_new w)"

definition remaining_work :: "nat \<Rightarrow> 'h rt_world \<Rightarrow> bool" where
  "remaining_work t w \<longleftrightarrow> sh_waitables (w_tasks w t) \<noteq> Map.empty"

definition store_sleep :: "nat \<Rightarrow> u32 \<Rightarrow> 'h rt_world \<Rightarrow> 'h rt_world" where
  "store_sleep t v w = set_task t ((w_tasks w t)\<lparr>sh_sleep := v\<rparr>) w"

section \<open>The inter-task stream\<close>

text \<open>Make the stream if there is none yet.\<close>

definition ensure_inter_task_stream ::
    "'h rt_env \<Rightarrow> 'u task_state \<times> 'h rt_world \<Rightarrow> ('u task_state \<times> 'h rt_world) res" where
  "ensure_inter_task_stream E = (\<lambda>(ts, w).
     case ts_stream ts of
       Some _ \<Rightarrow> Inr (ts, w)
     | None \<Rightarrow>
         if ts_reading ts then Inl Assert_Failed
         else
           let ((writer, reader), m) = stream_new (unit_stream_ops (re_unit E)) (w_mach w);
               s = w_tasks w (ts_shared ts) in
           if sh_writer s \<noteq> None then Inl Assert_Failed
           else Inr (ts\<lparr>ts_stream := Some reader\<rparr>,
             set_task (ts_shared ts) (s\<lparr>sh_writer := Some (sw_handle writer)\<rparr>) (w\<lparr>w_mach := m\<rparr>)))"

text \<open>The two versions of \<open>read_inter_task_stream\<close>, with the feature and without it.\<close>

definition read_inter_task_stream ::
    "'h rt_env \<Rightarrow> 'u task_state \<times> 'h rt_world \<Rightarrow> ('u task_state \<times> 'h rt_world) res" where
  "read_inter_task_stream E s =
     and_then (ensure_inter_task_stream E s) (\<lambda>(ts, w).
       if ts_reading ts then Inr (ts, w)
       else
         and_then (unwrap (ts_stream ts)) (\<lambda>rd.
           and_then (unwrap (opt_handle (sr_handle rd))) (\<lambda>h.
             let (rc, r) = ui_read (re_unit E) h 0 1 (m_raw (w_mach w)) in
             if rc \<noteq> BLOCKED then Inl Assert_Failed
             else
               and_then (add_waitable E (ts_shared ts) h (on_mach (logged [Read_Call h 0 1 rc] r) w)) (\<lambda>w.
                 Inr (ts\<lparr>ts_reading := True\<rparr>, w)))))"

definition read_inter_task_stream_disabled ::
    "'u task_state \<times> 'h rt_world \<Rightarrow> ('u task_state \<times> 'h rt_world) res" where
  "read_inter_task_stream_disabled = (\<lambda>(ts, w).
     if remaining_work (ts_shared ts) w then Inr (ts, w) else Inl Assert_Failed)"

definition cancel_inter_task_stream_read ::
    "'h rt_env \<Rightarrow> 'u task_state \<times> 'h rt_world \<Rightarrow> ('u task_state \<times> 'h rt_world) res" where
  "cancel_inter_task_stream_read E = (\<lambda>(ts, w).
     if \<not> ts_reading ts then Inr (ts, w)
     else
       let ts = ts\<lparr>ts_reading := False\<rparr> in
       and_then (unwrap (ts_stream ts)) (\<lambda>rd.
         and_then (unwrap (opt_handle (sr_handle rd))) (\<lambda>h.
           let m = remove_waitable_from_all_sets E h (w_mach w);
               (code, r) = ui_cancel_read (re_unit E) h (m_raw m) in
           Inr (ts, w\<lparr>w_mach := logged [Cancel_Read h code] r m\<rparr>))))"

definition cancel_inter_task_stream_read_disabled ::
    "'u task_state \<times> 'h rt_world \<Rightarrow> ('u task_state \<times> 'h rt_world) res" where
  "cancel_inter_task_stream_read_disabled s = Inr s"

definition consume_waitable_event :: "u32 \<Rightarrow> 'u task_state \<Rightarrow> (bool \<times> 'u task_state) res" where
  "consume_waitable_event waitable ts =
     (case ts_stream ts of
        None \<Rightarrow> Inr (False, ts)
      | Some rd \<Rightarrow>
          and_then (unwrap (opt_handle (sr_handle rd))) (\<lambda>h.
            if h = waitable then Inr (True, ts\<lparr>ts_reading := False\<rparr>) else Inr (False, ts)))"

definition consume_waitable_event_disabled :: "u32 \<Rightarrow> 'u task_state \<Rightarrow> (bool \<times> 'u task_state) res" where
  "consume_waitable_event_disabled waitable ts = Inr (False, ts)"

section \<open>The event loop\<close>

definition deliver_waitable_event ::
    "'h rt_env \<Rightarrow> (nat \<Rightarrow> 'h rt_world step) \<Rightarrow> u32 \<Rightarrow> u32 \<Rightarrow> 'u task_state \<times> 'h rt_world
      \<Rightarrow> ('u task_state \<times> 'h rt_world) res" where
  "deliver_waitable_event E other waitable code = (\<lambda>(ts, w).
     and_then (if re_inter_task E then consume_waitable_event waitable ts
               else consume_waitable_event_disabled waitable ts) (\<lambda>(consumed, ts).
       if consumed then Inr (ts, on_mach (remove_waitable_from_all_sets E waitable) w)
       else and_then (deliver E other (ts_shared ts) waitable code w) (\<lambda>w. Inr (ts, w))))"

text \<open>The end of a turn on which no task is left: wait for the waitables that remain, if any.\<close>

definition finish_turn :: "'u task_state \<times> 'h rt_world \<Rightarrow> (callback_code \<times> 'u task_state \<times> 'h rt_world) res" where
  "finish_turn = (\<lambda>(ts, w).
     if remaining_work (ts_shared ts) w
     then and_then (unwrap (sh_set (w_tasks w (ts_shared ts)))) (\<lambda>s. Inr (Wait s, ts, w))
     else Inr (Exit, ts, w))"

text \<open>The end of a turn on which the task has to sleep.\<close>

definition sleep_turn ::
    "'h rt_env \<Rightarrow> 'u task_state \<times> 'h rt_world \<Rightarrow> (callback_code \<times> 'u task_state \<times> 'h rt_world) res" where
  "sleep_turn E = (\<lambda>(ts, w).
     let w = store_sleep (ts_shared ts) SLEEP_STATE_SLEEPING w in
     and_then (if re_inter_task E then read_inter_task_stream E (ts, w)
               else read_inter_task_stream_disabled (ts, w)) (\<lambda>(ts, w).
       and_then (unwrap (sh_set (w_tasks w (ts_shared ts)))) (\<lambda>s. Inr (Wait s, ts, w))))"

text \<open>What a poll of the set finds while the task is awake: nothing, or an event to deliver.\<close>

definition poll_own_set ::
    "'h rt_env \<Rightarrow> nat \<Rightarrow> 'h rt_world \<Rightarrow> ((u32 \<times> u32 \<times> u32) \<times> 'h rt_world) res" where
  "poll_own_set E t w =
     (if remaining_work t w then
        and_then (unwrap (sh_set (w_tasks w t))) (\<lambda>s.
          let (e, m) = set_poll E s (w_mach w) in Inr (e, w\<lparr>w_mach := m\<rparr>))
      else Inr ((EVENT_NONE, 0, 0), w))"

text \<open>The loop of \<open>TaskState::callback\<close>; a turn runs again only when it has delivered an event.\<close>

fun poll_loop ::
    "nat \<Rightarrow> 'h rt_env \<Rightarrow> (nat \<Rightarrow> 'h rt_world step) \<Rightarrow> ('u, 'h) executor \<Rightarrow> 'u task_state \<times> 'h rt_world
      \<Rightarrow> (callback_code \<times> 'u task_state \<times> 'h rt_world) res" where
  "poll_loop 0 E other X s = Inl Out_Of_Fuel"
| "poll_loop (Suc n) E other X (ts, w) =
     (let t = ts_shared ts; w = store_sleep t SLEEP_STATE_POLLING w in
      and_then (ex_poll_next X (Task_Waker t) (ts_tasks ts, w)) (\<lambda>(ready, u, w).
        let ts = ts\<lparr>ts_tasks := u\<rparr> in
        if ready then
          (if ex_is_empty X u then finish_turn (ts, w) else Inl Assert_Failed)
        else if ex_is_empty X u then Inl Assert_Failed
        else if sh_sleep (w_tasks w t) = SLEEP_STATE_WOKEN then
          and_then (poll_own_set E t w) (\<lambda>((event0, event1, event2), w).
            if event0 \<noteq> EVENT_NONE then
              and_then (deliver_waitable_event E other event1 event2 (ts, w)) (poll_loop n E other X)
            else Inr (Yield, ts, w))
        else sleep_turn E (ts, w)))"

definition known_events :: "u32 list" where
  "known_events = [EVENT_NONE, EVENT_SUBTASK, EVENT_STREAM_READ, EVENT_STREAM_WRITE, EVENT_FUTURE_READ,
     EVENT_FUTURE_WRITE]"

text \<open>The task is the current one while it runs; the previous one is put back.\<close>

definition with_p3_task_set ::
    "('u task_state \<times> 'h rt_world \<Rightarrow> ('x \<times> 'u task_state \<times> 'h rt_world) res) \<Rightarrow> 'u task_state \<times> 'h rt_world
      \<Rightarrow> ('x \<times> 'u task_state \<times> 'h rt_world) res" where
  "with_p3_task_set f = (\<lambda>(ts, w).
     and_then (f (ts, w\<lparr>w_current := Some (ts_shared ts, 2)\<rparr>)) (\<lambda>(x, ts, w').
       Inr (x, ts, w'\<lparr>w_current := w_current w\<rparr>)))"

definition task_callback ::
    "nat \<Rightarrow> 'h rt_env \<Rightarrow> (nat \<Rightarrow> 'h rt_world step) \<Rightarrow> ('u, 'h) executor \<Rightarrow> u32 \<times> u32 \<times> u32
      \<Rightarrow> 'u task_state \<times> 'h rt_world \<Rightarrow> (callback_code \<times> 'u task_state \<times> 'h rt_world) res" where
  "task_callback n E other X = (\<lambda>(event0, event1, event2) s.
     if event0 = EVENT_CANCEL then Inr (Exit, s)
     else if event0 \<notin> set known_events then Inl Unreachable_Code
     else with_p3_task_set (\<lambda>(ts, w).
       let w = store_sleep (ts_shared ts) SLEEP_STATE_WOKEN w in
       and_then
         (if event0 \<noteq> EVENT_NONE then deliver_waitable_event E other event1 event2 (ts, w) else Inr (ts, w))
         (\<lambda>s. and_then (if re_inter_task E then cancel_inter_task_stream_read E s
                        else cancel_inter_task_stream_read_disabled s)
           (poll_loop n E other X))) s)"

text \<open>
  Dropping a task: the read, the futures, then the fields in order: two references to the shared half
  and the reader of the inter-task stream.
\<close>

definition task_state_drop ::
    "'h rt_env \<Rightarrow> ('u, 'h) executor \<Rightarrow> 'u task_state \<times> 'h rt_world \<Rightarrow> 'h rt_world res" where
  "task_state_drop E X s =
     and_then (if re_inter_task E then cancel_inter_task_stream_read E s
               else cancel_inter_task_stream_read_disabled s) (\<lambda>(ts, w).
       and_then
         (if ex_is_empty X (ts_tasks ts) then Inr ((), ts, w)
          else with_p3_task_set (\<lambda>(ts, w).
            and_then (ex_drop_all X (ts_tasks ts, w)) (\<lambda>(u, w). Inr ((), ts\<lparr>ts_tasks := u\<rparr>, w))) (ts, w))
         (\<lambda>(_, ts, w).
           let w = cabi_drop E (ts_shared ts) (cabi_drop E (ts_shared ts) w) in
           Inr (case ts_stream ts of
             None \<Rightarrow> w
           | Some rd \<Rightarrow> on_mach (reader_drop (unit_stream_ops (re_unit E)) rd) w)))"

section \<open>Entry points\<close>

text \<open>The slot of \<open>context.get\<close> and \<open>context.set\<close>: null, or the task of the export that runs.\<close>

type_synonym ('u, 'h) export_run = "'u task_state option \<times> 'h rt_world"

definition callback ::
    "nat \<Rightarrow> 'h rt_env \<Rightarrow> (nat \<Rightarrow> 'h rt_world step) \<Rightarrow> ('u, 'h) executor \<Rightarrow> u32 \<times> u32 \<times> u32
      \<Rightarrow> ('u, 'h) export_run \<Rightarrow> (u32 \<times> ('u, 'h) export_run) res" where
  "callback n E other X event = (\<lambda>(slot, w).
     case slot of
       None \<Rightarrow> Inl Assert_Failed
     | Some ts \<Rightarrow>
         and_then (task_callback n E other X event (ts, w)) (\<lambda>(rc, ts, w).
           if rc = Exit
           then and_then (task_state_drop E X (ts, w)) (\<lambda>w. Inr (encode_callback rc, None, w))
           else Inr (encode_callback rc, Some ts, w)))"

definition start_task ::
    "nat \<Rightarrow> 'h rt_env \<Rightarrow> (nat \<Rightarrow> 'h rt_world step) \<Rightarrow> ('u, 'h) executor \<Rightarrow> 'u \<Rightarrow> nat
      \<Rightarrow> ('u, 'h) export_run \<Rightarrow> (u32 \<times> ('u, 'h) export_run) res" where
  "start_task n E other X u t = (\<lambda>(slot, w).
     let (ts, w) = task_state_new u t w in
     if slot \<noteq> None then Inl Assert_Failed
     else callback n E other X (EVENT_NONE, 0, 0) (Some ts, w))"

text \<open>The loop of \<open>block_on\<close>; the result is what the future has left behind in its own state.\<close>

fun block_on_loop ::
    "nat \<Rightarrow> nat \<Rightarrow> 'h rt_env \<Rightarrow> (nat \<Rightarrow> 'h rt_world step) \<Rightarrow> ('u, 'h) executor \<Rightarrow> u32 \<times> u32 \<times> u32
      \<Rightarrow> 'u task_state \<times> 'h rt_world \<Rightarrow> 'h rt_world res" where
  "block_on_loop 0 k E other X event s = Inl Out_Of_Fuel"
| "block_on_loop (Suc n) k E other X event s =
     and_then (task_callback k E other X event s) (\<lambda>(rc, ts, w).
       let set = sh_set (w_tasks w (ts_shared ts)) in
       case rc of
         Exit \<Rightarrow> task_state_drop E X (ts, w)
       | Yield \<Rightarrow>
           and_then (unwrap set) (\<lambda>st.
             let (event, m) = set_poll E st (w_mach w) in
             block_on_loop n k E other X event (ts, w\<lparr>w_mach := m\<rparr>))
       | Wait _ \<Rightarrow>
           and_then (unwrap set) (\<lambda>st.
             let (event, m) = set_wait E st (w_mach w) in
             block_on_loop n k E other X event (ts, w\<lparr>w_mach := m\<rparr>)))"

definition block_on ::
    "nat \<Rightarrow> nat \<Rightarrow> 'h rt_env \<Rightarrow> (nat \<Rightarrow> 'h rt_world step) \<Rightarrow> ('u, 'h) executor \<Rightarrow> 'u \<Rightarrow> nat \<Rightarrow> 'h rt_world \<Rightarrow> 'h rt_world res" where
  "block_on n k E other X u t w = block_on_loop n k E other X (EVENT_NONE, 0, 0) (task_state_new u t w)"

section \<open>yield_async\<close>

text \<open>The future \<open>Yield\<close>: it wakes its own task once, and is ready the second time.\<close>

definition yield_poll ::
    "'h rt_env \<Rightarrow> (nat \<Rightarrow> 'h rt_world step) \<Rightarrow> waker \<Rightarrow> bool \<times> 'h rt_world \<Rightarrow> (bool \<times> bool \<times> 'h rt_world) res" where
  "yield_poll E other k = (\<lambda>(yielded, w).
     if yielded then Inr (True, yielded, w)
     else and_then (wake E other k w) (\<lambda>w. Inr (False, True, w)))"

definition yield_future :: "'h rt_env \<Rightarrow> (nat \<Rightarrow> 'h rt_world step) \<Rightarrow> (bool, 'h) user_future" where
  "yield_future E other = \<lparr>uf_poll = yield_poll E other, uf_drop = (\<lambda>f. Inr)\<rparr>"

section \<open>What a turn ends with\<close>

text \<open>
  A task exits only when nothing is left; it yields only when it was woken; it waits on its own set, and
  if futures are left it sleeps, so that the next wake-up is signalled.
\<close>

definition turn_ends ::
    "'h rt_env \<Rightarrow> ('u, 'h) executor \<Rightarrow> callback_code \<Rightarrow> 'u task_state \<Rightarrow> 'h rt_world \<Rightarrow> bool" where
  "turn_ends E X rc ts w \<longleftrightarrow>
     (case rc of
        Exit \<Rightarrow> ex_is_empty X (ts_tasks ts) \<and> \<not> remaining_work (ts_shared ts) w
      | Yield \<Rightarrow> \<not> ex_is_empty X (ts_tasks ts) \<and> sh_sleep (w_tasks w (ts_shared ts)) = SLEEP_STATE_WOKEN
      | Wait s \<Rightarrow> sh_set (w_tasks w (ts_shared ts)) = Some s \<and>
          (if ex_is_empty X (ts_tasks ts) then remaining_work (ts_shared ts) w
           else sh_sleep (w_tasks w (ts_shared ts)) = SLEEP_STATE_SLEEPING \<and>
             (if re_inter_task E then ts_reading ts else remaining_work (ts_shared ts) w)))"

lemma sleep_distinct [simp]:
  "SLEEP_STATE_POLLING \<noteq> SLEEP_STATE_WOKEN" "SLEEP_STATE_SLEEPING \<noteq> SLEEP_STATE_WOKEN"
  "SLEEP_STATE_SLEEPING \<noteq> SLEEP_STATE_POLLING" "SLEEP_STATE_WOKEN \<noteq> SLEEP_STATE_POLLING"
  "SLEEP_STATE_WOKEN \<noteq> SLEEP_STATE_SLEEPING"
  by (simp_all add: sleep_defs)

lemma store_sleep_simps [simp]:
  "sh_sleep (w_tasks (store_sleep t v w) t) = v" "w_current (store_sleep t v w) = w_current w"
  "w_mach (store_sleep t v w) = w_mach w" "sh_set (w_tasks (store_sleep t v w) u) = sh_set (w_tasks w u)"
  "sh_waitables (w_tasks (store_sleep t v w) u) = sh_waitables (w_tasks w u)"
  "sh_writer (w_tasks (store_sleep t v w) u) = sh_writer (w_tasks w u)"
  "w_cells (store_sleep t v w) = w_cells w"
  by (simp_all add: store_sleep_def)

lemma remaining_store_sleep [simp]: "remaining_work t (store_sleep u v w) = remaining_work t w"
  by (simp add: remaining_work_def)

lemma add_waitable_sleep:
  "add_waitable E t h w = Inr w' \<Longrightarrow> sh_sleep (w_tasks w' u) = sh_sleep (w_tasks w u)"
  by (auto simp: add_waitable_def res_simps split: option.splits)

lemma ensure_stream_effect:
  "ensure_inter_task_stream E (ts, w) = Inr (ts', w') \<Longrightarrow>
    ts_tasks ts' = ts_tasks ts \<and> ts_shared ts' = ts_shared ts \<and> ts_reading ts' = ts_reading ts \<and>
    sh_sleep (w_tasks w' (ts_shared ts)) = sh_sleep (w_tasks w (ts_shared ts))"
  by (auto simp: ensure_inter_task_stream_def Let_def split: option.splits if_splits prod.splits)

lemma read_stream_effect:
  assumes "read_inter_task_stream E (ts, w) = Inr (ts', w')"
  shows "ts_tasks ts' = ts_tasks ts \<and> ts_shared ts' = ts_shared ts \<and> ts_reading ts' \<and>
    sh_sleep (w_tasks w' (ts_shared ts)) = sh_sleep (w_tasks w (ts_shared ts))"
proof -
  obtain t1 w1 where e: "ensure_inter_task_stream E (ts, w) = Inr (t1, w1)"
    using assms by (auto simp: read_inter_task_stream_def res_simps)
  note e' = ensure_stream_effect [OF e]
  show ?thesis
  proof (cases "ts_reading t1")
    case True
    then show ?thesis using assms e' by (simp add: read_inter_task_stream_def e)
  next
    case False
    then obtain rd h where h: "ts_stream t1 = Some rd" "opt_handle (sr_handle rd) = Some h"
      using assms by (auto simp: read_inter_task_stream_def e res_simps)
    obtain rc r where r: "ui_read (re_unit E) h 0 1 (m_raw (w_mach w1)) = (rc, r)"
      by (cases "ui_read (re_unit E) h 0 1 (m_raw (w_mach w1))")
    have "and_then (add_waitable E (ts_shared t1) h (on_mach (logged [Read_Call h 0 1 rc] r) w1)) (\<lambda>w.
        Inr (t1\<lparr>ts_reading := True\<rparr>, w)) = Inr (ts', w')"
      using assms False h r by (simp add: read_inter_task_stream_def e split: if_splits)
    then have "add_waitable E (ts_shared t1) h (on_mach (logged [Read_Call h 0 1 rc] r) w1) = Inr w'"
      and "ts' = t1\<lparr>ts_reading := True\<rparr>"
      by (auto simp: res_simps)
    then show ?thesis using e' add_waitable_sleep [of E "ts_shared t1" h _ w'] by simp
  qed
qed

lemma sleep_turn_ends:
  assumes "sleep_turn E (ts, w) = Inr (rc, ts', w')" "\<not> ex_is_empty X (ts_tasks ts)"
  shows "turn_ends E X rc ts' w'"
proof (cases "re_inter_task E")
  case True
  then show ?thesis
    using assms by (auto simp: sleep_turn_def Let_def res_simps turn_ends_def dest!: read_stream_effect)
next
  case False
  then show ?thesis
    using assms by (auto simp: sleep_turn_def Let_def res_simps turn_ends_def read_inter_task_stream_disabled_def
        split: if_splits)
qed

lemma finish_turn_ends:
  "finish_turn (ts, w) = Inr (rc, ts', w') \<Longrightarrow> ex_is_empty X (ts_tasks ts) \<Longrightarrow> turn_ends E X rc ts' w'"
  by (auto simp: finish_turn_def turn_ends_def res_simps split: if_splits)

lemma poll_own_set_sleep:
  "poll_own_set E t w = Inr (e, w') \<Longrightarrow> sh_sleep (w_tasks w' u) = sh_sleep (w_tasks w u)"
  by (cases "sh_set (w_tasks w t)"; cases "set_poll E (the (sh_set (w_tasks w t))) (w_mach w)")
    (auto simp: poll_own_set_def split: if_splits)

lemma poll_loop_ends:
  "poll_loop n E other X (ts, w) = Inr (rc, ts', w') \<Longrightarrow> turn_ends E X rc ts' w'"
proof (induction n E other X "(ts, w)" arbitrary: ts w rule: poll_loop.induct)
  case 1
  then show ?case by simp
next
  case (2 n E other X ts w)
  let ?t = "ts_shared ts"
  obtain ready u w1 where p: "ex_poll_next X (Task_Waker ?t) (ts_tasks ts, store_sleep ?t SLEEP_STATE_POLLING w) =
      Inr (ready, u, w1)"
    using 2 by (auto simp: Let_def res_simps)
  let ?ts = "ts\<lparr>ts_tasks := u\<rparr>"
  note q = 2(2) [unfolded poll_loop.simps Let_def p and_then_Inr prod.case, simplified]
  show ?case
  proof (cases "ready \<or> ex_is_empty X u \<or> sh_sleep (w_tasks w1 ?t) \<noteq> SLEEP_STATE_WOKEN")
    case True
    then show ?thesis
      using q finish_turn_ends [of ?ts w1 rc ts' w' X E] sleep_turn_ends [of E ?ts w1 rc ts' w' X]
      by (auto split: if_splits)
  next
    case False
    then obtain e0 e1 e2 w2 where o: "poll_own_set E ?t w1 = Inr ((e0, e1, e2), w2)"
      using q by (auto simp: res_simps)
    show ?thesis
    proof (cases "e0 = EVENT_NONE")
      case True
      then show ?thesis
        using q False o poll_own_set_sleep [OF o, of ?t] by (auto simp: turn_ends_def)
    next
      case ne: False
      then obtain ts2 w3 where d: "deliver_waitable_event E other e1 e2 (?ts, w2) = Inr (ts2, w3)"
        using q False o by (auto simp: res_simps)
      have "poll_loop n E other X (ts2, w3) = Inr (rc, ts', w')" using q False o d ne by simp
      then show ?thesis
        using 2(1) [OF refl refl refl, of ready u w1 e0 ts2 w3] False ne by simp
    qed
  qed
qed

lemma turn_ends_current [simp]:
  "turn_ends E X rc ts (w\<lparr>w_current := c\<rparr>) = turn_ends E X rc ts w"
  by (cases rc) (simp_all add: turn_ends_def remaining_work_def)

lemma task_callback_ends:
  assumes "task_callback n E other X (e0, e1, e2) (ts, w) = Inr (rc, ts', w')" "e0 \<noteq> EVENT_CANCEL"
  shows "turn_ends E X rc ts' w'" "w_current w' = w_current w"
proof -
  obtain w1 s where l: "poll_loop n E other X s = Inr (rc, ts', w1)" "w' = w1\<lparr>w_current := w_current w\<rparr>"
    using assms by (auto simp: task_callback_def with_p3_task_set_def Let_def res_simps split: if_splits)
  have "turn_ends E X rc ts' w1" using l(1) by (cases s) (auto dest: poll_loop_ends)
  then show "turn_ends E X rc ts' w'" "w_current w' = w_current w"
    unfolding l(2) by simp_all
qed

lemma encode_zero: "encode_callback rc = 0 \<longleftrightarrow> rc = Exit"
proof (cases rc)
  case (Wait s)
  have "bit (2 OR push_bit 4 s :: u32) 1" by (simp add: bit_simps)
  then have "2 OR push_bit 4 s \<noteq> (0 :: u32)" by (metis bit_0_eq bot_apply bot_bool_def)
  then show ?thesis by (simp add: encode_callback_def Wait)
qed (simp_all add: encode_callback_def)

section \<open>The loop ends\<close>

text \<open>
  \<open>nu\<close> bounds the events that the host has yet to deliver: taking one lowers it, and neither the
  runtime's own calls nor the futures raise it. Then \<open>nu + 1\<close> turns are enough.
\<close>

definition bounded_events ::
    "'h rt_env \<Rightarrow> (nat \<Rightarrow> 'h rt_world step) \<Rightarrow> ('u, 'h) executor \<Rightarrow> ('h raw \<Rightarrow> nat) \<Rightarrow> bool" where
  "bounded_events E other X nu \<longleftrightarrow>
     (\<forall>s r e r'. re_poll E s r = (e, r') \<longrightarrow> nu r' \<le> nu r \<and> (fst e \<noteq> EVENT_NONE \<longrightarrow> nu r' < nu r)) \<and>
     (\<forall>h s r. nu (re_join E h s r) \<le> nu r) \<and>
     (\<forall>h r c r'. ui_write (re_unit E) h 0 1 r = (c, r') \<longrightarrow> nu r' \<le> nu r) \<and>
     (\<forall>i w. other i w \<noteq> Inl Out_Of_Fuel \<and>
        (\<forall>w'. other i w = Inr w' \<longrightarrow> nu (m_raw (w_mach w')) \<le> nu (m_raw (w_mach w)))) \<and>
     (\<forall>k u w. ex_poll_next X k (u, w) \<noteq> Inl Out_Of_Fuel \<and>
        (\<forall>r u' w'. ex_poll_next X k (u, w) = Inr (r, u', w') \<longrightarrow>
           nu (m_raw (w_mach w')) \<le> nu (m_raw (w_mach w))))"

lemma bounded_eventsD:
  assumes "bounded_events E other X nu"
  shows "re_poll E s r = (e, r') \<Longrightarrow> nu r' \<le> nu r \<and> (fst e \<noteq> EVENT_NONE \<longrightarrow> nu r' < nu r)"
    and "nu (re_join E h s r) \<le> nu r"
    and "ui_write (re_unit E) h 0 1 r = (c, r') \<Longrightarrow> nu r' \<le> nu r"
    and "other i w \<noteq> Inl Out_Of_Fuel"
    and "other i w = Inr w' \<Longrightarrow> nu (m_raw (w_mach w')) \<le> nu (m_raw (w_mach w))"
    and "ex_poll_next X k (u, w) \<noteq> Inl Out_Of_Fuel"
    and "ex_poll_next X k (u, w) = Inr (ready, u', w') \<Longrightarrow> nu (m_raw (w_mach w')) \<le> nu (m_raw (w_mach w))"
  using assms unfolding bounded_events_def by blast+

lemma and_then_fuel:
  "m \<noteq> Inl Out_Of_Fuel \<Longrightarrow> (\<And>x. m = Inr x \<Longrightarrow> f x \<noteq> Inl Out_Of_Fuel) \<Longrightarrow> and_then m f \<noteq> Inl Out_Of_Fuel"
  by (cases m) simp_all

lemma unwrap_fuel [simp]: "unwrap x \<noteq> Inl Out_Of_Fuel"
  by (cases x) simp_all

lemma waker_state_wake_bounded:
  assumes b: "bounded_events E other X nu"
  shows "waker_state_wake E wr m \<noteq> Inl Out_Of_Fuel"
    and "waker_state_wake E wr m = Inr m' \<Longrightarrow> nu (m_raw m') \<le> nu (m_raw m)"
proof -
  show "waker_state_wake E wr m \<noteq> Inl Out_Of_Fuel"
    by (simp add: waker_state_wake_def and_then_fuel split: prod.split)
  show "nu (m_raw m') \<le> nu (m_raw m)" if w: "waker_state_wake E wr m = Inr m'"
  proof -
    obtain h where h: "wr = Some h" using w by (cases wr) (simp_all add: waker_state_wake_def)
    obtain rc r where r: "ui_write (re_unit E) h 0 1 (m_raw m) = (rc, r)"
      by (cases "ui_write (re_unit E) h 0 1 (m_raw m)")
    show ?thesis
      using w bounded_eventsD(3) [OF b r] r by (auto simp: waker_state_wake_def h split: if_splits)
  qed
qed

lemma wake_bounded:
  assumes b: "bounded_events E other X nu"
  shows "wake E other k w \<noteq> Inl Out_Of_Fuel"
    and "wake E other k w = Inr w' \<Longrightarrow> nu (m_raw (w_mach w')) \<le> nu (m_raw (w_mach w))"
proof -
  have "wake_task E t w \<noteq> Inl Out_Of_Fuel" for t
    using waker_state_wake_bounded(1) [OF b]
    by (auto simp: wake_task_def Let_def waker_state_wake_disabled_def res_simps)
  then show "wake E other k w \<noteq> Inl Out_Of_Fuel"
    using bounded_eventsD(4) [OF b] by (cases k) (simp_all add: wake_def)
  have "nu (m_raw (w_mach w')) \<le> nu (m_raw (w_mach w))" if "wake_task E t w = Inr w'" for t
    using that waker_state_wake_bounded(2) [OF b]
    by (auto simp: wake_task_def Let_def waker_state_wake_disabled_def res_simps split: if_splits)
  then show "nu (m_raw (w_mach w')) \<le> nu (m_raw (w_mach w))" if "wake E other k w = Inr w'"
    using that bounded_eventsD(5) [OF b] by (cases k) (auto simp: wake_def)
qed

lemma deliver_event_bounded:
  assumes b: "bounded_events E other X nu"
  shows "deliver_waitable_event E other h code (ts, w) \<noteq> Inl Out_Of_Fuel"
    and "deliver_waitable_event E other h code (ts, w) = Inr (ts', w') \<Longrightarrow>
      nu (m_raw (w_mach w')) \<le> nu (m_raw (w_mach w))"
proof -
  have d: "deliver E other t h code w \<noteq> Inl Out_Of_Fuel" for t
    using wake_bounded(1) [OF b] by (auto simp: deliver_def Let_def cabi_wake_def res_simps unwrap_def split: option.splits)
  have j: "nu (m_raw (remove_waitable_from_all_sets E h m)) \<le> nu (m_raw m)" for m
    using bounded_eventsD(2) [OF b] by (simp add: remove_waitable_from_all_sets_def)
  have dd: "nu (m_raw (w_mach w')) \<le> nu (m_raw (w_mach w))" if run: "deliver E other t h code w = Inr w'" for t w'
  proof -
    obtain k w1 where "wake E other k w1 = Inr w'" "w_mach w1 = remove_waitable_from_all_sets E h (w_mach w)"
      using run by (auto simp: deliver_def Let_def cabi_wake_def res_simps)
    from wake_bounded(2) [OF b this(1)] this(2) j [of "w_mach w"] show ?thesis by simp
  qed
  show "deliver_waitable_event E other h code (ts, w) \<noteq> Inl Out_Of_Fuel"
    using d by (auto simp: deliver_waitable_event_def res_simps consume_waitable_event_def
        consume_waitable_event_disabled_def unwrap_def split: option.splits if_splits)
  show "nu (m_raw (w_mach w')) \<le> nu (m_raw (w_mach w))"
    if "deliver_waitable_event E other h code (ts, w) = Inr (ts', w')"
    using that dd j [of "w_mach w"] by (auto simp: deliver_waitable_event_def res_simps split: if_splits)
qed

lemma set_poll_raw: "set_poll E s m = (e, m') \<Longrightarrow> re_poll E s (m_raw m) = (e, m_raw m')"
  by (auto simp: set_poll_def split: prod.splits)

lemma poll_own_set_bounded:
  assumes b: "bounded_events E other X nu"
  shows "poll_own_set E t w \<noteq> Inl Out_Of_Fuel"
    and "poll_own_set E t w = Inr (e, w') \<Longrightarrow> nu (m_raw (w_mach w')) \<le> nu (m_raw (w_mach w)) \<and>
      (fst e \<noteq> EVENT_NONE \<longrightarrow> nu (m_raw (w_mach w')) < nu (m_raw (w_mach w)))"
proof -
  show "poll_own_set E t w \<noteq> Inl Out_Of_Fuel"
    by (auto simp: poll_own_set_def unwrap_def split: option.splits prod.splits)
  show "nu (m_raw (w_mach w')) \<le> nu (m_raw (w_mach w)) \<and>
      (fst e \<noteq> EVENT_NONE \<longrightarrow> nu (m_raw (w_mach w')) < nu (m_raw (w_mach w)))"
    if run: "poll_own_set E t w = Inr (e, w')"
  proof (cases "remaining_work t w")
    case True
    then obtain st where st: "sh_set (w_tasks w t) = Some st"
      using run by (cases "sh_set (w_tasks w t)") (simp_all add: poll_own_set_def)
    obtain e' m where m: "set_poll E st (w_mach w) = (e', m)" by (cases "set_poll E st (w_mach w)")
    show ?thesis using run True st m bounded_eventsD(1) [OF b set_poll_raw [OF m]] by (auto simp: poll_own_set_def)
  next
    case False
    then show ?thesis using run by (auto simp: poll_own_set_def)
  qed
qed

lemma turn_fuel:
  "finish_turn s \<noteq> Inl Out_Of_Fuel" "sleep_turn E s \<noteq> Inl Out_Of_Fuel"
proof -
  show "finish_turn s \<noteq> Inl Out_Of_Fuel" by (cases s) (simp add: finish_turn_def and_then_fuel)
  have a: "add_waitable E t h w \<noteq> Inl Out_Of_Fuel" for t h and w :: "'b rt_world"
    by (auto simp: add_waitable_def set_new_def res_simps split: option.splits prod.splits)
  have e: "ensure_inter_task_stream E q \<noteq> Inl Out_Of_Fuel" for q :: "'a task_state \<times> 'b rt_world"
    by (cases q) (auto simp: ensure_inter_task_stream_def Let_def split: option.splits prod.splits)
  have r: "read_inter_task_stream E q \<noteq> Inl Out_Of_Fuel" for q :: "'a task_state \<times> 'b rt_world"
  proof (cases "ensure_inter_task_stream E q")
    case (Inl x)
    then show ?thesis using e [of q] by (simp add: read_inter_task_stream_def)
  next
    case (Inr z)
    obtain t1 w1 where z: "z = (t1, w1)" by (cases z)
    have "and_then (unwrap (opt_handle (sr_handle rd))) (\<lambda>h.
        let (rc, r) = ui_read (re_unit E) h 0 1 (m_raw (w_mach w1)) in
        if rc \<noteq> BLOCKED then Inl Assert_Failed
        else and_then (add_waitable E (ts_shared t1) h (on_mach (logged [Read_Call h 0 1 rc] r) w1)) (\<lambda>w.
          Inr (t1\<lparr>ts_reading := True\<rparr>, w))) \<noteq> Inl Out_Of_Fuel" for rd :: stream_reader
      by (rule and_then_fuel) (auto simp: a res_simps split: prod.split)
    then show ?thesis
      by (cases "ts_stream t1") (simp_all add: read_inter_task_stream_def Inr z)
  qed
  have d: "read_inter_task_stream_disabled q \<noteq> Inl Out_Of_Fuel" for q :: "'a task_state \<times> 'b rt_world"
    by (cases q) (simp add: read_inter_task_stream_disabled_def)
  show "sleep_turn E s \<noteq> Inl Out_Of_Fuel"
    by (cases s, cases "re_inter_task E")
      (simp_all add: sleep_turn_def and_then_fuel [OF r] and_then_fuel [OF d] and_then_fuel split: prod.split)
qed

lemma poll_loop_returns:
  assumes b: "bounded_events E other X nu"
  shows "nu (m_raw (w_mach w)) < n \<Longrightarrow> poll_loop n E other X (ts, w) \<noteq> Inl Out_Of_Fuel"
proof (induction n arbitrary: ts w)
  case 0
  then show ?case by simp
next
  case (Suc n)
  let ?t = "ts_shared ts"
  let ?p = "ex_poll_next X (Task_Waker ?t) (ts_tasks ts, store_sleep ?t SLEEP_STATE_POLLING w)"
  show ?case
  proof (cases ?p)
    case (Inl e)
    then show ?thesis using bounded_eventsD(6) [OF b, of "Task_Waker ?t" "ts_tasks ts"] by (auto simp: Let_def)
  next
    case (Inr z)
    obtain ready u w1 where z: "z = (ready, u, w1)" by (cases z)
    have le: "nu (m_raw (w_mach w1)) \<le> nu (m_raw (w_mach w))"
      using bounded_eventsD(7) [OF b Inr [unfolded z]] by simp
    have turn: "and_then (deliver_waitable_event E other e1 e2 (ts\<lparr>ts_tasks := u\<rparr>, w2)) (poll_loop n E other X) \<noteq>
        Inl Out_Of_Fuel"
      if o: "poll_own_set E ?t w1 = Inr ((e0, e1, e2), w2)" and ne: "e0 \<noteq> EVENT_NONE" for e0 e1 e2 w2
    proof (rule and_then_fuel [OF deliver_event_bounded(1) [OF b]])
      fix y assume y: "deliver_waitable_event E other e1 e2 (ts\<lparr>ts_tasks := u\<rparr>, w2) = Inr y"
      obtain ts3 w3 where ys: "y = (ts3, w3)" by (cases y)
      have "nu (m_raw (w_mach w2)) < n" using poll_own_set_bounded(2) [OF b o] ne le Suc.prems by simp
      then show "poll_loop n E other X y \<noteq> Inl Out_Of_Fuel"
        using Suc.IH [of w3 ts3] deliver_event_bounded(2) [OF b y [unfolded ys]] by (simp add: ys)
    qed
    have "and_then (poll_own_set E ?t w1) (\<lambda>((event0, event1, event2), w).
        if event0 \<noteq> EVENT_NONE
        then and_then (deliver_waitable_event E other event1 event2 (ts\<lparr>ts_tasks := u\<rparr>, w)) (poll_loop n E other X)
        else Inr (Yield, ts\<lparr>ts_tasks := u\<rparr>, w)) \<noteq> Inl Out_Of_Fuel"
    proof (cases "poll_own_set E ?t w1")
      case (Inl e)
      then show ?thesis using poll_own_set_bounded(1) [OF b, of ?t w1] by simp
    next
      case (Inr x)
      then show ?thesis using turn by (cases x) (auto split: if_split_asm)
    qed
    then show ?thesis
      by (simp add: Let_def Inr z turn_fuel)
  qed
qed

section \<open>The inter-task stream is used as it is meant to be\<close>

text \<open>The stream and the writer that wakes the task come together, and only a stream is read.\<close>

definition inter_task_inv :: "'u task_state \<Rightarrow> 'h rt_world \<Rightarrow> bool" where
  "inter_task_inv ts w \<longleftrightarrow>
     (case ts_stream ts of
        None \<Rightarrow> \<not> ts_reading ts \<and> sh_writer (w_tasks w (ts_shared ts)) = None
      | Some rd \<Rightarrow> sr_handle rd \<noteq> NO_HANDLE \<and> sh_writer (w_tasks w (ts_shared ts)) \<noteq> None)"

text \<open>The host: a set is never null, a new reader has a handle, and nobody else writes to the stream.\<close>

definition inter_task_host :: "'h rt_env \<Rightarrow> bool" where
  "inter_task_host E \<longleftrightarrow>
     (\<forall>r. fst (re_set_new E r) \<noteq> 0) \<and> (\<forall>r. ucast (fst (ui_new (re_unit E) r)) \<noteq> NO_HANDLE) \<and>
     (\<forall>h r. fst (ui_read (re_unit E) h 0 1 r) = BLOCKED)"

lemma inter_task_hostD:
  assumes "inter_task_host E"
  shows "re_set_new E r = (s, r') \<Longrightarrow> s \<noteq> 0" "ui_new (re_unit E) r = (hs, r') \<Longrightarrow> ucast hs \<noteq> NO_HANDLE"
    "ui_read (re_unit E) h 0 1 r = (rc, r') \<Longrightarrow> rc = BLOCKED"
  using assms unfolding inter_task_host_def by (metis fst_conv)+

lemma ensure_stream_ok:
  assumes inv: "inter_task_inv ts w" and host: "inter_task_host E"
  shows "\<exists>ts' w'. ensure_inter_task_stream E (ts, w) = Inr (ts', w') \<and> inter_task_inv ts' w' \<and>
    ts_shared ts' = ts_shared ts \<and> ts_reading ts' = ts_reading ts \<and>
    (\<exists>rd. ts_stream ts' = Some rd \<and> sr_handle rd \<noteq> NO_HANDLE)"
proof (cases "ts_stream ts")
  case (Some rd)
  then show ?thesis using inv by (simp add: ensure_inter_task_stream_def inter_task_inv_def)
next
  case None
  obtain hs r where hs: "ui_new (re_unit E) (m_raw (w_mach w)) = (hs, r)"
    by (cases "ui_new (re_unit E) (m_raw (w_mach w))")
  then show ?thesis
    using None inv inter_task_hostD(2) [OF host hs]
    by (simp add: ensure_inter_task_stream_def inter_task_inv_def stream_new_def unit_stream_ops_def)
qed

lemma add_waitable_ok:
  assumes host: "inter_task_host E"
  shows "\<exists>w'. add_waitable E t h w = Inr w' \<and> sh_set (w_tasks w' t) \<noteq> None \<and>
    (\<forall>u. sh_writer (w_tasks w' u) = sh_writer (w_tasks w u))"
proof (cases "sh_set (w_tasks w t)")
  case (Some s)
  then show ?thesis by (simp add: add_waitable_def)
next
  case None
  obtain s r where s: "re_set_new E (m_raw (w_mach w)) = (s, r)" by (cases "re_set_new E (m_raw (w_mach w))")
  then show ?thesis using None inter_task_hostD(1) [OF host s] by (simp add: add_waitable_def set_new_def)
qed

lemma inter_task_read_ok:
  assumes inv: "inter_task_inv ts w" and host: "inter_task_host E"
  shows "\<exists>ts' w'. read_inter_task_stream E (ts, w) = Inr (ts', w') \<and> inter_task_inv ts' w' \<and> ts_reading ts' \<and>
    ts_shared ts' = ts_shared ts \<and> (\<not> ts_reading ts \<longrightarrow> sh_set (w_tasks w' (ts_shared ts)) \<noteq> None)"
proof -
  obtain t1 w1 rd where e: "ensure_inter_task_stream E (ts, w) = Inr (t1, w1)" "inter_task_inv t1 w1"
    "ts_shared t1 = ts_shared ts" "ts_reading t1 = ts_reading ts" "ts_stream t1 = Some rd" "sr_handle rd \<noteq> NO_HANDLE"
    using ensure_stream_ok [OF inv host] by blast
  show ?thesis
  proof (cases "ts_reading t1")
    case True
    then show ?thesis using e by (simp add: read_inter_task_stream_def)
  next
    case False
    let ?h = "sr_handle rd"
    obtain rc r where rc: "ui_read (re_unit E) ?h 0 1 (m_raw (w_mach w1)) = (rc, r)"
      by (cases "ui_read (re_unit E) ?h 0 1 (m_raw (w_mach w1))")
    have b: "rc = BLOCKED" by (rule inter_task_hostD(3) [OF host rc])
    obtain w2 where w2: "add_waitable E (ts_shared ts) ?h (on_mach (logged [Read_Call ?h 0 1 rc] r) w1) = Inr w2"
      "sh_set (w_tasks w2 (ts_shared ts)) \<noteq> None"
      "sh_writer (w_tasks w2 (ts_shared ts)) = sh_writer (w_tasks w1 (ts_shared ts))"
      using add_waitable_ok [OF host, of "ts_shared ts" ?h] by (metis world_simps(1))
    have "read_inter_task_stream E (ts, w) = Inr (t1\<lparr>ts_reading := True\<rparr>, w2)"
      using False e w2(1) rc b by (simp add: read_inter_task_stream_def)
    then show ?thesis using e w2(2,3) by (simp add: inter_task_inv_def)
  qed
qed

lemma inter_task_cancel_ok:
  assumes inv: "inter_task_inv ts w"
  shows "\<exists>ts' w'. cancel_inter_task_stream_read E (ts, w) = Inr (ts', w') \<and> inter_task_inv ts' w' \<and>
    \<not> ts_reading ts' \<and> (if ts_reading ts
      then \<exists>h code. m_log (w_mach w') = m_log (w_mach w) @ [Join h 0, Cancel_Read h code] else w' = w)"
proof (cases "ts_reading ts")
  case False
  then show ?thesis using inv by (simp add: cancel_inter_task_stream_read_def)
next
  case True
  then obtain rd where rd: "ts_stream ts = Some rd" "sr_handle rd \<noteq> NO_HANDLE"
    using inv by (auto simp: inter_task_inv_def split: option.splits)
  obtain code r where c: "ui_cancel_read (re_unit E) (sr_handle rd)
      (m_raw (remove_waitable_from_all_sets E (sr_handle rd) (w_mach w))) = (code, r)"
    by (cases "ui_cancel_read (re_unit E) (sr_handle rd)
      (m_raw (remove_waitable_from_all_sets E (sr_handle rd) (w_mach w)))")
  then show ?thesis
    using True inv rd
    by (simp add: cancel_inter_task_stream_read_def Let_def inter_task_inv_def)
      (simp add: remove_waitable_from_all_sets_def)
qed

end
