(* ===== verification/Rt_Stream_Read.thy ===== *)
theory Rt_Stream_Read
  imports Rt_Stream
begin

text \<open>
  A stream read of \<open>stream_support.rs\<close> keeps the protocol: the vector it fills keeps its items, gains
  as many as the host reported, and the block the host wrote into is allocated and freed once.
\<close>

section \<open>The protocol of a read\<close>

definition spare :: "'p read_buf \<Rightarrow> nat" where
  "spare b = rb_cap b - length (rb_items b)"

text \<open>Where the host writes: into the spare capacity, or into a block of its own.\<close>

definition read_addr :: "('p, 'h) stream_ops \<Rightarrow> 'p read_buf \<times> cleanup option \<Rightarrow> addr" where
  "read_addr ops = (\<lambda>(b, c).
     if so_native ops then rb_base b + length (rb_items b) * so_payload_size ops else cleanup_ptr c)"

definition read_ready ::
    "'h allocator \<Rightarrow> ('p, 'h) stream_ops \<Rightarrow> ('h raw \<Rightarrow> addr \<Rightarrow> 'p \<Rightarrow> bool)
      \<Rightarrow> ('h raw \<Rightarrow> u32 \<Rightarrow> addr \<Rightarrow> nat \<Rightarrow> bool) \<Rightarrow> stream_reader \<Rightarrow> bool" where
  "read_ready A ops R H s \<longleftrightarrow> never_fails A \<and> ops_ok ops R \<and> read_host ops R H \<and> sr_handle s \<noteq> NO_HANDLE"

text \<open>\<open>b0\<close> is the vector given to the read, and \<open>L\<close> are the memory calls before it.\<close>

definition stream_read_protocol ::
    "'h allocator \<Rightarrow> ('p, 'h) stream_ops \<Rightarrow> ('h raw \<Rightarrow> addr \<Rightarrow> 'p \<Rightarrow> bool)
      \<Rightarrow> ('h raw \<Rightarrow> u32 \<Rightarrow> addr \<Rightarrow> nat \<Rightarrow> bool) \<Rightarrow> 'p read_buf \<Rightarrow> rt_call list
      \<Rightarrow> (stream_reader, 'p read_buf, 'p read_buf \<times> cleanup option, stream_result \<times> 'p read_buf, 'h) protocol" where
  "stream_read_protocol A ops R H b0 L =
     \<lparr>pr_startable = (\<lambda>b s m. b = b0 \<and> read_ready A ops R H s \<and> mem_calls m = L \<and>
        from_size_align (elem_size ops * spare b0) (l_align (so_layout ops)) \<noteq> None),
      pr_running = (\<lambda>(b, c) s m. b = b0 \<and> read_ready A ops R H s \<and> mem_calls m = L @ alloc_calls c \<and>
        (\<not> sr_done s \<longrightarrow> (\<exists>n \<le> spare b0. H (m_raw m) (sr_handle s) (read_addr ops (b, c)) n))),
      pr_parked = (\<lambda>i s. \<not> sr_done s \<and> sr_handle s \<noteq> NO_HANDLE),
      pr_handle = (\<lambda>i s. sr_handle s),
      pr_legal = (\<lambda>i s m code. read_legal ops R (read_addr ops i) (spare b0) (m_raw m) code \<and>
        (sr_done s \<longrightarrow> code \<noteq> BLOCKED)),
      pr_final = (\<lambda>code. code \<noteq> BLOCKED),
      pr_finished = (\<lambda>(x, b) s m.
        (\<exists>c n. mem_calls m = L @ alloc_calls c @
            (if so_native ops then [] else map Lift (slot_addrs (elem_size ops) (cleanup_ptr c) n)) @
            dealloc_calls c \<and>
          (case x of
             Completed_Items k \<Rightarrow> k = n \<and> n \<le> spare b0 \<and>
               (\<exists>ys. length ys = n \<and> b = b0\<lparr>rb_items := rb_items b0 @ ys\<rparr>)
           | _ \<Rightarrow> n = 0 \<and> b = b0))),
      pr_quiet = (\<lambda>m m'. mem_quiet R m m' \<and> (\<forall>h p n. H (m_raw m) h p n \<longrightarrow> H (m_raw m') h p n))\<rparr>"

lemma stream_read_fields [simp]:
  "pr_final (stream_read_protocol A ops R H b0 L) code \<longleftrightarrow> code \<noteq> BLOCKED"
  "pr_parked (stream_read_protocol A ops R H b0 L) i s \<longleftrightarrow> \<not> sr_done s \<and> sr_handle s \<noteq> NO_HANDLE"
  "pr_handle (stream_read_protocol A ops R H b0 L) i s = sr_handle s"
  by (simp_all add: stream_read_protocol_def)

lemma read_legal_mono: "read_legal ops R p m r code \<Longrightarrow> m \<le> n \<Longrightarrow> read_legal ops R p n r code"
  using legal_code_mono unfolding read_legal_def by blast

lemma read_hostD:
  assumes "read_host ops R H"
  shows "read_legal ops R p n (snd (so_start_read ops h p n r)) (fst (so_start_read ops h p n r))"
    and "H (snd (so_start_read ops h p n r)) h p n"
    and "H r h p n \<Longrightarrow> read_legal ops R p n (snd (so_cancel_read ops h r)) (fst (so_cancel_read ops h r))"
    and "H r h p n \<Longrightarrow> fst (so_cancel_read ops h r) \<noteq> BLOCKED"
    and "H r h p n \<Longrightarrow> H (snd (so_cancel_read ops h r)) h p n"
  using assms unfolding read_host_def by blast+

lemma read_block_ok:
  assumes "never_fails A" "from_size_align (elem_size ops * spare b) (l_align (so_layout ops)) = Some l"
  shows "\<exists>c r. stream_read_block A ops b m = Inr ((read_addr ops (b, c), c), logged (alloc_calls c) r m)"
proof (cases "so_native ops")
  case True
  then show ?thesis
    by (intro exI [of _ None] exI [of _ "m_raw m"]) (simp add: stream_read_block_def read_addr_def logged_def alloc_calls_def)
next
  case False
  have "elem_size ops * spare b < 2 ^ 32" using assms(2) by (auto simp: from_size_align_def split: if_splits)
  then have eq: "(elem_size ops * spare b) mod 2 ^ 32 = elem_size ops * spare b" by simp
  obtain p c r where "cleanup_new A l m = Inr ((p, c), logged (alloc_calls c) r m)" "p = cleanup_ptr c"
    by (rule cleanup_new_ok [OF assms(1), of l m]) (rule that)
  then show ?thesis
    using False assms(2) eq unfolding stream_read_block_def spare_def
    by (intro exI [of _ c] exI [of _ r]) (simp add: read_addr_def)
qed

lemma stream_read_start_ok:
  assumes "pr_startable (stream_read_protocol A ops R H b0 L) b s m"
  shows "\<exists>code i s' m'. stream_read_start A ops b (s, m) = Inr ((code, i), s', m') \<and>
    pr_running (stream_read_protocol A ops R H b0 L) i s' m' \<and>
    pr_legal (stream_read_protocol A ops R H b0 L) i s' m' code"
proof -
  note a = assms [unfolded stream_read_protocol_def read_ready_def, simplified]
  show ?thesis
  proof (cases "sr_done s")
    case True
    have "read_legal ops R (read_addr ops (b0, None)) (spare b0) (m_raw m) DROPPED"
      by (simp add: read_legal_def)
    then show ?thesis
      using a True by (simp add: stream_read_start_def stream_read_protocol_def read_ready_def alloc_calls_def)
  next
    case False
    obtain l where l: "from_size_align (elem_size ops * spare b) (l_align (so_layout ops)) = Some l" using a by auto
    obtain c r where c: "stream_read_block A ops b m = Inr ((read_addr ops (b, c), c), logged (alloc_calls c) r m)"
      using read_block_ok [OF _ l, of A m] a by blast
    let ?p = "read_addr ops (b, c)" and ?n = "min (spare b) MAX_LENGTH"
    obtain code r' where cr: "so_start_read ops (sr_handle s) ?p ?n r = (code, r')"
      by (cases "so_start_read ops (sr_handle s) ?p ?n r")
    have host: "read_host ops R H" using a by simp
    have "read_legal ops R ?p ?n r' code"
      using read_hostD(1) [OF host, where p = ?p and n = ?n and h = "sr_handle s" and r = r] cr by simp
    then have w1: "read_legal ops R ?p (spare b) r' code" by (rule read_legal_mono) simp
    have w2: "H r' (sr_handle s) ?p ?n"
      using read_hostD(2) [OF host, where p = ?p and n = ?n and h = "sr_handle s" and r = r] cr by simp
    let ?m = "logged [Read_Call (sr_handle s) ?p ?n code] r' (logged (alloc_calls c) r m)"
    have run: "stream_read_start A ops b (s, m) = Inr ((code, b, c), s, ?m)"
      using False a cr c by (simp add: stream_read_start_def spare_def)
    have "\<exists>n \<le> spare b0. H r' (sr_handle s) ?p n" using w2 a by (intro exI [of _ ?n]) simp
    then show ?thesis
      using run w1 a False
      by (intro exI [of _ code] exI [of _ "(b, c)"] exI [of _ s] exI [of _ ?m])
        (simp add: stream_read_protocol_def read_ready_def)
  qed
qed

lemma lift_some_ok:
  assumes "payload_contract ops R" "length ys = n" "slots R (elem_size ops) (m_raw m) p ys"
  shows "\<exists>r. lift_all ops n p m = Inr (ys, logged (map Lift (slot_addrs (elem_size ops) p n)) r m)"
  using lift_all_ok [OF assms(1,3)] assms(2) by blast

text \<open>The items of a completed read, from the vector itself or lifted out of the block.\<close>

lemma read_items_ok:
  assumes "ops_ok ops R" "\<not> so_native ops \<Longrightarrow> \<exists>ys. length ys = n \<and> slots R (elem_size ops) (m_raw m) (cleanup_ptr c) ys"
  shows "\<exists>ys m'. (if so_native ops then
        Inr (load_all ops n (rb_base b + length (rb_items b) * so_payload_size ops) (m_raw m), m)
      else lift_all ops n (cleanup_ptr c) m) = Inr (ys, m') \<and> length ys = n \<and>
    mem_calls m' = mem_calls m @
      (if so_native ops then [] else map Lift (slot_addrs (elem_size ops) (cleanup_ptr c) n))"
proof (cases "so_native ops")
  case True
  then show ?thesis by (simp add: load_all_def)
next
  case False
  then have pc: "payload_contract ops R" using assms(1) by (simp add: ops_ok_def)
  obtain ys where "length ys = n" "slots R (elem_size ops) (m_raw m) (cleanup_ptr c) ys"
    using assms(2) False by blast
  from lift_some_ok [OF pc this] this(1) False show ?thesis by auto
qed

lemma stream_read_count_ok:
  assumes run: "pr_running (stream_read_protocol A ops R H b0 L) (b, c) s m" and n: "n \<le> spare b0"
    and ys: "\<not> so_native ops \<Longrightarrow> \<exists>ys. length ys = n \<and> slots R (elem_size ops) (m_raw m) (cleanup_ptr c) ys"
  shows "\<exists>x s' m'. stream_read_count A ops (b, c) n d (s, m) = Inr (Complete x, s', m') \<and>
    pr_finished (stream_read_protocol A ops R H b0 L) x s' m'"
proof -
  note a = run [unfolded stream_read_protocol_def read_ready_def, simplified]
  have "ops_ok ops R" using a by simp
  from read_items_ok [OF this ys] obtain zs m1 where
    z: "(if so_native ops then
        Inr (load_all ops n (rb_base b + length (rb_items b) * so_payload_size ops) (m_raw m), m)
      else lift_all ops n (cleanup_ptr c) m) = Inr (zs, m1)" "length zs = n"
    "mem_calls m1 = mem_calls m @
      (if so_native ops then [] else map Lift (slot_addrs (elem_size ops) (cleanup_ptr c) n))"
    by blast
  have "n \<le> rb_cap b - length (rb_items b)" using n a by (simp add: spare_def)
  then have "stream_read_count A ops (b, c) n d (s, m) =
      Inr (Complete (Completed_Items n, b\<lparr>rb_items := rb_items b @ zs\<rparr>),
        s\<lparr>sr_done := sr_done s \<or> d\<rparr>, drop_cleanup A c m1)"
    by (simp add: stream_read_count_def z(1))
  moreover have "pr_finished (stream_read_protocol A ops R H b0 L)
      (Completed_Items n, b\<lparr>rb_items := rb_items b @ zs\<rparr>) (s\<lparr>sr_done := sr_done s \<or> d\<rparr>) (drop_cleanup A c m1)"
    using a n z(2,3) by (auto simp: stream_read_protocol_def intro!: exI [of _ c] exI [of _ zs])
  ultimately show ?thesis by blast
qed

lemma stream_read_nothing_ok:
  assumes run: "pr_running (stream_read_protocol A ops R H b0 L) (b, c) s m" and "\<And>n. x \<noteq> Completed_Items n"
  shows "pr_finished (stream_read_protocol A ops R H b0 L) (x, b) s (drop_cleanup A c m)"
  using assms by (cases x) (auto simp: stream_read_protocol_def intro!: exI [of _ c] exI [of _ 0])

lemma stream_read_update_ok:
  assumes run: "pr_running (stream_read_protocol A ops R H b0 L) i s m"
    and l: "pr_legal (stream_read_protocol A ops R H b0 L) i s m code"
  shows "\<exists>u s' m'. stream_read_update A ops i code (s, m) = Inr (u, s', m') \<and>
    (case u of
       Complete x \<Rightarrow> pr_finished (stream_read_protocol A ops R H b0 L) x s' m'
     | Still j \<Rightarrow> code = BLOCKED \<and> j = i \<and> s' = s \<and> m' = m \<and> \<not> sr_done s)"
proof -
  obtain b c where i: "i = (b, c)" by (cases i)
  have legal: "legal_code (spare b0) code" and dn: "sr_done s \<longrightarrow> code \<noteq> BLOCKED"
    and ys: "\<not> so_native ops \<Longrightarrow>
      \<exists>ys. length ys = code_count code \<and> slots R (elem_size ops) (m_raw m) (cleanup_ptr c) ys"
    using l by (auto simp: stream_read_protocol_def read_legal_def i read_addr_def)
  note r = run [unfolded i]
  have count: "\<exists>u s' m'. stream_read_count A ops (b, c) (unat k) d (s, m) = Inr (u, s', m') \<and>
      (case u of
         Complete x \<Rightarrow> pr_finished (stream_read_protocol A ops R H b0 L) x s' m'
       | Still j \<Rightarrow> code = BLOCKED \<and> j = i \<and> s' = s \<and> m' = m \<and> \<not> sr_done s)"
    if "unat k \<le> spare b0" "code_count code = unat k" for k :: u32 and d
    using stream_read_count_ok [OF r that(1), of d] ys that(2) by fastforce
  have empty: "pr_finished (stream_read_protocol A ops R H b0 L) (Stream_Dropped, b) s (drop_cleanup A c m)"
    "pr_finished (stream_read_protocol A ops R H b0 L) (Stream_Cancelled, b) s (drop_cleanup A c m)"
    using stream_read_nothing_ok [OF r] by simp_all
  from legal show ?thesis
  proof (cases rule: legal_codeE)
    case 1
    then show ?thesis using dn by (simp add: stream_read_update_def i)
  next
    case (2 a)
    then show ?thesis using count [of a] by (simp add: stream_read_update_def i)
  next
    case (3 a)
    then show ?thesis using count [of a] empty(1) by (cases "a = 0") (simp_all add: stream_read_update_def i)
  next
    case (4 a)
    then show ?thesis using count [of a] empty(2) by (cases "a = 0") (simp_all add: stream_read_update_def i)
  qed
qed

lemma stream_read_cancel_ok:
  assumes run: "pr_running (stream_read_protocol A ops R H b0 L) i s m"
    and pk: "pr_parked (stream_read_protocol A ops R H b0 L) i s"
  shows "\<exists>code s' m'. wop_cancel (stream_read_op A ops) i (s, m) = Inr (code, s', m') \<and>
    pr_running (stream_read_protocol A ops R H b0 L) i s' m' \<and>
    pr_legal (stream_read_protocol A ops R H b0 L) i s' m' code \<and> code \<noteq> BLOCKED \<and> s' = s"
proof -
  obtain b c where i: "i = (b, c)" by (cases i)
  note a = run [unfolded i stream_read_protocol_def read_ready_def, simplified] pk [simplified]
  obtain n where n: "n \<le> spare b0" "H (m_raw m) (sr_handle s) (read_addr ops (b, c)) n" using a by auto
  obtain code r where cr: "so_cancel_read ops (sr_handle s) (m_raw m) = (code, r)"
    by (cases "so_cancel_read ops (sr_handle s) (m_raw m)")
  have host: "read_host ops R H" using a by simp
  have w: "read_legal ops R (read_addr ops (b, c)) n r code" "code \<noteq> BLOCKED"
    "H r (sr_handle s) (read_addr ops (b, c)) n"
    using read_hostD(3-5) [OF host n(2)] cr by simp_all
  then have "read_legal ops R (read_addr ops (b, c)) (spare b0) r code" using read_legal_mono n(1) by blast
  then show ?thesis
    using a w(2,3) n(1) cr by (auto simp: stream_read_op_def stream_read_protocol_def read_ready_def i)
qed

lemma stream_read_stable:
  assumes "pr_running (stream_read_protocol A ops R H b0 L) i s m"
    and "pr_quiet (stream_read_protocol A ops R H b0 L) m m'"
  shows "pr_running (stream_read_protocol A ops R H b0 L) i s m'"
proof -
  obtain b c where i: "i = (b, c)" by (cases i)
  note a = assms [unfolded stream_read_protocol_def mem_quiet_def i, simplified]
  have "H (m_raw m) h p n \<Longrightarrow> H (m_raw m') h p n" for h p n using a(2) by auto
  then have "\<not> sr_done s \<Longrightarrow> \<exists>n \<le> spare b0. H (m_raw m') (sr_handle s) (read_addr ops (b, c)) n"
    using a(1) by blast
  then show ?thesis using a by (simp add: stream_read_protocol_def i)
qed

interpretation stream_read: waitable_protocol "stream_read_op A ops" "stream_read_protocol A ops R H b0 L"
  for A and ops :: "('p, 'h) stream_ops" and R H b0 L
proof
  fix b s and m :: "'h machine"
  assume "pr_startable (stream_read_protocol A ops R H b0 L) b s m"
  from stream_read_start_ok [OF this]
  show "\<exists>code i s' m'. wop_start (stream_read_op A ops) b (s, m) = Inr ((code, i), s', m') \<and>
      pr_running (stream_read_protocol A ops R H b0 L) i s' m' \<and>
      pr_legal (stream_read_protocol A ops R H b0 L) i s' m' code"
    by (simp add: stream_read_op_def)
next
  fix i s and m :: "'h machine" and code
  assume *: "pr_running (stream_read_protocol A ops R H b0 L) i s m"
    "pr_legal (stream_read_protocol A ops R H b0 L) i s m code"
  have "sr_handle s \<noteq> NO_HANDLE"
    using *(1) by (cases i) (simp add: stream_read_protocol_def read_ready_def)
  with stream_read_update_ok [OF *] *(1)
  show "\<exists>u s' m'. wop_update (stream_read_op A ops) i code (s, m) = Inr (u, s', m') \<and>
      (case u of
         Complete x \<Rightarrow> pr_finished (stream_read_protocol A ops R H b0 L) x s' m'
       | Still j \<Rightarrow> \<not> pr_final (stream_read_protocol A ops R H b0 L) code \<and>
           pr_running (stream_read_protocol A ops R H b0 L) j s' m' \<and>
           pr_parked (stream_read_protocol A ops R H b0 L) j s' \<and>
           pr_handle (stream_read_protocol A ops R H b0 L) j s' = pr_handle (stream_read_protocol A ops R H b0 L) i s)"
    by (elim exE) (rename_tac u s' m', case_tac u, auto simp: stream_read_op_def)
next
  fix i s and m :: "'h machine"
  assume "pr_running (stream_read_protocol A ops R H b0 L) i s m" "pr_parked (stream_read_protocol A ops R H b0 L) i s"
  from stream_read_cancel_ok [OF this]
  show "\<exists>code s' m'. wop_cancel (stream_read_op A ops) i (s, m) = Inr (code, s', m') \<and>
      pr_running (stream_read_protocol A ops R H b0 L) i s' m' \<and>
      pr_legal (stream_read_protocol A ops R H b0 L) i s' m' code \<and> pr_final (stream_read_protocol A ops R H b0 L) code \<and>
      pr_handle (stream_read_protocol A ops R H b0 L) i s' = pr_handle (stream_read_protocol A ops R H b0 L) i s"
    by simp blast
next
  fix i s and m m' :: "'h machine"
  assume "pr_running (stream_read_protocol A ops R H b0 L) i s m" "pr_quiet (stream_read_protocol A ops R H b0 L) m m'"
  then show "pr_running (stream_read_protocol A ops R H b0 L) i s m'" by (rule stream_read_stable)
next
  fix i s and m m' :: "'h machine" and code
  assume "pr_legal (stream_read_protocol A ops R H b0 L) i s m code" "pr_quiet (stream_read_protocol A ops R H b0 L) m m'"
  then show "pr_legal (stream_read_protocol A ops R H b0 L) i s m' code"
    unfolding stream_read_protocol_def read_legal_def mem_quiet_def by (simp, blast intro: slots_keep)
qed (simp_all add: stream_read_op_def)

end
