(* ===== verification/Rt_Stream_Loops.thy ===== *)
theory Rt_Stream_Loops
  imports Rt_Stream_Read
begin

text \<open>
  The loops over whole streams of \<open>stream_support.rs\<close>: \<open>write_all\<close>, \<open>write_one\<close>, \<open>next\<close> and
  \<open>collect\<close>. What awaiting a single write or read gives is a parameter; the previous theories say what
  that can be.
\<close>

section \<open>Writing everything\<close>

type_synonym ('p, 'h) await_write =
  "'p abi_buffer \<Rightarrow> stream_writer \<times> 'h machine \<Rightarrow> ((stream_result \<times> 'p abi_buffer) \<times> stream_writer \<times> 'h machine) res"

fun write_all_loop ::
    "nat \<Rightarrow> ('p, 'h) await_write \<Rightarrow> stream_result \<times> 'p abi_buffer \<Rightarrow> stream_writer \<times> 'h machine
      \<Rightarrow> ((stream_result \<times> 'p abi_buffer) \<times> stream_writer \<times> 'h machine) res" where
  "write_all_loop 0 aw sb s = Inl Out_Of_Fuel"
| "write_all_loop (Suc n) aw (status, b) s =
     (case status of
        Completed_Items _ \<Rightarrow>
          if remaining b = 0 then Inr ((status, b), s)
          else and_then (aw b s) (\<lambda>((status, b), s).
            write_all_loop n aw (if status = Stream_Cancelled then Completed_Items 0 else status, b) s)
      | _ \<Rightarrow> Inr ((status, b), s))"

definition write_all ::
    "nat \<Rightarrow> 'h allocator \<Rightarrow> ('p, 'h) stream_ops \<Rightarrow> ('p, 'h) await_write \<Rightarrow> addr \<Rightarrow> 'p list
      \<Rightarrow> stream_writer \<times> 'h machine \<Rightarrow> ('p list \<times> stream_writer \<times> 'h machine) res" where
  "write_all n A ops aw base xs = (\<lambda>(s, m).
     and_then (buffer_new A ops base xs m) (\<lambda>(b, m).
       and_then (aw b (s, m)) (\<lambda>(sb, s).
         and_then (write_all_loop n aw sb s) (\<lambda>((status, b), s, m).
           if remaining b = 0 \<or> status = Stream_Dropped
           then and_then (into_vec A ops b m) (\<lambda>(ys, m). Inr (ys, s, m))
           else Inl Assert_Failed))))"

text \<open>\<open>Vec::pop\<close> of what was not sent.\<close>

definition write_one ::
    "nat \<Rightarrow> 'h allocator \<Rightarrow> ('p, 'h) stream_ops \<Rightarrow> ('p, 'h) await_write \<Rightarrow> addr \<Rightarrow> 'p
      \<Rightarrow> stream_writer \<times> 'h machine \<Rightarrow> ('p option \<times> stream_writer \<times> 'h machine) res" where
  "write_one n A ops aw base x s =
     and_then (write_all n A ops aw base [x] s) (\<lambda>(ys, s).
       Inr (if ys = [] then None else Some (last ys), s))"

text \<open>A write either moves on, or finds that the other end is gone.\<close>

definition write_progresses ::
    "('p, 'h) stream_ops \<Rightarrow> ('h raw \<Rightarrow> addr \<Rightarrow> 'p \<Rightarrow> bool) \<Rightarrow> 'p list \<Rightarrow> ('p, 'h) await_write \<Rightarrow> bool" where
  "write_progresses ops R xs aw \<longleftrightarrow>
     (\<forall>k b s m. buffer_holds ops R xs k b (m_raw m) \<longrightarrow>
        (\<exists>status b' s' m'. aw b (s, m) = Inr ((status, b'), s', m') \<and>
          ((\<exists>n. status = Completed_Items n \<and> (0 < n \<or> k = length xs) \<and> k + n \<le> length xs \<and>
              buffer_holds ops R xs (k + n) b' (m_raw m')) \<or>
           status = Stream_Dropped \<and> buffer_holds ops R xs k b' (m_raw m'))))"

lemma write_progressesE:
  assumes "write_progresses ops R xs aw" "buffer_holds ops R xs k b (m_raw m)"
  obtains n b' s' m' where "aw b (s, m) = Inr ((Completed_Items n, b'), s', m')" "0 < n \<or> k = length xs"
      "k + n \<le> length xs" "buffer_holds ops R xs (k + n) b' (m_raw m')"
  | b' s' m' where "aw b (s, m) = Inr ((Stream_Dropped, b'), s', m')" "buffer_holds ops R xs k b' (m_raw m')"
  using assms(1) [unfolded write_progresses_def, rule_format, OF assms(2), of s] by blast

lemma write_all_loop_ok:
  assumes aw: "write_progresses ops R xs aw"
  shows "buffer_holds ops R xs k b (m_raw m) \<Longrightarrow> length xs - k < n \<Longrightarrow>
    \<exists>status b' k' s' m'. write_all_loop n aw (Completed_Items i, b) (s, m) = Inr ((status, b'), s', m') \<and>
      k \<le> k' \<and> buffer_holds ops R xs k' b' (m_raw m') \<and> (k' = length xs \<or> status = Stream_Dropped)"
proof (induction n arbitrary: k b s m i)
  case 0
  then show ?case by simp
next
  case (Suc n)
  have rem: "remaining b = length xs - k" by (rule buffer_holds_remaining [OF Suc.prems(1)])
  have k: "k \<le> length xs" using Suc.prems(1) by (simp add: buffer_holds_def)
  show ?case
  proof (cases "k = length xs")
    case True
    then show ?thesis using Suc.prems(1) rem by auto
  next
    case False
    then have ne: "remaining b \<noteq> 0" using rem k by simp
    from write_progressesE [OF aw Suc.prems(1), of s] show ?thesis
    proof cases
      case (1 j b1 s1 m1)
      then have "length xs - (k + j) < n" using Suc.prems(2) False k by simp
      from Suc.IH [OF 1(4) this, of j s1] obtain status b' k' s' m' where
        "write_all_loop n aw (Completed_Items j, b1) (s1, m1) = Inr ((status, b'), s', m')"
        "k + j \<le> k'" "buffer_holds ops R xs k' b' (m_raw m')" "k' = length xs \<or> status = Stream_Dropped"
        by blast
      then show ?thesis using 1(1) ne by (auto intro!: exI [of _ k'])
    next
      case (2 b1 s1 m1)
      then show ?thesis using ne Suc.prems(2) False k by (cases n) auto
    qed
  qed
qed

text \<open>The loop ends with a dropped stream only if a write found it dropped.\<close>

lemma write_all_loop_dropped:
  "write_all_loop n aw (Completed_Items i, b) s = Inr ((Stream_Dropped, b'), t) \<Longrightarrow>
    \<exists>b s b' t. aw b s = Inr ((Stream_Dropped, b'), t)"
proof (induction n arbitrary: i b s)
  case 0
  then show ?case by simp
next
  case (Suc n)
  then obtain status b1 s1 where a: "aw b s = Inr ((status, b1), s1)"
    and l: "write_all_loop n aw (if status = Stream_Cancelled then Completed_Items 0 else status, b1) s1 =
      Inr ((Stream_Dropped, b'), t)"
    by (auto simp: res_simps split: if_splits)
  show ?case
  proof (cases "status = Stream_Dropped")
    case True
    then show ?thesis using a by blast
  next
    case False
    then obtain j where "write_all_loop n aw (Completed_Items j, b1) s1 = Inr ((Stream_Dropped, b'), t)"
      using l by (cases status) auto
    then show ?thesis by (rule Suc.IH)
  qed
qed

section \<open>Reading everything\<close>

type_synonym ('p, 'h) await_read =
  "'p read_buf \<Rightarrow> stream_reader \<times> 'h machine \<Rightarrow> ((stream_result \<times> 'p read_buf) \<times> stream_reader \<times> 'h machine) res"

text \<open>\<open>next\<close> reads into a vector with room for one item, at \<open>base\<close>.\<close>

definition read_next ::
    "('p, 'h) await_read \<Rightarrow> addr \<Rightarrow> stream_reader \<times> 'h machine \<Rightarrow> ('p option \<times> stream_reader \<times> 'h machine) res" where
  "read_next ar base s =
     and_then (ar \<lparr>rb_items = [], rb_cap = 1, rb_base = base\<rparr> s) (\<lambda>((_, b), s).
       Inr (if rb_items b = [] then None else Some (last (rb_items b)), s))"

text \<open>\<open>grow\<close> is what \<open>Vec::reserve(1)\<close> makes of a full vector: more room, maybe elsewhere.\<close>

fun read_all_loop ::
    "nat \<Rightarrow> ('p read_buf \<Rightarrow> 'p read_buf) \<Rightarrow> ('p, 'h) await_read \<Rightarrow> 'p read_buf
      \<Rightarrow> stream_reader \<times> 'h machine \<Rightarrow> ('p list \<times> stream_reader \<times> 'h machine) res" where
  "read_all_loop 0 grow ar b s = Inl Out_Of_Fuel"
| "read_all_loop (Suc n) grow ar b s =
     (let b = (if length (rb_items b) = rb_cap b then grow b else b) in
      and_then (ar b s) (\<lambda>((status, b), s).
        case status of
          Completed_Items _ \<Rightarrow> read_all_loop n grow ar b s
        | Stream_Dropped \<Rightarrow> Inr (rb_items b, s)
        | Stream_Cancelled \<Rightarrow> Inl Unreachable_Code))"

text \<open>The reader is consumed: it is dropped in the end.\<close>

definition collect ::
    "nat \<Rightarrow> ('p, 'h) stream_ops \<Rightarrow> ('p read_buf \<Rightarrow> 'p read_buf) \<Rightarrow> ('p, 'h) await_read \<Rightarrow> addr
      \<Rightarrow> stream_reader \<times> 'h machine \<Rightarrow> ('p list \<times> 'h machine) res" where
  "collect n ops grow ar base s =
     and_then (read_all_loop n grow ar \<lparr>rb_items = [], rb_cap = 0, rb_base = base\<rparr> s) (\<lambda>(ys, s, m).
       Inr (ys, reader_drop ops s m))"

text \<open>\<open>todo m\<close> are the items still to come: a read takes some from the front, or ends the stream.\<close>

definition reads_from ::
    "('h machine \<Rightarrow> 'p list) \<Rightarrow> ('p, 'h) await_read \<Rightarrow> bool" where
  "reads_from todo ar \<longleftrightarrow>
     (\<forall>b s m. length (rb_items b) < rb_cap b \<longrightarrow>
        (\<exists>status b' s' m'. ar b (s, m) = Inr ((status, b'), s', m') \<and>
          ((\<exists>n. status = Completed_Items n \<and> 0 < n \<and> n \<le> length (todo m) \<and> n \<le> spare b \<and>
              b' = b\<lparr>rb_items := rb_items b @ take n (todo m)\<rparr> \<and> todo m' = drop n (todo m)) \<or>
           status = Stream_Dropped \<and> todo m = [] \<and> b' = b)))"

definition grows :: "('p read_buf \<Rightarrow> 'p read_buf) \<Rightarrow> bool" where
  "grows grow \<longleftrightarrow> (\<forall>b. rb_items (grow b) = rb_items b \<and> rb_cap b < rb_cap (grow b))"

lemma reads_fromE:
  assumes "reads_from todo ar" "length (rb_items b) < rb_cap b"
  obtains n b' s' m' where "ar b (s, m) = Inr ((Completed_Items n, b'), s', m')" "0 < n" "n \<le> length (todo m)"
      "n \<le> spare b" "b' = b\<lparr>rb_items := rb_items b @ take n (todo m)\<rparr>" "todo m' = drop n (todo m)"
  | s' m' where "ar b (s, m) = Inr ((Stream_Dropped, b), s', m')" "todo m = []"
  using assms(1) [unfolded reads_from_def, rule_format, OF assms(2), of s m] by blast

lemma read_all_loop_ok:
  assumes ar: "reads_from todo ar" and g: "grows grow"
  shows "length (todo m) < n \<Longrightarrow> length (rb_items b) \<le> rb_cap b \<Longrightarrow>
    \<exists>s' m'. read_all_loop n grow ar b (s, m) = Inr (rb_items b @ todo m, s', m')"
proof (induction n arbitrary: b s m)
  case 0
  then show ?case by simp
next
  case (Suc n)
  let ?b = "if length (rb_items b) = rb_cap b then grow b else b"
  have b: "rb_items ?b = rb_items b" "length (rb_items ?b) < rb_cap ?b"
    using g Suc.prems(2) unfolding grows_def by (auto simp: le_less)
  from reads_fromE [OF ar b(2), of s m] show ?case
  proof cases
    case (1 k b1 s1 m1)
    have "length (todo m1) < n" using 1(2,3,6) Suc.prems(1) by simp
    moreover have "length (rb_items b1) \<le> rb_cap b1"
      using 1(3-5) b by (simp add: spare_def)
    ultimately obtain s' m' where "read_all_loop n grow ar b1 (s1, m1) = Inr (rb_items b1 @ todo m1, s', m')"
      using Suc.IH by blast
    then show ?thesis using 1(1,5,6) b(1) by (simp add: Let_def)
  next
    case (2 s1 m1)
    then show ?thesis using b(1) by (simp add: Let_def)
  qed
qed

end
