(* ===== verification/Rt_Future.thy ===== *)
theory Rt_Future
  imports Rt_Stream
begin

text \<open>
  \<open>future_support.rs\<close>: the ends of a future and the two implementations of \<open>WaitableOp\<close> behind a
  future write and a future read. A future carries one value, in a block of its own: the value is
  lowered into it or lifted out of it exactly once, and the block is freed exactly once.
\<close>

section \<open>FutureOps\<close>

record ('p, 'h) future_ops =
  fo_new :: "'h raw \<Rightarrow> 64 word \<times> 'h raw"
  fo_layout :: layout
  fo_lower :: "'p \<Rightarrow> addr \<Rightarrow> 'h raw \<Rightarrow> 'h raw"
  fo_dealloc_lists :: "addr \<Rightarrow> 'h raw \<Rightarrow> 'h raw"
  fo_lift :: "addr \<Rightarrow> 'h raw \<Rightarrow> 'p \<times> 'h raw"
  fo_start_write :: "u32 \<Rightarrow> addr \<Rightarrow> 'h raw \<Rightarrow> u32 \<times> 'h raw"
  fo_start_read :: "u32 \<Rightarrow> addr \<Rightarrow> 'h raw \<Rightarrow> u32 \<times> 'h raw"
  fo_cancel_read :: "u32 \<Rightarrow> 'h raw \<Rightarrow> u32 \<times> 'h raw"
  fo_cancel_write :: "u32 \<Rightarrow> 'h raw \<Rightarrow> u32 \<times> 'h raw"
  fo_drop_readable :: "u32 \<Rightarrow> 'h raw \<Rightarrow> 'h raw"
  fo_drop_writable :: "u32 \<Rightarrow> 'h raw \<Rightarrow> 'h raw"

record ('p, 'h) future_vtable =
  fv_layout :: layout
  fv_lower :: "'p \<Rightarrow> addr \<Rightarrow> 'h raw \<Rightarrow> 'h raw"
  fv_dealloc_lists :: "addr \<Rightarrow> 'h raw \<Rightarrow> 'h raw"
  fv_lift :: "addr \<Rightarrow> 'h raw \<Rightarrow> 'p \<times> 'h raw"
  fv_start_write :: "u32 \<Rightarrow> addr \<Rightarrow> 'h raw \<Rightarrow> u32 \<times> 'h raw"
  fv_start_read :: "u32 \<Rightarrow> addr \<Rightarrow> 'h raw \<Rightarrow> u32 \<times> 'h raw"
  fv_cancel_write :: "u32 \<Rightarrow> 'h raw \<Rightarrow> u32 \<times> 'h raw"
  fv_cancel_read :: "u32 \<Rightarrow> 'h raw \<Rightarrow> u32 \<times> 'h raw"
  fv_drop_writable :: "u32 \<Rightarrow> 'h raw \<Rightarrow> 'h raw"
  fv_drop_readable :: "u32 \<Rightarrow> 'h raw \<Rightarrow> 'h raw"
  fv_new :: "'h raw \<Rightarrow> 64 word \<times> 'h raw"

definition future_vtable_ops :: "('p, 'h) future_vtable \<Rightarrow> ('p, 'h) future_ops" where
  "future_vtable_ops v =
     \<lparr>fo_new = fv_new v, fo_layout = fv_layout v, fo_lower = fv_lower v,
      fo_dealloc_lists = fv_dealloc_lists v, fo_lift = fv_lift v, fo_start_write = fv_start_write v,
      fo_start_read = fv_start_read v, fo_cancel_read = fv_cancel_read v, fo_cancel_write = fv_cancel_write v,
      fo_drop_readable = fv_drop_readable v, fo_drop_writable = fv_drop_writable v\<rparr>"

section \<open>The ends of a future\<close>

record future_writer =
  fw_handle :: u32

record future_reader =
  fr_handle :: u32

definition raw_future_new ::
    "('p, 'h) future_ops \<Rightarrow> 'h machine \<Rightarrow> (future_writer \<times> future_reader) \<times> 'h machine" where
  "raw_future_new ops m =
     (let (handles, r) = fo_new ops (m_raw m) in
      ((\<lparr>fw_handle = ucast (drop_bit 32 handles)\<rparr>, \<lparr>fr_handle = ucast handles\<rparr>), logged [] r m))"

definition future_writer_drop :: "('p, 'h) future_ops \<Rightarrow> future_writer \<Rightarrow> 'h machine \<Rightarrow> 'h machine" where
  "future_writer_drop ops w m =
     logged [Drop_Writable (fw_handle w)] (fo_drop_writable ops (fw_handle w) (m_raw m)) m"

definition future_reader_take_handle :: "future_reader \<Rightarrow> (u32 \<times> future_reader) res" where
  "future_reader_take_handle s =
     and_then (unwrap (opt_handle (fr_handle s))) (\<lambda>h. Inr (h, s\<lparr>fr_handle := NO_HANDLE\<rparr>))"

definition future_reader_drop :: "('p, 'h) future_ops \<Rightarrow> future_reader \<Rightarrow> 'h machine \<Rightarrow> 'h machine" where
  "future_reader_drop ops s m =
     (case opt_handle (fr_handle s) of
        None \<Rightarrow> m
      | Some h \<Rightarrow> logged [Drop_Readable h] (fo_drop_readable ops h (m_raw m)) m)"

section \<open>Writing\<close>

datatype 'p write_complete = Written | Write_Dropped 'p | Write_Cancelled 'p

datatype 'p future_write_cancel = Already_Sent | Cancel_Dropped 'p | Cancel_Cancelled 'p future_writer

type_synonym 'p write_start = "future_writer \<times> 'p"
type_synonym write_progress = "future_writer \<times> cleanup option"
type_synonym 'p write_result = "'p write_complete \<times> future_writer"

definition future_write_start ::
    "'h allocator \<Rightarrow> ('p, 'h) future_ops \<Rightarrow> 'p write_start \<Rightarrow> unit \<times> 'h machine
      \<Rightarrow> ((u32 \<times> write_progress) \<times> unit \<times> 'h machine) res" where
  "future_write_start A ops = (\<lambda>(w, v) (s, m).
     and_then (cleanup_new A (fo_layout ops) m) (\<lambda>((p, c), m).
       let r = fo_lower ops v p (m_raw m);
           (code, r) = fo_start_write ops (fw_handle w) p r in
       Inr ((code, w, c), s, logged [Lower p, Write_Call (fw_handle w) p 1 code] r m)))"

definition future_write_update ::
    "'h allocator \<Rightarrow> ('p, 'h) future_ops \<Rightarrow> write_progress \<Rightarrow> u32 \<Rightarrow> unit \<times> 'h machine
      \<Rightarrow> (('p write_result, write_progress) update \<times> unit \<times> 'h machine) res" where
  "future_write_update A ops = (\<lambda>(w, c) code (s, m).
     let p = cleanup_ptr c in
     if code = BLOCKED then Inr (Still (w, c), s, m)
     else if code = DROPPED \<or> code = CANCELLED then
       (let (v, r) = fo_lift ops p (m_raw m) in
        Inr (Complete (if code = DROPPED then Write_Dropped v else Write_Cancelled v, w), s,
          drop_cleanup A c (logged [Lift p] r m)))
     else if code = COMPLETED then
       Inr (Complete (Written, w), s,
         drop_cleanup A c (logged [Dealloc_Lists p] (fo_dealloc_lists ops p (m_raw m)) m))
     else Inl Unreachable_Code)"

text \<open>The writer is given back only if the write was cancelled; otherwise it is dropped here.\<close>

definition future_write_into_cancel ::
    "('p, 'h) future_ops \<Rightarrow> 'p write_result \<Rightarrow> unit \<times> 'h machine
      \<Rightarrow> ('p future_write_cancel \<times> unit \<times> 'h machine) res" where
  "future_write_into_cancel ops = (\<lambda>(x, w) (s, m).
     case x of
       Written \<Rightarrow> Inr (Already_Sent, s, future_writer_drop ops w m)
     | Write_Dropped v \<Rightarrow> Inr (Cancel_Dropped v, s, future_writer_drop ops w m)
     | Write_Cancelled v \<Rightarrow> Inr (Cancel_Cancelled v w, s, m))"

definition future_write_op ::
    "'h allocator \<Rightarrow> ('p, 'h) future_ops
      \<Rightarrow> (unit, 'p write_start, write_progress, 'p write_result, 'p future_write_cancel, 'h) waitable_op" where
  "future_write_op A ops =
     \<lparr>wop_start = future_write_start A ops,
      wop_update = future_write_update A ops,
      wop_start_cancelled = (\<lambda>(w, v) (s, m). Inr (Cancel_Cancelled v w, s, m)),
      wop_waitable = (\<lambda>(w, c) s. Inr (fw_handle w)),
      wop_cancel = (\<lambda>(w, c) (s, m).
        let (code, r) = fo_cancel_write ops (fw_handle w) (m_raw m) in
        Inr (code, s, logged [Cancel_Write (fw_handle w) code] r m)),
      wop_into_cancel = future_write_into_cancel ops\<rparr>"

text \<open>
  \<open>RawFutureWrite::poll\<close>: the writer is dropped with the result, and a value that was not received
  comes back as the error.
\<close>

definition future_write_poll ::
    "'h allocator \<Rightarrow> ('p, 'h) future_ops \<Rightarrow> 'h rt_env \<Rightarrow> waker
      \<Rightarrow> (unit, 'p write_start, write_progress, 'h) run
      \<Rightarrow> (('p + unit) option \<times> (unit, 'p write_start, write_progress, 'h) run) res" where
  "future_write_poll A ops E k s =
     and_then (poll_complete (future_write_op A ops) E k s) (\<lambda>(ready, o1, w).
       Inr (case ready of
         None \<Rightarrow> (None, o1, w)
       | Some (x, writer) \<Rightarrow>
           (Some (case x of Written \<Rightarrow> Inr () | Write_Dropped v \<Rightarrow> Inl v | Write_Cancelled v \<Rightarrow> Inl v),
            o1, on_mach (future_writer_drop ops writer) w)))"

section \<open>Reading\<close>

datatype 'p read_complete = Read_Value 'p | Read_Cancelled

type_synonym read_progress = "future_reader \<times> cleanup option"
type_synonym 'p read_result = "'p read_complete \<times> future_reader"

definition future_read_start ::
    "'h allocator \<Rightarrow> ('p, 'h) future_ops \<Rightarrow> future_reader \<Rightarrow> unit \<times> 'h machine
      \<Rightarrow> ((u32 \<times> read_progress) \<times> unit \<times> 'h machine) res" where
  "future_read_start A ops rd = (\<lambda>(s, m).
     and_then (cleanup_new A (fo_layout ops) m) (\<lambda>((p, c), m).
       and_then (unwrap (opt_handle (fr_handle rd))) (\<lambda>h.
         let (code, r) = fo_start_read ops h p (m_raw m) in
         Inr ((code, rd, c), s, logged [Read_Call h p 1 code] r m))))"

definition future_read_update ::
    "'h allocator \<Rightarrow> ('p, 'h) future_ops \<Rightarrow> read_progress \<Rightarrow> u32 \<Rightarrow> unit \<times> 'h machine
      \<Rightarrow> (('p read_result, read_progress) update \<times> unit \<times> 'h machine) res" where
  "future_read_update A ops = (\<lambda>(rd, c) code (s, m).
     and_then (decode_return code) (\<lambda>rc.
       case rc of
         Blocked \<Rightarrow> Inr (Still (rd, c), s, m)
       | Cancelled amt \<Rightarrow>
           if amt = 0 then Inr (Complete (Read_Cancelled, rd), s, drop_cleanup A c m) else Inl Explicit_Panic
       | Completed amt \<Rightarrow>
           if amt = 0 then
             (let p = cleanup_ptr c; (v, r) = fo_lift ops p (m_raw m) in
              Inr (Complete (Read_Value v, rd), s, drop_cleanup A c (logged [Lift p] r m)))
           else Inl Explicit_Panic
       | Dropped amt \<Rightarrow> Inl Explicit_Panic))"

text \<open>A value that was read is the result; otherwise the reader comes back. The other is dropped.\<close>

definition future_read_into_cancel ::
    "('p, 'h) future_ops \<Rightarrow> 'p read_result \<Rightarrow> unit \<times> 'h machine
      \<Rightarrow> (('p + future_reader) \<times> unit \<times> 'h machine) res" where
  "future_read_into_cancel ops = (\<lambda>(x, rd) (s, m).
     case x of
       Read_Value v \<Rightarrow> Inr (Inl v, s, future_reader_drop ops rd m)
     | Read_Cancelled \<Rightarrow> Inr (Inr rd, s, m))"

definition future_read_op ::
    "'h allocator \<Rightarrow> ('p, 'h) future_ops
      \<Rightarrow> (unit, future_reader, read_progress, 'p read_result, 'p + future_reader, 'h) waitable_op" where
  "future_read_op A ops =
     \<lparr>wop_start = future_read_start A ops,
      wop_update = future_read_update A ops,
      wop_start_cancelled = (\<lambda>rd (s, m). Inr (Inr rd, s, m)),
      wop_waitable = (\<lambda>(rd, c) s. unwrap (opt_handle (fr_handle rd))),
      wop_cancel = (\<lambda>(rd, c) (s, m).
        and_then (unwrap (opt_handle (fr_handle rd))) (\<lambda>h.
          let (code, r) = fo_cancel_read ops h (m_raw m) in
          Inr (code, s, logged [Cancel_Read h code] r m))),
      wop_into_cancel = future_read_into_cancel ops\<rparr>"

definition future_read_poll ::
    "'h allocator \<Rightarrow> ('p, 'h) future_ops \<Rightarrow> 'h rt_env \<Rightarrow> waker
      \<Rightarrow> (unit, future_reader, read_progress, 'h) run
      \<Rightarrow> ('p option \<times> (unit, future_reader, read_progress, 'h) run) res" where
  "future_read_poll A ops E k s =
     and_then (poll_complete (future_read_op A ops) E k s) (\<lambda>(ready, o1, w).
       case ready of
         None \<Rightarrow> Inr (None, o1, w)
       | Some (Read_Value v, rd) \<Rightarrow> Inr (Some v, o1, on_mach (future_reader_drop ops rd) w)
       | Some (Read_Cancelled, rd) \<Rightarrow> Inl Explicit_Panic)"

section \<open>What the bindings and the host promise\<close>

text \<open>
  \<open>R r p x\<close>: the block at \<open>p\<close> holds the canonical form of \<open>x\<close>. \<open>H r h\<close>: the host has a write pending
  on \<open>h\<close>; it reads the block but leaves it as it is, and cancelling ends the write.
\<close>

definition future_contract ::
    "('p, 'h) future_ops \<Rightarrow> ('h raw \<Rightarrow> addr \<Rightarrow> 'p \<Rightarrow> bool) \<Rightarrow> bool" where
  "future_contract ops R \<longleftrightarrow>
     (\<forall>x p r. R (fo_lower ops x p r) p x) \<and> (\<forall>x p r. R r p x \<longrightarrow> fst (fo_lift ops p r) = x)"

definition future_write_host ::
    "('p, 'h) future_ops \<Rightarrow> ('h raw \<Rightarrow> addr \<Rightarrow> 'p \<Rightarrow> bool) \<Rightarrow> ('h raw \<Rightarrow> u32 \<Rightarrow> bool) \<Rightarrow> bool" where
  "future_write_host ops R H \<longleftrightarrow>
     (\<forall>h p r. fst (fo_start_write ops h p r) \<in> {BLOCKED, COMPLETED, DROPPED, CANCELLED} \<and>
        H (snd (fo_start_write ops h p r)) h \<and> keeps_slots R r (snd (fo_start_write ops h p r))) \<and>
     (\<forall>h r. H r h \<longrightarrow> fst (fo_cancel_write ops h r) \<in> {COMPLETED, DROPPED, CANCELLED} \<and>
        H (snd (fo_cancel_write ops h r)) h \<and> keeps_slots R r (snd (fo_cancel_write ops h r)))"

text \<open>A read ends with a value in the block or is cancelled; the other end cannot have been dropped.\<close>

definition future_read_legal ::
    "('h raw \<Rightarrow> addr \<Rightarrow> 'p \<Rightarrow> bool) \<Rightarrow> addr \<Rightarrow> 'h raw \<Rightarrow> u32 \<Rightarrow> bool" where
  "future_read_legal R p r code \<longleftrightarrow>
     code \<in> {BLOCKED, COMPLETED, CANCELLED} \<and> (code = COMPLETED \<longrightarrow> (\<exists>x. R r p x))"

definition future_read_host ::
    "('p, 'h) future_ops \<Rightarrow> ('h raw \<Rightarrow> addr \<Rightarrow> 'p \<Rightarrow> bool) \<Rightarrow> ('h raw \<Rightarrow> u32 \<Rightarrow> addr \<Rightarrow> bool) \<Rightarrow> bool" where
  "future_read_host ops R H \<longleftrightarrow>
     (\<forall>h p r. future_read_legal R p (snd (fo_start_read ops h p r)) (fst (fo_start_read ops h p r)) \<and>
        H (snd (fo_start_read ops h p r)) h p) \<and>
     (\<forall>h p r. H r h p \<longrightarrow>
        future_read_legal R p (snd (fo_cancel_read ops h r)) (fst (fo_cancel_read ops h r)) \<and>
        fst (fo_cancel_read ops h r) \<noteq> BLOCKED \<and> H (snd (fo_cancel_read ops h r)) h p)"

lemma future_write_hostD:
  assumes "future_write_host ops R H"
  shows "fo_start_write ops h p r = (code, r') \<Longrightarrow>
      code \<in> {BLOCKED, COMPLETED, DROPPED, CANCELLED} \<and> H r' h \<and> keeps_slots R r r'"
    and "H r h \<Longrightarrow> fo_cancel_write ops h r = (code, r') \<Longrightarrow>
      code \<in> {COMPLETED, DROPPED, CANCELLED} \<and> H r' h \<and> keeps_slots R r r'"
proof -
  show "code \<in> {BLOCKED, COMPLETED, DROPPED, CANCELLED} \<and> H r' h \<and> keeps_slots R r r'"
    if "fo_start_write ops h p r = (code, r')"
    using assms [unfolded future_write_host_def, THEN conjunct1, rule_format, of h p r] that by simp
  show "code \<in> {COMPLETED, DROPPED, CANCELLED} \<and> H r' h \<and> keeps_slots R r r'"
    if "H r h" "fo_cancel_write ops h r = (code, r')"
    using assms [unfolded future_write_host_def, THEN conjunct2, rule_format, OF that(1)] that(2) by simp
qed

lemma future_read_hostD:
  assumes "future_read_host ops R H"
  shows "fo_start_read ops h p r = (code, r') \<Longrightarrow> future_read_legal R p r' code \<and> H r' h p"
    and "H r h p \<Longrightarrow> fo_cancel_read ops h r = (code, r') \<Longrightarrow>
      future_read_legal R p r' code \<and> code \<noteq> BLOCKED \<and> H r' h p"
proof -
  show "future_read_legal R p r' code \<and> H r' h p" if "fo_start_read ops h p r = (code, r')"
    using assms [unfolded future_read_host_def, THEN conjunct1, rule_format, of p h r] that by simp
  show "future_read_legal R p r' code \<and> code \<noteq> BLOCKED \<and> H r' h p"
    if "H r h p" "fo_cancel_read ops h r = (code, r')"
    using assms [unfolded future_read_host_def, THEN conjunct2, rule_format, OF that(1)] that(2) by simp
qed

lemma future_read_legal_keep:
  "future_read_legal R p r code \<Longrightarrow> keeps_slots R r r' \<Longrightarrow> future_read_legal R p r' code"
  unfolding future_read_legal_def using keeps_slotsD by fast

lemma future_contractD:
  assumes "future_contract ops R"
  shows "R (fo_lower ops x p r) p x" "R r p x \<Longrightarrow> fst (fo_lift ops p r) = x"
  using assms unfolding future_contract_def by blast+

lemma codes_distinct [simp]:
  "COMPLETED \<noteq> BLOCKED" "DROPPED \<noteq> COMPLETED" "CANCELLED \<noteq> BLOCKED" "CANCELLED \<noteq> COMPLETED"
  "CANCELLED \<noteq> DROPPED" "COMPLETED \<noteq> DROPPED" "COMPLETED \<noteq> CANCELLED" "DROPPED \<noteq> CANCELLED"
  by (simp_all add: code_defs)

lemmas codes_distinct' [simp] = codes_distinct(1,3) [symmetric] dropped_not_blocked [symmetric]

section \<open>A future write keeps the protocol\<close>

text \<open>\<open>v\<close> is the value written, and \<open>L\<close> are the memory calls before the write.\<close>

definition future_write_protocol ::
    "'h allocator \<Rightarrow> ('p, 'h) future_ops \<Rightarrow> ('h raw \<Rightarrow> addr \<Rightarrow> 'p \<Rightarrow> bool) \<Rightarrow> ('h raw \<Rightarrow> u32 \<Rightarrow> bool)
      \<Rightarrow> 'p \<Rightarrow> rt_call list \<Rightarrow> (unit, 'p write_start, write_progress, 'p write_result, 'h) protocol" where
  "future_write_protocol A ops R H v L =
     \<lparr>pr_startable = (\<lambda>(wr, x) s m. never_fails A \<and> future_contract ops R \<and> future_write_host ops R H \<and> x = v \<and>
        mem_calls m = L),
      pr_running = (\<lambda>(wr, c) s m. never_fails A \<and> future_contract ops R \<and> future_write_host ops R H \<and>
        mem_calls m = L @ alloc_calls c @ [Lower (cleanup_ptr c)] \<and>
        R (m_raw m) (cleanup_ptr c) v \<and> H (m_raw m) (fw_handle wr)),
      pr_parked = (\<lambda>i s. True),
      pr_handle = (\<lambda>(wr, c) s. fw_handle wr),
      pr_legal = (\<lambda>i s m code. code \<in> {BLOCKED, COMPLETED, DROPPED, CANCELLED}),
      pr_final = (\<lambda>code. code \<noteq> BLOCKED),
      pr_finished = (\<lambda>(x, wr) s m. x \<in> {Written, Write_Dropped v, Write_Cancelled v} \<and>
        (\<exists>c. mem_calls m = L @ alloc_calls c @ [Lower (cleanup_ptr c),
            if x = Written then Dealloc_Lists (cleanup_ptr c) else Lift (cleanup_ptr c)] @ dealloc_calls c)),
      pr_quiet = (\<lambda>m m'. mem_quiet R m m' \<and> (\<forall>h. H (m_raw m) h \<longrightarrow> H (m_raw m') h))\<rparr>"

lemma future_write_start_ok:
  assumes "pr_startable (future_write_protocol A ops R H v L) a s m"
  shows "\<exists>code i s' m'. future_write_start A ops a (s, m) = Inr ((code, i), s', m') \<and>
    pr_running (future_write_protocol A ops R H v L) i s' m' \<and>
    pr_legal (future_write_protocol A ops R H v L) i s' m' code"
proof -
  obtain wr x where a: "a = (wr, x)" by (cases a)
  note q = assms [unfolded a future_write_protocol_def, simplified]
  obtain p c r where c: "cleanup_new A (fo_layout ops) m = Inr ((p, c), logged (alloc_calls c) r m)" "p = cleanup_ptr c"
    by (rule cleanup_new_ok [OF q [THEN conjunct1], of "fo_layout ops" m]) (rule that)
  obtain code r' where w: "fo_start_write ops (fw_handle wr) p (fo_lower ops x p r) = (code, r')"
    by (cases "fo_start_write ops (fw_handle wr) p (fo_lower ops x p r)")
  have host: "code \<in> {BLOCKED, COMPLETED, DROPPED, CANCELLED}" "H r' (fw_handle wr)"
    "keeps_slots R (fo_lower ops x p r) r'"
    using future_write_hostD(1) [OF _ w] q by blast+
  have "R (fo_lower ops x p r) p x" by (rule future_contractD(1)) (use q in simp)
  then have "R r' p v" using keeps_slotsD [OF host(3)] q by blast
  then show ?thesis
    using q host c(2) w [unfolded c(2)]
    by (simp add: future_write_start_def a c(1) future_write_protocol_def)
qed

lemma future_write_start_writer:
  assumes "future_write_start A ops (raw, v) (s, m) = Inr ((code, i), s', m')"
  shows "fst i = raw"
proof -
  obtain p c m1 where c: "cleanup_new A (fo_layout ops) m = Inr ((p, c), m1)"
    using assms by (auto simp: future_write_start_def res_simps)
  obtain k r where "fo_start_write ops (fw_handle raw) p (fo_lower ops v p (m_raw m1)) = (k, r)"
    by (cases "fo_start_write ops (fw_handle raw) p (fo_lower ops v p (m_raw m1))")
  then show ?thesis using assms c by (auto simp: future_write_start_def)
qed

lemma future_write_update_ok:
  assumes run: "pr_running (future_write_protocol A ops R H v L) i s m"
    and l: "pr_legal (future_write_protocol A ops R H v L) i s m code"
  shows "\<exists>u s' m'. future_write_update A ops i code (s, m) = Inr (u, s', m') \<and>
    (case u of
       Complete x \<Rightarrow> pr_finished (future_write_protocol A ops R H v L) x s' m'
     | Still j \<Rightarrow> code = BLOCKED \<and> j = i \<and> s' = s \<and> m' = m)"
proof -
  obtain wr c where i: "i = (wr, c)" by (cases i)
  note q = run [unfolded i future_write_protocol_def, simplified]
  obtain y r where y: "fo_lift ops (cleanup_ptr c) (m_raw m) = (y, r)"
    by (cases "fo_lift ops (cleanup_ptr c) (m_raw m)")
  have "y = v" using future_contractD(2) [of ops R "m_raw m" "cleanup_ptr c" v] q y by simp
  moreover have "code = BLOCKED \<or> code = COMPLETED \<or> code = DROPPED \<or> code = CANCELLED"
    using l by (simp add: future_write_protocol_def)
  ultimately show ?thesis
    using q y by (elim disjE) (auto simp: future_write_update_def i future_write_protocol_def Let_def)
qed

lemma future_write_cancel_ok:
  assumes run: "pr_running (future_write_protocol A ops R H v L) i s m"
  shows "\<exists>code s' m'. wop_cancel (future_write_op A ops) i (s, m) = Inr (code, s', m') \<and>
    pr_running (future_write_protocol A ops R H v L) i s' m' \<and>
    pr_legal (future_write_protocol A ops R H v L) i s' m' code \<and>
    pr_final (future_write_protocol A ops R H v L) code"
proof -
  obtain wr c where i: "i = (wr, c)" by (cases i)
  note q = run [unfolded i future_write_protocol_def, simplified]
  obtain code r where w: "fo_cancel_write ops (fw_handle wr) (m_raw m) = (code, r)"
    by (cases "fo_cancel_write ops (fw_handle wr) (m_raw m)")
  have host: "code \<in> {COMPLETED, DROPPED, CANCELLED}" "H r (fw_handle wr)" "keeps_slots R (m_raw m) r"
    using future_write_hostD(2) [OF _ _ w] q by blast+
  have "R r (cleanup_ptr c) v" using keeps_slotsD [OF host(3)] q by blast
  then show ?thesis using q host(1,2) w by (auto simp: future_write_op_def i future_write_protocol_def)
qed

lemma future_write_stable:
  assumes "pr_running (future_write_protocol A ops R H v L) i s m"
    and "pr_quiet (future_write_protocol A ops R H v L) m m'"
  shows "pr_running (future_write_protocol A ops R H v L) i s m'"
proof -
  obtain wr c where i: "i = (wr, c)" by (cases i)
  note q = assms [unfolded i future_write_protocol_def mem_quiet_def, simplified]
  have "R (m_raw m') (cleanup_ptr c) v" using keeps_slotsD [of R "m_raw m" "m_raw m'"] q by blast
  then show ?thesis using q by (simp add: i future_write_protocol_def)
qed

interpretation future_write: waitable_protocol "future_write_op A ops" "future_write_protocol A ops R H v L"
  for A and ops :: "('p, 'h) future_ops" and R H v L
proof
  fix a s and m :: "'h machine"
  assume "pr_startable (future_write_protocol A ops R H v L) a s m"
  from future_write_start_ok [OF this]
  show "\<exists>code i s' m'. wop_start (future_write_op A ops) a (s, m) = Inr ((code, i), s', m') \<and>
      pr_running (future_write_protocol A ops R H v L) i s' m' \<and>
      pr_legal (future_write_protocol A ops R H v L) i s' m' code"
    by (simp add: future_write_op_def)
next
  fix i s and m :: "'h machine" and code
  assume *: "pr_running (future_write_protocol A ops R H v L) i s m"
    "pr_legal (future_write_protocol A ops R H v L) i s m code"
  have p: "pr_parked (future_write_protocol A ops R H v L) i s"
    "\<not> pr_final (future_write_protocol A ops R H v L) BLOCKED" by (simp_all add: future_write_protocol_def)
  from future_write_update_ok [OF *] *(1) p
  show "\<exists>u s' m'. wop_update (future_write_op A ops) i code (s, m) = Inr (u, s', m') \<and>
      (case u of
         Complete x \<Rightarrow> pr_finished (future_write_protocol A ops R H v L) x s' m'
       | Still j \<Rightarrow> \<not> pr_final (future_write_protocol A ops R H v L) code \<and>
           pr_running (future_write_protocol A ops R H v L) j s' m' \<and>
           pr_parked (future_write_protocol A ops R H v L) j s' \<and>
           pr_handle (future_write_protocol A ops R H v L) j s' = pr_handle (future_write_protocol A ops R H v L) i s)"
    by (elim exE) (rename_tac u s' m', case_tac u, auto simp: future_write_op_def)
next
  fix i s and m :: "'h machine"
  assume "pr_running (future_write_protocol A ops R H v L) i s m"
  from future_write_cancel_ok [OF this]
  show "\<exists>code s' m'. wop_cancel (future_write_op A ops) i (s, m) = Inr (code, s', m') \<and>
      pr_running (future_write_protocol A ops R H v L) i s' m' \<and>
      pr_legal (future_write_protocol A ops R H v L) i s' m' code \<and>
      pr_final (future_write_protocol A ops R H v L) code \<and>
      pr_handle (future_write_protocol A ops R H v L) i s' = pr_handle (future_write_protocol A ops R H v L) i s"
    by simp
next
  fix i s and m m' :: "'h machine"
  assume "pr_running (future_write_protocol A ops R H v L) i s m" "pr_quiet (future_write_protocol A ops R H v L) m m'"
  then show "pr_running (future_write_protocol A ops R H v L) i s m'" by (rule future_write_stable)
next
  fix x s and m :: "'h machine"
  assume "pr_finished (future_write_protocol A ops R H v L) x s m"
  show "\<exists>c s' m'. wop_into_cancel (future_write_op A ops) x (s, m) = Inr (c, s', m')"
    by (cases x, cases "fst x") (auto simp: future_write_op_def future_write_into_cancel_def)
next
  fix i :: write_progress and s :: unit
  show "wop_waitable (future_write_op A ops) i s = Inr (pr_handle (future_write_protocol A ops R H v L) i s)"
    by (cases i) (simp add: future_write_op_def future_write_protocol_def)
next
  fix a and s :: unit and m :: "'h machine"
  show "\<exists>c s' m'. wop_start_cancelled (future_write_op A ops) a (s, m) = Inr (c, s', m')"
    by (cases a) (simp add: future_write_op_def)
qed (simp add: future_write_protocol_def)

section \<open>A future read keeps the protocol\<close>

definition future_read_protocol ::
    "'h allocator \<Rightarrow> ('p, 'h) future_ops \<Rightarrow> ('h raw \<Rightarrow> addr \<Rightarrow> 'p \<Rightarrow> bool) \<Rightarrow> ('h raw \<Rightarrow> u32 \<Rightarrow> addr \<Rightarrow> bool)
      \<Rightarrow> rt_call list \<Rightarrow> (unit, future_reader, read_progress, 'p read_result, 'h) protocol" where
  "future_read_protocol A ops R H L =
     \<lparr>pr_startable = (\<lambda>rd s m. never_fails A \<and> future_read_host ops R H \<and> fr_handle rd \<noteq> NO_HANDLE \<and>
        mem_calls m = L),
      pr_running = (\<lambda>(rd, c) s m. never_fails A \<and> future_read_host ops R H \<and> fr_handle rd \<noteq> NO_HANDLE \<and>
        mem_calls m = L @ alloc_calls c \<and> H (m_raw m) (fr_handle rd) (cleanup_ptr c)),
      pr_parked = (\<lambda>(rd, c) s. fr_handle rd \<noteq> NO_HANDLE),
      pr_handle = (\<lambda>(rd, c) s. fr_handle rd),
      pr_legal = (\<lambda>(rd, c) s m code. future_read_legal R (cleanup_ptr c) (m_raw m) code),
      pr_final = (\<lambda>code. code \<noteq> BLOCKED),
      pr_finished = (\<lambda>(x, rd) s m. fr_handle rd \<noteq> NO_HANDLE \<and> (\<exists>c. mem_calls m = L @ alloc_calls c @
        (if x = Read_Cancelled then [] else [Lift (cleanup_ptr c)]) @ dealloc_calls c)),
      pr_quiet = (\<lambda>m m'. mem_quiet R m m' \<and> (\<forall>h p. H (m_raw m) h p \<longrightarrow> H (m_raw m') h p))\<rparr>"

lemma decode_small [simp]:
  "decode_return COMPLETED = Inr (Completed 0)" "decode_return CANCELLED = Inr (Cancelled 0)"
  using decode_pack(1,3) [of 0] by (simp_all add: pack_def)

lemma future_read_start_ok:
  assumes "pr_startable (future_read_protocol A ops R H L) rd s m"
  shows "\<exists>code i s' m'. future_read_start A ops rd (s, m) = Inr ((code, i), s', m') \<and>
    pr_running (future_read_protocol A ops R H L) i s' m' \<and>
    pr_legal (future_read_protocol A ops R H L) i s' m' code"
proof -
  note q = assms [unfolded future_read_protocol_def, simplified]
  obtain p c r where c: "cleanup_new A (fo_layout ops) m = Inr ((p, c), logged (alloc_calls c) r m)" "p = cleanup_ptr c"
    by (rule cleanup_new_ok [OF q [THEN conjunct1], of "fo_layout ops" m]) (rule that)
  obtain code r' where w: "fo_start_read ops (fr_handle rd) p r = (code, r')"
    by (cases "fo_start_read ops (fr_handle rd) p r")
  have host: "future_read_legal R p r' code" "H r' (fr_handle rd) p"
    using future_read_hostD(1) [OF _ w] q by blast+
  then show ?thesis
    using q host c(2) w [unfolded c(2)]
    by (simp add: future_read_start_def c(1) future_read_protocol_def)
qed

lemma future_read_update_ok:
  assumes run: "pr_running (future_read_protocol A ops R H L) i s m"
    and l: "pr_legal (future_read_protocol A ops R H L) i s m code"
  shows "\<exists>u s' m'. future_read_update A ops i code (s, m) = Inr (u, s', m') \<and>
    (case u of
       Complete x \<Rightarrow> pr_finished (future_read_protocol A ops R H L) x s' m'
     | Still j \<Rightarrow> code = BLOCKED \<and> j = i \<and> s' = s \<and> m' = m)"
proof -
  obtain rd c where i: "i = (rd, c)" by (cases i)
  note q = run [unfolded i future_read_protocol_def, simplified]
  obtain y r where y: "fo_lift ops (cleanup_ptr c) (m_raw m) = (y, r)"
    by (cases "fo_lift ops (cleanup_ptr c) (m_raw m)")
  have "code = BLOCKED \<or> code = COMPLETED \<or> code = CANCELLED"
    using l by (simp add: i future_read_protocol_def future_read_legal_def)
  then show ?thesis
    using q y by (elim disjE) (auto simp: future_read_update_def i future_read_protocol_def Let_def)
qed

lemma future_read_cancel_ok:
  assumes run: "pr_running (future_read_protocol A ops R H L) i s m"
  shows "\<exists>code s' m'. wop_cancel (future_read_op A ops) i (s, m) = Inr (code, s', m') \<and>
    pr_running (future_read_protocol A ops R H L) i s' m' \<and>
    pr_legal (future_read_protocol A ops R H L) i s' m' code \<and>
    pr_final (future_read_protocol A ops R H L) code"
proof -
  obtain rd c where i: "i = (rd, c)" by (cases i)
  note q = run [unfolded i future_read_protocol_def, simplified]
  obtain code r where w: "fo_cancel_read ops (fr_handle rd) (m_raw m) = (code, r)"
    by (cases "fo_cancel_read ops (fr_handle rd) (m_raw m)")
  have "future_read_legal R (cleanup_ptr c) r code \<and> code \<noteq> BLOCKED \<and> H r (fr_handle rd) (cleanup_ptr c)"
    by (rule future_read_hostD(2) [OF _ _ w]) (use q in simp_all)
  then show ?thesis using q w by (simp add: future_read_op_def i future_read_protocol_def)
qed

interpretation future_read: waitable_protocol "future_read_op A ops" "future_read_protocol A ops R H L"
  for A and ops :: "('p, 'h) future_ops" and R H L
proof
  fix a s and m :: "'h machine"
  assume "pr_startable (future_read_protocol A ops R H L) a s m"
  from future_read_start_ok [OF this]
  show "\<exists>code i s' m'. wop_start (future_read_op A ops) a (s, m) = Inr ((code, i), s', m') \<and>
      pr_running (future_read_protocol A ops R H L) i s' m' \<and>
      pr_legal (future_read_protocol A ops R H L) i s' m' code"
    by (simp add: future_read_op_def)
next
  fix i s and m :: "'h machine" and code
  assume *: "pr_running (future_read_protocol A ops R H L) i s m"
    "pr_legal (future_read_protocol A ops R H L) i s m code"
  have p: "pr_parked (future_read_protocol A ops R H L) i s"
    "\<not> pr_final (future_read_protocol A ops R H L) BLOCKED"
    using *(1) by (cases i, simp_all add: future_read_protocol_def)
  from future_read_update_ok [OF *] *(1) p
  show "\<exists>u s' m'. wop_update (future_read_op A ops) i code (s, m) = Inr (u, s', m') \<and>
      (case u of
         Complete x \<Rightarrow> pr_finished (future_read_protocol A ops R H L) x s' m'
       | Still j \<Rightarrow> \<not> pr_final (future_read_protocol A ops R H L) code \<and>
           pr_running (future_read_protocol A ops R H L) j s' m' \<and>
           pr_parked (future_read_protocol A ops R H L) j s' \<and>
           pr_handle (future_read_protocol A ops R H L) j s' = pr_handle (future_read_protocol A ops R H L) i s)"
    by (elim exE) (rename_tac u s' m', case_tac u, auto simp: future_read_op_def)
next
  fix i s and m :: "'h machine"
  assume "pr_running (future_read_protocol A ops R H L) i s m"
  from future_read_cancel_ok [OF this]
  show "\<exists>code s' m'. wop_cancel (future_read_op A ops) i (s, m) = Inr (code, s', m') \<and>
      pr_running (future_read_protocol A ops R H L) i s' m' \<and>
      pr_legal (future_read_protocol A ops R H L) i s' m' code \<and>
      pr_final (future_read_protocol A ops R H L) code \<and>
      pr_handle (future_read_protocol A ops R H L) i s' = pr_handle (future_read_protocol A ops R H L) i s"
    by simp
next
  fix i s and m m' :: "'h machine"
  assume "pr_running (future_read_protocol A ops R H L) i s m" "pr_quiet (future_read_protocol A ops R H L) m m'"
  then show "pr_running (future_read_protocol A ops R H L) i s m'"
    by (cases i) (simp add: future_read_protocol_def mem_quiet_def)
next
  fix x s and m :: "'h machine"
  assume "pr_finished (future_read_protocol A ops R H L) x s m"
  show "\<exists>c s' m'. wop_into_cancel (future_read_op A ops) x (s, m) = Inr (c, s', m')"
    by (cases x, cases "fst x") (auto simp: future_read_op_def future_read_into_cancel_def)
next
  fix i :: read_progress and s :: unit
  assume "pr_parked (future_read_protocol A ops R H L) i s"
  then show "wop_waitable (future_read_op A ops) i s = Inr (pr_handle (future_read_protocol A ops R H L) i s)"
    by (cases i) (simp add: future_read_op_def future_read_protocol_def opt_handle_def)
next
  fix i s and m m' :: "'h machine" and code
  assume "pr_legal (future_read_protocol A ops R H L) i s m code" "pr_quiet (future_read_protocol A ops R H L) m m'"
  then show "pr_legal (future_read_protocol A ops R H L) i s m' code"
    by (cases i) (auto simp: future_read_protocol_def mem_quiet_def intro: future_read_legal_keep)
qed (simp add: future_read_op_def)

end
