(* ===== verification/Rt_Future_Writer.thy ===== *)
theory Rt_Future_Writer
  imports Rt_Future
begin

text \<open>
  The typed \<open>FutureWriter\<close> and \<open>FutureWrite\<close> of \<open>future_support.rs\<close>, which never leave a future
  without a value: a writer that is dropped unused writes its default value in the background, driven
  by a waker of its own (\<open>DeferredWrite\<close>).
\<close>

section \<open>The background write\<close>

type_synonym ('p, 'h) write_run = "(unit, 'p write_start, write_progress, 'h) run"
type_synonym 'p write_operation = "(unit, 'p write_start, write_progress) operation"

text \<open>
  \<open>DeferredWrite::wake\<close>. The waker \<open>n\<close> owns the operation; besides \<open>self\<close>, only the cell of the
  operation can hold a clone of it, which is what the assertions on the reference count say. \<open>True\<close> is
  returned when the write has ended, and then everything is dropped.
\<close>

definition deferred_wake ::
    "'h allocator \<Rightarrow> ('p, 'h) future_ops \<Rightarrow> 'h rt_env \<Rightarrow> nat \<Rightarrow> ('p, 'h) write_run
      \<Rightarrow> (bool \<times> ('p, 'h) write_run) res" where
  "deferred_wake A ops E n s =
     and_then (future_write_poll A ops E (Other_Waker n) s) (\<lambda>(ready, o1, w).
       let held = (cs_waker (w_cells w (wo_cell o1)) = Some (Other_Waker n)) in
       case ready of
         Some _ \<Rightarrow>
           if held then Inl Assert_Failed
           else and_then (operation_drop (future_write_op A ops) E (o1, w)) (\<lambda>(_, s). Inr (True, s))
       | None \<Rightarrow> if held then Inr (False, o1, w) else Inl Assert_Failed)"

definition write_and_forget ::
    "'h allocator \<Rightarrow> ('p, 'h) future_ops \<Rightarrow> 'h rt_env \<Rightarrow> nat \<Rightarrow> addr \<Rightarrow> future_writer \<Rightarrow> 'p \<Rightarrow> 'h rt_world
      \<Rightarrow> (bool \<times> ('p, 'h) write_run) res" where
  "write_and_forget A ops E n c raw v w = deferred_wake A ops E n (operation_new () (raw, v) c w)"

section \<open>The typed writer\<close>

record 'p typed_writer =
  tw_raw :: future_writer
  tw_should_write_default :: bool
  tw_default :: 'p

definition typed_writer_new :: "future_writer \<Rightarrow> 'p \<Rightarrow> 'p typed_writer" where
  "typed_writer_new raw d = \<lparr>tw_raw = raw, tw_should_write_default = True, tw_default = d\<rparr>"

definition future_new ::
    "('p, 'h) future_ops \<Rightarrow> 'p \<Rightarrow> 'h machine \<Rightarrow> ('p typed_writer \<times> future_reader) \<times> 'h machine" where
  "future_new ops d m = (let ((tx, rx), m) = raw_future_new ops m in ((typed_writer_new tx d, rx), m))"

text \<open>Writing takes the writer apart without dropping it; the default goes along for a cancellation.\<close>

definition typed_write ::
    "'p typed_writer \<Rightarrow> 'p \<Rightarrow> addr \<Rightarrow> 'h rt_world \<Rightarrow> 'p \<times> ('p, 'h) write_run" where
  "typed_write tw v c w = (tw_default tw, operation_new () (tw_raw tw, v) c w)"

text \<open>Dropping a writer gives the operation that is left running in the background, if any.\<close>

definition typed_writer_drop ::
    "'h allocator \<Rightarrow> ('p, 'h) future_ops \<Rightarrow> 'h rt_env \<Rightarrow> nat \<Rightarrow> addr \<Rightarrow> 'p typed_writer \<Rightarrow> 'h rt_world
      \<Rightarrow> ('p write_operation option \<times> 'h rt_world) res" where
  "typed_writer_drop A ops E n c tw w =
     (if tw_should_write_default tw then
        and_then (write_and_forget A ops E n c (tw_raw tw) (tw_default tw) w) (\<lambda>(ended, o1, w).
          Inr (if ended then None else Some o1, w))
      else Inr (None, on_mach (future_writer_drop ops (tw_raw tw)) w))"

datatype 'p typed_cancel = Typed_Already_Sent | Typed_Dropped 'p | Typed_Cancelled 'p "'p typed_writer"

definition typed_write_cancel ::
    "'h allocator \<Rightarrow> ('p, 'h) future_ops \<Rightarrow> 'h rt_env \<Rightarrow> 'p \<Rightarrow> ('p, 'h) write_run
      \<Rightarrow> ('p typed_cancel \<times> ('p, 'h) write_run) res" where
  "typed_write_cancel A ops E d s =
     and_then (cancel (future_write_op A ops) E s) (\<lambda>(c, s).
       Inr (case c of
           Already_Sent \<Rightarrow> Typed_Already_Sent
         | Cancel_Dropped v \<Rightarrow> Typed_Dropped v
         | Cancel_Cancelled v raw \<Rightarrow> Typed_Cancelled v (typed_writer_new raw d), s))"

text \<open>
  \<open>Drop for FutureWrite\<close>: cancel what is pending; the writer that a cancellation gives back is dropped
  on the spot and so writes the default. Then the operation itself is dropped as a field.
\<close>

definition typed_write_drop ::
    "'h allocator \<Rightarrow> ('p, 'h) future_ops \<Rightarrow> 'h rt_env \<Rightarrow> nat \<Rightarrow> addr \<Rightarrow> 'p \<Rightarrow> ('p, 'h) write_run
      \<Rightarrow> ('p write_operation option \<times> 'h rt_world) res" where
  "typed_write_drop A ops E n c d = (\<lambda>(o1, w).
     and_then
       (if is_done o1 then Inr (None, o1, w)
        else and_then (typed_write_cancel A ops E d (o1, w)) (\<lambda>(x, o1, w).
          case x of
            Typed_Cancelled v tw \<Rightarrow>
              and_then (typed_writer_drop A ops E n c tw w) (\<lambda>(bg, w). Inr (bg, o1, w))
          | _ \<Rightarrow> Inr (None, o1, w)))
       (\<lambda>(bg, s). and_then (operation_drop (future_write_op A ops) E s) (\<lambda>(_, o1, w). Inr (bg, w))))"

section \<open>The background write keeps its promises\<close>

text \<open>Dropping the writer end is quiet to every other operation, and to the waitable sets.\<close>

lemma dropped_writer_same [simp]:
  "registered_at (on_mach f w) c = registered_at w c"
  "detached o1 (on_mach f w) = detached o1 w"
  by (simp_all add: registered_at_def detached_def)

lemma operation_drop_done:
  assumes E: "quiet_env E Q" and "wo_state o1 = Done" "detached o1 w"
  shows "\<exists>o2 w2. operation_drop W E (o1, w) = Inr (None, o2, w2) \<and> is_done o2 \<and> wo_task o2 = None \<and>
    registered_at w2 (wo_cell o1) = {} \<and> w_current w2 = w_current w \<and> only_registers Q w w2"
proof (cases "wo_task o1")
  case None
  then show ?thesis using assms(2,3) by (simp add: operation_drop_def is_done_def detached_def)
next
  case (Some ct)
  have "only_registers Q w (cabi_task_drop E ct w) \<and> waitables_of (cabi_task_drop E ct w) = waitables_of w"
    using cabi_task_drop_effect [OF E, of ct w] assms(3) Some by (simp add: detached_def)
  then show ?thesis
    using assms(2,3) Some by (auto simp: operation_drop_def is_done_def detached_def registered_at_def only_registers_def)
qed

text \<open>The memory calls of a write that has ended: the value was sent, or lifted back.\<close>

definition write_calls :: "cleanup option \<times> bool \<Rightarrow> rt_call list" where
  "write_calls = (\<lambda>(c, sent). alloc_calls c @ [Lower (cleanup_ptr c),
     if sent then Dealloc_Lists (cleanup_ptr c) else Lift (cleanup_ptr c)] @ dealloc_calls c)"

lemma future_finished_calls:
  assumes "pr_finished (future_write_protocol A ops R H v L) (x, wr) s m"
  shows "\<exists>b. mem_calls m = L @ write_calls b"
proof -
  obtain c where "mem_calls m = L @ alloc_calls c @ [Lower (cleanup_ptr c),
      if x = Written then Dealloc_Lists (cleanup_ptr c) else Lift (cleanup_ptr c)] @ dealloc_calls c"
    using assms by (auto simp: future_write_protocol_def)
  then show ?thesis by (intro exI [of _ "(c, x = Written)"]) (simp add: write_calls_def)
qed

lemma quiet_mem_calls:
  "(pr_quiet (future_write_protocol A ops R H v L))\<^sup>*\<^sup>* m m' \<Longrightarrow> mem_calls m' = mem_calls m"
  by (induction rule: rtranclp_induct) (simp_all add: future_write_protocol_def mem_quiet_def)

lemma mem_calls_writer_drop [simp]: "mem_calls (future_writer_drop ops wr m) = mem_calls m"
  by (simp add: future_writer_drop_def)

lemma deferred_wake_ok:
  fixes A :: "'h allocator" and ops :: "('p, 'h) future_ops"
  assumes E: "quiet_env E (pr_quiet (future_write_protocol A ops R H v L))"
    and inv: "op_inv (future_write_op A ops) (future_write_protocol A ops R H v L) (o1, w)" and nd: "\<not> is_done o1"
    and cur: "w_current w = Some (t, ver)" "2 \<le> ver"
  shows "\<exists>fin o2 w2. deferred_wake A ops E n (o1, w) = Inr (fin, o2, w2) \<and> w_current w2 = w_current w \<and>
    wo_cell o2 = wo_cell o1 \<and>
    (if fin then is_done o2 \<and> wo_task o2 = None \<and> registered_at w2 (wo_cell o1) = {} \<and>
       (\<exists>b. mem_calls (w_mach w2) = L @ write_calls b)
     else \<not> is_done o2 \<and> cs_waker (w_cells w2 (wo_cell o1)) = Some (Other_Waker n) \<and>
       op_inv (future_write_op A ops) (future_write_protocol A ops R H v L) (o2, w2))"
proof -
  let ?W = "future_write_op A ops" and ?P = "future_write_protocol A ops R H v L"
  obtain x o2 w2 where p: "poll_complete ?W E (Other_Waker n) (o1, w) = Inr (x, o2, w2)"
    "op_inv ?W ?P (o2, w2)" "is_done o2 \<longleftrightarrow> x \<noteq> None" "wo_cell o2 = wo_cell o1" "w_current w2 = w_current w"
    "cs_waker (w_cells w2 (wo_cell o2)) = (if x = None then Some (Other_Waker n) else None)"
    "\<forall>y. x = Some y \<longrightarrow> pr_finished ?P y (wo_op o2) (w_mach w2)"
    using future_write.poll_complete_ok [OF E inv nd cur, of "Other_Waker n"] by blast
  show ?thesis
  proof (cases x)
    case None
    then show ?thesis
      using p by (intro exI [of _ False] exI [of _ o2] exI [of _ w2])
        (simp add: deferred_wake_def future_write_poll_def)
  next
    case (Some z)
    obtain y raw where z: "z = (y, raw)" by (cases z)
    let ?w = "on_mach (future_writer_drop ops raw) w2"
    have "wo_state o2 = Done" "detached o2 ?w"
      using p(2,3) Some by (auto simp: is_done_def op_inv_def split: op_state.splits)
    from operation_drop_done [OF E this] obtain o3 w3 where
      d: "operation_drop ?W E (o2, ?w) = Inr (None, o3, w3)" "is_done o3" "wo_task o3 = None"
      "registered_at w3 (wo_cell o2) = {}" "w_current w3 = w_current ?w" "only_registers (pr_quiet ?P) ?w w3"
      by blast
    obtain b where "mem_calls (w_mach w2) = L @ write_calls b"
      using future_finished_calls [of A ops R H v L y raw "wo_op o2" "w_mach w2"] p(7) Some z by blast
    then have calls: "mem_calls (w_mach w3) = L @ write_calls b"
      using quiet_mem_calls [OF only_registersD(1) [OF d(6)]] by simp
    have "wo_cell o3 = wo_cell o2"
      using d(1) by (auto simp: operation_drop_def res_simps is_done_def dest: sym split: if_splits op_state.splits)
    then show ?thesis
      using p(1,4-6) Some z d(1-5) exI [of "\<lambda>b. mem_calls (w_mach w3) = L @ write_calls b", OF calls]
      by (intro exI [of _ True] exI [of _ o3] exI [of _ w3])
        (simp add: deferred_wake_def future_write_poll_def del: split_paired_Ex)
  qed
qed

lemma write_and_forget_ok:
  fixes A :: "'h allocator" and ops :: "('p, 'h) future_ops"
  assumes E: "quiet_env E (pr_quiet (future_write_protocol A ops R H v L))"
    and start: "pr_startable (future_write_protocol A ops R H v L) (raw, v) () (w_mach w)"
    and c: "c \<noteq> 0" "registered_at w c = {}" and free: "\<And>t. waitables_of w t (fw_handle raw) = None"
    and cur: "w_current w = Some (t, ver)" "2 \<le> ver"
  shows "\<exists>fin o2 w2. write_and_forget A ops E n c raw v w = Inr (fin, o2, w2) \<and> w_current w2 = w_current w \<and>
    (if fin then is_done o2 \<and> wo_task o2 = None \<and> registered_at w2 c = {} \<and>
       (\<exists>b. mem_calls (w_mach w2) = L @ write_calls b)
     else \<not> is_done o2 \<and> cs_waker (w_cells w2 c) = Some (Other_Waker n) \<and>
       op_inv (future_write_op A ops) (future_write_protocol A ops R H v L) (o2, w2))"
proof -
  let ?W = "future_write_op A ops" and ?P = "future_write_protocol A ops R H v L"
  obtain o1 :: "'p write_operation" and w1 where o1: "operation_new () (raw, v) c w = (o1, w1)" "\<not> is_done o1" "wo_cell o1 = c"
    "w_current w1 = w_current w"
    by (simp add: operation_new_def is_done_def)
  have "op_inv ?W ?P (operation_new () (raw, v) c w)"
  proof (rule future_write.operation_new_ok)
    fix code i s' m assume st: "wop_start ?W (raw, v) ((), w_mach w) = Inr ((code, i), s', m)"
    have "fst i = raw"
      using st future_write_start_writer by (simp add: future_write_op_def)
    then show "\<forall>t. waitables_of w t (pr_handle ?P i s') = None"
      using free by (cases i) (simp add: future_write_protocol_def)
  qed (use start c in simp_all)
  then have inv: "op_inv ?W ?P (o1, w1)" by (simp add: o1(1))
  have "w_current w1 = Some (t, ver)" using o1(4) cur(1) by simp
  from deferred_wake_ok [OF E inv o1(2) this cur(2), of n] show ?thesis
    unfolding write_and_forget_def o1(1,3,4) by blast
qed

end
