(* ===== verification/Rt_Subtask.thy ===== *)
theory Rt_Subtask
  imports Rt_Lifecycle
begin

text \<open>
  \<open>subtask.rs\<close>: a call of an asynchronous import. Its parameters and results share a block; the lists
  of the parameters are freed exactly once, when the callee has received them or is known never to.
\<close>

section \<open>The trait and the intrinsics\<close>

record ('par, 'low, 'res, 'h) subtask_ops =
  st_layout :: layout
  st_results_offset :: nat
  st_call_import :: "'low \<Rightarrow> addr \<Rightarrow> 'h raw \<Rightarrow> u32 \<times> 'h raw"
  st_params_lower :: "'par \<Rightarrow> addr \<Rightarrow> 'h raw \<Rightarrow> 'low \<times> 'h raw"
  st_params_dealloc_lists :: "'low \<Rightarrow> 'h raw \<Rightarrow> 'h raw"
  st_params_dealloc_lists_and_own :: "'low \<Rightarrow> 'h raw \<Rightarrow> 'h raw"
  st_results_lift :: "addr \<Rightarrow> 'h raw \<Rightarrow> 'res \<times> 'h raw"
  st_cancel :: "u32 \<Rightarrow> 'h raw \<Rightarrow> u32 \<times> 'h raw"
  st_drop :: "u32 \<Rightarrow> 'h raw \<Rightarrow> 'h raw"

section \<open>The operation\<close>

record 'low in_progress =
  ip_cleanup :: "cleanup option"
  ip_lower :: 'low
  ip_started :: bool
  ip_subtask :: "u32 option"

definition subtask_start ::
    "'h allocator \<Rightarrow> ('par, 'low, 'res, 'h) subtask_ops \<Rightarrow> 'par \<Rightarrow> unit \<times> 'h machine
      \<Rightarrow> ((u32 \<times> 'low in_progress) \<times> unit \<times> 'h machine) res" where
  "subtask_start A T params = (\<lambda>(s, m).
     and_then (cleanup_new A (st_layout T) m) (\<lambda>((p, c), m).
       let results = p + st_results_offset T;
           (low, r) = st_params_lower T params p (m_raw m);
           (packed, r) = st_call_import T low results r;
           code = packed AND 0xf; h = drop_bit 4 packed in
       Inr ((code, \<lparr>ip_cleanup = c, ip_lower = low, ip_started = False,
               ip_subtask = (if h = 0 then None else Some h)\<rparr>),
         s, logged [Lower p, Call_Import p results packed] r m)))"

definition flag_started ::
    "('par, 'low, 'res, 'h) subtask_ops \<Rightarrow> 'low in_progress \<Rightarrow> 'h machine
      \<Rightarrow> ('low in_progress \<times> 'h machine) res" where
  "flag_started T i m =
     (if ip_started i then Inl Assert_Failed
      else Inr (i\<lparr>ip_started := True\<rparr>,
        logged [Params_Dealloc_Lists] (st_params_dealloc_lists T (ip_lower i) (m_raw m)) m))"

definition ptr_results :: "('par, 'low, 'res, 'h) subtask_ops \<Rightarrow> 'low in_progress \<Rightarrow> addr" where
  "ptr_results T i = cleanup_ptr (ip_cleanup i) + st_results_offset T"

text \<open>Dropping the state: the block, then the handle.\<close>

definition drop_in_progress ::
    "'h allocator \<Rightarrow> ('par, 'low, 'res, 'h) subtask_ops \<Rightarrow> 'low in_progress \<Rightarrow> 'h machine \<Rightarrow> 'h machine" where
  "drop_in_progress A T i m =
     (let m = drop_cleanup A (ip_cleanup i) m in
      case ip_subtask i of
        None \<Rightarrow> m
      | Some h \<Rightarrow> logged [Subtask_Drop h] (st_drop T h (m_raw m)) m)"

definition subtask_update ::
    "'h allocator \<Rightarrow> ('par, 'low, 'res, 'h) subtask_ops \<Rightarrow> 'low in_progress \<Rightarrow> u32 \<Rightarrow> unit \<times> 'h machine
      \<Rightarrow> (('res option, 'low in_progress) update \<times> unit \<times> 'h machine) res" where
  "subtask_update A T i code = (\<lambda>(s, m).
     if code = STATUS_STARTING then
       (if ip_started i then Inl Assert_Failed else Inr (Still i, s, m))
     else if code = STATUS_STARTED then
       and_then (flag_started T i m) (\<lambda>(i, m). Inr (Still i, s, m))
     else if code = STATUS_RETURNED then
       and_then (if ip_started i then Inr (i, m) else flag_started T i m) (\<lambda>(i, m).
         let (x, r) = st_results_lift T (ptr_results T i) (m_raw m) in
         Inr (Complete (Some x), s, drop_in_progress A T i (logged [Lift (ptr_results T i)] r m)))
     else if code = STATUS_STARTED_CANCELLED then
       (if ip_started i then Inl Assert_Failed
        else Inr (Complete None, s,
          drop_in_progress A T i
            (logged [Params_Dealloc_Lists_And_Own] (st_params_dealloc_lists_and_own T (ip_lower i) (m_raw m)) m)))
     else if code = STATUS_RETURNED_CANCELLED then
       and_then (if ip_started i then Inr (i, m) else flag_started T i m) (\<lambda>(i, m).
         Inr (Complete None, s, drop_in_progress A T i m))
     else Inl Explicit_Panic)"

definition subtask_op ::
    "'h allocator \<Rightarrow> ('par, 'low, 'res, 'h) subtask_ops
      \<Rightarrow> (unit, 'par, 'low in_progress, 'res option, 'res option, 'h) waitable_op" where
  "subtask_op A T =
     \<lparr>wop_start = subtask_start A T,
      wop_update = subtask_update A T,
      wop_start_cancelled = (\<lambda>params (s, m). Inr (None, s, m)),
      wop_waitable = (\<lambda>i s. unwrap (ip_subtask i)),
      wop_cancel = (\<lambda>i (s, m).
        and_then (unwrap (ip_subtask i)) (\<lambda>h.
          let (code, r) = st_cancel T h (m_raw m) in Inr (code, s, logged [Subtask_Cancel h code] r m))),
      wop_into_cancel = (\<lambda>x (s, m). Inr (x, s, m))\<rparr>"

text \<open>\<open>Subtask::call\<close>: the only cancellation is the one that dropping the future makes.\<close>

definition subtask_call_poll ::
    "'h allocator \<Rightarrow> ('par, 'low, 'res, 'h) subtask_ops \<Rightarrow> 'h rt_env \<Rightarrow> waker
      \<Rightarrow> (unit, 'par, 'low in_progress, 'h) run
      \<Rightarrow> ('res option \<times> (unit, 'par, 'low in_progress, 'h) run) res" where
  "subtask_call_poll A T E k s =
     and_then (poll_complete (subtask_op A T) E k s) (\<lambda>(ready, o1, w).
       case ready of
         None \<Rightarrow> Inr (None, o1, w)
       | Some None \<Rightarrow> Inl Unreachable_Code
       | Some (Some x) \<Rightarrow> Inr (Some x, o1, w))"

section \<open>What the host promises\<close>

text \<open>
  \<open>K r h b\<close>: the host has a subtask \<open>h\<close>, and has started it if \<open>b\<close>. The statuses of a call that has
  started never go back, cancelling always ends it, and freeing lists is no concern of the host.
\<close>

definition status_after :: "bool \<Rightarrow> u32 \<Rightarrow> bool" where
  "status_after b code \<longleftrightarrow>
     code \<in> {STATUS_RETURNED, STATUS_RETURNED_CANCELLED} \<or> (\<not> b \<and> code = STATUS_STARTED_CANCELLED)"

definition subtask_host ::
    "('par, 'low, 'res, 'h) subtask_ops \<Rightarrow> ('h raw \<Rightarrow> u32 \<Rightarrow> bool \<Rightarrow> bool) \<Rightarrow> bool" where
  "subtask_host T K \<longleftrightarrow>
     (\<forall>low p r. let (packed, r') = st_call_import T low p r in
        (packed AND 0xf = STATUS_RETURNED \<and> drop_bit 4 packed = 0) \<or>
        (packed AND 0xf \<in> {STATUS_STARTING, STATUS_STARTED} \<and> drop_bit 4 packed \<noteq> 0 \<and>
         K r' (drop_bit 4 packed) (packed AND 0xf = STATUS_STARTED))) \<and>
     (\<forall>h b r. K r h b \<longrightarrow> (let (code, r') = st_cancel T h r in status_after b code \<and> K r' h b)) \<and>
     (\<forall>low h b r. K r h b \<longrightarrow> K (st_params_dealloc_lists T low r) h b)"

section \<open>A call keeps the protocol\<close>

text \<open>
  \<open>L\<close> are the memory calls before the call. Whatever its end, the parameters were lowered once, their
  lists were freed once, the block was freed once and a handle, if there is one, was dropped once.
\<close>

definition subtask_handle :: "'low in_progress \<Rightarrow> u32" where
  "subtask_handle i = (case ip_subtask i of None \<Rightarrow> 0 | Some h \<Rightarrow> h)"

definition subtask_calls :: "'low in_progress \<Rightarrow> rt_call list" where
  "subtask_calls i = alloc_calls (ip_cleanup i) @ [Lower (cleanup_ptr (ip_cleanup i))]"

definition end_calls :: "('par, 'low, 'res, 'h) subtask_ops \<Rightarrow> 'low in_progress \<Rightarrow> 'res option \<Rightarrow> rt_call list" where
  "end_calls T i x = (case x of None \<Rightarrow> [] | Some _ \<Rightarrow> [Lift (ptr_results T i)]) @
     dealloc_calls (ip_cleanup i) @ (case ip_subtask i of None \<Rightarrow> [] | Some h \<Rightarrow> [Subtask_Drop h])"

definition subtask_protocol ::
    "'h allocator \<Rightarrow> ('par, 'low, 'res, 'h) subtask_ops \<Rightarrow> ('h raw \<Rightarrow> u32 \<Rightarrow> bool \<Rightarrow> bool) \<Rightarrow> rt_call list
      \<Rightarrow> (unit, 'par, 'low in_progress, 'res option, 'h) protocol" where
  "subtask_protocol A T K L =
     \<lparr>pr_startable = (\<lambda>p s m. never_fails A \<and> subtask_host T K \<and> mem_calls m = L),
      pr_running = (\<lambda>i s m. never_fails A \<and> subtask_host T K \<and>
        mem_calls m = L @ subtask_calls i @ (if ip_started i then [Params_Dealloc_Lists] else []) \<and>
        (case ip_subtask i of
           None \<Rightarrow> \<not> ip_started i
         | Some h \<Rightarrow> \<exists>b. K (m_raw m) h b \<and> (ip_started i \<longrightarrow> b))),
      pr_parked = (\<lambda>i s. ip_subtask i \<noteq> None),
      pr_handle = (\<lambda>i s. subtask_handle i),
      pr_legal = (\<lambda>i s m code.
        (ip_subtask i = None \<longrightarrow> code = STATUS_RETURNED) \<and>
        (code = STATUS_STARTING \<and> \<not> ip_started i \<or>
         code = STATUS_STARTED \<and> \<not> ip_started i \<and> K (m_raw m) (subtask_handle i) True \<or>
         status_after (ip_started i) code)),
      pr_final = (\<lambda>code. code \<noteq> STATUS_STARTING \<and> code \<noteq> STATUS_STARTED),
      pr_finished = (\<lambda>x s m. \<exists>i own. (own \<longrightarrow> x = None) \<and>
        mem_calls m = L @ subtask_calls i @
          [if own then Params_Dealloc_Lists_And_Own else Params_Dealloc_Lists] @ end_calls T i x),
      pr_quiet = (\<lambda>m m'. mem_calls m' = mem_calls m \<and>
        (\<forall>h b. K (m_raw m) h b \<longrightarrow> (\<exists>b'. (b \<longrightarrow> b') \<and> K (m_raw m') h b')))\<rparr>"

lemma subtask_fields [simp]:
  "pr_final (subtask_protocol A T K L) code \<longleftrightarrow> code \<noteq> STATUS_STARTING \<and> code \<noteq> STATUS_STARTED"
  "pr_parked (subtask_protocol A T K L) i s \<longleftrightarrow> ip_subtask i \<noteq> None"
  "pr_handle (subtask_protocol A T K L) i s = subtask_handle i"
  by (simp_all add: subtask_protocol_def)

lemma status_distinct [simp]:
  "STATUS_STARTING \<noteq> STATUS_STARTED" "STATUS_STARTED \<noteq> STATUS_STARTING"
  "STATUS_RETURNED \<noteq> STATUS_STARTING" "STATUS_RETURNED \<noteq> STATUS_STARTED"
  "STATUS_STARTED_CANCELLED \<noteq> STATUS_STARTING" "STATUS_STARTED_CANCELLED \<noteq> STATUS_STARTED"
  "STATUS_STARTED_CANCELLED \<noteq> STATUS_RETURNED" "STATUS_RETURNED_CANCELLED \<noteq> STATUS_STARTING"
  "STATUS_RETURNED_CANCELLED \<noteq> STATUS_STARTED" "STATUS_RETURNED_CANCELLED \<noteq> STATUS_RETURNED"
  "STATUS_RETURNED_CANCELLED \<noteq> STATUS_STARTED_CANCELLED"
  by (simp_all add: status_defs)

lemmas status_distinct' [simp] = status_distinct [symmetric]

lemma status_after_mono: "status_after b code \<Longrightarrow> (c \<longrightarrow> b) \<Longrightarrow> status_after c code"
  by (auto simp: status_after_def)

lemma status_after_final: "status_after b code \<Longrightarrow> code \<noteq> STATUS_STARTING \<and> code \<noteq> STATUS_STARTED"
  by (auto simp: status_after_def)

lemma subtask_hostD:
  assumes "subtask_host T K"
  shows "st_call_import T low p r = (packed, r') \<Longrightarrow>
      (packed AND 0xf = STATUS_RETURNED \<and> drop_bit 4 packed = 0) \<or>
      (packed AND 0xf \<in> {STATUS_STARTING, STATUS_STARTED} \<and> drop_bit 4 packed \<noteq> 0 \<and>
       K r' (drop_bit 4 packed) (packed AND 0xf = STATUS_STARTED))"
    and "K r h b \<Longrightarrow> st_cancel T h r = (code, r') \<Longrightarrow> status_after b code \<and> K r' h b"
    and "K r h b \<Longrightarrow> K (st_params_dealloc_lists T low r) h b"
proof -
  show "(packed AND 0xf = STATUS_RETURNED \<and> drop_bit 4 packed = 0) \<or>
      (packed AND 0xf \<in> {STATUS_STARTING, STATUS_STARTED} \<and> drop_bit 4 packed \<noteq> 0 \<and>
       K r' (drop_bit 4 packed) (packed AND 0xf = STATUS_STARTED))" if "st_call_import T low p r = (packed, r')"
    using assms [unfolded subtask_host_def, THEN conjunct1, rule_format, of low p r] that by simp
  show "status_after b code \<and> K r' h b" if "K r h b" "st_cancel T h r = (code, r')"
    using assms [unfolded subtask_host_def, THEN conjunct2, THEN conjunct1, rule_format, OF that(1)] that(2) by simp
  show "K (st_params_dealloc_lists T low r) h b" if "K r h b"
    using assms [unfolded subtask_host_def, THEN conjunct2, THEN conjunct2, rule_format, OF that] .
qed

lemma mem_calls_drop_in_progress [simp]:
  "mem_calls (drop_in_progress A T i m) = mem_calls m @
     dealloc_calls (ip_cleanup i) @ (case ip_subtask i of None \<Rightarrow> [] | Some h \<Rightarrow> [Subtask_Drop h])"
  by (simp add: drop_in_progress_def Let_def split: option.split)

lemma subtask_start_ok:
  assumes "pr_startable (subtask_protocol A T K L) p s m"
  shows "\<exists>code i s' m'. subtask_start A T p (s, m) = Inr ((code, i), s', m') \<and>
    pr_running (subtask_protocol A T K L) i s' m' \<and> pr_legal (subtask_protocol A T K L) i s' m' code"
proof -
  note a = assms [unfolded subtask_protocol_def, simplified]
  obtain q c r where c: "cleanup_new A (st_layout T) m = Inr ((q, c), logged (alloc_calls c) r m)" "q = cleanup_ptr c"
    by (rule cleanup_new_ok [OF a [THEN conjunct1], of "st_layout T" m]) (rule that)
  obtain low r1 where l: "st_params_lower T p q r = (low, r1)" by (cases "st_params_lower T p q r")
  obtain packed r2 where k: "st_call_import T low (q + st_results_offset T) r1 = (packed, r2)"
    by (cases "st_call_import T low (q + st_results_offset T) r1")
  have host: "subtask_host T K" using a by simp
  let ?h = "drop_bit 4 packed :: u32" and ?code = "packed AND 0xf"
  let ?i = "\<lparr>ip_cleanup = c, ip_lower = low, ip_started = False, ip_subtask = (if ?h = 0 then None else Some ?h)\<rparr>"
  let ?m = "logged (alloc_calls c @ [Lower q, Call_Import q (q + st_results_offset T) packed]) r2 m"
  have step: "subtask_start A T p (s, m) = Inr ((?code, ?i), s, ?m)"
    by (simp add: subtask_start_def c(1) l k)
  from subtask_hostD(1) [OF host k] show ?thesis
  proof
    assume "?code = STATUS_RETURNED \<and> ?h = 0"
    then show ?thesis unfolding step using a c(2)
      by (intro exI [of _ ?code] exI [of _ ?i] exI [of _ s] exI [of _ ?m])
        (simp add: subtask_protocol_def subtask_calls_def status_after_def)
  next
    assume "?code \<in> {STATUS_STARTING, STATUS_STARTED} \<and> ?h \<noteq> 0 \<and> K r2 ?h (?code = STATUS_STARTED)"
    then show ?thesis unfolding step using a c(2)
      by (intro exI [of _ ?code] exI [of _ ?i] exI [of _ s] exI [of _ ?m])
        (auto simp: subtask_protocol_def subtask_calls_def subtask_handle_def)
  qed
qed

text \<open>The states that a call goes through with each status.\<close>

lemma ptr_results_same [simp]: "ptr_results T (i\<lparr>ip_started := b\<rparr>) = ptr_results T i"
  by (simp add: ptr_results_def)

lemma subtask_same [simp]:
  "subtask_calls (i\<lparr>ip_started := b\<rparr>) = subtask_calls i" "end_calls T (i\<lparr>ip_started := b\<rparr>) x = end_calls T i x"
  "subtask_handle (i\<lparr>ip_started := b\<rparr>) = subtask_handle i"
  by (simp_all add: subtask_calls_def end_calls_def subtask_handle_def split: option.split)

text \<open>Started now or before, the lists of the parameters have been freed once.\<close>

lemma flagged_ok:
  assumes run: "pr_running (subtask_protocol A T K L) i s m"
  shows "\<exists>j m'. (if ip_started i then Inr (i, m) else flag_started T i m) = Inr (j, m') \<and>
    j = i\<lparr>ip_started := True\<rparr> \<and> mem_calls m' = L @ subtask_calls i @ [Params_Dealloc_Lists]"
proof (cases "ip_started i")
  case True
  then have "i\<lparr>ip_started := True\<rparr> = i" by (cases i) simp
  then show ?thesis using True run by (simp add: subtask_protocol_def)
next
  case False
  then show ?thesis using run by (simp add: subtask_protocol_def flag_started_def)
qed

lemma subtask_update_ok:
  assumes run: "pr_running (subtask_protocol A T K L) i s m"
    and l: "pr_legal (subtask_protocol A T K L) i s m code"
  shows "\<exists>u s' m'. subtask_update A T i code (s, m) = Inr (u, s', m') \<and>
    (case u of
       Complete x \<Rightarrow> pr_finished (subtask_protocol A T K L) x s' m'
     | Still j \<Rightarrow> (code = STATUS_STARTING \<or> code = STATUS_STARTED) \<and>
         pr_running (subtask_protocol A T K L) j s' m' \<and> ip_subtask j \<noteq> None \<and> subtask_handle j = subtask_handle i)"
proof -
  note a = run [unfolded subtask_protocol_def, simplified]
  obtain j m1 where j: "(if ip_started i then Inr (i, m) else flag_started T i m) = Inr (j, m1)"
    "j = i\<lparr>ip_started := True\<rparr>" "mem_calls m1 = L @ subtask_calls i @ [Params_Dealloc_Lists]"
    using flagged_ok [OF run] by blast
  consider (starting) "code = STATUS_STARTING" "\<not> ip_started i"
    | (started) "code = STATUS_STARTED" "\<not> ip_started i" "K (m_raw m) (subtask_handle i) True"
    | (returned) "code = STATUS_RETURNED"
    | (never_started) "code = STATUS_STARTED_CANCELLED" "\<not> ip_started i"
    | (cancelled) "code = STATUS_RETURNED_CANCELLED"
    using l by (auto simp: subtask_protocol_def status_after_def)
  then show ?thesis
  proof cases
    case starting
    moreover have "ip_subtask i \<noteq> None" using l starting by (auto simp: subtask_protocol_def)
    ultimately show ?thesis using run by (simp add: subtask_update_def)
  next
    case started
    moreover have "ip_subtask i \<noteq> None" using l started by (auto simp: subtask_protocol_def)
    ultimately show ?thesis
      using a subtask_hostD(3) [of T K "m_raw m" "subtask_handle i" True "ip_lower i"] started(3)
      by (auto simp: subtask_update_def flag_started_def subtask_protocol_def subtask_handle_def)
  next
    case returned
    obtain x r where x: "st_results_lift T (ptr_results T j) (m_raw m1) = (x, r)"
      by (cases "st_results_lift T (ptr_results T j) (m_raw m1)")
    show ?thesis
      using returned j x
      by (auto simp: subtask_update_def subtask_protocol_def end_calls_def intro!: exI [of _ i] exI [of _ False])
  next
    case never_started
    then show ?thesis
      using a by (auto simp: subtask_update_def subtask_protocol_def end_calls_def intro!: exI [of _ i] exI [of _ True])
  next
    case cancelled
    then show ?thesis
      using j by (auto simp: subtask_update_def subtask_protocol_def end_calls_def intro!: exI [of _ i] exI [of _ False])
  qed
qed

lemma subtask_cancel_ok:
  assumes run: "pr_running (subtask_protocol A T K L) i s m" and pk: "ip_subtask i \<noteq> None"
  shows "\<exists>code s' m'. wop_cancel (subtask_op A T) i (s, m) = Inr (code, s', m') \<and>
    pr_running (subtask_protocol A T K L) i s' m' \<and> pr_legal (subtask_protocol A T K L) i s' m' code \<and>
    pr_final (subtask_protocol A T K L) code"
proof -
  note a = run [unfolded subtask_protocol_def, simplified]
  obtain h where h: "ip_subtask i = Some h" using pk by auto
  obtain b where b: "K (m_raw m) h b" "ip_started i \<longrightarrow> b" using a h by auto
  obtain code r where cr: "st_cancel T h (m_raw m) = (code, r)" by (cases "st_cancel T h (m_raw m)")
  have host: "subtask_host T K" using a by simp
  have c: "status_after b code" "K r h b" using subtask_hostD(2) [OF host b(1) cr] by simp_all
  let ?m = "logged [Subtask_Cancel h code] r m"
  have "wop_cancel (subtask_op A T) i (s, m) = Inr (code, s, ?m)" by (simp add: subtask_op_def h cr)
  moreover have "pr_running (subtask_protocol A T K L) i s ?m"
    using a b(2) c(2) h by (auto simp: subtask_protocol_def)
  moreover have "pr_legal (subtask_protocol A T K L) i s ?m code"
    using status_after_mono [OF c(1) b(2)] h by (simp add: subtask_protocol_def)
  ultimately show ?thesis using status_after_final [OF c(1)] by simp
qed

lemma subtask_stable:
  assumes "pr_running (subtask_protocol A T K L) i s m" "pr_quiet (subtask_protocol A T K L) m m'"
  shows "pr_running (subtask_protocol A T K L) i s m'"
proof -
  note a = assms [unfolded subtask_protocol_def, simplified]
  have q: "\<exists>b'. (b \<longrightarrow> b') \<and> K (m_raw m') h b'" if "K (m_raw m) h b" for h b
    using a(2) that by (cases "m_raw m") auto
  show ?thesis
  proof (cases "ip_subtask i")
    case None
    then show ?thesis using a by (simp add: subtask_protocol_def)
  next
    case (Some h)
    then obtain b where b: "K (m_raw m) h b" "ip_started i \<longrightarrow> b" using a(1) by auto
    then have "\<exists>b. K (m_raw m') h b \<and> (ip_started i \<longrightarrow> b)" using q [OF b(1)] by blast
    then show ?thesis using a Some by (simp add: subtask_protocol_def)
  qed
qed

interpretation subtask: waitable_protocol "subtask_op A T" "subtask_protocol A T K L"
  for A and T :: "('par, 'low, 'res, 'h) subtask_ops" and K L
proof
  fix a s and m :: "'h machine"
  assume "pr_startable (subtask_protocol A T K L) a s m"
  from subtask_start_ok [OF this]
  show "\<exists>code i s' m'. wop_start (subtask_op A T) a (s, m) = Inr ((code, i), s', m') \<and>
      pr_running (subtask_protocol A T K L) i s' m' \<and> pr_legal (subtask_protocol A T K L) i s' m' code"
    by (simp add: subtask_op_def)
next
  fix i s and m :: "'h machine" and code
  assume "pr_running (subtask_protocol A T K L) i s m" "pr_legal (subtask_protocol A T K L) i s m code"
  from subtask_update_ok [OF this]
  show "\<exists>u s' m'. wop_update (subtask_op A T) i code (s, m) = Inr (u, s', m') \<and>
      (case u of
         Complete x \<Rightarrow> pr_finished (subtask_protocol A T K L) x s' m'
       | Still j \<Rightarrow> \<not> pr_final (subtask_protocol A T K L) code \<and> pr_running (subtask_protocol A T K L) j s' m' \<and>
           pr_parked (subtask_protocol A T K L) j s' \<and>
           pr_handle (subtask_protocol A T K L) j s' = pr_handle (subtask_protocol A T K L) i s)"
    by (elim exE) (rename_tac u s' m', case_tac u, auto simp: subtask_op_def)
next
  fix i s and m :: "'h machine"
  assume "pr_running (subtask_protocol A T K L) i s m" "pr_parked (subtask_protocol A T K L) i s"
  then show "\<exists>code s' m'. wop_cancel (subtask_op A T) i (s, m) = Inr (code, s', m') \<and>
      pr_running (subtask_protocol A T K L) i s' m' \<and> pr_legal (subtask_protocol A T K L) i s' m' code \<and>
      pr_final (subtask_protocol A T K L) code \<and>
      pr_handle (subtask_protocol A T K L) i s' = pr_handle (subtask_protocol A T K L) i s"
    using subtask_cancel_ok by simp
next
  fix i s and m m' :: "'h machine"
  assume "pr_running (subtask_protocol A T K L) i s m" "pr_quiet (subtask_protocol A T K L) m m'"
  then show "pr_running (subtask_protocol A T K L) i s m'" by (rule subtask_stable)
next
  fix i :: "'low in_progress" and s :: unit
  assume "pr_parked (subtask_protocol A T K L) i s"
  then show "wop_waitable (subtask_op A T) i s = Inr (pr_handle (subtask_protocol A T K L) i s)"
    by (auto simp: subtask_op_def subtask_handle_def)
next
  fix i s and m m' :: "'h machine" and code
  assume "pr_legal (subtask_protocol A T K L) i s m code" "pr_quiet (subtask_protocol A T K L) m m'"
  then show "pr_legal (subtask_protocol A T K L) i s m' code"
    unfolding subtask_protocol_def by (cases "m_raw m") fastforce
qed (simp_all add: subtask_op_def)

end
