(* ===== verification/Rt_Demo.thy ===== *)
theory Rt_Demo
  imports Rt_Task Rt_Stream_Loops Rt_Future_Writer Rt_Subtask
begin

text \<open>
  A small host on which the properties of the runtime are applied: one byte per payload, a block that
  is always at 4096, and a queue of events that have not been delivered yet as the host's own state.
\<close>

section \<open>The host\<close>

type_synonym demo_host = "(u32 \<times> u32 \<times> u32) list"

definition demo_alloc :: "demo_host allocator" where
  "demo_alloc = \<lparr>al_alloc = (\<lambda>l r. (4096, r)), al_dealloc = (\<lambda>p l r. r), al_realloc = (\<lambda>p l n r. (p + 1, r))\<rparr>"

definition demo_unit :: "demo_host unit_intrinsics" where
  "demo_unit =
     \<lparr>ui_new = (\<lambda>r. (0x200000003, r)), ui_write = (\<lambda>h p n r. (COMPLETED OR push_bit 4 1, r)),
      ui_read = (\<lambda>h p n r. (BLOCKED, r)), ui_cancel_read = (\<lambda>h r. (CANCELLED, r)),
      ui_cancel_write = (\<lambda>h r. (CANCELLED, r)), ui_drop_readable = (\<lambda>h r. r), ui_drop_writable = (\<lambda>h r. r)\<rparr>"

definition demo_next_event :: "demo_host raw \<Rightarrow> (u32 \<times> u32 \<times> u32) \<times> demo_host raw" where
  "demo_next_event r = (case snd r of [] \<Rightarrow> ((EVENT_NONE, 0, 0), r) | e # es \<Rightarrow> (e, (fst r, es)))"

definition demo_rt_env :: "demo_host rt_env" where
  "demo_rt_env =
     \<lparr>re_alloc = demo_alloc, re_set_new = (\<lambda>r. (7, r)), re_join = (\<lambda>h s r. r),
      re_wait = (\<lambda>s. demo_next_event), re_poll = (\<lambda>s. demo_next_event), re_set_drop = (\<lambda>s r. r),
      re_unit = demo_unit, re_inter_task = True\<rparr>"

definition demo_other :: "nat \<Rightarrow> demo_host rt_world step" where
  "demo_other i w = Inr w"

definition demo_ops :: "(8 word, demo_host) stream_ops" where
  "demo_ops =
     \<lparr>so_new = (\<lambda>r. (0x200000003, r)), so_layout = \<lparr>l_size = 1, l_align = 1\<rparr>, so_payload_size = 1,
      so_load = (\<lambda>p r. fst r p), so_native = False, so_lists = True,
      so_lower = (\<lambda>x p r. Inr ((fst r)(p := x), snd r)), so_dealloc_lists = (\<lambda>p r. Inr r),
      so_lift = (\<lambda>p r. Inr (fst r p, r)), so_start_write = (\<lambda>h p n r. (BLOCKED, r)),
      so_start_read = (\<lambda>h p n r. (BLOCKED, r)), so_cancel_read = (\<lambda>h r. (CANCELLED, r)),
      so_cancel_write = (\<lambda>h r. (CANCELLED, r)), so_drop_readable = (\<lambda>h r. r), so_drop_writable = (\<lambda>h r. r)\<rparr>"

definition demo_future_ops :: "(8 word, demo_host) future_ops" where
  "demo_future_ops =
     \<lparr>fo_new = (\<lambda>r. (0x200000003, r)), fo_layout = \<lparr>l_size = 1, l_align = 1\<rparr>,
      fo_lower = (\<lambda>x p r. ((fst r)(p := x), snd r)), fo_dealloc_lists = (\<lambda>p r. r),
      fo_lift = (\<lambda>p r. (fst r p, r)), fo_start_write = (\<lambda>h p r. (BLOCKED, r)),
      fo_start_read = (\<lambda>h p r. (BLOCKED, r)), fo_cancel_read = (\<lambda>h r. (CANCELLED, r)),
      fo_cancel_write = (\<lambda>h r. (CANCELLED, r)), fo_drop_readable = (\<lambda>h r. r), fo_drop_writable = (\<lambda>h r. r)\<rparr>"

text \<open>A call that starts at once and gets the handle 5.\<close>

definition demo_call :: "(8 word, 8 word, 8 word, demo_host) subtask_ops" where
  "demo_call =
     \<lparr>st_layout = \<lparr>l_size = 2, l_align = 1\<rparr>, st_results_offset = 1,
      st_call_import = (\<lambda>low p r. (pack STATUS_STARTED 5, r)), st_params_lower = (\<lambda>x p r. (x, r)),
      st_params_dealloc_lists = (\<lambda>low r. r), st_params_dealloc_lists_and_own = (\<lambda>low r. r),
      st_results_lift = (\<lambda>p r. (fst r p, r)), st_cancel = (\<lambda>h r. (STATUS_RETURNED_CANCELLED, r)),
      st_drop = (\<lambda>h r. r)\<rparr>"

definition demo_holds :: "demo_host raw \<Rightarrow> addr \<Rightarrow> 8 word \<Rightarrow> bool" where
  "demo_holds r p x = (fst r p = x)"

definition demo_mach :: "demo_host machine" where
  "demo_mach = \<lparr>m_raw = (\<lambda>_. 0, []), m_log = []\<rparr>"

text \<open>Task 0 runs, and nothing is registered.\<close>

definition demo_world :: "demo_host rt_world" where
  "demo_world =
     \<lparr>w_mach = demo_mach, w_tasks = (\<lambda>_. shared_new), w_current = Some (0, 2), w_cells = (\<lambda>_. no_completion)\<rparr>"

section \<open>It keeps the promises\<close>

lemma demo_never_fails [simp]: "never_fails demo_alloc"
  by (simp add: never_fails_def demo_alloc_def)

lemma demo_ops_ok [simp]: "ops_ok demo_ops demo_holds"
  unfolding ops_ok_def payload_contract_def undisturbed_def demo_holds_def
  by (auto simp: demo_ops_def apart_def)

lemma demo_contract [simp]: "payload_contract demo_ops demo_holds"
  using demo_ops_ok by (simp add: ops_ok_def demo_ops_def)

lemma keeps_slots_refl [simp]: "keeps_slots R r r"
  by (simp add: keeps_slots_def)

lemma legal_cancelled [simp]: "legal_code n CANCELLED" "code_count CANCELLED = 0" "legal_code n BLOCKED" "code_count BLOCKED = 0"
  by (simp_all add: legal_code_def code_count_def)

lemma demo_write_host [simp]: "write_host demo_ops demo_holds (\<lambda>_ _ _. True)"
  unfolding write_host_def by (simp add: demo_ops_def)

lemma demo_read_host [simp]: "read_host demo_ops demo_holds (\<lambda>_ _ _ _. True)"
  unfolding read_host_def read_legal_def by (simp add: demo_ops_def)

lemma demo_future_contract [simp]: "future_contract demo_future_ops demo_holds"
  unfolding future_contract_def by (simp add: demo_future_ops_def demo_holds_def)

lemma demo_future_write_host [simp]: "future_write_host demo_future_ops demo_holds (\<lambda>_ _. True)"
  unfolding future_write_host_def by (simp add: demo_future_ops_def)

lemma demo_future_read_host [simp]: "future_read_host demo_future_ops demo_holds (\<lambda>_ _ _. True)"
  unfolding future_read_host_def future_read_legal_def by (simp add: demo_future_ops_def)

lemma packed_started [simp]:
  "pack STATUS_STARTED 5 AND 0xf = STATUS_STARTED" "drop_bit 4 (pack STATUS_STARTED 5) = (5 :: u32)"
  by (simp_all add: pack_tag pack_count STATUS_STARTED_def)

lemma demo_subtask_host [simp]: "subtask_host demo_call (\<lambda>_ _ b. b)"
  unfolding subtask_host_def by (simp add: demo_call_def status_after_def)

lemma env_mem_calls [simp]:
  "\<not> mem_call (Set_New s)" "\<not> mem_call (Join h s)" "\<not> mem_call (Set_Drop s)" "\<not> mem_call (Set_Wait s e)"
  "\<not> mem_call (Set_Poll s e)"
  by (simp_all add: mem_call_def)

lemma demo_quiet_env:
  assumes "\<And>m m'. m_raw m' = m_raw m \<Longrightarrow> mem_calls m' = mem_calls m \<Longrightarrow> Q m m'"
  shows "quiet_env demo_rt_env Q"
  using assms
  by (simp add: quiet_env_def demo_rt_env_def set_new_def set_join_def remove_waitable_from_all_sets_def
      set_drop_def demo_unit_def)

lemma demo_quiet_wakes:
  assumes "\<And>m m'. m_raw m' = m_raw m \<Longrightarrow> mem_calls m' = mem_calls m \<Longrightarrow> Q m m'"
  shows "quiet_wakes demo_rt_env demo_other Q"
  using assms
  by (auto simp: quiet_wakes_def demo_rt_env_def demo_other_def waker_state_wake_def demo_unit_def res_simps)

lemma demo_registrations [simp]: "waitables_of demo_world t h = None" "registered_at demo_world c = {}"
  by (simp_all add: waitables_of_def registered_at_def demo_world_def shared_new_def)

lemma demo_world_simps [simp]:
  "w_mach demo_world = demo_mach" "w_current demo_world = Some (0, 2)" "w_cells demo_world c = no_completion"
  "w_tasks demo_world t = shared_new" "m_raw demo_mach = (\<lambda>_. 0, [])" "mem_calls demo_mach = []"
  "m_log demo_mach = []"
  by (simp_all add: demo_world_def demo_mach_def mem_calls_def)

lemmas demo_quiet = demo_quiet_env demo_quiet_wakes

lemma demo_stream_write_quiet [simp]:
  "quiet_env demo_rt_env (pr_quiet (stream_write_protocol demo_ops demo_holds H xs k L))"
  "quiet_wakes demo_rt_env demo_other (pr_quiet (stream_write_protocol demo_ops demo_holds H xs k L))"
  by (rule demo_quiet; simp add: stream_write_protocol_def mem_quiet_def)+

lemma demo_stream_read_quiet [simp]:
  "quiet_env demo_rt_env (pr_quiet (stream_read_protocol demo_alloc demo_ops demo_holds H b L))"
  "quiet_wakes demo_rt_env demo_other (pr_quiet (stream_read_protocol demo_alloc demo_ops demo_holds H b L))"
  by (rule demo_quiet; simp add: stream_read_protocol_def mem_quiet_def)+

lemma demo_future_write_quiet [simp]:
  "quiet_env demo_rt_env (pr_quiet (future_write_protocol demo_alloc demo_future_ops demo_holds K v L))"
  "quiet_wakes demo_rt_env demo_other (pr_quiet (future_write_protocol demo_alloc demo_future_ops demo_holds K v L))"
  by (rule demo_quiet; simp add: future_write_protocol_def mem_quiet_def)+

lemma demo_future_read_quiet [simp]:
  "quiet_env demo_rt_env (pr_quiet (future_read_protocol demo_alloc demo_future_ops demo_holds K L))"
  "quiet_wakes demo_rt_env demo_other (pr_quiet (future_read_protocol demo_alloc demo_future_ops demo_holds K L))"
  by (rule demo_quiet; simp add: future_read_protocol_def mem_quiet_def)+

lemma demo_subtask_quiet [simp]:
  "quiet_env demo_rt_env (pr_quiet (subtask_protocol demo_alloc demo_call K L))"
  "quiet_wakes demo_rt_env demo_other (pr_quiet (subtask_protocol demo_alloc demo_call K L))"
  by (rule demo_quiet; simp add: subtask_protocol_def; blast)+

end
