(* ===== verification/Rt_Properties.thy ===== *)
theory Rt_Properties
  imports Rt_Demo
begin

text \<open>
  The properties of the guest runtime, each applied to the host of \<open>Rt_Demo\<close> where it has hypotheses.
\<close>

section \<open>Codes\<close>

lemma tag_decode:
  "decode_return val = Inr (Completed amt) \<longleftrightarrow> val \<noteq> BLOCKED \<and> val AND 0xf = COMPLETED \<and> drop_bit 4 val = amt"
  "decode_return val = Inr (Dropped amt) \<longleftrightarrow> val \<noteq> BLOCKED \<and> val AND 0xf = DROPPED \<and> drop_bit 4 val = amt"
  "decode_return val = Inr (Cancelled amt) \<longleftrightarrow> val \<noteq> BLOCKED \<and> val AND 0xf = CANCELLED \<and> drop_bit 4 val = amt"
  by (auto simp: decode_return_def Let_def)

lemma unpacked_iff:
  assumes "tag < 15"
  shows "(val \<noteq> BLOCKED \<and> val AND 0xf = tag \<and> drop_bit 4 val = amt) \<longleftrightarrow> (val = pack tag amt \<and> amt < 2 ^ 28)"
proof -
  have t: "tag < 16" using assms by (rule less_trans) simp
  show ?thesis
    using pack_unpack [of val] drop_4_bound [of val] pack_tag [OF t] pack_count [OF t] pack_not_blocked [OF assms]
    by auto
qed

text \<open>
  C30: A return code of a stream or future operation decodes to a tag and a count exactly if it is that
  tag packed below that count, and then the count is below 2 to the 28; the code for a blocked
  operation decodes to nothing else, and the decoder panics on the remaining tags.
\<close>

theorem return_code_decodes:
  "(decode_return val = Inr (Completed amt) \<longleftrightarrow> val = pack COMPLETED amt \<and> amt < 2 ^ 28) \<and>
   (decode_return val = Inr (Dropped amt) \<longleftrightarrow> val = pack DROPPED amt \<and> amt < 2 ^ 28) \<and>
   (decode_return val = Inr (Cancelled amt) \<longleftrightarrow> val = pack CANCELLED amt \<and> amt < 2 ^ 28) \<and>
   (decode_return val = Inr Blocked \<longleftrightarrow> val = BLOCKED) \<and>
   (decode_return val = Inl e \<longleftrightarrow>
      e = Explicit_Panic \<and> val \<noteq> BLOCKED \<and> val AND 0xf \<notin> {COMPLETED, DROPPED, CANCELLED})"
proof -
  have s: "COMPLETED < 15" "DROPPED < 15" "CANCELLED < 15" by (simp_all add: code_defs)
  have "decode_return val = Inl e \<longleftrightarrow>
      e = Explicit_Panic \<and> val \<noteq> BLOCKED \<and> val AND 0xf \<notin> {COMPLETED, DROPPED, CANCELLED}"
    by (auto simp: decode_return_def Let_def)
  then show ?thesis
    unfolding tag_decode unpacked_iff [OF s(1)] unpacked_iff [OF s(2)] unpacked_iff [OF s(3)]
    using decode_eq_blocked [of val] by blast
qed

text \<open>
  The code that a callback returns to the host is 0 only for exit and 1 only for yield; waiting
  puts the waitable set above a low half byte of 2, from which the host gets the set back as long as
  its index fits in 28 bits.
\<close>

theorem callback_code_decodes:
  assumes "s < 2 ^ 28"
  shows "encode_callback (Wait s) AND 0xf = 2 \<and> drop_bit 4 (encode_callback (Wait s)) = s \<and>
    (encode_callback rc = 0 \<longleftrightarrow> rc = Exit) \<and> (encode_callback rc = 1 \<longleftrightarrow> rc = Yield)"
proof -
  have "encode_callback (Wait s') AND 0xf = 2" for s'
    using pack_tag [of 2 s'] by (simp add: encode_callback_def pack_def)
  moreover have "drop_bit 4 (encode_callback (Wait s)) = s"
    using pack_count [of 2 s] assms by (simp add: encode_callback_def pack_def)
  moreover have "encode_callback rc = 1 \<longleftrightarrow> rc = Yield"
  proof (cases rc)
    case (Wait s')
    have "encode_callback (Wait s') \<noteq> 1"
    proof
      assume "encode_callback (Wait s') = 1"
      then have "(1 :: u32) AND 0xf = 2" using \<open>\<And>s'. encode_callback (Wait s') AND 0xf = 2\<close> by metis
      then show False by simp
    qed
    then show ?thesis by (simp add: Wait)
  qed (simp_all add: encode_callback_def)
  ultimately show ?thesis using encode_zero by blast
qed

theorem callback_code_decodes_witness:
  "encode_callback (Wait 7) AND 0xf = 2 \<and> drop_bit 4 (encode_callback (Wait 7)) = 7"
  using callback_code_decodes [of 7 Exit] by simp

section \<open>The write buffer\<close>

text \<open>
  C31: A vector put in an \<open>AbiBuffer\<close>, of which the first \<open>n\<close> items are then written, comes back as its
  other items; every item was lowered once, the written ones had their lists freed once, the others
  were lifted once, and the block was allocated and freed once, in this order.
\<close>

theorem abi_buffer_roundtrip:
  assumes "never_fails A" "ops_ok ops R" "n \<le> length xs"
    and "from_size_align (elem_size ops * length xs) (l_align (so_layout ops)) \<noteq> None"
  shows "\<exists>b m1 b' m2 m3. buffer_new A ops base xs m = Inr (b, m1) \<and> advance ops n b m1 = Inr (b', m2) \<and>
    remaining b' = length xs - n \<and> into_vec A ops b' m2 = Inr (drop n xs, m3) \<and>
    (let p = cleanup_ptr (ab_alloc b); sz = elem_size ops in
     m_log m3 = m_log m @ alloc_calls (ab_alloc b) @
       (if so_native ops then [] else map Lower (slot_addrs sz p (length xs))) @
       (if so_lists ops then map Dealloc_Lists (slot_addrs sz p n) else []) @
       (if so_native ops then [] else map Lift (slot_addrs sz (p + n * sz) (length xs - n))) @
       dealloc_calls (ab_alloc b))"
proof -
  obtain b m1 where b: "buffer_new A ops base xs m = Inr (b, m1)" "buffer_holds ops R xs 0 b (m_raw m1)"
    "m_log m1 = m_log m @ alloc_calls (ab_alloc b) @
      (if so_native ops then [] else map Lower (slot_addrs (elem_size ops) (cleanup_ptr (ab_alloc b)) (length xs)))"
    using buffer_new_ok [OF assms(1,2,4)] by blast
  have c: "ab_cursor b = 0" using b(2) by (simp add: buffer_holds_def)
  let ?b = "b\<lparr>ab_cursor := n\<rparr>"
  obtain r where a: "advance ops n b m1 = Inr (?b, logged (if so_lists ops
        then map Dealloc_Lists (slot_addrs (elem_size ops) (fst (abi_ptr_and_len ops b)) n) else []) r m1)"
    "buffer_holds ops R xs n ?b r"
    using advance_ok [OF assms(2) b(2), of n] assms(3) by auto
  let ?m2 = "logged (if so_lists ops
        then map Dealloc_Lists (slot_addrs (elem_size ops) (fst (abi_ptr_and_len ops b)) n) else []) r m1"
  obtain m3 where m3: "into_vec A ops ?b ?m2 = Inr (drop n xs, m3)"
    "m_log m3 = m_log ?m2 @ (if so_native ops then []
       else map Lift (slot_addrs (elem_size ops) (fst (abi_ptr_and_len ops ?b)) (length xs - n))) @
      dealloc_calls (ab_alloc ?b)"
    using into_vec_ok [OF assms(2), of xs n ?b ?m2 A] a(2) by auto
  have "so_lists ops \<Longrightarrow> \<not> so_native ops" using assms(2) by (auto simp: ops_ok_def split: if_splits)
  then show ?thesis
    using b(1,3) a m3 c buffer_holds_remaining [OF a(2)] by (auto simp: abi_ptr_and_len_def Let_def)
qed

theorem abi_buffer_roundtrip_witness:
  "\<exists>b m1 b' m2 m3. buffer_new demo_alloc demo_ops 64 [1, 2, 3] demo_mach = Inr (b, m1) \<and>
    advance demo_ops 2 b m1 = Inr (b', m2) \<and> remaining b' = 1 \<and>
    into_vec demo_alloc demo_ops b' m2 = Inr ([3], m3)"
proof -
  have l: "from_size_align (elem_size demo_ops * length [1, 2, 3 :: 8 word]) (l_align (so_layout demo_ops)) \<noteq> None"
    by (simp add: demo_ops_def from_size_align_def power_of_two_def image_iff) (rule bexI [of _ 0]; simp)
  show ?thesis
    using abi_buffer_roundtrip [OF demo_never_fails demo_ops_ok _ l, of 2 64 demo_mach] by fastforce
qed

text \<open>
  Advancing a buffer panics exactly if more items are claimed to be written than remain in it.
\<close>

theorem advance_panics_iff_overrun:
  assumes "ops_ok ops R" "buffer_holds ops R xs k b (m_raw m)"
  shows "advance ops n b m = Inl Assert_Failed \<longleftrightarrow> remaining b < n"
proof (cases "k + n \<le> length xs")
  case True
  then show ?thesis
    using advance_ok [OF assms True] buffer_holds_remaining [OF assms(2)] by auto
next
  case False
  moreover have "ab_cursor b = k" "length (ab_storage b) = length xs" "k \<le> length xs"
    using assms(2) by (simp_all add: buffer_holds_def)
  ultimately show ?thesis
    using buffer_holds_remaining [OF assms(2)] by (simp add: advance_def add.commute)
qed

theorem advance_panics_iff_overrun_witness:
  "advance demo_ops 4 \<lparr>ab_storage = [None, None, None], ab_base = 0,
      ab_alloc = Some \<lparr>c_ptr = 4096, c_layout = \<lparr>l_size = 3, l_align = 1\<rparr>\<rparr>, ab_cursor = 0\<rparr> demo_mach =
    Inl Assert_Failed"
proof -
  let ?b = "\<lparr>ab_storage = [None, None, None], ab_base = 0,
      ab_alloc = Some \<lparr>c_ptr = 4096, c_layout = \<lparr>l_size = 3, l_align = 1\<rparr>\<rparr>, ab_cursor = 0\<rparr>"
  have "buffer_holds demo_ops demo_holds [0, 0, 0] 0 ?b (m_raw demo_mach)"
    by (simp add: buffer_holds_def demo_ops_def slots_Cons demo_holds_def)
  then show ?thesis
    using advance_panics_iff_overrun [OF demo_ops_ok, of "[0, 0, 0]" 0 ?b demo_mach 4] by (simp add: remaining_def)
qed

section \<open>Whole streams\<close>








section \<open>The event loop\<close>

text \<open>Futures to run: one that yields once, and one that never ends.\<close>

abbreviation yield_tasks :: "(bool option, demo_host) executor" where
  "yield_tasks \<equiv> tasks_executor (yield_future demo_rt_env demo_other)"

definition stuck_tasks :: "(unit, demo_host) executor" where
  "stuck_tasks = \<lparr>ex_poll_next = (\<lambda>k (u, w). Inr (False, u, w)), ex_is_empty = (\<lambda>u. False), ex_drop_all = Inr\<rparr>"

definition demo_task :: "'u \<Rightarrow> 'u task_state" where
  "demo_task u = \<lparr>ts_tasks = u, ts_shared = 0, ts_stream = None, ts_reading = False\<rparr>"

text \<open>
  C34: When the event loop of a task hands control back, it reports an exit only with no future and no
  waitable left, a yield only if a future is left that was woken, and otherwise names the task's own
  waitable set; if futures are left then, the task is marked as sleeping, with the inter-task stream
  being read or a waitable to wait for. The task that was current before is current again.
\<close>

theorem callback_reports_state:
  assumes "task_callback n E other X (event0, event1, event2) (ts, w) = Inr (rc, ts', w')" "event0 \<noteq> EVENT_CANCEL"
  shows "w_current w' = w_current w \<and>
    (case rc of
       Exit \<Rightarrow> ex_is_empty X (ts_tasks ts') \<and> \<not> remaining_work (ts_shared ts') w'
     | Yield \<Rightarrow> \<not> ex_is_empty X (ts_tasks ts') \<and> sh_sleep (w_tasks w' (ts_shared ts')) = SLEEP_STATE_WOKEN
     | Wait s \<Rightarrow> sh_set (w_tasks w' (ts_shared ts')) = Some s \<and>
         (if ex_is_empty X (ts_tasks ts') then remaining_work (ts_shared ts') w'
          else sh_sleep (w_tasks w' (ts_shared ts')) = SLEEP_STATE_SLEEPING \<and>
            (if re_inter_task E then ts_reading ts' else remaining_work (ts_shared ts') w')))"
  using task_callback_ends [OF assms] by (simp add: turn_ends_def)

theorem callback_reports_state_witness:
  "\<exists>ts' w'. task_callback 1 demo_rt_env demo_other yield_tasks (EVENT_NONE, 0, 0) (demo_task (Some False), demo_world) =
      Inr (Yield, ts', w') \<and> sh_sleep (w_tasks w' (ts_shared ts')) = SLEEP_STATE_WOKEN"
proof -
  have "\<exists>ts' w'. task_callback 1 demo_rt_env demo_other yield_tasks (EVENT_NONE, 0, 0)
      (demo_task (Some False), demo_world) = Inr (Yield, ts', w')"
    by (simp add: task_callback_def EVENT_NONE_def EVENT_CANCEL_def known_events_def with_p3_task_set_def Let_def
        demo_rt_env_def cancel_inter_task_stream_read_def demo_task_def tasks_executor_def tasks_poll_next_def
        yield_future_def yield_poll_def wake_def wake_task_def tasks_is_empty_def poll_own_set_def
        remaining_work_def store_sleep_def shared_new_def)
  moreover have "EVENT_NONE \<noteq> EVENT_CANCEL" by (simp add: EVENT_NONE_def EVENT_CANCEL_def)
  ultimately show ?thesis
    using callback_reports_state [of 1 demo_rt_env demo_other yield_tasks EVENT_NONE 0 0 "demo_task (Some False)" demo_world Yield]
    by fastforce
qed

text \<open>
  A callback runs only with a task in the context slot, and afterwards the slot is empty exactly
  if the code returned to the host is 0; a cancellation always returns 0.
\<close>

theorem callback_clears_slot_iff_exit:
  assumes "callback n E other X (event0, event1, event2) (slot, w) = Inr (code, slot', w')"
  shows "slot \<noteq> None \<and> (slot' = None \<longleftrightarrow> code = 0) \<and> (event0 = EVENT_CANCEL \<longrightarrow> code = 0)"
proof -
  obtain ts where ts: "slot = Some ts" using assms by (cases slot) (auto simp: callback_def)
  then obtain rc ts1 w1 where t: "task_callback n E other X (event0, event1, event2) (ts, w) = Inr (rc, ts1, w1)"
    using assms by (auto simp: callback_def res_simps)
  have "rc = Exit" if "event0 = EVENT_CANCEL" using t that by (simp add: task_callback_def)
  then show ?thesis
    using assms ts t encode_zero [of rc] by (auto simp: callback_def res_simps split: if_splits)
qed

theorem callback_clears_slot_iff_exit_witness:
  "\<exists>code slot' w'. callback 1 demo_rt_env demo_other stuck_tasks (EVENT_CANCEL, 0, 0) (Some (demo_task ()), demo_world) =
      Inr (code, slot', w') \<and> slot' = None \<and> code = 0"
proof -
  obtain code slot' w' where "callback 1 demo_rt_env demo_other stuck_tasks (EVENT_CANCEL, 0, 0)
      (Some (demo_task ()), demo_world) = Inr (code, slot', w')"
    by (simp add: callback_def task_callback_def task_state_drop_def demo_rt_env_def demo_task_def
        cancel_inter_task_stream_read_def with_p3_task_set_def stuck_tasks_def)
  then show ?thesis using callback_clears_slot_iff_exit by blast
qed

text \<open>
  C35: The loop of the event loop ends: if the host has fewer than \<open>n\<close> events to deliver, and futures and
  wakers queue no more, then \<open>n\<close> turns are enough.
\<close>

theorem poll_loop_terminates:
  assumes "bounded_events E other X nu" "nu (m_raw (w_mach w)) < n"
  shows "poll_loop n E other X (ts, w) \<noteq> Inl Out_Of_Fuel"
  by (rule poll_loop_returns [OF assms])

theorem poll_loop_terminates_witness:
  "poll_loop 3 demo_rt_env demo_other stuck_tasks
     (demo_task (), demo_world\<lparr>w_mach := logged [] (\<lambda>_. 0, [(2, 5, 0), (3, 6, 0)]) demo_mach\<rparr>) \<noteq> Inl Out_Of_Fuel"
proof (rule poll_loop_terminates [where nu = "\<lambda>r. length (snd r)"])
  show "bounded_events demo_rt_env demo_other stuck_tasks (\<lambda>r. length (snd r))"
    by (auto simp: bounded_events_def demo_rt_env_def demo_next_event_def demo_unit_def demo_other_def stuck_tasks_def
        split: list.splits)
qed simp

text \<open>
  Waking a sleeping task writes one item to its inter-task stream and marks it as woken; waking it
  again, or waking a task that is being polled, changes nothing but that mark.
\<close>

theorem wake_signals_once:
  assumes "sh_sleep (w_tasks w t) = SLEEP_STATE_SLEEPING" "sh_writer (w_tasks w t) = Some h" "re_inter_task E"
    and "ui_write (re_unit E) h 0 1 (m_raw (w_mach w)) = (COMPLETED OR push_bit 4 1, r)"
  shows "\<exists>w'. wake_task E t w = Inr w' \<and> sh_sleep (w_tasks w' t) = SLEEP_STATE_WOKEN \<and>
    w_mach w' = logged [Write_Call h 0 1 (COMPLETED OR push_bit 4 1)] r (w_mach w) \<and> wake_task E t w' = Inr w' \<and>
    wake_task E t (store_sleep t SLEEP_STATE_POLLING w') = Inr w'"
proof -
  let ?w = "(store_sleep t SLEEP_STATE_WOKEN w)\<lparr>w_mach :=
    logged [Write_Call h 0 1 (COMPLETED OR push_bit 4 1)] r (w_mach w)\<rparr>"
  have "wake_task E t w = Inr ?w"
    using assms by (simp add: wake_task_def Let_def waker_state_wake_def store_sleep_def)
  moreover have again: "wake_task E t (store_sleep t v ?w) = Inr ?w" if "v \<in> {SLEEP_STATE_POLLING, SLEEP_STATE_WOKEN}" for v
    using that by (auto simp: wake_task_def Let_def store_sleep_def set_task_def)
  moreover have "store_sleep t SLEEP_STATE_WOKEN ?w = ?w" by (simp add: store_sleep_def set_task_def)
  then have "wake_task E t ?w = Inr ?w" using again [of SLEEP_STATE_WOKEN] by simp
  moreover have "sh_sleep (w_tasks ?w t) = SLEEP_STATE_WOKEN" by simp
  ultimately show ?thesis by (intro exI [of _ ?w]) simp
qed

theorem wake_signals_once_witness:
  "\<exists>w'. wake_task demo_rt_env 0 (set_task 0 (shared_new\<lparr>sh_sleep := SLEEP_STATE_SLEEPING, sh_writer := Some 2\<rparr>) demo_world) =
      Inr w' \<and> m_log (w_mach w') = [Write_Call 2 0 1 16] \<and> wake_task demo_rt_env 0 w' = Inr w'"
proof -
  let ?w = "set_task 0 (shared_new\<lparr>sh_sleep := SLEEP_STATE_SLEEPING, sh_writer := Some 2\<rparr>) demo_world"
  have "COMPLETED OR push_bit 4 1 = 16" by (simp add: COMPLETED_def)
  then show ?thesis
    using wake_signals_once [of ?w 0 2 demo_rt_env "m_raw demo_mach"] by (fastforce simp: demo_rt_env_def demo_unit_def)
qed

text \<open>
  Blocking on a future that yields before anything was waited for panics: \<open>block_on\<close> polls the
  waitable set of the task, which does not exist yet. Run as the task of an export, the same future
  yields and then exits.
\<close>

theorem block_on_yield_panics:
  "block_on (Suc n) (Suc k) E other (tasks_executor (yield_future E other)) (Some False) t w = Inl Unwrap_None"
  by (simp add: block_on_def task_state_new_def task_callback_def EVENT_NONE_def EVENT_CANCEL_def known_events_def
      with_p3_task_set_def cancel_inter_task_stream_read_def cancel_inter_task_stream_read_disabled_def
      tasks_executor_def tasks_poll_next_def yield_future_def yield_poll_def wake_def wake_task_def
      tasks_is_empty_def poll_own_set_def remaining_work_def store_sleep_def shared_new_def Let_def)



end
