(* ===== verification/Rt_Safety.thy ===== *)
theory Rt_Safety
  imports Rt_Demo
begin

text \<open>
  The life of stream, future and subtask operations: safety of every reachable state, exact accounts
  of the memory, and progress once the host has answered. Each rests on the interpretation of
  \<open>waitable_protocol\<close> for the operation in question.
\<close>

section \<open>Streams\<close>

lemma stream_write_startable:
  assumes "ops_ok ops R" "write_host ops R H" "buffer_holds ops R xs k b (m_raw (w_mach w))"
    and "c \<noteq> 0" "registered_at w c = {}" "\<And>t. waitables_of w t (sw_handle s) = None"
  shows "op_inv (stream_write_op ops) (stream_write_protocol ops R H xs k (mem_calls (w_mach w)))
    (operation_new s b c w)"
proof (rule stream_write.operation_new_ok)
  fix code i s' m assume st: "wop_start (stream_write_op ops) b (s, w_mach w) = Inr ((code, i), s', m)"
  have "s' = s"
    using st by (cases "abi_ptr_and_len ops b")
      (auto simp: stream_write_op_def stream_write_start_def split: if_splits prod.splits)
  then show "\<forall>t. waitables_of w t (pr_handle (stream_write_protocol ops R H xs k (mem_calls (w_mach w))) i s') = None"
    using assms(6) by simp
qed (use assms in \<open>simp_all add: stream_write_protocol_def\<close>)

text \<open>
  C23: A stream write, whatever the order in which it is polled, cancelled and served by the host, stays
  in its invariant: while it is pending its buffer is untouched and at most one task refers to its
  cell, under the stream's own handle; and in every state that it can reach it can be dropped, after
  which no task refers to its cell any more.
\<close>

theorem stream_write_reachable_safe:
  assumes "quiet_env E (pr_quiet (stream_write_protocol ops R H xs k (mem_calls (w_mach w))))"
    and "quiet_wakes E other (pr_quiet (stream_write_protocol ops R H xs k (mem_calls (w_mach w))))"
    and "ops_ok ops R" "write_host ops R H" "buffer_holds ops R xs k b (m_raw (w_mach w))"
    and "c \<noteq> 0" "registered_at w c = {}" "\<And>t. waitables_of w t (sw_handle s) = None"
    and "op_steps (stream_write_op ops) (stream_write_protocol ops R H xs k (mem_calls (w_mach w))) E other
      (operation_new s b c w) (o1, w1)"
  shows "op_inv (stream_write_op ops) (stream_write_protocol ops R H xs k (mem_calls (w_mach w))) (o1, w1) \<and>
    (case wo_state o1 of
       In_Progress b' \<Rightarrow> buffer_holds ops R xs k b' (m_raw (w_mach w1)) \<and>
         (\<exists>t. registered_at w1 (wo_cell o1) \<subseteq> {(t, sw_handle (wo_op o1))})
     | _ \<Rightarrow> registered_at w1 (wo_cell o1) = {}) \<and>
    (\<exists>x o2 w2. operation_drop (stream_write_op ops) E (o1, w1) = Inr (x, o2, w2) \<and> is_done o2 \<and>
       registered_at w2 (wo_cell o1) = {})"
proof -
  let ?P = "stream_write_protocol ops R H xs k (mem_calls (w_mach w))"
  have inv: "op_inv (stream_write_op ops) ?P (o1, w1)"
    by (rule stream_write.reachable_ok [OF assms(1,2,9) stream_write_startable [OF assms(3-8)]])
  have "buffer_holds ops R xs k b' (m_raw (w_mach w1))" if "wo_state o1 = In_Progress b'" for b'
  proof -
    have "pr_running ?P b' (wo_op o1) (w_mach w1)" using inv that by (simp add: op_inv_def)
    then show ?thesis by (simp add: stream_write_protocol_def)
  qed
  then show ?thesis
    using inv op_inv_registered [OF inv] stream_write.operation_drop_ok [OF assms(1) inv]
    by (cases "wo_state o1") auto
qed

definition demo_buffer :: "8 word abi_buffer" where
  "demo_buffer = \<lparr>ab_storage = [None, None], ab_base = 0,
     ab_alloc = Some \<lparr>c_ptr = 4096, c_layout = \<lparr>l_size = 2, l_align = 1\<rparr>\<rparr>, ab_cursor = 0\<rparr>"

definition demo_writer :: stream_writer where
  "demo_writer = \<lparr>sw_handle = 2, sw_done = False\<rparr>"

lemma demo_buffer_holds [simp]: "buffer_holds demo_ops demo_holds [0, 0] 0 demo_buffer (\<lambda>_. 0, es)"
  by (simp add: buffer_holds_def demo_buffer_def demo_ops_def slots_Cons demo_holds_def)

abbreviation demo_write_protocol where
  "demo_write_protocol \<equiv> stream_write_protocol demo_ops demo_holds (\<lambda>_ _ _. True) [0, 0] 0 []"

definition demo_write_run :: "(stream_writer, 8 word abi_buffer, 8 word abi_buffer, demo_host) run" where
  "demo_write_run = operation_new demo_writer demo_buffer 16 demo_world"

lemma demo_write_inv: "op_inv (stream_write_op demo_ops) demo_write_protocol demo_write_run"
  unfolding demo_write_run_def
  using stream_write_startable [of demo_ops demo_holds "\<lambda>_ _ _. True" "[0, 0]" 0 demo_buffer demo_world 16 demo_writer]
  by simp

lemma new_run:
  assumes "operation_new s a c w = (o1, w1)"
  shows "\<not> is_done o1" "wo_cell o1 = c" "w_current w1 = w_current w" "w_mach w1 = w_mach w"
  using assms by (auto simp: operation_new_def is_done_def)

text \<open>The write is polled once and is pending then.\<close>

theorem stream_write_reachable_safe_witness:
  "\<exists>o1 w1 x o2 w2. op_step (stream_write_op demo_ops) demo_write_protocol demo_rt_env demo_other
      demo_write_run (o1, w1) \<and>
    operation_drop (stream_write_op demo_ops) demo_rt_env (o1, w1) = Inr (x, o2, w2) \<and> registered_at w2 (wo_cell o1) = {}"
proof -
  let ?s = demo_write_run
  obtain o0 w0 where s: "?s = (o0, w0)" by (cases ?s)
  have 0: "\<not> is_done o0" "w_current w0 = Some (0, 2)"
    using new_run [OF s [unfolded demo_write_run_def]] by simp_all
  obtain x o1 w1 where p: "poll_complete (stream_write_op demo_ops) demo_rt_env (Task_Waker 0) (o0, w0) = Inr (x, o1, w1)"
    using stream_write.poll_complete_ok [OF demo_stream_write_quiet(1) demo_write_inv [unfolded s] 0(1,2)] by fastforce
  have step: "op_step (stream_write_op demo_ops) demo_write_protocol demo_rt_env demo_other (o0, w0) (o1, w1)"
    by (rule op_step.polled [OF 0(1,2) _ p]) simp
  then have "op_steps (stream_write_op demo_ops) demo_write_protocol demo_rt_env demo_other ?s (o1, w1)"
    unfolding s by (rule r_into_rtranclp)
  with stream_write_reachable_safe [of demo_rt_env demo_ops demo_holds "\<lambda>_ _ _. True" "[0, 0]" 0 demo_world demo_other
      demo_buffer 16 demo_writer o1 w1]
  show ?thesis using step s unfolding demo_write_run_def by simp blast
qed







section \<open>Futures\<close>







text \<open>
  C27: A future read that was started with a handle stays in its invariant in every reachable state, and
  can be dropped in each of them without a panic and without leaving a reference to its cell.
\<close>

theorem future_read_reachable_safe:
  assumes "quiet_env E (pr_quiet (future_read_protocol A ops R H L))"
    and "quiet_wakes E other (pr_quiet (future_read_protocol A ops R H L))"
    and "op_inv (future_read_op A ops) (future_read_protocol A ops R H L) s"
    and "op_steps (future_read_op A ops) (future_read_protocol A ops R H L) E other s (o1, w1)"
  shows "(case wo_state o1 of
       In_Progress (rd, c) \<Rightarrow> mem_calls (w_mach w1) = L @ alloc_calls c \<and>
         (\<exists>t. registered_at w1 (wo_cell o1) \<subseteq> {(t, fr_handle rd)})
     | _ \<Rightarrow> registered_at w1 (wo_cell o1) = {}) \<and>
    (\<exists>x o2 w2. operation_drop (future_read_op A ops) E (o1, w1) = Inr (x, o2, w2) \<and> is_done o2 \<and>
       registered_at w2 (wo_cell o1) = {})"
proof -
  let ?P = "future_read_protocol A ops R H L"
  have inv: "op_inv (future_read_op A ops) ?P (o1, w1)"
    by (rule future_read.reachable_ok [OF assms(1,2,4,3)])
  have drop: "\<exists>x o2 w2. operation_drop (future_read_op A ops) E (o1, w1) = Inr (x, o2, w2) \<and> is_done o2 \<and>
      registered_at w2 (wo_cell o1) = {}"
    using future_read.operation_drop_ok [OF assms(1) inv] by blast
  show ?thesis
  proof (cases "wo_state o1")
    case (In_Progress i)
    obtain rd c where i: "i = (rd, c)" by (cases i)
    have "pr_running ?P (rd, c) (wo_op o1) (w_mach w1)" using inv In_Progress i by (simp add: op_inv_def)
    moreover have "pr_handle ?P (rd, c) (wo_op o1) = fr_handle rd" by (simp add: future_read_protocol_def)
    ultimately show ?thesis
      using op_inv_registered [OF inv] drop In_Progress i by (simp add: future_read_protocol_def)
  qed (use op_inv_registered [OF inv] drop in simp_all)
qed

definition demo_future_read_run :: "(unit, future_reader, read_progress, demo_host) run" where
  "demo_future_read_run = operation_new () \<lparr>fr_handle = 3\<rparr> 16 demo_world"

theorem future_read_reachable_safe_witness:
  "\<exists>x o2 w2. operation_drop (future_read_op demo_alloc demo_future_ops) demo_rt_env demo_future_read_run = Inr (x, o2, w2) \<and>
    is_done o2"
proof -
  have "op_inv (future_read_op demo_alloc demo_future_ops)
      (future_read_protocol demo_alloc demo_future_ops demo_holds (\<lambda>_ _ _. True) []) demo_future_read_run"
    unfolding demo_future_read_run_def
    by (rule future_read.operation_new_ok) (simp_all add: future_read_protocol_def NO_HANDLE_def)
  then show ?thesis
    using future_read_reachable_safe [OF demo_future_read_quiet, of "\<lambda>_ _ _. True" "[]" demo_future_read_run
        "fst demo_future_read_run" "snd demo_future_read_run"] by auto
qed

section \<open>Calls of asynchronous imports\<close>






section \<open>Writers that are dropped unused\<close>



end
