(* ===== verification/Core_Async.thy ===== *)
theory Core_Async
  imports Wit
begin

text \<open>
  \<open>async_.rs\<close> of \<open>crates/core\<close>: the option \<open>--async\<close> that all generators share. A list of
  directives decides which functions are bound asynchronously; the first one that applies wins, and
  the directives that never decided anything are reported. The name of a world key is given by
  \<open>wit_parser\<close> and is a parameter.
\<close>

section \<open>Directives\<close>

fun strip_prefix :: "string \<Rightarrow> string \<Rightarrow> string option" where
  "strip_prefix [] s = Some s"
| "strip_prefix (p # ps) [] = None"
| "strip_prefix (p # ps) (c # s) = (if p = c then strip_prefix ps s else None)"

lemma strip_prefix_Some: "strip_prefix p s = Some t \<longleftrightarrow> s = p @ t"
  by (induction p s rule: strip_prefix.induct) auto

lemma strip_prefix_append [simp]: "strip_prefix p (p @ t) = Some t"
  by (simp add: strip_prefix_Some)

datatype async_filter =
    Filter_All | Filter_Function string | Filter_Import string | Filter_Export string

record async_option =
  ao_enabled :: bool
  ao_filter :: async_filter

definition parse_filter :: "string \<Rightarrow> async_filter" where
  "parse_filter s =
     (if s = ''all'' then Filter_All
      else
        case strip_prefix ''import:'' s of
          Some t \<Rightarrow> Filter_Import t
        | None \<Rightarrow>
            (case strip_prefix ''export:'' s of Some t \<Rightarrow> Filter_Export t | None \<Rightarrow> Filter_Function s))"

definition parse_async :: "string \<Rightarrow> async_option" where
  "parse_async s =
     (case strip_prefix ''-'' s of
        Some t \<Rightarrow> \<lparr>ao_enabled = False, ao_filter = parse_filter t\<rparr>
      | None \<Rightarrow> \<lparr>ao_enabled = True, ao_filter = parse_filter s\<rparr>)"

definition display_filter :: "async_filter \<Rightarrow> string" where
  "display_filter f =
     (case f of
        Filter_All \<Rightarrow> ''all''
      | Filter_Function s \<Rightarrow> s
      | Filter_Import s \<Rightarrow> ''import:'' @ s
      | Filter_Export s \<Rightarrow> ''export:'' @ s)"

definition display_async :: "async_option \<Rightarrow> string" where
  "display_async a = (if ao_enabled a then '''' else ''-'') @ display_filter (ao_filter a)"

section \<open>The set of directives\<close>

record async_set =
  as_options :: "async_option list"
  as_used :: "nat set"

definition async_all :: "bool \<Rightarrow> async_set" where
  "async_all b = \<lparr>as_options = [\<lparr>ao_enabled = b, ao_filter = Filter_All\<rparr>], as_used = {}\<rparr>"

definition async_push :: "string \<Rightarrow> async_set \<Rightarrow> async_set" where
  "async_push directive S = S\<lparr>as_options := as_options S @ [parse_async directive]\<rparr>"

definition any_enabled :: "async_set \<Rightarrow> bool" where
  "any_enabled S \<longleftrightarrow> list_ex ao_enabled (as_options S)"

definition debug_opts :: "async_set \<Rightarrow> string list" where
  "debug_opts S = map display_async (as_options S)"

definition name_to_test :: "(world_key \<Rightarrow> string) \<Rightarrow> world_key option \<Rightarrow> func \<Rightarrow> string" where
  "name_to_test name_world_key interface f =
     (case interface of Some key \<Rightarrow> name_world_key key @ ''#'' @ fn_name f | None \<Rightarrow> fn_name f)"

text \<open>The loop of \<open>is_async\<close>, from index \<open>i\<close> on: the option that decides, and the one that is marked.\<close>

fun decide :: "string \<Rightarrow> bool \<Rightarrow> nat \<Rightarrow> async_option list \<Rightarrow> (bool \<times> nat) option" where
  "decide name is_import i [] = None"
| "decide name is_import i (opt # opts) =
     (case ao_filter opt of
        Filter_All \<Rightarrow> Some (ao_enabled opt, i)
      | Filter_Function s \<Rightarrow>
          if s = name then Some (ao_enabled opt, i) else decide name is_import (Suc i) opts
      | Filter_Import s \<Rightarrow>
          if \<not> is_import then decide name is_import (Suc i) opts
          else if s = name then Some (ao_enabled opt, i) else decide name is_import (Suc i) opts
      | Filter_Export s \<Rightarrow>
          if is_import then decide name is_import (Suc i) opts
          else if s = name then Some (ao_enabled opt, i) else decide name is_import (Suc i) opts)"

definition async_kind :: "function_kind \<Rightarrow> bool" where
  "async_kind k =
     (case k of
        Freestanding \<Rightarrow> False | Method _ \<Rightarrow> False | Static _ \<Rightarrow> False | Constructor _ \<Rightarrow> False
      | AsyncFreestanding \<Rightarrow> True | AsyncMethod _ \<Rightarrow> True | AsyncStatic _ \<Rightarrow> True)"

definition is_async ::
    "(world_key \<Rightarrow> string) \<Rightarrow> world_key option \<Rightarrow> func \<Rightarrow> bool \<Rightarrow> async_set \<Rightarrow> bool \<times> async_set" where
  "is_async name_world_key interface f is_import S =
     (case decide (name_to_test name_world_key interface f) is_import 0 (as_options S) of
        Some (enabled, i) \<Rightarrow> (enabled, S\<lparr>as_used := insert i (as_used S)\<rparr>)
      | None \<Rightarrow> (async_kind (fn_kind f), S))"

text \<open>\<open>Inl\<close> is the error message.\<close>

fun unused_from :: "nat set \<Rightarrow> nat \<Rightarrow> async_option list \<Rightarrow> string + unit" where
  "unused_from used i [] = Inr ()"
| "unused_from used i (opt # opts) =
     (if i \<in> used then unused_from used (Suc i) opts
      else if ao_filter opt \<noteq> Filter_All then Inl (''unused async option: '' @ display_async opt)
      else unused_from used (Suc i) opts)"

definition ensure_all_used :: "async_set \<Rightarrow> string + unit" where
  "ensure_all_used S = unused_from (as_used S) 0 (as_options S)"

section \<open>Printing and parsing\<close>

text \<open>The directives that their own text names: all but a function that looks like another directive.\<close>

definition plain :: "async_option \<Rightarrow> bool" where
  "plain a =
     (case ao_filter a of
        Filter_Function s \<Rightarrow>
          s \<noteq> ''all'' \<and> strip_prefix ''import:'' s = None \<and> strip_prefix ''export:'' s = None \<and>
          (ao_enabled a \<longrightarrow> strip_prefix ''-'' s = None)
      | _ \<Rightarrow> True)"

lemma display_parse_filter: "display_filter (parse_filter s) = s"
  by (auto simp: display_filter_def parse_filter_def strip_prefix_Some split: option.split)

lemma display_parse_async: "display_async (parse_async s) = s"
proof (cases "strip_prefix ''-'' s")
  case None
  then show ?thesis by (simp add: display_async_def parse_async_def display_parse_filter)
next
  case (Some t)
  then have "s = ''-'' @ t" by (simp only: strip_prefix_Some)
  then show ?thesis using Some by (simp add: display_async_def parse_async_def display_parse_filter)
qed

lemma parse_display_filter:
  "parse_filter (display_filter f) = f \<longleftrightarrow>
    (case f of
       Filter_Function s \<Rightarrow> s \<noteq> ''all'' \<and> strip_prefix ''import:'' s = None \<and> strip_prefix ''export:'' s = None
     | _ \<Rightarrow> True)"
  by (cases f) (auto simp: parse_filter_def display_filter_def split: option.split)

lemma parse_display_async: "parse_async (display_async a) = a \<longleftrightarrow> plain a"
proof (cases "ao_enabled a")
  case False
  then have "parse_async (display_async a) = \<lparr>ao_enabled = False, ao_filter = parse_filter (display_filter (ao_filter a))\<rparr>"
    using strip_prefix_append [of "''-''" "display_filter (ao_filter a)"]
    by (simp add: parse_async_def display_async_def)
  then show ?thesis
    using False parse_display_filter [of "ao_filter a"]
    by (cases a) (auto simp: plain_def split: async_filter.split)
next
  case True
  note t = True
  show ?thesis
  proof (cases "strip_prefix ''-'' (display_filter (ao_filter a))")
    case None
    then show ?thesis
      using t parse_display_filter [of "ao_filter a"]
      by (cases a) (auto simp: parse_async_def display_async_def plain_def display_filter_def split: async_filter.splits)
  next
    case (Some u)
    then have "\<not> ao_enabled (parse_async (display_async a))"
      using t by (simp add: parse_async_def display_async_def)
    moreover have "\<not> plain a"
      using Some t by (auto simp: plain_def display_filter_def split: async_filter.splits)
    ultimately show ?thesis using t by metis
  qed
qed

section \<open>The directive that decides\<close>

definition applies :: "string \<Rightarrow> bool \<Rightarrow> async_option \<Rightarrow> bool" where
  "applies name is_import opt =
     (case ao_filter opt of
        Filter_All \<Rightarrow> True
      | Filter_Function s \<Rightarrow> s = name
      | Filter_Import s \<Rightarrow> is_import \<and> s = name
      | Filter_Export s \<Rightarrow> \<not> is_import \<and> s = name)"

definition first_applies :: "string \<Rightarrow> bool \<Rightarrow> async_option list \<Rightarrow> nat \<Rightarrow> bool" where
  "first_applies name is_import opts i \<longleftrightarrow>
     i < length opts \<and> applies name is_import (opts ! i) \<and> (\<forall>j < i. \<not> applies name is_import (opts ! j))"

lemma decide_Cons:
  "decide name is_import i (opt # opts) =
    (if applies name is_import opt then Some (ao_enabled opt, i) else decide name is_import (Suc i) opts)"
  by (auto simp: applies_def split: async_filter.split)

lemma decide_first:
  "decide name is_import i opts = Some (b, k) \<longleftrightarrow>
    (\<exists>j. k = i + j \<and> first_applies name is_import opts j \<and> b = ao_enabled (opts ! j))"
proof (induction opts arbitrary: i)
  case Nil
  then show ?case by (simp add: first_applies_def)
next
  case (Cons opt opts)
  show ?case
  proof (cases "applies name is_import opt")
    case True
    then have "first_applies name is_import (opt # opts) j \<longleftrightarrow> j = 0" for j
      by (cases j) (auto simp: first_applies_def)
    then show ?thesis using True by (auto simp: decide_Cons simp del: decide.simps)
  next
    case False
    then have "first_applies name is_import (opt # opts) j \<longleftrightarrow>
        (\<exists>k. j = Suc k \<and> first_applies name is_import opts k)" for j
      by (cases j) (auto simp: first_applies_def less_Suc_eq_0_disj)
    then show ?thesis using False Cons.IH [of "Suc i"] by (auto simp: decide_Cons simp del: decide.simps)
  qed
qed

lemma decide_None: "decide name is_import i opts = None \<longleftrightarrow> (\<forall>opt \<in> set opts. \<not> applies name is_import opt)"
  by (induction opts arbitrary: i) (simp_all add: decide_Cons del: decide.simps(2))

lemma unused_from_error:
  "unused_from used i opts = Inl e \<longleftrightarrow>
    (\<exists>j < length opts. i + j \<notin> used \<and> ao_filter (opts ! j) \<noteq> Filter_All \<and>
       e = ''unused async option: '' @ display_async (opts ! j) \<and>
       (\<forall>k < j. i + k \<in> used \<or> ao_filter (opts ! k) = Filter_All))"
proof (induction opts arbitrary: i)
  case Nil
  then show ?case by simp
next
  case (Cons opt opts)
  then show ?case
    using Cons.IH [of "Suc i"] by (auto simp: Ex_less_Suc2 All_less_Suc2)
qed

lemma unused_from_ok:
  "unused_from used i opts = Inr () \<longleftrightarrow>
    (\<forall>j < length opts. i + j \<in> used \<or> ao_filter (opts ! j) = Filter_All)"
proof (induction opts arbitrary: i)
  case Nil
  then show ?case by simp
next
  case (Cons opt opts)
  then show ?case
    using Cons.IH [of "Suc i"] by (auto simp: All_less_Suc2)
qed

lemma first_applies_unique:
  "first_applies name is_import opts i \<Longrightarrow> first_applies name is_import opts j \<Longrightarrow> i = j"
  unfolding first_applies_def by (meson linorder_neqE_nat)

text \<open>Asking for a list of functions in turn, as a generator does.\<close>

fun ask_all ::
    "(world_key \<Rightarrow> string) \<Rightarrow> (world_key option \<times> func \<times> bool) list \<Rightarrow> async_set \<Rightarrow> async_set" where
  "ask_all nk [] S = S"
| "ask_all nk ((interface, f, is_import) # qs) S = ask_all nk qs (snd (is_async nk interface f is_import S))"

definition decided_by ::
    "(world_key \<Rightarrow> string) \<Rightarrow> async_option list \<Rightarrow> world_key option \<times> func \<times> bool \<Rightarrow> nat \<Rightarrow> bool" where
  "decided_by nk opts q i = (case q of (interface, f, is_import) \<Rightarrow>
     first_applies (name_to_test nk interface f) is_import opts i)"

lemma is_async_used:
  "as_options (snd (is_async nk interface f is_import S)) = as_options S"
  "as_used (snd (is_async nk interface f is_import S)) =
    as_used S \<union> {i. decided_by nk (as_options S) (interface, f, is_import) i}"
proof -
  show "as_options (snd (is_async nk interface f is_import S)) = as_options S"
    by (simp add: is_async_def split: option.split)
  let ?d = "decide (name_to_test nk interface f) is_import 0 (as_options S)"
  have "{i. decided_by nk (as_options S) (interface, f, is_import) i} =
      (case ?d of None \<Rightarrow> {} | Some (b, i) \<Rightarrow> {i})"
  proof (cases ?d)
    case None
    then have "\<not> applies (name_to_test nk interface f) is_import (as_options S ! i)" if "i < length (as_options S)" for i
      using that by (simp add: decide_None)
    then show ?thesis unfolding None by (auto simp: decided_by_def first_applies_def)
  next
    case (Some bi)
    obtain b k where "bi = (b, k)" by (cases bi)
    then have f: "first_applies (name_to_test nk interface f) is_import (as_options S) k"
      using Some decide_first [of "name_to_test nk interface f" is_import 0 "as_options S" b k] by auto
    have "i = k" if "first_applies (name_to_test nk interface f) is_import (as_options S) i" for i
      by (rule first_applies_unique [OF that f])
    then have "decided_by nk (as_options S) (interface, f, is_import) i \<longleftrightarrow> i = k" for i
      using f by (metis decided_by_def prod.case)
    then show ?thesis using Some \<open>bi = (b, k)\<close> by simp
  qed
  then show "as_used (snd (is_async nk interface f is_import S)) =
      as_used S \<union> {i. decided_by nk (as_options S) (interface, f, is_import) i}"
    by (auto simp: is_async_def split: option.split)
qed

lemma ask_all_used:
  "as_options (ask_all nk qs S) = as_options S \<and>
   as_used (ask_all nk qs S) = as_used S \<union> {i. \<exists>q \<in> set qs. decided_by nk (as_options S) q i}"
proof (induction qs arbitrary: S)
  case Nil
  then show ?case by simp
next
  case (Cons q qs)
  obtain interface f is_import where q: "q = (interface, f, is_import)" by (cases q)
  show ?case
    unfolding q ask_all.simps
    using Cons.IH [of "snd (is_async nk interface f is_import S)"] is_async_used [of nk interface f is_import S]
    by auto
qed

end
