(* ===== verification/Core_Names.thy ===== *)
theory Core_Names
  imports Wit
begin

text \<open>
  The names that the generators make up: \<open>Ns\<close> of \<open>ns.rs\<close>, which finds a temporary that is not taken
  yet, and \<open>name_package_module\<close> of \<open>path.rs\<close>. The conversion to snake case is the crate \<open>heck\<close> and a
  parameter; a version is given by its text. The counter is unbounded here: the source's has 64 bits,
  and one name is taken for each step of it.
\<close>

section \<open>Numbers in decimal\<close>

text \<open>What \<open>format!("{}", n)\<close> prints.\<close>

definition digit :: "nat \<Rightarrow> char" where
  "digit n = char_of (48 + n)"

fun decimal :: "nat \<Rightarrow> string" where
  "decimal n = (if n < 10 then [digit n] else decimal (n div 10) @ [digit (n mod 10)])"

declare decimal.simps [simp del]

definition read_decimal :: "string \<Rightarrow> nat" where
  "read_decimal s = foldl (\<lambda>v c. v * 10 + (of_char c - 48)) 0 s"

lemma read_digit: "n < 10 \<Longrightarrow> of_char (digit n) - 48 = (n :: nat)"
  by (simp add: digit_def)

lemma read_decimal_decimal: "read_decimal (decimal n) = n"
proof (induction n rule: decimal.induct)
  case (1 n)
  show ?case
  proof (cases "n < 10")
    case True
    then show ?thesis using read_digit [OF True] by (simp add: decimal.simps [of n] read_decimal_def)
  next
    case False
    have "n mod 10 < 10" by simp
    then show ?thesis
      using 1 [OF False] False read_digit [of "n mod 10"]
      by (simp add: decimal.simps [of n] read_decimal_def)
  qed
qed

lemma decimal_inject [simp]: "decimal m = decimal n \<longleftrightarrow> m = n"
  by (metis read_decimal_decimal)

lemma decimal_not_Nil [simp]: "decimal n \<noteq> []"
  by (simp add: decimal.simps [of n])

section \<open>Namespaces\<close>

record ns =
  ns_defined :: "string set"
  ns_counter :: nat

definition ns_insert :: "string \<Rightarrow> ns \<Rightarrow> (string + unit) \<times> ns" where
  "ns_insert name s =
     (if name \<in> ns_defined s then (Inl (''name `'' @ name @ ''` already defined''), s)
      else (Inr (), s\<lparr>ns_defined := insert name (ns_defined s)\<rparr>))"

text \<open>The loop of \<open>tmp\<close>: try the next number while the candidate is taken.\<close>

fun tmp_loop :: "nat \<Rightarrow> string \<Rightarrow> string \<Rightarrow> ns \<Rightarrow> (string \<times> ns) res" where
  "tmp_loop 0 name ret s = Inl Out_Of_Fuel"
| "tmp_loop (Suc n) name ret s =
     (if ret \<in> ns_defined s
      then tmp_loop n name (name @ decimal (ns_counter s)) (s\<lparr>ns_counter := ns_counter s + 1\<rparr>)
      else Inr (ret, s))"

definition ns_tmp :: "nat \<Rightarrow> string \<Rightarrow> ns \<Rightarrow> (string \<times> ns) res" where
  "ns_tmp n name s =
     and_then (tmp_loop n name name s) (\<lambda>(ret, s).
       Inr (ret, s\<lparr>ns_defined := insert ret (ns_defined s)\<rparr>))"

text \<open>
  The names that are still in the way, from a counter on, bound the number of turns.
\<close>

definition taken :: "string \<Rightarrow> nat \<Rightarrow> string set \<Rightarrow> string set" where
  "taken name k D = {name @ decimal j |j. k \<le> j} \<inter> D"

lemma taken_step:
  assumes "finite D" "name @ decimal k \<in> D"
  shows "card (taken name (Suc k) D) < card (taken name k D)"
proof (rule psubset_card_mono)
  show "finite (taken name k D)" using assms(1) by (simp add: taken_def)
  have "taken name (Suc k) D \<subseteq> taken name k D" by (auto simp: taken_def intro: Suc_leD)
  moreover have "name @ decimal k \<in> taken name k D" using assms(2) by (auto simp: taken_def)
  moreover have "name @ decimal k \<notin> taken name (Suc k) D" by (auto simp: taken_def)
  ultimately show "taken name (Suc k) D \<subset> taken name k D" by blast
qed

lemma tmp_loop_number:
  assumes "finite (ns_defined s)" "ns_counter s = Suc k" "card (taken name k (ns_defined s)) < n"
  shows "\<exists>j \<ge> k. tmp_loop n name (name @ decimal k) s = Inr (name @ decimal j, s\<lparr>ns_counter := Suc j\<rparr>) \<and>
    name @ decimal j \<notin> ns_defined s \<and> (\<forall>i. k \<le> i \<and> i < j \<longrightarrow> name @ decimal i \<in> ns_defined s)"
  using assms
proof (induction n arbitrary: s k)
  case 0
  then show ?case by simp
next
  case (Suc n)
  show ?case
  proof (cases "name @ decimal k \<in> ns_defined s")
    case False
    moreover have "s\<lparr>ns_counter := Suc k\<rparr> = s" using Suc.prems(2) by (cases s) simp
    ultimately show ?thesis by (intro exI [of _ k]) auto
  next
    case True
    let ?s = "s\<lparr>ns_counter := Suc (Suc k)\<rparr>"
    have "card (taken name (Suc k) (ns_defined ?s)) < n"
      using taken_step [OF Suc.prems(1) True] Suc.prems(3) by simp
    from Suc.IH [OF _ _ this] obtain j where j: "Suc k \<le> j"
      "tmp_loop n name (name @ decimal (Suc k)) ?s = Inr (name @ decimal j, ?s\<lparr>ns_counter := Suc j\<rparr>)"
      "name @ decimal j \<notin> ns_defined s"
      "\<forall>i. Suc k \<le> i \<and> i < j \<longrightarrow> name @ decimal i \<in> ns_defined s"
      using Suc.prems(1) by auto
    have "name @ decimal i \<in> ns_defined s" if "k \<le> i" "i < j" for i
      using True j(4) that by (cases "i = k") auto
    then show ?thesis using True j Suc.prems(2) by (intro exI [of _ j]) simp
  qed
qed

lemma card_taken: "finite D \<Longrightarrow> name \<in> D \<Longrightarrow> card (taken name k D) < card D"
proof (rule psubset_card_mono)
  assume "name \<in> D"
  moreover have "name \<notin> taken name k D" by (auto simp: taken_def)
  moreover have "taken name k D \<subseteq> D" by (auto simp: taken_def)
  ultimately show "taken name k D \<subset> D" by blast
qed

lemma ns_tmp_taken:
  assumes "finite (ns_defined s)" "name \<in> ns_defined s" "card (ns_defined s) < n"
  shows "\<exists>j \<ge> ns_counter s. ns_tmp n name s = Inr (name @ decimal j,
      \<lparr>ns_defined = insert (name @ decimal j) (ns_defined s), ns_counter = Suc j\<rparr>) \<and>
    name @ decimal j \<notin> ns_defined s \<and>
    (\<forall>i. ns_counter s \<le> i \<and> i < j \<longrightarrow> name @ decimal i \<in> ns_defined s)"
proof -
  obtain m where n: "n = Suc m" using assms(3) by (cases n) simp_all
  let ?s = "s\<lparr>ns_counter := Suc (ns_counter s)\<rparr>"
  have "card (taken name (ns_counter s) (ns_defined ?s)) < m"
    using card_taken [OF assms(1,2), of "ns_counter s"] assms(3) n by simp
  from tmp_loop_number [OF _ _ this] obtain j where j: "ns_counter s \<le> j"
    "tmp_loop m name (name @ decimal (ns_counter s)) ?s = Inr (name @ decimal j, ?s\<lparr>ns_counter := Suc j\<rparr>)"
    "name @ decimal j \<notin> ns_defined s"
    "\<forall>i. ns_counter s \<le> i \<and> i < j \<longrightarrow> name @ decimal i \<in> ns_defined s"
    using assms(1) by auto
  have "ns_tmp n name s = Inr (name @ decimal j,
      \<lparr>ns_defined = insert (name @ decimal j) (ns_defined s), ns_counter = Suc j\<rparr>)"
    using assms(2) j(2) by (cases s) (simp add: ns_tmp_def n)
  then show ?thesis using j by blast
qed

section \<open>Module names of packages\<close>

definition same_name :: "package_name \<Rightarrow> package_name \<Rightarrow> bool" where
  "same_name p q \<longleftrightarrow> pn_namespace p = pn_namespace q \<and> pn_name p = pn_name q"

definition replace_char :: "char \<Rightarrow> char \<Rightarrow> string \<Rightarrow> string" where
  "replace_char a b s = map (\<lambda>c. if c = a then b else c) s"

definition mangle_version :: "(string \<Rightarrow> string) \<Rightarrow> string \<Rightarrow> string" where
  "mangle_version snake v =
     snake (replace_char CHR ''+'' CHR ''_''
       (replace_char CHR ''-'' CHR ''_'' (replace_char CHR ''.'' CHR ''_'' v)))"

definition name_package_module :: "(string \<Rightarrow> string) \<Rightarrow> resolve \<Rightarrow> package_id \<Rightarrow> string res" where
  "name_package_module snake r i =
     and_then (index (r_packages r) i) (\<lambda>pkg.
       let versions = filter (\<lambda>p. same_name p pkg) (r_packages r); base = snake (pn_name pkg) in
       Inr (if length versions = 1 then base
            else case pn_version pkg of None \<Rightarrow> base | Some v \<Rightarrow> base @ mangle_version snake v))"

text \<open>The name is the plain one if and only if no other package has it, or the package has no version.\<close>

lemma name_package_module_alone:
  assumes "i < length (r_packages r)" "\<And>j. j < length (r_packages r) \<Longrightarrow> j \<noteq> i \<Longrightarrow>
      \<not> same_name (r_packages r ! j) (r_packages r ! i)"
  shows "name_package_module snake r i = Inr (snake (pn_name (r_packages r ! i)))"
proof -
  have "{j. j < length (r_packages r) \<and> same_name (r_packages r ! j) (r_packages r ! i)} = {i}"
    using assms by (auto simp: same_name_def)
  then have "length (filter (\<lambda>p. same_name p (r_packages r ! i)) (r_packages r)) = 1"
    by (simp add: length_filter_conv_card)
  then show ?thesis using assms(1) by (simp add: name_package_module_def)
qed

text \<open>Two versions that differ only in their separators get the same name.\<close>

lemma versions_collide:
  "name_package_module snake
     \<lparr>r_types = [], r_worlds = [], r_interfaces = [],
      r_packages = [\<lparr>pn_namespace = ns, pn_name = nm, pn_version = Some ''1.0.0-a''\<rparr>,
        \<lparr>pn_namespace = ns, pn_name = nm, pn_version = Some ''1.0.0+a''\<rparr>]\<rparr> i =
   (if i < 2 then Inr (snake nm @ snake ''1_0_0_a'') else Inl Index_Out_Of_Range)"
  by (auto simp: name_package_module_def index_def same_name_def mangle_version_def replace_char_def
      less_2_cases_iff)

end
