(* ===== verification/Core_Source.thy ===== *)
theory Core_Source
  imports Prelude "HOL-Library.Mapping" "HOL-Library.List_Lexorder" "HOL-Library.Char_ord"
begin

text \<open>
  \<open>source.rs\<close>: the buffer that all generators write code into, which indents by the braces it sees,
  and the set of generated files. A character is a code point below 256; \<open>char::is_whitespace\<close> is
  written out for these.
\<close>

section \<open>Strings of the standard library\<close>

definition newline :: char where
  "newline = CHR 0x0A"

definition whitespace :: "char \<Rightarrow> bool" where
  "whitespace c \<longleftrightarrow>
     c \<in> {CHR 0x09, CHR 0x0A, CHR 0x0B, CHR 0x0C, CHR 0x0D, CHR 0x20, CHR 0x85, CHR 0xA0}"

definition trim_start :: "string \<Rightarrow> string" where
  "trim_start s = dropWhile whitespace s"

definition trim :: "string \<Rightarrow> string" where
  "trim s = rev (dropWhile whitespace (rev (trim_start s)))"

definition starts_with :: "string \<Rightarrow> string \<Rightarrow> bool" where
  "starts_with p s \<longleftrightarrow> take (length p) s = p"

definition ends_with :: "string \<Rightarrow> string \<Rightarrow> bool" where
  "ends_with p s \<longleftrightarrow> length p \<le> length s \<and> drop (length s - length p) s = p"

definition strip_cr :: "string \<Rightarrow> string" where
  "strip_cr s = (if s \<noteq> [] \<and> last s = CHR 0x0D then butlast s else s)"

text \<open>\<open>str::lines\<close>: a line ends with a line feed, before which a carriage return is dropped.\<close>

fun lines_from :: "string \<Rightarrow> string \<Rightarrow> string list" where
  "lines_from cur [] = (if cur = [] then [] else [cur])"
| "lines_from cur (c # cs) =
     (if c = newline then strip_cr cur # lines_from [] cs else lines_from (cur @ [c]) cs)"

definition str_lines :: "string \<Rightarrow> string list" where
  "str_lines s = lines_from [] s"

section \<open>Files\<close>

type_synonym files = "(string, 8 word list) mapping"

definition files_push :: "string \<Rightarrow> 8 word list \<Rightarrow> files \<Rightarrow> files" where
  "files_push name contents fs =
     (case Mapping.lookup fs name of
        None \<Rightarrow> Mapping.update name contents fs
      | Some old \<Rightarrow> Mapping.update name (old @ contents) fs)"

definition files_get_size :: "string \<Rightarrow> files \<Rightarrow> nat option" where
  "files_get_size name fs = map_option length (Mapping.lookup fs name)"

definition files_remove :: "string \<Rightarrow> files \<Rightarrow> 8 word list option \<times> files" where
  "files_remove name fs = (Mapping.lookup fs name, Mapping.delete name fs)"

text \<open>In the order of the names, as a \<open>BTreeMap\<close> gives its entries.\<close>

definition files_iter :: "files \<Rightarrow> (string \<times> 8 word list) list" where
  "files_iter fs = Mapping.ordered_entries fs"

lemma files_push_lookup:
  "Mapping.lookup (files_push name contents fs) k =
    (if k = name then Some ((case Mapping.lookup fs name of None \<Rightarrow> [] | Some old \<Rightarrow> old) @ contents)
     else Mapping.lookup fs k)"
  by (simp add: files_push_def lookup_update' split: option.split)

section \<open>Source\<close>

record source =
  src_text :: string
  src_indent :: nat
  src_in_line_comment :: bool
  src_continuing_line :: bool

definition source_default :: source where
  "source_default = \<lparr>src_text = [], src_indent = 0, src_in_line_comment = False, src_continuing_line = False\<rparr>"

definition append_src :: "source \<Rightarrow> source \<Rightarrow> source" where
  "append_src a s =
     s\<lparr>src_text := src_text s @ src_text a, src_indent := src_indent s + src_indent a,
       src_in_line_comment := src_in_line_comment a\<rparr>"

definition source_newline :: "source \<Rightarrow> source" where
  "source_newline s =
     s\<lparr>src_in_line_comment := False, src_continuing_line := False, src_text := src_text s @ [newline]\<rparr>"

text \<open>The indentation of a line that begins.\<close>

definition begin_line :: "string \<Rightarrow> source \<Rightarrow> source" where
  "begin_line line s =
     (if \<not> src_continuing_line s then
        s\<lparr>src_text := src_text s @ (if line \<noteq> [] then concat (replicate (src_indent s) ''  '') else []),
          src_continuing_line := True\<rparr>
      else s)"

text \<open>A closing brace takes back one level of the indentation that is already there.\<close>

definition dedent_brace :: "string \<Rightarrow> source \<Rightarrow> source" where
  "dedent_brace trimmed s =
     (if starts_with ''}'' trimmed \<and> ends_with ''  '' (src_text s)
      then s\<lparr>src_text := butlast (butlast (src_text s))\<rparr> else s)"

definition count_braces :: "string \<Rightarrow> source \<Rightarrow> source" where
  "count_braces trimmed s =
     (let s = (if ends_with ''{'' trimmed then s\<lparr>src_indent := src_indent s + 1\<rparr> else s) in
      if starts_with ''}'' trimmed then s\<lparr>src_indent := src_indent s - 1\<rparr> else s)"

text \<open>One turn of the loop of \<open>push_str_impl\<close>.\<close>

definition push_line :: "bool \<Rightarrow> bool \<Rightarrow> bool \<Rightarrow> string \<Rightarrow> source \<Rightarrow> source" where
  "push_line interpret_syntax single ends line s =
     (let s = begin_line line s;
          trimmed = trim line;
          s = (if interpret_syntax \<and> starts_with ''//'' trimmed then s\<lparr>src_in_line_comment := True\<rparr> else s);
          code = (interpret_syntax \<and> \<not> src_in_line_comment s);
          s = (if code then dedent_brace trimmed s else s);
          s = s\<lparr>src_text := src_text s @ (if single then line else trim_start line)\<rparr>;
          s = (if code then count_braces trimmed s else s) in
      if ends then source_newline s else s)"

fun push_lines :: "bool \<Rightarrow> bool \<Rightarrow> bool \<Rightarrow> string list \<Rightarrow> source \<Rightarrow> source" where
  "push_lines interpret_syntax single nl [] s = s"
| "push_lines interpret_syntax single nl (line # rest) s =
     push_lines interpret_syntax single nl rest
       (push_line interpret_syntax single (rest \<noteq> [] \<or> nl) line s)"

definition push_str_impl :: "bool \<Rightarrow> string \<Rightarrow> source \<Rightarrow> source" where
  "push_str_impl interpret_syntax src s =
     (let lines = str_lines src in
      push_lines interpret_syntax (length lines = 1) (ends_with [newline] src) lines s)"

definition push_str :: "string \<Rightarrow> source \<Rightarrow> source" where
  "push_str src s = push_str_impl True src s"

definition push_str_literal :: "string \<Rightarrow> source \<Rightarrow> source" where
  "push_str_literal src s = push_str_impl False src s"

definition indent_by :: "nat \<Rightarrow> source \<Rightarrow> source" where
  "indent_by amt s = s\<lparr>src_indent := src_indent s + amt\<rparr>"

definition deindent :: "nat \<Rightarrow> source step" where
  "deindent amt s = (if amt \<le> src_indent s then Inr (s\<lparr>src_indent := src_indent s - amt\<rparr>) else Inl Sub_Overflow)"

definition set_indent :: "nat \<Rightarrow> source \<Rightarrow> nat \<times> source" where
  "set_indent amt s = (src_indent s, s\<lparr>src_indent := amt\<rparr>)"

section \<open>Only whitespace is touched\<close>

definition ink :: "string \<Rightarrow> string" where
  "ink s = filter (\<lambda>c. \<not> whitespace c) s"

lemma ink_append [simp]: "ink (s @ t) = ink s @ ink t"
  by (simp add: ink_def)

lemma ink_simps [simp]:
  "ink [] = []" "whitespace c \<Longrightarrow> ink (c # s) = ink s" "\<not> whitespace c \<Longrightarrow> ink (c # s) = c # ink s"
  by (simp_all add: ink_def)

lemma whitespace_simps [simp]:
  "whitespace newline" "whitespace CHR 0x0D" "whitespace CHR '' ''"
  by (simp_all add: whitespace_def newline_def)

lemma ink_dropWhile [simp]: "ink (dropWhile whitespace s) = ink s"
  by (induction s) simp_all

lemma ink_trim_start [simp]: "ink (trim_start s) = ink s"
  by (simp add: trim_start_def)

lemma ink_butlast: "s \<noteq> [] \<Longrightarrow> whitespace (last s) \<Longrightarrow> ink (butlast s) = ink s"
  by (induction s rule: rev_induct) simp_all

lemma ink_strip_cr [simp]: "ink (strip_cr s) = ink s"
  by (simp add: strip_cr_def ink_butlast)

lemma ink_indentation [simp]: "ink (concat (replicate n ''  '')) = []"
  by (induction n) simp_all

lemma ink_lines_from: "concat (map ink (lines_from cur s)) = ink cur @ ink s"
proof (induction cur s rule: lines_from.induct)
  case (2 cur c cs)
  then show ?case by (cases "whitespace c") auto
qed simp

lemma ink_two_spaces:
  assumes "ends_with ''  '' s"
  shows "ink (butlast (butlast s)) = ink s"
proof -
  obtain t where "s = t @ ''  ''"
    using assms by (metis append_take_drop_id ends_with_def)
  then show ?thesis by (simp add: butlast_append)
qed

lemma ink_push_line [simp]:
  "ink (src_text (push_line interp single ends line s)) = ink (src_text s) @ ink line"
  by (simp add: push_line_def begin_line_def dedent_brace_def count_braces_def source_newline_def Let_def
      ink_two_spaces)

lemma ink_push_lines:
  "ink (src_text (push_lines interp single nl ls s)) = ink (src_text s) @ concat (map ink ls)"
  by (induction ls arbitrary: s) simp_all

lemma ink_push_str_impl: "ink (src_text (push_str_impl interp t s)) = ink (src_text s) @ ink t"
  by (simp add: push_str_impl_def Let_def ink_push_lines str_lines_def ink_lines_from)

text \<open>Literal text does not count braces.\<close>

lemma push_literal_indent: "src_indent (push_str_impl False t s) = src_indent s"
proof -
  have "src_indent (push_line False single ends line s) = src_indent s" for single ends line s
    by (simp add: push_line_def begin_line_def source_newline_def Let_def)
  then have "src_indent (push_lines False single nl ls s) = src_indent s" for single nl ls
    by (induction ls arbitrary: s) simp_all
  then show ?thesis by (simp add: push_str_impl_def Let_def)
qed

section \<open>Indentation only where a line begins\<close>

definition at_line_start :: "source \<Rightarrow> bool" where
  "at_line_start s \<longleftrightarrow> src_text s = [] \<or> last (src_text s) = newline"

definition lines_inv :: "source \<Rightarrow> bool" where
  "lines_inv s \<longleftrightarrow> (\<not> src_continuing_line s \<longrightarrow> at_line_start s)"

lemma push_line_flag:
  "src_continuing_line (push_line interp single ends line s) \<longleftrightarrow> \<not> ends"
  "ends \<Longrightarrow> at_line_start (push_line interp single ends line s)"
  by (simp_all add: push_line_def begin_line_def dedent_brace_def count_braces_def source_newline_def Let_def
      at_line_start_def)

lemma push_lines_inv: "lines_inv s \<Longrightarrow> lines_inv (push_lines interp single nl ls s)"
proof (induction ls arbitrary: s)
  case Nil
  then show ?case by simp
next
  case (Cons l ls)
  have "lines_inv (push_line interp single (ls \<noteq> [] \<or> nl) l s)"
    unfolding lines_inv_def push_line_flag(1) by (auto intro: push_line_flag(2))
  then show ?case using Cons.IH by simp
qed

lemma push_str_impl_inv: "lines_inv s \<Longrightarrow> lines_inv (push_str_impl interp t s)"
  by (simp add: push_str_impl_def Let_def push_lines_inv)

section \<open>Chunks\<close>

text \<open>Text may be pushed in chunks of whole lines, if no line has leading whitespace of its own.\<close>

lemma lines_from_append: "lines_from cur (a @ newline # b) = lines_from cur (a @ [newline]) @ lines_from [] b"
  by (induction a arbitrary: cur) simp_all

lemma ends_with_newline: "ends_with [newline] s \<longleftrightarrow> s \<noteq> [] \<and> last s = newline"
proof (cases s rule: rev_cases)
  case Nil
  then show ?thesis by (simp add: ends_with_def)
next
  case (snoc t c)
  then show ?thesis by (simp add: ends_with_def)
qed

lemma str_lines_append:
  assumes "ends_with [newline] a"
  shows "str_lines (a @ b) = str_lines a @ str_lines b"
proof -
  obtain t where "a = t @ [newline]"
    using assms by (metis append_butlast_last_id ends_with_newline)
  then show ?thesis using lines_from_append [of "[]" t b] by (simp add: str_lines_def)
qed

lemma lines_from_Nil: "lines_from cur s = [] \<longleftrightarrow> cur = [] \<and> s = []"
  by (induction cur s rule: lines_from.induct) auto

lemma push_lines_append:
  "push_lines interp single nl (ls @ ms) s =
    push_lines interp single nl ms (push_lines interp single (ms \<noteq> [] \<or> nl) ls s)"
  by (induction ls arbitrary: s) (auto simp: disj_commute)

definition flush_left :: "string \<Rightarrow> bool" where
  "flush_left s \<longleftrightarrow> (\<forall>l \<in> set (str_lines s). trim_start l = l)"

lemma push_lines_single:
  assumes "\<forall>l \<in> set ls. trim_start l = l"
  shows "push_lines interp single nl ls s = push_lines interp single' nl ls s"
  using assms by (induction ls arbitrary: s) (simp_all add: push_line_def Let_def)

lemma push_str_impl_chunks:
  assumes "ends_with [newline] a" "flush_left a" "flush_left b"
  shows "push_str_impl interp (a @ b) s = push_str_impl interp b (push_str_impl interp a s)"
proof -
  have nl: "ends_with [newline] (a @ b) \<longleftrightarrow> b = [] \<or> ends_with [newline] b"
    using assms(1) by (auto simp: ends_with_newline)
  have b: "str_lines b = [] \<longleftrightarrow> b = []" by (simp add: str_lines_def lines_from_Nil)
  let ?p = "push_lines interp"
  have flag: "(str_lines b \<noteq> [] \<or> ends_with [newline] (a @ b)) = True"
    using nl b by auto
  have "push_str_impl interp (a @ b) s =
      ?p False (ends_with [newline] (a @ b)) (str_lines a @ str_lines b) s"
    using assms(2,3) push_lines_single [of "str_lines a @ str_lines b"]
    by (simp add: push_str_impl_def Let_def str_lines_append [OF assms(1)] flush_left_def) (blast)
  also have "\<dots> = ?p False (ends_with [newline] (a @ b)) (str_lines b) (?p False True (str_lines a) s)"
    unfolding push_lines_append flag ..
  also have "?p False True (str_lines a) s = push_str_impl interp a s"
    using assms(1,2) push_lines_single [of "str_lines a" interp False True s]
    by (simp add: push_str_impl_def Let_def flush_left_def)
  also have "?p False (ends_with [newline] (a @ b)) (str_lines b) t = push_str_impl interp b t" for t
  proof (cases "b = []")
    case True
    then show ?thesis by (simp add: push_str_impl_def str_lines_def)
  next
    case False
    then show ?thesis
      using nl assms(3) push_lines_single [of "str_lines b" interp False "ends_with [newline] b" t]
      by (simp add: push_str_impl_def Let_def flush_left_def)
  qed
  finally show ?thesis .
qed

end
