(* ===== verification/Core_Driver.thy ===== *)
theory Core_Driver
  imports Wit Core_Source
begin

text \<open>
  \<open>lib.rs\<close> of \<open>crates/core\<close>: how a world is walked (\<open>WorldGenerator::generate\<close>), how a type is handed
  to the method for its kind (\<open>define_type\<close>, \<open>define_anonymous_type\<close>), and \<open>dealias\<close>. The traits are
  records of their methods; \<open>'s\<close> is the state of the generator together with the files, \<open>'e\<close> is
  \<open>anyhow::Error\<close>.
\<close>

section \<open>Errors\<close>

text \<open>A method panics, fails, or goes on with a new state.\<close>

type_synonym ('e, 's) fallible = "'s \<Rightarrow> ('e + 's) res"

definition try_then :: "('e + 'a) res \<Rightarrow> ('a \<Rightarrow> ('e + 'b) res) \<Rightarrow> ('e + 'b) res" where
  "try_then m f = and_then m (\<lambda>r. case r of Inl e \<Rightarrow> Inr (Inl e) | Inr x \<Rightarrow> f x)"

lemma try_then_simps [simp]:
  "try_then (Inl p) f = Inl p" "try_then (Inr (Inl e)) f = Inr (Inl e)" "try_then (Inr (Inr x)) f = f x"
  by (simp_all add: try_then_def)

lemma try_then_assoc: "try_then (try_then m f) g = try_then m (\<lambda>x. try_then (f x) g)"
  by (auto simp: try_then_def and_then_def split: sum.split)

definition infallible :: "'s step \<Rightarrow> ('e, 's) fallible" where
  "infallible f s = and_then (f s) (\<lambda>s. Inr (Inr s))"

section \<open>WorldGenerator\<close>

record ('e, 's) world_generator =
  wg_uses_nominal_type_ids :: "'s \<Rightarrow> bool"
  wg_preprocess :: "resolve \<Rightarrow> nat \<Rightarrow> ('e, 's) fallible"
  wg_import_interface :: "resolve \<Rightarrow> world_key \<Rightarrow> iface_id \<Rightarrow> ('e, 's) fallible"
  wg_import_types :: "resolve \<Rightarrow> nat \<Rightarrow> (string \<times> tid) list \<Rightarrow> 's step"
  wg_import_funcs :: "resolve \<Rightarrow> nat \<Rightarrow> (string \<times> func) list \<Rightarrow> 's step"
  wg_finish_imports :: "resolve \<Rightarrow> nat \<Rightarrow> 's step"
  wg_export_funcs :: "resolve \<Rightarrow> nat \<Rightarrow> (string \<times> func) list \<Rightarrow> ('e, 's) fallible"
  wg_pre_export_interface :: "resolve \<Rightarrow> ('e, 's) fallible"
  wg_export_interface :: "resolve \<Rightarrow> world_key \<Rightarrow> iface_id \<Rightarrow> ('e, 's) fallible"
  wg_finish :: "resolve \<Rightarrow> nat \<Rightarrow> ('e, 's) fallible"

definition unwrap_name :: "world_key \<Rightarrow> string res" where
  "unwrap_name key = (case key of WKName name \<Rightarrow> Inr name | WKInterface _ \<Rightarrow> Inl Explicit_Panic)"

text \<open>The loop over the imports: interfaces at once, functions and types are collected.\<close>

fun import_items ::
    "('e, 's) world_generator \<Rightarrow> resolve \<Rightarrow> (world_key \<times> world_item) list \<Rightarrow> (string \<times> func) list
      \<Rightarrow> (string \<times> tid) list \<Rightarrow> 's
      \<Rightarrow> ('e + (string \<times> func) list \<times> (string \<times> tid) list \<times> 's) res" where
  "import_items G r [] funcs types s = Inr (Inr (funcs, types, s))"
| "import_items G r ((key, item) # rest) funcs types s =
     (case item of
        WIFunction f \<Rightarrow>
          and_then (unwrap_name key) (\<lambda>n. import_items G r rest (funcs @ [(n, f)]) types s)
      | WIInterface i \<Rightarrow>
          try_then (wg_import_interface G r key i s) (import_items G r rest funcs types)
      | WIType t \<Rightarrow>
          and_then (unwrap_name key) (\<lambda>n. import_items G r rest funcs (types @ [(n, t)]) s))"

fun export_items ::
    "(world_key \<times> world_item) list \<Rightarrow> (string \<times> func) list \<Rightarrow> (world_key \<times> iface_id) list
      \<Rightarrow> ((string \<times> func) list \<times> (world_key \<times> iface_id) list) res" where
  "export_items [] funcs interfaces = Inr (funcs, interfaces)"
| "export_items ((key, item) # rest) funcs interfaces =
     (case item of
        WIFunction f \<Rightarrow> and_then (unwrap_name key) (\<lambda>n. export_items rest (funcs @ [(n, f)]) interfaces)
      | WIInterface i \<Rightarrow> export_items rest funcs (interfaces @ [(key, i)])
      | WIType _ \<Rightarrow> Inl Unreachable_Code)"

fun export_interfaces ::
    "('e, 's) world_generator \<Rightarrow> resolve \<Rightarrow> (world_key \<times> iface_id) list \<Rightarrow> ('e, 's) fallible" where
  "export_interfaces G r [] s = Inr (Inr s)"
| "export_interfaces G r ((key, i) # rest) s =
     try_then (wg_export_interface G r key i s) (export_interfaces G r rest)"

text \<open>\<open>nominal\<close> is \<open>Resolve::generate_nominal_type_ids\<close>.\<close>

definition generate ::
    "('e, 's) world_generator \<Rightarrow> (nat \<Rightarrow> resolve \<Rightarrow> resolve) \<Rightarrow> resolve \<Rightarrow> nat \<Rightarrow> ('e, 's) fallible" where
  "generate G nominal r w s =
     (let r = (if wg_uses_nominal_type_ids G s then nominal w r else r) in
      and_then (index (r_worlds r) w) (\<lambda>world.
      try_then (wg_preprocess G r w s) (\<lambda>s.
      try_then (import_items G r (w_imports world) [] [] s) (\<lambda>(funcs, types, s).
      try_then (if types \<noteq> [] then infallible (wg_import_types G r w types) s else Inr (Inr s)) (\<lambda>s.
      try_then (if funcs \<noteq> [] then infallible (wg_import_funcs G r w funcs) s else Inr (Inr s)) (\<lambda>s.
      try_then (infallible (wg_finish_imports G r w) s) (\<lambda>s.
      and_then (export_items (w_exports world) [] []) (\<lambda>(funcs, interfaces).
      try_then (if funcs \<noteq> [] then wg_export_funcs G r w funcs s else Inr (Inr s)) (\<lambda>s.
      try_then (wg_pre_export_interface G r s) (\<lambda>s.
      try_then (export_interfaces G r interfaces s) (\<lambda>s.
      wg_finish G r w s)))))))))))"

section \<open>The plan\<close>

text \<open>The calls that a world asks for, as data, and running them in order up to the first error.\<close>

datatype generator_call =
    Preprocess
  | Import_Interface world_key iface_id
  | Import_Types "(string \<times> tid) list"
  | Import_Funcs "(string \<times> func) list"
  | Finish_Imports
  | Export_Funcs "(string \<times> func) list"
  | Pre_Export
  | Export_Interface world_key iface_id
  | Finish

definition call_method ::
    "('e, 's) world_generator \<Rightarrow> resolve \<Rightarrow> nat \<Rightarrow> generator_call \<Rightarrow> ('e, 's) fallible" where
  "call_method G r w c =
     (case c of
        Preprocess \<Rightarrow> wg_preprocess G r w
      | Import_Interface key i \<Rightarrow> wg_import_interface G r key i
      | Import_Types ts \<Rightarrow> infallible (wg_import_types G r w ts)
      | Import_Funcs fs \<Rightarrow> infallible (wg_import_funcs G r w fs)
      | Finish_Imports \<Rightarrow> infallible (wg_finish_imports G r w)
      | Export_Funcs fs \<Rightarrow> wg_export_funcs G r w fs
      | Pre_Export \<Rightarrow> wg_pre_export_interface G r
      | Export_Interface key i \<Rightarrow> wg_export_interface G r key i
      | Finish \<Rightarrow> wg_finish G r w)"

fun run_calls ::
    "('e, 's) world_generator \<Rightarrow> resolve \<Rightarrow> nat \<Rightarrow> generator_call list \<Rightarrow> ('e, 's) fallible" where
  "run_calls G r w [] s = Inr (Inr s)"
| "run_calls G r w (c # cs) s = try_then (call_method G r w c s) (run_calls G r w cs)"

definition key_name :: "world_key \<Rightarrow> string" where
  "key_name key = (case key of WKName n \<Rightarrow> n | WKInterface _ \<Rightarrow> [])"

definition funcs_of :: "(world_key \<times> world_item) list \<Rightarrow> (string \<times> func) list" where
  "funcs_of items =
     List.map_filter (\<lambda>(key, item). case item of WIFunction f \<Rightarrow> Some (key_name key, f) | _ \<Rightarrow> None) items"

definition types_of :: "(world_key \<times> world_item) list \<Rightarrow> (string \<times> tid) list" where
  "types_of items =
     List.map_filter (\<lambda>(key, item). case item of WIType t \<Rightarrow> Some (key_name key, t) | _ \<Rightarrow> None) items"

definition interfaces_of :: "(world_key \<times> world_item) list \<Rightarrow> (world_key \<times> iface_id) list" where
  "interfaces_of items =
     List.map_filter (\<lambda>(key, item). case item of WIInterface i \<Rightarrow> Some (key, i) | _ \<Rightarrow> None) items"

definition plan :: "world \<Rightarrow> generator_call list" where
  "plan world =
     Preprocess # map (\<lambda>(key, i). Import_Interface key i) (interfaces_of (w_imports world)) @
     (if types_of (w_imports world) = [] then [] else [Import_Types (types_of (w_imports world))]) @
     (if funcs_of (w_imports world) = [] then [] else [Import_Funcs (funcs_of (w_imports world))]) @
     [Finish_Imports] @
     (if funcs_of (w_exports world) = [] then [] else [Export_Funcs (funcs_of (w_exports world))]) @
     [Pre_Export] @ map (\<lambda>(key, i). Export_Interface key i) (interfaces_of (w_exports world)) @ [Finish]"

text \<open>Functions and types have plain names, and no type is exported by itself.\<close>

definition named_item :: "world_key \<times> world_item \<Rightarrow> bool" where
  "named_item = (\<lambda>(key, item). (\<exists>i. item = WIInterface i) \<or> (\<exists>n. key = WKName n))"

definition world_ok :: "world \<Rightarrow> bool" where
  "world_ok world \<longleftrightarrow> list_all named_item (w_imports world) \<and>
     list_all (\<lambda>x. named_item x \<and> (\<forall>t. snd x \<noteq> WIType t)) (w_exports world)"

section \<open>Generating is running the plan\<close>

lemma try_then_infallible [simp]: "try_then (infallible f s) g = and_then (f s) g"
  by (simp add: infallible_def try_then_def and_then_def split: sum.split)

lemma run_calls_append: "run_calls G r w (cs @ ds) = (\<lambda>s. try_then (run_calls G r w cs s) (run_calls G r w ds))"
proof (induction cs)
  case Nil
  show ?case by (rule ext) simp
next
  case (Cons c cs)
  show ?case by (rule ext) (simp add: Cons.IH try_then_assoc)
qed

lemma of_Cons:
  "funcs_of ((key, item) # rest) = (case item of WIFunction f \<Rightarrow> [(key_name key, f)] | _ \<Rightarrow> []) @ funcs_of rest"
  "types_of ((key, item) # rest) = (case item of WIType t \<Rightarrow> [(key_name key, t)] | _ \<Rightarrow> []) @ types_of rest"
  "interfaces_of ((key, item) # rest) = (case item of WIInterface i \<Rightarrow> [(key, i)] | _ \<Rightarrow> []) @ interfaces_of rest"
  by (simp_all add: funcs_of_def types_of_def interfaces_of_def List.map_filter_simps split: world_item.split)

lemma of_Nil [simp]: "funcs_of [] = []" "types_of [] = []" "interfaces_of [] = []"
  by (simp_all add: funcs_of_def types_of_def interfaces_of_def List.map_filter_simps)

lemma import_items_ok:
  assumes "list_all named_item items"
  shows "import_items G r items funcs types s =
    try_then (run_calls G r w (map (\<lambda>(key, i). Import_Interface key i) (interfaces_of items)) s)
      (\<lambda>s. Inr (Inr (funcs @ funcs_of items, types @ types_of items, s)))"
  using assms
proof (induction items arbitrary: funcs types s)
  case Nil
  then show ?case by simp
next
  case (Cons x items)
  obtain key item where x: "x = (key, item)" by (cases x)
  have IH: "import_items G r items funcs types s =
      try_then (run_calls G r w (map (\<lambda>(key, i). Import_Interface key i) (interfaces_of items)) s)
        (\<lambda>s. Inr (Inr (funcs @ funcs_of items, types @ types_of items, s)))" for funcs types s
    using Cons by simp
  show ?case
  proof (cases item)
    case (WIInterface i)
    have "import_items G r items funcs types =
      (\<lambda>s. try_then (run_calls G r w (map (\<lambda>(key, i). Import_Interface key i) (interfaces_of items)) s)
        (\<lambda>s. Inr (Inr (funcs @ funcs_of items, types @ types_of items, s))))"
      by (rule ext) (rule IH)
    then show ?thesis by (simp add: x WIInterface of_Cons call_method_def try_then_assoc)
  qed (use Cons.prems IH in \<open>auto simp: x of_Cons named_item_def unwrap_name_def key_name_def\<close>)
qed

lemma import_items_bad:
  assumes "\<not> list_all named_item items"
  shows "import_items G r items funcs types s \<noteq> Inr (Inr z)"
  using assms
proof (induction items arbitrary: funcs types s)
  case Nil
  then show ?case by simp
next
  case (Cons x items)
  obtain key item where x: "x = (key, item)" by (cases x)
  show ?case
  proof (cases item)
    case (WIInterface i)
    then have "\<not> list_all named_item items" using Cons.prems x by (simp add: named_item_def)
    note IH = Cons.IH [OF this]
    show ?thesis
    proof (cases "wg_import_interface G r key i s")
      case (Inr y)
      then show ?thesis using IH x WIInterface by (cases y) auto
    qed (simp add: x WIInterface)
  qed (use Cons in \<open>auto simp: x named_item_def unwrap_name_def split: world_key.split\<close>)
qed

lemma export_items_ok:
  "list_all (\<lambda>x. named_item x \<and> (\<forall>t. snd x \<noteq> WIType t)) items \<Longrightarrow>
    export_items items funcs interfaces = Inr (funcs @ funcs_of items, interfaces @ interfaces_of items)"
proof (induction items arbitrary: funcs interfaces)
  case (Cons x items)
  obtain key item where "x = (key, item)" by (cases x)
  then show ?case
    using Cons by (cases item) (auto simp: of_Cons named_item_def unwrap_name_def key_name_def)
qed simp

lemma export_items_bad:
  "\<not> list_all (\<lambda>x. named_item x \<and> (\<forall>t. snd x \<noteq> WIType t)) items \<Longrightarrow>
    export_items items funcs interfaces \<noteq> Inr z"
proof (induction items arbitrary: funcs interfaces)
  case (Cons x items)
  obtain key item where "x = (key, item)" by (cases x)
  then show ?case
    using Cons by (cases item) (auto simp: named_item_def unwrap_name_def split: world_key.split)
qed simp

lemma export_interfaces_calls:
  "export_interfaces G r is = run_calls G r w (map (\<lambda>(key, i). Export_Interface key i) is)"
proof (induction "is")
  case Nil
  show ?case by (rule ext) simp
next
  case (Cons x xs)
  show ?case by (rule ext) (cases x, simp add: Cons.IH call_method_def)
qed

lemma try_then_not_ok: "(\<And>x. f x \<noteq> Inr (Inr z)) \<Longrightarrow> try_then m f \<noteq> Inr (Inr z)"
  by (auto simp: try_then_def and_then_def split: sum.splits)

lemma try_then_first: "(\<And>x. m \<noteq> Inr (Inr x)) \<Longrightarrow> try_then m f \<noteq> Inr (Inr z)"
  by (auto simp: try_then_def and_then_def split: sum.splits)

lemma run_calls_Nil [simp]: "run_calls G r w [] = (\<lambda>s. Inr (Inr s))"
  by (rule ext) simp

lemma try_then_ok [simp]: "try_then m (\<lambda>s. Inr (Inr s)) = m"
  by (auto simp: try_then_def and_then_def split: sum.split)

lemma run_plan:
  "run_calls G r w (plan W) s =
    try_then (wg_preprocess G r w s) (\<lambda>s.
    try_then (run_calls G r w (map (\<lambda>(key, i). Import_Interface key i) (interfaces_of (w_imports W))) s) (\<lambda>s.
    try_then (if types_of (w_imports W) \<noteq> []
      then infallible (wg_import_types G r w (types_of (w_imports W))) s else Inr (Inr s)) (\<lambda>s.
    try_then (if funcs_of (w_imports W) \<noteq> []
      then infallible (wg_import_funcs G r w (funcs_of (w_imports W))) s else Inr (Inr s)) (\<lambda>s.
    try_then (infallible (wg_finish_imports G r w) s) (\<lambda>s.
    try_then (if funcs_of (w_exports W) \<noteq> []
      then wg_export_funcs G r w (funcs_of (w_exports W)) s else Inr (Inr s)) (\<lambda>s.
    try_then (wg_pre_export_interface G r s) (\<lambda>s.
    try_then (run_calls G r w (map (\<lambda>(key, i). Export_Interface key i) (interfaces_of (w_exports W))) s)
      (wg_finish G r w))))))))"
proof -
  have if_calls: "run_calls G r w (if b then [] else [c]) =
      (\<lambda>s. if \<not> b then call_method G r w c s else Inr (Inr s))" for b c
    by (rule ext) simp
  have one: "run_calls G r w [c] = call_method G r w c" for c
    by (rule ext) simp
  show ?thesis
    unfolding plan_def run_calls.simps(2) run_calls_append if_calls one
    unfolding call_method_def generator_call.case ..
qed

text \<open>In a world that is not as expected, nothing succeeds.\<close>

lemma generate_bad:
  assumes "\<not> world_ok (r_worlds r' ! w)" "r' = (if wg_uses_nominal_type_ids G s then nominal w r else r)"
    "w < length (r_worlds r')"
  shows "generate G nominal r w s \<noteq> Inr (Inr z)"
proof (cases "list_all named_item (w_imports (r_worlds r' ! w))")
  case False
  show ?thesis
    unfolding generate_def assms(2) [symmetric] Let_def index_ok [OF assms(3)] and_then_Inr
    by (intro try_then_not_ok try_then_first) (rule import_items_bad [OF False])
next
  case True
  then have "\<not> list_all (\<lambda>x. named_item x \<and> (\<forall>t. snd x \<noteq> WIType t)) (w_exports (r_worlds r' ! w))"
    using assms(1) by (simp add: world_ok_def)
  then obtain p where p: "export_items (w_exports (r_worlds r' ! w)) [] [] = Inl p"
    using export_items_bad [of "w_exports (r_worlds r' ! w)" "[]" "[]"]
    by (cases "export_items (w_exports (r_worlds r' ! w)) [] []") blast+
  show ?thesis
    unfolding generate_def assms(2) [symmetric] Let_def index_ok [OF assms(3)] and_then_Inr p
    by (intro try_then_not_ok) (auto simp del: try_then_infallible intro!: try_then_not_ok)
qed

section \<open>Types by kind\<close>

text \<open>\<open>InterfaceGenerator\<close>: the method for each kind. Docs are not kept.\<close>

record 's interface_generator =
  type_record :: "tid \<Rightarrow> string \<Rightarrow> field list \<Rightarrow> 's step"
  type_resource :: "tid \<Rightarrow> string \<Rightarrow> 's step"
  type_flags :: "tid \<Rightarrow> string \<Rightarrow> string list \<Rightarrow> 's step"
  type_tuple :: "tid \<Rightarrow> string \<Rightarrow> ty list \<Rightarrow> 's step"
  type_variant :: "tid \<Rightarrow> string \<Rightarrow> vcase list \<Rightarrow> 's step"
  type_option :: "tid \<Rightarrow> string \<Rightarrow> ty \<Rightarrow> 's step"
  type_result :: "tid \<Rightarrow> string \<Rightarrow> ty option \<Rightarrow> ty option \<Rightarrow> 's step"
  type_enum :: "tid \<Rightarrow> string \<Rightarrow> string list \<Rightarrow> 's step"
  type_alias_of :: "tid \<Rightarrow> string \<Rightarrow> ty \<Rightarrow> 's step"
  type_list :: "tid \<Rightarrow> string \<Rightarrow> ty \<Rightarrow> 's step"
  type_fixed_length_list :: "tid \<Rightarrow> string \<Rightarrow> ty \<Rightarrow> 32 word \<Rightarrow> 's step"
  type_map :: "tid \<Rightarrow> string \<Rightarrow> ty \<Rightarrow> ty \<Rightarrow> 's step"
  type_future :: "tid \<Rightarrow> string \<Rightarrow> ty option \<Rightarrow> 's step"
  type_stream :: "tid \<Rightarrow> string \<Rightarrow> ty option \<Rightarrow> 's step"

definition define_type :: "'s interface_generator \<Rightarrow> resolve \<Rightarrow> string \<Rightarrow> tid \<Rightarrow> 's step" where
  "define_type G r name i s =
     and_then (type_at r i) (\<lambda>td.
       case td_kind td of
         KRecord fs \<Rightarrow> type_record G i name fs s
       | KResource \<Rightarrow> type_resource G i name s
       | KFlags fs \<Rightarrow> type_flags G i name fs s
       | KTuple ts \<Rightarrow> type_tuple G i name ts s
       | KEnum cs \<Rightarrow> type_enum G i name cs s
       | KVariant cs \<Rightarrow> type_variant G i name cs s
       | KOption t \<Rightarrow> type_option G i name t s
       | KResult ok err \<Rightarrow> type_result G i name ok err s
       | KList t \<Rightarrow> type_list G i name t s
       | KType t \<Rightarrow> type_alias_of G i name t s
       | KFuture t \<Rightarrow> type_future G i name t s
       | KStream t \<Rightarrow> type_stream G i name t s
       | KHandle _ \<Rightarrow> Inl Explicit_Panic
       | KFixedLengthList t n \<Rightarrow> type_fixed_length_list G i name t n s
       | KMap k v \<Rightarrow> type_map G i name k v s
       | KUnknown \<Rightarrow> Inl Unreachable_Code)"

definition interface_types :: "'s interface_generator \<Rightarrow> resolve \<Rightarrow> iface_id \<Rightarrow> 's step" where
  "interface_types G r i s =
     and_then (index (r_interfaces r) i) (\<lambda>iface.
       for_each (if_types iface) (\<lambda>(name, t). define_type G r name t) s)"

record 's anonymous_type_generator =
  anonymous_type_handle :: "tid \<Rightarrow> handle \<Rightarrow> 's step"
  anonymous_type_tuple :: "tid \<Rightarrow> ty list \<Rightarrow> 's step"
  anonymous_type_option :: "tid \<Rightarrow> ty \<Rightarrow> 's step"
  anonymous_type_result :: "tid \<Rightarrow> ty option \<Rightarrow> ty option \<Rightarrow> 's step"
  anonymous_type_list :: "tid \<Rightarrow> ty \<Rightarrow> 's step"
  anonymous_type_fixed_length_list :: "tid \<Rightarrow> ty \<Rightarrow> 32 word \<Rightarrow> 's step"
  anonymous_type_map :: "tid \<Rightarrow> ty \<Rightarrow> ty \<Rightarrow> 's step"
  anonymous_type_future :: "tid \<Rightarrow> ty option \<Rightarrow> 's step"
  anonymous_type_stream :: "tid \<Rightarrow> ty option \<Rightarrow> 's step"
  anonymous_type_type :: "tid \<Rightarrow> ty \<Rightarrow> 's step"

definition define_anonymous_type :: "'s anonymous_type_generator \<Rightarrow> resolve \<Rightarrow> tid \<Rightarrow> 's step" where
  "define_anonymous_type G r i s =
     and_then (type_at r i) (\<lambda>td.
       case td_kind td of
         KFlags _ \<Rightarrow> Inl Unreachable_Code
       | KRecord _ \<Rightarrow> Inl Unreachable_Code
       | KResource \<Rightarrow> Inl Unreachable_Code
       | KEnum _ \<Rightarrow> Inl Unreachable_Code
       | KVariant _ \<Rightarrow> Inl Unreachable_Code
       | KType t \<Rightarrow> anonymous_type_type G i t s
       | KTuple ts \<Rightarrow> anonymous_type_tuple G i ts s
       | KOption t \<Rightarrow> anonymous_type_option G i t s
       | KResult ok err \<Rightarrow> anonymous_type_result G i ok err s
       | KList t \<Rightarrow> anonymous_type_list G i t s
       | KFuture t \<Rightarrow> anonymous_type_future G i t s
       | KStream t \<Rightarrow> anonymous_type_stream G i t s
       | KHandle h \<Rightarrow> anonymous_type_handle G i h s
       | KFixedLengthList t n \<Rightarrow> anonymous_type_fixed_length_list G i t n s
       | KMap k v \<Rightarrow> anonymous_type_map G i k v s
       | KUnknown \<Rightarrow> Inl Unreachable_Code)"

definition generated_preamble :: "string \<Rightarrow> source \<Rightarrow> source" where
  "generated_preamble version s =
     push_str (''. DO NOT EDIT!'' @ [newline]) (push_str version (push_str ''// Generated by `wit-bindgen` '' s))"

section \<open>Aliases\<close>

fun dealias :: "resolve \<Rightarrow> nat \<Rightarrow> tid \<Rightarrow> tid res" where
  "dealias r 0 i = Inl Out_Of_Fuel"
| "dealias r (Suc n) i =
     and_then (type_at r i) (\<lambda>td. case td_kind td of KType (TId j) \<Rightarrow> dealias r n j | _ \<Rightarrow> Inr i)"

definition alias_step :: "resolve \<Rightarrow> tid \<Rightarrow> tid \<Rightarrow> bool" where
  "alias_step r i j \<longleftrightarrow> kind_at r i = KType (TId j)"

text \<open>The chain of aliases ends when a rank falls along it.\<close>

lemma dealias_ends:
  assumes "valid_id r i" "\<And>i j. valid_id r i \<Longrightarrow> alias_step r i j \<Longrightarrow> valid_id r j \<and> rk j < (rk i :: nat)" "rk i < n"
  shows "\<exists>j. dealias r n i = Inr j \<and> (alias_step r)\<^sup>*\<^sup>* i j \<and> valid_id r j \<and> (\<forall>k. \<not> alias_step r j k)"
  using assms(1,3)
proof (induction n arbitrary: i)
  case 0
  then show ?case by simp
next
  case (Suc n)
  show ?case
  proof (cases "\<exists>j. alias_step r i j")
    case True
    then obtain j where j: "alias_step r i j" by blast
    then have "valid_id r j" "rk j < n" using assms(2) [OF Suc.prems(1) j] Suc.prems(2) by auto
    from Suc.IH [OF this] obtain k where "dealias r n j = Inr k" "(alias_step r)\<^sup>*\<^sup>* j k" "valid_id r k"
      "\<forall>l. \<not> alias_step r k l" by blast
    moreover have "dealias r (Suc n) i = dealias r n j" using Suc.prems(1) j by (simp add: alias_step_def)
    ultimately show ?thesis using j by (metis converse_rtranclp_into_rtranclp)
  next
    case False
    then have "dealias r (Suc n) i = Inr i"
      using Suc.prems(1) by (auto simp: alias_step_def split: kind.split ty.split)
    then show ?thesis using False Suc.prems(1) by auto
  qed
qed

end
