(* ===== verification/Core_Properties.thy ===== *)
theory Core_Properties
  imports Core_Async Core_Names Core_Driver
begin

text \<open>The properties of \<open>crates/core\<close> around the ABI generator: options, names, text and the driver.\<close>

section \<open>The option async\<close>

text \<open>
  C39: Every directive of \<open>--async\<close> prints as it was written; and a directive is read back from its own
  text exactly if it is not a function whose name looks like another directive.
\<close>

theorem async_directive_roundtrip:
  "display_async (parse_async s) = s \<and> (parse_async (display_async a) = a \<longleftrightarrow> plain a)"
  by (simp add: display_parse_async parse_display_async)

text \<open>
  C38: Whether a function is bound asynchronously is decided by the first directive that applies to its
  name on its side, and by the function's own kind if there is none.
\<close>

theorem first_directive_decides:
  "fst (is_async nk interface f is_import S) = b \<longleftrightarrow>
    (\<exists>i. decided_by nk (as_options S) (interface, f, is_import) i \<and> b = ao_enabled (as_options S ! i)) \<or>
    (\<nexists>i. decided_by nk (as_options S) (interface, f, is_import) i) \<and> b = async_kind (fn_kind f)"
proof (cases "decide (name_to_test nk interface f) is_import 0 (as_options S)")
  case None
  then have "\<nexists>i. decided_by nk (as_options S) (interface, f, is_import) i"
    by (auto simp: decided_by_def first_applies_def decide_None)
  then show ?thesis using None by (auto simp: is_async_def)
next
  case (Some bi)
  obtain c k where bi: "bi = (c, k)" by (cases bi)
  then have k: "first_applies (name_to_test nk interface f) is_import (as_options S) k" "c = ao_enabled (as_options S ! k)"
    using Some decide_first [of "name_to_test nk interface f" is_import 0 "as_options S" c k] by auto
  then have "decided_by nk (as_options S) (interface, f, is_import) i \<longleftrightarrow> i = k" for i
    unfolding decided_by_def prod.case using first_applies_unique [OF k(1)] by blast
  then show ?thesis using Some bi k(2) by (simp add: is_async_def) blast
qed

text \<open>
  After all functions have been asked for, \<open>ensure_all_used\<close> accepts exactly if each directive but
  \<open>all\<close> has decided for one of them; a directive that another one always shadows is an error.
\<close>

theorem unused_directives_reported:
  "ensure_all_used (ask_all nk qs \<lparr>as_options = opts, as_used = {}\<rparr>) = Inr () \<longleftrightarrow>
    (\<forall>i < length opts. ao_filter (opts ! i) \<noteq> Filter_All \<longrightarrow> (\<exists>q \<in> set qs. decided_by nk opts q i))"
proof -
  have u: "as_used (ask_all nk qs \<lparr>as_options = opts, as_used = {}\<rparr>) = {i. \<exists>q \<in> set qs. decided_by nk opts q i}"
    "as_options (ask_all nk qs \<lparr>as_options = opts, as_used = {}\<rparr>) = opts"
    using ask_all_used [of nk qs "\<lparr>as_options = opts, as_used = {}\<rparr>"] by simp_all
  show ?thesis unfolding ensure_all_used_def u unused_from_ok mem_Collect_eq add_0 by blast
qed

definition demo_run_func :: func where
  "demo_run_func = \<lparr>fn_name = ''run'', fn_kind = Freestanding, fn_params = [], fn_result = None\<rparr>"

theorem unused_directives_reported_witness:
  "ensure_all_used (ask_all key_name [(None, demo_run_func, False)]
      \<lparr>as_options = [parse_async ''run'', parse_async ''export:run''], as_used = {}\<rparr>) \<noteq> Inr ()"
proof -
  let ?opts = "[parse_async ''run'', parse_async ''export:run'']"
  have "\<not> decided_by key_name ?opts (None, demo_run_func, False) 1"
    by (simp add: decided_by_def first_applies_def name_to_test_def demo_run_func_def applies_def parse_async_def
        parse_filter_def)
  moreover have "ao_filter (?opts ! 1) \<noteq> Filter_All" by (simp add: parse_async_def parse_filter_def)
  ultimately show ?thesis
    unfolding unused_directives_reported
    by (intro notI) (drule spec [of _ 1], simp)
qed

section \<open>Names\<close>

text \<open>
  C40: \<open>Ns::tmp\<close> returns within one turn more than names are defined, with a name that was not defined
  and now is: the name asked for if it is free, and otherwise that name with a number that has not
  been used before.
\<close>

theorem tmp_is_fresh:
  assumes "finite (ns_defined s)" "card (ns_defined s) < n"
  shows "\<exists>ret s'. ns_tmp n name s = Inr (ret, s') \<and> ret \<notin> ns_defined s \<and>
    ns_defined s' = insert ret (ns_defined s) \<and>
    (if name \<in> ns_defined s
     then \<exists>j \<ge> ns_counter s. ret = name @ decimal j \<and> ns_counter s' = Suc j
     else ret = name \<and> ns_counter s' = ns_counter s)"
proof (cases "name \<in> ns_defined s")
  case True
  from ns_tmp_taken [OF assms(1) this assms(2)] show ?thesis using True by fastforce
next
  case False
  then show ?thesis using assms(2) by (cases n) (simp_all add: ns_tmp_def)
qed

theorem tmp_is_fresh_witness:
  "\<exists>ret s'. ns_tmp 3 ''x'' \<lparr>ns_defined = {''x'', ''x0''}, ns_counter = 0\<rparr> = Inr (ret, s') \<and>
    ret \<notin> {''x'', ''x0''}"
  using tmp_is_fresh [of "\<lparr>ns_defined = {''x'', ''x0''}, ns_counter = 0\<rparr>" 3 "''x''"] by fastforce

section \<open>Text\<close>

text \<open>
  Pushing text adds exactly its characters other than whitespace, in order, however it is indented;
  and literal text leaves the indentation alone.
\<close>

theorem push_keeps_text:
  "ink (src_text (push_str t s)) = ink (src_text s) @ ink t \<and>
   ink (src_text (push_str_literal t s)) = ink (src_text s) @ ink t \<and>
   src_indent (push_str_literal t s) = src_indent s"
  by (simp add: push_str_def push_str_literal_def ink_push_str_impl push_literal_indent)

text \<open>
  Text without leading whitespace of its own can be pushed at once or in chunks of whole lines, with
  the same result.
\<close>

theorem push_in_chunks:
  assumes "ends_with [newline] a" "flush_left a" "flush_left b"
  shows "push_str (a @ b) s = push_str b (push_str a s)"
  unfolding push_str_def by (rule push_str_impl_chunks [OF assms])

theorem push_in_chunks_witness:
  "push_str (''if {'' @ [newline] @ ''}'') source_default =
    push_str ''}'' (push_str (''if {'' @ [newline]) source_default)"
proof -
  have "ends_with [newline] (''if {'' @ [newline])" "flush_left (''if {'' @ [newline])" "flush_left ''}''"
    by (simp_all add: ends_with_def flush_left_def str_lines_def newline_def strip_cr_def trim_start_def whitespace_def)
  from push_in_chunks [OF this, of source_default] show ?thesis by simp
qed

text \<open>
  A new line, which will be indented, is only begun where the text ends one. Pushing keeps this;
  \<open>append_src\<close> keeps it only if a line was open before or what is appended ends its last line, since
  it does not take over whether that line goes on: then an indentation is put in the middle of a line.
\<close>

theorem indentation_at_line_start:
  assumes "lines_inv s"
  shows "lines_inv (push_str t s) \<and> lines_inv (push_str_literal t s) \<and>
    (lines_inv (append_src a s) \<longleftrightarrow> src_continuing_line s \<or> at_line_start (append_src a s))"
  using push_str_impl_inv [OF assms]
  by (simp add: push_str_def push_str_literal_def) (auto simp: lines_inv_def append_src_def)

theorem indentation_at_line_start_witness:
  "lines_inv (push_str ''x'' source_default) \<and>
    src_text (push_str ''y'' (append_src (push_str ''x'' source_default) (indent_by 1 source_default))) = ''x  y''"
proof
  show "lines_inv (push_str ''x'' source_default)"
    by (rule indentation_at_line_start [THEN conjunct1])
      (simp add: lines_inv_def source_default_def at_line_start_def)
  show "src_text (push_str ''y'' (append_src (push_str ''x'' source_default) (indent_by 1 source_default))) = ''x  y''"
    by (simp add: push_str_def push_str_impl_def str_lines_def push_line_def begin_line_def dedent_brace_def
        count_braces_def append_src_def source_default_def indent_by_def newline_def starts_with_def ends_with_def
        trim_def trim_start_def whitespace_def Let_def)
qed

section \<open>The driver\<close>

text \<open>
  C37: \<open>generate\<close> makes exactly the calls that the world asks for, in the order imports, imported types,
  imported functions, exported functions, exports, and stops at the first error or panic; in a world
  with a function or type under an interface key, or with an exported type, it never succeeds.
\<close>

theorem generate_follows_plan:
  assumes "r' = (if wg_uses_nominal_type_ids G s then nominal w r else r)" "w < length (r_worlds r')"
  shows "if world_ok (r_worlds r' ! w)
    then generate G nominal r w s = run_calls G r' w (plan (r_worlds r' ! w)) s
    else \<forall>s'. generate G nominal r w s \<noteq> Inr (Inr s')"
proof (cases "world_ok (r_worlds r' ! w)")
  case True
  let ?W = "r_worlds r' ! w"
  have ok: "list_all named_item (w_imports ?W)"
    "list_all (\<lambda>x. named_item x \<and> (\<forall>t. snd x \<noteq> WIType t)) (w_exports ?W)"
    using True by (simp_all add: world_ok_def)
  have "generate G nominal r w s = run_calls G r' w (plan ?W) s"
    using assms(2) import_items_ok [OF ok(1), of G r' "[]" "[]" _ w] export_items_ok [OF ok(2), of "[]" "[]"]
    by (simp add: generate_def assms(1) [symmetric] Let_def run_plan try_then_assoc
        export_interfaces_calls [of G r' _ w] del: try_then_infallible)
  then show ?thesis using True by simp
next
  case False
  have "generate G nominal r w s \<noteq> Inr (Inr s')" for s'
    by (rule generate_bad [where G=G and nominal=nominal and r=r and w=w and s=s and z=s' and r'=r', OF False assms])
  then show ?thesis using False by simp
qed

text \<open>A generator that writes down the calls that are made, and a world with an import and an export.\<close>

definition logging :: "(unit, generator_call list) world_generator" where
  "logging =
     \<lparr>wg_uses_nominal_type_ids = \<lambda>s. False,
      wg_preprocess = \<lambda>r w s. Inr (Inr (s @ [Preprocess])),
      wg_import_interface = \<lambda>r key i s. Inr (Inr (s @ [Import_Interface key i])),
      wg_import_types = \<lambda>r w ts s. Inr (s @ [Import_Types ts]),
      wg_import_funcs = \<lambda>r w fs s. Inr (s @ [Import_Funcs fs]),
      wg_finish_imports = \<lambda>r w s. Inr (s @ [Finish_Imports]),
      wg_export_funcs = \<lambda>r w fs s. Inr (Inr (s @ [Export_Funcs fs])),
      wg_pre_export_interface = \<lambda>r s. Inr (Inr (s @ [Pre_Export])),
      wg_export_interface = \<lambda>r key i s. Inr (Inr (s @ [Export_Interface key i])),
      wg_finish = \<lambda>r w s. Inr (Inr (s @ [Finish]))\<rparr>"

definition run_resolve :: resolve where
  "run_resolve = \<lparr>r_types = [], r_worlds = [\<lparr>w_name = ''w'', w_imports = [(WKInterface 3, WIInterface 3)],
     w_exports = [(WKName ''run'', WIFunction demo_run_func)], w_package = None\<rparr>], r_interfaces = [], r_packages = []\<rparr>"

theorem generate_follows_plan_witness:
  "generate logging (\<lambda>w r. r) run_resolve 0 [] =
    Inr (Inr [Preprocess, Import_Interface (WKInterface 3) 3, Finish_Imports, Export_Funcs [(''run'', demo_run_func)],
      Pre_Export, Finish])"
proof -
  let ?W = "r_worlds run_resolve ! 0"
  have W: "world_ok ?W" by (simp add: world_ok_def run_resolve_def named_item_def)
  have p: "plan ?W = [Preprocess, Import_Interface (WKInterface 3) 3, Finish_Imports,
      Export_Funcs [(''run'', demo_run_func)], Pre_Export, Finish]"
    by (simp add: plan_def run_resolve_def funcs_of_def types_of_def interfaces_of_def key_name_def
        List.map_filter_simps)
  have "generate logging (\<lambda>w r. r) run_resolve 0 [] = run_calls logging run_resolve 0 (plan ?W) []"
    using generate_follows_plan [where G = logging and nominal = "\<lambda>w r. r" and r = run_resolve and w = 0
        and s = "[]" and r' = run_resolve] W by (simp add: run_resolve_def)
  then show ?thesis unfolding p by (simp add: call_method_def logging_def infallible_def)
qed

section \<open>Aliases\<close>

text \<open>
  Following aliases ends, in as many steps as the rank of the type and one more, at the type that the
  alias stands for, which is no alias itself.
\<close>

theorem dealias_finds_the_type:
  assumes "valid_id r i" "\<And>i j. valid_id r i \<Longrightarrow> alias_step r i j \<Longrightarrow> valid_id r j \<and> rk j < (rk i :: nat)" "rk i < n"
  shows "\<exists>j. dealias r n i = Inr j \<and> (alias_step r)\<^sup>*\<^sup>* i j \<and> valid_id r j \<and> (\<forall>k. \<not> alias_step r j k)"
  using assms by (rule dealias_ends)

definition alias_resolve :: resolve where
  "alias_resolve = \<lparr>r_types = [\<lparr>td_name = None, td_owner = OwnerNone, td_kind = KList TString\<rparr>,
     \<lparr>td_name = None, td_owner = OwnerNone, td_kind = KType (TId 0)\<rparr>], r_worlds = [], r_interfaces = [], r_packages = []\<rparr>"

theorem dealias_finds_the_type_witness:
  "\<exists>j. dealias alias_resolve 2 1 = Inr j \<and> (alias_step alias_resolve)\<^sup>*\<^sup>* 1 j \<and> valid_id alias_resolve j \<and>
    (\<forall>k. \<not> alias_step alias_resolve j k)"
  by (rule dealias_finds_the_type [where rk = "\<lambda>i. i"])
    (auto simp: alias_resolve_def alias_step_def less_Suc_eq)

end
