(* ===== verification/Rust_Names.thy ===== *)
theory Rust_Names
  imports Type_Analysis Core_Driver Core_Names Core_Source Abi_Instruction "HOL-Library.AList"
begin

text \<open>
  The helpers of \<open>crates/rust/src/lib.rs\<close>: the names and small texts of which the generated Rust
  code consists. The conversions of the crate \<open>heck\<close> are parameters (fields of \<open>rust_env\<close>), and so
  are the functions of \<open>wit_parser\<close> the Rust generator calls beyond those of \<open>wit_env\<close>.
\<close>

section \<open>Texts\<close>

text \<open>
  \<open>nl\<close> is a line feed, \<open>join\<close> is \<open>[String]::join\<close>; \<open>text_lines\<close> writes a literal of several lines.
\<close>

abbreviation nl :: string where
  "nl \<equiv> [newline]"

fun join :: "string \<Rightarrow> string list \<Rightarrow> string" where
  "join sep [] = []"
| "join sep [x] = x"
| "join sep (x # xs) = x @ sep @ join sep xs"

definition text_lines :: "string list \<Rightarrow> string" where
  "text_lines ls = join nl ls"

definition spaces :: "nat \<Rightarrow> string" where
  "spaces n = replicate n CHR '' ''"

text \<open>\<open>write!\<close> on a \<open>Source\<close>: the literal pieces and the arguments are pushed one after the other.\<close>

definition push_pieces :: "string list \<Rightarrow> source \<Rightarrow> source" where
  "push_pieces ps s = foldl (\<lambda>s p. push_str p s) s ps"

definition contains_text :: "string \<Rightarrow> string \<Rightarrow> bool" where
  "contains_text p s = (\<exists>k \<in> set [0..<Suc (length s)]. starts_with p (drop k s))"

section \<open>What the generator calls\<close>

text \<open>
  \<open>snake\<close>, \<open>upper_camel\<close>, \<open>kebab\<close> and \<open>shouty_snake\<close> are the conversions of the crate \<open>heck\<close>; the
  other fields are functions of \<open>wit_parser\<close>: \<open>Resolve::id_of\<close>, \<open>Resolve::all_bits_valid\<close>,
  \<open>Function::item_name\<close>; the printing, the maximum, the emptiness, the default and the value on wasm32
  of \<open>ArchitectureSize\<close> and \<open>Alignment\<close> (the flag of \<open>format_term\<close> is always true in the code modelled
  here; \<open>align_bytes\<close> is \<open>None\<close> for \<open>Alignment::Pointer\<close>); \<open>FunctionKind::resource\<close>,
  \<open>Resolve::name_world_key\<close>, \<open>Function::find_futures_and_streams\<close>,
  \<open>Function::legacy_core_export_name\<close> and the documentation of functions, interfaces, types and the
  fields, cases and flags of a type, which are counted.
\<close>

record ('z, 'a) rust_env =
  re_snake :: "string \<Rightarrow> string"
  re_upper_camel :: "string \<Rightarrow> string"
  re_id_of :: "iface_id \<Rightarrow> string option"
  re_all_bits_valid :: "ty \<Rightarrow> bool"
  re_item_name :: "func \<Rightarrow> string"
  re_size_format :: "'z \<Rightarrow> string"
  re_size_format_term :: "'z \<Rightarrow> string"
  re_align_format :: "'a \<Rightarrow> string"
  re_size_max :: "'z \<Rightarrow> 'z \<Rightarrow> 'z"
  re_align_max :: "'a \<Rightarrow> 'a \<Rightarrow> 'a"
  re_size_is_empty :: "'z \<Rightarrow> bool"
  re_size_default :: 'z
  re_align_default :: 'a
  re_align_bytes :: "'a \<Rightarrow> nat option"
  re_size_wasm32 :: "'z \<Rightarrow> nat"
  re_align_wasm32 :: "'a \<Rightarrow> nat"
  re_resource :: "function_kind \<Rightarrow> tid option"
  re_name_world_key :: "resolve \<Rightarrow> world_key \<Rightarrow> string"
  re_futures_and_streams :: "resolve \<Rightarrow> func \<Rightarrow> tid list"
  re_core_export_name :: "func \<Rightarrow> string option \<Rightarrow> string"
  re_func_docs :: "func \<Rightarrow> string option"
  re_kebab :: "string \<Rightarrow> string"
  re_shouty_snake :: "string \<Rightarrow> string"
  re_iface_docs :: "iface_id \<Rightarrow> string option"
  re_type_docs :: "tid \<Rightarrow> string option"
  re_member_docs :: "tid \<Rightarrow> nat \<Rightarrow> string option"

section \<open>Identifiers\<close>

definition rust_keywords :: "string list" where
  "rust_keywords =
     [''as'', ''break'', ''const'', ''continue'', ''crate'', ''else'', ''enum'', ''extern'', ''false'',
      ''fn'', ''for'', ''if'', ''impl'', ''in'', ''let'', ''loop'', ''match'', ''mod'', ''move'', ''mut'',
      ''pub'', ''ref'', ''return'', ''self'', ''static'', ''struct'', ''super'', ''trait'', ''true'',
      ''type'', ''unsafe'', ''use'', ''where'', ''while'', ''async'', ''await'', ''dyn'', ''abstract'',
      ''become'', ''box'', ''do'', ''final'', ''macro'', ''override'', ''priv'', ''typeof'', ''unsized'',
      ''virtual'', ''yield'', ''try'']"

definition to_rust_ident :: "('z, 'a) rust_env \<Rightarrow> string \<Rightarrow> string" where
  "to_rust_ident RE name = (if name \<in> set rust_keywords then name @ ''_'' else re_snake RE name)"

definition to_upper_camel_case :: "('z, 'a) rust_env \<Rightarrow> string \<Rightarrow> string" where
  "to_upper_camel_case RE name = (if name = ''guest'' then ''Guest_'' else re_upper_camel RE name)"

section \<open>Core types and casts\<close>

definition wasm_type_name :: "wasm_type \<Rightarrow> string" where
  "wasm_type_name t =
     (case t of
        WI32 \<Rightarrow> ''i32''
      | WI64 \<Rightarrow> ''i64''
      | WF32 \<Rightarrow> ''f32''
      | WF64 \<Rightarrow> ''f64''
      | WPointer \<Rightarrow> ''*mut u8''
      | WLength \<Rightarrow> ''usize''
      | WPointerOrI64 \<Rightarrow> ''::core::mem::MaybeUninit::<u64>'')"

definition import_signature :: "wasm_type list \<Rightarrow> wasm_type list \<Rightarrow> string res" where
  "import_signature params results =
     (if length results < 2 then
        Inr (''('' @ concat (map (\<lambda>t. ''_: '' @ wasm_type_name t @ '', '') params) @ '')'' @
          concat (map (\<lambda>t. '' -> '' @ wasm_type_name t) results))
      else Inl Assert_Failed)"

definition declare_import ::
    "string \<Rightarrow> string \<Rightarrow> string \<Rightarrow> wasm_type list \<Rightarrow> wasm_type list \<Rightarrow> string res" where
  \<open>declare_import module name rust_name params results =
     and_then (import_signature params results) (\<lambda>sig.
       Inr (text_lines
         ['''',
          spaces 12 @ ''#[cfg(target_arch = "wasm32")]'',
          spaces 12 @ ''#[link(wasm_import_module = "'' @ module @ ''")]'',
          spaces 12 @ ''unsafe extern "C" {'',
          spaces 16 @ ''#[link_name = "'' @ name @ ''"]'',
          spaces 16 @ ''fn '' @ rust_name @ sig @ '';'',
          spaces 12 @ ''}'',
          '''',
          spaces 12 @ ''#[cfg(not(target_arch = "wasm32"))]'',
          spaces 12 @ ''unsafe extern "C" fn '' @ rust_name @ sig @ '' { unreachable!() }'',
          spaces 8]))\<close>

definition int_repr_name :: "int_repr \<Rightarrow> string" where
  "int_repr_name r = (case r of IU8 \<Rightarrow> ''u8'' | IU16 \<Rightarrow> ''u16'' | IU32 \<Rightarrow> ''u32'' | IU64 \<Rightarrow> ''u64'')"

fun perform_cast :: "string \<Rightarrow> bitcast \<Rightarrow> string" where
  "perform_cast operand NoCast = operand"
| "perform_cast operand I32ToI64 = ''i64::from('' @ operand @ '')''"
| "perform_cast operand F32ToI32 = ''('' @ operand @ '').to_bits() as i32''"
| "perform_cast operand F64ToI64 = ''('' @ operand @ '').to_bits() as i64''"
| "perform_cast operand I64ToI32 = operand @ '' as i32''"
| "perform_cast operand I32ToF32 = ''f32::from_bits('' @ operand @ '' as u32)''"
| "perform_cast operand I64ToF64 = ''f64::from_bits('' @ operand @ '' as u64)''"
| "perform_cast operand F32ToI64 = ''i64::from(('' @ operand @ '').to_bits())''"
| "perform_cast operand I64ToF32 = ''f32::from_bits('' @ operand @ '' as u32)''"
| "perform_cast operand I64ToP64 = ''::core::mem::MaybeUninit::new('' @ operand @ '' as u64)''"
| "perform_cast operand P64ToI64 = operand @ ''.assume_init() as i64''"
| "perform_cast operand PToP64 =
     text_lines
       [''{'',
        spaces 24 @ ''let mut t = ::core::mem::MaybeUninit::<u64>::uninit();'',
        spaces 24 @ ''t.as_mut_ptr().cast::<*mut u8>().write('' @ operand @ '');'',
        spaces 24 @ ''t'',
        spaces 20 @ ''}'']"
| "perform_cast operand P64ToP = operand @ ''.as_ptr().cast::<*mut u8>().read()''"
| "perform_cast operand I32ToP = operand @ '' as *mut u8''"
| "perform_cast operand LToP = operand @ '' as *mut u8''"
| "perform_cast operand PToI32 = operand @ '' as i32''"
| "perform_cast operand LToI32 = operand @ '' as i32''"
| "perform_cast operand I32ToL = operand @ '' as usize''"
| "perform_cast operand I64ToL = operand @ '' as usize''"
| "perform_cast operand PToL = operand @ '' as usize''"
| "perform_cast operand LToI64 = operand @ '' as i64''"
| "perform_cast operand (Sequence x y) = perform_cast (perform_cast operand x) y"

definition rust_bitcast :: "bitcast list \<Rightarrow> string list \<Rightarrow> string list" where
  "rust_bitcast casts operands = map (\<lambda>(cast, operand). perform_cast operand cast) (zip casts operands)"

section \<open>Flags\<close>

datatype rust_flags_repr = RustU8 | RustU16 | RustU32 | RustU64 | RustU128

definition rust_flags_repr_new :: "flags_repr \<Rightarrow> rust_flags_repr res" where
  "rust_flags_repr_new repr =
     (case repr of
        FlagsU8 \<Rightarrow> Inr RustU8
      | FlagsU16 \<Rightarrow> Inr RustU16
      | FlagsU32 n \<Rightarrow>
          if n = 1 then Inr RustU32
          else if n = 2 then Inr RustU64
          else if n = 3 \<or> n = 4 then Inr RustU128
          else Inl Explicit_Panic)"

definition rust_flags_repr_name :: "rust_flags_repr \<Rightarrow> string" where
  "rust_flags_repr_name r =
     (case r of
        RustU8 \<Rightarrow> ''u8'' | RustU16 \<Rightarrow> ''u16'' | RustU32 \<Rightarrow> ''u32'' | RustU64 \<Rightarrow> ''u64'' | RustU128 \<Rightarrow> ''u128'')"

section \<open>Options, remappings and the place of the code\<close>

datatype ownership = Owning | Borrowing bool

definition ownership_from_str :: "string \<Rightarrow> string + ownership" where
  \<open>ownership_from_str s =
     (if s = ''owning'' then Inr Owning
      else if s = ''borrowing'' then Inr (Borrowing False)
      else if s = ''borrowing-duplicate-if-necessary'' then Inr (Borrowing True)
      else Inl (''unrecognized ownership: `'' @ s @ ''`; '' @
        ''expected `owning`, `borrowing`, or `borrowing-duplicate-if-necessary`''))\<close>

definition display_ownership :: "ownership \<Rightarrow> string" where
  "display_ownership ow =
     (case ow of
        Owning \<Rightarrow> ''owning''
      | Borrowing dup \<Rightarrow> if dup then ''borrowing-duplicate-if-necessary'' else ''borrowing'')"

datatype type_generation = Remap string | Generate

definition generated :: "type_generation \<Rightarrow> bool" where
  "generated g = (case g of Generate \<Rightarrow> True | Remap _ \<Rightarrow> False)"

record generation_configuration =
  gc_map :: "(string \<times> type_generation) list"
  gc_generate_by_default :: bool

definition gc_get :: "generation_configuration \<Rightarrow> string \<Rightarrow> type_generation option" where
  "gc_get gc key =
     (case map_of (gc_map gc) key of
        Some g \<Rightarrow> Some g
      | None \<Rightarrow> if gc_generate_by_default gc then Some Generate else None)"

definition gc_insert :: "string \<Rightarrow> type_generation \<Rightarrow> generation_configuration \<Rightarrow> generation_configuration" where
  "gc_insert name g gc = gc\<lparr>gc_map := AList.update name g (gc_map gc)\<rparr>"

datatype with_option = WithPath string | WithGenerate

definition type_generation_from :: "with_option \<Rightarrow> type_generation" where
  "type_generation_from opt = (case opt of WithPath p \<Rightarrow> Remap p | WithGenerate \<Rightarrow> Generate)"

record rust_opts =
  op_std_feature :: bool
  op_skip :: "string list"
  op_raw_strings :: bool
  op_ownership :: ownership
  op_generate_unused_types :: bool
  op_runtime_path :: "string option"
  op_map_type :: "string option"
  op_enable_method_chaining :: bool
  op_format :: bool
  op_stubs :: bool
  op_export_prefix :: "string option"
  op_bitflags_path :: "string option"
  op_additional_derive_attributes :: "string list"
  op_additional_derive_ignore :: "string list"
  op_additional_type_attributes :: "(string \<times> string) list"
  op_additional_member_attributes :: "(string \<times> string) list"
  op_with :: "(string \<times> with_option) list"
  op_generate_all :: bool
  op_type_section_suffix :: "string option"
  op_disable_run_ctors_once_workaround :: bool
  op_default_bindings_module :: "string option"
  op_export_macro_name :: "string option"
  op_pub_export_macro :: bool
  op_disable_custom_section_link_helpers :: bool
  op_merge_structurally_equal_types :: "bool option option"

definition runtime_path :: "rust_opts \<Rightarrow> string" where
  "runtime_path opts = (case op_runtime_path opts of Some p \<Rightarrow> p | None \<Rightarrow> ''wit_bindgen::rt'')"

definition map_type_path :: "rust_opts \<Rightarrow> string" where
  "map_type_path opts = (case op_map_type opts of Some p \<Rightarrow> p | None \<Rightarrow> runtime_path opts @ ''::Map'')"

definition wit_map_path :: "rust_opts \<Rightarrow> string" where
  "wit_map_path opts = runtime_path opts @ ''::WitMap''"

definition async_support_path :: "rust_opts \<Rightarrow> string" where
  "async_support_path opts = runtime_path opts @ ''::async_support''"

definition should_return_self :: "rust_opts \<Rightarrow> func \<Rightarrow> bool" where
  "should_return_self opts f \<longleftrightarrow>
     op_enable_method_chaining opts \<and> fn_result f = None \<and>
     (case fn_kind f of Method _ \<Rightarrow> True | _ \<Rightarrow> False)"

datatype rust_identifier = IdWorld nat | IdInterface iface_id world_key | IdPayload

section \<open>Full names and constructors\<close>

text \<open>\<open>n\<close> bounds the chain of aliases.\<close>

definition full_wit_type_name :: "('z, 'a) rust_env \<Rightarrow> resolve \<Rightarrow> nat \<Rightarrow> tid \<Rightarrow> string res" where
  "full_wit_type_name RE r n i =
     and_then (dealias r n i) (\<lambda>i.
       and_then (type_at r i) (\<lambda>td.
         and_then (case td_owner td of
             OwnerWorld w \<Rightarrow> and_then (index (r_worlds r) w) (\<lambda>w. Inr (Some (w_name w)))
           | OwnerInterface i \<Rightarrow> Inr (re_id_of RE i)
           | OwnerNone \<Rightarrow> Inr None) (\<lambda>interface.
           and_then (unwrap (td_name td)) (\<lambda>name.
             Inr (case interface of Some interface \<Rightarrow> interface @ ''/'' @ name | None \<Rightarrow> name)))))"

datatype constructor_return_type = CtorSelf | CtorResult "ty option"

text \<open>Whether a type is an owned handle to the resource, given the resource's own id.\<close>

definition owns_resource :: "resolve \<Rightarrow> nat \<Rightarrow> tid \<Rightarrow> kind \<Rightarrow> bool res" where
  "owns_resource r n resource k =
     (case k of
        KHandle (Own i) \<Rightarrow> and_then (dealias r n i) (\<lambda>j. Inr (j = resource))
      | _ \<Rightarrow> Inr False)"

definition classify :: "resolve \<Rightarrow> nat \<Rightarrow> tid \<Rightarrow> ty option \<Rightarrow> constructor_return_type option res" where
  "classify r n resource result =
     and_then (dealias r n resource) (\<lambda>resource.
       case result of
         Some (TId i) \<Rightarrow>
           and_then (dealias r n i) (\<lambda>i.
             and_then (type_at r i) (\<lambda>td.
               and_then (owns_resource r n resource (td_kind td)) (\<lambda>own.
                 if own then Inr (Some CtorSelf)
                 else
                   (case td_kind td of
                      KResult (Some (TId j)) err \<Rightarrow>
                        and_then (dealias r n j) (\<lambda>j.
                          and_then (type_at r j) (\<lambda>td.
                            and_then (owns_resource r n resource (td_kind td)) (\<lambda>own.
                              Inr (if own then Some (CtorResult err) else None))))
                    | _ \<Rightarrow> Inr None))))
       | _ \<Rightarrow> Inr None)"

definition classify_constructor_return_type ::
    "resolve \<Rightarrow> nat \<Rightarrow> tid \<Rightarrow> ty option \<Rightarrow> constructor_return_type res" where
  "classify_constructor_return_type r n resource result =
     and_then (classify r n resource result) unwrap"

end
