(* ===== verification/Rust_State.thy ===== *)
theory Rust_State
  imports Rust_Names Core_Async
begin

text \<open>
  The state of the Rust generator, \<open>RustWasm\<close> of \<open>crates/rust/src/lib.rs\<close>, and the items of the
  runtime module that it collects. An \<open>IndexSet\<close> is a list without repetitions in the order of
  insertion, an \<open>IndexMap\<close> an association list; the option \<open>async\<close>, which remembers what was asked, is
  the field \<open>rw_async\<close>, the other options do not change and are passed beside the state.
\<close>

datatype runtime_item =
    AllocCrate | StringType | StdAllocModule | VecType | StringLiftItem | InvalidEnumDiscriminant
  | CharLift | BoolLift | CabiDealloc | RunCtorsOnce | AsI32 | AsI64 | AsF32 | AsF64
  | ResourceType | BoxType | WitMapTrait

record interface_name =
  in_remapped :: bool
  in_path :: string

definition index_insert :: "'x \<Rightarrow> 'x list \<Rightarrow> 'x list" where
  "index_insert x xs = (if x \<in> set xs then xs else xs @ [x])"

lemma set_index_insert [simp]: "set (index_insert x xs) = insert x (set xs)"
  by (auto simp: index_insert_def)

lemma distinct_index_insert [simp]: "distinct (index_insert x xs) \<longleftrightarrow> distinct xs"
  by (auto simp: index_insert_def)

record rust_wasm =
  rw_types :: types
  rw_src_preamble :: source
  rw_src :: source
  rw_import_modules :: "(string \<times> string list) list"
  rw_export_modules :: "(string \<times> string list) list"
  rw_skip :: "string set"
  rw_interface_names :: "iface_id \<rightharpoonup> interface_name"
  rw_exported_resources :: "tid list"
  rw_import_funcs_called :: bool
  rw_with_name_counter :: nat
  rw_generated_types :: "string set"
  rw_used_type_attr_selectors :: "string set"
  rw_used_member_attr_selectors :: "string set"
  rw_world :: "nat option"
  rw_rt_module :: "runtime_item list"
  rw_export_macros :: "(string \<times> string) list"
  rw_with :: generation_configuration
  rw_future_payloads :: "(ty option \<times> string) list"
  rw_stream_payloads :: "(ty option \<times> string) list"
  rw_async :: async_set

definition rust_wasm_new :: "string list \<Rightarrow> types \<Rightarrow> async_set \<Rightarrow> rust_wasm" where
  "rust_wasm_new skip no_types async =
     \<lparr>rw_types = no_types, rw_src_preamble = source_default, rw_src = source_default, rw_import_modules = [],
      rw_export_modules = [], rw_skip = set skip, rw_interface_names = Map.empty, rw_exported_resources = [],
      rw_import_funcs_called = False, rw_with_name_counter = 0, rw_generated_types = {},
      rw_used_type_attr_selectors = {}, rw_used_member_attr_selectors = {}, rw_world = None, rw_rt_module = [],
      rw_export_macros = [], rw_with = \<lparr>gc_map = [], gc_generate_by_default = False\<rparr>,
      rw_future_payloads = [], rw_stream_payloads = [], rw_async = async\<rparr>"

text \<open>\<open>self.src.push_str(..)\<close> and \<open>uwriteln!(self.src, ..)\<close>.\<close>

definition put :: "string \<Rightarrow> rust_wasm \<Rightarrow> rust_wasm" where
  "put s w = w\<lparr>rw_src := push_str s (rw_src w)\<rparr>"

definition put_pieces :: "string list \<Rightarrow> rust_wasm \<Rightarrow> rust_wasm" where
  "put_pieces ps w = w\<lparr>rw_src := push_pieces ps (rw_src w)\<rparr>"

definition need :: "runtime_item \<Rightarrow> rust_wasm \<Rightarrow> rust_wasm" where
  "need item w = w\<lparr>rw_rt_module := index_insert item (rw_rt_module w)\<rparr>"

end
