(* ===== verification/Rust_Types.thy ===== *)
theory Rust_Types
  imports Rust_State Abi_Generator
begin

text \<open>
  How the Rust generator names and prints types (\<open>crates/rust/src/interface.rs\<close>): the mode of each
  level of a type, the printing of a type in a mode, the modes in which a type is defined, the paths
  to interfaces, to the root and to the runtime module.

  \<open>rust_cx\<close> holds what an \<open>InterfaceGenerator\<close> reads, of its own and of the generator it belongs to, and
  \<open>iface_gen\<close> what it changes; \<open>ig_gen\<close> is that generator.
  Printing recurses through the arena of types; the recursion has fuel, one unit per nested type, and
  \<open>dealias\<close> takes its fuel from \<open>rc_fuel\<close>.
\<close>

section \<open>The interface generator\<close>

record ('z, 'a) rust_cx =
  rc_env :: "('z, 'a) rust_env"
  rc_opts :: rust_opts
  rc_resolve :: resolve
  rc_sizes :: "('z, 'a) size_align"
  rc_identifier :: rust_identifier
  rc_in_import :: bool
  rc_wasm_import_module :: string
  rc_types :: types
  rc_interface_names :: "iface_id \<Rightarrow> interface_name option"
  rc_exported_resources :: "tid list"
  rc_with :: generation_configuration
  rc_fuel :: nat

record ('z, 'a) iface_gen =
  ig_src :: source
  ig_return_pointer_area_size :: 'z
  ig_return_pointer_area_align :: 'a
  ig_needs_runtime_module :: bool
  ig_needs_wit_map :: bool
  ig_gen :: rust_wasm

definition print_text :: "string \<Rightarrow> ('z, 'a) iface_gen step" where
  "print_text s g = Inr (g\<lparr>ig_src := push_str s (ig_src g)\<rparr>)"

definition info :: "('z, 'a) rust_cx \<Rightarrow> tid \<Rightarrow> type_info res" where
  "info cx i = get_info (rc_types cx) i"

abbreviation with_type_of :: "('z, 'a) rust_cx \<Rightarrow> tid \<Rightarrow> (type_def \<Rightarrow> 's step) \<Rightarrow> 's step" where
  "with_type_of cx i f \<equiv> with_res (type_at (rc_resolve cx) i) f"

section \<open>Modes\<close>

datatype ownership_style = StyleOwned | StyleBorrowed | StyleOnlyTopBorrowed

record type_mode =
  tm_lifetime :: "string option"
  tm_lists_borrowed :: bool
  tm_style :: ownership_style

definition owned_mode :: type_mode where
  "owned_mode = \<lparr>tm_lifetime = None, tm_lists_borrowed = False, tm_style = StyleOwned\<rparr>"

fun next_style :: "ownership_style \<Rightarrow> ownership_style" where
  "next_style StyleOwned = StyleOwned"
| "next_style StyleBorrowed = StyleBorrowed"
| "next_style StyleOnlyTopBorrowed = StyleOwned"

definition uses_two_names :: "rust_opts \<Rightarrow> type_info \<Rightarrow> bool" where
  "uses_two_names opts x \<longleftrightarrow>
     op_ownership opts = Borrowing True \<and> borrowed x \<and> owned x \<and> has_list x \<and> \<not> has_own_handle x"

definition mode_of_info :: "rust_opts \<Rightarrow> type_info \<Rightarrow> ownership_style \<Rightarrow> string \<Rightarrow> type_mode" where
  "mode_of_info opts x style lt =
     (let mode = (\<lambda>lifetime.
        \<lparr>tm_lifetime = lifetime,
         tm_lists_borrowed = lifetime \<noteq> None \<and> style \<noteq> StyleOwned,
         tm_style = if has_own_handle x then StyleOwned else style\<rparr>) in
      if has_borrow_handle x then mode (Some lt)
      else if style = StyleOwned then mode None
      else if has_own_handle x \<or> \<not> has_list x then mode None
      else if \<not> owned x \<or> uses_two_names opts x then mode (Some lt)
      else
        (case op_ownership opts of
           Owning \<Rightarrow> mode (Some lt)
         | Borrowing _ \<Rightarrow>
             \<lparr>tm_lifetime = Some lt, tm_lists_borrowed = True, tm_style = StyleOnlyTopBorrowed\<rparr>))"

definition type_mode_for_id ::
    "('z, 'a) rust_cx \<Rightarrow> tid \<Rightarrow> ownership_style \<Rightarrow> string \<Rightarrow> type_mode res" where
  "type_mode_for_id cx i style lt =
     and_then (info cx i) (\<lambda>x. Inr (mode_of_info (rc_opts cx) x style lt))"

definition type_mode_for ::
    "('z, 'a) rust_cx \<Rightarrow> ty \<Rightarrow> ownership_style \<Rightarrow> string \<Rightarrow> type_mode res" where
  "type_mode_for cx t style lt =
     (case t of
        TId i \<Rightarrow> type_mode_for_id cx i style lt
      | TString \<Rightarrow>
          Inr (if style \<noteq> StyleOwned
            then \<lparr>tm_lifetime = Some lt, tm_lists_borrowed = True, tm_style = style\<rparr>
            else owned_mode)
      | _ \<Rightarrow> Inr owned_mode)"

definition filter_mode :: "('z, 'a) rust_cx \<Rightarrow> ty \<Rightarrow> type_mode \<Rightarrow> type_mode res" where
  "filter_mode cx t mode =
     (case tm_lifetime mode of
        Some lt \<Rightarrow> type_mode_for cx t (next_style (tm_style mode)) lt
      | None \<Rightarrow> Inr owned_mode)"

definition filter_mode_preserve_top :: "('z, 'a) rust_cx \<Rightarrow> ty \<Rightarrow> type_mode \<Rightarrow> type_mode res" where
  "filter_mode_preserve_top cx t mode =
     (if tm_style mode = StyleOnlyTopBorrowed then Inr mode else filter_mode cx t mode)"

section \<open>Paths\<close>

definition path_from_runtime_module ::
    "('z, 'a) rust_cx \<Rightarrow> runtime_item \<Rightarrow> string \<Rightarrow> ('z, 'a) iface_gen \<Rightarrow> string \<times> ('z, 'a) iface_gen" where
  "path_from_runtime_module cx item name g =
     ((case rc_identifier cx of IdPayload \<Rightarrow> ''super::super::'' | _ \<Rightarrow> []) @ ''_rt::'' @ name,
      g\<lparr>ig_needs_runtime_module := True, ig_gen := need item (ig_gen g)\<rparr>)"

definition path_to_invalid_enum_discriminant ::
    "('z, 'a) rust_cx \<Rightarrow> ('z, 'a) iface_gen \<Rightarrow> string \<times> ('z, 'a) iface_gen" where
  "path_to_invalid_enum_discriminant cx g =
     path_from_runtime_module cx InvalidEnumDiscriminant ''invalid_enum_discriminant'' g"

definition path_to_string_lift ::
    "('z, 'a) rust_cx \<Rightarrow> ('z, 'a) iface_gen \<Rightarrow> string \<times> ('z, 'a) iface_gen" where
  "path_to_string_lift cx g = path_from_runtime_module cx StringLiftItem ''string_lift'' g"

definition path_to_cabi_dealloc ::
    "('z, 'a) rust_cx \<Rightarrow> ('z, 'a) iface_gen \<Rightarrow> string \<times> ('z, 'a) iface_gen" where
  "path_to_cabi_dealloc cx g = path_from_runtime_module cx CabiDealloc ''cabi_dealloc'' g"

definition path_to_as_i32 ::
    "('z, 'a) rust_cx \<Rightarrow> ('z, 'a) iface_gen \<Rightarrow> string \<times> ('z, 'a) iface_gen" where
  "path_to_as_i32 cx g = path_from_runtime_module cx AsI32 ''as_i32'' g"

definition path_to_as_i64 ::
    "('z, 'a) rust_cx \<Rightarrow> ('z, 'a) iface_gen \<Rightarrow> string \<times> ('z, 'a) iface_gen" where
  "path_to_as_i64 cx g = path_from_runtime_module cx AsI64 ''as_i64'' g"

definition path_to_as_f32 ::
    "('z, 'a) rust_cx \<Rightarrow> ('z, 'a) iface_gen \<Rightarrow> string \<times> ('z, 'a) iface_gen" where
  "path_to_as_f32 cx g = path_from_runtime_module cx AsF32 ''as_f32'' g"

definition path_to_as_f64 ::
    "('z, 'a) rust_cx \<Rightarrow> ('z, 'a) iface_gen \<Rightarrow> string \<times> ('z, 'a) iface_gen" where
  "path_to_as_f64 cx g = path_from_runtime_module cx AsF64 ''as_f64'' g"

definition path_to_char_lift ::
    "('z, 'a) rust_cx \<Rightarrow> ('z, 'a) iface_gen \<Rightarrow> string \<times> ('z, 'a) iface_gen" where
  "path_to_char_lift cx g = path_from_runtime_module cx CharLift ''char_lift'' g"

definition path_to_bool_lift ::
    "('z, 'a) rust_cx \<Rightarrow> ('z, 'a) iface_gen \<Rightarrow> string \<times> ('z, 'a) iface_gen" where
  "path_to_bool_lift cx g = path_from_runtime_module cx BoolLift ''bool_lift'' g"

definition path_to_vec :: "('z, 'a) rust_cx \<Rightarrow> ('z, 'a) iface_gen \<Rightarrow> string \<times> ('z, 'a) iface_gen" where
  "path_to_vec cx g = path_from_runtime_module cx VecType ''Vec'' g"

definition path_to_string :: "('z, 'a) rust_cx \<Rightarrow> ('z, 'a) iface_gen \<Rightarrow> string \<times> ('z, 'a) iface_gen" where
  "path_to_string cx g = path_from_runtime_module cx StringType ''String'' g"

definition path_to_std_alloc_module ::
    "('z, 'a) rust_cx \<Rightarrow> ('z, 'a) iface_gen \<Rightarrow> string \<times> ('z, 'a) iface_gen" where
  "path_to_std_alloc_module cx g = path_from_runtime_module cx StdAllocModule ''alloc'' g"

definition push_vec_name :: "('z, 'a) rust_cx \<Rightarrow> ('z, 'a) iface_gen step" where
  "push_vec_name cx g = (let (path, g) = path_to_vec cx g in print_text path g)"

definition push_string_name :: "('z, 'a) rust_cx \<Rightarrow> ('z, 'a) iface_gen step" where
  "push_string_name cx g = (let (path, g) = path_to_string cx g in print_text path g)"

definition path_to_root :: "('z, 'a) rust_cx \<Rightarrow> string" where
  "path_to_root cx =
     (case rc_identifier cx of
        IdInterface _ key \<Rightarrow>
          ''super::'' @ (if rc_in_import cx then [] else ''super::'') @
          (case key of WKName _ \<Rightarrow> [] | WKInterface _ \<Rightarrow> ''super::super::'')
      | IdPayload \<Rightarrow> ''super::super::''
      | IdWorld _ \<Rightarrow> [])"

definition path_to_interface :: "('z, 'a) rust_cx \<Rightarrow> iface_id \<Rightarrow> string option res" where
  "path_to_interface cx interface =
     (case rc_interface_names cx interface of
        None \<Rightarrow>
          and_then (index (r_interfaces (rc_resolve cx)) interface) (\<lambda>iface.
            and_then (unwrap (if_name iface)) (\<lambda>_. Inl Explicit_Panic))
      | Some nm \<Rightarrow>
          if in_remapped nm then Inr (Some (path_to_root cx @ in_path nm))
          else
            (case rc_identifier cx of
               IdInterface cur key \<Rightarrow>
                 if cur = interface then Inr None
                 else Inr (Some ((if rc_in_import cx then [] else ''super::'') @
                   (case key of WKName _ \<Rightarrow> ''super::'' | WKInterface _ \<Rightarrow> ''super::super::super::'') @
                   in_path nm))
             | IdPayload \<Rightarrow> Inr (Some (''super::super::'' @ in_path nm))
             | IdWorld _ \<Rightarrow> Inr (Some (in_path nm))))"

section \<open>Names\<close>

definition suffixed_name :: "string \<Rightarrow> ('z, 'a) rust_cx \<Rightarrow> tid \<Rightarrow> string res" where
  "suffixed_name suffix cx i =
     and_then (info cx i) (\<lambda>x.
       and_then (type_at (rc_resolve cx) i) (\<lambda>td.
         and_then (unwrap (td_name td)) (\<lambda>name.
           Inr (to_upper_camel_case (rc_env cx) name @
             (if uses_two_names (rc_opts cx) x then suffix else [])))))"

definition param_name :: "('z, 'a) rust_cx \<Rightarrow> tid \<Rightarrow> string res" where
  "param_name cx i = suffixed_name ''Param'' cx i"

definition result_name :: "('z, 'a) rust_cx \<Rightarrow> tid \<Rightarrow> string res" where
  "result_name cx i = suffixed_name ''Result'' cx i"

definition type_path_with_name :: "('z, 'a) rust_cx \<Rightarrow> tid \<Rightarrow> string \<Rightarrow> string res" where
  "type_path_with_name cx i name =
     and_then (type_at (rc_resolve cx) i) (\<lambda>td.
       case td_owner td of
         OwnerInterface j \<Rightarrow>
           and_then (path_to_interface cx j) (\<lambda>path.
             Inr (case path of Some path \<Rightarrow> path @ ''::'' @ name | None \<Rightarrow> name))
       | OwnerWorld _ \<Rightarrow> Inr (path_to_root cx @ name)
       | OwnerNone \<Rightarrow> Inr name)"

definition type_path :: "('z, 'a) rust_cx \<Rightarrow> tid \<Rightarrow> bool \<Rightarrow> string res" where
  "type_path cx i own =
     and_then (full_wit_type_name (rc_env cx) (rc_resolve cx) (rc_fuel cx) i) (\<lambda>full.
       case gc_get (rc_with cx) full of
         Some (Remap path) \<Rightarrow> Inr path
       | _ \<Rightarrow>
           and_then (if own then result_name cx i else param_name cx i) (\<lambda>name.
             type_path_with_name cx i name))"

definition is_exported_resource :: "('z, 'a) rust_cx \<Rightarrow> tid \<Rightarrow> bool res" where
  "is_exported_resource cx i =
     and_then (dealias (rc_resolve cx) (rc_fuel cx) i) (\<lambda>i. Inr (i \<in> set (rc_exported_resources cx)))"

section \<open>Printing\<close>

text \<open>The lifetime that need not be written out.\<close>

definition elided :: string where
  "elided = CHR 0x27 # ''_''"

definition print_reference :: "string \<Rightarrow> ('z, 'a) iface_gen step" where
  "print_reference lt =
     seq [print_text ''&'', if lt \<noteq> elided then seq [print_text lt, print_text '' ''] else Inr]"

definition print_borrowed_str :: "('z, 'a) rust_cx \<Rightarrow> string \<Rightarrow> ('z, 'a) iface_gen step" where
  "print_borrowed_str cx lt =
     seq [print_reference lt, print_text (if op_raw_strings (rc_opts cx) then ''[u8]'' else ''str'')]"

definition print_generics :: "string option \<Rightarrow> ('z, 'a) iface_gen step" where
  "print_generics lifetime =
     (case lifetime of
        None \<Rightarrow> Inr
      | Some lt \<Rightarrow> seq [print_text ''<'', print_text lt, print_text '','', print_text ''>''])"

text \<open>
  The bodies of the recursive methods; \<open>pt\<close> is \<open>print_ty\<close> for the types inside.
\<close>

type_synonym ('z, 'a) printer = "ty \<Rightarrow> type_mode \<Rightarrow> ('z, 'a) iface_gen step"

definition print_optional_ty ::
    "('z, 'a) rust_cx \<Rightarrow> ('z, 'a) printer \<Rightarrow> ty option \<Rightarrow> type_mode \<Rightarrow> ('z, 'a) iface_gen step" where
  "print_optional_ty cx pt t mode =
     (case t of
        Some t \<Rightarrow> with_res (filter_mode_preserve_top cx t mode) (pt t)
      | None \<Rightarrow> print_text ''()'')"

definition print_list ::
    "('z, 'a) rust_cx \<Rightarrow> ('z, 'a) printer \<Rightarrow> ty \<Rightarrow> type_mode \<Rightarrow> ('z, 'a) iface_gen step" where
  "print_list cx pt t mode =
     with_res (filter_mode cx t mode) (\<lambda>next_mode.
       if tm_lists_borrowed mode then
         with_res (unwrap (tm_lifetime mode)) (\<lambda>lt.
           seq [print_reference lt, print_text ''['', pt t next_mode, print_text '']''])
       else seq [push_vec_name cx, print_text ''::<'', pt t next_mode, print_text ''>''])"

definition print_map ::
    "('z, 'a) rust_cx \<Rightarrow> ('z, 'a) printer \<Rightarrow> ty \<Rightarrow> ty \<Rightarrow> type_mode \<Rightarrow> ('z, 'a) iface_gen step" where
  "print_map cx pt key value_ty mode =
     with_res (filter_mode cx key mode) (\<lambda>key_mode.
       with_res (filter_mode cx value_ty mode) (\<lambda>value_mode.
         seq
           [if tm_lists_borrowed mode then with_res (unwrap (tm_lifetime mode)) print_reference else Inr,
            print_text (map_type_path (rc_opts cx)), print_text ''::<'', pt key key_mode,
            print_text '', '', pt value_ty value_mode, print_text ''>'']))"

definition print_payload ::
    "('z, 'a) rust_cx \<Rightarrow> ('z, 'a) printer \<Rightarrow> string \<Rightarrow> ty option \<Rightarrow> ('z, 'a) iface_gen step" where
  "print_payload cx pt reader t =
     seq [print_text (async_support_path (rc_opts cx) @ ''::'' @ reader @ ''<''),
       print_optional_ty cx pt t owned_mode, print_text ''>'']"

definition print_handle ::
    "('z, 'a) rust_cx \<Rightarrow> ('z, 'a) printer \<Rightarrow> type_mode \<Rightarrow> handle \<Rightarrow> ('z, 'a) iface_gen step" where
  "print_handle cx pt mode h =
     (case h of
        Own i \<Rightarrow> pt (TId i) mode
      | Borrow i \<Rightarrow>
          (case tm_lifetime mode of
             None \<Rightarrow> (\<lambda>g. Inl Assert_Failed)
           | Some lt \<Rightarrow>
               with_res (is_exported_resource cx i) (\<lambda>exported.
                 if exported then
                   with_type_of cx i (\<lambda>td.
                     with_res (unwrap (td_name td)) (\<lambda>name.
                       with_res (type_path_with_name cx i (re_upper_camel (rc_env cx) name @ ''Borrow'')) (\<lambda>path.
                         seq [print_text path, print_text ''<'', print_text lt, print_text ''>''])))
                 else
                   seq [print_reference lt, with_res (filter_mode cx (TId i) mode) (pt (TId i))])))"

definition anon_type_generator ::
    "('z, 'a) rust_cx \<Rightarrow> ('z, 'a) printer \<Rightarrow> type_mode \<Rightarrow> ('z, 'a) iface_gen anonymous_type_generator" where
  "anon_type_generator cx pt mode =
     \<lparr>anonymous_type_handle = (\<lambda>_. print_handle cx pt mode),
      anonymous_type_tuple = (\<lambda>_ ts.
        seq [print_text ''('',
          for_each ts (\<lambda>t. seq [with_res (filter_mode_preserve_top cx t mode) (pt t), print_text '','']),
          print_text '')'']),
      anonymous_type_option = (\<lambda>_ t.
        seq [print_text ''::core::option::Option<'',
          with_res (filter_mode_preserve_top cx t mode) (pt t), print_text ''>'']),
      anonymous_type_result = (\<lambda>_ ok err.
        seq [print_text ''::core::result::Result<'', print_optional_ty cx pt ok mode, print_text '','',
          print_optional_ty cx pt err mode, print_text ''>'']),
      anonymous_type_list = (\<lambda>_ t. print_list cx pt t mode),
      anonymous_type_fixed_length_list = (\<lambda>_ t size.
        seq [print_text ''['', pt t owned_mode, print_text (''; '' @ decimal (unat size) @ '']'')]),
      anonymous_type_map = (\<lambda>_ k v. print_map cx pt k v mode),
      anonymous_type_future = (\<lambda>_ t. print_payload cx pt ''FutureReader'' t),
      anonymous_type_stream = (\<lambda>_ t. print_payload cx pt ''StreamReader'' t),
      anonymous_type_type = (\<lambda>_ t. pt t mode)\<rparr>"

text \<open>The mode in which a named type is printed, after the \<open>&\<close> of a type of which only the top is borrowed.\<close>

definition print_named ::
    "('z, 'a) rust_cx \<Rightarrow> tid \<Rightarrow> type_mode \<Rightarrow> ('z, 'a) iface_gen step" where
  "print_named cx i mode =
     with_res (type_path cx i (tm_style mode = StyleOwned)) (\<lambda>name.
       seq [print_text name, print_generics (tm_lifetime mode)])"

definition print_tyid ::
    "('z, 'a) rust_cx \<Rightarrow> ('z, 'a) printer \<Rightarrow> tid \<Rightarrow> type_mode \<Rightarrow> ('z, 'a) iface_gen step" where
  "print_tyid cx pt i mode =
     with_type_of cx i (\<lambda>td.
       if td_name td \<noteq> None then
         (case (tm_style mode, tm_lifetime mode) of
            (StyleOnlyTopBorrowed, Some lt) \<Rightarrow>
              seq [print_reference lt, with_res (type_mode_for_id cx i StyleOwned lt) (print_named cx i)]
          | _ \<Rightarrow> print_named cx i mode)
       else define_anonymous_type (anon_type_generator cx pt mode) (rc_resolve cx) i)"

definition print_prim :: "('z, 'a) rust_cx \<Rightarrow> ty \<Rightarrow> type_mode \<Rightarrow> ('z, 'a) iface_gen step" where
  "print_prim cx t mode =
     (case t of
        TBool \<Rightarrow> print_text ''bool''
      | TU8 \<Rightarrow> print_text ''u8''
      | TU16 \<Rightarrow> print_text ''u16''
      | TU32 \<Rightarrow> print_text ''u32''
      | TU64 \<Rightarrow> print_text ''u64''
      | TS8 \<Rightarrow> print_text ''i8''
      | TS16 \<Rightarrow> print_text ''i16''
      | TS32 \<Rightarrow> print_text ''i32''
      | TS64 \<Rightarrow> print_text ''i64''
      | TF32 \<Rightarrow> print_text ''f32''
      | TF64 \<Rightarrow> print_text ''f64''
      | TChar \<Rightarrow> print_text ''char''
      | TString \<Rightarrow>
          seq [check (tm_lists_borrowed mode = (tm_lifetime mode \<noteq> None)) Assert_Failed,
            case tm_lifetime mode of
              Some lt \<Rightarrow> print_borrowed_str cx lt
            | None \<Rightarrow>
                if op_raw_strings (rc_opts cx) then seq [push_vec_name cx, print_text ''::<u8>'']
                else push_string_name cx]
      | TErrorContext \<Rightarrow> print_text (async_support_path (rc_opts cx) @ ''::ErrorContext'')
      | TId _ \<Rightarrow> Inr)"

definition print_ty_body :: "('z, 'a) rust_cx \<Rightarrow> ('z, 'a) printer \<Rightarrow> ('z, 'a) printer" where
  "print_ty_body cx pt t mode =
     (case t of
        TId i \<Rightarrow>
          with_res (dealias (rc_resolve cx) (rc_fuel cx) i) (\<lambda>d.
            with_type_of cx d (\<lambda>td.
              case (td_kind td, tm_lifetime mode) of
                (KType TString, Some lt) \<Rightarrow> print_borrowed_str cx lt
              | (KList t, Some _) \<Rightarrow> print_list cx pt t mode
              | (KMap k v, Some _) \<Rightarrow> print_map cx pt k v mode
              | _ \<Rightarrow> print_tyid cx pt i mode))
      | t \<Rightarrow> print_prim cx t mode)"

fun print_ty :: "('z, 'a) rust_cx \<Rightarrow> nat \<Rightarrow> ('z, 'a) printer" where
  "print_ty cx 0 t mode = (\<lambda>g. Inl Out_Of_Fuel)"
| "print_ty cx (Suc n) t mode = print_ty_body cx (print_ty cx n) t mode"

text \<open>The name of a type as a string: printed into an empty buffer.\<close>

definition type_name ::
    "('z, 'a) rust_cx \<Rightarrow> ty \<Rightarrow> type_mode \<Rightarrow> ('z, 'a) iface_gen \<Rightarrow> (string \<times> ('z, 'a) iface_gen) res" where
  "type_name cx t mode g =
     and_then (print_ty cx (rc_fuel cx) t mode (g\<lparr>ig_src := source_default\<rparr>)) (\<lambda>g'.
       Inr (src_text (ig_src g'), g'\<lparr>ig_src := ig_src g\<rparr>))"

definition type_name_owned ::
    "('z, 'a) rust_cx \<Rightarrow> ty \<Rightarrow> ('z, 'a) iface_gen \<Rightarrow> (string \<times> ('z, 'a) iface_gen) res" where
  "type_name_owned cx t g = type_name cx t owned_mode g"

section \<open>The definitions of a type\<close>

definition modes_of :: "('z, 'a) rust_cx \<Rightarrow> tid \<Rightarrow> (string \<times> type_mode) list res" where
  "modes_of cx i =
     and_then (info cx i) (\<lambda>x.
       if \<not> op_generate_unused_types (rc_opts cx) \<and> \<not> owned x \<and> \<not> borrowed x then Inr []
       else
         (let lt = CHR 0x27 # ''a'' in
          and_then (type_mode_for_id cx i StyleOwned lt) (\<lambda>a.
            and_then (type_mode_for_id cx i StyleBorrowed lt) (\<lambda>b.
              if uses_two_names (rc_opts cx) x then
                (if a = b then Inl Assert_Failed
                 else
                   and_then (result_name cx i) (\<lambda>name1.
                     and_then (param_name cx i) (\<lambda>name2. Inr [(name1, a), (name2, b)])))
              else if a = b then and_then (result_name cx i) (\<lambda>name. Inr [(name, a)])
              else if owned x \<or> op_ownership (rc_opts cx) = Owning then
                and_then (result_name cx i) (\<lambda>name. Inr [(name, a)])
              else if owned x then Inl Assert_Failed
              else and_then (param_name cx i) (\<lambda>name. Inr [(name, b)])))))"

section \<open>Canonical lists\<close>

definition rust_is_list_canonical :: "('z, 'a) rust_cx \<Rightarrow> ty \<Rightarrow> bool res" where
  "rust_is_list_canonical cx t =
     (if \<not> re_all_bits_valid (rc_env cx) t then Inr False
      else
        (case t of
           TId i \<Rightarrow> and_then (info cx i) (\<lambda>x. Inr (\<not> has_resource x \<and> \<not> has_tuple x))
         | _ \<Rightarrow> Inr True))"

end
