(* ===== verification/Rust_Bindgen.thy ===== *)
theory Rust_Bindgen
  imports Rust_Types
begin

text \<open>
  \<open>FunctionBindgen\<close> of \<open>crates/rust/src/bindgen.rs\<close>, the backend that writes the body of a Rust
  function: its state, its blocks and helpers, and the instructions on scalars, handles, records and
  variants. The operands are Rust expressions. A method that pushes results returns them.
\<close>

section \<open>State\<close>

record ('z, 'a) function_bindgen =
  fb_gen :: "('z, 'a) iface_gen"
  fb_params :: "string list"
  fb_wasm_import_module :: string
  fb_src :: source
  fb_blocks :: "string list"
  fb_block_storage :: "source list"
  fb_tmp :: nat
  fb_needs_cleanup_list :: bool
  fb_import_return_pointer_area_size :: 'z
  fb_import_return_pointer_area_align :: 'a
  fb_handle_decls :: "string list"
  fb_always_owned :: bool
  fb_return_self :: bool

text \<open>\<open>z\<close> and \<open>a\<close> are \<open>ArchitectureSize::default()\<close> and \<open>Alignment::default()\<close>.\<close>

definition function_bindgen_new ::
    "'z \<Rightarrow> 'a \<Rightarrow> ('z, 'a) iface_gen \<Rightarrow> string list \<Rightarrow> string \<Rightarrow> bool \<Rightarrow> bool \<Rightarrow> ('z, 'a) function_bindgen" where
  "function_bindgen_new z a g params module always_owned return_self =
     \<lparr>fb_gen = g, fb_params = params, fb_wasm_import_module = module, fb_src = source_default,
      fb_blocks = [], fb_block_storage = [], fb_tmp = 0, fb_needs_cleanup_list = False,
      fb_import_return_pointer_area_size = z, fb_import_return_pointer_area_align = a,
      fb_handle_decls = [], fb_always_owned = always_owned, fb_return_self = return_self\<rparr>"

type_synonym ('z, 'a) emitted = "(('z, 'a) function_bindgen \<times> string list) res"

text \<open>\<open>write_text s\<close> is \<open>self.push_str(&format!(..))\<close>, \<open>write_pieces ps\<close> is \<open>uwrite!\<close> or \<open>uwriteln!\<close>.\<close>

definition write_text :: "string \<Rightarrow> ('z, 'a) function_bindgen \<Rightarrow> ('z, 'a) function_bindgen" where
  "write_text s b = b\<lparr>fb_src := push_str s (fb_src b)\<rparr>"

definition write_pieces :: "string list \<Rightarrow> ('z, 'a) function_bindgen \<Rightarrow> ('z, 'a) function_bindgen" where
  "write_pieces ps b = b\<lparr>fb_src := push_pieces ps (fb_src b)\<rparr>"

definition write_texts :: "string list \<Rightarrow> ('z, 'a) function_bindgen \<Rightarrow> ('z, 'a) function_bindgen" where
  "write_texts ss b = foldl (\<lambda>b s. write_text s b) b ss"

definition next_tmp :: "('z, 'a) function_bindgen \<Rightarrow> string \<times> ('z, 'a) function_bindgen" where
  "next_tmp b = (decimal (fb_tmp b), b\<lparr>fb_tmp := fb_tmp b + 1\<rparr>)"

definition on_gen ::
    "(('z, 'a) iface_gen \<Rightarrow> string \<times> ('z, 'a) iface_gen) \<Rightarrow> ('z, 'a) function_bindgen
      \<Rightarrow> string \<times> ('z, 'a) function_bindgen" where
  "on_gen f b = (let (x, g) = f (fb_gen b) in (x, b\<lparr>fb_gen := g\<rparr>))"

definition add_cleanup :: "string \<Rightarrow> ('z, 'a) function_bindgen \<Rightarrow> ('z, 'a) function_bindgen" where
  "add_cleanup v b =
     (if fb_block_storage b \<noteq> [] then
        write_pieces [''cleanup_list.extend('', v, '');'' @ nl] (b\<lparr>fb_needs_cleanup_list := True\<rparr>)
      else b)"

definition fb_declare_import ::
    "string \<Rightarrow> wasm_type list \<Rightarrow> wasm_type list \<Rightarrow> ('z, 'a) function_bindgen
      \<Rightarrow> (string \<times> ('z, 'a) function_bindgen) res" where
  "fb_declare_import name params results b =
     (let (tmp, b) = next_tmp b; rust_name = ''wit_import'' @ tmp in
      and_then (declare_import (fb_wasm_import_module b) name rust_name params results) (\<lambda>decl.
        Inr (rust_name, write_text decl b)))"

definition let_results ::
    "nat \<Rightarrow> ('z, 'a) function_bindgen \<Rightarrow> ('z, 'a) function_bindgen \<times> string list" where
  "let_results amt b =
     (if amt = 0 then (b, [])
      else
        (let (tmp, b) = next_tmp b in
         if amt = 1 then
           (let res = ''result'' @ tmp in (write_texts [''let '', res, '' = ''] b, [res]))
         else
           (let args = map (\<lambda>i. ''result'' @ tmp @ ''_'' @ decimal i) [0..<amt] in
            (write_texts ([''let (''] @ concat (map (\<lambda>arg. [arg, '','']) args) @ ['') = '']) b, args))))"

definition rust_lift_lower :: "('z, 'a) rust_cx \<Rightarrow> lift_lower" where
  "rust_lift_lower cx = (if rc_in_import cx then LowerArgsLiftResults else LiftArgsLowerResults)"

definition typename_lower :: "('z, 'a) rust_cx \<Rightarrow> ('z, 'a) function_bindgen \<Rightarrow> tid \<Rightarrow> string res" where
  "typename_lower cx b i =
     type_path cx i
       (fb_always_owned b \<or>
        (case rust_lift_lower cx of LowerArgsLiftResults \<Rightarrow> False | LiftArgsLowerResults \<Rightarrow> True))"

definition typename_lift :: "('z, 'a) rust_cx \<Rightarrow> tid \<Rightarrow> string res" where
  "typename_lift cx i = type_path cx i True"

section \<open>Blocks and return areas\<close>

definition rust_push_block :: "('z, 'a) function_bindgen \<Rightarrow> ('z, 'a) function_bindgen" where
  "rust_push_block b =
     b\<lparr>fb_block_storage := fb_block_storage b @ [fb_src b], fb_src := source_default\<rparr>"

definition tuple_of :: "string list \<Rightarrow> string" where
  "tuple_of operands = ''('' @ join '', '' operands @ '')''"

definition rust_finish_block ::
    "('z, 'a) function_bindgen \<Rightarrow> string list \<Rightarrow> ('z, 'a) function_bindgen res" where
  "rust_finish_block b operands =
     (if fb_block_storage b = [] then Inl Unwrap_None
      else
        (let src = src_text (fb_src b);
             expr = (case operands of [] \<Rightarrow> ''()'' | [x] \<Rightarrow> x | _ \<Rightarrow> tuple_of operands);
             block =
               (if src = [] then expr
                else if operands = [] then ''{'' @ nl @ src @ ''}''
                else ''{'' @ nl @ src @ nl @ expr @ nl @ ''}'') in
         Inr (b\<lparr>fb_src := last (fb_block_storage b), fb_block_storage := butlast (fb_block_storage b),
               fb_blocks := fb_blocks b @ [block]\<rparr>)))"

definition pop_block :: "('z, 'a) function_bindgen \<Rightarrow> (string \<times> ('z, 'a) function_bindgen) res" where
  "pop_block b =
     (if fb_blocks b = [] then Inl Unwrap_None
      else Inr (last (fb_blocks b), b\<lparr>fb_blocks := butlast (fb_blocks b)\<rparr>))"

definition drain_blocks ::
    "nat \<Rightarrow> ('z, 'a) function_bindgen \<Rightarrow> (string list \<times> ('z, 'a) function_bindgen) res" where
  "drain_blocks n b =
     (if length (fb_blocks b) < n then Inl Sub_Overflow
      else Inr (tail_n n (fb_blocks b), b\<lparr>fb_blocks := but_tail_n n (fb_blocks b)\<rparr>))"

definition rust_return_pointer ::
    "('z, 'a) rust_cx \<Rightarrow> ('z, 'a) function_bindgen \<Rightarrow> 'z \<Rightarrow> 'a \<Rightarrow> ('z, 'a) function_bindgen \<times> string" where
  "rust_return_pointer cx b sz al =
     (let (tmp, b) = next_tmp b; RE = rc_env cx; ptr = ''ptr'' @ tmp in
      (if re_size_is_empty RE sz then
         write_pieces [''let ptr'', tmp, '' = core::ptr::null_mut::<u8>();''] b
       else if rc_in_import cx then
         write_pieces [''let ptr'', tmp, '' = ret_area.0.as_mut_ptr().cast::<u8>();'']
           (b\<lparr>fb_import_return_pointer_area_size :=
                re_size_max RE (fb_import_return_pointer_area_size b) sz,
              fb_import_return_pointer_area_align :=
                re_align_max RE (fb_import_return_pointer_area_align b) al\<rparr>)
       else
         (let g = fb_gen b in
          write_pieces [''let ptr'', tmp, '' = (&raw mut _RET_AREA.0).cast::<u8>();'' @ nl]
            (b\<lparr>fb_gen :=
               g\<lparr>ig_return_pointer_area_size := re_size_max RE (ig_return_pointer_area_size g) sz,
                 ig_return_pointer_area_align := re_align_max RE (ig_return_pointer_area_align g) al\<rparr>\<rparr>)),
       ptr))"

section \<open>Scalars\<close>

definition pop_operand :: "string list \<Rightarrow> string res" where
  "pop_operand operands = (if operands = [] then Inl Unwrap_None else Inr (last operands))"

definition top_as :: "string \<Rightarrow> string list \<Rightarrow> ('z, 'a) function_bindgen \<Rightarrow> ('z, 'a) emitted" where
  "top_as cvt operands b = and_then (pop_operand operands) (\<lambda>s. Inr (b, [s @ '' as '' @ cvt]))"

definition wrap_operand ::
    "(('z, 'a) iface_gen \<Rightarrow> string \<times> ('z, 'a) iface_gen) \<Rightarrow> string list \<Rightarrow> ('z, 'a) function_bindgen
      \<Rightarrow> ('z, 'a) emitted" where
  "wrap_operand path operands b =
     and_then (pop_operand operands) (\<lambda>s. let (f, b) = on_gen path b in Inr (b, [f @ ''('' @ s @ '')'']))"

definition decimal_i32 :: "32 word \<Rightarrow> string" where
  "decimal_i32 w = (if sint w < 0 then ''-'' @ decimal (nat (- sint w)) else decimal (nat (sint w)))"

definition zero_of :: "wasm_type \<Rightarrow> string" where
  "zero_of t =
     (case t of
        WI32 \<Rightarrow> ''0i32''
      | WI64 \<Rightarrow> ''0i64''
      | WF32 \<Rightarrow> ''0.0f32''
      | WF64 \<Rightarrow> ''0.0f64''
      | WPointer \<Rightarrow> ''::core::ptr::null_mut()''
      | WPointerOrI64 \<Rightarrow> ''::core::mem::MaybeUninit::<u64>::zeroed()''
      | WLength \<Rightarrow> ''0usize'')"

definition emit_scalar ::
    "('z, 'a) rust_cx \<Rightarrow> ('z, 'a) instruction \<Rightarrow> string list \<Rightarrow> ('z, 'a) function_bindgen
      \<Rightarrow> ('z, 'a) emitted" where
  "emit_scalar cx inst operands b =
     (case inst of
        GetArg k \<Rightarrow> and_then (index (fb_params b) k) (\<lambda>x. Inr (b, [x]))
      | I32Const v \<Rightarrow> Inr (b, [decimal_i32 v @ ''i32''])
      | ConstZero tys \<Rightarrow> Inr (b, map zero_of tys)
      | I64FromU64 \<Rightarrow> wrap_operand (path_to_as_i64 cx) operands b
      | I64FromS64 \<Rightarrow> wrap_operand (path_to_as_i64 cx) operands b
      | I32FromChar \<Rightarrow> wrap_operand (path_to_as_i32 cx) operands b
      | I32FromU8 \<Rightarrow> wrap_operand (path_to_as_i32 cx) operands b
      | I32FromS8 \<Rightarrow> wrap_operand (path_to_as_i32 cx) operands b
      | I32FromU16 \<Rightarrow> wrap_operand (path_to_as_i32 cx) operands b
      | I32FromS16 \<Rightarrow> wrap_operand (path_to_as_i32 cx) operands b
      | I32FromU32 \<Rightarrow> wrap_operand (path_to_as_i32 cx) operands b
      | I32FromS32 \<Rightarrow> wrap_operand (path_to_as_i32 cx) operands b
      | CoreF32FromF32 \<Rightarrow> wrap_operand (path_to_as_f32 cx) operands b
      | CoreF64FromF64 \<Rightarrow> wrap_operand (path_to_as_f64 cx) operands b
      | F32FromCoreF32 \<Rightarrow> and_then (pop_operand operands) (\<lambda>s. Inr (b, [s]))
      | F64FromCoreF64 \<Rightarrow> and_then (pop_operand operands) (\<lambda>s. Inr (b, [s]))
      | S32FromI32 \<Rightarrow> and_then (pop_operand operands) (\<lambda>s. Inr (b, [s]))
      | S64FromI64 \<Rightarrow> and_then (pop_operand operands) (\<lambda>s. Inr (b, [s]))
      | S8FromI32 \<Rightarrow> top_as ''i8'' operands b
      | U8FromI32 \<Rightarrow> top_as ''u8'' operands b
      | S16FromI32 \<Rightarrow> top_as ''i16'' operands b
      | U16FromI32 \<Rightarrow> top_as ''u16'' operands b
      | U32FromI32 \<Rightarrow> top_as ''u32'' operands b
      | U64FromI64 \<Rightarrow> top_as ''u64'' operands b
      | CharFromI32 \<Rightarrow>
          (let (f, b) = on_gen (path_to_char_lift cx) b in
           and_then (index operands 0) (\<lambda>x. Inr (b, [f @ ''('' @ x @ '' as u32)''])))
      | Bitcasts casts \<Rightarrow> Inr (b, rust_bitcast casts operands)
      | I32FromBool \<Rightarrow>
          and_then (index operands 0) (\<lambda>x. Inr (b, [''match '' @ x @ '' { true => 1, false => 0 }'']))
      | BoolFromI32 \<Rightarrow>
          (let (f, b) = on_gen (path_to_bool_lift cx) b in
           and_then (index operands 0) (\<lambda>x. Inr (b, [f @ ''('' @ x @ '' as u8)''])))
      | _ \<Rightarrow> Inl Unreachable_Code)"

section \<open>Flags and handles\<close>

definition emit_flags_lower ::
    "nat \<Rightarrow> string list \<Rightarrow> ('z, 'a) function_bindgen \<Rightarrow> ('z, 'a) emitted" where
  "emit_flags_lower count operands b =
     (let (tmp, b) = next_tmp b in
      and_then (index operands 0) (\<lambda>x.
        Inr (write_text (''let flags'' @ tmp @ '' = '' @ x @ '';'' @ nl) b,
          map (\<lambda>i. ''(flags'' @ tmp @ ''.bits() >> '' @ decimal (i * 32) @ '') as i32'') [0..<count])))"

definition emit_flags_lift ::
    "('z, 'a) rust_cx \<Rightarrow> flags_repr \<Rightarrow> tid \<Rightarrow> string list \<Rightarrow> ('z, 'a) function_bindgen \<Rightarrow> ('z, 'a) emitted" where
  "emit_flags_lift cx flags i operands b =
     and_then (rust_flags_repr_new flags) (\<lambda>repr.
       and_then (type_path cx i True) (\<lambda>name.
         Inr (b, [name @ ''::empty()'' @
           concat (map (\<lambda>(k, x). '' | '' @ name @ ''::from_bits_retain((('' @ x @ '' as '' @
             rust_flags_repr_name repr @ '') << '' @ decimal (k * 32) @ '') as _)'') (enumerate 0 operands))])))"

definition emit_handle_lower ::
    "handle \<Rightarrow> string list \<Rightarrow> ('z, 'a) function_bindgen \<Rightarrow> ('z, 'a) emitted" where
  "emit_handle_lower h operands b =
     and_then (index operands 0) (\<lambda>x.
       Inr (b, [''('' @ x @ (case h of Own _ \<Rightarrow> '').take_handle() as i32'' | Borrow _ \<Rightarrow> '').handle() as i32'')]))"

definition emit_handle_lift ::
    "('z, 'a) rust_cx \<Rightarrow> resolve \<Rightarrow> handle \<Rightarrow> string list \<Rightarrow> ('z, 'a) function_bindgen \<Rightarrow> ('z, 'a) emitted" where
  "emit_handle_lift cx r h operands b =
     and_then (index operands 0) (\<lambda>x.
       let resource = (case h of Own i \<Rightarrow> i | Borrow i \<Rightarrow> i) in
       and_then (dealias r (rc_fuel cx) resource) (\<lambda>d.
         and_then (type_path cx d True) (\<lambda>name.
           case h of
             Own _ \<Rightarrow> Inr (b, [name @ ''::from_handle('' @ x @ '' as u32)''])
           | Borrow _ \<Rightarrow>
               and_then (is_exported_resource cx resource) (\<lambda>exported.
                 if exported then
                   Inr (b, [name @ ''Borrow::lift(core::ptr::with_exposed_provenance('' @ x @ '' as u32 as usize))''])
                 else
                   (let (tmp, b) = next_tmp b; tmp = ''handle'' @ tmp in
                    Inr (b\<lparr>fb_handle_decls := fb_handle_decls b @ [''let '' @ tmp @ '';'']\<rparr>,
                      [text_lines
                        [''{'', '''',
                         spaces 28 @ tmp @ '' = '' @ name @ ''::from_handle('' @ x @ '' as u32);'',
                         spaces 28 @ ''&'' @ tmp,
                         spaces 24 @ ''}'']]))))))"

definition emit_async_lift ::
    "('z, 'a) rust_cx \<Rightarrow> string \<Rightarrow> string \<Rightarrow> ty option \<Rightarrow> string list \<Rightarrow> ('z, 'a) function_bindgen
      \<Rightarrow> ('z, 'a) emitted" where
  "emit_async_lift cx reader payload_trait payload operands b =
     and_then (index operands 0) (\<lambda>x.
       and_then (case payload of
           Some t \<Rightarrow> type_name_owned cx t (fb_gen b)
         | None \<Rightarrow> Inr (''()'', fb_gen b)) (\<lambda>(name, g).
         Inr (b\<lparr>fb_gen := g\<rparr>,
           [async_support_path (rc_opts cx) @ ''::'' @ reader @ ''::new('' @ x @ '' as u32, &<'' @ name @
            '' as '' @ path_to_root cx @ payload_trait @ ''>::VTABLE)''])))"

definition emit_error_context_lift ::
    "('z, 'a) rust_cx \<Rightarrow> string list \<Rightarrow> ('z, 'a) function_bindgen \<Rightarrow> ('z, 'a) emitted" where
  "emit_error_context_lift cx operands b =
     and_then (index operands 0) (\<lambda>x.
       Inr (b, [async_support_path (rc_opts cx) @ ''::ErrorContext::from_handle('' @ x @ '' as u32)'']))"

section \<open>Records and tuples\<close>

definition record_lower ::
    "('z, 'a) rust_cx \<Rightarrow> tid \<Rightarrow> field list \<Rightarrow> string \<Rightarrow> ('z, 'a) function_bindgen \<Rightarrow> ('z, 'a) emitted" where
  "record_lower cx i fs operand b =
     (let (tmp, b) = next_tmp b in
      and_then (typename_lower cx b i) (\<lambda>name.
        let names = map (\<lambda>(f, _). to_rust_ident (rc_env cx) f) fs; args = map (\<lambda>nm. nm @ tmp) names in
        Inr (write_texts ([''let '', name, ''{ ''] @
            concat (map (\<lambda>(nm, arg). [nm, '':'', arg, '', '']) (zip names args)) @
            [''} = '', operand, '';'' @ nl]) b, args)))"

definition record_lift ::
    "('z, 'a) rust_cx \<Rightarrow> tid \<Rightarrow> field list \<Rightarrow> string list \<Rightarrow> ('z, 'a) function_bindgen \<Rightarrow> ('z, 'a) emitted" where
  "record_lift cx i fs operands b =
     and_then (typename_lift cx i) (\<lambda>name.
       Inr (b, [name @ ''{'' @ nl @
         concat (map (\<lambda>((f, _), v). to_rust_ident (rc_env cx) f @ '': '' @ v @ '','' @ nl) (zip fs operands)) @
         ''}'']))"

definition tuple_lower ::
    "ty list \<Rightarrow> string \<Rightarrow> ('z, 'a) function_bindgen \<Rightarrow> ('z, 'a) emitted" where
  "tuple_lower ts operand b =
     (let (tmp, b) = next_tmp b; args = map (\<lambda>i. ''t'' @ tmp @ ''_'' @ decimal i) [0..<length ts] in
      Inr (write_texts ([''let (''] @ concat (map (\<lambda>arg. [arg, '', '']) args) @ ['') = '', operand, '';'' @ nl]) b, args))"

definition tuple_lift :: "string list \<Rightarrow> ('z, 'a) function_bindgen \<Rightarrow> ('z, 'a) emitted" where
  "tuple_lift operands b =
     Inr (b, [case operands of [x] \<Rightarrow> ''('' @ x @ '',)'' | _ \<Rightarrow> tuple_of operands])"

end
