(* ===== verification/Rust_Emit.thy ===== *)
theory Rust_Emit
  imports Rust_Bindgen
begin

text \<open>
  The remaining instructions of \<open>FunctionBindgen::emit\<close> (\<open>crates/rust/src/bindgen.rs\<close>): variants,
  lists, strings and maps, calls, loads and stores, deallocation; and the dispatch over all of them.
\<close>

section \<open>Variants\<close>

text \<open>A path with \<open>::\<close> in it is imported under a fresh name.\<close>

definition upper_camel :: "('z, 'a) rust_cx \<Rightarrow> string \<Rightarrow> string" where
  "upper_camel cx s = re_upper_camel (rc_env cx) s"

definition emit_variant_lower ::
    "('z, 'a) rust_cx \<Rightarrow> vcase list \<Rightarrow> tid \<Rightarrow> nat \<Rightarrow> string list \<Rightarrow> ('z, 'a) function_bindgen
      \<Rightarrow> ('z, 'a) emitted" where
  "emit_variant_lower cx cases i amt operands b =
     and_then (drain_blocks (length cases) b) (\<lambda>(blocks, b).
       and_then (typename_lower cx b i) (\<lambda>name.
         let (name, b) =
               (if contains_text ''::'' name then
                  (let (tmp, b) = next_tmp b in
                   (''V'' @ tmp, write_pieces [''use '', name, '' as V'', tmp, '';'' @ nl] b))
                else (name, b));
             (b, results) = let_results amt b in
         and_then (index operands 0) (\<lambda>x.
           Inr (write_texts
               ([''match '' @ x @ '' {'' @ nl] @
                concat (map (\<lambda>((cn, payload), block).
                  [name @ ''::'' @ upper_camel cx cn,
                   if payload \<noteq> None then ''(e) => '' @ block @ '','' @ nl
                   else '' => {'' @ nl @ block @ nl @ ''}'' @ nl]) (zip cases blocks)) @
                [if results = [] then ''}'' @ nl else ''};'' @ nl]) b, results))))"

definition lift_arm ::
    "('z, 'a) rust_cx \<Rightarrow> nat \<Rightarrow> string \<Rightarrow> string \<Rightarrow> nat \<times> vcase \<times> string \<Rightarrow> ('z, 'a) function_bindgen
      \<Rightarrow> ('z, 'a) function_bindgen" where
  \<open>lift_arm cx n name tmp = (\<lambda>(i, (cn, payload), block) b.
     let b =
       (if i = n - 1 then
          write_pieces
            [''n => {'' @ nl @ spaces 32 @ ''debug_assert_eq!(n, '', decimal i,
             '', "invalid enum discriminant");'' @ nl] b
        else write_pieces [decimal i, '' => {'' @ nl] b);
       cn = upper_camel cx cn;
       b =
         (if payload = None then write_pieces [name, ''::'', cn, nl] b
          else
            write_pieces [name, ''::'', cn, ''(e'', tmp, '')'' @ nl]
              (write_pieces [''let e'', tmp, '' = '', block, '';'' @ nl] b)) in
     write_pieces [''}'' @ nl] b)\<close>

definition emit_variant_lift ::
    "('z, 'a) rust_cx \<Rightarrow> vcase list \<Rightarrow> tid \<Rightarrow> string list \<Rightarrow> ('z, 'a) function_bindgen \<Rightarrow> ('z, 'a) emitted" where
  "emit_variant_lift cx cases i operands b =
     and_then (drain_blocks (length cases) b) (\<lambda>(blocks, b).
       and_then (index operands 0) (\<lambda>x.
         let (tmp, b) = next_tmp b in
         and_then (typename_lift cx i) (\<lambda>name.
           let (name, b) =
                 (if contains_text ''::'' name
                  then (''V'' @ tmp, write_pieces [''use '', name, '' as V'', tmp, '';'' @ nl] b)
                  else (name, b));
               b = write_pieces [''let v'', tmp, '' = match '', x, '' {'' @ nl] b;
               b = foldl (\<lambda>b arm. lift_arm cx (length cases) name tmp arm b) b
                     (enumerate 0 (zip cases blocks)) in
           Inr (write_pieces [''};'' @ nl] b, [''v'' @ tmp]))))"

definition emit_option_lower ::
    "nat \<Rightarrow> string list \<Rightarrow> ('z, 'a) function_bindgen \<Rightarrow> ('z, 'a) emitted" where
  "emit_option_lower amt operands b =
     and_then (pop_block b) (\<lambda>(some, b).
       and_then (pop_block b) (\<lambda>(none, b).
         let (b, results) = let_results amt b in
         and_then (index operands 0) (\<lambda>x.
           Inr (write_text (text_lines
               [''match '' @ x @ '' {'',
                spaces 24 @ ''Some(e) => '' @ some @ '','',
                spaces 24 @ ''None => {'', none, ''},'',
                spaces 20 @ ''};'']) b, results))))"

definition emit_option_lift ::
    "('z, 'a) rust_cx \<Rightarrow> string list \<Rightarrow> ('z, 'a) function_bindgen \<Rightarrow> ('z, 'a) emitted" where
  "emit_option_lift cx operands b =
     and_then (pop_block b) (\<lambda>(some, b).
       and_then (pop_block b) (\<lambda>(none, b).
         if none \<noteq> ''()'' then Inl Assert_Failed
         else
           and_then (index operands 0) (\<lambda>x.
             let (invalid, b) = on_gen (path_to_invalid_enum_discriminant cx) b in
             Inr (b, [text_lines
               [''match '' @ x @ '' {'',
                spaces 24 @ ''0 => None,'',
                spaces 24 @ ''1 => {'',
                spaces 28 @ ''let e = '' @ some @ '';'',
                spaces 28 @ ''Some(e)'',
                spaces 24 @ ''}'',
                spaces 24 @ ''_ => '' @ invalid @ ''(),'',
                spaces 20 @ ''}'']]))))"

definition emit_result_lower ::
    "ty option \<Rightarrow> ty option \<Rightarrow> nat \<Rightarrow> string list \<Rightarrow> ('z, 'a) function_bindgen \<Rightarrow> ('z, 'a) emitted" where
  "emit_result_lower ok_ty err_ty amt operands b =
     and_then (pop_block b) (\<lambda>(err, b).
       and_then (pop_block b) (\<lambda>(ok, b).
         let (b, results) = let_results amt b in
         and_then (index operands 0) (\<lambda>x.
           Inr (write_text (text_lines
               [''match '' @ x @ '' {'',
                spaces 24 @ ''Ok('' @ (if ok_ty \<noteq> None then ''e'' else ''_'') @ '') => { '' @ ok @ '' },'',
                spaces 24 @ ''Err('' @ (if err_ty \<noteq> None then ''e'' else ''_'') @ '') => { '' @ err @ '' },'',
                spaces 20 @ ''};'']) b, results))))"

definition emit_result_lift ::
    "('z, 'a) rust_cx \<Rightarrow> string list \<Rightarrow> ('z, 'a) function_bindgen \<Rightarrow> ('z, 'a) emitted" where
  "emit_result_lift cx operands b =
     and_then (pop_block b) (\<lambda>(err, b).
       and_then (pop_block b) (\<lambda>(ok, b).
         and_then (index operands 0) (\<lambda>x.
           let (invalid, b) = on_gen (path_to_invalid_enum_discriminant cx) b in
           Inr (b, [text_lines
             [''match '' @ x @ '' {'',
              spaces 24 @ ''0 => {'',
              spaces 28 @ ''let e = '' @ ok @ '';'',
              spaces 28 @ ''Ok(e)'',
              spaces 24 @ ''}'',
              spaces 24 @ ''1 => {'',
              spaces 28 @ ''let e = '' @ err @ '';'',
              spaces 28 @ ''Err(e)'',
              spaces 24 @ ''}'',
              spaces 24 @ ''_ => '' @ invalid @ ''(),'',
              spaces 20 @ ''}'']]))))"

definition emit_enum_lift ::
    "('z, 'a) rust_cx \<Rightarrow> int_repr \<Rightarrow> tid \<Rightarrow> string list \<Rightarrow> ('z, 'a) function_bindgen \<Rightarrow> ('z, 'a) emitted" where
  "emit_enum_lift cx tag i operands b =
     and_then (type_path cx i True) (\<lambda>name.
       and_then (index operands 0) (\<lambda>x.
         Inr (b, [name @ ''::_lift('' @ x @ '' as '' @ int_repr_name tag @ '')''])))"

section \<open>Lists and strings\<close>

text \<open>What \<open>ListCanonLower\<close> and \<open>StringLower\<close> write after the vector or the boxed slice.\<close>

definition pointer_and_length ::
    "string \<Rightarrow> bool \<Rightarrow> ('z, 'a) function_bindgen \<Rightarrow> ('z, 'a) emitted" where
  "pointer_and_length tmp forget b =
     (let v = ''vec'' @ tmp; ptr = ''ptr'' @ tmp; len = ''len'' @ tmp in
      Inr (write_texts
          ([''let '' @ ptr @ '' = '' @ v @ ''.as_ptr().cast::<u8>();'' @ nl,
            ''let '' @ len @ '' = '' @ v @ ''.len();'' @ nl] @
           (if forget then [''::core::mem::forget('' @ v @ '');'' @ nl] else [])) b,
        [ptr @ ''.cast_mut()'', len]))"

definition emit_list_canon_lower ::
    "('z, 'a) rust_cx \<Rightarrow> string option \<Rightarrow> string list \<Rightarrow> ('z, 'a) function_bindgen \<Rightarrow> ('z, 'a) emitted" where
  "emit_list_canon_lower cx realloc operands b =
     (let (tmp, b) = next_tmp b; (vec, b) = on_gen (path_to_vec cx) b in
      and_then (if realloc = None then index operands 0 else pop_operand operands) (\<lambda>x.
        pointer_and_length tmp (realloc \<noteq> None)
          (write_text
            (if realloc = None then ''let vec'' @ tmp @ '' = '' @ x @ '';'' @ nl
             else ''let vec'' @ tmp @ '' = <_ as Into<'' @ vec @ ''<_>>>::into('' @ x @
               '').into_boxed_slice();'' @ nl) b)))"

definition emit_string_lower ::
    "string option \<Rightarrow> string list \<Rightarrow> ('z, 'a) function_bindgen \<Rightarrow> ('z, 'a) emitted" where
  "emit_string_lower realloc operands b =
     (let (tmp, b) = next_tmp b in
      and_then (index operands 0) (\<lambda>x.
        pointer_and_length tmp (realloc \<noteq> None)
          (write_text
            (if realloc = None then ''let vec'' @ tmp @ '' = '' @ x @ '';'' @ nl
             else ''let vec'' @ tmp @ '' = ('' @ x @ ''.into_bytes()).into_boxed_slice();'' @ nl) b)))"

definition emit_list_canon_lift ::
    "('z, 'a) rust_cx \<Rightarrow> string list \<Rightarrow> ('z, 'a) function_bindgen \<Rightarrow> ('z, 'a) emitted" where
  "emit_list_canon_lift cx operands b =
     (let (tmp, b) = next_tmp b; len = ''len'' @ tmp in
      and_then (index operands 1) (\<lambda>y.
        let b = write_text (''let '' @ len @ '' = '' @ y @ '';'' @ nl) b;
            (vec, b) = on_gen (path_to_vec cx) b in
        and_then (index operands 0) (\<lambda>x.
          Inr (b, [''<_ as From<'' @ vec @ ''<_>>>::from('' @ vec @ ''::from_raw_parts('' @ x @ ''.cast(), '' @
            len @ '', '' @ len @ ''))'']))))"

definition emit_string_lift ::
    "('z, 'a) rust_cx \<Rightarrow> string list \<Rightarrow> ('z, 'a) function_bindgen \<Rightarrow> ('z, 'a) emitted" where
  "emit_string_lift cx operands b =
     (let (vec, b) = on_gen (path_to_vec cx) b; (tmp, b) = next_tmp b; len = ''len'' @ tmp in
      and_then (index operands 1) (\<lambda>y.
        let b = write_pieces [''let '', len, '' = '', y, '';'' @ nl] b in
        and_then (index operands 0) (\<lambda>x.
          let b = write_pieces [''let bytes'', tmp, '' = '', vec, ''::from_raw_parts('', x, ''.cast(), '',
                len, '', '', len, '');'' @ nl] b in
          if op_raw_strings (rc_opts cx) then Inr (b, [''bytes'' @ tmp])
          else
            (let (f, b) = on_gen (path_to_string_lift cx) b in Inr (b, [f @ ''(bytes'' @ tmp @ '')''])))))"

text \<open>The loop over a list or map that is written into a fresh allocation.\<close>

definition forget_or_clean ::
    "string option \<Rightarrow> string \<Rightarrow> ('z, 'a) function_bindgen \<Rightarrow> ('z, 'a) function_bindgen" where
  "forget_or_clean realloc v b =
     (if realloc = None then add_cleanup v b
      else write_pieces [''if let Some(cleanup) = '', v, '' { cleanup.forget(); }'' @ nl] b)"

definition emit_list_lower ::
    "('z, 'a) rust_cx \<Rightarrow> ty \<Rightarrow> string option \<Rightarrow> string list \<Rightarrow> ('z, 'a) function_bindgen \<Rightarrow> ('z, 'a) emitted" where
  "emit_list_lower cx element realloc operands b =
     (let (alloc, b) = on_gen (path_to_std_alloc_module cx) b;
          rt = runtime_path (rc_opts cx); RE = rc_env cx in
      and_then (pop_block b) (\<lambda>(body, b).
        let (tmp, b) = next_tmp b;
            vec = ''vec'' @ tmp; res = ''result'' @ tmp; layout = ''layout'' @ tmp; len = ''len'' @ tmp;
            clean = ''_cleanup'' @ tmp in
        and_then (index operands 0) (\<lambda>x.
          let sz = sa_size (rc_sizes cx) element; al = sa_align (rc_sizes cx) element;
              b = write_texts
                [''let '' @ vec @ '' = '' @ x @ '';'' @ nl,
                 ''let '' @ len @ '' = '' @ vec @ ''.len();'' @ nl,
                 ''let '' @ layout @ '' = '' @ alloc @ ''::Layout::from_size_align('' @ vec @ ''.len() * '' @
                   re_size_format RE sz @ '', '' @ re_align_format RE al @ '').unwrap();'' @ nl,
                 ''let ('' @ res @ '', '' @ clean @ '') = '' @ rt @ ''::Cleanup::new('' @ layout @ '');''] b;
              b = forget_or_clean realloc clean b in
          Inr (write_texts
              [''for (i, e) in '' @ vec @ ''.into_iter().enumerate() {'' @ nl,
               ''let base = '' @ res @ ''.add(i * '' @ re_size_format RE sz @ '');'' @ nl,
               body, nl @ ''}'' @ nl] b, [res, len]))))"

definition emit_map_lower ::
    "('z, 'a) rust_cx \<Rightarrow> ty \<Rightarrow> ty \<Rightarrow> string option \<Rightarrow> string list \<Rightarrow> ('z, 'a) function_bindgen
      \<Rightarrow> ('z, 'a) emitted" where
  "emit_map_lower cx key value_ty realloc operands b =
     (let (alloc, b) = on_gen (path_to_std_alloc_module cx) b;
          rt = runtime_path (rc_opts cx); RE = rc_env cx; g = fb_gen b;
          b = b\<lparr>fb_gen := g\<lparr>ig_needs_wit_map := True, ig_needs_runtime_module := True,
                ig_gen := need WitMapTrait (ig_gen g)\<rparr>\<rparr> in
      and_then (pop_block b) (\<lambda>(body, b).
        let (tmp, b) = next_tmp b;
            m = ''map'' @ tmp; res = ''result'' @ tmp; layout = ''layout'' @ tmp; len = ''len'' @ tmp;
            clean = ''_cleanup'' @ tmp in
        and_then (index operands 0) (\<lambda>x.
          let (sz, al) = sa_record (rc_sizes cx) [key, value_ty];
              b = write_texts
                [''let '' @ m @ '' = '' @ x @ '';'' @ nl,
                 ''let '' @ len @ '' = '' @ m @ ''.wit_map_len();'' @ nl,
                 ''let '' @ layout @ '' = '' @ alloc @ ''::Layout::from_size_align('' @ len @ '' * '' @
                   re_size_format RE sz @ '', '' @ re_align_format RE al @ '').unwrap();'' @ nl,
                 ''let ('' @ res @ '', '' @ clean @ '') = '' @ rt @ ''::Cleanup::new('' @ layout @ '');''] b;
              b = forget_or_clean realloc clean b in
          Inr (write_texts
              [''for (i, (map_key, map_value)) in '' @ m @ ''.into_iter().enumerate() {'' @ nl,
               ''let base = '' @ res @ ''.add(i * '' @ re_size_format RE sz @ '');'' @ nl,
               body, nl @ ''}'' @ nl] b, [res, len]))))"

definition emit_fixed_list_to_memory ::
    "('z, 'a) rust_cx \<Rightarrow> ty \<Rightarrow> string list \<Rightarrow> ('z, 'a) function_bindgen \<Rightarrow> ('z, 'a) emitted" where
  "emit_fixed_list_to_memory cx element operands b =
     and_then (pop_block b) (\<lambda>(body, b).
       and_then (index operands 0) (\<lambda>vec.
         and_then (index operands 1) (\<lambda>target.
           Inr (write_texts
               [''for (i, e) in '' @ vec @ ''.into_iter().enumerate() {'' @ nl,
                ''let base = '' @ target @ ''.add(i * '' @
                  re_size_format (rc_env cx) (sa_size (rc_sizes cx) element) @ '');'' @ nl,
                body, nl @ ''}'' @ nl] b, []))))"

text \<open>The loop that reads a list or map back and frees its allocation; \<open>start\<close> and \<open>step\<close> differ.\<close>

definition read_loop ::
    "string \<Rightarrow> string \<Rightarrow> string \<Rightarrow> string list list \<Rightarrow> string list list \<Rightarrow> ('z, 'a) function_bindgen
      \<Rightarrow> ('z, 'a) function_bindgen" where
  "read_loop base len sz start_lines body_lines b =
     foldl (\<lambda>b ps. write_pieces ps b) b
       (start_lines @
        [[''for i in 0..'', len, '' {'' @ nl], [''let base = '', base, ''.add(i * '', sz, '');'' @ nl]] @
        body_lines @ [[''}'' @ nl]])"

definition dealloc_call ::
    "('z, 'a) rust_cx \<Rightarrow> string \<Rightarrow> string \<Rightarrow> string \<Rightarrow> string \<Rightarrow> ('z, 'a) function_bindgen
      \<Rightarrow> ('z, 'a) function_bindgen" where
  "dealloc_call cx base len sz al b =
     (let (dealloc, b) = on_gen (path_to_cabi_dealloc cx) b in
      write_text (dealloc @ ''('' @ base @ '', '' @ len @ '' * '' @ sz @ '', '' @ al @ '');'' @ nl) b)"

definition emit_list_lift ::
    "('z, 'a) rust_cx \<Rightarrow> ty \<Rightarrow> string list \<Rightarrow> ('z, 'a) function_bindgen \<Rightarrow> ('z, 'a) emitted" where
  "emit_list_lift cx element operands b =
     and_then (pop_block b) (\<lambda>(body, b).
       let (tmp, b) = next_tmp b; RE = rc_env cx;
           sz = re_size_format RE (sa_size (rc_sizes cx) element);
           al = re_align_format RE (sa_align (rc_sizes cx) element);
           len = ''len'' @ tmp; base = ''base'' @ tmp; res = ''result'' @ tmp in
       and_then (index operands 0) (\<lambda>x.
         and_then (index operands 1) (\<lambda>y.
           let b = write_texts [''let '' @ base @ '' = '' @ x @ '';'' @ nl, ''let '' @ len @ '' = '' @ y @ '';'' @ nl] b;
               (vec, b) = on_gen (path_to_vec cx) b;
               b = write_text (''let mut '' @ res @ '' = '' @ vec @ ''::with_capacity('' @ len @ '');'' @ nl) b;
               b = read_loop base len sz []
                     [[''let e'', tmp, '' = '', body, '';'' @ nl], [res, ''.push(e'', tmp, '');'' @ nl]] b in
           Inr (dealloc_call cx base len sz al b, [res]))))"

definition emit_map_lift ::
    "('z, 'a) rust_cx \<Rightarrow> ty \<Rightarrow> ty \<Rightarrow> string list \<Rightarrow> ('z, 'a) function_bindgen \<Rightarrow> ('z, 'a) emitted" where
  "emit_map_lift cx key value_ty operands b =
     and_then (pop_block b) (\<lambda>(body, b).
       let (tmp, b) = next_tmp b; RE = rc_env cx;
           entry = sa_record (rc_sizes cx) [key, value_ty];
           sz = re_size_format RE (fst entry); al = re_align_format RE (snd entry);
           len = ''len'' @ tmp; base = ''base'' @ tmp; res = ''result'' @ tmp;
           wit_map = wit_map_path (rc_opts cx) in
       and_then (index operands 0) (\<lambda>x.
         and_then (index operands 1) (\<lambda>y.
           let b = write_texts [''let '' @ base @ '' = '' @ x @ '';'' @ nl, ''let '' @ len @ '' = '' @ y @ '';'' @ nl] b;
               b = read_loop base len sz
                     [[''let mut '', res, '' = '', wit_map, ''::wit_map_new('', len, '');'' @ nl]]
                     [[''let (map_key, map_value) = '', body, '';'' @ nl],
                      [wit_map, ''::wit_map_push(&mut '', res, '', map_key, map_value);'' @ nl]] b in
           Inr (dealloc_call cx base len sz al b, [res]))))"

section \<open>Calls\<close>

definition emit_call_wasm ::
    "string \<Rightarrow> wasm_signature \<Rightarrow> string list \<Rightarrow> ('z, 'a) function_bindgen \<Rightarrow> ('z, 'a) emitted" where
  "emit_call_wasm name sg operands b =
     and_then (fb_declare_import name (sig_params sg) (sig_results sg) b) (\<lambda>(func, b).
       Inr (write_texts
           ((if sig_results sg \<noteq> [] then [''let ret = ''] else []) @
            [func, ''('', join '', '' operands, '');'' @ nl]) b,
         if sig_results sg \<noteq> [] then [''ret''] else []))"

text \<open>What is called: \<open>T_::name\<close>, or the constructor and what wraps its result.\<close>

definition is_method :: "func \<Rightarrow> bool" where
  "is_method f = (case fn_kind f of Method _ \<Rightarrow> True | AsyncMethod _ \<Rightarrow> True | _ \<Rightarrow> False)"

definition callee ::
    "('z, 'a) rust_cx \<Rightarrow> resolve \<Rightarrow> func \<Rightarrow> (string \<times> (string \<times> constructor_return_type) option) res" where
  "callee cx r f =
     (case fn_kind f of
        Constructor i \<Rightarrow>
          and_then (classify_constructor_return_type r (rc_fuel cx) i (fn_result f)) (\<lambda>return_type.
            and_then (type_at r i) (\<lambda>td.
              and_then (unwrap (td_name td)) (\<lambda>name.
                let t = upper_camel cx name in
                Inr (case return_type of CtorSelf \<Rightarrow> t @ ''::new(T_::new'' | CtorResult _ \<Rightarrow> ''T_::new'',
                  Some (t, return_type)))))
      | _ \<Rightarrow> Inr (''T_::'' @ to_rust_ident (rc_env cx) (re_item_name (rc_env cx) f), None))"

definition emit_call_interface ::
    "('z, 'a) rust_cx \<Rightarrow> resolve \<Rightarrow> func \<Rightarrow> bool \<Rightarrow> string list \<Rightarrow> ('z, 'a) function_bindgen
      \<Rightarrow> ('z, 'a) emitted" where
  "emit_call_interface cx r f async operands b =
     (let prev_src = src_text (fb_src b);
          b = b\<lparr>fb_src := (fb_src b)\<lparr>src_text := []\<rparr>\<rparr>;
          (b, results) = let_results (of_bool (fn_result f \<noteq> None)) b;
          b = write_texts
            ((if fn_result f \<noteq> None \<and> async then [''&''] else []) @ [''{'' @ nl] @ fb_handle_decls b @ [prev_src])
            (b\<lparr>fb_handle_decls := []\<rparr>) in
      and_then (callee cx r f) (\<lambda>(called, constructor_type).
        Inr (write_texts
            ([called, ''(''] @
             concat (map (\<lambda>(i, operand).
               (if 0 < i then ['', ''] else []) @ [operand] @
               (if i = 0 \<and> is_method f then [''.get()''] else [])) (enumerate 0 operands)) @
             ['')''] @
             (if async then [''.await''] else []) @
             (case constructor_type of
                Some (_, CtorSelf) \<Rightarrow> ['')'']
              | Some (t, CtorResult _) \<Rightarrow> [''.map('' @ t @ ''::new)'']
              | None \<Rightarrow> []) @
             [nl @ ''};'' @ nl]) b, results)))"

definition emit_task_return ::
    "string \<Rightarrow> wasm_type list \<Rightarrow> string list \<Rightarrow> ('z, 'a) function_bindgen \<Rightarrow> ('z, 'a) emitted" where
  "emit_task_return name params operands b =
     and_then (fb_declare_import name params [] b) (\<lambda>(func, b).
       Inr (write_pieces [func, ''('', join '', '' operands, '');'' @ nl]
         (write_pieces [''_task_cancel.forget();'' @ nl] b), []))"

fun flush_from :: "nat \<Rightarrow> nat \<Rightarrow> string list \<Rightarrow> ('z, 'a) function_bindgen \<Rightarrow> ('z, 'a) emitted" where
  "flush_from i 0 operands b = Inr (b, [])"
| "flush_from i (Suc n) operands b =
     (let (tmp, b) = next_tmp b; res = ''result'' @ tmp in
      and_then (index operands i) (\<lambda>x.
        and_then (flush_from (Suc i) n operands (write_pieces [''let '', res, '' = '', x, '';'' @ nl] b))
          (\<lambda>(b, results). Inr (b, res # results))))"

definition emit_flush :: "nat \<Rightarrow> string list \<Rightarrow> ('z, 'a) function_bindgen \<Rightarrow> ('z, 'a) emitted" where
  "emit_flush amt operands b = flush_from 0 amt operands b"

definition emit_return :: "nat \<Rightarrow> string list \<Rightarrow> ('z, 'a) function_bindgen \<Rightarrow> ('z, 'a) emitted" where
  "emit_return amt operands b =
     (if fb_return_self b \<and> amt \<noteq> 0 then Inl Assert_Failed
      else if amt = 0 then Inr (if fb_return_self b then write_text (''self'' @ nl) b else b, [])
      else if amt = 1 then
        and_then (index operands 0) (\<lambda>x. Inr (write_texts [x, nl] b, []))
      else Inr (write_texts [''('', join '', '' operands, '')'' @ nl] b, []))"

section \<open>Memory\<close>

definition emit_load ::
    "('z, 'a) rust_cx \<Rightarrow> string \<Rightarrow> string \<Rightarrow> string \<Rightarrow> 'z \<Rightarrow> string list \<Rightarrow> ('z, 'a) function_bindgen
      \<Rightarrow> ('z, 'a) emitted" where
  "emit_load cx before cast_ty after offset operands b =
     (let (tmp, b) = next_tmp b in
      and_then (index operands 0) (\<lambda>x.
        Inr (write_pieces
            [''let l'', tmp, '' = '' @ before @ ''*'', x, ''.add('', re_size_format_term (rc_env cx) offset,
             '').cast::<'' @ cast_ty @ ''>()'' @ after @ '';'' @ nl] b, [''l'' @ tmp])))"

definition emit_loads ::
    "('z, 'a) rust_cx \<Rightarrow> ('z, 'a) instruction \<Rightarrow> string list \<Rightarrow> ('z, 'a) function_bindgen
      \<Rightarrow> ('z, 'a) emitted" where
  "emit_loads cx inst operands b =
     (case inst of
        I32Load offset \<Rightarrow> emit_load cx [] ''i32'' [] offset operands b
      | I32Load8U offset \<Rightarrow> emit_load cx ''i32::from('' ''u8'' '')'' offset operands b
      | I32Load8S offset \<Rightarrow> emit_load cx ''i32::from('' ''i8'' '')'' offset operands b
      | I32Load16U offset \<Rightarrow> emit_load cx ''i32::from('' ''u16'' '')'' offset operands b
      | I32Load16S offset \<Rightarrow> emit_load cx ''i32::from('' ''i16'' '')'' offset operands b
      | I64Load offset \<Rightarrow> emit_load cx [] ''i64'' [] offset operands b
      | F32Load offset \<Rightarrow> emit_load cx [] ''f32'' [] offset operands b
      | F64Load offset \<Rightarrow> emit_load cx [] ''f64'' [] offset operands b
      | PointerLoad offset \<Rightarrow> emit_load cx [] ''*mut u8'' [] offset operands b
      | LengthLoad offset \<Rightarrow> emit_load cx [] ''usize'' [] offset operands b
      | _ \<Rightarrow> Inl Unreachable_Code)"

definition emit_store ::
    "('z, 'a) rust_cx \<Rightarrow> string \<Rightarrow> bool \<Rightarrow> 'z \<Rightarrow> string list \<Rightarrow> ('z, 'a) function_bindgen
      \<Rightarrow> ('z, 'a) emitted" where
  "emit_store cx cast_ty narrow offset operands b =
     and_then (index operands 1) (\<lambda>ptr.
       and_then (index operands 0) (\<lambda>x.
         Inr (write_text (''*'' @ ptr @ ''.add('' @ re_size_format_term (rc_env cx) offset @ '').cast::<'' @
           cast_ty @ ''>() = '' @ (if narrow then ''('' @ x @ '') as '' @ cast_ty else x) @ '';'' @ nl) b, [])))"

definition emit_stores ::
    "('z, 'a) rust_cx \<Rightarrow> ('z, 'a) instruction \<Rightarrow> string list \<Rightarrow> ('z, 'a) function_bindgen
      \<Rightarrow> ('z, 'a) emitted" where
  "emit_stores cx inst operands b =
     (case inst of
        I32Store offset \<Rightarrow> emit_store cx ''i32'' False offset operands b
      | I32Store8 offset \<Rightarrow> emit_store cx ''u8'' True offset operands b
      | I32Store16 offset \<Rightarrow> emit_store cx ''u16'' True offset operands b
      | I64Store offset \<Rightarrow> emit_store cx ''i64'' False offset operands b
      | F32Store offset \<Rightarrow> emit_store cx ''f32'' False offset operands b
      | F64Store offset \<Rightarrow> emit_store cx ''f64'' False offset operands b
      | PointerStore offset \<Rightarrow> emit_store cx ''*mut u8'' False offset operands b
      | LengthStore offset \<Rightarrow> emit_store cx ''usize'' False offset operands b
      | _ \<Rightarrow> Inl Unreachable_Code)"

section \<open>Deallocation\<close>

definition emit_guest_deallocate ::
    "('z, 'a) rust_cx \<Rightarrow> 'z \<Rightarrow> 'a \<Rightarrow> string list \<Rightarrow> ('z, 'a) function_bindgen \<Rightarrow> ('z, 'a) emitted" where
  "emit_guest_deallocate cx sz al operands b =
     (let (dealloc, b) = on_gen (path_to_cabi_dealloc cx) b in
      and_then (index operands 0) (\<lambda>x.
        Inr (write_text (dealloc @ ''('' @ x @ '', '' @ re_size_format_term (rc_env cx) sz @ '', '' @
          re_align_format (rc_env cx) al @ '');'' @ nl) b, [])))"

definition emit_guest_deallocate_string ::
    "('z, 'a) rust_cx \<Rightarrow> string list \<Rightarrow> ('z, 'a) function_bindgen \<Rightarrow> ('z, 'a) emitted" where
  "emit_guest_deallocate_string cx operands b =
     (let (dealloc, b) = on_gen (path_to_cabi_dealloc cx) b in
      and_then (index operands 0) (\<lambda>x.
        and_then (index operands 1) (\<lambda>y.
          Inr (write_text (dealloc @ ''('' @ x @ '', '' @ y @ '', 1);'' @ nl) b, []))))"

definition emit_guest_deallocate_variant ::
    "nat \<Rightarrow> string list \<Rightarrow> ('z, 'a) function_bindgen \<Rightarrow> ('z, 'a) emitted" where
  "emit_guest_deallocate_variant n operands b =
     (if n = 0 then Inl Sub_Overflow
      else
        and_then (drain_blocks n b) (\<lambda>(blocks, b).
          and_then (index operands 0) (\<lambda>x.
            Inr (write_texts
                ([''match '' @ x @ '' {'' @ nl] @
                 map (\<lambda>(i, block).
                   (if i = n - 1 then ''_'' else decimal i) @ '' => '' @ block @ '','' @ nl) (enumerate 0 blocks) @
                 [''}'' @ nl]) b, []))))"

definition dealloc_elements ::
    "('z, 'a) rust_cx \<Rightarrow> string \<Rightarrow> string \<Rightarrow> string \<Rightarrow> string list \<Rightarrow> ('z, 'a) function_bindgen
      \<Rightarrow> ('z, 'a) emitted" where
  "dealloc_elements cx body sz al operands b =
     (let (tmp, b) = next_tmp b; len = ''len'' @ tmp; base = ''base'' @ tmp in
      and_then (index operands 0) (\<lambda>x.
        and_then (index operands 1) (\<lambda>y.
          let b = write_texts
            ([''let '' @ base @ '' = '' @ x @ '';'' @ nl, ''let '' @ len @ '' = '' @ y @ '';'' @ nl] @
             (if body \<noteq> ''()'' then
                [''for i in 0..'', len, '' {'' @ nl, ''let base = '', base, ''.add(i * '', sz, '');'' @ nl,
                 body, nl @ ''}'' @ nl]
              else [])) b in
          Inr (dealloc_call cx base len sz al b, []))))"

definition emit_guest_deallocate_list ::
    "('z, 'a) rust_cx \<Rightarrow> ty \<Rightarrow> string list \<Rightarrow> ('z, 'a) function_bindgen \<Rightarrow> ('z, 'a) emitted" where
  "emit_guest_deallocate_list cx element operands b =
     and_then (pop_block b) (\<lambda>(body, b).
       dealloc_elements cx body (re_size_format (rc_env cx) (sa_size (rc_sizes cx) element))
         (re_align_format (rc_env cx) (sa_align (rc_sizes cx) element)) operands b)"

definition emit_guest_deallocate_map ::
    "('z, 'a) rust_cx \<Rightarrow> ty \<Rightarrow> ty \<Rightarrow> string list \<Rightarrow> ('z, 'a) function_bindgen \<Rightarrow> ('z, 'a) emitted" where
  "emit_guest_deallocate_map cx key value_ty operands b =
     and_then (pop_block b) (\<lambda>(body, b).
       let (sz, al) = sa_record (rc_sizes cx) [key, value_ty] in
       dealloc_elements cx body (re_size_format (rc_env cx) sz) (re_align_format (rc_env cx) al) operands b)"

section \<open>Fixed-length lists\<close>

definition emit_fixed_list_lift ::
    "nat \<Rightarrow> string list \<Rightarrow> ('z, 'a) function_bindgen \<Rightarrow> ('z, 'a) emitted" where
  "emit_fixed_list_lift n operands b =
     (let (tmp, b) = next_tmp b; res = ''result'' @ tmp in
      if length operands < n then Inl Index_Out_Of_Range
      else
        Inr (write_texts
          ([''let '' @ res @ '' = [''] @ concat (map (\<lambda>x. [x, '', '']) (take n operands)) @ [''];'' @ nl]) b, [res]))"

definition emit_fixed_list_lower ::
    "nat \<Rightarrow> string list \<Rightarrow> ('z, 'a) function_bindgen \<Rightarrow> ('z, 'a) emitted" where
  "emit_fixed_list_lower n operands b =
     and_then (map_res (\<lambda>i. and_then (index operands 0) (\<lambda>x. Inr (x @ ''['' @ decimal i @ '']''))) [0..<n])
       (\<lambda>results. Inr (b, results))"

definition emit_fixed_list_from_memory ::
    "('z, 'a) rust_cx \<Rightarrow> ty \<Rightarrow> nat \<Rightarrow> string list \<Rightarrow> ('z, 'a) function_bindgen \<Rightarrow> ('z, 'a) emitted" where
  "emit_fixed_list_from_memory cx element n operands b =
     and_then (pop_block b) (\<lambda>(body, b).
       and_then (index operands 0) (\<lambda>base.
         let (tmp, b) = next_tmp b; idx = ''idx'' @ tmp;
             elemsize = re_size_format (rc_env cx) (sa_size (rc_sizes cx) element) in
         Inr (write_text (text_lines
             ['' let array'' @ tmp @ '': [_; '' @ decimal n @ ''] = core::array::from_fn(|'' @ idx @ ''| {'',
              spaces 28 @ ''let base = '' @ base @ ''.add('' @ idx @ '' * '' @ elemsize @ '');'',
              spaces 28 @ body,
              spaces 24 @ ''});'']) b, [''array'' @ tmp])))"

section \<open>The dispatch\<close>

definition rust_emit ::
    "('z, 'a) wit_env \<Rightarrow> ('z, 'a) rust_cx \<Rightarrow> ('z, 'a) function_bindgen \<Rightarrow> resolve \<Rightarrow> ('z, 'a) instruction
      \<Rightarrow> string list \<Rightarrow> ('z, 'a) emitted" where
  "rust_emit E cx b r inst operands =
     (case inst of
        FlagsLower flags _ _ \<Rightarrow> emit_flags_lower (repr_count E (flags_repr_of E flags)) operands b
      | FlagsLift flags _ i \<Rightarrow> emit_flags_lift cx (flags_repr_of E flags) i operands b
      | HandleLower h _ _ \<Rightarrow> emit_handle_lower h operands b
      | HandleLift h _ _ \<Rightarrow> emit_handle_lift cx r h operands b
      | FutureLower _ _ \<Rightarrow> emit_handle_lower (Own 0) operands b
      | FutureLift payload _ \<Rightarrow> emit_async_lift cx ''FutureReader'' ''wit_future::FuturePayload'' payload operands b
      | StreamLower _ _ \<Rightarrow> emit_handle_lower (Own 0) operands b
      | StreamLift payload _ \<Rightarrow> emit_async_lift cx ''StreamReader'' ''wit_stream::StreamPayload'' payload operands b
      | ErrorContextLower \<Rightarrow> emit_handle_lower (Borrow 0) operands b
      | ErrorContextLift \<Rightarrow> emit_error_context_lift cx operands b
      | RecordLower fs _ i \<Rightarrow> and_then (index operands 0) (\<lambda>x. record_lower cx i fs x b)
      | RecordLift fs _ i \<Rightarrow> record_lift cx i fs operands b
      | TupleLower ts _ \<Rightarrow> and_then (index operands 0) (\<lambda>x. tuple_lower ts x b)
      | TupleLift _ _ \<Rightarrow> tuple_lift operands b
      | VariantPayloadName \<Rightarrow> Inr (b, [''e''])
      | VariantLower cases _ i tys \<Rightarrow> emit_variant_lower cx cases i (length tys) operands b
      | VariantLift cases _ i \<Rightarrow> emit_variant_lift cx cases i operands b
      | OptionLower _ _ tys \<Rightarrow> emit_option_lower (length tys) operands b
      | OptionLift _ _ \<Rightarrow> emit_option_lift cx operands b
      | ResultLower ok err _ tys \<Rightarrow> emit_result_lower ok err (length tys) operands b
      | ResultLift _ _ _ \<Rightarrow> emit_result_lift cx operands b
      | EnumLower _ _ _ \<Rightarrow> and_then (index operands 0) (\<lambda>x. Inr (b, [x @ ''.clone() as i32'']))
      | EnumLift cases _ i \<Rightarrow> emit_enum_lift cx (enum_tag E cases) i operands b
      | ListCanonLower _ realloc \<Rightarrow> emit_list_canon_lower cx realloc operands b
      | ListCanonLift _ _ \<Rightarrow> emit_list_canon_lift cx operands b
      | StringLower realloc \<Rightarrow> emit_string_lower realloc operands b
      | StringLift \<Rightarrow> emit_string_lift cx operands b
      | ListLower element realloc \<Rightarrow> emit_list_lower cx element realloc operands b
      | MapLower k v realloc \<Rightarrow> emit_map_lower cx k v realloc operands b
      | FixedLengthListLowerToMemory element _ _ \<Rightarrow> emit_fixed_list_to_memory cx element operands b
      | ListLift element _ \<Rightarrow> emit_list_lift cx element operands b
      | MapLift k v _ \<Rightarrow> emit_map_lift cx k v operands b
      | IterElem _ \<Rightarrow> Inr (b, [''e''])
      | IterMapKey _ \<Rightarrow> Inr (b, [''map_key''])
      | IterMapValue _ \<Rightarrow> Inr (b, [''map_value''])
      | IterBasePointer \<Rightarrow> Inr (b, [''base''])
      | CallWasm name sg \<Rightarrow> emit_call_wasm name sg operands b
      | CallInterface f async \<Rightarrow> emit_call_interface cx r f async operands b
      | AsyncTaskReturn name params \<Rightarrow> emit_task_return name params operands b
      | Flush amt \<Rightarrow> emit_flush amt operands b
      | Return amt _ \<Rightarrow> emit_return amt operands b
      | I32Load _ \<Rightarrow> emit_loads cx inst operands b
      | I32Load8U _ \<Rightarrow> emit_loads cx inst operands b
      | I32Load8S _ \<Rightarrow> emit_loads cx inst operands b
      | I32Load16U _ \<Rightarrow> emit_loads cx inst operands b
      | I32Load16S _ \<Rightarrow> emit_loads cx inst operands b
      | I64Load _ \<Rightarrow> emit_loads cx inst operands b
      | F32Load _ \<Rightarrow> emit_loads cx inst operands b
      | F64Load _ \<Rightarrow> emit_loads cx inst operands b
      | PointerLoad _ \<Rightarrow> emit_loads cx inst operands b
      | LengthLoad _ \<Rightarrow> emit_loads cx inst operands b
      | I32Store _ \<Rightarrow> emit_stores cx inst operands b
      | I32Store8 _ \<Rightarrow> emit_stores cx inst operands b
      | I32Store16 _ \<Rightarrow> emit_stores cx inst operands b
      | I64Store _ \<Rightarrow> emit_stores cx inst operands b
      | F32Store _ \<Rightarrow> emit_stores cx inst operands b
      | F64Store _ \<Rightarrow> emit_stores cx inst operands b
      | PointerStore _ \<Rightarrow> emit_stores cx inst operands b
      | LengthStore _ \<Rightarrow> emit_stores cx inst operands b
      | Malloc _ _ _ \<Rightarrow> Inl Todo_Code
      | GuestDeallocate sz al \<Rightarrow> emit_guest_deallocate cx sz al operands b
      | GuestDeallocateString \<Rightarrow> emit_guest_deallocate_string cx operands b
      | GuestDeallocateVariant n \<Rightarrow> emit_guest_deallocate_variant n operands b
      | GuestDeallocateList element \<Rightarrow> emit_guest_deallocate_list cx element operands b
      | GuestDeallocateMap k v \<Rightarrow> emit_guest_deallocate_map cx k v operands b
      | DropHandle _ \<Rightarrow>
          and_then (index operands 0) (\<lambda>x. Inr (write_pieces [''let _ = '', x, '';'' @ nl] b, []))
      | FixedLengthListLift _ n _ \<Rightarrow> emit_fixed_list_lift (unat n) operands b
      | FixedLengthListLower _ n _ \<Rightarrow> emit_fixed_list_lower (unat n) operands b
      | FixedLengthListLiftFromMemory element n _ \<Rightarrow> emit_fixed_list_from_memory cx element (unat n) operands b
      | _ \<Rightarrow> emit_scalar cx inst operands b)"

end
