(* ===== verification/Rust_Printing.thy ===== *)
theory Rust_Printing
  imports Rust_Types Type_Usage
begin

text \<open>
  Printing a type never panics: the modes that the generator computes fit the types they are computed
  for, so the assertions about lifetimes hold, and every name that is needed is there.
\<close>

section \<open>Steps that never panic\<close>

definition safe :: "'s step \<Rightarrow> bool" where
  "safe f \<longleftrightarrow> (\<forall>s. \<exists>s'. f s = Inr s')"

named_theorems safe_intros

lemma safeI: "(\<And>s. \<exists>s'. f s = Inr s') \<Longrightarrow> safe f"
  by (simp add: safe_def)

lemma safe_Inr [safe_intros]: "safe Inr"
  by (simp add: safe_def)

lemma safe_Nil [safe_intros]: "safe (seq [])"
  by (simp add: safe_def)

lemma safe_Cons [safe_intros]:
  assumes "safe f" "safe (seq fs)"
  shows "safe (seq (f # fs))"
proof (rule safeI)
  fix s
  obtain t where t: "f s = Inr t" using assms(1) by (auto simp: safe_def)
  with assms(2) show "\<exists>s'. seq (f # fs) s = Inr s'" by (auto simp: safe_def)
qed

lemma safe_for_each [safe_intros]: "(\<And>x. x \<in> set xs \<Longrightarrow> safe (f x)) \<Longrightarrow> safe (for_each xs f)"
  unfolding for_each_def by (induction xs) (auto intro!: safe_Nil safe_Cons simp del: seq.simps)

lemma safe_with_res: "m = Inr x \<Longrightarrow> safe (f x) \<Longrightarrow> safe (with_res m f)"
  by (simp add: safe_def with_res_def)

lemma safe_if [safe_intros]: "(c \<Longrightarrow> safe f) \<Longrightarrow> (\<not> c \<Longrightarrow> safe h) \<Longrightarrow> safe (if c then f else h)"
  by simp

lemma safe_print_text [safe_intros]: "safe (print_text s)"
  by (simp add: safe_def print_text_def)

lemma safe_print_reference [safe_intros]: "safe (print_reference lt)"
  unfolding print_reference_def by (intro safe_intros)

lemma safe_print_borrowed_str [safe_intros]: "safe (print_borrowed_str cx lt)"
  unfolding print_borrowed_str_def by (intro safe_intros)

lemma safe_print_generics [safe_intros]: "safe (print_generics lt)"
  unfolding print_generics_def by (cases lt) (auto intro!: safe_intros)

lemma safe_push_names [safe_intros]: "safe (push_vec_name cx)" "safe (push_string_name cx)"
  by (simp_all add: safe_def push_vec_name_def push_string_name_def path_to_vec_def path_to_string_def
      path_from_runtime_module_def print_text_def)

section \<open>What printing relies on\<close>

abbreviation has_name :: "resolve \<Rightarrow> tid \<Rightarrow> bool" where
  "has_name r i \<equiv> td_name (r_types r ! i) \<noteq> None"

text \<open>A type that contains a borrowed handle must be printed with a lifetime.\<close>

abbreviation borrows :: "resolve \<Rightarrow> ty \<Rightarrow> bool" where
  "borrows r t \<equiv> contains r (is_borrow_type r) t"

definition needs_name :: "kind \<Rightarrow> bool" where
  "needs_name k =
     (case k of
        KRecord _ \<Rightarrow> True | KResource \<Rightarrow> True | KFlags _ \<Rightarrow> True | KVariant _ \<Rightarrow> True | KEnum _ \<Rightarrow> True
      | KType _ \<Rightarrow> True | _ \<Rightarrow> False)"

text \<open>
  The types of a resolved package: declarations have names, an alias stands for a named type or a
  type that is written out, handles are to resources; and no borrowed handle is inside a future, a
  stream or a fixed-length list. The last is a restriction of the generator, not of WIT.
\<close>

definition printable :: "resolve \<Rightarrow> bool" where
  "printable r \<longleftrightarrow>
     (\<forall>i < length (r_types r).
        (needs_name (kind_at r i) \<longrightarrow> has_name r i) \<and>
        (case kind_at r i of
           KType (TId j) \<Rightarrow> has_name r j
         | KHandle h \<Rightarrow> has_name r (handle_tid h) \<and> \<not> borrows r (TId (handle_tid h))
         | KFixedLengthList t _ \<Rightarrow> \<not> borrows r t
         | KFuture (Some t) \<Rightarrow> \<not> borrows r t
         | KStream (Some t) \<Rightarrow> \<not> borrows r t
         | _ \<Rightarrow> True))"

definition owner_ok :: "('z, 'a) rust_cx \<Rightarrow> type_owner \<Rightarrow> bool" where
  "owner_ok cx owner =
     (case owner of
        OwnerWorld w \<Rightarrow> w < length (r_worlds (rc_resolve cx))
      | OwnerInterface j \<Rightarrow> rc_interface_names cx j \<noteq> None
      | OwnerNone \<Rightarrow> True)"

definition rust_ok :: "('z, 'a) rust_cx \<Rightarrow> (tid \<Rightarrow> nat) \<Rightarrow> bool" where
  "rust_ok cx rk \<longleftrightarrow>
     acyclic_types (rc_resolve cx) rk \<and> printable (rc_resolve cx) \<and> 1 < rc_fuel cx \<and>
     (\<forall>i < length (r_types (rc_resolve cx)).
        owner_ok cx (td_owner (r_types (rc_resolve cx) ! i)) \<and> Suc (rk i) < rc_fuel cx \<and>
        (\<exists>x. info cx i = Inr x \<and> structural x = info_spec (rc_resolve cx) (TId i)))"

lemma rust_okD:
  assumes "rust_ok cx rk"
  shows "acyclic_types (rc_resolve cx) rk" "printable (rc_resolve cx)" "1 < rc_fuel cx"
    "valid_id (rc_resolve cx) i \<Longrightarrow> owner_ok cx (td_owner (r_types (rc_resolve cx) ! i))"
    "valid_id (rc_resolve cx) i \<Longrightarrow> Suc (rk i) < rc_fuel cx"
    "valid_id (rc_resolve cx) i \<Longrightarrow>
      \<exists>x. info cx i = Inr x \<and> structural x = info_spec (rc_resolve cx) (TId i)"
  using assms by (simp_all add: rust_ok_def)

lemma printableD:
  assumes "printable r" "valid_id r i"
  shows "needs_name (kind_at r i) \<Longrightarrow> has_name r i"
    "kind_at r i = KType (TId j) \<Longrightarrow> has_name r j"
    "kind_at r i = KHandle h \<Longrightarrow> has_name r (handle_tid h) \<and> \<not> borrows r (TId (handle_tid h))"
    "kind_at r i = KFixedLengthList t n \<Longrightarrow> \<not> borrows r t"
    "kind_at r i = KFuture (Some t) \<Longrightarrow> \<not> borrows r t"
    "kind_at r i = KStream (Some t) \<Longrightarrow> \<not> borrows r t"
  using assms by (auto simp: printable_def)

section \<open>Aliases\<close>

lemma alias_rank:
  assumes "acyclic_types r rk" "valid_id r i" "alias_step r i j"
  shows "valid_id r j \<and> rk j < rk i"
  using acyclicD(2) [OF assms(1,2), of "TId j"] assms(3)
  by (simp add: alias_step_def eq_types_def valid_ty_def ty_rank_def)

lemma alias_part: "alias_step r i j \<Longrightarrow> TId j \<in> set (parts (kind_at r i))"
  by (simp add: alias_step_def parts_def eq_types_def)

lemma alias_chain:
  assumes "(alias_step r)\<^sup>*\<^sup>* i j" "acyclic_types r rk" "printable r" "valid_id r i"
  shows "rk j \<le> rk i" "borrows r (TId j) \<Longrightarrow> borrows r (TId i)" "has_name r i \<Longrightarrow> has_name r j" "valid_id r j"
proof -
  have "rk j \<le> rk i \<and> (borrows r (TId j) \<longrightarrow> borrows r (TId i)) \<and> (has_name r i \<longrightarrow> has_name r j) \<and> valid_id r j"
    using assms(1)
  proof (induction rule: rtranclp_induct)
    case base
    then show ?case using assms(4) by simp
  next
    case (step j k)
    have jk: "valid_id r k \<and> rk k < rk j" using alias_rank [OF assms(2) _ step.hyps(2)] step.IH by blast
    have "borrows r (TId k) \<longrightarrow> borrows r (TId j)" using inside [OF alias_part [OF step.hyps(2)]] by blast
    moreover have "has_name r k"
      using printableD(2) [OF assms(3), of j k] step.IH step.hyps(2) by (simp add: alias_step_def)
    ultimately show ?case using step.IH jk by auto
  qed
  then show "rk j \<le> rk i" "borrows r (TId j) \<Longrightarrow> borrows r (TId i)" "has_name r i \<Longrightarrow> has_name r j" "valid_id r j"
    by auto
qed

lemma rust_dealias:
  assumes "rust_ok cx rk" "valid_id (rc_resolve cx) i"
  obtains j where "dealias (rc_resolve cx) (rc_fuel cx) i = Inr j" "(alias_step (rc_resolve cx))\<^sup>*\<^sup>* i j"
    "valid_id (rc_resolve cx) j"
proof -
  note A = rust_okD(1) [OF assms(1)]
  have "rk i < rc_fuel cx" using rust_okD(5) [OF assms] by simp
  from dealias_ends [OF assms(2) alias_rank [OF A] this] that show ?thesis by blast
qed

section \<open>Names\<close>

lemma path_to_interface_ok: "rc_interface_names cx j \<noteq> None \<Longrightarrow> \<exists>p. path_to_interface cx j = Inr p"
  by (auto simp: path_to_interface_def split: rust_identifier.split)

lemma type_path_with_name_ok:
  assumes "rust_ok cx rk" "valid_id (rc_resolve cx) i"
  shows "\<exists>p. type_path_with_name cx i name = Inr p"
proof (cases "td_owner (r_types (rc_resolve cx) ! i)")
  case (OwnerInterface j)
  then have "rc_interface_names cx j \<noteq> None" using rust_okD(4) [OF assms] by (simp add: owner_ok_def)
  from path_to_interface_ok [OF this] obtain p where "path_to_interface cx j = Inr p" by blast
  then show ?thesis using OwnerInterface assms(2) by (simp add: type_path_with_name_def)
qed (use assms(2) in \<open>simp_all add: type_path_with_name_def\<close>)

lemma suffixed_name_ok:
  assumes "rust_ok cx rk" "valid_id (rc_resolve cx) i" "has_name (rc_resolve cx) i"
  shows "\<exists>p. suffixed_name suffix cx i = Inr p"
  using rust_okD(6) [OF assms(1,2)] assms(2,3) by (auto simp: suffixed_name_def)

lemma full_name_ok:
  assumes "rust_ok cx rk" "valid_id (rc_resolve cx) i" "has_name (rc_resolve cx) i"
  shows "\<exists>p. full_wit_type_name RE (rc_resolve cx) (rc_fuel cx) i = Inr p"
proof -
  obtain j where j: "dealias (rc_resolve cx) (rc_fuel cx) i = Inr j" "(alias_step (rc_resolve cx))\<^sup>*\<^sup>* i j"
    "valid_id (rc_resolve cx) j" using rust_dealias [OF assms(1,2)] .
  have "has_name (rc_resolve cx) j"
    using alias_chain(3) [OF j(2) rust_okD(1,2) [OF assms(1)] assms(2,3)] .
  then show ?thesis
    using j rust_okD(4) [OF assms(1) j(3)]
    by (cases "td_owner (r_types (rc_resolve cx) ! j)") (auto simp: full_wit_type_name_def owner_ok_def)
qed

lemma type_path_ok:
  assumes "rust_ok cx rk" "valid_id (rc_resolve cx) i" "has_name (rc_resolve cx) i"
  shows "\<exists>p. type_path cx i own = Inr p"
proof -
  obtain full where full: "full_wit_type_name (rc_env cx) (rc_resolve cx) (rc_fuel cx) i = Inr full"
    using full_name_ok [OF assms] by blast
  obtain name where name: "(if own then result_name cx i else param_name cx i) = Inr name"
    using suffixed_name_ok [OF assms] by (cases own) (auto simp: result_name_def param_name_def)
  obtain p where p: "type_path_with_name cx i name = Inr p"
    using type_path_with_name_ok [OF assms(1,2)] by blast
  show ?thesis
    unfolding type_path_def full and_then_Inr name p by (auto split: option.split type_generation.split)
qed

lemma is_exported_resource_ok:
  assumes "rust_ok cx rk" "valid_id (rc_resolve cx) i"
  shows "\<exists>b. is_exported_resource cx i = Inr b"
proof -
  obtain j where "dealias (rc_resolve cx) (rc_fuel cx) i = Inr j" using rust_dealias [OF assms] by blast
  then show ?thesis by (simp add: is_exported_resource_def)
qed

section \<open>Modes fit their types\<close>

definition mode_fits :: "resolve \<Rightarrow> ty \<Rightarrow> type_mode \<Rightarrow> bool" where
  "mode_fits r t mode \<longleftrightarrow>
     (borrows r t \<longrightarrow> tm_lifetime mode \<noteq> None) \<and>
     (tm_lists_borrowed mode \<longrightarrow> tm_lifetime mode \<noteq> None) \<and>
     (t = TString \<longrightarrow> tm_lifetime mode \<noteq> None \<longrightarrow> tm_lists_borrowed mode) \<and>
     (tm_style mode = StyleOnlyTopBorrowed \<longrightarrow> tm_lifetime mode \<noteq> None \<longrightarrow> tm_lists_borrowed mode)"

lemma owned_mode_fits: "\<not> borrows r t \<Longrightarrow> mode_fits r t owned_mode"
  by (simp add: mode_fits_def owned_mode_def)

lemma prim_borrows: "\<forall>i. t \<noteq> TId i \<Longrightarrow> \<not> borrows r t"
  by (simp add: contains_prim) (simp add: is_borrow_type_def split: ty.split)

lemma mode_of_info_fits:
  assumes "structural x = info_spec r (TId i)"
  shows "mode_fits r (TId i) (mode_of_info opts x style lt)"
proof -
  have "has_borrow_handle (structural x) = has_borrow_handle (info_spec r (TId i))" using assms by simp
  then have "has_borrow_handle x = borrows r (TId i)" by (simp add: structural_def info_spec_def)
  then show ?thesis
    by (auto simp: mode_fits_def mode_of_info_def Let_def split: ownership.split)
qed

lemma type_mode_for_fits:
  assumes "rust_ok cx rk" "valid_ty (rc_resolve cx) t"
  shows "\<exists>mode. type_mode_for cx t style lt = Inr mode \<and> mode_fits (rc_resolve cx) t mode"
proof (cases t)
  case (TId i)
  then have "valid_id (rc_resolve cx) i" using assms(2) by (simp add: valid_ty_def)
  from rust_okD(6) [OF assms(1) this] show ?thesis
    using mode_of_info_fits [of _ "rc_resolve cx" i] TId by (auto simp: type_mode_for_def type_mode_for_id_def)
qed (simp_all add: type_mode_for_def mode_fits_def owned_mode_def prim_borrows)

lemma filter_mode_fits:
  assumes "rust_ok cx rk" "valid_ty (rc_resolve cx) t"
    "borrows (rc_resolve cx) t \<longrightarrow> tm_lifetime mode \<noteq> None"
  shows "\<exists>m. filter_mode cx t mode = Inr m \<and> mode_fits (rc_resolve cx) t m"
  using type_mode_for_fits [OF assms(1,2)] assms(3) owned_mode_fits [of "rc_resolve cx" t]
  by (cases "tm_lifetime mode") (auto simp: filter_mode_def)

lemma preserve_mode_fits:
  assumes "rust_ok cx rk" "valid_ty (rc_resolve cx) t" "mode_fits (rc_resolve cx) u mode"
    "borrows (rc_resolve cx) t \<longrightarrow> borrows (rc_resolve cx) u"
  shows "\<exists>m. filter_mode_preserve_top cx t mode = Inr m \<and> mode_fits (rc_resolve cx) t m"
proof (cases "tm_style mode = StyleOnlyTopBorrowed")
  case True
  then have "mode_fits (rc_resolve cx) t mode" using assms(3,4) by (auto simp: mode_fits_def)
  then show ?thesis using True by (simp add: filter_mode_preserve_top_def)
next
  case False
  have "borrows (rc_resolve cx) t \<longrightarrow> tm_lifetime mode \<noteq> None" using assms(3,4) by (auto simp: mode_fits_def)
  from filter_mode_fits [OF assms(1,2) this] show ?thesis using False by (simp add: filter_mode_preserve_top_def)
qed

section \<open>The recursion\<close>

definition good_printer :: "('z, 'a) rust_cx \<Rightarrow> (tid \<Rightarrow> nat) \<Rightarrow> nat \<Rightarrow> ('z, 'a) printer \<Rightarrow> bool" where
  "good_printer cx rk n pt \<longleftrightarrow>
     (\<forall>t mode. valid_ty (rc_resolve cx) t \<longrightarrow> mode_fits (rc_resolve cx) t mode \<longrightarrow> ty_rank rk t < n \<longrightarrow>
        safe (pt t mode))"

text \<open>A type inside another one: \<open>u\<close> is smaller and may borrow only if the outer mode has a lifetime.\<close>

definition inner_ok :: "('z, 'a) rust_cx \<Rightarrow> (tid \<Rightarrow> nat) \<Rightarrow> nat \<Rightarrow> type_mode \<Rightarrow> ty \<Rightarrow> bool" where
  "inner_ok cx rk n mode u \<longleftrightarrow>
     valid_ty (rc_resolve cx) u \<and> ty_rank rk u < n \<and>
     (borrows (rc_resolve cx) u \<longrightarrow> tm_lifetime mode \<noteq> None)"

lemma good_printerD:
  assumes "good_printer cx rk n pt" "inner_ok cx rk n mode u" "mode_fits (rc_resolve cx) u m"
  shows "safe (pt u m)"
  using assms by (simp add: good_printer_def inner_ok_def)

lemma print_filtered:
  assumes "rust_ok cx rk" "good_printer cx rk n pt" "inner_ok cx rk n mode u"
  shows "safe (with_res (filter_mode cx u mode) (pt u))"
proof -
  obtain m where "filter_mode cx u mode = Inr m" "mode_fits (rc_resolve cx) u m"
    using filter_mode_fits [OF assms(1), of u mode] assms(3) by (auto simp: inner_ok_def)
  then show ?thesis using good_printerD [OF assms(2,3)] by (intro safe_with_res)
qed

lemma print_preserved:
  assumes "rust_ok cx rk" "good_printer cx rk n pt" "inner_ok cx rk n mode u"
    "mode_fits (rc_resolve cx) t mode"
  shows "safe (with_res (filter_mode_preserve_top cx u mode) (pt u))"
proof (cases "tm_style mode = StyleOnlyTopBorrowed")
  case True
  then have "mode_fits (rc_resolve cx) u mode" using assms(3,4) by (auto simp: mode_fits_def inner_ok_def)
  then have "safe (pt u mode)" using good_printerD [OF assms(2,3)] by blast
  then show ?thesis using True by (intro safe_with_res [of _ mode]) (simp_all add: filter_mode_preserve_top_def)
next
  case False
  then show ?thesis using print_filtered [OF assms(1-3)] by (simp add: filter_mode_preserve_top_def)
qed

lemma print_optional_safe:
  assumes "rust_ok cx rk" "good_printer cx rk n pt" "\<And>u. t = Some u \<Longrightarrow> inner_ok cx rk n mode u"
    "mode_fits (rc_resolve cx) v mode"
  shows "safe (print_optional_ty cx pt t mode)"
  unfolding print_optional_ty_def
  using print_preserved [OF assms(1,2) _ assms(4)] assms(3) by (auto intro!: safe_intros split: option.split)

lemma print_list_safe:
  assumes "rust_ok cx rk" "good_printer cx rk n pt" "inner_ok cx rk n mode u"
    "tm_lists_borrowed mode \<longrightarrow> tm_lifetime mode \<noteq> None"
  shows "safe (print_list cx pt u mode)"
proof -
  obtain m where m: "filter_mode cx u mode = Inr m" "mode_fits (rc_resolve cx) u m"
    using filter_mode_fits [OF assms(1), of u mode] assms(3) by (auto simp: inner_ok_def)
  note u = good_printerD [OF assms(2,3) m(2)]
  show ?thesis
    unfolding print_list_def
    using assms(4) u by (intro safe_with_res [OF m(1)] safe_intros) (auto intro!: safe_with_res safe_intros)
qed

lemma print_map_safe:
  assumes "rust_ok cx rk" "good_printer cx rk n pt" "inner_ok cx rk n mode u" "inner_ok cx rk n mode v"
    "tm_lists_borrowed mode \<longrightarrow> tm_lifetime mode \<noteq> None"
  shows "safe (print_map cx pt u v mode)"
proof -
  obtain m where m: "filter_mode cx u mode = Inr m" "mode_fits (rc_resolve cx) u m"
    using filter_mode_fits [OF assms(1), of u mode] assms(3) by (auto simp: inner_ok_def)
  obtain m' where m': "filter_mode cx v mode = Inr m'" "mode_fits (rc_resolve cx) v m'"
    using filter_mode_fits [OF assms(1), of v mode] assms(4) by (auto simp: inner_ok_def)
  note u = good_printerD [OF assms(2,3) m(2)] good_printerD [OF assms(2,4) m'(2)]
  show ?thesis
    unfolding print_map_def
    using assms(5) u
    by (intro safe_with_res [OF m(1)] safe_with_res [OF m'(1)] safe_intros) (auto intro!: safe_with_res safe_intros)
qed

lemma print_named_safe:
  assumes "rust_ok cx rk" "valid_id (rc_resolve cx) i" "has_name (rc_resolve cx) i"
  shows "safe (print_named cx i mode)"
proof -
  obtain p where "type_path cx i (tm_style mode = StyleOwned) = Inr p" using type_path_ok [OF assms] by blast
  then show ?thesis unfolding print_named_def by (rule safe_with_res) (intro safe_intros)
qed

lemma print_string_safe:
  assumes "mode_fits r TString mode"
  shows "safe (print_prim cx TString mode)"
proof -
  have "tm_lists_borrowed mode = (tm_lifetime mode \<noteq> None)" using assms by (auto simp: mode_fits_def)
  then have "safe (check (tm_lists_borrowed mode = (tm_lifetime mode \<noteq> None)) Assert_Failed)"
    by (simp add: safe_def)
  then show ?thesis
    unfolding print_prim_def ty.case
    by (intro safe_Cons) (auto intro!: safe_intros split: option.split simp del: seq.simps)
qed

lemma print_prim_safe:
  assumes "mode_fits r t mode"
  shows "safe (print_prim cx t mode)"
proof (cases "t = TString")
  case True
  then show ?thesis using print_string_safe assms by blast
next
  case False
  then show ?thesis by (cases t) (simp_all add: print_prim_def safe_intros)
qed

section \<open>Anonymous types\<close>

lemma inner_part:
  assumes "rust_ok cx rk" "valid_id (rc_resolve cx) i" "u \<in> set (eq_types (kind_at (rc_resolve cx) i))"
    "rk i < n" "borrows (rc_resolve cx) u \<longrightarrow> tm_lifetime mode \<noteq> None"
  shows "inner_ok cx rk n mode u"
  using acyclicD(2) [OF rust_okD(1) [OF assms(1)] assms(2,3)] assms(4,5) by (simp add: inner_ok_def)

text \<open>The parts of a type borrow only if the type does.\<close>

lemma inner_parts:
  assumes "rust_ok cx rk" "valid_id (rc_resolve cx) i" "u \<in> set (parts (kind_at (rc_resolve cx) i))"
    "rk i < n" "mode_fits (rc_resolve cx) (TId i) mode"
  shows "inner_ok cx rk n mode u"
proof (rule inner_part [OF assms(1,2) _ assms(4)])
  show "u \<in> set (eq_types (kind_at (rc_resolve cx) i))"
    using assms(3) by (auto simp: parts_def split: kind.splits)
  show "borrows (rc_resolve cx) u \<longrightarrow> tm_lifetime mode \<noteq> None"
    using inside [OF assms(3)] assms(5) by (auto simp: mode_fits_def)
qed

lemma print_handle_safe:
  assumes ok: "rust_ok cx rk" and pt: "good_printer cx rk n pt" and i: "valid_id (rc_resolve cx) i"
    and k: "kind_at (rc_resolve cx) i = KHandle h" and n: "rk i < n"
    and mode: "mode_fits (rc_resolve cx) (TId i) mode"
  shows "safe (print_handle cx pt mode h)"
proof -
  let ?r = "rc_resolve cx"
  let ?j = "handle_tid h"
  have j: "has_name ?r ?j" "\<not> borrows ?r (TId ?j)" using printableD(3) [OF rust_okD(2) [OF ok] i k] by blast+
  have part: "TId ?j \<in> set (eq_types (kind_at ?r i))" using k by (cases h) (simp_all add: eq_types_def handle_tid_def)
  have inner: "inner_ok cx rk n mode (TId ?j)" by (rule inner_part [OF ok i part n]) (use j(2) in simp)
  then have vj: "valid_id ?r ?j" by (simp add: inner_ok_def valid_ty_def)
  have fits: "mode_fits ?r (TId ?j) mode" using mode j(2) by (auto simp: mode_fits_def)
  show ?thesis
  proof (cases h)
    case (Own l)
    then show ?thesis using good_printerD [OF pt inner fits] by (simp add: print_handle_def handle_tid_def)
  next
    case (Borrow l)
    have "borrows ?r (TId i)" by (rule here) (simp add: is_borrow_type_def k Borrow)
    then obtain lt where lt: "tm_lifetime mode = Some lt" using mode by (auto simp: mode_fits_def)
    obtain e where e: "is_exported_resource cx l = Inr e" using is_exported_resource_ok [OF ok vj] Borrow by (auto simp: handle_tid_def)
    obtain name where name: "td_name (r_types ?r ! l) = Some name" using j(1) Borrow by (auto simp: handle_tid_def)
    obtain p where p: "type_path_with_name cx l (re_upper_camel (rc_env cx) name @ ''Borrow'') = Inr p"
      using type_path_with_name_ok [OF ok vj] Borrow by (auto simp: handle_tid_def)
    have "safe (with_res (filter_mode cx (TId l) mode) (pt (TId l)))"
      using print_filtered [OF ok pt inner] Borrow by (simp add: handle_tid_def)
    then have imported: "safe (seq [print_reference lt, with_res (filter_mode cx (TId l) mode) (pt (TId l))])"
      by (intro safe_intros)
    have td: "type_at ?r l = Inr (r_types ?r ! l)" using vj Borrow by (simp add: handle_tid_def)
    show ?thesis
      unfolding print_handle_def Borrow handle.case lt option.case
      by (intro safe_with_res [OF e] safe_if imported safe_with_res [OF td] safe_with_res [of "unwrap _" name]
          safe_with_res [OF p] safe_intros) (simp add: name)
  qed
qed

lemma print_payload_safe:
  assumes "rust_ok cx rk" "good_printer cx rk n pt" "\<And>u. t = Some u \<Longrightarrow> inner_ok cx rk n owned_mode u"
  shows "safe (print_payload cx pt reader t)"
proof -
  have "mode_fits (rc_resolve cx) TBool owned_mode" by (rule owned_mode_fits) (simp add: prim_borrows)
  from print_optional_safe [OF assms(1,2,3) this] show ?thesis
    unfolding print_payload_def by (intro safe_intros)
qed

lemma print_anonymous_safe:
  assumes ok: "rust_ok cx rk" and pt: "good_printer cx rk n pt" and i: "valid_id (rc_resolve cx) i"
    and anonymous: "\<not> has_name (rc_resolve cx) i" and n: "rk i < n"
    and mode: "mode_fits (rc_resolve cx) (TId i) mode"
  shows "safe (define_anonymous_type (anon_type_generator cx pt mode) (rc_resolve cx) i)"
proof -
  let ?r = "rc_resolve cx"
  note pr = printableD [OF rust_okD(2) [OF ok] i]
  note inner = inner_parts [OF ok i _ n mode]
  have unnamed: "\<not> needs_name (kind_at ?r i)" using pr(1) anonymous by blast
  have borrowed: "tm_lists_borrowed mode \<longrightarrow> tm_lifetime mode \<noteq> None" using mode by (simp add: mode_fits_def)
  have payload: "inner_ok cx rk n owned_mode u" if "u \<in> set (eq_types (kind_at ?r i))" "\<not> borrows ?r u" for u
    using inner_part [OF ok i that(1) n] that(2) by blast
  let ?G = "anon_type_generator cx pt mode"
  have "safe (\<lambda>g. case kind_at ?r i of
      KTuple ts \<Rightarrow> anonymous_type_tuple ?G i ts g | KOption t \<Rightarrow> anonymous_type_option ?G i t g
    | KResult ok err \<Rightarrow> anonymous_type_result ?G i ok err g | KList t \<Rightarrow> anonymous_type_list ?G i t g
    | KFuture t \<Rightarrow> anonymous_type_future ?G i t g | KStream t \<Rightarrow> anonymous_type_stream ?G i t g
    | KHandle h \<Rightarrow> anonymous_type_handle ?G i h g
    | KFixedLengthList t n \<Rightarrow> anonymous_type_fixed_length_list ?G i t n g
    | KMap k v \<Rightarrow> anonymous_type_map ?G i k v g | _ \<Rightarrow> Inr g)"
  proof (cases "kind_at ?r i")
    case (KTuple ts)
    then have "inner_ok cx rk n mode u" if "u \<in> set ts" for u
      using inner [of u] that by (simp add: parts_def eq_types_def)
    then show ?thesis
      unfolding KTuple kind.case anon_type_generator_def anonymous_type_generator.simps
      by (intro safe_intros print_preserved [OF ok pt _ mode])
  next
    case (KOption t)
    then have "inner_ok cx rk n mode t" using inner [of t] by (simp add: parts_def eq_types_def)
    then show ?thesis
      unfolding KOption kind.case anon_type_generator_def anonymous_type_generator.simps
      by (intro safe_intros print_preserved [OF ok pt _ mode])
  next
    case (KResult a b)
    then have "inner_ok cx rk n mode u" if "a = Some u \<or> b = Some u" for u
      using inner [of u] that by (auto simp: parts_def eq_types_def)
    then show ?thesis
      unfolding KResult kind.case anon_type_generator_def anonymous_type_generator.simps
      by (intro safe_intros print_optional_safe [OF ok pt _ mode]) auto
  next
    case (KList t)
    then have "inner_ok cx rk n mode t" using inner [of t] by (simp add: parts_def eq_types_def)
    from print_list_safe [OF ok pt this borrowed] show ?thesis
      by (simp add: KList anon_type_generator_def)
  next
    case (KMap k v)
    then have "inner_ok cx rk n mode k" "inner_ok cx rk n mode v"
      using inner [of k] inner [of v] by (simp_all add: parts_def eq_types_def)
    from print_map_safe [OF ok pt this borrowed] show ?thesis
      by (simp add: KMap anon_type_generator_def)
  next
    case (KHandle h)
    from print_handle_safe [OF ok pt i KHandle n mode] show ?thesis
      by (simp add: KHandle anon_type_generator_def)
  next
    case (KFixedLengthList t len)
    note nb = pr(4) [OF KFixedLengthList]
    have "inner_ok cx rk n mode t"
      by (rule inner_part [OF ok i _ n]) (use nb KFixedLengthList in \<open>simp_all add: eq_types_def\<close>)
    from good_printerD [OF pt this owned_mode_fits [OF nb]] show ?thesis
      unfolding KFixedLengthList kind.case anon_type_generator_def anonymous_type_generator.simps
      by (intro safe_intros)
  next
    case (KFuture t)
    then have "inner_ok cx rk n owned_mode u" if "t = Some u" for u
      using payload [of u] pr(5) that by (simp add: eq_types_def)
    from print_payload_safe [OF ok pt this] show ?thesis by (simp add: KFuture anon_type_generator_def)
  next
    case (KStream t)
    then have "inner_ok cx rk n owned_mode u" if "t = Some u" for u
      using payload [of u] pr(6) that by (simp add: eq_types_def)
    from print_payload_safe [OF ok pt this] show ?thesis by (simp add: KStream anon_type_generator_def)
  qed (simp_all add: safe_def)
  then show ?thesis
    using i unnamed acyclicD(1) [OF rust_okD(1) [OF ok] i]
    by (cases "kind_at ?r i") (simp_all add: define_anonymous_type_def [abs_def] needs_name_def)
qed

lemma print_tyid_safe:
  assumes ok: "rust_ok cx rk" and pt: "good_printer cx rk n pt" and i: "valid_id (rc_resolve cx) i"
    and n: "rk i < n" and mode: "mode_fits (rc_resolve cx) (TId i) mode"
  shows "safe (print_tyid cx pt i mode)"
proof -
  let ?td = "r_types (rc_resolve cx) ! i"
  have td: "type_at (rc_resolve cx) i = Inr ?td" using i by simp
  show ?thesis
  proof (cases "td_name ?td")
    case None
    then show ?thesis
      unfolding print_tyid_def
      by (intro safe_with_res [OF td]) (simp add: print_anonymous_safe [OF ok pt i _ n mode])
  next
    case (Some name)
    then have named: "safe (print_named cx i m)" for m by (intro print_named_safe [OF ok i]) simp
    have "\<exists>m. type_mode_for_id cx i StyleOwned lt = Inr m" for lt
      using rust_okD(6) [OF ok i] by (auto simp: type_mode_for_id_def)
    then have "safe (with_res (type_mode_for_id cx i StyleOwned lt) (print_named cx i))" for lt
      using named safe_with_res by metis
    then have top: "safe (seq [print_reference lt, with_res (type_mode_for_id cx i StyleOwned lt) (print_named cx i)])"
      for lt by (intro safe_intros)
    show ?thesis
      unfolding print_tyid_def
      by (intro safe_with_res [OF td])
        (auto simp: Some named top simp del: seq.simps split: option.split ownership_style.split)
  qed
qed

lemma print_body_safe:
  assumes ok: "rust_ok cx rk" and pt: "good_printer cx rk n pt" and t: "valid_ty (rc_resolve cx) t"
    and mode: "mode_fits (rc_resolve cx) t mode" and n: "ty_rank rk t \<le> n"
  shows "safe (print_ty_body cx pt t mode)"
proof (cases t)
  case (TId i)
  let ?r = "rc_resolve cx"
  have i: "valid_id ?r i" "rk i < n" using t n TId by (simp_all add: valid_ty_def ty_rank_def)
  obtain d where d: "dealias ?r (rc_fuel cx) i = Inr d" "(alias_step ?r)\<^sup>*\<^sup>* i d" "valid_id ?r d"
    using rust_dealias [OF ok i(1)] .
  note chain = alias_chain [OF d(2) rust_okD(1,2) [OF ok] i(1)]
  have td: "type_at ?r d = Inr (r_types ?r ! d)" using d(3) by simp
  have "mode_fits ?r (TId d) mode" using mode chain(2) TId by (auto simp: mode_fits_def)
  then have inner: "inner_ok cx rk n mode u" if "u \<in> set (parts (kind_at ?r d))" for u
    using inner_parts [OF ok d(3) that] chain(1) i(2) by simp
  have borrowed: "tm_lists_borrowed mode \<longrightarrow> tm_lifetime mode \<noteq> None" using mode by (simp add: mode_fits_def)
  have list: "safe (print_list cx pt u mode)" if "kind_at ?r d = KList u" for u
    using print_list_safe [OF ok pt inner borrowed] that by (simp add: parts_def eq_types_def)
  have map: "safe (print_map cx pt u v mode)" if "kind_at ?r d = KMap u v" for u v
    using print_map_safe [OF ok pt inner inner borrowed] that by (simp add: parts_def eq_types_def)
  have id: "safe (print_tyid cx pt i mode)" using print_tyid_safe [OF ok pt i] mode TId by simp
  show ?thesis
    unfolding print_ty_body_def TId ty.case
    by (intro safe_with_res [OF d(1)] safe_with_res [OF td])
      (auto simp: id list map safe_print_borrowed_str split: kind.split ty.split option.split)
qed (use print_prim_safe [OF mode] in \<open>simp_all add: print_ty_body_def\<close>)

lemma print_ty_safe:
  assumes "rust_ok cx rk" "valid_ty (rc_resolve cx) t" "mode_fits (rc_resolve cx) t mode" "ty_rank rk t < n"
  shows "safe (print_ty cx n t mode)"
  using assms(2-4)
proof (induction n arbitrary: t mode)
  case 0
  then show ?case by simp
next
  case (Suc n)
  have "good_printer cx rk n (print_ty cx n)" using Suc.IH by (auto simp: good_printer_def)
  from print_body_safe [OF assms(1) this Suc.prems(1,2)] Suc.prems(3) show ?case by simp
qed

lemma type_name_ok:
  assumes "rust_ok cx rk" "valid_ty (rc_resolve cx) t" "mode_fits (rc_resolve cx) t mode"
  shows "\<exists>s g'. type_name cx t mode g = Inr (s, g')"
proof -
  have "ty_rank rk t < rc_fuel cx"
    using rust_okD(3,5) [OF assms(1)] assms(2) by (cases t) (auto simp: ty_rank_def valid_ty_def)
  from print_ty_safe [OF assms this] obtain g' where
    "print_ty cx (rc_fuel cx) t mode (g\<lparr>ig_src := source_default\<rparr>) = Inr g'" unfolding safe_def by blast
  then show ?thesis by (simp add: type_name_def)
qed

end
