(* ===== verification/Rust_Backend.thy ===== *)
theory Rust_Backend
  imports Rust_Emit Rust_Printing Abi_Block_Calls
begin

text \<open>
  The Rust backend keeps the contract of \<open>block_backend\<close>: no instruction that the generator of a call
  emits makes it panic. Each group of instructions is shown to take the blocks it is given and to
  push as many results as the instruction announces; the interpretation at the end collects this.
\<close>

section \<open>What an instruction leaves\<close>

text \<open>\<open>m\<close> takes \<open>n\<close> blocks from \<open>b\<close>, pushes \<open>k\<close> results and changes nothing that a caller sees.\<close>

definition emits ::
    "('z, 'a) function_bindgen \<Rightarrow> nat \<Rightarrow> nat \<Rightarrow> ('z, 'a) emitted \<Rightarrow> bool" where
  "emits b n k m \<longleftrightarrow>
     (\<exists>b' out. m = Inr (b', out) \<and> length out = k \<and> fb_params b' = fb_params b \<and>
        fb_return_self b' = fb_return_self b \<and> fb_block_storage b' = fb_block_storage b \<and>
        fb_blocks b' = but_tail_n n (fb_blocks b))"

lemma emits_Inr:
  "emits b n k (Inr (b', out)) \<longleftrightarrow>
     length out = k \<and> fb_params b' = fb_params b \<and> fb_return_self b' = fb_return_self b \<and>
     fb_block_storage b' = fb_block_storage b \<and> fb_blocks b' = but_tail_n n (fb_blocks b)"
  by (simp add: emits_def)

lemma but_tail_0 [simp]: "but_tail_n 0 xs = xs"
  by (simp add: but_tail_n_def)

lemma but_tail_1: "but_tail_n 1 xs = butlast xs"
  by (simp add: but_tail_n_def butlast_conv_take)

lemma but_tail_2: "but_tail_n 2 xs = butlast (butlast xs)"
  by (simp add: but_tail_n_def butlast_conv_take numeral_2_eq_2 min_def)

text \<open>The helpers that write and count.\<close>

lemma write_text_frame [simp]:
  "fb_params (write_text s b) = fb_params b" "fb_return_self (write_text s b) = fb_return_self b"
  "fb_block_storage (write_text s b) = fb_block_storage b" "fb_blocks (write_text s b) = fb_blocks b"
  by (simp_all add: write_text_def)

lemma write_pieces_frame [simp]:
  "fb_params (write_pieces ps b) = fb_params b" "fb_return_self (write_pieces ps b) = fb_return_self b"
  "fb_block_storage (write_pieces ps b) = fb_block_storage b" "fb_blocks (write_pieces ps b) = fb_blocks b"
  by (simp_all add: write_pieces_def)

lemma write_texts_frame [simp]:
  "fb_params (write_texts ss b) = fb_params b" "fb_return_self (write_texts ss b) = fb_return_self b"
  "fb_block_storage (write_texts ss b) = fb_block_storage b" "fb_blocks (write_texts ss b) = fb_blocks b"
  unfolding write_texts_def by (induction ss arbitrary: b) simp_all

lemma cleanup_frame [simp]:
  "fb_params (add_cleanup v b) = fb_params b" "fb_return_self (add_cleanup v b) = fb_return_self b"
  "fb_block_storage (add_cleanup v b) = fb_block_storage b" "fb_blocks (add_cleanup v b) = fb_blocks b"
  by (simp_all add: add_cleanup_def)

lemma forget_or_clean_frame [simp]:
  "fb_params (forget_or_clean r v b) = fb_params b" "fb_return_self (forget_or_clean r v b) = fb_return_self b"
  "fb_block_storage (forget_or_clean r v b) = fb_block_storage b"
  "fb_blocks (forget_or_clean r v b) = fb_blocks b"
  by (simp_all add: forget_or_clean_def)

lemma on_gen_frame [simp]:
  "fb_params (snd (on_gen f b)) = fb_params b" "fb_return_self (snd (on_gen f b)) = fb_return_self b"
  "fb_block_storage (snd (on_gen f b)) = fb_block_storage b" "fb_blocks (snd (on_gen f b)) = fb_blocks b"
  by (simp_all add: on_gen_def split_beta)

lemma let_results_frame [simp]:
  "fb_params (fst (let_results n b)) = fb_params b" "fb_return_self (fst (let_results n b)) = fb_return_self b"
  "fb_block_storage (fst (let_results n b)) = fb_block_storage b"
  "fb_blocks (fst (let_results n b)) = fb_blocks b" "length (snd (let_results n b)) = n"
  by (simp_all add: let_results_def Let_def next_tmp_def)

lemma foldl_pieces_frame [simp]:
  "fb_params (foldl (\<lambda>b ps. write_pieces ps b) b pss) = fb_params b"
  "fb_return_self (foldl (\<lambda>b ps. write_pieces ps b) b pss) = fb_return_self b"
  "fb_block_storage (foldl (\<lambda>b ps. write_pieces ps b) b pss) = fb_block_storage b"
  "fb_blocks (foldl (\<lambda>b ps. write_pieces ps b) b pss) = fb_blocks b"
  by (induction pss arbitrary: b) simp_all

lemma read_loop_frame [simp]:
  "fb_params (read_loop base len sz ls ms b) = fb_params b"
  "fb_return_self (read_loop base len sz ls ms b) = fb_return_self b"
  "fb_block_storage (read_loop base len sz ls ms b) = fb_block_storage b"
  "fb_blocks (read_loop base len sz ls ms b) = fb_blocks b"
  by (simp_all add: read_loop_def)

lemma dealloc_call_frame [simp]:
  "fb_params (dealloc_call cx base len sz al b) = fb_params b"
  "fb_return_self (dealloc_call cx base len sz al b) = fb_return_self b"
  "fb_block_storage (dealloc_call cx base len sz al b) = fb_block_storage b"
  "fb_blocks (dealloc_call cx base len sz al b) = fb_blocks b"
  by (simp_all add: dealloc_call_def split_beta)

lemma lift_arm_frame:
  "fb_params (lift_arm cx n name tmp arm b) = fb_params b"
  "fb_return_self (lift_arm cx n name tmp arm b) = fb_return_self b"
  "fb_block_storage (lift_arm cx n name tmp arm b) = fb_block_storage b"
  "fb_blocks (lift_arm cx n name tmp arm b) = fb_blocks b"
  by (simp_all add: lift_arm_def Let_def split_beta)

lemma lift_arms_frame [simp]:
  "fb_params (foldl (\<lambda>b arm. lift_arm cx n name tmp arm b) b arms) = fb_params b"
  "fb_return_self (foldl (\<lambda>b arm. lift_arm cx n name tmp arm b) b arms) = fb_return_self b"
  "fb_block_storage (foldl (\<lambda>b arm. lift_arm cx n name tmp arm b) b arms) = fb_block_storage b"
  "fb_blocks (foldl (\<lambda>b arm. lift_arm cx n name tmp arm b) b arms) = fb_blocks b"
  by (induction arms arbitrary: b) (simp_all add: lift_arm_frame)

lemma pop_block_ok: "1 \<le> length (fb_blocks b) \<Longrightarrow>
    pop_block b = Inr (last (fb_blocks b), b\<lparr>fb_blocks := butlast (fb_blocks b)\<rparr>)"
  by (auto simp: pop_block_def)

lemma pop_two_ok: "2 \<le> length (fb_blocks b) \<Longrightarrow>
    pop_block (b\<lparr>fb_blocks := butlast (fb_blocks b)\<rparr>) =
      Inr (last (butlast (fb_blocks b)), b\<lparr>fb_blocks := butlast (butlast (fb_blocks b))\<rparr>)"
  by (cases "fb_blocks b" rule: rev_cases) (auto simp: pop_block_def)

lemma drain_blocks_ok: "n \<le> length (fb_blocks b) \<Longrightarrow>
    drain_blocks n b = Inr (tail_n n (fb_blocks b), b\<lparr>fb_blocks := but_tail_n n (fb_blocks b)\<rparr>)"
  by (simp add: drain_blocks_def)

lemmas emit_simps = emits_Inr Let_def split_beta index_def pop_operand_def next_tmp_def
  but_tail_1 [simplified] but_tail_2 [simplified]

section \<open>The instructions\<close>

lemma emits_wrap [simp]: "emits b 0 (Suc 0) (wrap_operand path [x] b)"
  by (simp add: wrap_operand_def emit_simps)

definition scalar :: "('z, 'a) instruction \<Rightarrow> bool" where
  "scalar i =
     (case i of
        GetArg _ \<Rightarrow> True | I32Const _ \<Rightarrow> True | ConstZero _ \<Rightarrow> True | I64FromU64 \<Rightarrow> True | I64FromS64 \<Rightarrow> True
      | I32FromChar \<Rightarrow> True | I32FromU8 \<Rightarrow> True | I32FromS8 \<Rightarrow> True | I32FromU16 \<Rightarrow> True | I32FromS16 \<Rightarrow> True
      | I32FromU32 \<Rightarrow> True | I32FromS32 \<Rightarrow> True | CoreF32FromF32 \<Rightarrow> True | CoreF64FromF64 \<Rightarrow> True
      | F32FromCoreF32 \<Rightarrow> True | F64FromCoreF64 \<Rightarrow> True | S32FromI32 \<Rightarrow> True | S64FromI64 \<Rightarrow> True
      | S8FromI32 \<Rightarrow> True | U8FromI32 \<Rightarrow> True | S16FromI32 \<Rightarrow> True | U16FromI32 \<Rightarrow> True | U32FromI32 \<Rightarrow> True
      | U64FromI64 \<Rightarrow> True | CharFromI32 \<Rightarrow> True | Bitcasts _ \<Rightarrow> True | I32FromBool \<Rightarrow> True
      | BoolFromI32 \<Rightarrow> True | _ \<Rightarrow> False)"

lemma emits_scalar:
  assumes "scalar i" "length ops = operands_len E i" "\<And>n. i = GetArg n \<Longrightarrow> n < length (fb_params b)"
  shows "emits b 0 (results_len E i) (emit_scalar cx i ops b)"
  using assms
  by (cases i) (auto simp: scalar_def emit_scalar_def top_as_def emit_simps length_Suc_conv rust_bitcast_def)

text \<open>Flags, handles, futures and streams.\<close>

lemma emits_flags_lower: "emits b 0 n (emit_flags_lower n [x] b)"
  by (simp add: emit_flags_lower_def emit_simps)

lemma emits_flags_lift:
  assumes "rust_flags_repr_new repr = Inr u" "type_path cx i True = Inr p"
  shows "emits b 0 (Suc 0) (emit_flags_lift cx repr i ops b)"
  using assms by (simp add: emit_flags_lift_def emit_simps)

lemma emits_handle_lower: "emits b 0 (Suc 0) (emit_handle_lower h [x] b)"
  by (simp add: emit_handle_lower_def emit_simps)

lemma emits_handle_lift:
  assumes ok: "rust_ok cx rk" and j: "valid_id (rc_resolve cx) (handle_tid h)" "has_name (rc_resolve cx) (handle_tid h)"
  shows "emits b 0 (Suc 0) (emit_handle_lift cx (rc_resolve cx) h [x] b)"
proof -
  let ?r = "rc_resolve cx"
  obtain d where d: "dealias ?r (rc_fuel cx) (handle_tid h) = Inr d" "(alias_step ?r)\<^sup>*\<^sup>* (handle_tid h) d"
    "valid_id ?r d" using rust_dealias [OF ok j(1)] .
  have "has_name ?r d" by (rule alias_chain(3) [OF d(2) rust_okD(1,2) [OF ok] j])
  then obtain p where p: "type_path cx d True = Inr p" using type_path_ok [OF ok d(3)] by blast
  obtain e where e: "is_exported_resource cx (handle_tid h) = Inr e" using is_exported_resource_ok [OF ok j(1)] by blast
  show ?thesis
    using d(1) p e by (cases h) (simp_all add: emit_handle_lift_def handle_tid_def emit_simps)
qed

lemma emits_async_lift:
  assumes "rust_ok cx rk" "\<And>t. payload = Some t \<Longrightarrow> valid_ty (rc_resolve cx) t \<and> \<not> borrows (rc_resolve cx) t"
  shows "emits b 0 (Suc 0) (emit_async_lift cx reader trait payload [x] b)"
proof (cases payload)
  case (Some t)
  obtain s g where "type_name_owned cx t (fb_gen b) = Inr (s, g)"
    using type_name_ok [OF assms(1), of t owned_mode "fb_gen b"] assms(2) [OF Some] owned_mode_fits
    by (auto simp: type_name_owned_def)
  then show ?thesis by (simp add: emit_async_lift_def Some emit_simps)
qed (simp add: emit_async_lift_def emit_simps)

text \<open>Records and tuples.\<close>

lemma emits_record_lower:
  assumes "\<And>own. \<exists>p. type_path cx i own = Inr p"
  shows "emits b 0 (length fs) (record_lower cx i fs x b)"
proof -
  obtain p where "typename_lower cx (b\<lparr>fb_tmp := fb_tmp b + 1\<rparr>) i = Inr p"
    using assms unfolding typename_lower_def by blast
  then show ?thesis by (simp add: record_lower_def emit_simps)
qed

lemma emits_record_lift:
  assumes "type_path cx i True = Inr p"
  shows "emits b 0 (Suc 0) (record_lift cx i fs ops b)"
  using assms by (simp add: record_lift_def typename_lift_def emit_simps)

lemma emits_tuple_lower: "emits b 0 (length ts) (tuple_lower ts x b)"
  by (simp add: tuple_lower_def emit_simps)

lemma emits_tuple_lift: "emits b 0 (Suc 0) (tuple_lift ops b)"
  by (simp add: tuple_lift_def emit_simps)

text \<open>Variants: they take a block per arm.\<close>

lemma emits_variant_lower:
  assumes "\<And>own. \<exists>p. type_path cx i own = Inr p" "length cases \<le> length (fb_blocks b)"
  shows "emits b (length cases) n (emit_variant_lower cx cases i n [x] b)"
proof -
  obtain p where "typename_lower cx (b\<lparr>fb_blocks := but_tail_n (length cases) (fb_blocks b)\<rparr>) i = Inr p"
    using assms(1) unfolding typename_lower_def by blast
  then show ?thesis
    using assms(2) by (simp add: emit_variant_lower_def drain_blocks_ok emit_simps)
qed

lemma emits_variant_lift:
  assumes "type_path cx i True = Inr p" "length cases \<le> length (fb_blocks b)"
  shows "emits b (length cases) (Suc 0) (emit_variant_lift cx cases i [x] b)"
  using assms by (simp add: emit_variant_lift_def typename_lift_def drain_blocks_ok emit_simps)

lemma emits_option_lower: "2 \<le> length (fb_blocks b) \<Longrightarrow> emits b 2 n (emit_option_lower n [x] b)"
  by (simp add: emit_option_lower_def pop_block_ok pop_two_ok emit_simps)

lemma emits_option_lift:
  "2 \<le> length (fb_blocks b) \<Longrightarrow> last (butlast (fb_blocks b)) = ''()'' \<Longrightarrow>
    emits b 2 (Suc 0) (emit_option_lift cx [x] b)"
  by (simp add: emit_option_lift_def pop_block_ok pop_two_ok emit_simps)

lemma emits_result_lower: "2 \<le> length (fb_blocks b) \<Longrightarrow> emits b 2 n (emit_result_lower ok err n [x] b)"
  by (simp add: emit_result_lower_def pop_block_ok pop_two_ok emit_simps)

lemma emits_result_lift: "2 \<le> length (fb_blocks b) \<Longrightarrow> emits b 2 (Suc 0) (emit_result_lift cx [x] b)"
  by (simp add: emit_result_lift_def pop_block_ok pop_two_ok emit_simps)

lemma emits_enum_lift: "type_path cx i True = Inr p \<Longrightarrow> emits b 0 (Suc 0) (emit_enum_lift cx tag i [x] b)"
  by (simp add: emit_enum_lift_def emit_simps)

text \<open>Lists, strings and maps: a loop takes the block of its body.\<close>

lemma emits_canonical:
  "emits b 0 2 (emit_list_canon_lower cx realloc [x] b)" "emits b 0 2 (emit_string_lower realloc [x] b)"
  "emits b 0 (Suc 0) (emit_list_canon_lift cx [x, y] b)" "emits b 0 (Suc 0) (emit_string_lift cx [x, y] b)"
  by (simp_all add: emit_list_canon_lower_def emit_string_lower_def emit_list_canon_lift_def emit_string_lift_def
      pointer_and_length_def emit_simps)

lemma emits_loops:
  assumes "1 \<le> length (fb_blocks b)"
  shows "emits b 1 2 (emit_list_lower cx t realloc [x] b)" "emits b 1 2 (emit_map_lower cx t v realloc [x] b)"
    "emits b 1 0 (emit_fixed_list_to_memory cx t [x, y] b)" "emits b 1 (Suc 0) (emit_list_lift cx t [x, y] b)"
    "emits b 1 (Suc 0) (emit_map_lift cx t v [x, y] b)"
    "emits b 1 (Suc 0) (emit_fixed_list_from_memory cx t n [x] b)"
  using assms
  by (simp_all add: emit_list_lower_def emit_map_lower_def emit_fixed_list_to_memory_def emit_list_lift_def
      emit_map_lift_def emit_fixed_list_from_memory_def pop_block_ok emit_simps)

text \<open>Calls.\<close>

lemma emits_call_wasm:
  assumes "length (sig_results sg) < 2"
  shows "emits b 0 (length (sig_results sg)) (emit_call_wasm name sg ops b)"
  using assms
  by (cases "sig_results sg")
    (simp_all add: emit_call_wasm_def fb_declare_import_def declare_import_def import_signature_def emit_simps)

definition callee_ok :: "('z, 'a) rust_cx \<Rightarrow> func \<Rightarrow> bool" where
  "callee_ok cx f \<longleftrightarrow> (\<exists>c. callee cx (rc_resolve cx) f = Inr c)"

lemma emits_call_interface:
  assumes "callee_ok cx f" "n = of_bool (fn_result f \<noteq> None)"
  shows "emits b 0 n (emit_call_interface cx (rc_resolve cx) f async ops b)"
  using assms by (auto simp: callee_ok_def emit_call_interface_def emit_simps)

lemma emits_task_return: "emits b 0 0 (emit_task_return name params ops b)"
  by (simp add: emit_task_return_def fb_declare_import_def declare_import_def import_signature_def emit_simps)

lemma emits_flush_from:
  "i + n \<le> length ops \<Longrightarrow> emits b 0 n (flush_from i n ops b)"
proof (induction n arbitrary: i b)
  case 0
  then show ?case by (simp add: emit_simps)
next
  case (Suc n)
  let ?b = "write_pieces [''let '', ''result'' @ decimal (fb_tmp b), '' = '', ops ! i, '';'' @ nl]
    (b\<lparr>fb_tmp := fb_tmp b + 1\<rparr>)"
  have "emits ?b 0 n (flush_from (Suc i) n ops ?b)" using Suc by simp
  then show ?case using Suc.prems by (auto simp: emits_def Let_def next_tmp_def)
qed

lemma emits_flush: "length ops = n \<Longrightarrow> emits b 0 n (emit_flush n ops b)"
  by (simp add: emit_flush_def emits_flush_from)

lemma emits_return:
  assumes "length ops = n" "fb_return_self b \<longrightarrow> n = 0"
  shows "emits b 0 0 (emit_return n ops b)"
  using assms by (auto simp: emit_return_def emit_simps)

text \<open>Memory.\<close>

lemma emits_load: "emits b 0 (Suc 0) (emit_load cx s t u z [x] b)"
  by (simp add: emit_load_def emit_simps)

lemma emits_store: "emits b 0 0 (emit_store cx s t z [x, y] b)"
  by (simp add: emit_store_def emit_simps)

lemma emits_dealloc:
  "emits b 0 0 (emit_guest_deallocate cx sz al [x] b)" "emits b 0 0 (emit_guest_deallocate_string cx [x, y] b)"
  by (simp_all add: emit_guest_deallocate_def emit_guest_deallocate_string_def emit_simps)

lemma emits_dealloc_variant:
  "0 < n \<Longrightarrow> n \<le> length (fb_blocks b) \<Longrightarrow> emits b n 0 (emit_guest_deallocate_variant n [x] b)"
  by (simp add: emit_guest_deallocate_variant_def drain_blocks_ok emit_simps)

lemma emits_dealloc_loops:
  assumes "1 \<le> length (fb_blocks b)"
  shows "emits b 1 0 (emit_guest_deallocate_list cx t [x, y] b)"
    "emits b 1 0 (emit_guest_deallocate_map cx t v [x, y] b)"
  using assms
  by (simp_all add: emit_guest_deallocate_list_def emit_guest_deallocate_map_def dealloc_elements_def pop_block_ok
      emit_simps)

lemma emits_fixed_lists:
  "length ops = n \<Longrightarrow> emits b 0 (Suc 0) (emit_fixed_list_lift n ops b)"
  "emits b 0 n (emit_fixed_list_lower n [x] b)"
proof -
  have "map_res (\<lambda>i. and_then (index [x] 0) (\<lambda>x. Inr (x @ ''['' @ decimal i @ '']''))) is
    = Inr (map (\<lambda>i. x @ ''['' @ decimal i @ '']'') is)" for "is"
    by (induction "is") (simp_all add: index_def)
  then show "emits b 0 n (emit_fixed_list_lower n [x] b)"
    by (simp add: emit_fixed_list_lower_def emits_Inr)
qed (simp add: emit_fixed_list_lift_def emit_simps)

section \<open>The instructions the backend is prepared for\<close>

definition named_id :: "('z, 'a) rust_cx \<Rightarrow> tid \<Rightarrow> bool" where
  "named_id cx i \<longleftrightarrow> valid_id (rc_resolve cx) i \<and> has_name (rc_resolve cx) i"

definition payload_ok :: "('z, 'a) rust_cx \<Rightarrow> ty option \<Rightarrow> bool" where
  "payload_ok cx payload \<longleftrightarrow>
     (\<forall>t. payload = Some t \<longrightarrow> valid_ty (rc_resolve cx) t \<and> \<not> borrows (rc_resolve cx) t)"

definition rust_allowed ::
    "('z, 'a) wit_env \<Rightarrow> ('z, 'a) rust_cx \<Rightarrow> string list \<Rightarrow> bool \<Rightarrow> ('z, 'a) instruction \<Rightarrow> bool" where
  "rust_allowed E cx params return_self inst =
     (case inst of
        GetArg n \<Rightarrow> n < length params
      | Malloc _ _ _ \<Rightarrow> False
      | HandleLift h _ _ \<Rightarrow> named_id cx (handle_tid h)
      | FlagsLift flags _ i \<Rightarrow> named_id cx i \<and> (\<exists>u. rust_flags_repr_new (flags_repr_of E flags) = Inr u)
      | RecordLower _ _ i \<Rightarrow> named_id cx i
      | RecordLift _ _ i \<Rightarrow> named_id cx i
      | VariantLower _ _ i _ \<Rightarrow> named_id cx i
      | VariantLift _ _ i \<Rightarrow> named_id cx i
      | EnumLift _ _ i \<Rightarrow> named_id cx i
      | FutureLift payload _ \<Rightarrow> payload_ok cx payload
      | StreamLift payload _ \<Rightarrow> payload_ok cx payload
      | CallWasm _ sg \<Rightarrow> length (sig_results sg) < 2
      | CallInterface f _ \<Rightarrow> callee_ok cx f
      | Return n _ \<Rightarrow> return_self \<longrightarrow> n = 0
      | GuestDeallocateVariant n \<Rightarrow> 0 < n
      | _ \<Rightarrow> True)"

lemma plain_rust_allowed: "plain_instruction i \<Longrightarrow> rust_allowed E cx params rs i"
  by (cases i) (simp_all add: plain_instruction_def rust_allowed_def)

lemma named_path:
  assumes "rust_ok cx rk" "named_id cx i"
  shows "\<exists>p. type_path cx i own = Inr p"
  using type_path_ok [OF assms(1)] assms(2) by (simp add: named_id_def)

lemma rust_emit_scalar: "scalar i \<Longrightarrow> rust_emit E cx b r i ops = emit_scalar cx i ops b"
  by (cases i) (simp_all add: scalar_def rust_emit_def)

lemma taken_scalar: "scalar i \<Longrightarrow> Abi_Blocks.taken i = []"
  by (cases i) (simp_all add: scalar_def Abi_Blocks.taken_def)

lemmas emits_free = emits_flags_lower emits_handle_lower emits_tuple_lower emits_tuple_lift
  emits_canonical [unfolded numeral_2_eq_2]
  emits_task_return emits_flush emits_return emits_load emits_store emits_dealloc emits_fixed_lists
  emits_call_wasm emits_call_interface

lemmas emits_taking = emits_option_lower [unfolded numeral_2_eq_2]
  emits_result_lower [unfolded numeral_2_eq_2] emits_result_lift [unfolded numeral_2_eq_2]
  emits_loops [simplified, unfolded numeral_2_eq_2] emits_dealloc_variant
  emits_dealloc_loops [simplified]

lemma rust_emit_emits:
  assumes ok: "\<not> plain_instruction i \<Longrightarrow> rust_ok cx rk" and len: "length ops = operands_len E i"
    and allowed: "rust_allowed E cx (fb_params b) (fb_return_self b) i"
    and blocks: "length (Abi_Blocks.taken i) \<le> length (fb_blocks b)"
    and none: "\<And>t j. i = OptionLift t j \<Longrightarrow> last (butlast (fb_blocks b)) = ''()''"
  shows "emits b (length (Abi_Blocks.taken i)) (results_len E i) (rust_emit E cx b (rc_resolve cx) i ops)"
proof (cases "scalar i")
  case True
  then have "emits b 0 (results_len E i) (emit_scalar cx i ops b)"
    by (rule emits_scalar [OF _ len]) (use allowed in \<open>simp add: rust_allowed_def\<close>)
  then show ?thesis using True by (simp add: rust_emit_scalar taken_scalar)
next
  case False
  note path = named_path [OF ok]
  note plain = plain_instruction_def
  show ?thesis
  proof (cases i)
    case (HandleLift h name j)
    then show ?thesis
      using emits_handle_lift [OF ok] allowed len
      by (auto simp: plain rust_emit_def rust_allowed_def named_id_def Abi_Blocks.taken_def length_Suc_conv)
  next
    case (FlagsLift fl name j)
    then show ?thesis
      using emits_flags_lift [of _ _ cx j] allowed path [of j True]
      by (auto simp: plain rust_emit_def rust_allowed_def Abi_Blocks.taken_def)
  next
    case (FutureLift payload j)
    then show ?thesis
      using emits_async_lift [OF ok] allowed len
      by (auto simp: plain rust_emit_def rust_allowed_def payload_ok_def Abi_Blocks.taken_def length_Suc_conv)
  next
    case (StreamLift payload j)
    then show ?thesis
      using emits_async_lift [OF ok] allowed len
      by (auto simp: plain rust_emit_def rust_allowed_def payload_ok_def Abi_Blocks.taken_def length_Suc_conv)
  next
    case (RecordLower fs name j)
    then show ?thesis
      using emits_record_lower [OF path] allowed len
      by (auto simp: plain rust_emit_def rust_allowed_def Abi_Blocks.taken_def length_Suc_conv index_def)
  next
    case (RecordLift fs name j)
    then show ?thesis
      using emits_record_lift [of cx j] path [of j True] allowed
      by (auto simp: plain rust_emit_def rust_allowed_def Abi_Blocks.taken_def)
  next
    case (EnumLift cs name j)
    then show ?thesis
      using emits_enum_lift [of cx j] path [of j True] allowed len
      by (auto simp: plain rust_emit_def rust_allowed_def Abi_Blocks.taken_def length_Suc_conv)
  next
    case (VariantLower cs name j tys)
    then show ?thesis
      using emits_variant_lower [OF path] allowed len blocks
      by (auto simp: plain rust_emit_def rust_allowed_def Abi_Blocks.taken_def length_Suc_conv)
  next
    case (VariantLift cs name j)
    then show ?thesis
      using emits_variant_lift [of cx j] path [of j True] allowed len blocks
      by (auto simp: plain rust_emit_def rust_allowed_def Abi_Blocks.taken_def length_Suc_conv)
  next
    case (OptionLift t j)
    then show ?thesis
      using emits_option_lift none len blocks
      by (auto simp: rust_emit_def Abi_Blocks.taken_def length_Suc_conv numeral_2_eq_2)
  qed (use False len allowed blocks in \<open>auto simp: scalar_def rust_emit_def rust_allowed_def Abi_Blocks.taken_def
      length_Suc_conv numeral_2_eq_2 emits_free emits_taking emit_loads_def emit_stores_def emits_Inr
      emit_error_context_lift_def index_def of_bool_def\<close>)
qed

section \<open>The contract holds\<close>

text \<open>
  \<open>Types::get\<close> panics on a type that was not analysed; \<open>rust_ok\<close> excludes this, and the answer is
  false here.
\<close>

definition rust_backend ::
    "('z, 'a) wit_env \<Rightarrow> ('z, 'a) rust_cx \<Rightarrow> (('z, 'a) function_bindgen, string, 'z, 'a) backend" where
  "rust_backend E cx =
     \<lparr>bk_emit = rust_emit E cx, bk_return_pointer = rust_return_pointer cx,
      bk_push_block = rust_push_block, bk_finish_block = rust_finish_block, bk_sizes = rc_sizes cx,
      bk_is_list_canonical = (\<lambda>_ t. case rust_is_list_canonical cx t of Inl _ \<Rightarrow> False | Inr c \<Rightarrow> c)\<rparr>"

definition fb_allowed ::
    "('z, 'a) wit_env \<Rightarrow> ('z, 'a) rust_cx \<Rightarrow> string list \<Rightarrow> bool \<Rightarrow> ('z, 'a) instruction \<Rightarrow> bool" where
  "fb_allowed E cx params return_self i \<longleftrightarrow>
     plain_instruction i \<or> (\<exists>rk. rust_ok cx rk) \<and> rust_allowed E cx params return_self i"

definition fb_inv :: "string list \<Rightarrow> bool \<Rightarrow> ('z, 'a) function_bindgen \<Rightarrow> bool" where
  "fb_inv params return_self b \<longleftrightarrow> fb_params b = params \<and> fb_return_self b = return_self"

definition fb_depth :: "('z, 'a) function_bindgen \<Rightarrow> nat" where
  "fb_depth b = length (fb_block_storage b)"

definition fb_finished :: "('z, 'a) function_bindgen \<Rightarrow> bool list" where
  "fb_finished b = map (\<lambda>block. block = ''()'') (fb_blocks b)"

definition fb_fresh :: "('z, 'a) function_bindgen \<Rightarrow> bool" where
  "fb_fresh b \<longleftrightarrow> src_text (fb_src b) = []"

lemma finished_split:
  assumes "fb_finished b = ds @ us"
  shows "map (\<lambda>block. block = ''()'') (but_tail_n (length us) (fb_blocks b)) = ds" "length us \<le> length (fb_blocks b)"
proof -
  have "length (fb_finished b) = length ds + length us" using assms by simp
  then have len: "length (fb_blocks b) = length ds + length us" by (simp add: fb_finished_def)
  have "take (length ds) (fb_finished b) = ds" using assms by simp
  then show "map (\<lambda>block. block = ''()'') (but_tail_n (length us) (fb_blocks b)) = ds"
    using len by (simp add: fb_finished_def but_tail_n_def take_map)
  show "length us \<le> length (fb_blocks b)" using len by simp
qed

lemma fb_emit_ok:
  assumes inv: "fb_inv params rs b" and len: "length ops = operands_len E i"
    and allowed: "fb_allowed E cx params rs i" and split: "fb_finished b = ds @ us"
    and us: "list_all2 (\<longrightarrow>) (Abi_Blocks.taken i) us"
  shows "\<exists>b' out. rust_emit E cx b (rc_resolve cx) i ops = Inr (b', out) \<and> length out = results_len E i \<and>
    fb_inv params rs b' \<and> fb_depth b' = fb_depth b \<and> fb_finished b' = ds"
proof -
  have n: "length (Abi_Blocks.taken i) = length us" using us by (rule list_all2_lengthD)
  obtain rk where ok: "\<not> plain_instruction i \<Longrightarrow> rust_ok cx rk" using allowed by (auto simp: fb_allowed_def)
  have ra: "rust_allowed E cx (fb_params b) (fb_return_self b) i"
    using allowed inv plain_rust_allowed by (auto simp: fb_allowed_def fb_inv_def)
  have none: "last (butlast (fb_blocks b)) = ''()''" if "i = OptionLift t j" for t j
  proof -
    from us that obtain u where "us = [True, u]" by (auto simp: Abi_Blocks.taken_def list_all2_Cons1)
    with split obtain bs x y where bs: "fb_blocks b = bs @ [x, y]" "x = ''()''"
      by (auto simp: fb_finished_def map_eq_append_conv)
    then show ?thesis by (simp add: butlast_append)
  qed
  have blocks: "length (Abi_Blocks.taken i) \<le> length (fb_blocks b)" using finished_split(2) [OF split] n by simp
  have "emits b (length (Abi_Blocks.taken i)) (results_len E i) (rust_emit E cx b (rc_resolve cx) i ops)"
    by (rule rust_emit_emits) (fact ok len ra blocks none)+
  then show ?thesis
    using finished_split(1) [OF split] n inv
    by (auto simp: emits_def fb_inv_def fb_depth_def fb_finished_def)
qed

lemma fb_return_pointer_ok:
  assumes "fb_inv params rs b" "rust_return_pointer cx b z a = (b', ptr)"
  shows "fb_inv params rs b' \<and> fb_depth b' = fb_depth b \<and> fb_finished b' = fb_finished b"
proof -
  have "b' = fst (rust_return_pointer cx b z a)" using assms(2) by simp
  then show ?thesis
    using assms(1)
    by (simp add: rust_return_pointer_def next_tmp_def Let_def fb_inv_def fb_depth_def fb_finished_def)
qed

lemma fb_finish_block_ok:
  assumes "fb_inv params rs b" "0 < fb_depth b"
  shows "\<exists>b' u. rust_finish_block b ops = Inr b' \<and> fb_inv params rs b' \<and> Suc (fb_depth b') = fb_depth b \<and>
    fb_finished b' = fb_finished b @ [u] \<and> (fb_fresh b \<and> ops = [] \<longrightarrow> u)"
  using assms
  by (auto simp: rust_finish_block_def Let_def fb_inv_def fb_depth_def fb_finished_def fb_fresh_def)

interpretation rust: block_backend E "rc_resolve cx" "''()''" "rust_backend E cx" "fb_allowed E cx params rs"
    "fb_inv params rs" fb_depth fb_finished fb_fresh
  for E :: "('z, 'a) wit_env" and cx params rs
proof unfold_locales
  fix i :: "('z, 'a) instruction"
  assume "plain_instruction i"
  then show "fb_allowed E cx params rs i" by (simp add: fb_allowed_def)
next
  fix b :: "('z, 'a) function_bindgen"
  assume "fb_inv params rs b"
  then show "fb_inv params rs (bk_push_block (rust_backend E cx) b) \<and>
      fb_depth (bk_push_block (rust_backend E cx) b) = Suc (fb_depth b) \<and>
      fb_finished (bk_push_block (rust_backend E cx) b) = fb_finished b \<and>
      fb_fresh (bk_push_block (rust_backend E cx) b)"
    by (simp add: rust_backend_def rust_push_block_def fb_inv_def fb_depth_def fb_finished_def fb_fresh_def
        source_default_def)
qed (use fb_emit_ok fb_return_pointer_ok fb_finish_block_ok in \<open>simp_all add: rust_backend_def\<close>)

end
