(* ===== verification/Rust_Demo.thy ===== *)
theory Rust_Demo
  imports Rust_Backend Abi_Backend
begin

text \<open>
  A Rust generator over the types of \<open>Abi_Backend\<close>, for evaluating the definitions: the conversions
  of case capitalise the first letter or do nothing, sizes are printed in decimal.
\<close>

definition demo_capital :: "string \<Rightarrow> string" where
  "demo_capital s =
     (case s of
        [] \<Rightarrow> []
      | c # cs \<Rightarrow> (if 97 \<le> (of_char c :: nat) \<and> of_char c \<le> (122 :: nat) then char_of (of_char c - 32 :: nat) else c) # cs)"

definition demo_resource :: "function_kind \<Rightarrow> tid option" where
  "demo_resource k =
     (case k of
        Freestanding \<Rightarrow> None | AsyncFreestanding \<Rightarrow> None | Method i \<Rightarrow> Some i | AsyncMethod i \<Rightarrow> Some i
      | Static i \<Rightarrow> Some i | AsyncStatic i \<Rightarrow> Some i | Constructor i \<Rightarrow> Some i)"

definition demo_world_key :: "resolve \<Rightarrow> world_key \<Rightarrow> string" where
  "demo_world_key r key = (case key of WKName name \<Rightarrow> name | WKInterface i \<Rightarrow> ''iface'' @ decimal i)"

definition rust_demo_env :: "(nat, nat) rust_env" where
  "rust_demo_env =
     \<lparr>re_snake = id, re_upper_camel = demo_capital, re_id_of = (\<lambda>_. None), re_all_bits_valid = (\<lambda>t. t = TU8),
      re_item_name = fn_name, re_size_format = decimal, re_size_format_term = decimal, re_align_format = decimal,
      re_size_max = max, re_align_max = max, re_size_is_empty = (\<lambda>z. z = 0),
      re_size_default = 0, re_align_default = 1, re_align_bytes = Some, re_size_wasm32 = id, re_align_wasm32 = id,
      re_resource = demo_resource, re_name_world_key = demo_world_key, re_futures_and_streams = (\<lambda>_ _. []),
      re_core_export_name = (\<lambda>f m. (case m of Some m \<Rightarrow> m @ ''#'' | None \<Rightarrow> []) @ fn_name f), re_func_docs = (\<lambda>_. None),
      re_kebab = id, re_shouty_snake = id, re_iface_docs = (\<lambda>_. None), re_type_docs = (\<lambda>_. None),
      re_member_docs = (\<lambda>_ _. None)\<rparr>"

definition rust_demo_opts :: rust_opts where
  "rust_demo_opts =
     \<lparr>op_std_feature = False, op_skip = [], op_raw_strings = False, op_ownership = Borrowing True, op_generate_unused_types = False,
      op_runtime_path = None, op_map_type = None, op_enable_method_chaining = False, op_format = False,
      op_stubs = False, op_export_prefix = None, op_bitflags_path = None, op_additional_derive_attributes = [],
      op_additional_derive_ignore = [], op_additional_type_attributes = [], op_additional_member_attributes = [],
      op_with = [], op_generate_all = True, op_type_section_suffix = None,
      op_disable_run_ctors_once_workaround = False, op_default_bindings_module = None, op_export_macro_name = None,
      op_pub_export_macro = False, op_disable_custom_section_link_helpers = False,
      op_merge_structurally_equal_types = None\<rparr>"

definition rust_demo_infos :: infos where
  "rust_demo_infos i =
     (if i = 0 \<or> i = 6 then Some (no_info\<lparr>borrowed := True\<rparr>)
      else if i = 1 \<or> i = 2 \<or> i = 3 then Some (no_info\<lparr>borrowed := True, owned := True, has_list := True\<rparr>)
      else if i = 4 \<or> i = 7 then Some (no_info\<lparr>has_resource := True\<rparr>)
      else if i = 5 then Some (no_info\<lparr>has_resource := True, has_own_handle := True\<rparr>)
      else None)"

definition rust_demo :: "(nat, nat) rust_cx" where
  "rust_demo =
     \<lparr>rc_env = rust_demo_env, rc_opts = rust_demo_opts, rc_resolve = demo_resolve, rc_sizes = demo_sizes,
      rc_identifier = IdWorld 0, rc_in_import = True, rc_wasm_import_module = ''host'',
      rc_types = \<lparr>t_infos = rust_demo_infos, t_equal = Map.empty\<rparr>,
      rc_interface_names = (\<lambda>_. None), rc_exported_resources = [],
      rc_with = \<lparr>gc_map = [], gc_generate_by_default = True\<rparr>, rc_fuel = 8\<rparr>"

definition rust_demo_gen :: "(nat, nat) iface_gen" where
  "rust_demo_gen =
     \<lparr>ig_src = source_default, ig_return_pointer_area_size = 0, ig_return_pointer_area_align = 1,
      ig_needs_runtime_module = False, ig_needs_wit_map = False, ig_gen = rust_wasm_new [] (rc_types rust_demo) (async_all False)\<rparr>"

definition rust_demo_rank :: "tid \<Rightarrow> nat" where
  "rust_demo_rank i = (if i = 2 \<or> i = 5 \<or> i = 7 then 1 else if i = 3 then 2 else 0)"

lemma rust_demo_simps [simp]:
  "rc_resolve rust_demo = demo_resolve" "rc_fuel rust_demo = 8" "rc_env rust_demo = rust_demo_env"
  "rc_opts rust_demo = rust_demo_opts" "rc_sizes rust_demo = demo_sizes"
  by (simp_all add: rust_demo_def)

lemma demo_scalar_spec [simp]:
  "info_spec r TU8 = no_info" "info_spec r TU32 = no_info" "info_spec r TU64 = no_info"
  "info_spec r TString = no_info\<lparr>has_list := True\<rparr>"
  by (simp_all add: info_spec_def contains_prim is_list_type_def is_tuple_type_def is_resource_type_def
      is_borrow_type_def is_own_type_def no_info_def)

lemma demo_specs:
  "info_spec demo_resolve (TId 0) = no_info" "info_spec demo_resolve (TId (Suc 0)) = no_info\<lparr>has_list := True\<rparr>"
  "info_spec demo_resolve (TId 4) = no_info\<lparr>has_resource := True\<rparr>"
  "info_spec demo_resolve (TId 5) = no_info\<lparr>has_resource := True, has_own_handle := True\<rparr>"
  "info_spec demo_resolve (TId 6) = no_info"
  by (simp_all add: info_spec_TId demo_types_def parts_def eq_types_def own_flags_def bitor_def no_info_def)

lemma demo_outer_specs:
  "info_spec demo_resolve (TId 2) = no_info\<lparr>has_list := True\<rparr>"
  "info_spec demo_resolve (TId 7) = no_info\<lparr>has_resource := True\<rparr>"
  by (simp_all add: info_spec_TId [of _ 2] info_spec_TId [of _ 7] demo_types_def parts_def eq_types_def own_flags_def
      demo_specs bitor_def no_info_def)

lemma demo_result_spec: "info_spec demo_resolve (TId 3) = no_info\<lparr>has_list := True\<rparr>"
  by (simp add: info_spec_TId [of _ 3] demo_types_def parts_def eq_types_def own_flags_def
      demo_outer_specs bitor_def no_info_def)

lemma demo_infos:
  "i < 8 \<Longrightarrow> \<exists>x. info rust_demo i = Inr x \<and> structural x = info_spec demo_resolve (TId i)"
  unfolding less_8
  by (elim insertE) (simp_all add: info_def get_info_def rust_demo_def rust_demo_infos_def demo_specs
      demo_outer_specs demo_result_spec structural_def no_info_def)

lemma demo_not_borrowing: "\<not> borrows demo_resolve (TId 4)"
  using demo_specs(3) by (simp add: info_spec_def no_info_def)

lemma demo_rust_acyclic: "acyclic_types demo_resolve rust_demo_rank"
  unfolding acyclic_types_def demo_cx_simps
  by (auto simp: less_8 demo_types_def eq_types_def valid_ty_def ty_rank_def rust_demo_rank_def)

lemma demo_printable: "printable demo_resolve"
  unfolding printable_def demo_cx_simps
  by (auto simp: less_8 demo_types_def needs_name_def handle_tid_def demo_not_borrowing)

lemma rust_demo_ok: "rust_ok rust_demo rust_demo_rank"
proof -
  have "owner_ok rust_demo (td_owner (demo_types ! i)) \<and> Suc (rust_demo_rank i) < 8" if "i < 8" for i
    using that unfolding less_8 by (auto simp: demo_types_def owner_ok_def rust_demo_rank_def)
  then show ?thesis using demo_infos by (simp add: rust_ok_def demo_rust_acyclic demo_printable)
qed

section \<open>A generator that meets a fixed-length list of borrowed handles\<close>

definition borrow_types :: "type_def list" where
  "borrow_types =
     [\<lparr>td_name = Some ''file'', td_owner = OwnerNone, td_kind = KResource\<rparr>,
      \<lparr>td_name = None, td_owner = OwnerNone, td_kind = KHandle (Borrow 0)\<rparr>,
      \<lparr>td_name = None, td_owner = OwnerNone, td_kind = KFixedLengthList (TId 1) 2\<rparr>]"

definition borrow_demo :: "(nat, nat) rust_cx" where
  "borrow_demo = rust_demo
     \<lparr>rc_resolve := \<lparr>r_types = borrow_types, r_worlds = [], r_interfaces = [], r_packages = []\<rparr>\<rparr>"

end
