(* ===== verification/Rust_Modules.thy ===== *)
theory Rust_Modules
  imports Rust_State
begin

text \<open>
  The modules of the generated code (\<open>crates/rust/src/lib.rs\<close>): the path of an interface's module and
  \<open>emit_modules\<close>, which sorts the texts of all interfaces into a tree and writes the tree out. A
  \<open>BTreeMap\<close> is an association list that is sorted by its keys.
\<close>

section \<open>The path of an interface\<close>

definition compute_module_path ::
    "('z, 'a) rust_env \<Rightarrow> world_key \<Rightarrow> resolve \<Rightarrow> bool \<Rightarrow> string list res" where
  "compute_module_path RE name r is_export =
     and_then
       (case name of
          WKName name \<Rightarrow> Inr [to_rust_ident RE name]
        | WKInterface i \<Rightarrow>
            and_then (index (r_interfaces r) i) (\<lambda>iface.
              and_then (unwrap (if_package iface)) (\<lambda>pkg.
                and_then (index (r_packages r) pkg) (\<lambda>pkgname.
                  and_then (name_package_module (re_snake RE) r pkg) (\<lambda>module.
                    and_then (unwrap (if_name iface)) (\<lambda>name.
                      Inr [to_rust_ident RE (pn_namespace pkgname), module, to_rust_ident RE name]))))))
       (\<lambda>path. Inr ((if is_export then [''exports''] else []) @ path))"

lemma compute_module_path_not_Nil: "compute_module_path RE name r e = Inr path \<Longrightarrow> path \<noteq> []"
  by (auto simp: compute_module_path_def and_then_eq_Inr split: world_key.splits if_splits)

section \<open>The tree of modules\<close>

datatype module = Module (submodules: "(string \<times> module) list") (contents: "string list")

definition module_default :: module where
  "module_default = Module [] []"

text \<open>\<open>*map.entry(k).or_insert(d)\<close> is updated by \<open>f\<close>.\<close>

fun entry :: "'k::linorder \<Rightarrow> ('v \<Rightarrow> 'v) \<Rightarrow> 'v \<Rightarrow> ('k \<times> 'v) list \<Rightarrow> ('k \<times> 'v) list" where
  "entry k f d [] = [(k, f d)]"
| "entry k f d ((k', v) # m) =
     (if k = k' then (k', f v) # m
      else if k < k' then (k, f d) # (k', v) # m
      else (k', v) # entry k f d m)"

fun add_module :: "string list \<Rightarrow> string \<Rightarrow> module \<Rightarrow> module" where
  "add_module [] code (Module subs cs) = Module subs (cs @ [code])"
| "add_module (name # path) code (Module subs cs) =
     Module (entry name (add_module path code) module_default subs) cs"

fun module_tree :: "(string \<times> string list) list \<Rightarrow> module \<Rightarrow> module res" where
  "module_tree [] tree = Inr tree"
| "module_tree ((module, path) # modules) tree =
     (if path = [] then Inl Sub_Overflow else module_tree modules (add_module (butlast path) module tree))"

fun emit_module :: "rust_opts \<Rightarrow> bool \<Rightarrow> module \<Rightarrow> source \<Rightarrow> source"
and emit_submodules :: "rust_opts \<Rightarrow> bool \<Rightarrow> (string \<times> module) list \<Rightarrow> source \<Rightarrow> source" where
  "emit_module opts toplevel (Module subs cs) me =
     foldl (\<lambda>me code. push_pieces [code, nl] me) (emit_submodules opts toplevel subs me) cs"
| "emit_submodules opts toplevel [] me = me"
| "emit_submodules opts toplevel ((name, submodule) # subs) me =
     (let me =
        (if toplevel then
           push_pieces [''#[allow(dead_code, clippy::all)]'' @ nl]
             (if op_format opts then push_pieces [''#[rustfmt::skip]'' @ nl] me else me)
         else me);
          me = push_pieces [''pub mod '', name, '' {'' @ nl] me;
          me = emit_module opts False submodule me in
      emit_submodules opts toplevel subs (push_pieces [''}'' @ nl] me))"

definition emit_modules :: "rust_opts \<Rightarrow> (string \<times> string list) list \<Rightarrow> rust_wasm \<Rightarrow> rust_wasm res" where
  "emit_modules opts modules w =
     and_then (module_tree modules module_default) (\<lambda>tree.
       Inr (w\<lparr>rw_src := emit_module opts True tree (rw_src w)\<rparr>))"

section \<open>What the tree holds\<close>

text \<open>The modules on the way to every text, in the order in which the tree is written.\<close>

fun listing :: "string list \<Rightarrow> module \<Rightarrow> (string list \<times> string) list"
and listings :: "string list \<Rightarrow> (string \<times> module) list \<Rightarrow> (string list \<times> string) list" where
  "listing path (Module subs cs) = listings path subs @ map (Pair path) cs"
| "listings path [] = []"
| "listings path ((name, submodule) # subs) = listing (path @ [name]) submodule @ listings path subs"

text \<open>No module is opened twice, at any level.\<close>

fun sorted_tree :: "module \<Rightarrow> bool" where
  "sorted_tree (Module subs cs) \<longleftrightarrow> sorted_wrt (<) (map fst subs) \<and> list_all (\<lambda>(_, m). sorted_tree m) subs"

lemma sorted_tree_default [simp]: "sorted_tree module_default"
  by (simp add: module_default_def)

lemma entry_keys: "set (map fst (entry k f d m)) = insert k (set (map fst m))"
  by (induction k f d m rule: entry.induct) auto

lemma entry_sorted:
  "sorted_wrt (<) (map fst m) \<Longrightarrow> sorted_wrt (<) (map fst (entry k f d m))"
proof (induction m)
  case (Cons kv m)
  obtain k' v where kv: "kv = (k', v)" by fastforce
  have rest: "\<forall>x \<in> set (map fst (entry k f d m)). k' < x" if "k \<noteq> k'" "\<not> k < k'"
    using that Cons.prems unfolding entry_keys by (auto simp: kv)
  show ?case using Cons rest by (auto simp: kv)
qed simp

lemma entry_all: "list_all P m \<Longrightarrow> (\<And>v. (k, v) \<in> set m \<or> v = d \<Longrightarrow> P (k, f v)) \<Longrightarrow> list_all P (entry k f d m)"
  by (induction m) auto

lemma add_module_sorted: "sorted_tree m \<Longrightarrow> sorted_tree (add_module path c m)"
proof (induction path c m rule: add_module.induct)
  case (2 name path c subs cs)
  have "list_all (\<lambda>(_, m). sorted_tree m) (entry name (add_module path c) module_default subs)"
  proof (rule entry_all)
    fix v assume "(name, v) \<in> set subs \<or> v = module_default"
    then have "sorted_tree v" using "2.prems" by (auto simp: list_all_iff)
    then show "case (name, add_module path c v) of (_, m) \<Rightarrow> sorted_tree m" using "2.IH" by simp
  qed (use "2.prems" in simp)
  then show ?case using "2.prems" entry_sorted [of subs] by simp
qed simp

text \<open>The texts under one path, in order.\<close>

definition texts_under :: "string list \<Rightarrow> (string list \<times> string) list \<Rightarrow> string list" where
  "texts_under p ls = map snd (filter (\<lambda>(q, _). q = p) ls)"

lemma texts_under_simps [simp]:
  "texts_under p [] = []" "texts_under p (xs @ ys) = texts_under p xs @ texts_under p ys"
  "texts_under p ((q, c) # ls) = (if q = p then [c] else []) @ texts_under p ls"
  "texts_under p (map (Pair q) cs) = (if q = p then cs else [])"
  by (auto simp: texts_under_def filter_map comp_def)

lemma listing_paths:
  "(q, c) \<in> set (listing path m) \<Longrightarrow> \<exists>ns. q = path @ ns"
  "(q, c) \<in> set (listings path subs) \<Longrightarrow> \<exists>n ns. n \<in> set (map fst subs) \<and> q = path @ n # ns"
proof (induction path m and path subs arbitrary: q c and q c rule: listing_listings.induct)
  case (1 path subs cs)
  then show ?case by auto
next
  case (3 path name submodule subs)
  from 3(3) consider "(q, c) \<in> set (listing (path @ [name]) submodule)" | "(q, c) \<in> set (listings path subs)" by auto
  then show ?case
  proof cases
    case 1
    from 3(1) [OF this] show ?thesis by auto
  next
    case 2
    from 3(2) [OF this] show ?thesis by auto
  qed
qed simp

lemma texts_under_other: "(\<And>c. (p, c) \<notin> set ls) \<Longrightarrow> texts_under p ls = []"
  by (auto simp: texts_under_def filter_empty_conv)

lemma listing_add:
  "sorted_tree m \<Longrightarrow> texts_under p (listing path (add_module ns c m)) =
    texts_under p (listing path m) @ (if p = path @ ns then [c] else [])"
proof (induction ns c m arbitrary: path rule: add_module.induct)
  case (1 c subs cs)
  then show ?case by (auto simp: texts_under_def filter_map comp_def)
next
  case (2 name ns c subs cs)
  have own: "texts_under p (listings path subs) @ (if q = p then cs else []) @ (if p = path @ name # ns then [c] else []) =
      texts_under p (listings path subs) @ (if p = path @ name # ns then [c] else []) @ (if q = p then cs else [])"
    if "q = path" for q
    using that by auto
  have "texts_under p (listings path (entry name (add_module ns c) module_default subs)) =
      texts_under p (listings path subs) @ (if p = path @ name # ns then [c] else [])"
    using "2.prems"
  proof (induction subs)
    case Nil
    have "texts_under p (listing (path @ [name]) (add_module ns c module_default)) =
        texts_under p (listing (path @ [name]) module_default) @ (if p = (path @ [name]) @ ns then [c] else [])"
      by (rule "2.IH") simp
    then show ?case by (simp add: module_default_def)
  next
    case (Cons kv subs)
    obtain k v where kv: "kv = (k, v)" by fastforce
    have later: "texts_under p (listings path subs) = []" if "p = path @ name # ns" "k = name \<or> name < k"
    proof (rule texts_under_other)
      fix c
      have "name \<notin> set (map fst subs)" using Cons.prems that(2) by (auto simp: kv)
      then show "(p, c) \<notin> set (listings path subs)" using listing_paths(2) [of p c path subs] that(1) by auto
    qed
    have here: "texts_under p (listing (path @ [k]) v) = []" if "p = path @ name # ns" "k \<noteq> name"
      by (rule texts_under_other) (use that in \<open>auto dest: listing_paths(1)\<close>)
    consider "name = k" | "name < k" "name \<noteq> k" | "\<not> name < k" "name \<noteq> k" by blast
    then show ?case
    proof cases
      case 1
      have "texts_under p (listing (path @ [name]) (add_module ns c v)) =
          texts_under p (listing (path @ [name]) v) @ (if p = (path @ [name]) @ ns then [c] else [])"
        by (rule "2.IH") (use Cons.prems kv in simp)
      then show ?thesis using later 1 by (simp add: kv)
    next
      case 2
      have "texts_under p (listing (path @ [name]) (add_module ns c module_default)) =
          texts_under p (listing (path @ [name]) module_default) @ (if p = (path @ [name]) @ ns then [c] else [])"
        by (rule "2.IH") simp
      then show ?thesis using later here 2 by (simp add: kv module_default_def)
    next
      case 3
      have "sorted_tree (Module subs cs)" using Cons.prems by (simp add: kv)
      from Cons.IH [OF this] show ?thesis using 3 by (simp add: kv)
    qed
  qed
  then show ?case using own [OF refl] by simp
qed

lemma module_tree_result:
  assumes "\<forall>(_, path) \<in> set modules. path \<noteq> []" "sorted_tree tree"
  obtains tree' where "module_tree modules tree = Inr tree'" "sorted_tree tree'"
    "\<And>p. texts_under p (listing [] tree') =
      texts_under p (listing [] tree) @ map fst (filter (\<lambda>(_, path). butlast path = p) modules)"
  using assms
proof (induction modules arbitrary: tree thesis)
  case Nil
  then show ?case by simp
next
  case (Cons mp modules)
  obtain m path where mp: "mp = (m, path)" by fastforce
  let ?tree = "add_module (butlast path) m tree"
  have sorted: "sorted_tree ?tree" using Cons.prems(3) by (rule add_module_sorted)
  obtain tree' where t: "module_tree modules ?tree = Inr tree'" "sorted_tree tree'"
    "\<And>p. texts_under p (listing [] tree') =
      texts_under p (listing [] ?tree) @ map fst (filter (\<lambda>(_, path). butlast path = p) modules)"
    by (rule Cons.IH [OF _ _ sorted]) (use Cons.prems(2) in auto)
  show ?case
    by (rule Cons.prems(1)) (use t Cons.prems(2,3) in \<open>auto simp: mp listing_add\<close>)
qed

section \<open>What is written\<close>

text \<open>The parts of the text: a module is opened or closed, or a text is written.\<close>

datatype module_event = Open bool string | Content string | Close

fun play :: "rust_opts \<Rightarrow> module_event \<Rightarrow> source \<Rightarrow> source" where
  "play opts (Open toplevel name) me =
     push_pieces [''pub mod '', name, '' {'' @ nl]
       (if toplevel then
          push_pieces [''#[allow(dead_code, clippy::all)]'' @ nl]
            (if op_format opts then push_pieces [''#[rustfmt::skip]'' @ nl] me else me)
        else me)"
| "play opts (Content c) me = push_pieces [c, nl] me"
| "play opts Close me = push_pieces [''}'' @ nl] me"

fun module_events :: "bool \<Rightarrow> module \<Rightarrow> module_event list"
and submodule_events :: "bool \<Rightarrow> (string \<times> module) list \<Rightarrow> module_event list" where
  "module_events toplevel (Module subs cs) = submodule_events toplevel subs @ map Content cs"
| "submodule_events toplevel [] = []"
| "submodule_events toplevel ((name, submodule) # subs) =
     Open toplevel name # module_events False submodule @ Close # submodule_events toplevel subs"

lemma emit_module_plays:
  "emit_module opts toplevel m me = foldl (\<lambda>me e. play opts e me) me (module_events toplevel m)"
  "emit_submodules opts toplevel subs me = foldl (\<lambda>me e. play opts e me) me (submodule_events toplevel subs)"
proof (induction opts toplevel m me and opts toplevel subs me rule: emit_module_emit_submodules.induct)
  case (1 opts toplevel subs cs me)
  have "foldl (\<lambda>me c. push_pieces [c, nl] me) s cs = foldl (\<lambda>me e. play opts e me) s (map Content cs)" for s
    by (induction cs arbitrary: s) simp_all
  then show ?case using 1 by simp
qed (simp_all add: Let_def)

text \<open>The texts with the modules that are open around them; \<open>None\<close> if a module is closed that is not open.\<close>

fun texts_at :: "string list \<Rightarrow> module_event list \<Rightarrow> (string list \<times> (string list \<times> string) list) option" where
  "texts_at path [] = Some (path, [])"
| "texts_at path (Open _ name # es) = texts_at (path @ [name]) es"
| "texts_at path (Content c # es) = map_option (map_prod id (Cons (path, c))) (texts_at path es)"
| "texts_at path (Close # es) = (if path = [] then None else texts_at (butlast path) es)"

lemma texts_at_append:
  "texts_at path es = Some (path', ls) \<Longrightarrow>
    texts_at path (es @ es') = map_option (map_prod id ((@) ls)) (texts_at path' es')"
proof (induction path es arbitrary: ls rule: texts_at.induct)
  case (1 path)
  then show ?case by (simp add: option.map_id0 [unfolded id_def] map_prod_def)
next
  case (3 path c es)
  then show ?case by (auto simp: option.map_comp comp_def map_prod_def split_beta)
qed (auto split: if_splits)

lemma texts_at_contents: "texts_at path (map Content cs) = Some (path, map (Pair path) cs)"
  by (induction cs) simp_all

lemma texts_at_events:
  "texts_at path (module_events toplevel m) = Some (path, listing path m)"
  "texts_at path (submodule_events toplevel subs) = Some (path, listings path subs)"
proof (induction toplevel m and toplevel subs arbitrary: path and path rule: module_events_submodule_events.induct)
  case (1 toplevel subs cs)
  show ?case using texts_at_append [OF 1, where es' = "map Content cs"] by (simp add: texts_at_contents)
next
  case (3 toplevel name submodule subs)
  show ?case using texts_at_append [OF 3(1) [of "path @ [name]"], where es' = "Close # submodule_events toplevel subs"] 3(2) [of path]
    by simp
qed simp

end
