(* ===== verification/Rust_Function.thy ===== *)
theory Rust_Function
  imports Rust_Backend Rust_Modules
begin

text \<open>
  What the Rust generator writes for the functions of a world (\<open>crates/rust/src/interface.rs\<close>): their
  signatures, the wrappers of imports and exports around the bodies that \<open>abi::call\<close> generates, and
  the tables of the payloads of futures and streams.
\<close>

section \<open>Printing\<close>

definition print_pieces :: "string list \<Rightarrow> ('z, 'a) iface_gen step" where
  "print_pieces ps g = Inr (g\<lparr>ig_src := push_pieces ps (ig_src g)\<rparr>)"

definition print_in_mode :: "('z, 'a) rust_cx \<Rightarrow> ('z, 'a) printer" where
  "print_in_mode cx t mode = print_ty cx (rc_fuel cx) t mode"

definition rustdoc :: "string option \<Rightarrow> ('z, 'a) iface_gen step" where
  "rustdoc docs =
     (case docs of
        None \<Rightarrow> Inr
      | Some docs \<Rightarrow>
          for_each (str_lines (trim docs)) (\<lambda>line.
            seq [print_text ''///'', if line \<noteq> [] then seq [print_text '' '', print_text line] else Inr,
              print_text nl]))"

text \<open>
  \<open>FnSig\<close>; nothing sets its fields \<open>unsafe_\<close> and \<open>generics\<close>.
\<close>

record fn_sig =
  fs_async :: bool
  fs_unsafe :: bool
  fs_private :: bool
  fs_use_item_name :: bool
  fs_generics :: "string option"
  fs_self_arg :: "string option"
  fs_self_is_first_param :: bool

definition fn_sig_default :: fn_sig where
  "fn_sig_default =
     \<lparr>fs_async = False, fs_unsafe = False, fs_private = False, fs_use_item_name = False, fs_generics = None,
      fs_self_arg = None, fs_self_is_first_param = False\<rparr>"

definition update_for_func :: "func \<Rightarrow> fn_sig \<Rightarrow> fn_sig" where
  "update_for_func f sig =
     (if is_method f then sig\<lparr>fs_self_arg := Some ''&self'', fs_self_is_first_param := True\<rparr> else sig)"

section \<open>Signatures\<close>

definition param_style :: "rust_opts \<Rightarrow> bool \<Rightarrow> ownership_style" where
  "param_style opts params_owned =
     (if params_owned then StyleOwned
      else case op_ownership opts of Owning \<Rightarrow> StyleOnlyTopBorrowed | Borrowing _ \<Rightarrow> StyleBorrowed)"

text \<open>The loop over the parameters: what is printed, and the expressions that stand for them.\<close>

fun print_params ::
    "('z, 'a) rust_cx \<Rightarrow> bool \<Rightarrow> fn_sig \<Rightarrow> nat \<Rightarrow> (string \<times> ty) list \<Rightarrow> ('z, 'a) iface_gen
      \<Rightarrow> (string list \<times> ('z, 'a) iface_gen) res" where
  "print_params cx params_owned sig i [] g = Inr ([], g)"
| "print_params cx params_owned sig i ((name, t) # ps) g =
     (if i = 0 \<and> fs_self_is_first_param sig then
        and_then (print_params cx params_owned sig (Suc i) ps g) (\<lambda>(params, g). Inr (''self'' # params, g))
      else
        (let name = to_rust_ident (rc_env cx) name; style = param_style (rc_opts cx) params_owned in
         and_then (type_mode_for cx t style elided) (\<lambda>mode.
           and_then (seq [print_text name, print_text '': '', print_in_mode cx t mode, print_text '',''] g) (\<lambda>g.
             and_then
               (if tm_style mode = style then Inr name
                else if style = StyleOwned then Inl Assert_Failed else Inr (''&'' @ name)) (\<lambda>param.
               and_then (print_params cx params_owned sig (Suc i) ps g) (\<lambda>(params, g). Inr (param # params, g)))))))"

definition print_docs_and_params ::
    "('z, 'a) rust_cx \<Rightarrow> func \<Rightarrow> bool \<Rightarrow> fn_sig \<Rightarrow> ('z, 'a) iface_gen \<Rightarrow> (string list \<times> ('z, 'a) iface_gen) res" where
  "print_docs_and_params cx f params_owned sig g =
     (let func_name =
        (if fs_use_item_name sig \<and> (case fn_kind f of Constructor _ \<Rightarrow> True | _ \<Rightarrow> False) then ''new''
         else re_item_name (rc_env cx) f) in
      and_then
        (seq [rustdoc (re_func_docs (rc_env cx) f), print_text (''#[allow(async_fn_in_trait)]'' @ nl),
           if fs_private sig then Inr else print_text ''pub '',
           if fs_unsafe sig then print_text ''unsafe '' else Inr,
           if fs_async sig then print_text ''async '' else Inr,
           print_text ''fn '', print_text (to_rust_ident (rc_env cx) func_name),
           (case fs_generics sig of Some generics \<Rightarrow> print_text generics | None \<Rightarrow> Inr),
           print_text ''('',
           (case fs_self_arg sig of Some arg \<Rightarrow> seq [print_text arg, print_text '',''] | None \<Rightarrow> Inr)] g)
        (\<lambda>g.
          and_then (print_params cx params_owned sig 0 (fn_params f) g) (\<lambda>(params, g).
            and_then (print_text '')'' g) (\<lambda>g. Inr (params, g)))))"

definition print_result_type :: "('z, 'a) rust_cx \<Rightarrow> ty option \<Rightarrow> ('z, 'a) iface_gen step" where
  "print_result_type cx result =
     (case result of
        None \<Rightarrow> print_text ''()''
      | Some t \<Rightarrow>
          with_res (type_mode_for cx t StyleOwned (CHR 0x27 # ''INVALID'')) (\<lambda>mode.
            if tm_lifetime mode = None then print_in_mode cx t mode else (\<lambda>g. Inl Assert_Failed)))"

definition print_return_type :: "('z, 'a) rust_cx \<Rightarrow> func \<Rightarrow> ('z, 'a) iface_gen step" where
  "print_return_type cx f =
     (case fn_kind f of
        Constructor i \<Rightarrow>
          with_res (classify_constructor_return_type (rc_resolve cx) (rc_fuel cx) i (fn_result f)) (\<lambda>t.
            case t of
              CtorSelf \<Rightarrow> print_text ''Self''
            | CtorResult err \<Rightarrow>
                seq [print_text ''Result<Self, '', print_result_type cx err, print_text ''> where Self: Sized''])
      | _ \<Rightarrow>
          if should_return_self (rc_opts cx) f then print_text ''&Self'' else print_result_type cx (fn_result f))"

definition print_signature ::
    "('z, 'a) rust_cx \<Rightarrow> func \<Rightarrow> bool \<Rightarrow> fn_sig \<Rightarrow> ('z, 'a) iface_gen \<Rightarrow> (string list \<times> ('z, 'a) iface_gen) res" where
  "print_signature cx f params_owned sig g =
     and_then (print_docs_and_params cx f params_owned sig g) (\<lambda>(params, g).
       and_then (seq [print_text '' -> '', print_return_type cx f] g) (\<lambda>g. Inr (params, g)))"

text \<open>Signatures of core functions: \<open>arg0: i32,arg1: ...\<close>.\<close>

fun print_args :: "nat \<Rightarrow> wasm_type list \<Rightarrow> ('z, 'a) iface_gen step" where
  "print_args i [] = Inr"
| "print_args i (t # ts) =
     seq [print_pieces [''arg'' @ decimal i, '': '', wasm_type_name t, '',''], print_args (Suc i) ts]"

definition arg_names :: "wasm_type list \<Rightarrow> string list" where
  "arg_names ts = map (\<lambda>i. ''arg'' @ decimal i) [0..<length ts]"

definition export_variant :: "bool \<Rightarrow> abi_variant" where
  "export_variant async = (if async then GuestExportAsync else GuestExport)"

definition print_export_sig ::
    "('z, 'a) wit_env \<Rightarrow> ('z, 'a) rust_cx \<Rightarrow> func \<Rightarrow> bool \<Rightarrow> ('z, 'a) iface_gen
      \<Rightarrow> (string list \<times> ('z, 'a) iface_gen) res" where
  "print_export_sig E cx f async g =
     (let sg = wasm_signature_of E (rc_resolve cx) (export_variant async) f in
      and_then
        (seq [print_text ''('', print_args 0 (sig_params sg), print_text '')'',
           (case sig_results sg of
              [] \<Rightarrow> Inr
            | [t] \<Rightarrow> print_pieces ['' -> '', wasm_type_name t]
            | _ \<Rightarrow> (\<lambda>g. Inl Todo_Code))] g)
        (\<lambda>g. Inr (arg_names (sig_params sg), g)))"

definition print_post_return_sig ::
    "('z, 'a) wit_env \<Rightarrow> ('z, 'a) rust_cx \<Rightarrow> func \<Rightarrow> ('z, 'a) iface_gen \<Rightarrow> (string list \<times> ('z, 'a) iface_gen) res" where
  "print_post_return_sig E cx f g =
     (let sg = wasm_signature_of E (rc_resolve cx) GuestExport f in
      and_then (seq [print_text ''('', print_args 0 (sig_results sg), print_text '') ''] g)
        (\<lambda>g. Inr (arg_names (sig_results sg), g)))"

section \<open>Running the ABI generator\<close>

text \<open>What \<open>abi::call\<close> is run on when the Rust generator calls it.\<close>

definition rust_ctx ::
    "('z, 'a) wit_env \<Rightarrow> ('z, 'a) rust_cx \<Rightarrow> (('z, 'a) function_bindgen res, string, 'z, 'a) ctx" where
  "rust_ctx E cx =
     \<lparr>cx_env = E, cx_bindgen = checked E ''()'' (rust_backend E cx), cx_resolve = rc_resolve cx\<rparr>"

text \<open>The state after a run; a panic of the backend is the panic of the whole.\<close>

definition settled :: "'x res res \<Rightarrow> 'x res" where
  "settled x = and_then x (\<lambda>s. s)"

definition bindgen_for ::
    "('z, 'a) rust_cx \<Rightarrow> string list \<Rightarrow> string \<Rightarrow> bool \<Rightarrow> bool \<Rightarrow> ('z, 'a) iface_gen
      \<Rightarrow> ('z, 'a) function_bindgen" where
  "bindgen_for cx params module always_owned return_self g =
     function_bindgen_new (re_size_default (rc_env cx)) (re_align_default (rc_env cx)) g params module always_owned
       return_self"

definition in_unsafe :: "('z, 'a) function_bindgen \<Rightarrow> string \<times> ('z, 'a) iface_gen" where
  "in_unsafe b = (''unsafe { '' @ src_text (fb_src b) @ '' }'', fb_gen b)"

definition rust_lower_to_memory ::
    "('z, 'a) wit_env \<Rightarrow> ('z, 'a) rust_cx \<Rightarrow> nat \<Rightarrow> string \<Rightarrow> string \<Rightarrow> ty \<Rightarrow> string \<Rightarrow> ('z, 'a) iface_gen
      \<Rightarrow> (string \<times> ('z, 'a) iface_gen) res" where
  "rust_lower_to_memory E cx n address val t module g =
     and_then (settled (lower_to_memory (rust_ctx E cx) n (Inr (bindgen_for cx [] module True False g)) address val t))
       (\<lambda>b. Inr (in_unsafe b))"

definition rust_deallocate_lists ::
    "('z, 'a) wit_env \<Rightarrow> ('z, 'a) rust_cx \<Rightarrow> nat \<Rightarrow> ty list \<Rightarrow> string list \<Rightarrow> bool \<Rightarrow> string \<Rightarrow> ('z, 'a) iface_gen
      \<Rightarrow> (string \<times> ('z, 'a) iface_gen) res" where
  "rust_deallocate_lists E cx n types operands indirect module g =
     and_then (settled (deallocate_lists_in_types (rust_ctx E cx) n types operands indirect
         (Inr (bindgen_for cx [] module True False g))))
       (\<lambda>b. Inr (in_unsafe b))"

definition rust_deallocate_lists_and_own ::
    "('z, 'a) wit_env \<Rightarrow> ('z, 'a) rust_cx \<Rightarrow> nat \<Rightarrow> ty list \<Rightarrow> string list \<Rightarrow> bool \<Rightarrow> string \<Rightarrow> ('z, 'a) iface_gen
      \<Rightarrow> (string \<times> ('z, 'a) iface_gen) res" where
  "rust_deallocate_lists_and_own E cx n types operands indirect module g =
     and_then (settled (deallocate_lists_and_own_in_types (rust_ctx E cx) n types operands indirect
         (Inr (bindgen_for cx [] module True False g))))
       (\<lambda>b. Inr (in_unsafe b))"

definition rust_lift_from_memory ::
    "('z, 'a) wit_env \<Rightarrow> ('z, 'a) rust_cx \<Rightarrow> nat \<Rightarrow> string \<Rightarrow> ty \<Rightarrow> string \<Rightarrow> ('z, 'a) iface_gen
      \<Rightarrow> (string \<times> ('z, 'a) iface_gen) res" where
  "rust_lift_from_memory E cx n address t module g =
     and_then (lift_from_memory (rust_ctx E cx) n (Inr (bindgen_for cx [] module True False g)) address t)
       (\<lambda>(s, result). and_then s (\<lambda>b.
         Inr (''unsafe { '' @ src_text (fb_src b) @ nl @ result @ '' }'', fb_gen b)))"

section \<open>Payloads of futures and streams\<close>

datatype payload_for = PayloadFuture | PayloadStream

definition payloads_of :: "payload_for \<Rightarrow> rust_wasm \<Rightarrow> (ty option \<times> string) list" where
  "payloads_of p w = (case p of PayloadFuture \<Rightarrow> rw_future_payloads w | PayloadStream \<Rightarrow> rw_stream_payloads w)"

definition add_payload :: "payload_for \<Rightarrow> ty option \<Rightarrow> string \<Rightarrow> rust_wasm \<Rightarrow> rust_wasm" where
  "add_payload p t code w =
     (case p of
        PayloadFuture \<Rightarrow> w\<lparr>rw_future_payloads := rw_future_payloads w @ [(t, code)]\<rparr>
      | PayloadStream \<Rightarrow> w\<lparr>rw_stream_payloads := rw_stream_payloads w @ [(t, code)]\<rparr>)"

text \<open>The key under which a payload is stored: the representative of its class, or the primitive it names.\<close>

definition canonical_payload ::
    "resolve \<Rightarrow> ty option \<Rightarrow> rust_wasm \<Rightarrow> (ty option \<times> rust_wasm) res" where
  "canonical_payload r t w =
     (case t of
        Some (TId i) \<Rightarrow>
          and_then (get_representative_type (rw_types w) i) (\<lambda>(d, types).
            and_then (type_at r d) (\<lambda>td.
              Inr (Some (case td_kind td of KType t \<Rightarrow> t | _ \<Rightarrow> TId d), w\<lparr>rw_types := types\<rparr>)))
      | t \<Rightarrow> Inr (t, w))"

definition alias_target :: "resolve \<Rightarrow> ty option \<Rightarrow> ty option res" where
  "alias_target r t =
     (case t of
        Some (TId i) \<Rightarrow> and_then (type_at r i) (\<lambda>td. Inr (Some (case td_kind td of KType t \<Rightarrow> t | _ \<Rightarrow> TId i)))
      | t \<Rightarrow> Inr t)"

definition vtable_code ::
    "payload_for \<Rightarrow> string \<Rightarrow> string \<Rightarrow> string \<Rightarrow> string \<Rightarrow> string \<Rightarrow> string \<Rightarrow> string \<Rightarrow> string \<Rightarrow> string \<Rightarrow> string
      \<Rightarrow> string \<Rightarrow> string \<Rightarrow> string \<Rightarrow> string \<Rightarrow> string" where
  \<open>vtable_code p ordinal module idx func_name async_support name sz al lift_fn lower_fn dealloc_lists_fn
      lift_arg lower_arg dealloc_lists_arg =
     (let import_prefix = (case p of PayloadFuture \<Rightarrow> ''future'' | PayloadStream \<Rightarrow> ''stream'');
          camel = (case p of PayloadFuture \<Rightarrow> ''Future'' | PayloadStream \<Rightarrow> ''Stream'');
          start_extra = (case p of PayloadFuture \<Rightarrow> [] | PayloadStream \<Rightarrow> '', _: usize'') in
      text_lines [
        '''',
        ''#[doc(hidden)]'',
        ''#[allow(unused_unsafe)]'',
        ''pub mod vtable'' @ ordinal @ '' {'',
        '''',
        ''    #[cfg(not(target_arch = "wasm32"))]'',
        ''    unsafe extern "C" fn cancel_write(_: u32) -> u32 { unreachable!() }'',
        ''    #[cfg(not(target_arch = "wasm32"))]'',
        ''    unsafe extern "C" fn cancel_read(_: u32) -> u32 { unreachable!() }'',
        ''    #[cfg(not(target_arch = "wasm32"))]'',
        ''    unsafe extern "C" fn drop_writable(_: u32) { unreachable!() }'',
        ''    #[cfg(not(target_arch = "wasm32"))]'',
        ''    unsafe extern "C" fn drop_readable(_: u32) { unreachable!() }'',
        ''    #[cfg(not(target_arch = "wasm32"))]'',
        ''    unsafe extern "C" fn new() -> u64 { unreachable!() }'',
        ''    #[cfg(not(target_arch = "wasm32"))]'',
        ''    unsafe extern "C" fn start_read(_: u32, _: *mut u8'' @ start_extra @ '') -> u32 { unreachable!() }'',
        ''    #[cfg(not(target_arch = "wasm32"))]'',
        ''    unsafe extern "C" fn start_write(_: u32, _: *const u8'' @ start_extra @ '') -> u32 { unreachable!() }'',
        '''',
        ''    #[cfg(target_arch = "wasm32")]'',
        ''    #[link(wasm_import_module = "'' @ module @ ''")]'',
        ''    unsafe extern "C" {'',
        ''        #[link_name = "['' @ import_prefix @ ''-new-'' @ idx @ '']'' @ func_name @ ''"]'',
        ''        fn new() -> u64;'',
        ''        #[link_name = "['' @ import_prefix @ ''-cancel-write-'' @ idx @ '']'' @ func_name @ ''"]'',
        ''        fn cancel_write(_: u32) -> u32;'',
        ''        #[link_name = "['' @ import_prefix @ ''-cancel-read-'' @ idx @ '']'' @ func_name @ ''"]'',
        ''        fn cancel_read(_: u32) -> u32;'',
        ''        #[link_name = "['' @ import_prefix @ ''-drop-writable-'' @ idx @ '']'' @ func_name @ ''"]'',
        ''        fn drop_writable(_: u32);'',
        ''        #[link_name = "['' @ import_prefix @ ''-drop-readable-'' @ idx @ '']'' @ func_name @ ''"]'',
        ''        fn drop_readable(_: u32);'',
        ''        #[link_name = "[async-lower]['' @ import_prefix @ ''-read-'' @ idx @ '']'' @ func_name @ ''"]'',
        ''        fn start_read(_: u32, _: *mut u8'' @ start_extra @ '') -> u32;'',
        ''        #[link_name = "[async-lower]['' @ import_prefix @ ''-write-'' @ idx @ '']'' @ func_name @ ''"]'',
        ''        fn start_write(_: u32, _: *const u8'' @ start_extra @ '') -> u32;'',
        ''    }'',
        '''',
        ''    '' @ lift_fn,
        ''    '' @ lower_fn,
        ''    '' @ dealloc_lists_fn,
        '''',
        ''    pub static VTABLE: '' @ async_support @ ''::'' @ camel @ ''Vtable<'' @ name @ ''> = '' @ async_support @ ''::'' @ camel @ ''Vtable::<'' @ name @ ''> {'',
        ''        cancel_write,'',
        ''        cancel_read,'',
        ''        drop_writable,'',
        ''        drop_readable,'',
        ''        '' @ dealloc_lists_arg @ '','',
        ''        layout: unsafe {'',
        spaces 12 @ ''::core::alloc::Layout::from_size_align_unchecked('' @ sz @ '', '' @ al @ '')'',
        ''        },'',
        ''        '' @ lift_arg @ '','',
        ''        '' @ lower_arg @ '','',
        ''        new,'',
        ''        start_read,'',
        ''        start_write,'',
        ''    };'',
        '''',
        ''    impl super::'' @ camel @ ''Payload for '' @ name @ '' {'',
        ''        const VTABLE: &'static '' @ async_support @ ''::'' @ camel @ ''Vtable<Self> = &VTABLE;'',
        ''    }'',
        ''}'',
        spaces 24])\<close>

text \<open>The three functions of the table and how the table refers to them; a stream of plain bytes has none.\<close>

definition vtable_functions ::
    "payload_for \<Rightarrow> bool \<Rightarrow> string \<Rightarrow> string \<Rightarrow> string \<Rightarrow> string \<Rightarrow> (string \<times> string \<times> string) \<times> string \<times> string \<times> string" where
  "vtable_functions p canonical name lft low dealloc_lists =
     (let fns =
        (''unsafe fn lift(ptr: *mut u8) -> '' @ name @ '' { '' @ lft @ '' }'',
         ''unsafe fn lower(value: '' @ name @ '', ptr: *mut u8) { '' @ low @ '' }'',
         ''unsafe fn dealloc_lists(ptr: *mut u8) { '' @ dealloc_lists @ '' }'') in
      case p of
        PayloadFuture \<Rightarrow> (fns, ''lift'', ''lower'', ''dealloc_lists'')
      | PayloadStream \<Rightarrow>
          if canonical then (([], [], []), ''lift: None'', ''lower: None'', ''dealloc_lists: None'')
          else (fns, ''lift: Some(lift)'', ''lower: Some(lower)'', ''dealloc_lists: Some(dealloc_lists)''))"

definition payload_bodies ::
    "('z, 'a) wit_env \<Rightarrow> ('z, 'a) rust_cx \<Rightarrow> nat \<Rightarrow> string \<Rightarrow> ty option \<Rightarrow> ('z, 'a) iface_gen
      \<Rightarrow> ((string \<times> string \<times> string) \<times> ('z, 'a) iface_gen) res" where
  "payload_bodies E cx n module t g =
     (case t of
        Some t \<Rightarrow>
          and_then (rust_lift_from_memory E cx n ''ptr'' t module g) (\<lambda>(lft, g).
            and_then (rust_deallocate_lists E cx n [t] [''ptr''] True module g) (\<lambda>(dealloc_lists, g).
              and_then (rust_lower_to_memory E cx n ''ptr'' ''value'' t module g) (\<lambda>(low, g).
                Inr ((lft, low, dealloc_lists), g))))
      | None \<Rightarrow> Inr ((''let _ = ptr;'', ''let _ = (ptr, value);'', ''let _ = ptr;''), g))"

definition generate_payload ::
    "('z, 'a) wit_env \<Rightarrow> ('z, 'a) rust_cx \<Rightarrow> nat \<Rightarrow> payload_for \<Rightarrow> string \<Rightarrow> nat \<Rightarrow> string \<Rightarrow> ty option
      \<Rightarrow> ('z, 'a) iface_gen step" where
  "generate_payload E cx n p module idx func_name payload_type g =
     and_then (canonical_payload (rc_resolve cx) payload_type (ig_gen g)) (\<lambda>(key, w).
       let g = g\<lparr>ig_gen := w\<rparr> in
       if key \<in> fst ` set (payloads_of p w) then Inr g
       else
         and_then (alias_target (rc_resolve cx) payload_type) (\<lambda>t.
           and_then (case t of Some t \<Rightarrow> type_name_owned cx t g | None \<Rightarrow> Inr (''()'', g)) (\<lambda>(name, g).
             let ordinal = length (payloads_of p (ig_gen g)); RE = rc_env cx;
                 (sz, al) = (case t of Some t \<Rightarrow> (sa_size (rc_sizes cx) t, sa_align (rc_sizes cx) t)
                             | None \<Rightarrow> (re_size_default RE, re_align_default RE)) in
             and_then (payload_bodies E cx n module t g) (\<lambda>((lft, low, dealloc_lists), g).
               and_then
                 (case (p, t) of (PayloadStream, Some t) \<Rightarrow> rust_is_list_canonical cx t | _ \<Rightarrow> Inr True)
                 (\<lambda>canonical.
                   let ((lift_fn, lower_fn, dealloc_fn), lift_arg, lower_arg, dealloc_arg) =
                         vtable_functions p canonical name lft low dealloc_lists;
                       code = vtable_code p (decimal ordinal) module (decimal idx) func_name
                         (async_support_path (rc_opts cx)) name (decimal (re_size_wasm32 RE sz))
                         (decimal (re_align_wasm32 RE al)) lift_fn lower_fn dealloc_fn lift_arg lower_arg dealloc_arg in
                   Inr (g\<lparr>ig_gen := add_payload p key code (ig_gen g)\<rparr>))))))"

text \<open>The types are named from inside the module of the payloads.\<close>

definition generate_payloads ::
    "('z, 'a) wit_env \<Rightarrow> ('z, 'a) rust_cx \<Rightarrow> nat \<Rightarrow> string \<Rightarrow> func \<Rightarrow> world_key option \<Rightarrow> ('z, 'a) iface_gen step" where
  "generate_payloads E cx n prefix f interface =
     (let cx = cx\<lparr>rc_identifier := IdPayload\<rparr>; RE = rc_env cx; r = rc_resolve cx;
          module = prefix @ (case interface of Some key \<Rightarrow> re_name_world_key RE r key | None \<Rightarrow> ''$root'') in
      for_each (enumerate 0 (re_futures_and_streams RE r f)) (\<lambda>(idx, i).
        with_type_of cx i (\<lambda>td.
          case td_kind td of
            KFuture t \<Rightarrow> generate_payload E cx n PayloadFuture module idx (fn_name f) t
          | KStream t \<Rightarrow> generate_payload E cx n PayloadStream module idx (fn_name f) t
          | _ \<Rightarrow> (\<lambda>g. Inl Unreachable_Code))))"

section \<open>Imports\<close>

definition align_area :: "('z, 'a) rust_cx \<Rightarrow> 'a \<Rightarrow> ('z, 'a) iface_gen step" where
  \<open>align_area cx alignment =
     (case re_align_bytes (rc_env cx) alignment of
        None \<Rightarrow> print_pieces [
          text_lines [''#[cfg_attr(target_pointer_width="64", repr(align(8)))]'', spaces 20 @ ''#[cfg_attr(target_pointer_width="32", repr(align(4)))]'', '''']]
      | Some bytes \<Rightarrow> print_pieces [''#[repr(align('', decimal bytes, ''))]'' @ nl])\<close>

definition import_return_area :: "('z, 'a) rust_cx \<Rightarrow> ('z, 'a) function_bindgen \<Rightarrow> ('z, 'a) iface_gen step" where
  "import_return_area cx b =
     (let sz = fb_import_return_pointer_area_size b;
          import_return_pointer_area_size = re_size_format_term (rc_env cx) sz in
      if re_size_is_empty (rc_env cx) sz then Inr
      else
        seq [print_pieces [nl], align_area cx (fb_import_return_pointer_area_align b),
          print_pieces [
            ''struct RetArea([::core::mem::MaybeUninit::<u8>; '',
            import_return_pointer_area_size,
            text_lines ['']);'', spaces 20 @ ''let mut ret_area = RetArea([::core::mem::MaybeUninit::uninit(); ''],
            import_return_pointer_area_size,
            '']);'' @ nl]])"

definition import_body_sync ::
    "('z, 'a) wit_env \<Rightarrow> ('z, 'a) rust_cx \<Rightarrow> nat \<Rightarrow> func \<Rightarrow> string list \<Rightarrow> ('z, 'a) iface_gen step" where
  "import_body_sync E cx n f params g =
     and_then (settled (call (rust_ctx E cx) n GuestImport LowerArgsLiftResults f
         (Inr (bindgen_for cx params (rc_wasm_import_module cx) False (should_return_self (rc_opts cx) f) g)) False))
       (\<lambda>b.
         seq [
           (if fb_needs_cleanup_list b then
              (\<lambda>g. let (vec, g) = path_to_vec cx g in
                print_pieces [''let mut cleanup_list = '', vec, ''::new();'' @ nl] g)
            else Inr),
           check (fb_handle_decls b = []) Assert_Failed,
           import_return_area cx b,
           print_text (src_text (fb_src b))] (fb_gen b))"

subsection \<open>Asynchronous imports\<close>

definition async_types ::
    "('z, 'a) rust_cx \<Rightarrow> func \<Rightarrow> wasm_type list \<Rightarrow> ('z, 'a) iface_gen step" where
  \<open>async_types cx f params_lower =
     (let async_support = async_support_path (rc_opts cx) in
      seq [
        print_pieces [
          text_lines ['''', ''#[derive(Copy, Clone)]'', ''struct ParamsLower('', spaces 12]],
        for_each params_lower (\<lambda>t. seq [print_text (wasm_type_name t), print_text '', '']),
        print_pieces [
          text_lines ['''', '');'', ''unsafe impl Send for ParamsLower {}'', spaces 12, '''']],
        print_pieces [
          text_lines ['''', ''use ''],
          async_support,
          text_lines [''::Subtask as _Subtask;'', ''struct _MySubtask<'a> { _unused: core::marker::PhantomData<&'a ()> }'', ''#[allow(unused_parens)]'', ''unsafe impl<'a> _Subtask for _MySubtask<'a> {'', spaces 12, '''']],
        print_pieces [''type Params = (''],
        for_each (param_types f) (\<lambda>t.
          seq [with_res (type_mode_for cx t StyleOwned (CHR 0x27 # ''a'')) (print_in_mode cx t), print_text '', '']),
        print_pieces ['');'' @ nl],
        (case fn_result f of
           Some t \<Rightarrow> seq [print_pieces [''type Results = ''], print_in_mode cx t owned_mode, print_pieces ['';'' @ nl]]
         | None \<Rightarrow> print_pieces [''type Results = ();'' @ nl]),
        print_pieces [''type ParamsLower = ParamsLower;'']])\<close>

definition heap_types :: "wasm_signature \<Rightarrow> func \<Rightarrow> ty list" where
  "heap_types sg f = (if sig_indirect_params sg then param_types f else []) @ option_list (fn_result f)"

definition async_layout ::
    "('z, 'a) rust_cx \<Rightarrow> func \<Rightarrow> wasm_signature \<Rightarrow> ('z, 'a) iface_gen step" where
  "async_layout cx f sg =
     (let RE = rc_env cx; (sz, al) = sa_record (rc_sizes cx) (heap_types sg f);
          offsets = sa_field_offsets (rc_sizes cx) (heap_types sg f) in
      seq [
        print_pieces [
          text_lines [
            '''', ''fn abi_layout(&mut self) -> ::core::alloc::Layout {'', ''    unsafe {'',
            ''        ::core::alloc::Layout::from_size_align_unchecked(''],
          re_size_format RE sz, '', '', re_align_format RE al,
          text_lines ['')'', ''    }'', ''}'', spaces 12, '''']],
        with_res
          (case fn_result f of
             Some _ \<Rightarrow> if offsets = [] then Inl Unwrap_None else Inr (re_size_format RE (fst (last offsets)))
           | None \<Rightarrow> Inr ''0'')
          (\<lambda>offset. print_pieces [''fn results_offset(&mut self) -> usize { '', offset, '' }'' @ nl])])"

definition async_call_import ::
    "('z, 'a) rust_cx \<Rightarrow> func \<Rightarrow> wasm_signature \<Rightarrow> nat \<Rightarrow> ('z, 'a) iface_gen step" where
  \<open>async_call_import cx f sg len =
     with_res (declare_import (rc_wasm_import_module cx) (''[async-lower]'' @ fn_name f) ''call'' (sig_params sg)
         (sig_results sg)) (\<lambda>intrinsic.
       let args = concat (map (\<lambda>i. ''_params.'' @ decimal i @ '','') [0..<len]) @
             (if fn_result f \<noteq> None then ''_results'' else []) in
       print_pieces [
         text_lines ['''', ''unsafe fn call_import(&mut self, _params: Self::ParamsLower, _results: *mut u8) -> u32 {'', ''    ''],
         intrinsic,
         text_lines ['''', ''    unsafe { call(''],
         args,
         text_lines ['') as u32 }'', ''}'', spaces 12, '''']])\<close>

text \<open>\<open>lowers\<close> and \<open>param_lowers\<close> when the parameters are passed through memory.\<close>

fun lower_indirect ::
    "('z, 'a) wit_env \<Rightarrow> ('z, 'a) rust_cx \<Rightarrow> nat \<Rightarrow> nat \<Rightarrow> ('z \<times> ty) list \<Rightarrow> ('z, 'a) iface_gen
      \<Rightarrow> ((string list \<times> string list) \<times> ('z, 'a) iface_gen) res" where
  "lower_indirect E cx n i [] g = Inr (([''ParamsLower(_ptr,)''], []), g)"
| "lower_indirect E cx n i ((offset, t) # ps) g =
     (let name = ''_lower'' @ decimal i;
          start = ''let _param_ptr = unsafe { _ptr.add('' @ re_size_format (rc_env cx) offset @ '') };'' @ nl in
      and_then (rust_lower_to_memory E cx n ''_param_ptr'' name t (rc_wasm_import_module cx) g) (\<lambda>(low, g).
        and_then (lower_indirect E cx n (Suc i) ps g) (\<lambda>((lowers, names), g).
          Inr (((start @ low) # lowers, name # names), g))))"

text \<open>The flat values of all parameters, when they are passed directly.\<close>

fun lower_direct ::
    "('z, 'a) wit_env \<Rightarrow> ('z, 'a) rust_cx \<Rightarrow> nat \<Rightarrow> nat \<Rightarrow> ty list \<Rightarrow> ('z, 'a) function_bindgen
      \<Rightarrow> (string list \<times> ('z, 'a) function_bindgen) res" where
  "lower_direct E cx n i [] b = Inr ([], b)"
| "lower_direct E cx n i (t # ts) b =
     and_then (lower_flat (rust_ctx E cx) n (Inr b) (''_lower'' @ decimal i) t) (\<lambda>(s, results).
       and_then s (\<lambda>b.
         and_then (lower_direct E cx n (Suc i) ts b) (\<lambda>(more_results, b). Inr (results @ more_results, b))))"

definition async_lowers ::
    "('z, 'a) wit_env \<Rightarrow> ('z, 'a) rust_cx \<Rightarrow> nat \<Rightarrow> func \<Rightarrow> wasm_signature \<Rightarrow> ('z, 'a) iface_gen
      \<Rightarrow> ((string list \<times> string list) \<times> ('z, 'a) iface_gen) res" where
  "async_lowers E cx n f sg g =
     (if sig_indirect_params sg then
        lower_indirect E cx n 0 (sa_field_offsets (rc_sizes cx) (param_types f)) g
      else
        and_then (lower_direct E cx n 0 (param_types f) (bindgen_for cx [] (rc_wasm_import_module cx) True False g))
          (\<lambda>(results, b).
            let result = ''ParamsLower('' @ join '' '' (map (\<lambda>x. x @ '','') results) @ '')'' in
            Inr (([''unsafe { '' @ src_text (fb_src b) @ '' '' @ result @ '' }''],
              map (\<lambda>i. ''_lower'' @ decimal i) [0..<length (fn_params f)]), fb_gen b)))"

definition import_body_async ::
    "('z, 'a) wit_env \<Rightarrow> ('z, 'a) rust_cx \<Rightarrow> nat \<Rightarrow> func \<Rightarrow> string list \<Rightarrow> ('z, 'a) iface_gen step" where
  "import_body_async E cx n f params g =
     (let sg = wasm_signature_of E (rc_resolve cx) GuestImportAsync f; module = rc_wasm_import_module cx in
      and_then
        (if \<not> sig_retptr sg then Inr (sig_params sg)
         else if sig_params sg = [] then Inl Sub_Overflow else Inr (butlast (sig_params sg)))
        (\<lambda>params_lower.
          let operands = map (\<lambda>i. ''_params.'' @ decimal i) [0..<length params_lower] in
          and_then
            (seq [async_types cx f params_lower, async_layout cx f sg,
               async_call_import cx f sg (length params_lower)] g) (\<lambda>g.
          and_then (rust_deallocate_lists E cx n (param_types f) operands (sig_indirect_params sg) module g)
            (\<lambda>(dealloc_lists, g).
          and_then
            (seq [
               print_pieces
                 [''unsafe fn params_dealloc_lists(&mut self, _params: Self::ParamsLower) {'' @ nl],
               print_pieces [dealloc_lists, nl], print_pieces [''}'' @ nl]] g) (\<lambda>g.
          and_then (rust_deallocate_lists_and_own E cx n (param_types f) operands (sig_indirect_params sg) module g)
            (\<lambda>(dealloc_lists_and_own, g).
          and_then
            (seq [
               print_pieces
                 [''unsafe fn params_dealloc_lists_and_own(&mut self, _params: Self::ParamsLower) {'' @ nl],
               print_pieces [dealloc_lists_and_own, nl], print_pieces [''}'' @ nl]] g) (\<lambda>g.
          and_then (async_lowers E cx n f sg g) (\<lambda>((lowers, param_lowers), g).
          and_then
            (seq [
               print_pieces
                 [''unsafe fn params_lower(&mut self, ('', join '' '' (map (\<lambda>p. p @ '','') param_lowers),
                  ''): Self::Params, _ptr: *mut u8) -> Self::ParamsLower {'' @ nl],
               for_each lowers (\<lambda>low. print_pieces [low, nl]), print_pieces [''}'' @ nl]] g) (\<lambda>g.
          and_then
            (case fn_result f of
               Some t \<Rightarrow> rust_lift_from_memory E cx n ''_ptr'' t module g
             | None \<Rightarrow> Inr ([], g)) (\<lambda>(lft, g).
          seq [
            print_pieces [''unsafe fn results_lift(&mut self, _ptr: *mut u8) -> Self::Results {'' @ nl],
            print_pieces [lft, nl], print_pieces [''}'' @ nl], print_pieces [''}'' @ nl],
            print_pieces
              [''_MySubtask { _unused: core::marker::PhantomData }.call(('', join '' '' (map (\<lambda>p. p @ '','') params),
               '')).await'', (if should_return_self (rc_opts cx) f then '';'' @ nl @ ''self'' else []), nl]] g))))))))))"

text \<open>\<open>InterfaceGenerator::is_async\<close> asks the options of the generator, which remember the question.\<close>

definition ask_async ::
    "('z, 'a) rust_cx \<Rightarrow> world_key option \<Rightarrow> func \<Rightarrow> bool \<Rightarrow> ('z, 'a) iface_gen \<Rightarrow> bool \<times> ('z, 'a) iface_gen" where
  "ask_async cx interface f is_import g =
     (let w = ig_gen g;
          (async, S) = is_async (re_name_world_key (rc_env cx) (rc_resolve cx)) interface f is_import (rw_async w) in
      (async, g\<lparr>ig_gen := w\<lparr>rw_async := S\<rparr>\<rparr>))"

text \<open>The \<open>impl\<close> block around a function of a resource.\<close>

definition import_impl ::
    "('z, 'a) rust_cx \<Rightarrow> func \<Rightarrow> fn_sig \<Rightarrow> ('z, 'a) iface_gen \<Rightarrow> (fn_sig \<times> ('z, 'a) iface_gen) res" where
  "import_impl cx f sig g =
     (case re_resource (rc_env cx) (fn_kind f) of
        None \<Rightarrow> Inr (sig, g)
      | Some i \<Rightarrow>
          and_then (type_at (rc_resolve cx) i) (\<lambda>td.
            and_then (unwrap (td_name td)) (\<lambda>name.
              and_then (print_pieces [''impl '', to_upper_camel_case (rc_env cx) name, '' {'' @ nl] g) (\<lambda>g.
                Inr (update_for_func f (sig\<lparr>fs_use_item_name := True\<rparr>), g)))))"

definition generate_guest_import ::
    "('z, 'a) wit_env \<Rightarrow> ('z, 'a) rust_cx \<Rightarrow> nat \<Rightarrow> func \<Rightarrow> world_key option \<Rightarrow> ('z, 'a) iface_gen step" where
  "generate_guest_import E cx n f interface g =
     (if fn_name f \<in> rw_skip (ig_gen g) then Inr g
      else
        and_then (generate_payloads E cx n [] f interface g) (\<lambda>g.
          let (async, g) = ask_async cx interface f True g in
          and_then (import_impl cx f (fn_sig_default\<lparr>fs_async := async\<rparr>) g) (\<lambda>(sig, g).
          and_then (print_text (''#[allow(unused_unsafe, clippy::all)]'' @ nl) g) (\<lambda>g.
          and_then (print_signature cx f async sig g) (\<lambda>(params, g).
          seq [print_text (''{'' @ nl), print_text (''unsafe {'' @ nl),
            if async then import_body_async E cx n f params else import_body_sync E cx n f params,
            print_text (''}'' @ nl), print_text (''}'' @ nl),
            if re_resource (rc_env cx) (fn_kind f) \<noteq> None then print_text (''}'' @ nl) else Inr] g)))))"

definition generate_imports ::
    "('z, 'a) wit_env \<Rightarrow> ('z, 'a) rust_cx \<Rightarrow> nat \<Rightarrow> func list \<Rightarrow> world_key option \<Rightarrow> ('z, 'a) iface_gen step" where
  "generate_imports E cx n fs interface = for_each fs (\<lambda>f. generate_guest_import E cx n f interface)"

section \<open>Exports\<close>

definition path_to_run_ctors_once ::
    "('z, 'a) rust_cx \<Rightarrow> ('z, 'a) iface_gen \<Rightarrow> string \<times> ('z, 'a) iface_gen" where
  "path_to_run_ctors_once cx g = path_from_runtime_module cx RunCtorsOnce ''run_ctors_once'' g"

definition path_to_box :: "('z, 'a) rust_cx \<Rightarrow> ('z, 'a) iface_gen \<Rightarrow> string \<times> ('z, 'a) iface_gen" where
  "path_to_box cx g = path_from_runtime_module cx BoxType ''Box'' g"

definition name_snake_of :: "('z, 'a) rust_cx \<Rightarrow> func \<Rightarrow> string" where
  "name_snake_of cx f = replace_char CHR ''.'' CHR ''_'' (re_snake (rc_env cx) (fn_name f))"

definition run_ctors_call :: "('z, 'a) rust_cx \<Rightarrow> ('z, 'a) iface_gen step" where
  \<open>run_ctors_call cx g =
     (if op_disable_run_ctors_once_workaround (rc_opts cx) then Inr g
      else
        (let (run_ctors_once, g) = path_to_run_ctors_once cx g in
         print_pieces [''#[cfg(target_arch="wasm32")]'' @ nl, run_ctors_once, ''();''] g))\<close>

definition export_body ::
    "('z, 'a) wit_env \<Rightarrow> ('z, 'a) rust_cx \<Rightarrow> nat \<Rightarrow> func \<Rightarrow> bool \<Rightarrow> string list \<Rightarrow> ('z, 'a) iface_gen step" where
  "export_body E cx n f async params g =
     and_then (settled (call (rust_ctx E cx) n (export_variant async) LiftArgsLowerResults f
         (Inr (bindgen_for cx params (rc_wasm_import_module cx) False False g)) async))
       (\<lambda>b.
         let async_support = async_support_path (rc_opts cx) in
         seq [
           (if async then
              seq [
                print_pieces [async_support, ''::start_task(async move {'' @ nl],
                print_pieces [''let _task_cancel = '', async_support, ''::TaskCancelOnDrop::new();'' @ nl],
                if fb_needs_cleanup_list b then
                  (\<lambda>g. let (vec, g) = path_to_vec cx g in
                    print_pieces [''let mut cleanup_list = '', vec, ''::new();'' @ nl] g)
                else Inr]
            else check (\<not> fb_needs_cleanup_list b) Assert_Failed),
           for_each (fb_handle_decls b) (\<lambda>decl. seq [print_text decl, print_text nl]),
           print_text (src_text (fb_src b)),
           (if async then print_pieces [''})'' @ nl] else Inr),
           print_text (''} }'' @ nl)] (fb_gen b))"

definition export_callback :: "('z, 'a) rust_cx \<Rightarrow> string \<Rightarrow> ('z, 'a) iface_gen step" where
  "export_callback cx name_snake =
     (let async_support = async_support_path (rc_opts cx) in
      print_pieces [
        text_lines [''#[doc(hidden)]'', spaces 20 @ ''#[allow(non_snake_case)]'', spaces 20 @ ''pub unsafe fn __callback_''],
        name_snake,
        text_lines [''(event0: u32, event1: u32, event2: u32) -> u32 {'', spaces 24 @ ''unsafe {'', spaces 28],
        async_support,
        text_lines [''::callback(event0, event1, event2)'', spaces 24 @ ''}'', spaces 20 @ ''}'', spaces 16]])"

definition export_post_return ::
    "('z, 'a) wit_env \<Rightarrow> ('z, 'a) rust_cx \<Rightarrow> nat \<Rightarrow> func \<Rightarrow> string \<Rightarrow> string \<Rightarrow> ('z, 'a) iface_gen step" where
  "export_post_return E cx n f name_snake trait_name g =
     and_then
       (print_pieces [
          text_lines [''#[doc(hidden)]'', spaces 20 @ ''#[allow(non_snake_case)]'', spaces 20 @ ''pub unsafe fn __post_return_''],
          name_snake,
          ''<T_: '',
          trait_name,
          ''>''] g) (\<lambda>g.
     and_then (print_post_return_sig E cx f g) (\<lambda>(params, g).
     and_then (print_text (''{ unsafe {'' @ nl) g) (\<lambda>g.
     and_then (settled (post_return (rust_ctx E cx) n f
         (Inr (bindgen_for cx params (rc_wasm_import_module cx) False False g)))) (\<lambda>b.
     seq [check (\<not> fb_needs_cleanup_list b) Assert_Failed, check (fb_handle_decls b = []) Assert_Failed,
       print_text (src_text (fb_src b)), print_text (''} }'' @ nl)] (fb_gen b)))))"

definition generate_guest_export ::
    "('z, 'a) wit_env \<Rightarrow> ('z, 'a) rust_cx \<Rightarrow> nat \<Rightarrow> func \<Rightarrow> world_key option \<Rightarrow> string \<Rightarrow> bool \<Rightarrow> ('z, 'a) iface_gen step" where
  "generate_guest_export E cx n f interface trait_name async g =
     (let name_snake = name_snake_of cx f in
      and_then (generate_payloads E cx n ''[export]'' f interface g) (\<lambda>g.
      and_then
        (print_pieces [
           text_lines [''#[doc(hidden)]'', spaces 16 @ ''#[allow(non_snake_case, unused_unsafe)]'', spaces 16 @ ''pub unsafe fn _export_''],
           name_snake,
           ''_cabi<T_: '',
           trait_name,
           ''>''] g) (\<lambda>g.
      and_then (print_export_sig E cx f async g) (\<lambda>(params, g).
      and_then
        (seq [print_text '' { unsafe {'', run_ctors_call cx, export_body E cx n f async params] g) (\<lambda>g.
      if async then export_callback cx name_snake g
      else
        and_then (guest_export_needs_post_return (rc_resolve cx) n f) (\<lambda>needed.
          if needed then export_post_return E cx n f name_snake trait_name g else Inr g))))))"

definition generate_raw_cabi_export ::
    "('z, 'a) wit_env \<Rightarrow> ('z, 'a) rust_cx \<Rightarrow> nat \<Rightarrow> func \<Rightarrow> string \<Rightarrow> string \<Rightarrow> bool \<Rightarrow> ('z, 'a) iface_gen step" where
  \<open>generate_raw_cabi_export E cx n f ty path_to_self async g =
     (let name_snake = name_snake_of cx f;
          export_prefix = (case op_export_prefix (rc_opts cx) of Some p \<Rightarrow> p | None \<Rightarrow> []) in
      and_then
        (case rc_identifier cx of
           IdInterface _ key \<Rightarrow> Inr (Some (re_name_world_key (rc_env cx) (rc_resolve cx) key))
         | IdWorld _ \<Rightarrow> Inr None
         | IdPayload \<Rightarrow> Inl Unreachable_Code) (\<lambda>module.
      let export_name = (if async then ''[async-lift]'' else []) @ re_core_export_name (rc_env cx) f module in
      and_then
        (print_pieces [
           ''#[unsafe(export_name = "'',
           export_prefix,
           export_name,
           text_lines [''")]'', spaces 16 @ ''unsafe extern "C" fn export_''],
           name_snake] g) (\<lambda>g.
      and_then (print_export_sig E cx f async g) (\<lambda>(params, g).
      and_then
        (seq [print_text ('' {'' @ nl),
           print_pieces [''unsafe { '', path_to_self, ''::_export_'', name_snake, ''_cabi::<'', ty, ''>('',
             join '', '' params, '') }'' @ nl],
           print_text (''}'' @ nl)] g) (\<lambda>g.
      if async then
        print_pieces [
          ''#[unsafe(export_name = "'',
          export_prefix,
          ''[callback]'',
          export_name,
          text_lines [''")]'', spaces 20 @ ''unsafe extern "C" fn _callback_''],
          name_snake,
          text_lines [''(event0: u32, event1: u32, event2: u32) -> u32 {'', spaces 24 @ ''unsafe {'', spaces 28],
          path_to_self,
          ''::__callback_'',
          name_snake,
          text_lines [''(event0, event1, event2)'', spaces 24 @ ''}'', spaces 20 @ ''}'', spaces 16]] g
      else
        and_then (guest_export_needs_post_return (rc_resolve cx) n f) (\<lambda>needed.
          if \<not> needed then Inr g
          else
            and_then
              (print_pieces [
                 ''#[unsafe(export_name = "'',
                 export_prefix,
                 ''cabi_post_'',
                 export_name,
                 text_lines [''")]'', spaces 20 @ ''unsafe extern "C" fn _post_return_''],
                 name_snake] g) (\<lambda>g.
            and_then (print_post_return_sig E cx f g) (\<lambda>(params, g).
            seq [print_text (''{'' @ nl),
              print_pieces [''unsafe { '', path_to_self, ''::__post_return_'', name_snake, ''::<'', ty, ''>('',
                join '', '' params, '') }'' @ nl],
              print_text (''}'' @ nl)] g))))))))\<close>

subsection \<open>Traits\<close>

text \<open>The resources that an interface defines, in the order of its types.\<close>

fun resource_types :: "resolve \<Rightarrow> (string \<times> tid) list \<Rightarrow> (string \<times> tid) list res" where
  "resource_types r [] = Inr []"
| "resource_types r ((name, i) # ts) =
     and_then (type_at r i) (\<lambda>td.
       and_then (resource_types r ts) (\<lambda>rest.
         Inr (if td_kind td = KResource then (name, i) # rest else rest)))"

definition resource_camel :: "('z, 'a) rust_cx \<Rightarrow> tid \<Rightarrow> string res" where
  "resource_camel cx i =
     and_then (type_at (rc_resolve cx) i) (\<lambda>td.
       and_then (unwrap (td_name td)) (\<lambda>name. Inr (re_upper_camel (rc_env cx) name)))"

definition generate_interface_trait ::
    "('z, 'a) rust_cx \<Rightarrow> string \<Rightarrow> string list \<Rightarrow> (tid \<times> string) list \<Rightarrow> ('z, 'a) iface_gen step" where
  "generate_interface_trait cx trait_name methods resource_traits =
     seq [
       print_pieces [''pub trait '', trait_name, '' {'' @ nl],
       for_each resource_traits (\<lambda>(i, trait_name).
         with_res (resource_camel cx i) (\<lambda>name. print_pieces [''type '', name, '': '', trait_name, '';'' @ nl])),
       for_each methods print_text,
       print_pieces [''}'' @ nl]]"

text \<open>
  The map \<open>traits\<close>: the methods of \<open>Guest\<close>, and the trait of every resource with its methods, sorted by
  the id of the resource.
\<close>

type_synonym guest_traits = "string list \<times> (tid \<times> string \<times> string list) list"

definition trait_name_of :: "guest_traits \<Rightarrow> tid option \<Rightarrow> string res" where
  "trait_name_of traits resource =
     (case resource of
        None \<Rightarrow> Inr ''Guest''
      | Some i \<Rightarrow> and_then (unwrap (map_of (snd traits) i)) (\<lambda>(name, _). Inr name))"

definition add_method :: "tid option \<Rightarrow> string \<Rightarrow> guest_traits \<Rightarrow> guest_traits" where
  "add_method resource m traits =
     (case resource of
        None \<Rightarrow> (fst traits @ [m], snd traits)
      | Some i \<Rightarrow>
          (fst traits, map (\<lambda>(j, name, ms). if j = i then (j, name, ms @ [m]) else (j, name, ms)) (snd traits)))"

definition trait_method ::
    "('z, 'a) rust_cx \<Rightarrow> func \<Rightarrow> bool \<Rightarrow> ('z, 'a) iface_gen \<Rightarrow> (string \<times> ('z, 'a) iface_gen) res" where
  "trait_method cx f async g =
     (let sig = update_for_func f (fn_sig_default\<lparr>fs_async := async, fs_use_item_name := True, fs_private := True\<rparr>) in
      and_then (print_signature cx f True sig (g\<lparr>ig_src := source_default\<rparr>)) (\<lambda>(_, g').
        and_then (print_text ('';'' @ nl) g') (\<lambda>g'. Inr (src_text (ig_src g'), g'\<lparr>ig_src := ig_src g\<rparr>))))"

text \<open>The first loop of \<open>generate_exports\<close>, over the functions.\<close>

fun export_functions ::
    "('z, 'a) wit_env \<Rightarrow> ('z, 'a) rust_cx \<Rightarrow> nat \<Rightarrow> world_key option \<Rightarrow> func list \<Rightarrow> guest_traits \<Rightarrow> ('z, 'a) iface_gen
      \<Rightarrow> (((func \<times> tid option \<times> bool) list \<times> guest_traits) \<times> ('z, 'a) iface_gen) res" where
  "export_functions E cx n key [] traits g = Inr (([], traits), g)"
| "export_functions E cx n key (f # fs) traits g =
     (if fn_name f \<in> rw_skip (ig_gen g) then export_functions E cx n key fs traits g
      else
        (let (async, g) = ask_async cx key f False g; resource = re_resource (rc_env cx) (fn_kind f) in
         and_then (trait_name_of traits resource) (\<lambda>trait_name.
         and_then (generate_guest_export E cx n f key trait_name async g) (\<lambda>g.
         and_then (trait_method cx f async g) (\<lambda>(method_text, g).
         and_then (export_functions E cx n key fs (add_method resource method_text traits) g)
           (\<lambda>((exported, traits), g). Inr (((f, resource, async) # exported, traits), g)))))))"

definition resource_trait ::
    "('z, 'a) rust_cx \<Rightarrow> world_key option \<Rightarrow> tid \<times> string \<times> string list \<Rightarrow> ('z, 'a) iface_gen step" where
  \<open>resource_trait cx key = (\<lambda>(i, trait_name, methods) g.
     and_then (print_pieces [''pub trait '', trait_name, '': '', runtime_path (rc_opts cx), ''::Resource {'' @ nl] g) (\<lambda>g.
     and_then (type_at (rc_resolve cx) i) (\<lambda>td.
     and_then (unwrap (td_name td)) (\<lambda>resource_name.
     and_then (unwrap key) (\<lambda>key.
     let wasm_import_module = ''[export]'' @ re_name_world_key (rc_env cx) (rc_resolve cx) key in
     and_then (declare_import wasm_import_module (''[resource-new]'' @ resource_name) ''new'' [WPointer] [WI32])
       (\<lambda>import_new.
     and_then (declare_import wasm_import_module (''[resource-rep]'' @ resource_name) ''rep'' [WI32] [WPointer])
       (\<lambda>import_rep.
     and_then
       (print_pieces [
          text_lines ['''', ''#[doc(hidden)]'', ''unsafe fn _resource_new(val: *mut u8) -> u32'', ''    where Self: Sized'', ''{'', ''    ''],
          import_new,
          text_lines ['''', ''    unsafe { new(val) as u32 }'', ''}'', '''', ''#[doc(hidden)]'', ''fn _resource_rep(handle: u32) -> *mut u8'', ''    where Self: Sized'', ''{'', ''    ''],
          import_rep,
          text_lines ['''', ''    unsafe { rep(handle as i32) }'', ''}'', '''', spaces 20, '''']] g) (\<lambda>g.
     let (box_path, g) = path_to_box cx g in
     seq [
       print_pieces [
         text_lines ['''', ''/// Place this resource's representation into a location with a stable pointer,'', ''/// returning a pointer to that location.'', ''///'', ''/// This method is used to place `val` on the heap, for example, or possibly in'', ''/// an arena. The returned pointer must remain valid for the lifetime of this'', ''/// resource. The default implementation of this metho will place `val` onto the'', ''/// heap with `Box`. The returned pointer will be deallocated by the sibling'', ''/// `resource_from_raw_` function.'', ''///'', ''/// # Safety'', ''///'', ''/// Note that this method is not `unsafe` to call, but it is `unsafe` to'', ''/// define. When overriding this method you must additionally override the'', ''/// `resource_from_raw_` to insert an appropriate deallocation for the returned'', ''/// pointer. In the future this might become a default associated trait bound,'', ''/// but that's not stable in Rust right now.'', ''#[doc(hidden)]'', ''unsafe fn resource_into_raw_(val: Self::Rep) -> *mut Self::Rep'', ''{'', ''    ''],
         box_path,
         ''::into_raw('',
         box_path,
         text_lines [''::new(val))'', ''}'', '''', ''/// Consumes and deallocates a pointer previously returned by'', ''/// `resource_into_raw_`.'', ''///'', ''/// This function is used to deallocate resources and allocations associated'', ''/// with the allocation routine when creating a resource. The default'', ''/// implementation of this method will read `handle`'s value and deallocate it'', ''/// as a `Box`.'', ''///'', ''/// Note that when overriding this method you'll almost surely want to override'', ''/// `resource_into_raw_` as well.'', ''///'', ''/// # Safety'', ''///'', ''/// This method is only safe to call with pointers previously created by'', ''/// `resource_into_raw_`. For more information see `Box::from_raw` for examples.'', ''#[doc(hidden)]'', ''unsafe fn resource_from_raw_(handle: *mut Self::Rep) -> Self::Rep'', ''{'', ''    *unsafe { ''],
         box_path,
         text_lines [''::from_raw(handle) }'', ''}'', '''', spaces 20, '''']],
       for_each methods print_text, print_pieces [''}'' @ nl]] g))))))))\<close>

section \<open>The exports of an interface or a world\<close>

definition alphanumeric :: "char \<Rightarrow> bool" where
  "alphanumeric c \<longleftrightarrow>
     (let n = of_char c :: nat in
      (48 \<le> n \<and> n \<le> 57) \<or> (65 \<le> n \<and> n \<le> 90) \<or> (97 \<le> n \<and> n \<le> 122) \<or>
      n \<in> {0xAA, 0xB2, 0xB3, 0xB5, 0xB9, 0xBA, 0xBC, 0xBD, 0xBE} \<or>
      (0xC0 \<le> n \<and> n \<noteq> 0xD7 \<and> n \<noteq> 0xF7))"

definition macro_name_of :: "('z, 'a) rust_cx \<Rightarrow> world_key option \<Rightarrow> string res" where
  "macro_name_of cx key =
     (case key of
        None \<Rightarrow>
          (case rc_identifier cx of
             IdWorld w \<Rightarrow>
               and_then (index (r_worlds (rc_resolve cx)) w) (\<lambda>world.
                 Inr (''__export_world_'' @ re_snake (rc_env cx) (w_name world) @ ''_cabi''))
           | _ \<Rightarrow> Inl Unreachable_Code)
      | Some key \<Rightarrow>
          Inr (''__export_'' @ map (\<lambda>c. if alphanumeric c then c else CHR ''_'')
            (re_snake (rc_env cx) (re_name_world_key (rc_env cx) (rc_resolve cx) key)) @ ''_cabi''))"

definition export_macro_start :: "string \<Rightarrow> string \<Rightarrow> ('z, 'a) iface_gen step" where
  "export_macro_start macro_export macro_name =
     print_pieces [
       ''#[doc(hidden)]'' @ nl,
       macro_export,
       text_lines ['''', ''macro_rules! ''],
       macro_name,
       text_lines ['' {'', ''    ($ty:ident with_types_in $($path_to_types:tt)*) => (const _: () = {'', '''', '''']]"

definition raw_export ::
    "('z, 'a) wit_env \<Rightarrow> ('z, 'a) rust_cx \<Rightarrow> nat \<Rightarrow> func \<times> tid option \<times> bool \<Rightarrow> ('z, 'a) iface_gen step" where
  "raw_export E cx n = (\<lambda>(f, resource, async).
     with_res
       (case resource of
          None \<Rightarrow> Inr ''$ty''
        | Some i \<Rightarrow> and_then (resource_camel cx i) (\<lambda>name. Inr (''<$ty as $($path_to_types)*::Guest>::'' @ name)))
       (\<lambda>ty. generate_raw_cabi_export E cx n f ty ''$($path_to_types)*'' async))"

definition resource_dtor :: "('z, 'a) rust_cx \<Rightarrow> string \<Rightarrow> ('z, 'a) iface_gen step" where
  \<open>resource_dtor cx name =
     (let export_prefix = (case op_export_prefix (rc_opts cx) of Some p \<Rightarrow> p | None \<Rightarrow> []) in
      case rc_identifier cx of
        IdInterface _ key \<Rightarrow>
          (let module = re_name_world_key (rc_env cx) (rc_resolve cx) key; camel = re_upper_camel (rc_env cx) name in
           print_pieces [
             text_lines ['''', spaces 16 @ ''const _: () = {'', spaces 20 @ ''#[doc(hidden)]'', spaces 20 @ ''#[unsafe(export_name = "''],
             export_prefix,
             module,
             ''#[dtor]'',
             name,
             text_lines [''")]'', spaces 20 @ ''#[allow(non_snake_case)]'', spaces 20 @ ''unsafe extern "C" fn dtor(rep: *mut u8) {'', spaces 24 @ ''unsafe {'', spaces 28 @ ''$($path_to_types)*::''],
             camel,
             text_lines [''::dtor::<'', spaces 32 @ ''<$ty as $($path_to_types)*::Guest>::''],
             camel,
             text_lines ['''', spaces 28 @ ''>(rep)'', spaces 24 @ ''}'', spaces 20 @ ''}'', spaces 16 @ ''};'', spaces 16, '''']])
      | _ \<Rightarrow> (\<lambda>g. Inl Unreachable_Code))\<close>

definition interface_resources :: "resolve \<Rightarrow> (iface_id \<times> world_key) option \<Rightarrow> (string \<times> tid) list res" where
  "interface_resources r interface =
     (case interface of
        None \<Rightarrow> Inr []
      | Some (i, _) \<Rightarrow> and_then (index (r_interfaces r) i) (\<lambda>iface. resource_types r (if_types iface)))"

definition generate_exports ::
    "('z, 'a) wit_env \<Rightarrow> ('z, 'a) rust_cx \<Rightarrow> nat \<Rightarrow> (iface_id \<times> world_key) option \<Rightarrow> func list \<Rightarrow> ('z, 'a) iface_gen
      \<Rightarrow> (string \<times> ('z, 'a) iface_gen) res" where
  "generate_exports E cx n interface fs g =
     (let key = map_option snd interface in
      and_then (interface_resources (rc_resolve cx) interface) (\<lambda>resources.
      let traits = foldl (\<lambda>m (name, i).
            let v = (''Guest'' @ re_upper_camel (rc_env cx) name, []) in entry i (\<lambda>_. v) v m) [] resources in
      and_then (export_functions E cx n key fs ([], traits) g) (\<lambda>((exported, methods, traits), g).
      and_then
        (seq [
           (if methods \<noteq> [] \<or> traits \<noteq> [] then
              generate_interface_trait cx ''Guest'' methods (map (\<lambda>(i, name, _). (i, name)) traits)
            else Inr),
           for_each traits (resource_trait cx key)] g) (\<lambda>g.
      and_then (macro_name_of cx key) (\<lambda>macro_name.
      let (macro_export, use_vis) =
            (if op_pub_export_macro (rc_opts cx) then (''#[macro_export]'', ''pub'') else ([], ''pub(crate)'')) in
      and_then
        (seq [
           export_macro_start macro_export macro_name,
           for_each exported (raw_export E cx n),
           for_each resources (\<lambda>(name, _). resource_dtor cx name),
           print_pieces [''};);'' @ nl], print_pieces [''}'' @ nl], print_pieces [''#[doc(hidden)]'' @ nl],
           print_pieces [use_vis, '' use '', macro_name, '';'' @ nl]] g)
        (\<lambda>g. Inr (macro_name, g)))))))"

end
