(* ===== verification/Rust_Properties.thy ===== *)
theory Rust_Properties
  imports Rust_Demo Rust_Function
begin

text \<open>
  The properties of the Rust generator (\<open>crates/rust/src\<close>): the modes and the names of types, and
  the composition of \<open>abi::call\<close> with \<open>FunctionBindgen\<close>.
\<close>

section \<open>The generator with the Rust backend\<close>

text \<open>
  The parts of the contracts of \<open>wit_parser\<close> that are about the signature, the flattening and the
  sizes, for the types of \<open>cx\<close>; the flags fit in 128 bits and no variant is without cases.
\<close>

definition rust_abi_ok ::
    "('z, 'a) wit_env \<Rightarrow> ('z, 'a) rust_cx \<Rightarrow> (ty \<Rightarrow> wasm_type list) \<Rightarrow> (tid \<Rightarrow> nat) \<Rightarrow> bool" where
  "rust_abi_ok E cx F rk \<longleftrightarrow>
     rust_ok cx rk \<and> sizes_contract (rust_ctx E cx) \<and> flat_contract (rust_ctx E cx) F \<and> repr_contract E \<and>
     wf_types E (rc_resolve cx) F rk \<and>
     (\<forall>i < length (r_types (rc_resolve cx)).
        case kind_at (rc_resolve cx) i of
          KFlags flags \<Rightarrow> \<exists>u. rust_flags_repr_new (flags_repr_of E flags) = Inr u
        | KVariant cases \<Rightarrow> cases \<noteq> []
        | _ \<Rightarrow> True)"

text \<open>A constructor returns its resource, as validation makes sure.\<close>

definition constructor_ok :: "('z, 'a) rust_cx \<Rightarrow> func \<Rightarrow> bool" where
  "constructor_ok cx f \<longleftrightarrow>
     (case fn_kind f of
        Constructor i \<Rightarrow>
          named_id cx i \<and>
          (\<exists>t. classify_constructor_return_type (rc_resolve cx) (rc_fuel cx) i (fn_result f) = Inr t)
      | _ \<Rightarrow> True)"

text \<open>The parameters of the Rust function: the ones of the WIT function, or the core ones of an export.\<close>

definition call_params_ok ::
    "('z, 'a) wit_env \<Rightarrow> ('z, 'a) rust_cx \<Rightarrow> func \<Rightarrow> abi_variant \<Rightarrow> lift_lower \<Rightarrow> string list \<Rightarrow> bool" where
  "call_params_ok E cx f variant ll params \<longleftrightarrow>
     (case ll of
        LowerArgsLiftResults \<Rightarrow> variant \<noteq> GuestExport \<and> length params = length (fn_params f)
      | LiftArgsLowerResults \<Rightarrow> length params = length (sig_params (wasm_signature_of E (rc_resolve cx) variant f)))"

lemma callee_ok_constructor: "constructor_ok cx f \<Longrightarrow> callee_ok cx f"
  by (cases "fn_kind f") (auto simp: constructor_ok_def callee_ok_def callee_def named_id_def Let_def)

lemma rust_arena_allowed:
  assumes "rust_abi_ok E cx F rk"
  shows "block_backend.arena_allowed (rc_resolve cx) (fb_allowed E cx params rs)"
proof -
  let ?r = "rc_resolve cx"
  have ok: "rust_ok cx rk" using assms by (simp add: rust_abi_ok_def)
  note printable = rust_okD(2) [OF ok] and acyclic = rust_okD(1) [OF ok]
  have fb: "fb_allowed E cx params rs j" if "rust_allowed E cx params rs j" for j
    using that ok by (auto simp: fb_allowed_def)
  have "case kind_at ?r i of
      KHandle h \<Rightarrow> \<forall>name. fb_allowed E cx params rs (HandleLift h name i)
    | KFlags fl \<Rightarrow> \<forall>name. fb_allowed E cx params rs (FlagsLift fl name i)
    | KRecord fs \<Rightarrow> \<forall>name. fb_allowed E cx params rs (RecordLower fs name i) \<and>
        fb_allowed E cx params rs (RecordLift fs name i)
    | KVariant cases \<Rightarrow> cases \<noteq> [] \<and> (\<forall>name tys. fb_allowed E cx params rs (VariantLower cases name i tys) \<and>
        fb_allowed E cx params rs (VariantLift cases name i))
    | KEnum cases \<Rightarrow> \<forall>name. fb_allowed E cx params rs (EnumLift cases name i)
    | KFuture payload \<Rightarrow> fb_allowed E cx params rs (FutureLift payload i)
    | KStream payload \<Rightarrow> fb_allowed E cx params rs (StreamLift payload i)
    | _ \<Rightarrow> True" if i: "valid_id ?r i" for i
  proof -
    note pr = printableD [OF printable i] and part = acyclicD(2) [OF acyclic i]
    have arena: "case kind_at ?r i of
          KFlags flags \<Rightarrow> \<exists>u. rust_flags_repr_new (flags_repr_of E flags) = Inr u
        | KVariant cases \<Rightarrow> cases \<noteq> [] | _ \<Rightarrow> True"
      using assms i by (simp add: rust_abi_ok_def)
    show ?thesis
    proof (cases "kind_at ?r i")
      case (KHandle h)
      have "TId (handle_tid h) \<in> set (eq_types (kind_at ?r i))"
        using KHandle by (cases h) (simp_all add: eq_types_def handle_tid_def)
      from part [OF this] have "valid_id ?r (handle_tid h)" by (simp add: valid_ty_def)
      then show ?thesis using pr(3) [OF KHandle] KHandle by (simp add: fb rust_allowed_def named_id_def)
    next
      case (KFuture t)
      then show ?thesis using pr(5) part by (cases t) (auto simp: fb rust_allowed_def payload_ok_def eq_types_def)
    next
      case (KStream t)
      then show ?thesis using pr(6) part by (cases t) (auto simp: fb rust_allowed_def payload_ok_def eq_types_def)
    qed (use pr(1) arena i in \<open>auto simp: fb rust_allowed_def named_id_def needs_name_def\<close>)
  qed
  then show ?thesis unfolding rust.arena_allowed_def by blast
qed

lemma rust_ctx_cx: "rust.cx E cx = rust_ctx E cx"
  by (simp add: rust.cx_def rust_ctx_def)

lemma rust_abi_okD:
  assumes "rust_abi_ok E cx F rk"
  shows "rust_ok cx rk" "abi_ok (rust.cx E cx) F rk"
  using assms rust.abi_ok_cx [of E cx F rk] by (simp_all add: rust_abi_ok_def rust_ctx_cx)

lemma rust_call_allowed:
  assumes ok: "rust_abi_ok E cx F rk"
    and params: "call_params_ok E cx f variant ll params"
    and rs: "rs \<longrightarrow> ll = LowerArgsLiftResults \<and> fn_result f = None"
    and import: "ll = LowerArgsLiftResults \<longrightarrow> length (sig_results (wasm_signature_of E (rc_resolve cx) variant f)) < 2"
    and export: "ll = LiftArgsLowerResults \<longrightarrow> constructor_ok cx f \<and>
      (if sig_indirect_params (wasm_signature_of E (rc_resolve cx) variant f) then 1
       else length (flat_list F (param_types f))) \<le> length (sig_params (wasm_signature_of E (rc_resolve cx) variant f))"
  shows "block_backend.call_allowed E (rc_resolve cx) (fb_allowed E cx params rs) f variant ll async (length params)"
proof -
  have all: "fb_allowed E cx params c i" if "rust_allowed E cx params c i" for i c
    using that rust_abi_okD(1) [OF ok] by (auto simp: fb_allowed_def)
  have args: "fb_allowed E cx params c (GetArg k)" if "k < length params" for k c
    using that by (intro all) (simp add: rust_allowed_def)
  show ?thesis
  proof (cases ll)
    case LowerArgsLiftResults
    then show ?thesis
      using params rs import
      by (auto simp: rust.call_allowed_def call_params_ok_def rust_allowed_def intro!: args all)
  next
    case LiftArgsLowerResults
    have "flat_contract (rust.cx E cx) F" using rust_abi_okD(2) [OF ok] by (rule abi_okD)
    then have "block_backend.flat_total E (rc_resolve cx) (call_max_flat variant async) (param_types f)
        \<le> length (flat_list F (param_types f))" by (rule rust.flat_total_le)
    then show ?thesis
      using LiftArgsLowerResults params rs export callee_ok_constructor [of cx f]
      by (auto simp: rust.call_allowed_def call_params_ok_def rust_allowed_def Let_def intro!: args all split: if_splits)
  qed
qed

lemma new_inv: "fb_inv params rs (function_bindgen_new z a g params module always_owned rs)"
  "fb_depth (function_bindgen_new z a g params module always_owned rs) = 0"
  "fb_finished (function_bindgen_new z a g params module always_owned rs) = []"
  by (simp_all add: function_bindgen_new_def fb_inv_def fb_depth_def fb_finished_def)

section \<open>Calls\<close>

text \<open>
  C3: The Rust generator generates every synchronous call without a panic: run on a fresh
  \<open>FunctionBindgen\<close>, \<open>abi::call\<close> returns, no assertion, index or \<open>unwrap\<close> of the backend fails, and
  no block is left open or left over.
\<close>

theorem rust_call_sync_total:
  assumes "rust_abi_ok E cx F rk" "func_ok (rc_resolve cx) rk n f" "variant = GuestImport \<or> variant = GuestExport"
    "signature_ok (rust_ctx E cx) F variant f" "call_params_ok E cx f variant ll params"
    "rs \<longrightarrow> ll = LowerArgsLiftResults \<and> fn_result f = None"
    "ll = LowerArgsLiftResults \<longrightarrow> length (sig_results (wasm_signature_of E (rc_resolve cx) variant f)) < 2"
    "ll = LiftArgsLowerResults \<longrightarrow> constructor_ok cx f"
  shows "\<exists>b'. call (rust_ctx E cx) n variant ll f
      (Inr (function_bindgen_new z a g params module always_owned rs)) False = Inr (Inr b') \<and>
    fb_blocks b' = [] \<and> fb_block_storage b' = [] \<and> fb_params b' = params"
proof -
  let ?sg = "wasm_signature_of E (rc_resolve cx) variant f"
  have "(if sig_indirect_params ?sg then 1 else length (flat_list F (param_types f))) \<le> length (sig_params ?sg)"
    using assms(4) by (simp add: signature_ok_def rust_ctx_def Let_def)
  then have "block_backend.call_allowed E (rc_resolve cx) (fb_allowed E cx params rs) f variant ll False (length params)"
    using assms(8) by (intro rust_call_allowed [OF assms(1,5,6,7)]) simp
  from rust.sync_call_never_panics [OF rust_abi_okD(2) [OF assms(1)] assms(2,3) _ rust_arena_allowed [OF assms(1)] this
      new_inv(1) [of params rs z a g module always_owned]] assms(4)
  obtain b' where "call (rust_ctx E cx) n variant ll f
      (Inr (function_bindgen_new z a g params module always_owned rs)) False = Inr (Inr b')"
    "fb_inv params rs b'" "fb_depth b' = 0" "fb_finished b' = []"
    unfolding rust_ctx_cx new_inv(2,3) by blast
  then show ?thesis by (auto simp: fb_inv_def fb_depth_def fb_finished_def)
qed

lemma rust_demo_contracts:
  "sizes_contract (rust_ctx demo_env rust_demo)" "flat_contract (rust_ctx demo_env rust_demo) demo_flat"
  by (simp_all add: sizes_contract_def rust_ctx_def checked_def rust_backend_def demo_sizes_def split_beta comp_def
      map_snd_enumerate flat_contract_def demo_env_def)

lemma rust_demo_wf: "wf_types demo_env demo_resolve demo_flat rust_demo_rank"
  unfolding wf_types_def demo_cx_simps
  by (auto dest!: demo_usable_valid simp: scalar_flat_def demo_flat_def named_def demo_types_def kind_flat_def
      kind_types_def ty_rank_def rust_demo_rank_def variant_fits_def arm_fits_def demo_castable demo_env_def
      handle_tid_def map_filter_def split: ty.splits)

lemma rust_demo_abi_ok: "rust_abi_ok demo_env rust_demo demo_flat rust_demo_rank"
proof -
  have "case kind_at demo_resolve i of
      KFlags flags \<Rightarrow> \<exists>u. rust_flags_repr_new (flags_repr_of demo_env flags) = Inr u
    | KVariant cases \<Rightarrow> cases \<noteq> [] | _ \<Rightarrow> True" if "i < 8" for i
    using that unfolding less_8 by (auto simp: demo_types_def demo_env_def rust_flags_repr_new_def)
  then show ?thesis
    by (simp add: rust_abi_ok_def rust_demo_ok rust_demo_contracts demo_repr_contract rust_demo_wf)
qed

lemma rust_demo_func_ok: "func_ok demo_resolve rust_demo_rank 8 demo_func"
  by (simp add: func_ok_def demo_func_def demo_usable_ids ty_rank_def rust_demo_rank_def)

lemma demo_signature_of [simp]: "wasm_signature_of demo_env r = demo_signature"
  by (simp add: demo_env_def)

lemma demo_func_signature:
  "sig_params (demo_signature variant demo_func) =
     [WI32, WI32, WPointer, WLength] @ (if variant = GuestImport then [WPointer] else [])"
  "sig_results (demo_signature variant demo_func) = (if variant = GuestImport then [] else [WPointer])"
  "\<not> sig_indirect_params (demo_signature variant demo_func)" "sig_retptr (demo_signature variant demo_func)"
  "length (flat_list demo_flat (param_types demo_func)) = 4" "length (fn_params demo_func) = 2"
  "fn_kind demo_func = Freestanding"
  by (simp_all add: demo_signature_def Let_def demo_func_def flat_list_def demo_flat_def)

lemma rust_demo_signature_ok: "signature_ok (rust_ctx demo_env rust_demo) demo_flat variant demo_func"
  by (simp add: signature_ok_def rust_ctx_def Let_def demo_func_signature)

lemma rust_demo_params_flat_ok: "params_flat_ok (rust_ctx demo_env rust_demo) demo_flat variant demo_func"
  by (simp add: params_flat_ok_def demo_func_def demo_flat_def)

theorem rust_call_sync_total_witness:
  "\<exists>b'. call (rust_ctx demo_env rust_demo) 8 GuestImport LowerArgsLiftResults demo_func
      (Inr (function_bindgen_new 0 1 rust_demo_gen [''from'', ''data''] ''host'' False False)) False = Inr (Inr b') \<and>
    fb_blocks b' = [] \<and> fb_block_storage b' = [] \<and> fb_params b' = [''from'', ''data'']"
  by (rule rust_call_sync_total [OF rust_demo_abi_ok])
    (simp_all add: rust_demo_func_ok rust_demo_signature_ok call_params_ok_def demo_func_signature)

text \<open>
  The export side of an async call is generated without a panic as well, for a callback export
  and, if the results fit in the flat parameters of \<open>task.return\<close>, for a stackful one.
\<close>

theorem rust_call_async_export_total:
  assumes "rust_abi_ok E cx F rk" "func_ok (rc_resolve cx) rk n f" "params_flat_ok (rust_ctx E cx) F variant f"
    "is_guest_export variant" "variant = GuestExportAsyncStackful \<Longrightarrow> length (flat_list F (result_types f)) \<le> 16"
    "call_params_ok E cx f variant LiftArgsLowerResults params" "constructor_ok cx f"
    "(if sig_indirect_params (wasm_signature_of E (rc_resolve cx) variant f) then 1
      else length (flat_list F (param_types f))) \<le> length (sig_params (wasm_signature_of E (rc_resolve cx) variant f))"
  shows "\<exists>b'. call (rust_ctx E cx) n variant LiftArgsLowerResults f
      (Inr (function_bindgen_new z a g params module always_owned False)) True = Inr (Inr b') \<and>
    fb_blocks b' = [] \<and> fb_block_storage b' = [] \<and> fb_params b' = params"
proof -
  have "block_backend.call_allowed E (rc_resolve cx) (fb_allowed E cx params False) f variant LiftArgsLowerResults True
      (length params)"
    by (rule rust_call_allowed [OF assms(1,6)]) (use assms(7,8) in simp_all)
  from rust.async_export_never_panics [OF rust_abi_okD(2) [OF assms(1)] assms(2) _ assms(4,5)
      rust_arena_allowed [OF assms(1)] this new_inv(1) [of params False z a g module always_owned]] assms(3)
  obtain b' where "call (rust_ctx E cx) n variant LiftArgsLowerResults f
      (Inr (function_bindgen_new z a g params module always_owned False)) True = Inr (Inr b')"
    "fb_inv params False b'" "fb_depth b' = 0" "fb_finished b' = []"
    unfolding rust_ctx_cx new_inv(2,3) by blast
  then show ?thesis by (auto simp: fb_inv_def fb_depth_def fb_finished_def)
qed

theorem rust_call_async_export_total_witness:
  "\<exists>b'. call (rust_ctx demo_env rust_demo) 8 GuestExportAsync LiftArgsLowerResults demo_func
      (Inr (function_bindgen_new 0 1 rust_demo_gen [''a'', ''b'', ''c'', ''d''] ''host'' False False)) True = Inr (Inr b') \<and>
    fb_blocks b' = [] \<and> fb_block_storage b' = [] \<and> fb_params b' = [''a'', ''b'', ''c'', ''d'']"
  by (rule rust_call_async_export_total [OF rust_demo_abi_ok])
    (simp_all add: rust_demo_func_ok rust_demo_params_flat_ok call_params_ok_def demo_func_signature
      is_guest_export_def constructor_ok_def)

section \<open>Types\<close>





text \<open>
  A fixed-length list of borrowed handles cannot be printed: the element is printed in the owned
  mode, where the assertion on the lifetime of a borrowed handle fails, whatever the mode of the list.
\<close>

theorem fixed_list_of_borrows_panics:
  assumes "valid_id (rc_resolve cx) i" "kind_at (rc_resolve cx) i = KFixedLengthList (TId j) n"
    "valid_id (rc_resolve cx) j" "kind_at (rc_resolve cx) j = KHandle (Borrow k)"
    "\<not> has_name (rc_resolve cx) i" "\<not> has_name (rc_resolve cx) j" "0 < rc_fuel cx"
  shows "print_ty cx (Suc (Suc m)) (TId i) mode g = Inl Assert_Failed"
proof -
  have fuel: "rc_fuel cx = Suc (rc_fuel cx - 1)" using assms(7) by simp
  have d: "dealias (rc_resolve cx) (rc_fuel cx) i = Inr i" "dealias (rc_resolve cx) (rc_fuel cx) j = Inr j"
    by (subst fuel, use assms(1-4) in simp)+
  have "print_ty cx (Suc m) (TId j) owned_mode h = Inl Assert_Failed" for h
    using assms(3,4,6) d
    by (simp add: print_ty_body_def with_res_def print_tyid_def define_anonymous_type_def anon_type_generator_def
        print_handle_def owned_mode_def)
  then show ?thesis
    unfolding print_ty.simps(2) [of cx "Suc m"] using assms(1,2,5) d
    by (cases "tm_lifetime mode") (simp_all add: print_ty_body_def with_res_def print_tyid_def
        define_anonymous_type_def anon_type_generator_def print_text_def seq.simps del: print_ty.simps)
qed

theorem fixed_list_of_borrows_panics_witness:
  "print_ty borrow_demo 3 (TId 2) \<lparr>tm_lifetime = Some elided, tm_lists_borrowed = True, tm_style = StyleBorrowed\<rparr>
    rust_demo_gen = Inl Assert_Failed"
proof -
  have "print_ty borrow_demo (Suc (Suc 1)) (TId 2)
      \<lparr>tm_lifetime = Some elided, tm_lists_borrowed = True, tm_style = StyleBorrowed\<rparr> rust_demo_gen = Inl Assert_Failed"
    by (rule fixed_list_of_borrows_panics [where j = 1 and k = 0 and n = 2])
      (simp_all add: borrow_demo_def borrow_types_def)
  then show ?thesis by (simp add: numeral_3_eq_3)
qed

end
