(* ===== verification/Rust_Interface.thy ===== *)
theory Rust_Interface
  imports Rust_Function "HOL-Library.Option_ord"
begin

text \<open>
  How the generator of an interface ends (\<open>crates/rust/src/interface.rs\<close>): the return area and the
  \<open>use\<close> of the runtime module in front of the text, the submodule around it, and the implementation of
  the exported traits by the type \<open>Stub\<close>.
\<close>

section \<open>Finishing\<close>

definition ret_area :: "('z, 'a) rust_cx \<Rightarrow> ('z, 'a) iface_gen step" where
  "ret_area cx g =
     (if re_size_is_empty (rc_env cx) (ig_return_pointer_area_size g) then Inr g
      else
        (let sz = re_size_format_term (rc_env cx) (ig_return_pointer_area_size g) in
         seq [print_pieces [nl], align_area cx (ig_return_pointer_area_align g),
           print_pieces [
             ''struct _RetArea([::core::mem::MaybeUninit::<u8>; '',
             sz,
             text_lines ['']);'', spaces 20 @ ''static mut _RET_AREA: _RetArea = _RetArea([::core::mem::MaybeUninit::uninit(); ''],
             sz,
             '']);'' @ nl]] g))"

definition rust_finish ::
    "('z, 'a) rust_cx \<Rightarrow> ('z, 'a) iface_gen \<Rightarrow> (string \<times> ('z, 'a) iface_gen) res" where
  "rust_finish cx g =
     and_then (ret_area cx g) (\<lambda>g.
       let src = src_text (ig_src g); g = g\<lparr>ig_src := source_default\<rparr>; root = path_to_root cx in
       Inr
         (if ig_needs_runtime_module g \<and> root \<noteq> [] then
            ''use '' @ root @ ''_rt;'' @ nl @
            (if ig_needs_wit_map g then ''use '' @ root @ ''_rt::WitMap;'' @ nl else []) @ src
          else src, g))"

section \<open>Submodules\<close>

definition start_append_submodule :: "('z, 'a) rust_cx \<Rightarrow> world_key \<Rightarrow> (string \<times> string list) res" where
  "start_append_submodule cx name =
     and_then
       (case name of
          WKName name \<Rightarrow> Inr (to_rust_ident (rc_env cx) name)
        | WKInterface i \<Rightarrow>
            and_then (index (r_interfaces (rc_resolve cx)) i) (\<lambda>iface.
              and_then (unwrap (if_name iface)) (\<lambda>name. Inr (to_rust_ident (rc_env cx) name))))
       (\<lambda>snake.
         and_then (compute_module_path (rc_env cx) name (rc_resolve cx) (\<not> rc_in_import cx)) (\<lambda>path.
           Inr (snake, path)))"

definition trim_end :: "string \<Rightarrow> string" where
  "trim_end s = rev (dropWhile whitespace (rev s))"

definition push_module :: "bool \<Rightarrow> string \<times> string list \<Rightarrow> rust_wasm \<Rightarrow> rust_wasm" where
  "push_module in_import m w =
     (if in_import then w\<lparr>rw_import_modules := rw_import_modules w @ [m]\<rparr>
      else w\<lparr>rw_export_modules := rw_export_modules w @ [m]\<rparr>)"

definition module_text ::
    "('z, 'a) rust_cx \<Rightarrow> string \<Rightarrow> string \<Rightarrow> string \<Rightarrow> string" where
  "module_text cx docs snake module =
     (let path_to_root = path_to_root cx;
          used_static =
            (if op_disable_custom_section_link_helpers (rc_opts cx) then []
             else
               concat [
                 text_lines [''#[used]'', spaces 20 @ ''#[doc(hidden)]'', spaces 20 @ ''static __FORCE_SECTION_REF: fn() ='', spaces 24],
                 path_to_root,
                 text_lines [''__link_custom_section_describing_imports;'', spaces 16]]) in
      concat [
        docs,
        text_lines ['''', spaces 16 @ ''#[allow(dead_code, async_fn_in_trait, unused_imports, clippy::all)]'', spaces 16 @ ''pub mod ''],
        snake,
        text_lines ['' {'', spaces 20],
        used_static,
        text_lines ['''', spaces 20],
        module,
        text_lines ['''', spaces 16 @ ''}'', '''']])"

text \<open>The interface generator ends here: what is left is the generator it belongs to.\<close>

definition finish_append_submodule ::
    "('z, 'a) rust_cx \<Rightarrow> string \<Rightarrow> string list \<Rightarrow> string option \<Rightarrow> ('z, 'a) iface_gen \<Rightarrow> rust_wasm res" where
  "finish_append_submodule cx snake module_path docs g =
     and_then (rust_finish cx g) (\<lambda>(module, g).
       and_then (rustdoc docs g) (\<lambda>g.
         let docs = trim_end (src_text (ig_src g)) in
         Inr (push_module (rc_in_import cx) (module_text cx docs snake module, module_path) (ig_gen g))))"

section \<open>Stubs\<close>

definition group_by_resource :: "('z, 'a) rust_env \<Rightarrow> func list \<Rightarrow> (tid option \<times> func list) list" where
  "group_by_resource RE fs =
     foldl (\<lambda>m f. entry (re_resource RE (fn_kind f)) (\<lambda>group. group @ [f]) [] m) [] fs"

text \<open>\<open>remove(..).unwrap_or(..)\<close> on the groups.\<close>

definition take_group ::
    "tid option \<Rightarrow> (tid option \<times> func list) list \<Rightarrow> func list \<times> (tid option \<times> func list) list" where
  "take_group k m = ((case map_of m k of Some fs \<Rightarrow> fs | None \<Rightarrow> []), filter (\<lambda>(k', _). k' \<noteq> k) m)"

definition stub_method :: "('z, 'a) rust_cx \<Rightarrow> world_key option \<Rightarrow> func \<Rightarrow> ('z, 'a) iface_gen step" where
  "stub_method cx interface f g =
     (if fn_name f \<in> rw_skip (ig_gen g) then Inr g
      else
        (let (async, g) = ask_async cx interface f False g;
             sig = update_for_func f (fn_sig_default\<lparr>fs_async := async, fs_use_item_name := True, fs_private := True\<rparr>) in
         and_then (print_text (''#[allow(unused_variables)]'' @ nl) g) (\<lambda>g.
           and_then (print_signature cx f True sig g) (\<lambda>(_, g). print_text (''{ unreachable!() }'' @ nl) g))))"

definition generate_stub_impl ::
    "('z, 'a) rust_cx \<Rightarrow> string \<Rightarrow> string \<Rightarrow> func list \<Rightarrow> world_key option \<Rightarrow> ('z, 'a) iface_gen step" where
  "generate_stub_impl cx trait_name extra_trait_items fs interface =
     seq [print_pieces [''impl '', trait_name, '' for Stub {'' @ nl], print_text extra_trait_items,
       for_each fs (stub_method cx interface), print_text (''}'' @ nl)]"

fun stub_resources ::
    "('z, 'a) rust_cx \<Rightarrow> string \<Rightarrow> world_key option \<Rightarrow> (string \<times> tid) list \<Rightarrow> (tid option \<times> func list) list \<Rightarrow> string
      \<Rightarrow> ('z, 'a) iface_gen \<Rightarrow> (string \<times> ('z, 'a) iface_gen) res" where
  "stub_resources cx path interface [] groups extra g = Inr (extra, g)"
| "stub_resources cx path interface ((name, i) # rs) groups extra g =
     (let camel = re_upper_camel (rc_env cx) name; (methods, groups) = take_group (Some i) groups in
      and_then (generate_stub_impl cx (path @ ''::Guest'' @ camel) [] methods interface g) (\<lambda>g.
        stub_resources cx path interface rs groups (extra @ ''type '' @ camel @ '' = Stub;'' @ nl) g))"

definition generate_stub ::
    "('z, 'a) rust_cx \<Rightarrow> (iface_id \<times> world_key) option \<Rightarrow> func list \<Rightarrow> ('z, 'a) iface_gen step" where
  "generate_stub cx interface fs g =
     (let (root_methods, groups) = take_group None (group_by_resource (rc_env cx) fs); key = map_option snd interface in
      and_then
        (case interface of
           Some (i, _) \<Rightarrow>
             and_then (path_to_interface cx i) (\<lambda>path.
             and_then (unwrap path) (\<lambda>path.
             and_then (interface_resources (rc_resolve cx) interface) (\<lambda>resources.
             and_then (stub_resources cx path key resources groups [] g) (\<lambda>(extra, g).
               Inr (path @ ''::Guest'', extra, g)))))
         | None \<Rightarrow> if groups = [] then Inr (''Guest'', [], g) else Inl Assert_Failed)
        (\<lambda>(guest_trait, extra, g).
          if root_methods \<noteq> [] \<or> extra \<noteq> [] then generate_stub_impl cx guest_trait extra root_methods key g
          else Inr g))"

end
