(* ===== verification/Rust_Define.thy ===== *)
theory Rust_Define
  imports Rust_Function
begin

text \<open>
  The definitions of types that the Rust generator writes (\<open>crates/rust/src/interface.rs\<close>): structs,
  enums, flags, aliases and resources, in the modes of \<open>modes_of\<close>, with the attributes that the
  options add. They are the methods that \<open>define_type\<close> of \<open>crates/core\<close> calls.
\<close>

section \<open>Attributes\<close>

text \<open>\<open>str::rsplit_once\<close> with a character.\<close>

definition rsplit_once :: "char \<Rightarrow> string \<Rightarrow> (string \<times> string) option" where
  "rsplit_once c s =
     (if c \<in> set s then
        (let t = takeWhile (\<lambda>x. x \<noteq> c) (rev s) in Some (rev (drop (Suc (length t)) (rev s)), rev t))
      else None)"

definition matching_attrs ::
    "(string \<times> string) list \<Rightarrow> string set \<Rightarrow> (string \<Rightarrow> bool) \<Rightarrow> string list \<times> string set" where
  "matching_attrs entries used matches =
     (let es = filter (\<lambda>(sel, _). matches sel) entries in
      (foldl (\<lambda>attrs (_, attr). index_insert attr attrs) [] es, used \<union> fst ` set es))"

definition additional_type_attrs ::
    "('z, 'a) rust_cx \<Rightarrow> string \<Rightarrow> ('z, 'a) iface_gen \<Rightarrow> string list \<times> ('z, 'a) iface_gen" where
  "additional_type_attrs cx ty_name g =
     (let w = ig_gen g;
          (attrs, used) = matching_attrs (op_additional_type_attributes (rc_opts cx))
            (rw_used_type_attr_selectors w) (\<lambda>sel. sel = ty_name) in
      (attrs, g\<lparr>ig_gen := w\<lparr>rw_used_type_attr_selectors := used\<rparr>\<rparr>))"

definition additional_member_attrs ::
    "('z, 'a) rust_cx \<Rightarrow> string \<Rightarrow> string \<Rightarrow> ('z, 'a) iface_gen \<Rightarrow> string list \<times> ('z, 'a) iface_gen" where
  "additional_member_attrs cx ty_name member g =
     (let w = ig_gen g;
          (attrs, used) = matching_attrs (op_additional_member_attributes (rc_opts cx))
            (rw_used_member_attr_selectors w) (\<lambda>sel. rsplit_once CHR ''.'' sel = Some (ty_name, member)) in
      (attrs, g\<lparr>ig_gen := w\<lparr>rw_used_member_attr_selectors := used\<rparr>\<rparr>))"

fun members_attrs ::
    "('z, 'a) rust_cx \<Rightarrow> string \<Rightarrow> string list \<Rightarrow> ('z, 'a) iface_gen \<Rightarrow> string list list \<times> ('z, 'a) iface_gen" where
  "members_attrs cx ty_name [] g = ([], g)"
| "members_attrs cx ty_name (m # ms) g =
     (let (attrs, g) = additional_member_attrs cx ty_name m g; (rest, g) = members_attrs cx ty_name ms g in
      (attrs # rest, g))"

definition push_attrs :: "string list \<Rightarrow> ('z, 'a) iface_gen step" where
  "push_attrs attrs = for_each attrs (\<lambda>attr. print_pieces [attr, nl])"

text \<open>The derived traits are a \<open>BTreeSet\<close>: sorted, without repetitions.\<close>

definition derives_of :: "('z, 'a) rust_cx \<Rightarrow> string \<Rightarrow> string list \<Rightarrow> string list" where
  "derives_of cx name own =
     sort (remdups
       ((if re_kebab (rc_env cx) name \<in> set (op_additional_derive_ignore (rc_opts cx)) then []
         else op_additional_derive_attributes (rc_opts cx)) @ own))"

definition copy_or_clone :: "type_info \<Rightarrow> string list" where
  "copy_or_clone x = (if is_copy x then [''Copy'', ''Clone''] else if is_clone x then [''Clone''] else [])"

definition print_derives :: "string list \<Rightarrow> ('z, 'a) iface_gen step" where
  "print_derives derives =
     (if derives = [] then Inr
      else seq [print_text ''#[derive('', print_text (join '', '' derives), print_text ('')]'' @ nl)])"

definition full_name :: "('z, 'a) rust_cx \<Rightarrow> tid \<Rightarrow> string res" where
  "full_name cx i = full_wit_type_name (rc_env cx) (rc_resolve cx) (rc_fuel cx) i"

definition type_docs :: "('z, 'a) rust_cx \<Rightarrow> tid \<Rightarrow> ('z, 'a) iface_gen step" where
  "type_docs cx i = rustdoc (re_type_docs (rc_env cx) i)"

definition lifetime_a :: string where
  "lifetime_a = CHR 0x27 # ''a''"

text \<open>The body that follows the head \<open>pub type\<close> in each mode.\<close>

definition print_alias_modes ::
    "('z, 'a) rust_cx \<Rightarrow> tid \<Rightarrow> string \<Rightarrow> (type_mode \<Rightarrow> ('z, 'a) iface_gen step) \<Rightarrow> ('z, 'a) iface_gen step" where
  "print_alias_modes cx i eq body =
     with_res (modes_of cx i) (\<lambda>modes. for_each modes (\<lambda>(name, mode).
       seq [type_docs cx i, print_text (''pub type '' @ name), print_generics (tm_lifetime mode), print_text eq,
         body mode]))"

section \<open>Implementations\<close>

definition impl_head :: "string \<Rightarrow> string \<Rightarrow> string option \<Rightarrow> ('z, 'a) iface_gen step" where
  "impl_head trait name lifetime =
     seq [print_text ''impl'', print_generics lifetime, print_text ('' '' @ trait @ '' for ''), print_text name,
       print_generics lifetime]"

definition fmt_head :: string where
  "fmt_head = ''fn fmt(&self, f: &mut ::core::fmt::Formatter<'_>) -> ::core::fmt::Result {'' @ nl"

definition display_impl :: "string \<Rightarrow> string option \<Rightarrow> ('z, 'a) iface_gen step" where
  \<open>display_impl name lifetime =
     seq [impl_head ''::core::fmt::Display'' name lifetime, print_text ('' {'' @ nl), print_text fmt_head,
       print_text (''write!(f, "{:?}", self)'' @ nl), print_text (''}'' @ nl), print_text (''}'' @ nl)]\<close>

definition std_only :: "('z, 'a) rust_cx \<Rightarrow> ('z, 'a) iface_gen step" where
  \<open>std_only cx = (if op_std_feature (rc_opts cx) then print_text (''#[cfg(feature = "std")]'' @ nl) else Inr)\<close>

section \<open>Records\<close>

definition record_struct ::
    "('z, 'a) rust_cx \<Rightarrow> tid \<Rightarrow> field list \<Rightarrow> type_info \<Rightarrow> string list \<Rightarrow> string list list \<Rightarrow> string \<Rightarrow> type_mode
      \<Rightarrow> ('z, 'a) iface_gen step" where
  "record_struct cx i fs x injected field_attrs name mode =
     seq [type_docs cx i,
       if is_copy x then print_text (''#[repr(C)]'' @ nl) else Inr,
       print_derives (derives_of cx name (copy_or_clone x)), push_attrs injected,
       print_text (''pub struct '' @ name), print_generics (tm_lifetime mode), print_text ('' {'' @ nl),
       for_each (zip (enumerate 0 fs) field_attrs) (\<lambda>((k, field, t), attrs).
         seq [rustdoc (re_member_docs (rc_env cx) i k), push_attrs attrs, print_text ''pub '',
           print_text (to_rust_ident (rc_env cx) field), print_text '': '',
           with_res (filter_mode cx t mode) (print_in_mode cx t), print_text ('','' @ nl)]),
       print_text (''}'' @ nl)]"

definition record_debug ::
    "('z, 'a) rust_cx \<Rightarrow> field list \<Rightarrow> string \<Rightarrow> type_mode \<Rightarrow> ('z, 'a) iface_gen step" where
  \<open>record_debug cx fs name mode =
     seq [impl_head ''::core::fmt::Debug'' name (tm_lifetime mode), print_text ('' {'' @ nl), print_text fmt_head,
       print_text (''f.debug_struct("'' @ name @ ''")''),
       for_each fs (\<lambda>(field, _).
         print_text (''.field("'' @ field @ ''", &self.'' @ to_rust_ident (rc_env cx) field @ '')'')),
       print_text (''.finish()'' @ nl), print_text (''}'' @ nl), print_text (''}'' @ nl)]\<close>

definition record_error :: "('z, 'a) rust_cx \<Rightarrow> string \<Rightarrow> type_mode \<Rightarrow> ('z, 'a) iface_gen step" where
  "record_error cx name mode =
     seq [display_impl name (tm_lifetime mode), std_only cx, print_text ''impl ::core::error::Error for '',
       print_text name, print_text ('' {}'' @ nl)]"

definition print_typedef_record :: "('z, 'a) rust_cx \<Rightarrow> tid \<Rightarrow> field list \<Rightarrow> ('z, 'a) iface_gen step" where
  "print_typedef_record cx i fs g =
     and_then (info cx i) (\<lambda>x.
     and_then (full_name cx i) (\<lambda>ty_name.
     let (injected, g) = additional_type_attrs cx ty_name g;
         (field_attrs, g) = members_attrs cx ty_name (map fst fs) g in
     and_then (modes_of cx i) (\<lambda>modes.
       for_each modes (\<lambda>(name, mode).
         seq [record_struct cx i fs x injected field_attrs name mode, record_debug cx fs name mode,
           if error x then record_error cx name mode else Inr]) g)))"

section \<open>Variants\<close>

definition print_rust_enum_debug ::
    "type_mode \<Rightarrow> string \<Rightarrow> (string \<times> ty option) list \<Rightarrow> ('z, 'a) iface_gen step" where
  \<open>print_rust_enum_debug mode name cases =
     seq [impl_head ''::core::fmt::Debug'' name (tm_lifetime mode), print_text ('' {'' @ nl), print_text fmt_head,
       print_text (''match self {'' @ nl),
       for_each cases (\<lambda>(case_name, payload).
         seq [print_text name, print_text ''::'', print_text case_name,
           if payload \<noteq> None then print_text ''(e)'' else Inr, print_text ('' => {'' @ nl),
           print_text (''f.debug_tuple("'' @ name @ ''::'' @ case_name @ ''")''),
           if payload \<noteq> None then print_text ''.field(e)'' else Inr,
           print_text (''.finish()'' @ nl), print_text (''}'' @ nl)]),
       print_text (''}'' @ nl), print_text (''}'' @ nl), print_text (''}'' @ nl)]\<close>

definition enum_body ::
    "('z, 'a) rust_cx \<Rightarrow> tid \<Rightarrow> vcase list \<Rightarrow> type_info \<Rightarrow> string list \<Rightarrow> string list list \<Rightarrow> string \<Rightarrow> type_mode
      \<Rightarrow> ('z, 'a) iface_gen step" where
  "enum_body cx i cases x injected case_attrs name mode =
     seq [type_docs cx i, print_derives (derives_of cx name (copy_or_clone x)), push_attrs injected,
       print_text (''pub enum '' @ name), print_generics (tm_lifetime mode), print_text ('' {'' @ nl),
       for_each (zip (enumerate 0 cases) case_attrs) (\<lambda>((k, case_name, payload), attrs).
         seq [rustdoc (re_member_docs (rc_env cx) i k), push_attrs attrs,
           print_text (re_upper_camel (rc_env cx) case_name),
           (case payload of
              Some t \<Rightarrow>
                seq [print_text ''('', with_res (filter_mode cx t mode) (print_in_mode cx t), print_text '')'']
            | None \<Rightarrow> Inr),
           print_text ('','' @ nl)]),
       print_text (''}'' @ nl)]"

definition enum_error :: "('z, 'a) rust_cx \<Rightarrow> string \<Rightarrow> type_mode \<Rightarrow> ('z, 'a) iface_gen step" where
  "enum_error cx name mode =
     seq [display_impl name (tm_lifetime mode), print_text nl, std_only cx,
       impl_head ''::core::error::Error'' name (tm_lifetime mode), print_text ('' {}'' @ nl)]"

definition print_rust_enum :: "('z, 'a) rust_cx \<Rightarrow> tid \<Rightarrow> vcase list \<Rightarrow> ('z, 'a) iface_gen step" where
  "print_rust_enum cx i cases g =
     and_then (info cx i) (\<lambda>x.
     and_then (full_name cx i) (\<lambda>ty_name.
     let (injected, g) = additional_type_attrs cx ty_name g;
         (case_attrs, g) = members_attrs cx ty_name (map fst cases) g in
     and_then (modes_of cx i) (\<lambda>modes.
       for_each modes (\<lambda>(name, mode).
         seq [enum_body cx i cases x injected case_attrs name mode,
           print_rust_enum_debug mode name (map (\<lambda>(c, t). (re_upper_camel (rc_env cx) c, t)) cases),
           if error x then enum_error cx name mode else Inr]) g)))"

section \<open>Aliases\<close>

definition print_typedef_option :: "('z, 'a) rust_cx \<Rightarrow> tid \<Rightarrow> ty \<Rightarrow> ('z, 'a) iface_gen step" where
  "print_typedef_option cx i payload =
     print_alias_modes cx i ''= ::core::option::Option<'' (\<lambda>mode.
       seq [print_in_mode cx payload mode, print_text (''>;'' @ nl)])"

definition print_typedef_result ::
    "('z, 'a) rust_cx \<Rightarrow> tid \<Rightarrow> ty option \<Rightarrow> ty option \<Rightarrow> ('z, 'a) iface_gen step" where
  "print_typedef_result cx i ok err =
     print_alias_modes cx i ''= ::core::result::Result<'' (\<lambda>mode.
       seq [print_optional_ty cx (print_in_mode cx) ok mode, print_text '','',
         print_optional_ty cx (print_in_mode cx) err mode, print_text (''>;'' @ nl)])"

definition print_typedef_alias :: "('z, 'a) rust_cx \<Rightarrow> tid \<Rightarrow> ty \<Rightarrow> ('z, 'a) iface_gen step" where
  "print_typedef_alias cx i t =
     seq [print_alias_modes cx i '' = '' (\<lambda>mode. seq [print_in_mode cx t mode, print_text ('';'' @ nl)]),
       with_res (is_exported_resource cx i) (\<lambda>exported.
         if exported then
           seq [type_docs cx i,
             with_res (resource_camel cx i) (\<lambda>name. print_text (''pub type '' @ name @ ''Borrow<'' @ lifetime_a @ ''>'')),
             print_text '' = '', print_in_mode cx t owned_mode, print_text (''Borrow<'' @ lifetime_a @ ''>''),
             print_text ('';'' @ nl)]
         else Inr)]"

definition print_type_tuple :: "('z, 'a) rust_cx \<Rightarrow> tid \<Rightarrow> ty list \<Rightarrow> ('z, 'a) iface_gen step" where
  "print_type_tuple cx i ts =
     print_alias_modes cx i '' = ('' (\<lambda>mode.
       seq [for_each ts (\<lambda>t. seq [with_res (filter_mode cx t mode) (print_in_mode cx t), print_text '','']),
         print_text ('');'' @ nl)])"

definition print_type_list :: "('z, 'a) rust_cx \<Rightarrow> tid \<Rightarrow> ty \<Rightarrow> ('z, 'a) iface_gen step" where
  "print_type_list cx i t =
     print_alias_modes cx i '' = '' (\<lambda>mode. seq [print_list cx (print_in_mode cx) t mode, print_text ('';'' @ nl)])"

definition print_type_map :: "('z, 'a) rust_cx \<Rightarrow> tid \<Rightarrow> ty \<Rightarrow> ty \<Rightarrow> ('z, 'a) iface_gen step" where
  "print_type_map cx i k v =
     print_alias_modes cx i '' = '' (\<lambda>mode. seq [print_map cx (print_in_mode cx) k v mode, print_text ('';'' @ nl)])"

definition print_type_fixed_length_list ::
    "('z, 'a) rust_cx \<Rightarrow> tid \<Rightarrow> ty \<Rightarrow> 32 word \<Rightarrow> ('z, 'a) iface_gen step" where
  "print_type_fixed_length_list cx i t n =
     print_alias_modes cx i '' = ['' (\<lambda>mode.
       seq [print_in_mode cx t mode, print_text (''; '' @ decimal (unat n) @ ''];'' @ nl)])"

definition print_type_reader ::
    "('z, 'a) rust_cx \<Rightarrow> tid \<Rightarrow> string \<Rightarrow> string \<Rightarrow> ty option \<Rightarrow> ('z, 'a) iface_gen step" where
  "print_type_reader cx i name reader t =
     seq [type_docs cx i, print_text (''pub type '' @ re_upper_camel (rc_env cx) name), print_text '' = '',
       print_text (async_support_path (rc_opts cx) @ ''::'' @ reader @ ''<''),
       print_optional_ty cx (print_in_mode cx) t owned_mode, print_text ''>'', print_text ('';'' @ nl)]"

section \<open>Enums\<close>

definition enum_matches ::
    "('z, 'a) rust_cx \<Rightarrow> string \<Rightarrow> (string \<times> string) list \<Rightarrow> ('z, 'a) iface_gen step" where
  \<open>enum_matches cx name rows =
     seq [print_text (''match self {'' @ nl),
       for_each rows (\<lambda>(c, row).
         seq [print_text name, print_text ''::'', print_text (re_upper_camel (rc_env cx) c), print_text '' => "'',
           print_text row, print_text (''",'' @ nl)]),
       print_text (''}'' @ nl), print_text (''}'' @ nl)]\<close>

definition enum_error_impls :: "('z, 'a) rust_cx \<Rightarrow> tid \<Rightarrow> string \<Rightarrow> string list \<Rightarrow> ('z, 'a) iface_gen step" where
  \<open>enum_error_impls cx i name cs =
     seq [print_text ''impl '', print_text name, print_text (''{'' @ nl),
       print_text (''pub fn name(&self) -> &'' @ CHR 0x27 # ''static str {'' @ nl),
       enum_matches cx name (map (\<lambda>c. (c, c)) cs),
       print_text (''pub fn message(&self) -> &'' @ CHR 0x27 # ''static str {'' @ nl),
       enum_matches cx name
         (map (\<lambda>(k, c). (c, case re_member_docs (rc_env cx) i k of Some docs \<Rightarrow> trim docs | None \<Rightarrow> [])) (enumerate 0 cs)),
       print_text (''}'' @ nl),
       print_text ''impl ::core::fmt::Debug for '', print_text name, print_text (''{'' @ nl @ fmt_head),
       print_text ''f.debug_struct("'', print_text name, print_text (''")'' @ nl),
       print_text (''.field("code", &(*self as i32))'' @ nl), print_text (''.field("name", &self.name())'' @ nl),
       print_text (''.field("message", &self.message())'' @ nl), print_text (''.finish()'' @ nl),
       print_text (''}'' @ nl), print_text (''}'' @ nl),
       print_text ''impl ::core::fmt::Display for '', print_text name, print_text (''{'' @ nl @ fmt_head),
       print_text (''write!(f, "{} (error {})", self.name(), *self as i32)'' @ nl),
       print_text (''}'' @ nl), print_text (''}'' @ nl), print_text nl, std_only cx,
       print_text ''impl ::core::error::Error for '', print_text name, print_text ('' {}'' @ nl)]\<close>

definition enum_case :: "('z, 'a) rust_cx \<Rightarrow> tid \<Rightarrow> string \<Rightarrow> nat \<times> string \<Rightarrow> ('z, 'a) iface_gen step" where
  "enum_case cx i ty_name = (\<lambda>(k, c).
     seq [rustdoc (re_member_docs (rc_env cx) i k),
       (\<lambda>g. let (attrs, g) = additional_member_attrs cx ty_name c g in push_attrs attrs g),
       print_text (re_upper_camel (rc_env cx) c), print_text ('','' @ nl)])"

definition enum_derives :: "string list" where
  "enum_derives = [''Clone'', ''Copy'', ''PartialEq'', ''Eq'', ''PartialOrd'', ''Ord'']"

definition enum_item ::
    "('z, 'a) wit_env \<Rightarrow> ('z, 'a) rust_cx \<Rightarrow> tid \<Rightarrow> string \<Rightarrow> string list \<Rightarrow> string \<Rightarrow> ('z, 'a) iface_gen step" where
  "enum_item E cx i name cs ty_name g =
     (let (injected, g) = additional_type_attrs cx ty_name g in
      seq [print_text ''#[repr('', print_text (int_repr_name (enum_tag E cs)), print_text ('')]'' @ nl),
        print_derives (derives_of cx name enum_derives), push_attrs injected,
        print_text (''pub enum '' @ name @ '' {'' @ nl), for_each (enumerate 0 cs) (enum_case cx i ty_name),
        print_text (''}'' @ nl)] g)"

definition print_typedef_enum ::
    "('z, 'a) wit_env \<Rightarrow> ('z, 'a) rust_cx \<Rightarrow> tid \<Rightarrow> string \<Rightarrow> string list \<Rightarrow> ('z, 'a) iface_gen step" where
  "print_typedef_enum E cx i name cs =
     with_res (info cx i) (\<lambda>x.
       let name = to_upper_camel_case (rc_env cx) name in
       seq [type_docs cx i, with_res (full_name cx i) (enum_item E cx i name cs),
         if error x then enum_error_impls cx i name cs
         else print_rust_enum_debug owned_mode name (map (\<lambda>c. (re_upper_camel (rc_env cx) c, None)) cs)])"

definition print_type_enum ::
    "('z, 'a) wit_env \<Rightarrow> ('z, 'a) rust_cx \<Rightarrow> tid \<Rightarrow> string \<Rightarrow> string list \<Rightarrow> ('z, 'a) iface_gen step" where
  \<open>print_type_enum E cx i name cs =
     seq [print_typedef_enum E cx i name cs,
       (let name = to_upper_camel_case (rc_env cx) name; repr = int_repr_name (enum_tag E cs);
            cases = concat (map (\<lambda>(k, c).
              decimal k @ '' => '' @ name @ ''::'' @ re_upper_camel (rc_env cx) c @ '','' @ nl) (enumerate 0 cs)) in
        print_pieces [
          text_lines ['''', spaces 16 @ ''impl ''],
          name,
          text_lines ['' {'', spaces 20 @ ''#[doc(hidden)]'', spaces 20 @ ''pub unsafe fn _lift(val: ''],
          repr,
          '') -> '',
          name,
          text_lines ['' {'', spaces 24 @ ''if !cfg!(debug_assertions) {'', spaces 28 @ ''return unsafe { ::core::mem::transmute(val) };'', spaces 24 @ ''}'', '''', spaces 24 @ ''match val {'', spaces 28],
          cases,
          text_lines ['''', spaces 28 @ ''_ => panic!("invalid enum discriminant"),'', spaces 24 @ ''}'', spaces 20 @ ''}'', spaces 16 @ ''}'', spaces 12, '''']])]\<close>

section \<open>Flags\<close>

definition bitflags_path :: "rust_opts \<Rightarrow> string" where
  "bitflags_path opts = (case op_bitflags_path opts of Some p \<Rightarrow> p | None \<Rightarrow> runtime_path opts @ ''::bitflags'')"

definition print_type_flags ::
    "('z, 'a) wit_env \<Rightarrow> ('z, 'a) rust_cx \<Rightarrow> tid \<Rightarrow> string \<Rightarrow> string list \<Rightarrow> ('z, 'a) iface_gen step" where
  "print_type_flags E cx i name fs =
     seq [print_text (bitflags_path (rc_opts cx) @ ''::bitflags! {'' @ nl), type_docs cx i,
       with_res (rust_flags_repr_new (flags_repr_of E fs)) (\<lambda>repr.
         print_text (''#[derive(PartialEq, Eq, PartialOrd, Ord, Hash, Debug, Clone, Copy)]'' @ nl @ ''pub struct '' @
           re_upper_camel (rc_env cx) name @ '': '' @ rust_flags_repr_name repr @ '' {'' @ nl)),
       for_each (enumerate 0 fs) (\<lambda>(k, flag).
         seq [rustdoc (re_member_docs (rc_env cx) i k),
           print_text (''const '' @ re_shouty_snake (rc_env cx) flag @ '' = 1 << '' @ decimal k @ '';'' @ nl)]),
       print_text (''}'' @ nl), print_text (''}'' @ nl)]"

section \<open>Resources\<close>

definition path_to_resource :: "('z, 'a) rust_cx \<Rightarrow> ('z, 'a) iface_gen \<Rightarrow> string \<times> ('z, 'a) iface_gen" where
  "path_to_resource cx g = path_from_runtime_module cx ResourceType ''Resource'' g"

definition path_to_wasm_resource :: "('z, 'a) rust_cx \<Rightarrow> ('z, 'a) iface_gen \<Rightarrow> string \<times> ('z, 'a) iface_gen" where
  "path_to_wasm_resource cx g = path_from_runtime_module cx ResourceType ''WasmResource'' g"

definition imported_resource :: "string \<Rightarrow> string \<Rightarrow> string list" where
  \<open>imported_resource camel resource =
     [
      text_lines ['''', spaces 20 @ ''#[derive(Debug)]'', spaces 20 @ ''#[repr(transparent)]'', spaces 20 @ ''pub struct ''],
      camel,
      text_lines ['' {'', spaces 24 @ ''handle: ''],
      resource,
      ''<'',
      camel,
      text_lines [''>,'', spaces 20 @ ''}'', '''', spaces 20 @ ''impl ''],
      camel,
      text_lines ['' {'', spaces 24 @ ''#[doc(hidden)]'', spaces 24 @ ''pub unsafe fn from_handle(handle: u32) -> Self {'', spaces 28 @ ''Self {'', spaces 32 @ ''handle: unsafe { ''],
      resource,
      text_lines [''::from_handle(handle) },'', spaces 28 @ ''}'', spaces 24 @ ''}'', '''', spaces 24 @ ''#[doc(hidden)]'', spaces 24 @ ''pub fn take_handle(&self) -> u32 {'', spaces 28],
      resource,
      text_lines [''::take_handle(&self.handle)'', spaces 24 @ ''}'', '''', spaces 24 @ ''#[doc(hidden)]'', spaces 24 @ ''pub fn handle(&self) -> u32 {'', spaces 28],
      resource,
      text_lines [''::handle(&self.handle)'', spaces 24 @ ''}'', spaces 20 @ ''}'', spaces 16, '''']]\<close>

definition exported_resource :: "string \<Rightarrow> string \<Rightarrow> string \<Rightarrow> string list" where
  \<open>exported_resource camel resource rt =
     [
      text_lines ['''', ''#[derive(Debug)]'', ''#[repr(transparent)]'', ''pub struct ''],
      camel,
      text_lines ['' {'', ''    handle: ''],
      resource,
      ''<'',
      camel,
      text_lines [''>,'', ''}'', '''', ''impl ''],
      camel,
      text_lines ['' {'', ''    /// Creates a new resource from the specified representation.'', ''    ///'', ''    /// This function will create a new resource handle by moving `val` onto'', ''    /// the heap and then passing that heap pointer to the component model to'', ''    /// create a handle. The owned handle is then returned as `''],
      camel,
      text_lines [''`.'', ''    pub fn new<T: Guest''],
      camel,
      text_lines [''>(val: T) -> Self {'', ''        Self::type_guard::<T>();'', ''        let rep = <T::Rep as ''],
      rt,
      text_lines [''::ResourceRep<T>>::rep_new(val);'', ''        unsafe {'', spaces 12 @ ''let ptr = T::resource_into_raw_(rep);'', spaces 12 @ ''Self::from_handle(T::_resource_new(ptr.cast()))'', ''        }'', ''    }'', '''', ''    /// Gets access to the underlying `T` which represents this resource.'', ''    pub fn get<T: Guest''],
      camel,
      text_lines [''>(&self) -> &T {'', ''        let ptr = self.as_ptr::<T>();'', ''        unsafe { <T::Rep as ''],
      rt,
      text_lines [''::ResourceRep<T>>::rep_as_ref(ptr) }'', ''    }'', '''', ''    /// Gets mutable access to the underlying `T` which represents this'', ''    /// resource.'', ''    pub fn get_mut<T: Guest''],
      camel,
      text_lines [''>(&mut self) -> &mut T {'', ''        let ptr = self.as_ptr::<T>();'', ''        unsafe { <T::Rep as ''],
      rt,
      text_lines [''::ResourceRep<T>>::rep_as_mut(ptr) }'', ''    }'', '''', ''    /// Consumes this resource and returns the underlying `T`.'', ''    pub fn into_inner<T: Guest''],
      camel,
      text_lines [''>(self) -> T {'', ''        let ptr = self.as_ptr::<T>();'', ''        unsafe { <T::Rep as ''],
      rt,
      text_lines [''::ResourceRep<T>>::rep_take(ptr) }'', ''    }'', '''', ''    #[doc(hidden)]'', ''    pub unsafe fn from_handle(handle: u32) -> Self {'', ''        Self {'', spaces 12 @ ''handle: unsafe { ''],
      resource,
      text_lines [''::from_handle(handle) },'', ''        }'', ''    }'', '''', ''    #[doc(hidden)]'', ''    pub fn take_handle(&self) -> u32 {'', ''        ''],
      resource,
      text_lines [''::take_handle(&self.handle)'', ''    }'', '''', ''    #[doc(hidden)]'', ''    pub fn handle(&self) -> u32 {'', ''        ''],
      resource,
      text_lines [''::handle(&self.handle)'', ''    }'', '''', ''    // It's theoretically possible to implement the `Guest''],
      camel,
      text_lines [''` trait twice'', ''    // so guard against using it with two different types here.'', ''    #[doc(hidden)]'', ''    fn type_guard<T: ''],
      rt,
      text_lines [''::Resource>() {'', ''        use core::any::TypeId;'', ''        static mut LAST_TYPE: Option<TypeId> = None;'', ''        unsafe {'', spaces 12 @ ''assert!(!cfg!(target_feature = "atomics"));'', spaces 12 @ ''let id = TypeId::of::<T>();'', spaces 12 @ ''match LAST_TYPE {'', spaces 16 @ ''Some(ty) => assert!(ty == id, "cannot use two types with this resource type"),'', spaces 16 @ ''None => LAST_TYPE = Some(id),'', spaces 12 @ ''}'', ''        }'', ''    }'', '''', ''    #[doc(hidden)]'', ''    pub unsafe fn dtor<T: Guest''],
      camel,
      text_lines [''>(handle: *mut u8) {'', ''        Self::type_guard::<T>();'', ''        unsafe {'', spaces 12 @ ''let _rep = T::resource_from_raw_(handle.cast());'', ''        }'', ''    }'', '''', ''    fn as_ptr<T: Guest''],
      camel,
      text_lines [''>(&self) -> *mut T::Rep {'', ''       ''],
      camel,
      text_lines [''::type_guard::<T>();'', ''       T::_resource_rep(self.handle()).cast()'', ''    }'', ''}'', '''', ''/// A borrowed version of [`''],
      camel,
      text_lines [''`] which represents a borrowed value'', ''/// with the lifetime `'a`.'', ''#[derive(Debug)]'', ''#[repr(transparent)]'', ''pub struct ''],
      camel,
      text_lines [''Borrow<'a> {'', ''    rep: *const u8,'', ''    _marker: core::marker::PhantomData<&'a ''],
      camel,
      text_lines [''>,'', ''}'', '''', ''impl<'a> ''],
      camel,
      text_lines [''Borrow<'a>{'', ''    #[doc(hidden)]'', ''    pub unsafe fn lift(rep: *const u8) -> Self {'', ''        Self {'', spaces 12 @ ''rep,'', spaces 12 @ ''_marker: core::marker::PhantomData,'', ''        }'', ''    }'', '''', ''    /// Gets access to the underlying `T` in this resource.'', ''    pub fn get<T: Guest''],
      camel,
      text_lines [''>(&self) -> &'a T {'', ''       let ptr = self.as_ptr::<T>();'', ''       unsafe { <T::Rep as ''],
      rt,
      text_lines [''::ResourceRep<T>>::rep_as_ref(ptr) }'', ''    }'', '''', ''    // NB: mutable access is not allowed due to the component model allowing'', ''    // multiple borrows of the same resource.'', '''', ''    fn as_ptr<T: Guest''],
      camel,
      text_lines [''>(&self) -> *const T::Rep {'', ''       ''],
      camel,
      text_lines [''::type_guard::<T>();'', ''       self.rep.cast()'', ''    }'', ''}'', spaces 16, '''']]\<close>

text \<open>The struct of a resource, and the module from which its destructor is imported.\<close>

definition resource_module :: "('z, 'a) rust_cx \<Rightarrow> string res" where
  "resource_module cx =
     (if rc_in_import cx then Inr (rc_wasm_import_module cx)
      else
        (case rc_identifier cx of
           IdInterface _ key \<Rightarrow> Inr (''[export]'' @ re_name_world_key (rc_env cx) (rc_resolve cx) key)
         | IdWorld _ \<Rightarrow> Inl Explicit_Panic
         | IdPayload \<Rightarrow> Inl Unreachable_Code))"

definition print_type_resource ::
    "('z, 'a) rust_cx \<Rightarrow> tid \<Rightarrow> string \<Rightarrow> ('z, 'a) iface_gen step" where
  \<open>print_type_resource cx i name g =
     and_then (type_docs cx i g) (\<lambda>g.
       let camel = to_upper_camel_case (rc_env cx) name; (resource, g) = path_to_resource cx g in
       and_then (resource_module cx) (\<lambda>wasm_import_module.
       and_then
         (print_pieces
           (if rc_in_import cx then imported_resource camel resource
            else exported_resource camel resource (runtime_path (rc_opts cx))) g) (\<lambda>g.
       let (wasm_resource, g) = path_to_wasm_resource cx g in
       and_then (declare_import wasm_import_module (''[resource-drop]'' @ name) ''drop'' [WI32] []) (\<lambda>intrinsic.
         print_pieces [
           text_lines ['''', spaces 16 @ ''unsafe impl ''],
           wasm_resource,
           '' for '',
           camel,
           text_lines ['' {'', spaces 21 @ ''#[inline]'', spaces 21 @ ''unsafe fn drop(_handle: u32) {'', spaces 25],
           intrinsic,
           text_lines ['''', spaces 25 @ ''unsafe { drop(_handle as i32); }'', spaces 21 @ ''}'', spaces 16 @ ''}'', spaces 12, '''']] g))))\<close>

section \<open>By kind\<close>

definition rust_interface_generator ::
    "('z, 'a) wit_env \<Rightarrow> ('z, 'a) rust_cx \<Rightarrow> ('z, 'a) iface_gen interface_generator" where
  "rust_interface_generator E cx =
     \<lparr>type_record = (\<lambda>i _ fs. print_typedef_record cx i fs),
      type_resource = print_type_resource cx,
      type_flags = print_type_flags E cx,
      type_tuple = (\<lambda>i _ ts. print_type_tuple cx i ts),
      type_variant = (\<lambda>i _ cs. print_rust_enum cx i cs),
      type_option = (\<lambda>i _ t. print_typedef_option cx i t),
      type_result = (\<lambda>i _ ok err. print_typedef_result cx i ok err),
      type_enum = print_type_enum E cx,
      type_alias_of = (\<lambda>i _ t. print_typedef_alias cx i t),
      type_list = (\<lambda>i _ t. print_type_list cx i t),
      type_fixed_length_list = (\<lambda>i _ t n. print_type_fixed_length_list cx i t n),
      type_map = (\<lambda>i _ k v. print_type_map cx i k v),
      type_future = (\<lambda>i name t. print_type_reader cx i name ''FutureReader'' t),
      type_stream = (\<lambda>i name t. print_type_reader cx i name ''StreamReader'' t)\<rparr>"

definition merge_structurally_equal_types :: "rust_opts \<Rightarrow> bool" where
  "merge_structurally_equal_types opts =
     (case op_merge_structurally_equal_types opts of None \<Rightarrow> False | Some None \<Rightarrow> True | Some (Some val) \<Rightarrow> val)"

definition rust_define_type ::
    "('z, 'a) wit_env \<Rightarrow> ('z, 'a) rust_cx \<Rightarrow> string \<times> tid \<Rightarrow> ('z, 'a) iface_gen step" where
  "rust_define_type E cx = (\<lambda>(name, i) g.
     and_then (get_representative_type (rw_types (ig_gen g)) i) (\<lambda>(equal, types).
       let g = g\<lparr>ig_gen := (ig_gen g)\<lparr>rw_types := types\<rparr>\<rparr> in
       if \<not> merge_structurally_equal_types (rc_opts cx) \<or> equal = i then
         define_type (rust_interface_generator E cx) (rc_resolve cx) name i g
       else print_typedef_alias cx i (TId equal) g))"

end
