(* ===== verification/Rust_Runtime.thy ===== *)
theory Rust_Runtime
  imports Rust_State
begin

text \<open>
  The runtime module \<open>_rt\<close> of the generated code (\<open>crates/rust/src/lib.rs\<close>): the helpers the generated
  code refers to, each emitted once, together with the helpers that these need in turn, and the
  modules with the tables of the payloads of futures and streams.
\<close>

section \<open>The items\<close>

definition as_trait_head :: "string \<Rightarrow> string \<Rightarrow> string" where
  \<open>as_trait_head ty upcase =
     text_lines [
        '''',
        ''pub fn as_'' @ ty @ ''<T: As'' @ upcase @ ''>(t: T) -> '' @ ty @ '' {'',
        ''    t.as_'' @ ty @ ''()'',
        ''}'',
        '''',
        ''pub trait As'' @ upcase @ '' {'',
        ''    fn as_'' @ ty @ ''(self) -> '' @ ty @ '';'',
        ''}'',
        '''',
        ''impl<'a, T: Copy + As'' @ upcase @ ''> As'' @ upcase @ '' for &'a T {'',
        ''    fn as_'' @ ty @ ''(self) -> '' @ ty @ '' {'',
        ''        (*self).as_'' @ ty @ ''()'',
        ''    }'',
        ''}'',
        spaces 12]\<close>

definition as_trait_impl :: "string \<Rightarrow> string \<Rightarrow> string \<Rightarrow> string" where
  \<open>as_trait_impl ty upcase to_convert =
     text_lines [
        '''',
        ''impl As'' @ upcase @ '' for '' @ to_convert @ '' {'',
        ''    #[inline]'',
        ''    fn as_'' @ ty @ ''(self) -> '' @ ty @ '' {'',
        ''        self as '' @ ty,
        ''    }'',
        ''}'',
        spaces 16]\<close>

text \<open>\<open>upcase\<close> is \<open>to_uppercase\<close> of the name of the type.\<close>

definition emit_runtime_as_trait :: "string \<Rightarrow> string \<Rightarrow> string list \<Rightarrow> rust_wasm \<Rightarrow> rust_wasm" where
  "emit_runtime_as_trait ty upcase to_convert w =
     foldl (\<lambda>w t. put (as_trait_impl ty upcase t) w) (put (as_trait_head ty upcase) w) to_convert"

definition cabi_dealloc_text :: string where
  \<open>cabi_dealloc_text = text_lines [
        ''pub unsafe fn cabi_dealloc(ptr: *mut u8, size: usize, align: usize) {'',
        ''    if size == 0 {'',
        ''        return;'',
        ''    }'',
        ''    unsafe {'',
        ''        let layout = alloc::Layout::from_size_align_unchecked(size, align);'',
        ''        alloc::dealloc(ptr, layout);'',
        ''    }'',
        ''}'',
        spaces 20]\<close>

definition string_lift_text :: string where
  \<open>string_lift_text = text_lines [
        ''pub unsafe fn string_lift(bytes: Vec<u8>) -> String {'',
        ''    if cfg!(debug_assertions) {'',
        ''        String::from_utf8(bytes).unwrap()'',
        ''    } else {'',
        ''        unsafe { String::from_utf8_unchecked(bytes) }'',
        ''    }'',
        ''}'',
        spaces 20]\<close>

definition invalid_enum_text :: string where
  \<open>invalid_enum_text = text_lines [
        ''pub unsafe fn invalid_enum_discriminant<T>() -> T {'',
        ''    if cfg!(debug_assertions) {'',
        ''        panic!("invalid enum discriminant")'',
        ''    } else {'',
        ''        unsafe { core::hint::unreachable_unchecked() }'',
        ''    }'',
        ''}'',
        spaces 20]\<close>

definition char_lift_text :: string where
  \<open>char_lift_text = text_lines [
        ''pub unsafe fn char_lift(val: u32) -> char {'',
        ''    if cfg!(debug_assertions) {'',
        ''        core::char::from_u32(val).unwrap()'',
        ''    } else {'',
        ''        unsafe { core::char::from_u32_unchecked(val) }'',
        ''    }'',
        ''}'',
        spaces 20]\<close>

definition bool_lift_text :: string where
  \<open>bool_lift_text = text_lines [
        ''pub unsafe fn bool_lift(val: u8) -> bool {'',
        ''    if cfg!(debug_assertions) {'',
        ''        match val {'',
        spaces 12 @ ''0 => false,'',
        spaces 12 @ ''1 => true,'',
        spaces 12 @ ''_ => panic!("invalid bool discriminant"),'',
        ''        }'',
        ''    } else {'',
        ''        val != 0'',
        ''    }'',
        ''}'',
        spaces 20]\<close>

definition run_ctors_text :: "string \<Rightarrow> string" where
  \<open>run_ctors_text rt = text_lines [
        '''',
        ''#[cfg(target_arch = "wasm32")]'',
        ''pub fn run_ctors_once() {'',
        ''    '' @ rt @ ''::run_ctors_once();'',
        ''}'',
        spaces 20]\<close>

definition resource_type_text :: string where
  \<open>resource_type_text = text_lines [
        '''',
        '''',
        ''use core::fmt;'',
        ''use core::marker;'',
        ''use core::sync::atomic::{AtomicU32, Ordering::Relaxed};'',
        '''',
        ''/// A type which represents a component model resource, either imported or'',
        ''/// exported into this component.'',
        ''///'',
        ''/// This is a low-level wrapper which handles the lifetime of the resource'',
        ''/// (namely this has a destructor). The `T` provided defines the component model'',
        ''/// intrinsics that this wrapper uses.'',
        ''///'',
        ''/// One of the chief purposes of this type is to provide `Deref` implementations'',
        ''/// to access the underlying data when it is owned.'',
        ''///'',
        ''/// This type is primarily used in generated code for exported and imported'',
        ''/// resources.'',
        ''#[repr(transparent)]'',
        ''pub struct Resource<T: WasmResource> {'',
        ''    // NB: This would ideally be `u32` but it is not. The fact that this has'',
        ''    // interior mutability is not exposed in the API of this type except for the'',
        ''    // `take_handle` method which is supposed to in theory be private.'',
        ''    //'',
        ''    // This represents, almost all the time, a valid handle value. When it's'',
        ''    // invalid it's stored as `u32::MAX`.'',
        ''    handle: AtomicU32,'',
        ''    _marker: marker::PhantomData<T>,'',
        ''}'',
        '''',
        ''/// A trait which all wasm resources implement, namely providing the ability to'',
        ''/// drop a resource.'',
        ''///'',
        ''/// This generally is implemented by generated code, not user-facing code.'',
        ''#[allow(clippy::missing_safety_doc)]'',
        ''pub unsafe trait WasmResource {'',
        ''    /// Invokes the `[resource-drop]...` intrinsic.'',
        ''    unsafe fn drop(handle: u32);'',
        ''}'',
        '''',
        ''impl<T: WasmResource> Resource<T> {'',
        ''    #[doc(hidden)]'',
        ''    pub unsafe fn from_handle(handle: u32) -> Self {'',
        ''        debug_assert!(handle != 0 && handle != u32::MAX);'',
        ''        Self {'',
        spaces 12 @ ''handle: AtomicU32::new(handle),'',
        spaces 12 @ ''_marker: marker::PhantomData,'',
        ''        }'',
        ''    }'',
        '''',
        ''    /// Takes ownership of the handle owned by `resource`.'',
        ''    ///'',
        ''    /// Note that this ideally would be `into_handle` taking `Resource<T>` by'',
        ''    /// ownership. The code generator does not enable that in all situations,'',
        ''    /// unfortunately, so this is provided instead.'',
        ''    ///'',
        ''    /// Also note that `take_handle` is in theory only ever called on values'',
        ''    /// owned by a generated function. For example a generated function might'',
        ''    /// take `Resource<T>` as an argument but then call `take_handle` on a'',
        ''    /// reference to that argument. In that sense the dynamic nature of'',
        ''    /// `take_handle` should only be exposed internally to generated code, not'',
        ''    /// to user code.'',
        ''    #[doc(hidden)]'',
        ''    pub fn take_handle(resource: &Resource<T>) -> u32 {'',
        ''        resource.handle.swap(u32::MAX, Relaxed)'',
        ''    }'',
        '''',
        ''    #[doc(hidden)]'',
        ''    pub fn handle(resource: &Resource<T>) -> u32 {'',
        ''        resource.handle.load(Relaxed)'',
        ''    }'',
        ''}'',
        '''',
        ''impl<T: WasmResource> fmt::Debug for Resource<T> {'',
        ''    fn fmt(&self, f: &mut fmt::Formatter<'_>) -> fmt::Result {'',
        ''        f.debug_struct("Resource")'',
        spaces 12 @ ''.field("handle", &self.handle)'',
        spaces 12 @ ''.finish()'',
        ''    }'',
        ''}'',
        '''',
        ''impl<T: WasmResource> Drop for Resource<T> {'',
        ''    fn drop(&mut self) {'',
        ''        unsafe {'',
        spaces 12 @ ''match self.handle.load(Relaxed) {'',
        spaces 16 @ ''// If this handle was "taken" then don't do anything in the'',
        spaces 16 @ ''// destructor.'',
        spaces 16 @ ''u32::MAX => {}'',
        '''',
        spaces 16 @ ''// ... but otherwise do actually destroy it with the imported'',
        spaces 16 @ ''// component model intrinsic as defined through `T`.'',
        spaces 16 @ ''other => T::drop(other),'',
        spaces 12 @ ''}'',
        ''        }'',
        ''    }'',
        ''}'',
        spaces 20]\<close>

definition emit_runtime_item :: "rust_opts \<Rightarrow> runtime_item \<Rightarrow> rust_wasm \<Rightarrow> rust_wasm" where
  "emit_runtime_item opts item w =
     (case item of
        AllocCrate \<Rightarrow> put_pieces [''extern crate alloc as alloc_crate;'' @ nl] w
      | StdAllocModule \<Rightarrow> put_pieces [''pub use alloc_crate::alloc;'' @ nl] (need AllocCrate w)
      | StringType \<Rightarrow> put_pieces [''pub use alloc_crate::string::String;'' @ nl] (need AllocCrate w)
      | BoxType \<Rightarrow> put_pieces [''pub use alloc_crate::boxed::Box;'' @ nl] (need AllocCrate w)
      | VecType \<Rightarrow> put_pieces [''pub use alloc_crate::vec::Vec;'' @ nl] (need AllocCrate w)
      | CabiDealloc \<Rightarrow> put cabi_dealloc_text (need StdAllocModule w)
      | StringLiftItem \<Rightarrow> put string_lift_text (need StringType w)
      | InvalidEnumDiscriminant \<Rightarrow> put invalid_enum_text w
      | CharLift \<Rightarrow> put char_lift_text w
      | BoolLift \<Rightarrow> put bool_lift_text w
      | RunCtorsOnce \<Rightarrow> put (run_ctors_text (runtime_path opts)) w
      | AsI32 \<Rightarrow> emit_runtime_as_trait ''i32'' ''I32''
          [''i32'', ''u32'', ''i16'', ''u16'', ''i8'', ''u8'', ''char'', ''usize''] w
      | AsI64 \<Rightarrow> emit_runtime_as_trait ''i64'' ''I64'' [''i64'', ''u64''] w
      | AsF32 \<Rightarrow> emit_runtime_as_trait ''f32'' ''F32'' [''f32''] w
      | AsF64 \<Rightarrow> emit_runtime_as_trait ''f64'' ''F64'' [''f64''] w
      | WitMapTrait \<Rightarrow> put_pieces [''pub use '', runtime_path opts, ''::WitMap;'' @ nl] w
      | ResourceType \<Rightarrow> put resource_type_text w)"

section \<open>The module\<close>

text \<open>The loops of \<open>finish_runtime_module\<close>; the first component is \<open>emitted\<close>.\<close>

fun emit_items ::
    "rust_opts \<Rightarrow> runtime_item list \<Rightarrow> runtime_item list \<times> rust_wasm \<Rightarrow> runtime_item list \<times> rust_wasm" where
  "emit_items opts [] (emitted, w) = (emitted, w)"
| "emit_items opts (item # items) (emitted, w) =
     (if item \<in> set emitted then emit_items opts items (emitted, w)
      else emit_items opts items (emitted @ [item], emit_runtime_item opts item w))"

instantiation runtime_item :: finite
begin
instance
proof
  have "(UNIV :: runtime_item set) \<subseteq>
      {AllocCrate, StringType, StdAllocModule, VecType, StringLiftItem, InvalidEnumDiscriminant, CharLift, BoolLift,
       CabiDealloc, RunCtorsOnce, AsI32, AsI64, AsF32, AsF64, ResourceType, BoxType, WitMapTrait}"
    by (auto intro: runtime_item.exhaust)
  then show "finite (UNIV :: runtime_item set)" by (rule finite_subset) simp
qed
end

text \<open>What an item needs, in the order in which \<open>emit_runtime_item\<close> asks for it.\<close>

definition requires :: "runtime_item \<Rightarrow> runtime_item list" where
  "requires item =
     (case item of
        StdAllocModule \<Rightarrow> [AllocCrate] | StringType \<Rightarrow> [AllocCrate] | BoxType \<Rightarrow> [AllocCrate] | VecType \<Rightarrow> [AllocCrate]
      | CabiDealloc \<Rightarrow> [StdAllocModule] | StringLiftItem \<Rightarrow> [StringType] | _ \<Rightarrow> [])"

lemma emit_runtime_item_frame [simp]:
  "rw_rt_module (emit_runtime_item opts item w) = foldl (\<lambda>xs x. index_insert x xs) (rw_rt_module w) (requires item)"
  "rw_future_payloads (emit_runtime_item opts item w) = rw_future_payloads w"
  "rw_stream_payloads (emit_runtime_item opts item w) = rw_stream_payloads w"
proof -
  have as_trait: "rw_rt_module (foldl (\<lambda>w t. put (f t) w) w ts) = rw_rt_module w"
    "rw_future_payloads (foldl (\<lambda>w t. put (f t) w) w ts) = rw_future_payloads w"
    "rw_stream_payloads (foldl (\<lambda>w t. put (f t) w) w ts) = rw_stream_payloads w" for f ts and w :: rust_wasm
    by (induction ts arbitrary: w) (simp_all add: put_def)
  show "rw_rt_module (emit_runtime_item opts item w) = foldl (\<lambda>xs x. index_insert x xs) (rw_rt_module w) (requires item)"
    "rw_future_payloads (emit_runtime_item opts item w) = rw_future_payloads w"
    "rw_stream_payloads (emit_runtime_item opts item w) = rw_stream_payloads w"
    by (cases item; simp add: emit_runtime_item_def requires_def emit_runtime_as_trait_def as_trait put_def put_pieces_def
      need_def)+
qed

lemma as_trait_src:
  "rw_src w = rw_src v \<Longrightarrow>
    rw_src (emit_runtime_as_trait a b ts w) = rw_src (emit_runtime_as_trait a b ts v)"
proof -
  have "rw_src w = rw_src v \<Longrightarrow>
      rw_src (foldl (\<lambda>w t. put (f t) w) w ts) = rw_src (foldl (\<lambda>w t. put (f t) w) v ts)" for f and w v :: rust_wasm
    by (induction ts arbitrary: w v) (simp_all add: put_def)
  then show "rw_src w = rw_src v \<Longrightarrow> ?thesis" unfolding emit_runtime_as_trait_def by (simp add: put_def)
qed

lemma emit_runtime_item_src:
  "rw_src w = rw_src v \<Longrightarrow> rw_src (emit_runtime_item opts item w) = rw_src (emit_runtime_item opts item v)"
  by (cases item) (simp_all add: emit_runtime_item_def as_trait_src [of w v] put_def put_pieces_def need_def)

lemma set_insert_all [simp]: "set (foldl (\<lambda>xs x. index_insert x xs) xs ys) = set xs \<union> set ys"
  by (induction ys arbitrary: xs) auto

text \<open>The text of a list of items, written after \<open>s\<close>.\<close>

definition items_text :: "rust_opts \<Rightarrow> rust_wasm \<Rightarrow> source \<Rightarrow> runtime_item list \<Rightarrow> source" where
  "items_text opts w s items = foldl (\<lambda>s item. rw_src (emit_runtime_item opts item (w\<lparr>rw_src := s\<rparr>))) s items"

lemma emit_items_result:
  assumes "emit_items opts items (emitted, w) = (emitted', w')"
  obtains new where "emitted' = emitted @ new" "distinct new" "set new = set items - set emitted"
    "set (rw_rt_module w') = set (rw_rt_module w) \<union> (\<Union>i \<in> set new. set (requires i))"
    "rw_src w' = items_text opts v (rw_src w) new"
    "rw_future_payloads w' = rw_future_payloads w" "rw_stream_payloads w' = rw_stream_payloads w"
  using assms
proof (induction items arbitrary: emitted w thesis)
  case Nil
  then show ?case by (simp add: items_text_def)
next
  case (Cons item items)
  show ?case
  proof (cases "item \<in> set emitted")
    case True
    then have run: "emit_items opts items (emitted, w) = (emitted', w')" using Cons.prems(2) by simp
    show ?thesis by (rule Cons.IH [OF _ run], rule Cons.prems(1)) (use True in auto)
  next
    case False
    let ?w = "emit_runtime_item opts item w"
    have run: "emit_items opts items (emitted @ [item], ?w) = (emitted', w')" using False Cons.prems(2) by simp
    obtain new where new: "emitted' = (emitted @ [item]) @ new" "distinct new" "set new = set items - set (emitted @ [item])"
      "set (rw_rt_module w') = set (rw_rt_module ?w) \<union> (\<Union>i \<in> set new. set (requires i))"
      "rw_src w' = items_text opts v (rw_src ?w) new"
      "rw_future_payloads w' = rw_future_payloads ?w" "rw_stream_payloads w' = rw_stream_payloads ?w"
      using Cons.IH [OF _ run] by blast
    show ?thesis
    proof (rule Cons.prems(1) [of "item # new"])
      have "rw_src ?w = rw_src (emit_runtime_item opts item (v\<lparr>rw_src := rw_src w\<rparr>))"
        by (rule emit_runtime_item_src) simp
      then show "rw_src w' = items_text opts v (rw_src w) (item # new)" using new(5) by (simp add: items_text_def)
    qed (use new False in auto)
  qed
qed

function drain_runtime ::
    "rust_opts \<Rightarrow> runtime_item list \<times> rust_wasm \<Rightarrow> runtime_item list \<times> rust_wasm" where
  "drain_runtime opts (emitted, w) =
     (if rw_rt_module w = [] then (emitted, w)
      else drain_runtime opts (emit_items opts (rw_rt_module w) (emitted, w\<lparr>rw_rt_module := []\<rparr>)))"
  by pat_completeness auto

text \<open>Every turn emits an item that was not emitted yet, or leaves none to emit.\<close>

termination
proof (relation "measure (\<lambda>(opts, emitted, w). 2 * card (- set emitted) + (if rw_rt_module w = [] then 0 else 1))")
  fix opts emitted and w :: rust_wasm
  assume ne: "rw_rt_module w \<noteq> []"
  obtain emitted' w' where run: "emit_items opts (rw_rt_module w) (emitted, w\<lparr>rw_rt_module := []\<rparr>) = (emitted', w')" by fastforce
  obtain new where new: "emitted' = emitted @ new" "set new = set (rw_rt_module w) - set emitted"
    "set (rw_rt_module w') = (\<Union>i \<in> set new. set (requires i))"
    by (rule emit_items_result [OF run, where v = w]) simp_all
  have "2 * card (- set emitted') + (if rw_rt_module w' = [] then 0 else 1) < 2 * card (- set emitted) + 1"
  proof (cases "new = []")
    case True
    then show ?thesis using new by simp
  next
    case False
    then have "- set emitted' \<subset> - set emitted" using new(1,2) by (cases new) auto
    then have "card (- set emitted') < card (- set emitted)" by (intro psubset_card_mono) simp_all
    then show ?thesis by simp
  qed
  then show "((opts, emit_items opts (rw_rt_module w) (emitted, w\<lparr>rw_rt_module := []\<rparr>)), opts, emitted, w)
      \<in> measure (\<lambda>(opts, emitted, w). 2 * card (- set emitted) + (if rw_rt_module w = [] then 0 else 1))"
    using ne run by simp
qed simp

declare drain_runtime.simps [simp del]

definition requires_rel :: "(runtime_item \<times> runtime_item) set" where
  "requires_rel = {(i, j). j \<in> set (requires i)}"

text \<open>The items of the module: what is asked for and what that needs, each once.\<close>

lemma drain_runtime_result:
  assumes "distinct emitted" "set emitted \<union> set (rw_rt_module w) \<subseteq> A" "\<forall>i \<in> A. set (requires i) \<subseteq> A"
    "\<forall>i \<in> set emitted. set (requires i) \<subseteq> set emitted \<union> set (rw_rt_module w)"
  obtains new w' where "drain_runtime opts (emitted, w) = (emitted @ new, w')" "distinct (emitted @ new)"
    "set (rw_rt_module w) \<subseteq> set (emitted @ new)" "set (emitted @ new) \<subseteq> A"
    "\<forall>i \<in> set (emitted @ new). set (requires i) \<subseteq> set (emitted @ new)"
    "rw_rt_module w' = []" "rw_src w' = items_text opts v (rw_src w) new"
    "rw_future_payloads w' = rw_future_payloads w" "rw_stream_payloads w' = rw_stream_payloads w"
  using assms
proof (induction opts "(emitted, w)" arbitrary: emitted w thesis rule: drain_runtime.induct)
  case (1 opts emitted w)
  show ?case
  proof (cases "rw_rt_module w = []")
    case True
    then show ?thesis using "1.prems"(1) [of "[]" w] "1.prems"(2-) by (simp add: drain_runtime.simps items_text_def)
  next
    case False
    obtain emitted' w1 where run: "emit_items opts (rw_rt_module w) (emitted, w\<lparr>rw_rt_module := []\<rparr>) = (emitted', w1)"
      by fastforce
    obtain new where new: "emitted' = emitted @ new" "distinct new" "set new = set (rw_rt_module w) - set emitted"
      "set (rw_rt_module w1) = (\<Union>i \<in> set new. set (requires i))" "rw_src w1 = items_text opts v (rw_src w) new"
      "rw_future_payloads w1 = rw_future_payloads w" "rw_stream_payloads w1 = rw_stream_payloads w"
      by (rule emit_items_result [OF run, where v = v]) simp_all
    have inv: "distinct emitted'" "set emitted' \<union> set (rw_rt_module w1) \<subseteq> A"
      "\<forall>i \<in> set emitted'. set (requires i) \<subseteq> set emitted' \<union> set (rw_rt_module w1)"
      using "1.prems"(2-) new(1-4) by auto
    obtain more w2 where rec: "drain_runtime opts (emitted', w1) = (emitted' @ more, w2)" "distinct (emitted' @ more)"
      "set (rw_rt_module w1) \<subseteq> set (emitted' @ more)" "set (emitted' @ more) \<subseteq> A"
      "\<forall>i \<in> set (emitted' @ more). set (requires i) \<subseteq> set (emitted' @ more)"
      "rw_rt_module w2 = []" "rw_src w2 = items_text opts v (rw_src w1) more"
      "rw_future_payloads w2 = rw_future_payloads w1" "rw_stream_payloads w2 = rw_stream_payloads w1"
      by (rule "1.hyps" [OF False run _ inv(1,2) "1.prems"(4) inv(3)])
    show ?thesis
    proof (rule "1.prems"(1) [of "new @ more" w2])
      show "drain_runtime opts (emitted, w) = (emitted @ new @ more, w2)"
        using False run rec(1) new(1) by (simp add: drain_runtime.simps [of opts emitted])
      show "rw_src w2 = items_text opts v (rw_src w) (new @ more)" using rec(7) new(5) by (simp add: items_text_def)
    qed (use rec new in auto)
  qed
qed

lemma requires_closure:
  assumes "\<forall>i \<in> B. set (requires i) \<subseteq> B"
  shows "requires_rel\<^sup>* `` A \<subseteq> B \<longleftrightarrow> A \<subseteq> B"
proof
  assume "A \<subseteq> B"
  have "j \<in> B" if "(i, j) \<in> requires_rel\<^sup>*" "i \<in> B" for i j
    using that by (induction rule: rtrancl_induct) (use assms in \<open>auto simp: requires_rel_def\<close>)
  then show "requires_rel\<^sup>* `` A \<subseteq> B" using \<open>A \<subseteq> B\<close> by blast
qed blast

definition payload_module :: "string list \<Rightarrow> (ty option \<times> string) list \<Rightarrow> string list \<Rightarrow> rust_wasm \<Rightarrow> rust_wasm" where
  "payload_module before payloads after w =
     (if payloads = [] then w
      else put (text_lines after) (foldl (\<lambda>w (_, code). put code w) (put (text_lines before) w) payloads))"

definition wit_future_module :: "rust_opts \<Rightarrow> rust_wasm \<Rightarrow> rust_wasm" where
  \<open>wit_future_module opts w =
     (let async_support = async_support_path opts in
      payload_module
        [
         ''pub mod wit_future {'',
         ''    #![allow(dead_code, unused_variables, clippy::all)]'',
         '''',
         ''    #[doc(hidden)]'',
         ''    pub trait FuturePayload: Unpin + Sized + 'static {'',
         ''        const VTABLE: &'static '' @ async_support @ ''::FutureVtable<Self>;'',
         ''    }''] (rw_future_payloads w)
        [
         ''/// Creates a new Component Model `future` with the specified payload type.'',
         ''    ///'',
         ''    /// The `default` function provided computes the default value to be sent in'',
         ''    /// this future if no other value was otherwise sent.'',
         ''    pub fn new<T: FuturePayload>(default: fn() -> T) -> ('' @ async_support @ ''::FutureWriter<T>, '' @ async_support @ ''::FutureReader<T>) {'',
         ''        unsafe { '' @ async_support @ ''::future_new::<T>(default, T::VTABLE) }'',
         ''    }'',
         ''}'',
         spaces 16] w)\<close>

definition wit_stream_module :: "rust_opts \<Rightarrow> rust_wasm \<Rightarrow> rust_wasm" where
  \<open>wit_stream_module opts w =
     (let async_support = async_support_path opts in
      payload_module
        [
         ''pub mod wit_stream {'',
         ''    #![allow(dead_code, unused_variables, clippy::all)]'',
         '''',
         ''    pub trait StreamPayload: Unpin + Sized + 'static {'',
         ''        const VTABLE: &'static '' @ async_support @ ''::StreamVtable<Self>;'',
         ''    }''] (rw_stream_payloads w)
        [
         ''/// Creates a new Component Model `stream` with the specified payload type.'',
         ''    pub fn new<T: StreamPayload>() -> ('' @ async_support @ ''::StreamWriter<T>, '' @ async_support @ ''::StreamReader<T>) {'',
         ''        unsafe { '' @ async_support @ ''::stream_new::<T>(T::VTABLE) }'',
         ''    }'',
         ''}'',
         spaces 16] w)\<close>

definition runtime_module :: "rust_opts \<Rightarrow> rust_wasm \<Rightarrow> rust_wasm" where
  "runtime_module opts w =
     (if rw_rt_module w = [] then w
      else
        (let w = (if op_format opts then put_pieces [''#[rustfmt::skip]'' @ nl] w else w);
             w = put (''#![allow(dead_code, unused_imports, clippy::all)]'' @ nl) (put (''mod _rt {'' @ nl) w);
             (emitted, w) = drain_runtime opts ([], w) in
         put (''}'' @ nl) w))"

definition finish_runtime_module :: "rust_opts \<Rightarrow> rust_wasm \<Rightarrow> rust_wasm" where
  "finish_runtime_module opts w = wit_stream_module opts (wit_future_module opts (runtime_module opts w))"

lemma runtime_items:
  obtains emitted w' where "drain_runtime opts ([], w) = (emitted, w')" "distinct emitted"
    "set emitted = requires_rel\<^sup>* `` set (rw_rt_module w)" "rw_rt_module w' = []"
    "rw_src w' = items_text opts v (rw_src w) emitted"
proof -
  let ?A = "requires_rel\<^sup>* `` set (rw_rt_module w)"
  have "set (requires i) \<subseteq> ?A" if "i \<in> ?A" for i
    using that by (auto simp: requires_rel_def intro: rtrancl_into_rtrancl)
  then have A: "\<forall>i \<in> ?A. set (requires i) \<subseteq> ?A" by blast
  have start: "set [] \<union> set (rw_rt_module w) \<subseteq> ?A" by auto
  obtain new w' where run: "drain_runtime opts ([], w) = ([] @ new, w')" "distinct ([] @ new)"
    "set (rw_rt_module w) \<subseteq> set ([] @ new)" "set ([] @ new) \<subseteq> ?A"
    "\<forall>i \<in> set ([] @ new). set (requires i) \<subseteq> set ([] @ new)"
    "rw_rt_module w' = []" "rw_src w' = items_text opts v (rw_src w) new"
    by (rule drain_runtime_result [OF _ start A, where opts = opts and v = v]) simp_all
  have "?A \<subseteq> set new" using requires_closure [of "set new" "set (rw_rt_module w)"] run(3,5) by simp
  then show ?thesis using that [of new w'] run by auto
qed

end
