(* ===== verification/Rust_Section.thy ===== *)
theory Rust_Section
  imports Rust_State
begin

text \<open>
  The custom section and the export macro of the generated code (\<open>crates/rust/src/lib.rs\<close>). The
  section embeds the encoded world as a literal of bytes, which the Rust compiler reads back; the
  reading is \<open>read_bytes\<close>, after the Rust reference.
\<close>

section \<open>The literal\<close>

definition ascii_alphanumeric :: "8 word \<Rightarrow> bool" where
  "ascii_alphanumeric b \<longleftrightarrow> (0x30 \<le> b \<and> b \<le> 0x39) \<or> (0x41 \<le> b \<and> b \<le> 0x5A) \<or> (0x61 \<le> b \<and> b \<le> 0x7A)"

definition ascii_punctuation :: "8 word \<Rightarrow> bool" where
  "ascii_punctuation b \<longleftrightarrow>
     (0x21 \<le> b \<and> b \<le> 0x2F) \<or> (0x3A \<le> b \<and> b \<le> 0x40) \<or> (0x5B \<le> b \<and> b \<le> 0x60) \<or> (0x7B \<le> b \<and> b \<le> 0x7E)"

definition hex_digit :: "nat \<Rightarrow> char" where
  "hex_digit n = (if n < 10 then char_of (48 + n) else char_of (87 + n))"

abbreviation backslash :: char where
  "backslash \<equiv> CHR 0x5C"

text \<open>What is written for a byte, and how much longer the line gets.\<close>

definition byte_text :: "8 word \<Rightarrow> string \<times> nat" where
  \<open>byte_text b =
     (if b = 0x5C then ([backslash, backslash], 2)
      else if b = 0x22 then ([backslash, CHR ''"''], 2)
      else if ascii_alphanumeric b \<or> ascii_punctuation b then ([char_of (unat b)], 1)
      else if b = 0 then ([backslash, CHR ''0''], 2)
      else ([backslash, CHR ''x'', hex_digit (unat b div 16), hex_digit (unat b mod 16)], 4))\<close>

text \<open>The loop over the bytes with the length of the line so far.\<close>

fun literal_from :: "nat \<Rightarrow> 8 word list \<Rightarrow> string" where
  "literal_from line_length [] = []"
| "literal_from line_length (b # bs) =
     (let (brk, n) = (if 80 \<le> line_length then ([backslash, newline], 0) else ([], line_length));
          (t, k) = byte_text b in
      brk @ t @ literal_from (n + k) bs)"

text \<open>
  How the compiler reads a literal of bytes up to its closing quote: the bytes and the text after it.
  A backslash before a line feed makes it skip all blanks that follow.
\<close>

definition hex_value :: "char \<Rightarrow> nat option" where
  "hex_value c =
     (let n = of_char c in
      if 48 \<le> n \<and> n \<le> 57 then Some (n - 48)
      else if 97 \<le> n \<and> n \<le> 102 then Some (n - 87)
      else if 65 \<le> n \<and> n \<le> 70 then Some (n - 55)
      else None)"

definition skips :: "char \<Rightarrow> bool" where
  "skips c \<longleftrightarrow> c \<in> {CHR 0x09, CHR 0x0A, CHR 0x0D, CHR 0x20}"

function read_bytes :: "string \<Rightarrow> (8 word list \<times> string) option" where
  \<open>read_bytes s =
     (case s of
        [] \<Rightarrow> None
      | c # s \<Rightarrow>
          if c = CHR ''"'' then Some ([], s)
          else if c \<noteq> backslash then
            (if of_char c < (128 :: nat) then map_option (map_prod (Cons (word_of_nat (of_char c))) id) (read_bytes s) else None)
          else
            (case s of
               [] \<Rightarrow> None
             | c # s \<Rightarrow>
                 if c = newline then read_bytes (dropWhile skips s)
                 else if c = CHR ''x'' then
                   (case s of
                      h # l # s \<Rightarrow>
                        (case (hex_value h, hex_value l) of
                           (Some h, Some l) \<Rightarrow> map_option (map_prod (Cons (word_of_nat (16 * h + l))) id) (read_bytes s)
                         | _ \<Rightarrow> None)
                    | _ \<Rightarrow> None)
                 else
                   (case map_of [(CHR ''0'', 0), (backslash, 0x5C), (CHR ''"'', 0x22), (CHR 0x27, 0x27),
                        (CHR ''n'', 0x0A), (CHR ''r'', 0x0D), (CHR ''t'', 0x09)] c of
                      Some b \<Rightarrow> map_option (map_prod (Cons b) id) (read_bytes s)
                    | None \<Rightarrow> None)))\<close>
  by pat_completeness auto

termination
proof (relation "measure length")
  have drop: "length (dropWhile P s) \<le> length s" for P and s :: string by (rule length_dropWhile_le)
  show "(dropWhile skips y, s) \<in> measure length" if "s = c # x" "x = d # y" for s x y c d
    using drop [of skips y] that by simp
qed auto

declare read_bytes.simps [simp del]

subsection \<open>Reading what is written\<close>

lemma read_bytes_plain:
  "c \<noteq> CHR 0x22 \<Longrightarrow> c \<noteq> backslash \<Longrightarrow> of_char c < (128 :: nat) \<Longrightarrow>
    read_bytes (c # s) = map_option (map_prod (Cons (word_of_nat (of_char c))) id) (read_bytes s)"
  by (simp add: read_bytes.simps [of "c # s"])

lemma hex_digit_value: "n < 16 \<Longrightarrow> hex_value (hex_digit n) = Some n"
  by (simp add: hex_value_def hex_digit_def Let_def of_char_of)

lemma read_bytes_hex:
  "h < 16 \<Longrightarrow> l < 16 \<Longrightarrow>
    read_bytes (backslash # CHR ''x'' # hex_digit h # hex_digit l # s) =
      map_option (map_prod (Cons (word_of_nat (16 * h + l))) id) (read_bytes s)"
  by (simp add: read_bytes.simps [of "backslash # s'" for s'] hex_digit_value newline_def)

lemma read_bytes_escapes:
  "read_bytes (backslash # backslash # s) = map_option (map_prod (Cons 0x5C) id) (read_bytes s)"
  "read_bytes (backslash # CHR 0x22 # s) = map_option (map_prod (Cons 0x22) id) (read_bytes s)"
  "read_bytes (backslash # CHR ''0'' # s) = map_option (map_prod (Cons 0) id) (read_bytes s)"
  "read_bytes (backslash # newline # s) = read_bytes (dropWhile skips s)"
  "read_bytes (CHR 0x22 # s) = Some ([], s)"
  by (simp_all add: read_bytes.simps [of "backslash # s'" for s'] read_bytes.simps [of "CHR 0x22 # s"] newline_def)

lemma word_range: "(a \<le> b \<and> b \<le> c) \<longleftrightarrow> (unat a \<le> unat b \<and> unat b \<le> unat c)" for a b c :: "8 word"
  by (simp add: word_le_nat_alt)

lemma unat_not_numeral: "b \<noteq> numeral k \<Longrightarrow> unat b \<noteq> numeral k" for b :: "8 word"
proof
  assume "b \<noteq> numeral k" "unat b = numeral k"
  from arg_cong [OF this(2), of "word_of_nat :: nat \<Rightarrow> 8 word"] this(1) show False by simp
qed

lemma char_neq: "of_char x \<noteq> (of_char c :: nat) \<Longrightarrow> x \<noteq> (c :: char)"
  by blast

lemma read_byte_text: "read_bytes (fst (byte_text b) @ s) = map_option (map_prod (Cons b) id) (read_bytes s)"
proof -
  have small: "unat b < 256" using unsigned_less [of b, where 'a = nat] by simp
  consider "b = 0x5C" | "b = 0x22" | "b \<noteq> 0x5C" "b \<noteq> 0x22" "ascii_alphanumeric b \<or> ascii_punctuation b"
    | "b = 0" | "b \<noteq> 0x5C" "b \<noteq> 0x22" "\<not> (ascii_alphanumeric b \<or> ascii_punctuation b)" "b \<noteq> 0" by blast
  then show ?thesis
  proof cases
    case 3
    have range: "0x21 \<le> unat b" "unat b \<le> 0x7E"
      using 3(3) by (auto simp: ascii_alphanumeric_def ascii_punctuation_def word_range)
    have code: "of_char (char_of (unat b) :: char) = unat b" using small by (simp add: of_char_of)
    have ne: "unat b \<noteq> 0x5C" "unat b \<noteq> 0x22" using 3(1,2) by (auto dest: unat_not_numeral)
    have "char_of (unat b) \<noteq> CHR 0x22" "char_of (unat b) \<noteq> backslash"
      by (rule char_neq, use ne code in simp)+
    then show ?thesis using 3 code range by (simp add: byte_text_def read_bytes_plain)
  next
    case 5
    have "16 * (unat b div 16) + unat b mod 16 = unat b" by simp
    then show ?thesis using 5 small by (simp add: byte_text_def read_bytes_hex)
  qed (simp_all add: byte_text_def read_bytes_escapes ascii_alphanumeric_def ascii_punctuation_def)
qed

lemma byte_text_no_blank: "\<exists>c t. fst (byte_text b) = c # t \<and> \<not> skips c"
proof -
  have "\<not> skips (char_of (unat b))" if "0x21 \<le> unat b" "unat b \<le> 0x7E"
  proof
    have "of_char c \<le> (0x20 :: nat)" if "skips c" for c using that by (auto simp: skips_def)
    moreover assume "skips (char_of (unat b))"
    ultimately have "of_char (char_of (unat b) :: char) \<le> (0x20 :: nat)" by blast
    then show False using that by (simp add: of_char_of)
  qed
  moreover have "0x21 \<le> unat b \<and> unat b \<le> 0x7E" if "ascii_alphanumeric b \<or> ascii_punctuation b"
    using that by (auto simp: ascii_alphanumeric_def ascii_punctuation_def word_range)
  ultimately show ?thesis by (auto simp: byte_text_def skips_def)
qed

lemma literal_from_no_blank: "dropWhile skips (literal_from 0 bs @ CHR 0x22 # s) = literal_from 0 bs @ CHR 0x22 # s"
proof (cases bs)
  case Nil
  then show ?thesis by (simp add: skips_def)
next
  case (Cons b bs)
  obtain c t where "fst (byte_text b) = c # t" "\<not> skips c" using byte_text_no_blank by blast
  then show ?thesis using Cons by (simp add: Let_def split_beta)
qed

lemma read_literal: "read_bytes (literal_from n bs @ CHR 0x22 # s) = Some (bs, s)"
proof (induction bs arbitrary: n)
  case Nil
  then show ?case by (simp add: read_bytes_escapes)
next
  case (Cons b bs)
  obtain c t where first: "fst (byte_text b) = c # t" "\<not> skips c" using byte_text_no_blank by blast
  have "read_bytes (fst (byte_text b) @ literal_from k bs @ CHR 0x22 # s) = Some (b # bs, s)" for k
    unfolding read_byte_text Cons by simp
  then show ?case using first by (simp add: Let_def split_beta read_bytes_escapes)
qed

section \<open>The section\<close>

text \<open>
  The version of the crate, the display of package names and \<open>wit_component::metadata::encode\<close>, which
  gives the bytes of the component type.
\<close>

record section_env =
  se_version :: string
  se_package :: "package_name \<Rightarrow> string"
  se_encode :: "resolve \<Rightarrow> nat \<Rightarrow> 8 word list option"

definition link_helper :: "rust_opts \<Rightarrow> string \<Rightarrow> rust_wasm \<Rightarrow> rust_wasm" where
  \<open>link_helper opts func_name w =
     (let rt = runtime_path opts in
      put_pieces [
        text_lines ['''', spaces 16 @ ''#[inline(never)]'', spaces 16 @ ''#[doc(hidden)]'', spaces 16 @ ''pub fn ''],
        func_name,
        text_lines [''() {'', spaces 20],
        rt,
        text_lines [''::maybe_link_cabi_realloc();'', spaces 16 @ ''}'', spaces 12, '''']] w)\<close>

definition section_literal :: "8 word list \<Rightarrow> rust_wasm \<Rightarrow> rust_wasm" where
  \<open>section_literal bytes w =
     (let w = put (''pub static __WIT_BINDGEN_COMPONENT_TYPE: [u8; '' @ decimal (length bytes) @ ''] = *b"'' @
            [backslash] @ nl) w;
          (old_indent, src) = set_indent 0 (rw_src w);
          w = put (''";'' @ nl) (w\<lparr>rw_src := src\<lparr>src_text := src_text src @ literal_from 0 bytes\<rparr>\<rparr>) in
      w\<lparr>rw_src := snd (set_indent old_indent (rw_src w))\<rparr>)\<close>

definition emit_custom_section ::
    "rust_opts \<Rightarrow> section_env \<Rightarrow> resolve \<Rightarrow> nat \<Rightarrow> string \<Rightarrow> string option \<Rightarrow> rust_wasm step" where
  \<open>emit_custom_section opts SE r world_id section_suffix func_name w =
     (let w = (if op_format opts then put_pieces [''#[rustfmt::skip]'' @ nl] w else w);
          w = put (nl @ ''#[cfg(target_arch = "wasm32")]'' @ nl) w;
          opts_suffix = (case op_type_section_suffix opts of Some s \<Rightarrow> s | None \<Rightarrow> []) in
      and_then (index (r_worlds r) world_id) (\<lambda>world.
        and_then (unwrap (w_package world)) (\<lambda>pkg.
          and_then (index (r_packages r) pkg) (\<lambda>pkg.
            let w = put (''#[unsafe(link_section = "component-type:wit-bindgen:'' @ se_version SE @ '':'' @
                  se_package SE pkg @ '':'' @ w_name world @ '':'' @ section_suffix @ opts_suffix @ ''")]'' @ nl) w in
            and_then (unwrap (se_encode SE r world_id)) (\<lambda>component_type.
              let w = put (''#[allow(clippy::octal_escapes)]'' @ nl) (put (''#[doc(hidden)]'' @ nl) w);
                  w = section_literal component_type w in
              Inr (case func_name of Some f \<Rightarrow> link_helper opts f w | None \<Rightarrow> w))))))\<close>

subsection \<open>The section embeds the world\<close>

lemma lines_from_one: "newline \<notin> set l \<Longrightarrow> lines_from cur (l @ [newline]) = [strip_cr (cur @ l)]"
  by (induction l arbitrary: cur) auto

lemma push_str_line:
  assumes "newline \<notin> set l" "l \<noteq> []" "\<not> whitespace (hd l)" "hd l \<noteq> CHR ''}''" "last l \<noteq> CHR 0x0D"
  shows "src_text (push_str (l @ nl) s) =
    src_text s @ (if src_continuing_line s then [] else concat (replicate (src_indent s) ''  '')) @ l @ nl"
    "src_continuing_line (push_str (l @ nl) s) = False"
proof -
  have ls: "str_lines (l @ nl) = [l]" using assms by (simp add: str_lines_def lines_from_one strip_cr_def)
  obtain c t where l: "l = c # t" using assms(2) by (cases l) auto
  have start: "trim_start l = l" using assms(3) by (simp add: trim_start_def l)
  have "\<not> starts_with ''}'' (trim l)"
  proof (cases "rev (dropWhile whitespace (rev l))")
    case Nil
    then show ?thesis using assms(3) l by simp
  next
    case (Cons d u)
    have "rev (dropWhile whitespace (rev l)) @ rev (takeWhile whitespace (rev l)) = l"
      by (metis rev_append rev_rev_ident takeWhile_dropWhile_id)
    then have "d = hd l" using Cons l by simp
    then show ?thesis using assms(4) Cons by (simp add: trim_def start starts_with_def)
  qed
  then show "src_text (push_str (l @ nl) s) =
      src_text s @ (if src_continuing_line s then [] else concat (replicate (src_indent s) ''  '')) @ l @ nl"
    "src_continuing_line (push_str (l @ nl) s) = False"
    using assms(2) unfolding push_str_def push_str_impl_def ls
    by (simp_all add: Let_def push_line_def begin_line_def dedent_brace_def count_braces_def source_newline_def
        ends_with_newline)
qed

text \<open>A text that ends in a character other than a blank stays as it is when more is pushed.\<close>

definition keeps :: "string \<Rightarrow> source \<Rightarrow> bool" where
  "keeps p s \<longleftrightarrow> take (length p) (src_text s) = p"

lemma keeps_append: "take (length p) t = p \<Longrightarrow> take (length p) (t @ u) = p"
  by (metis append_take_drop_id append_eq_conv_conj append.assoc)

lemma keeps_push_str:
  assumes "p \<noteq> []" "last p \<noteq> CHR '' ''" "keeps p s"
  shows "keeps p (push_str t s)"
proof -
  have dedent: "take (length p) (butlast (butlast u)) = p" if u: "take (length p) u = p" "ends_with ''  '' u" for u
  proof -
    obtain v where v: "u = v @ ''  ''" using u(2) by (metis append_take_drop_id ends_with_def)
    have "length p \<le> length v"
    proof (rule ccontr)
      assume "\<not> length p \<le> length v"
      then obtain k where "length p = Suc (length v + k)" by (auto simp: not_le less_iff_Suc_add)
      then have "take (length p) u = v @ take (Suc k) ''  ''" by (simp add: v)
      then have "last p = CHR '' ''" using u(1) by (cases k) auto
      then show False using assms(2) by simp
    qed
    then show ?thesis using u(1) by (simp add: v butlast_append)
  qed
  have add: "keeps p (s\<lparr>src_text := src_text s @ u\<rparr>)" if "keeps p s" for s u
    using keeps_append [of p "src_text s" u] that by (simp add: keeps_def del: take_append)
  have frame: "keeps p (s\<lparr>src_continuing_line := c\<rparr>) = keeps p s" "keeps p (s\<lparr>src_in_line_comment := c\<rparr>) = keeps p s"
    "keeps p (s\<lparr>src_indent := n\<rparr>) = keeps p s" for s c n
    by (simp_all add: keeps_def)
  have begun: "keeps p (begin_line line s)" if "keeps p s" for line s
    using that by (auto simp only: begin_line_def frame split: if_split intro!: add)
  have dedented: "keeps p (dedent_brace trimmed s)" if "keeps p s" for trimmed s
    using dedent [of "src_text s"] that by (simp add: dedent_brace_def keeps_def)
  have rest: "keeps p (count_braces trimmed s)" "keeps p (s\<lparr>src_in_line_comment := True\<rparr>)" "keeps p (source_newline s)"
    if "keeps p s" for trimmed s
    using add [of "s\<lparr>src_in_line_comment := False, src_continuing_line := False\<rparr>" nl] that
    by (simp_all only: count_braces_def source_newline_def Let_def frame source.simps split: if_split) simp_all
  have add_comment: "keeps p (s\<lparr>src_in_line_comment := True, src_text := src_text s @ u\<rparr>)" if "keeps p s" for s u
    using add [of "s\<lparr>src_in_line_comment := True\<rparr>" u] that by (simp add: frame)
  have line: "keeps p (push_line interp single ends line s)" if "keeps p s" for interp single ends line s
    using that unfolding push_line_def Let_def by (auto intro!: add add_comment begun dedented rest)
  have "keeps p (push_lines interp single e ls s)" if "keeps p s" for interp single e ls s
    using that by (induction ls arbitrary: s) (simp_all add: line)
  then show ?thesis using assms(3) by (simp add: push_str_def push_str_impl_def Let_def)
qed

lemma keeps_push_pieces:
  "p \<noteq> [] \<Longrightarrow> last p \<noteq> CHR '' '' \<Longrightarrow> keeps p s \<Longrightarrow> keeps p (push_pieces ps s)"
  unfolding push_pieces_def by (induction ps arbitrary: s) (simp_all add: keeps_push_str)

text \<open>The declaration up to the end of the literal, in the text \<open>t\<close>; \<open>lit\<close> is what follows the quote.\<close>

definition declares :: "8 word list \<Rightarrow> string \<Rightarrow> string \<Rightarrow> bool" where
  \<open>declares bytes t lit \<longleftrightarrow>
     (\<exists>pre. t = pre @ ''pub static __WIT_BINDGEN_COMPONENT_TYPE: [u8; '' @ decimal (length bytes) @ ''] = *b"'' @ lit)\<close>

lemma newline_decimal: "newline \<notin> set (decimal n)"
proof (induction n rule: decimal.induct)
  case (1 n)
  have "digit k \<noteq> newline" if "k < 10" for k
  proof
    assume "digit k = newline"
    then have "(of_char (digit k) :: nat) = of_char newline" by simp
    then show False using that by (simp add: digit_def newline_def of_char_of)
  qed
  then show ?case using 1 by (subst decimal.simps) (auto simp: not_less eq_commute [of newline])
qed

lemma section_literal_text:
  obtains pre where "src_text (rw_src (section_literal bytes w)) =
    pre @ ''pub static __WIT_BINDGEN_COMPONENT_TYPE: [u8; '' @ decimal (length bytes) @ ''] = *b'' @
      CHR 0x22 # backslash # newline # literal_from 0 bytes @ CHR 0x22 # CHR '';'' # nl"
proof -
  let ?l = "''pub static __WIT_BINDGEN_COMPONENT_TYPE: [u8; '' @ decimal (length bytes) @ ''] = *b'' @ [CHR 0x22, backslash]"
  let ?l2 = "[CHR 0x22, CHR '';'']"
  have l: "newline \<notin> set ?l" "?l \<noteq> []" "\<not> whitespace (hd ?l)" "hd ?l \<noteq> CHR ''}''" "last ?l \<noteq> CHR 0x0D"
    using newline_decimal [of "length bytes"] by (auto simp: newline_def whitespace_def)
  have l2: "newline \<notin> set ?l2" "?l2 \<noteq> []" "\<not> whitespace (hd ?l2)" "hd ?l2 \<noteq> CHR ''}''" "last ?l2 \<noteq> CHR 0x0D"
    by (auto simp: newline_def whitespace_def)
  let ?s = "push_str (?l @ nl) (rw_src w)"
  let ?t = "?s\<lparr>src_indent := 0, src_text := src_text ?s @ literal_from 0 bytes\<rparr>"
  have "src_text (push_str (?l2 @ nl) ?t) = src_text ?t @ ?l2 @ nl"
    using push_str_line(1) [OF l2, of ?t] push_str_line(2) [OF l, of "rw_src w"] by simp
  then have "src_text (rw_src (section_literal bytes w)) = src_text ?s @ literal_from 0 bytes @ ?l2 @ nl"
    by (simp add: section_literal_def put_def set_indent_def Let_def)
  then show thesis using that push_str_line(1) [OF l, of "rw_src w"] by simp
qed

lemma section_literal_declares:
  assumes "keeps (src_text (rw_src (section_literal bytes w))) s"
  obtains lit rest where "declares bytes (src_text s) lit" "read_bytes lit = Some (bytes, '';'' @ nl @ rest)"
proof -
  obtain pre where pre: "src_text (rw_src (section_literal bytes w)) =
    pre @ ''pub static __WIT_BINDGEN_COMPONENT_TYPE: [u8; '' @ decimal (length bytes) @ ''] = *b'' @
      CHR 0x22 # backslash # newline # literal_from 0 bytes @ CHR 0x22 # CHR '';'' # nl"
    using section_literal_text .
  define rest where "rest = drop (length (src_text (rw_src (section_literal bytes w)))) (src_text s)"
  have t: "src_text s = src_text (rw_src (section_literal bytes w)) @ rest"
    using assms unfolding keeps_def rest_def by (metis append_take_drop_id)
  let ?lit = "backslash # newline # literal_from 0 bytes @ CHR 0x22 # CHR '';'' # nl @ rest"
  have "declares bytes (src_text s) ?lit"
    unfolding declares_def t pre by (rule exI [of _ pre]) simp
  moreover have "read_bytes ?lit = Some (bytes, '';'' @ nl @ rest)"
    using literal_from_no_blank [of bytes "CHR '';'' # nl @ rest"] read_literal [of 0 bytes "CHR '';'' # nl @ rest"]
    by (simp add: read_bytes_escapes)
  ultimately show thesis by (rule that)
qed

text \<open>An emitted section: the bytes are those of the world, and the literal is kept by what follows it.\<close>

lemma emit_custom_section_keeps:
  assumes "emit_custom_section opts SE r world suffix func w = Inr w'"
  obtains bytes v where "se_encode SE r world = Some bytes" "keeps (src_text (rw_src (section_literal bytes v))) (rw_src w')"
proof -
  obtain bytes where bytes: "se_encode SE r world = Some bytes"
    using assms by (cases "se_encode SE r world") (auto simp: emit_custom_section_def Let_def res_simps)
  obtain v where v: "w' = (case func of Some f \<Rightarrow> link_helper opts f (section_literal bytes v) | None \<Rightarrow> section_literal bytes v)"
    using assms by (auto simp: emit_custom_section_def Let_def res_simps bytes)
  let ?p = "src_text (rw_src (section_literal bytes v))"
  have "?p \<noteq> []" "last ?p \<noteq> CHR '' ''"
    by (rule section_literal_text [of bytes v], simp add: newline_def)+
  moreover have "keeps ?p (rw_src (section_literal bytes v))" by (simp add: keeps_def)
  ultimately have "keeps ?p (rw_src w')"
    by (simp add: v link_helper_def put_pieces_def keeps_push_pieces split: option.split)
  with bytes show thesis by (rule that)
qed

lemma keeps_literal:
  assumes "keeps (src_text (rw_src (section_literal bytes v))) s"
  shows "keeps (src_text (rw_src (section_literal bytes v))) (push_str t s)"
proof (rule keeps_push_str [OF _ _ assms])
  show "src_text (rw_src (section_literal bytes v)) \<noteq> []" "last (src_text (rw_src (section_literal bytes v))) \<noteq> CHR '' ''"
    by (rule section_literal_text [of bytes v], simp add: newline_def)+
qed

lemma emit_custom_section_ok:
  assumes "world < length (r_worlds r)" "w_package (r_worlds r ! world) = Some pkg" "pkg < length (r_packages r)"
    "se_encode SE r world = Some bytes"
  shows "\<exists>w'. emit_custom_section opts SE r world suffix func w = Inr w'"
  using assms by (simp add: emit_custom_section_def Let_def)

section \<open>The export macro\<close>

definition export_macro_head ::
    "string \<Rightarrow> string \<Rightarrow> string \<Rightarrow> string \<Rightarrow> rust_wasm \<Rightarrow> rust_wasm" where
  \<open>export_macro_head export_macro_name macro_export world_name default_bindings_module w =
     put_pieces [
       text_lines ['''', ''/// Generates `#[unsafe(no_mangle)]` functions to export the specified type as'', ''/// the root implementation of all generated traits.'', ''///'', ''/// For more information see the documentation of `wit_bindgen::generate!`.'', ''///'', ''/// ```rust'', ''/// # macro_rules! ''],
       export_macro_name,
       text_lines ['' { ($($t:tt)*) => (); }'', ''/// # trait Guest {}'', ''/// struct MyType;'', ''///'', ''/// impl Guest for MyType {'', ''///     // ...'', ''/// }'', ''///'', ''/// ''],
       export_macro_name,
       text_lines [''!(MyType);'', ''/// ```'', ''#[allow(unused_macros)]'', ''#[doc(hidden)]'', ''''],
       macro_export,
       text_lines ['''', ''macro_rules! __export_''],
       world_name,
       text_lines [''_impl {'', ''    ($ty:ident) => (''],
       default_bindings_module,
       ''::'',
       export_macro_name,
       ''!($ty with_types_in '',
       default_bindings_module,
       text_lines [''););'', ''    ($ty:ident with_types_in $($path_to_types_root:tt)*) => ('', '''']] w\<close>

definition finish_export_macro ::
    "('z, 'a) rust_env \<Rightarrow> rust_opts \<Rightarrow> section_env \<Rightarrow> resolve \<Rightarrow> nat \<Rightarrow> rust_wasm step" where
  \<open>finish_export_macro RE opts SE r world_id w =
     (if rw_export_macros w = [] then Inr w
      else
        and_then (index (r_worlds r) world_id) (\<lambda>world.
          let world_name = re_snake RE (w_name world);
              default_bindings_module = (case op_default_bindings_module opts of Some m \<Rightarrow> m | None \<Rightarrow> ''self'');
              (macro_export, use_vis) =
                (if op_pub_export_macro opts then (''#[macro_export]'', ''pub'') else ([], ''pub(crate)''));
              export_macro_name = (case op_export_macro_name opts of Some m \<Rightarrow> m | None \<Rightarrow> ''export'');
              w = export_macro_head export_macro_name macro_export world_name default_bindings_module w;
              w = foldl (\<lambda>w (name, path_to_types).
                    let path = ''$($path_to_types_root)*'' @
                      (if path_to_types \<noteq> [] then ''::'' @ path_to_types else []) in
                    put_pieces [path, ''::'', name, ''!($ty with_types_in '', path, '');'' @ nl] w)
                  w (rw_export_macros w) in
          and_then
            (if op_pub_export_macro opts then
               and_then (emit_custom_section opts SE r world_id ''imports and exports'' None
                   (put_pieces [''const _: () = {'' @ nl] w))
                 (\<lambda>w. Inr (put_pieces [''};'' @ nl] w))
             else Inr w)
            (\<lambda>w.
              let w = put_pieces ['')'' @ nl @ ''}'' @ nl] w;
                  w = put_pieces [''#[doc(inline)]'' @ nl, use_vis, '' use __export_'', world_name, ''_impl as '',
                        export_macro_name, '';'' @ nl] w in
              Inr (if op_stubs opts then put_pieces [''export!(Stub);'' @ nl] w else w))))\<close>

end
