(* ===== verification/Rust_World.thy ===== *)
theory Rust_World
  imports Rust_Interface Rust_Define Rust_Runtime Rust_Section
begin

text \<open>
  The Rust generator as a \<open>WorldGenerator\<close> (\<open>crates/rust/src/lib.rs\<close>): how it prepares itself for a
  world, what each import and export adds to its state, and how the file is put together at the end.

  \<open>rust_params\<close> holds what does not change: the options, the functions of the crates that are called,
  and the fuel of the recursions. Of the \<open>HashMap\<close>s, \<open>rp_order\<close> gives the order in which the one of
  \<open>Types\<close> is traversed; \<open>rp_live\<close> and \<open>rp_world_live\<close> are the uses of \<open>LiveTypes\<close>, \<open>rp_sizes\<close> is
  \<open>SizeAlign::fill\<close>, and \<open>rp_unparse\<close> parses and prints a file with \<open>syn\<close> and \<open>prettyplease\<close>.
\<close>

section \<open>Parameters\<close>

record ('z, 'a) rust_params =
  rp_env :: "('z, 'a) rust_env"
  rp_wit :: "('z, 'a) wit_env"
  rp_opts :: rust_opts
  rp_section :: section_env
  rp_sizes :: "resolve \<Rightarrow> ('z, 'a) size_align"
  rp_live :: "ty list \<Rightarrow> tid list"
  rp_world_live :: "resolve \<Rightarrow> nat \<Rightarrow> tid list"
  rp_order :: "infos \<Rightarrow> tid list"
  rp_unparse :: "string \<Rightarrow> string option"
  rp_fuel :: nat

datatype rust_error =
    Missing_With string
  | Unused_Remappings "string list"
  | Unused_Selectors "string list"
  | Unused_Async string

definition interface_cx ::
    "('z, 'a) rust_params \<Rightarrow> resolve \<Rightarrow> rust_identifier \<Rightarrow> string \<Rightarrow> bool \<Rightarrow> rust_wasm \<Rightarrow> ('z, 'a) rust_cx" where
  "interface_cx P r identifier wasm_import_module in_import w =
     \<lparr>rc_env = rp_env P, rc_opts = rp_opts P, rc_resolve = r, rc_sizes = rp_sizes P r,
      rc_identifier = identifier, rc_in_import = in_import, rc_wasm_import_module = wasm_import_module,
      rc_types = rw_types w, rc_interface_names = rw_interface_names w,
      rc_exported_resources = rw_exported_resources w, rc_with = rw_with w, rc_fuel = rp_fuel P\<rparr>"

definition interface_new :: "('z, 'a) rust_params \<Rightarrow> rust_wasm \<Rightarrow> ('z, 'a) iface_gen" where
  "interface_new P w =
     \<lparr>ig_src = source_default, ig_return_pointer_area_size = re_size_default (rp_env P),
      ig_return_pointer_area_align = re_align_default (rp_env P), ig_needs_runtime_module = False,
      ig_needs_wit_map = False, ig_gen = w\<rparr>"

section \<open>Preparing\<close>

text \<open>\<open>{:?}\<close> of a string; a formatting trait is taken to write its text at once.\<close>

definition debug_char :: "char \<Rightarrow> string" where
  "debug_char c =
     (let n = of_char c :: nat in
      if n = 0 then [backslash, CHR ''0'']
      else if n = 9 then [backslash, CHR ''t'']
      else if n = 10 then [backslash, CHR ''n'']
      else if n = 13 then [backslash, CHR ''r'']
      else if n = 34 \<or> n = 92 then [backslash, c]
      else if n < 32 \<or> 127 \<le> n \<and> n \<le> 160 \<or> n = 173 then
        [backslash, CHR ''u'', CHR 0x7B] @ (if n < 16 then [] else [hex_digit (n div 16)]) @ [hex_digit (n mod 16), CHR 0x7D]
      else [c])"

definition debug_str :: "string \<Rightarrow> string" where
  "debug_str s = CHR 0x22 # concat (map debug_char s) @ [CHR 0x22]"

definition debug_strs :: "string list \<Rightarrow> string" where
  "debug_strs ss = ''['' @ join '', '' (map debug_str ss) @ '']''"

definition debug_ownership :: "ownership \<Rightarrow> string" where
  "debug_ownership ow =
     (case ow of
        Owning \<Rightarrow> ''Owning''
      | Borrowing dup \<Rightarrow>
          ''Borrowing { duplicate_if_necessary: '' @ (if dup then ''true'' else ''false'') @ '' }'')"

definition display_with :: "with_option \<Rightarrow> string" where
  "display_with v = (case v of WithPath p \<Rightarrow> CHR 0x22 # p @ [CHR 0x22] | WithGenerate \<Rightarrow> ''generate'')"

definition note_if :: "bool \<Rightarrow> string \<Rightarrow> string list list" where
  "note_if b s = (if b then [[''//   * '' @ s @ nl]] else [])"

definition note_option :: "string \<Rightarrow> string option \<Rightarrow> string list list" where
  "note_option s v = (case v of Some v \<Rightarrow> [[''//   * '' @ s @ '': '', debug_str v, nl]] | None \<Rightarrow> [])"

definition note_list :: "string \<Rightarrow> string list \<Rightarrow> string list list" where
  "note_list s vs = (if vs = [] then [] else [[''//   * '' @ s, debug_strs vs, nl]])"

definition note_attrs :: "string \<Rightarrow> (string \<times> string) list \<Rightarrow> string list list" where
  "note_attrs s vs = map (\<lambda>(sel, attr). [''//   * '' @ s, debug_str sel, '' = '', debug_str attr, nl]) vs"

text \<open>The options that were used, one line each, as the pieces that \<open>uwriteln!\<close> writes.\<close>

definition option_notes :: "rust_opts \<Rightarrow> async_set \<Rightarrow> string list list" where
  "option_notes opts async =
     note_if (op_std_feature opts) ''std_feature'' @
     note_if (op_raw_strings opts) ''raw_strings'' @
     note_list ''skip: '' (op_skip opts) @
     note_if (op_stubs opts) ''stubs'' @
     note_option ''export_prefix'' (op_export_prefix opts) @
     note_option ''runtime_path'' (op_runtime_path opts) @
     note_option ''map_type'' (op_map_type opts) @
     note_option ''bitflags_path'' (op_bitflags_path opts) @
     (if op_ownership opts = Owning then []
      else [[''//   * ownership: '', debug_ownership (op_ownership opts), nl]]) @
     note_list ''additional derives '' (op_additional_derive_attributes opts) @
     note_list ''additional derives ignored '' (op_additional_derive_ignore opts) @
     note_attrs ''additional type attribute '' (op_additional_type_attributes opts) @
     note_attrs ''additional member attribute '' (op_additional_member_attributes opts) @
     map (\<lambda>(k, v). [''//   * with '', debug_str k, '' = '', display_with v, nl]) (op_with opts) @
     note_option ''type_section_suffix'' (op_type_section_suffix opts) @
     note_option ''default-bindings-module'' (op_default_bindings_module opts) @
     note_if (op_disable_run_ctors_once_workaround opts) ''disable-run-ctors-once-workaround'' @
     note_if (merge_structurally_equal_types opts) ''merge_structurally_equal_types'' @
     (case op_export_macro_name opts of Some s \<Rightarrow> [[''//   * export-macro-name: '', s, nl]] | None \<Rightarrow> []) @
     note_if (op_pub_export_macro opts) ''pub-export-macro'' @
     note_if (op_generate_unused_types opts) ''generate_unused_types'' @
     note_if (op_disable_custom_section_link_helpers opts) ''disable_custom_section_link_helpers'' @
     map (\<lambda>opt. [''//   * async: '', opt, nl]) (debug_opts async)"

definition write_preamble :: "('z, 'a) rust_params \<Rightarrow> rust_wasm \<Rightarrow> rust_wasm" where
  "write_preamble P w =
     (let src = generated_preamble (se_version (rp_section P)) (rw_src_preamble w);
          src = push_pieces [''// Options used:'' @ nl] src in
      w\<lparr>rw_src_preamble := foldl (\<lambda>s ps. push_pieces ps s) src (option_notes (rp_opts P) (rw_async w))\<rparr>)"

text \<open>The types that may become aliases of an equal type.\<close>

definition may_be_alias :: "rust_opts \<Rightarrow> resolve \<Rightarrow> tid \<Rightarrow> bool" where
  "may_be_alias opts r i =
     (if merge_structurally_equal_types opts then True
      else
        (case kind_at r i of
           KRecord _ \<Rightarrow> False | KVariant _ \<Rightarrow> False | KEnum _ \<Rightarrow> False | KFlags _ \<Rightarrow> False
         | KResource \<Rightarrow> False | KUnknown \<Rightarrow> False
         | _ \<Rightarrow> True))"

definition name_interface ::
    "('z, 'a) rust_params \<Rightarrow> resolve \<Rightarrow> iface_id \<Rightarrow> world_key \<Rightarrow> bool \<Rightarrow> rust_wasm
      \<Rightarrow> (rust_error + bool \<times> rust_wasm) res" where
  "name_interface P r i key is_export w =
     (let with_name = re_name_world_key (rp_env P) r key in
      case if is_export then Some Generate else gc_get (rw_with w) with_name of
        None \<Rightarrow> Inr (Inl (Missing_With with_name))
      | Some remapping \<Rightarrow>
          (let w = w\<lparr>rw_generated_types := insert with_name (rw_generated_types w)\<rparr> in
           and_then
             (case remapping of
                Remap remapped_path \<Rightarrow>
                  (let name = ''__with_name'' @ decimal (rw_with_name_counter w);
                       w = w\<lparr>rw_with_name_counter := rw_with_name_counter w + 1\<rparr>;
                       w = put_pieces [''#[allow(unfulfilled_lint_expectations, unused_imports)]'' @ nl] w;
                       w = put_pieces [''use '', remapped_path, '' as '', name, '';'' @ nl] w in
                   Inr (\<lparr>in_remapped = True, in_path = name\<rparr>, w))
              | Generate \<Rightarrow>
                  and_then (compute_module_path (rp_env P) key r is_export) (\<lambda>path.
                    Inr (\<lparr>in_remapped = False, in_path = join ''::'' path\<rparr>, w)))
             (\<lambda>(nm, w).
               let prev = rw_interface_names w i;
                   w = w\<lparr>rw_interface_names := (rw_interface_names w)(i \<mapsto> nm)\<rparr> in
               if prev = None then Inr (Inr (in_remapped nm, w)) else Inl Assert_Failed)))"

fun name_interfaces ::
    "('z, 'a) rust_params \<Rightarrow> resolve \<Rightarrow> bool \<Rightarrow> (world_key \<times> world_item) list \<Rightarrow> (rust_error, rust_wasm) fallible" where
  "name_interfaces P r is_export [] w = Inr (Inr w)"
| "name_interfaces P r is_export ((key, item) # items) w =
     (case item of
        WIInterface i \<Rightarrow>
          try_then (name_interface P r i key is_export w) (\<lambda>(_, w). name_interfaces P r is_export items w)
      | _ \<Rightarrow> name_interfaces P r is_export items w)"

text \<open>The imported interfaces of the world's own package are generated.\<close>

definition generate_local ::
    "('z, 'a) rust_params \<Rightarrow> resolve \<Rightarrow> world \<Rightarrow> world_key \<times> world_item \<Rightarrow> rust_wasm step" where
  "generate_local P r world = (\<lambda>(key, item) w.
     case item of
       WIInterface i \<Rightarrow>
         and_then (index (r_interfaces r) i) (\<lambda>iface.
           let name = re_name_world_key (rp_env P) r key in
           Inr (if if_package iface = w_package world \<and> gc_get (rw_with w) name = None
             then w\<lparr>rw_with := gc_insert name Generate (rw_with w)\<rparr> else w))
     | _ \<Rightarrow> Inr w)"

definition export_resource :: "resolve \<Rightarrow> string \<times> tid \<Rightarrow> rust_wasm step" where
  "export_resource r = (\<lambda>(_, i) w.
     and_then (type_at r i) (\<lambda>td.
       if td_kind td \<noteq> KResource then Inr w
       else if i \<in> set (rw_exported_resources w) then Inl Assert_Failed
       else Inr (w\<lparr>rw_exported_resources := rw_exported_resources w @ [i]\<rparr>)))"

definition export_resources :: "resolve \<Rightarrow> world_key \<times> world_item \<Rightarrow> rust_wasm step" where
  "export_resources r = (\<lambda>(_, item) w.
     case item of
       WIInterface i \<Rightarrow>
         and_then (index (r_interfaces r) i) (\<lambda>iface. for_each (if_types iface) (export_resource r) w)
     | _ \<Rightarrow> Inr w)"

definition apply_with :: "rust_opts \<Rightarrow> rust_wasm \<Rightarrow> rust_wasm" where
  "apply_with opts w =
     (let gc = foldl (\<lambda>gc (k, v). gc_insert k (type_generation_from v) gc) (rw_with w) (op_with opts) in
      w\<lparr>rw_with := gc\<lparr>gc_generate_by_default := op_generate_all opts\<rparr>\<rparr>)"

definition rust_preprocess ::
    "('z, 'a) rust_params \<Rightarrow> resolve \<Rightarrow> nat \<Rightarrow> (rust_error, rust_wasm) fallible" where
  "rust_preprocess P r world_id w =
     (let w = write_preamble P w in
      and_then (analyze r (rp_live P) (rp_fuel P) (rw_types w)) (\<lambda>types.
      and_then
        (collect_equal_types r (rp_fuel P) (rp_world_live P r world_id) (may_be_alias (rp_opts P) r)
          (rp_order P (t_infos types)) types) (\<lambda>types.
      let w = w\<lparr>rw_types := types, rw_world := Some world_id\<rparr> in
      and_then (index (r_worlds r) world_id) (\<lambda>world.
      and_then (for_each (w_imports world) (generate_local P r world) w) (\<lambda>w.
      and_then (for_each (w_exports world) (export_resources r) w) (\<lambda>w.
      try_then (name_interfaces P r False (w_imports world) (apply_with (rp_opts P) w)) (\<lambda>w.
        name_interfaces P r True (w_exports world) w)))))))"

section \<open>Imports and exports\<close>

text \<open>The types to define, of those of an interface or a world; all of them are marked as generated.\<close>

fun types_to_define ::
    "('z, 'a) rust_params \<Rightarrow> resolve \<Rightarrow> bool \<Rightarrow> (string \<times> tid) list \<Rightarrow> rust_wasm
      \<Rightarrow> ((string \<times> tid) list \<times> rust_wasm) res" where
  "types_to_define P r is_export [] w = Inr ([], w)"
| "types_to_define P r is_export ((name, i) # ts) w =
     and_then (full_wit_type_name (rp_env P) r (rp_fuel P) i) (\<lambda>full_name.
       let define_it =
             is_export \<or> (case gc_get (rw_with w) full_name of Some type_gen \<Rightarrow> generated type_gen | None \<Rightarrow> True);
           w = w\<lparr>rw_generated_types := insert full_name (rw_generated_types w)\<rparr> in
       and_then (types_to_define P r is_export ts w) (\<lambda>(to_define, w).
         Inr (if define_it then (name, i) # to_define else to_define, w)))"

definition interface_entry :: "rust_wasm \<Rightarrow> iface_id \<Rightarrow> interface_name res" where
  "interface_entry w i = (case rw_interface_names w i of Some nm \<Rightarrow> Inr nm | None \<Rightarrow> Inl Index_Out_Of_Range)"

definition import_interface ::
    "('z, 'a) rust_params \<Rightarrow> resolve \<Rightarrow> world_key \<Rightarrow> iface_id \<Rightarrow> rust_wasm step" where
  "import_interface P r key i w =
     and_then (index (r_interfaces r) i) (\<lambda>iface.
     and_then (types_to_define P r False (if_types iface) w) (\<lambda>(to_define, w).
     let cx = interface_cx P r (IdInterface i key) (re_name_world_key (rp_env P) r key) True w in
     and_then (start_append_submodule cx key) (\<lambda>(snake, module_path).
     and_then (interface_entry w i) (\<lambda>nm.
       if in_remapped nm then Inr w
       else
         and_then
           (seq [for_each to_define (rust_define_type (rp_wit P) cx),
             generate_imports (rp_wit P) cx (rp_fuel P) (map snd (if_functions iface)) (Some key)] (interface_new P w))
           (finish_append_submodule cx snake module_path (re_iface_docs (rp_env P) i))))))"

text \<open>What an interface generator of the world itself writes goes to the top of the file.\<close>

definition world_part :: "('z, 'a) rust_cx \<Rightarrow> ('z, 'a) iface_gen \<Rightarrow> rust_wasm res" where
  "world_part cx g = and_then (rust_finish cx g) (\<lambda>(src, g). Inr (put src (ig_gen g)))"

definition import_funcs :: "('z, 'a) rust_params \<Rightarrow> resolve \<Rightarrow> nat \<Rightarrow> (string \<times> func) list \<Rightarrow> rust_wasm step" where
  "import_funcs P r world_id fs w =
     (let w = w\<lparr>rw_import_funcs_called := True\<rparr>; cx = interface_cx P r (IdWorld world_id) ''$root'' True w in
      and_then (generate_imports (rp_wit P) cx (rp_fuel P) (map snd fs) None (interface_new P w)) (world_part cx))"

definition stub_part ::
    "('z, 'a) rust_params \<Rightarrow> resolve \<Rightarrow> nat \<Rightarrow> string \<Rightarrow> (iface_id \<times> world_key) option \<Rightarrow> func list \<Rightarrow> rust_wasm step" where
  "stub_part P r world_id module interface fs w =
     (let cx = interface_cx P r (IdWorld world_id) module False w in
      and_then (generate_stub cx interface fs (interface_new P w)) (world_part cx))"

definition push_macro :: "string \<Rightarrow> string \<Rightarrow> rust_wasm \<Rightarrow> rust_wasm" where
  "push_macro macro_name path w = w\<lparr>rw_export_macros := rw_export_macros w @ [(macro_name, path)]\<rparr>"

definition export_interface ::
    "('z, 'a) rust_params \<Rightarrow> resolve \<Rightarrow> world_key \<Rightarrow> iface_id \<Rightarrow> rust_wasm step" where
  "export_interface P r key i w =
     and_then (index (r_interfaces r) i) (\<lambda>iface.
     and_then (types_to_define P r True (if_types iface) w) (\<lambda>(to_define, w).
     let module = ''[export]'' @ re_name_world_key (rp_env P) r key; fs = map snd (if_functions iface);
         cx = interface_cx P r (IdInterface i key) module False w in
     and_then (start_append_submodule cx key) (\<lambda>(snake, module_path).
     and_then (interface_entry w i) (\<lambda>nm.
       if in_remapped nm then Inr w
       else
         and_then (for_each to_define (rust_define_type (rp_wit P) cx) (interface_new P w)) (\<lambda>g.
         and_then (generate_exports (rp_wit P) cx (rp_fuel P) (Some (i, key)) fs g) (\<lambda>(macro_name, g).
         and_then (finish_append_submodule cx snake module_path (re_iface_docs (rp_env P) i) g) (\<lambda>w.
         and_then (interface_entry w i) (\<lambda>nm.
         let w = push_macro macro_name (in_path nm) w in
         if op_stubs (rp_opts P) then
           and_then (unwrap (rw_world w)) (\<lambda>world_id. stub_part P r world_id module (Some (i, key)) fs w)
         else Inr w))))))))"

definition export_funcs :: "('z, 'a) rust_params \<Rightarrow> resolve \<Rightarrow> nat \<Rightarrow> (string \<times> func) list \<Rightarrow> rust_wasm step" where
  "export_funcs P r world_id fs w =
     (let module = ''[export]$root''; fs = map snd fs; cx = interface_cx P r (IdWorld world_id) module False w in
      and_then (generate_exports (rp_wit P) cx (rp_fuel P) None fs (interface_new P w)) (\<lambda>(macro_name, g).
      and_then (world_part cx g) (\<lambda>w.
      let w = push_macro macro_name [] w in
      if op_stubs (rp_opts P) then stub_part P r world_id module None fs w else Inr w)))"

definition import_types :: "('z, 'a) rust_params \<Rightarrow> resolve \<Rightarrow> nat \<Rightarrow> (string \<times> tid) list \<Rightarrow> rust_wasm step" where
  "import_types P r world_id ts w =
     and_then (types_to_define P r False ts w) (\<lambda>(to_define, w).
       let cx = interface_cx P r (IdWorld world_id) ''$root'' True w in
       and_then (for_each to_define (rust_define_type (rp_wit P) cx) (interface_new P w)) (world_part cx))"

definition finish_imports :: "('z, 'a) rust_params \<Rightarrow> resolve \<Rightarrow> nat \<Rightarrow> rust_wasm step" where
  "finish_imports P r world_id w =
     (if rw_import_funcs_called w then Inr w else import_funcs P r world_id [] w)"

section \<open>Finishing\<close>

text \<open>\<open>str::as_bytes\<close>, for the characters below \<open>U+0100\<close>.\<close>

definition utf8 :: "string \<Rightarrow> 8 word list" where
  "utf8 s =
     concat (map (\<lambda>c. let n = of_char c :: nat in
       if n < 128 then [of_nat n] else [of_nat (192 + n div 64), of_nat (128 + n mod 64)]) s)"

text \<open>
  The world whose encoding is embedded next to the imports: without its exports when the export macro
  is public.
\<close>

definition world_to_encode :: "rust_opts \<Rightarrow> resolve \<Rightarrow> nat \<Rightarrow> (resolve \<times> nat) res" where
  "world_to_encode opts r world_id =
     (if op_pub_export_macro opts then
        and_then (index (r_worlds r) world_id) (\<lambda>world.
          Inr (r\<lparr>r_worlds := r_worlds r @
                 [world\<lparr>w_exports := [], w_name := w_name world @ ''-with-all-of-its-exports-removed''\<rparr>]\<rparr>,
               length (r_worlds r)))
      else Inr (r, world_id))"

definition format_source :: "('z, 'a) rust_params \<Rightarrow> source \<Rightarrow> source res" where
  "format_source P src =
     (if op_format (rp_opts P) then
        and_then (unwrap (rp_unparse P (src_text src))) (\<lambda>t. Inr (src\<lparr>src_text := t\<rparr>))
      else Inr src)"

text \<open>The text of the file, from the modules to the preamble in front.\<close>

definition finish_text ::
    "('z, 'a) rust_params \<Rightarrow> resolve \<Rightarrow> nat \<Rightarrow> rust_wasm \<Rightarrow> (string \<times> rust_wasm) res" where
  "finish_text P r world_id w =
     (let opts = rp_opts P; import_modules = rw_import_modules w in
      and_then (emit_modules opts import_modules (w\<lparr>rw_import_modules := []\<rparr>)) (\<lambda>w.
      let export_modules = rw_export_modules w in
      and_then (emit_modules opts export_modules (w\<lparr>rw_export_modules := []\<rparr>)) (\<lambda>w.
      and_then (finish_export_macro (rp_env P) opts (rp_section P) r world_id (finish_runtime_module opts w)) (\<lambda>w.
      and_then (world_to_encode opts r world_id) (\<lambda>(r2, world2).
      and_then
        (emit_custom_section opts (rp_section P) r2 world2 ''encoded world''
          (if op_disable_custom_section_link_helpers opts then None
           else Some ''__link_custom_section_describing_imports'') w) (\<lambda>w.
      let w = (if op_stubs opts then put (nl @ ''#[derive(Debug)]'' @ nl @ ''pub struct Stub;'' @ nl) w else w);
          src = rw_src w; w = w\<lparr>rw_src := source_default\<rparr> in
      and_then (format_source P src) (\<lambda>src.
        Inr (src_text (rw_src_preamble w) @ src_text src, w\<lparr>rw_src_preamble := source_default\<rparr>))))))))"

definition unused_keys :: "rust_wasm \<Rightarrow> string list" where
  "unused_keys w = sort (filter (\<lambda>k. k \<notin> rw_generated_types w) (map fst (gc_map (rw_with w))))"

definition unused_selectors :: "rust_opts \<Rightarrow> rust_wasm \<Rightarrow> string list" where
  "unused_selectors opts w =
     remdups_adj (sort
       (filter (\<lambda>sel. sel \<notin> rw_used_type_attr_selectors w) (map fst (op_additional_type_attributes opts)) @
        filter (\<lambda>sel. sel \<notin> rw_used_member_attr_selectors w) (map fst (op_additional_member_attributes opts))))"

definition rust_finish_world ::
    "('z, 'a) rust_params \<Rightarrow> resolve \<Rightarrow> nat \<Rightarrow> (rust_error, rust_wasm \<times> files) fallible" where
  "rust_finish_world P r world_id = (\<lambda>(w, fs).
     and_then (index (r_worlds r) world_id) (\<lambda>world.
     and_then (finish_text P r world_id w) (\<lambda>(t, w).
     let fs = files_push (re_snake (rp_env P) (w_name world) @ ''.rs'') (utf8 t) fs in
     if unused_keys w \<noteq> [] then Inr (Inl (Unused_Remappings (unused_keys w)))
     else if unused_selectors (rp_opts P) w \<noteq> [] then Inr (Inl (Unused_Selectors (unused_selectors (rp_opts P) w)))
     else
       (case ensure_all_used (rw_async w) of
          Inl msg \<Rightarrow> Inr (Inl (Unused_Async msg))
        | Inr _ \<Rightarrow> Inr (Inr (w, fs))))))"

section \<open>The generator\<close>

definition on_wasm :: "(rust_error, rust_wasm) fallible \<Rightarrow> (rust_error, rust_wasm \<times> files) fallible" where
  "on_wasm f = (\<lambda>(w, fs). try_then (f w) (\<lambda>w. Inr (Inr (w, fs))))"

definition wasm_step :: "rust_wasm step \<Rightarrow> (rust_wasm \<times> files) step" where
  "wasm_step f = (\<lambda>(w, fs). and_then (f w) (\<lambda>w. Inr (w, fs)))"

definition rust_generator ::
    "('z, 'a) rust_params \<Rightarrow> (rust_error, rust_wasm \<times> files) world_generator" where
  "rust_generator P =
     \<lparr>wg_uses_nominal_type_ids = (\<lambda>_. True),
      wg_preprocess = (\<lambda>r world_id. on_wasm (rust_preprocess P r world_id)),
      wg_import_interface = (\<lambda>r key i. infallible (wasm_step (import_interface P r key i))),
      wg_import_types = (\<lambda>r world_id ts. wasm_step (import_types P r world_id ts)),
      wg_import_funcs = (\<lambda>r world_id fs. wasm_step (import_funcs P r world_id fs)),
      wg_finish_imports = (\<lambda>r world_id. wasm_step (finish_imports P r world_id)),
      wg_export_funcs = (\<lambda>r world_id fs. infallible (wasm_step (export_funcs P r world_id fs))),
      wg_pre_export_interface = (\<lambda>_ s. Inr (Inr s)),
      wg_export_interface = (\<lambda>r key i. infallible (wasm_step (export_interface P r key i))),
      wg_finish = rust_finish_world P\<rparr>"

section \<open>Options on the command line\<close>

text \<open>\<open>str::split_once\<close> with a character.\<close>

fun split_once :: "char \<Rightarrow> string \<Rightarrow> (string \<times> string) option" where
  "split_once c [] = None"
| "split_once c (x # s) = (if x = c then Some ([], s) else map_option (map_prod (Cons x) id) (split_once c s))"

definition parse_with :: "string \<Rightarrow> string + string \<times> with_option" where
  "parse_with s =
     (case split_once CHR ''='' s of
        None \<Rightarrow> Inl (''expected string of form `<key>=<value>[,<key>=<value>...]`; got `'' @ s @ ''`'')
      | Some (k, v) \<Rightarrow> Inr (k, if v = ''generate'' then WithGenerate else WithPath v))"

definition parse_attribute :: "string \<Rightarrow> string + string \<times> string" where
  "parse_attribute s =
     (case split_once CHR ''='' s of
        None \<Rightarrow> Inl (''expected string of form `<selector>=<attribute>`; got `'' @ s @ ''`'')
      | Some (sel, attr) \<Rightarrow>
          if trim attr = [] then Inl (''attribute must not be empty; got `'' @ s @ ''`'') else Inr (sel, attr))"

definition rust_build :: "rust_opts \<Rightarrow> async_set \<Rightarrow> types \<Rightarrow> rust_wasm" where
  "rust_build opts async no_types = rust_wasm_new (op_skip opts) no_types async"

end
