(* ===== verification/Rust_Define_Total.thy ===== *)
theory Rust_Define_Total
  imports Rust_Define Rust_Printing Rust_Backend
begin

text \<open>
  Defining a type never panics: the types inside a definition are printed in modes that fit them,
  because the modes of a definition have a lifetime whenever the type borrows, and lists that are
  borrowed whenever they have one for another reason.
\<close>

section \<open>Printing\<close>

lemma safeD: "safe f \<Longrightarrow> \<exists>s'. f s = Inr s'"
  by (simp add: safe_def)

lemma safe_print_pieces [safe_intros]: "safe (print_pieces ps)"
  by (simp add: safe_def print_pieces_def)

lemma safe_rustdoc [safe_intros]: "safe (rustdoc docs)"
  unfolding rustdoc_def by (cases docs) (auto intro!: safe_intros simp del: seq.simps)

lemma safe_type_docs [safe_intros]: "safe (type_docs cx i)"
  unfolding type_docs_def by (intro safe_intros)

lemma safe_push_attrs [safe_intros]: "safe (push_attrs attrs)"
  unfolding push_attrs_def by (intro safe_intros)

lemma safe_print_derives [safe_intros]: "safe (print_derives ds)"
  unfolding print_derives_def by (intro safe_intros)

lemma safe_std_only [safe_intros]: "safe (std_only cx)"
  unfolding std_only_def by (intro safe_intros)

lemma safe_impl_head [safe_intros]: "safe (impl_head trait name lt)"
  unfolding impl_head_def by (intro safe_intros)

lemma safe_display_impl [safe_intros]: "safe (display_impl name lt)"
  unfolding display_impl_def by (intro safe_intros)

lemma safe_enum_debug [safe_intros]: "safe (print_rust_enum_debug mode name cases)"
  unfolding print_rust_enum_debug_def
  by (intro safe_intros) (auto intro!: safe_intros simp del: seq.simps)

section \<open>The modes of a definition\<close>

definition defines_in :: "resolve \<Rightarrow> tid \<Rightarrow> type_mode \<Rightarrow> bool" where
  "defines_in r i mode \<longleftrightarrow>
     mode_fits r (TId i) mode \<and> (tm_lifetime mode \<noteq> None \<longrightarrow> tm_lists_borrowed mode \<or> borrows r (TId i))"

lemma mode_of_info_defines:
  assumes "structural x = info_spec r (TId i)"
  shows "defines_in r i (mode_of_info opts x style lt)"
proof -
  have "has_borrow_handle (structural x) = has_borrow_handle (info_spec r (TId i))" using assms by simp
  then have "has_borrow_handle x = borrows r (TId i)" by (simp add: structural_def info_spec_def)
  then show ?thesis
    using mode_of_info_fits [OF assms]
    by (auto simp: defines_in_def mode_of_info_def Let_def split: ownership.split)
qed

lemma modes_of_defines:
  assumes "rust_ok cx rk" "named_id cx i"
  obtains ms where "modes_of cx i = Inr ms" "\<And>name mode. (name, mode) \<in> set ms \<Longrightarrow> defines_in (rc_resolve cx) i mode"
proof -
  have i: "valid_id (rc_resolve cx) i" "has_name (rc_resolve cx) i" using assms(2) by (simp_all add: named_id_def)
  obtain x where x: "info cx i = Inr x" "structural x = info_spec (rc_resolve cx) (TId i)"
    using rust_okD(6) [OF assms(1) i(1)] by blast
  let ?lt = "CHR 0x27 # ''a''"
  let ?a = "mode_of_info (rc_opts cx) x StyleOwned ?lt"
  let ?b = "mode_of_info (rc_opts cx) x StyleBorrowed ?lt"
  have modes: "type_mode_for_id cx i StyleOwned ?lt = Inr ?a" "type_mode_for_id cx i StyleBorrowed ?lt = Inr ?b"
    by (simp_all add: type_mode_for_id_def x(1))
  have fits: "defines_in (rc_resolve cx) i ?a" "defines_in (rc_resolve cx) i ?b"
    by (rule mode_of_info_defines [OF x(2)])+
  have differ: "?a \<noteq> ?b" if "uses_two_names (rc_opts cx) x"
    using that by (auto simp: mode_of_info_def uses_two_names_def Let_def)
  obtain name1 name2 where names: "result_name cx i = Inr name1" "param_name cx i = Inr name2"
    using suffixed_name_ok [OF assms(1) i] by (metis param_name_def result_name_def)
  show ?thesis
  proof (cases "\<not> op_generate_unused_types (rc_opts cx) \<and> \<not> owned x \<and> \<not> borrowed x")
    case True
    then show ?thesis using that [of "[]"] by (simp add: modes_of_def x(1))
  next
    case False
    let ?ms = "if uses_two_names (rc_opts cx) x then [(name1, ?a), (name2, ?b)]
      else if ?a = ?b \<or> owned x \<or> op_ownership (rc_opts cx) = Owning then [(name1, ?a)] else [(name2, ?b)]"
    have "modes_of cx i = Inr ?ms"
      using False differ by (auto simp: modes_of_def x(1) Let_def modes names)
    then show ?thesis using that [of ?ms] fits by (auto split: if_splits)
  qed
qed

lemma safe_modes:
  assumes "rust_ok cx rk" "named_id cx i"
    "\<And>name mode. defines_in (rc_resolve cx) i mode \<Longrightarrow> safe (body name mode)"
  shows "safe (with_res (modes_of cx i) (\<lambda>modes. for_each modes (\<lambda>(name, mode). body name mode)))"
proof -
  obtain ms where ms: "modes_of cx i = Inr ms"
    "\<And>name mode. (name, mode) \<in> set ms \<Longrightarrow> defines_in (rc_resolve cx) i mode"
    using modes_of_defines [OF assms(1,2)] by metis
  show ?thesis
    by (rule safe_with_res [OF ms(1)], rule safe_for_each) (use ms(2) assms(3) in auto)
qed

lemma safe_alias_modes:
  assumes "rust_ok cx rk" "named_id cx i"
    "\<And>mode. defines_in (rc_resolve cx) i mode \<Longrightarrow> safe (body mode)"
  shows "safe (print_alias_modes cx i eq body)"
  unfolding print_alias_modes_def by (rule safe_modes [OF assms(1,2)]) (intro safe_intros assms(3))

section \<open>The types inside\<close>

lemma print_in_mode_safe:
  assumes "rust_ok cx rk" "valid_ty (rc_resolve cx) t" "mode_fits (rc_resolve cx) t mode"
  shows "safe (print_in_mode cx t mode)"
proof -
  have "ty_rank rk t < rc_fuel cx"
    using rust_okD(3,5) [OF assms(1)] assms(2) by (cases t) (auto simp: ty_rank_def valid_ty_def)
  from print_ty_safe [OF assms this] show ?thesis by (simp add: print_in_mode_def [abs_def])
qed

lemma good_in_mode: "rust_ok cx rk \<Longrightarrow> good_printer cx rk (rc_fuel cx) (print_in_mode cx)"
  unfolding good_printer_def by (blast intro: print_in_mode_safe)

lemma part_inner:
  assumes "rust_ok cx rk" "named_id cx i" "defines_in (rc_resolve cx) i mode"
    "u \<in> set (parts (kind_at (rc_resolve cx) i))"
  shows "inner_ok cx rk (rc_fuel cx) mode u"
proof -
  have i: "valid_id (rc_resolve cx) i" using assms(2) by (simp add: named_id_def)
  have "rk i < rc_fuel cx" using rust_okD(5) [OF assms(1) i] by simp
  from inner_parts [OF assms(1) i assms(4) this] assms(3) show ?thesis by (simp add: defines_in_def)
qed

lemma filtered_part:
  assumes "rust_ok cx rk" "named_id cx i" "defines_in (rc_resolve cx) i mode"
    "u \<in> set (parts (kind_at (rc_resolve cx) i))"
  shows "safe (with_res (filter_mode cx u mode) (print_in_mode cx u))"
  by (rule print_filtered [OF assms(1) good_in_mode [OF assms(1)] part_inner [OF assms]])

lemma borrowed_lists: "defines_in r i mode \<Longrightarrow> tm_lists_borrowed mode \<longrightarrow> tm_lifetime mode \<noteq> None"
  by (simp add: defines_in_def mode_fits_def)

text \<open>The only part of a type is printed in the mode of the type itself.\<close>

lemma single_part:
  assumes "rust_ok cx rk" "named_id cx i" "defines_in (rc_resolve cx) i mode"
    "parts (kind_at (rc_resolve cx) i) = [u]"
  shows "safe (print_in_mode cx u mode)"
proof (rule good_printerD [OF good_in_mode [OF assms(1)] part_inner [OF assms(1-3)]])
  let ?r = "rc_resolve cx"
  show u: "u \<in> set (parts (kind_at ?r i))" using assms(4) by simp
  have "\<not> is_borrow_type ?r (TId i)" using assms(4) by (auto simp: is_borrow_type_def parts_def split: kind.splits)
  then have "borrows ?r (TId i) \<longleftrightarrow> borrows ?r u" using assms(4) by (simp add: contains_TId)
  moreover have "\<not> borrows ?r TString" by (simp add: prim_borrows)
  ultimately show "mode_fits ?r u mode" using assms(3) by (auto simp: defines_in_def mode_fits_def)
qed

section \<open>Structs and enums\<close>

lemma member_in: "((k, x), y) \<in> set (zip (enumerate n xs) ys) \<Longrightarrow> x \<in> set xs"
  by (auto dest!: set_zip_leftD simp: in_set_enumerate_eq)

lemma record_struct_safe:
  assumes "\<And>name t. (name, t) \<in> set fs \<Longrightarrow> safe (with_res (filter_mode cx t mode) (print_in_mode cx t))"
  shows "safe (record_struct cx i fs x injected attrs name mode)"
  unfolding record_struct_def
  by (intro safe_intros) (auto intro!: safe_intros assms dest: member_in simp del: seq.simps)

lemma record_debug_safe [safe_intros]: "safe (record_debug cx fs name mode)"
  unfolding record_debug_def by (intro safe_intros) (auto intro!: safe_intros simp del: seq.simps)

lemma record_error_safe [safe_intros]: "safe (record_error cx name mode)"
  unfolding record_error_def by (intro safe_intros)

lemma enum_body_safe:
  assumes "\<And>c t. (c, Some t) \<in> set cases \<Longrightarrow> safe (with_res (filter_mode cx t mode) (print_in_mode cx t))"
  shows "safe (enum_body cx i cases x injected attrs name mode)"
  unfolding enum_body_def
  by (intro safe_intros)
    (auto intro!: safe_intros assms dest: member_in simp del: seq.simps split: option.split)

lemma enum_error_safe [safe_intros]: "safe (enum_error cx name mode)"
  unfolding enum_error_def by (intro safe_intros)

lemma named_facts:
  assumes "rust_ok cx rk" "named_id cx i"
  obtains x ty_name where "info cx i = Inr x" "full_name cx i = Inr ty_name"
proof -
  have i: "valid_id (rc_resolve cx) i" "has_name (rc_resolve cx) i" using assms(2) by (simp_all add: named_id_def)
  show ?thesis
    using that rust_okD(6) [OF assms(1) i(1)] full_name_ok [OF assms(1) i, of "rc_env cx"]
    unfolding full_name_def by blast
qed

lemma record_safe:
  assumes ok: "rust_ok cx rk" and named: "named_id cx i" and k: "kind_at (rc_resolve cx) i = KRecord fs"
  shows "safe (print_typedef_record cx i fs)"
proof (rule safeI)
  fix g
  obtain x ty_name where x: "info cx i = Inr x" "full_name cx i = Inr ty_name" by (rule named_facts [OF ok named])
  obtain injected g1 where a: "additional_type_attrs cx ty_name g = (injected, g1)" by fastforce
  obtain attrs g2 where b: "members_attrs cx ty_name (map fst fs) g1 = (attrs, g2)" by fastforce
  have "t \<in> set (parts (kind_at (rc_resolve cx) i))" if "(c, t) \<in> set fs" for c t
    using that by (force simp: k parts_def eq_types_def)
  then have field: "safe (with_res (filter_mode cx t mode) (print_in_mode cx t))"
    if "defines_in (rc_resolve cx) i mode" "(c, t) \<in> set fs" for mode c t
    using filtered_part [OF ok named that(1)] that(2) by blast
  have "safe (with_res (modes_of cx i) (\<lambda>modes. for_each modes (\<lambda>(name, mode).
      seq [record_struct cx i fs x injected attrs name mode, record_debug cx fs name mode,
        if error x then record_error cx name mode else Inr])))"
    by (rule safe_modes [OF ok named]) (intro safe_intros record_struct_safe field, assumption+)
  from safeD [OF this, of g2] show "\<exists>s'. print_typedef_record cx i fs g = Inr s'"
    by (simp add: print_typedef_record_def x a b with_res_def)
qed

lemma variant_safe:
  assumes ok: "rust_ok cx rk" and named: "named_id cx i" and k: "kind_at (rc_resolve cx) i = KVariant cases"
  shows "safe (print_rust_enum cx i cases)"
proof (rule safeI)
  fix g
  obtain x ty_name where x: "info cx i = Inr x" "full_name cx i = Inr ty_name" by (rule named_facts [OF ok named])
  obtain injected g1 where a: "additional_type_attrs cx ty_name g = (injected, g1)" by fastforce
  obtain attrs g2 where b: "members_attrs cx ty_name (map fst cases) g1 = (attrs, g2)" by fastforce
  have "t \<in> set (parts (kind_at (rc_resolve cx) i))" if "(c, Some t) \<in> set cases" for c t
    using that by (force simp: k parts_def eq_types_def)
  then have payload: "safe (with_res (filter_mode cx t mode) (print_in_mode cx t))"
    if "defines_in (rc_resolve cx) i mode" "(c, Some t) \<in> set cases" for mode c t
    using filtered_part [OF ok named that(1)] that(2) by blast
  have "safe (with_res (modes_of cx i) (\<lambda>modes. for_each modes (\<lambda>(name, mode).
      seq [enum_body cx i cases x injected attrs name mode,
        print_rust_enum_debug mode name (map (\<lambda>(c, t). (re_upper_camel (rc_env cx) c, t)) cases),
        if error x then enum_error cx name mode else Inr])))"
    by (rule safe_modes [OF ok named]) (intro safe_intros enum_body_safe payload, assumption+)
  from safeD [OF this, of g2] show "\<exists>s'. print_rust_enum cx i cases g = Inr s'"
    by (simp add: print_rust_enum_def x a b with_res_def)
qed

lemma enum_matches_safe [safe_intros]: "safe (enum_matches cx name rows)"
  unfolding enum_matches_def by (intro safe_intros) (auto intro!: safe_intros simp del: seq.simps)

lemma enum_error_impls_safe [safe_intros]: "safe (enum_error_impls cx i name cs)"
  unfolding enum_error_impls_def by (intro safe_intros)

lemma enum_case_safe [safe_intros]: "safe (enum_case cx i ty_name kc)"
proof -
  obtain k c where kc: "kc = (k, c)" by (cases kc)
  have "safe (\<lambda>g. let (attrs, g) = additional_member_attrs cx ty_name c g in push_attrs attrs g)"
  proof (rule safeI)
    fix g
    obtain attrs g' where "additional_member_attrs cx ty_name c g = (attrs, g')" by fastforce
    then show "\<exists>s'. (let (attrs, g) = additional_member_attrs cx ty_name c g in push_attrs attrs g) = Inr s'"
      using safeD [OF safe_push_attrs] by simp
  qed
  then show ?thesis unfolding enum_case_def kc prod.case by (intro safe_intros)
qed

lemma enum_item_safe: "safe (enum_item E cx i name cs ty_name)"
proof (rule safeI)
  fix g
  obtain injected g' where a: "additional_type_attrs cx ty_name g = (injected, g')" by fastforce
  have "safe (seq [print_text ''#[repr('', print_text (int_repr_name (enum_tag E cs)), print_text ('')]'' @ nl),
      print_derives (derives_of cx name enum_derives), push_attrs injected,
      print_text (''pub enum '' @ name @ '' {'' @ nl), for_each (enumerate 0 cs) (enum_case cx i ty_name),
      print_text (''}'' @ nl)])" by (intro safe_intros)
  from safeD [OF this, of g'] show "\<exists>s'. enum_item E cx i name cs ty_name g = Inr s'"
    by (simp add: enum_item_def a del: seq.simps)
qed

lemma enum_safe:
  assumes "rust_ok cx rk" "named_id cx i"
  shows "safe (print_type_enum E cx i name cs)"
proof -
  obtain x ty_name where x: "info cx i = Inr x" "full_name cx i = Inr ty_name" by (rule named_facts [OF assms])
  have "safe (print_typedef_enum E cx i name cs)"
    unfolding print_typedef_enum_def Let_def
    by (rule safe_with_res [OF x(1)]) (intro safe_intros safe_with_res [OF x(2)] enum_item_safe)
  then show ?thesis unfolding print_type_enum_def Let_def by (intro safe_intros)
qed

section \<open>Aliases\<close>

lemma single_alias_safe:
  assumes "rust_ok cx rk" "named_id cx i" "parts (kind_at (rc_resolve cx) i) = [u]"
  shows "safe (print_alias_modes cx i eq (\<lambda>mode. seq [print_in_mode cx u mode, print_text s]))"
  by (rule safe_alias_modes [OF assms(1,2)]) (intro safe_intros single_part [OF assms(1,2) _ assms(3)])

lemma result_safe:
  assumes ok: "rust_ok cx rk" and named: "named_id cx i" and k: "kind_at (rc_resolve cx) i = KResult a b"
  shows "safe (print_typedef_result cx i a b)"
  unfolding print_typedef_result_def
proof (rule safe_alias_modes [OF ok named])
  fix mode
  assume mode: "defines_in (rc_resolve cx) i mode"
  then have fits: "mode_fits (rc_resolve cx) (TId i) mode" by (simp add: defines_in_def)
  have "inner_ok cx rk (rc_fuel cx) mode u" if "a = Some u \<or> b = Some u" for u
    by (rule part_inner [OF ok named mode]) (use that k in \<open>auto simp: parts_def eq_types_def\<close>)
  then show "safe (seq [print_optional_ty cx (print_in_mode cx) a mode, print_text '','',
      print_optional_ty cx (print_in_mode cx) b mode, print_text (''>;'' @ nl)])"
    by (intro safe_intros print_optional_safe [OF ok good_in_mode [OF ok] _ fits]) blast+
qed

lemma tuple_safe:
  assumes ok: "rust_ok cx rk" and named: "named_id cx i" and k: "kind_at (rc_resolve cx) i = KTuple ts"
  shows "safe (print_type_tuple cx i ts)"
  unfolding print_type_tuple_def
  by (rule safe_alias_modes [OF ok named])
    (intro safe_intros filtered_part [OF ok named], assumption, simp add: k parts_def eq_types_def)

lemma list_safe:
  assumes ok: "rust_ok cx rk" and named: "named_id cx i" and k: "kind_at (rc_resolve cx) i = KList t"
  shows "safe (print_type_list cx i t)"
  unfolding print_type_list_def
  by (rule safe_alias_modes [OF ok named], intro safe_intros)
    (rule print_list_safe [OF ok good_in_mode [OF ok] part_inner [OF ok named] borrowed_lists],
      simp_all add: k parts_def eq_types_def)

lemma map_safe:
  assumes ok: "rust_ok cx rk" and named: "named_id cx i" and k: "kind_at (rc_resolve cx) i = KMap t u"
  shows "safe (print_type_map cx i t u)"
  unfolding print_type_map_def
  by (rule safe_alias_modes [OF ok named], intro safe_intros)
    (rule print_map_safe [OF ok good_in_mode [OF ok] part_inner [OF ok named] part_inner [OF ok named] borrowed_lists],
      simp_all add: k parts_def eq_types_def)

lemma reader_safe:
  assumes ok: "rust_ok cx rk" and named: "named_id cx i"
    and k: "kind_at (rc_resolve cx) i = KFuture t \<or> kind_at (rc_resolve cx) i = KStream t"
  shows "safe (print_type_reader cx i name reader t)"
proof -
  have i: "valid_id (rc_resolve cx) i" using named by (simp add: named_id_def)
  have "inner_ok cx rk (rc_fuel cx) owned_mode u" if "t = Some u" for u
  proof (rule inner_part [OF ok i])
    show "u \<in> set (eq_types (kind_at (rc_resolve cx) i))" using k that by (auto simp: eq_types_def)
    show "rk i < rc_fuel cx" using rust_okD(5) [OF ok i] by simp
    have "\<not> borrows (rc_resolve cx) u" using k that printableD(5,6) [OF rust_okD(2) [OF ok] i, of u] by auto
    then show "borrows (rc_resolve cx) u \<longrightarrow> tm_lifetime owned_mode \<noteq> None" by simp
  qed
  moreover have "mode_fits (rc_resolve cx) TBool owned_mode" by (rule owned_mode_fits) (simp add: prim_borrows)
  ultimately show ?thesis
    unfolding print_type_reader_def
    by (intro safe_intros print_optional_safe [OF ok good_in_mode [OF ok], of t owned_mode TBool])
qed

text \<open>What an alias stands for borrows if and only if the alias does; a resource does not.\<close>

lemma alias_borrows: "(alias_step r)\<^sup>*\<^sup>* i j \<Longrightarrow> borrows r (TId i) \<Longrightarrow> borrows r (TId j)"
proof (induction rule: rtranclp_induct)
  case (step j k)
  then have k: "kind_at r j = KType (TId k)" by (simp add: alias_step_def)
  have "\<not> is_borrow_type r (TId j)" by (simp add: is_borrow_type_def k)
  moreover have "parts (kind_at r j) = [TId k]" by (simp add: k parts_def eq_types_def)
  ultimately show ?case using step contains_TId [of r "is_borrow_type r" j] by simp
qed

lemma resource_borrows: "kind_at r i = KResource \<Longrightarrow> \<not> borrows r (TId i)"
  by (simp add: contains_TId is_borrow_type_def parts_def eq_types_def)

definition resources_exported :: "('z, 'a) rust_cx \<Rightarrow> bool" where
  "resources_exported cx \<longleftrightarrow> (\<forall>i \<in> set (rc_exported_resources cx). kind_at (rc_resolve cx) i = KResource)"

lemma alias_safe:
  assumes ok: "rust_ok cx rk" and named: "named_id cx i" and exported: "resources_exported cx"
    and k: "kind_at (rc_resolve cx) i = KType t"
  shows "safe (print_typedef_alias cx i t)"
proof -
  let ?r = "rc_resolve cx"
  have i: "valid_id ?r i" "has_name ?r i" using named by (simp_all add: named_id_def)
  have part: "parts (kind_at ?r i) = [t]" by (simp add: k parts_def eq_types_def)
  have t: "valid_ty ?r t" using acyclicD(2) [OF rust_okD(1) [OF ok] i(1), of t] by (simp add: k eq_types_def)
  obtain d where d: "dealias ?r (rc_fuel cx) i = Inr d" "(alias_step ?r)\<^sup>*\<^sup>* i d" by (rule rust_dealias [OF ok i(1)])
  obtain nm where nm: "resource_camel cx i = Inr nm" using i by (auto simp: resource_camel_def)
  let ?borrow = "seq [type_docs cx i,
      with_res (resource_camel cx i) (\<lambda>name. print_text (''pub type '' @ name @ ''Borrow<'' @ lifetime_a @ ''>'')),
      print_text '' = '', print_in_mode cx t owned_mode, print_text (''Borrow<'' @ lifetime_a @ ''>''),
      print_text ('';'' @ nl)]"
  have borrow: "safe ?borrow" if "d \<in> set (rc_exported_resources cx)"
  proof -
    have "kind_at ?r d = KResource" using exported that by (simp add: resources_exported_def)
    then have "\<not> borrows ?r (TId i)" using alias_borrows [OF d(2)] resource_borrows by blast
    then have "\<not> borrows ?r t" using inside [of t ?r i "is_borrow_type ?r"] part by auto
    then have "safe (print_in_mode cx t owned_mode)" by (intro print_in_mode_safe [OF ok t] owned_mode_fits)
    then show ?thesis by (intro safe_intros safe_with_res [OF nm])
  qed
  have e: "is_exported_resource cx i = Inr (d \<in> set (rc_exported_resources cx))"
    by (simp add: is_exported_resource_def d(1))
  have "safe (with_res (is_exported_resource cx i) (\<lambda>exported. if exported then ?borrow else Inr))"
    by (rule safe_with_res [OF e], rule safe_if [OF borrow safe_Inr])
  then show ?thesis
    unfolding print_typedef_alias_def by (intro safe_intros single_alias_safe [OF ok named part])
qed

section \<open>Every kind\<close>

lemma resource_safe:
  assumes "resource_module cx = Inr m"
  shows "safe (print_type_resource cx i name)"
proof (rule safeI)
  fix g
  obtain g1 where 1: "type_docs cx i g = Inr g1" using safeD [OF safe_type_docs] by blast
  obtain resource g2 where 2: "path_to_resource cx g1 = (resource, g2)" by fastforce
  obtain g3 where 3: "print_pieces
      (if rc_in_import cx then imported_resource (to_upper_camel_case (rc_env cx) name) resource
       else exported_resource (to_upper_camel_case (rc_env cx) name) resource (runtime_path (rc_opts cx))) g2 = Inr g3"
    using safeD [OF safe_print_pieces] by blast
  obtain wasm_resource g4 where 4: "path_to_wasm_resource cx g3 = (wasm_resource, g4)" by fastforce
  have 5: "\<exists>d. declare_import m n ''drop'' [WI32] [] = Inr d" for n
    by (simp add: declare_import_def import_signature_def)
  then obtain d where "declare_import m (''[resource-drop]'' @ name) ''drop'' [WI32] [] = Inr d" by blast
  with 1 2 3 4 assms show "\<exists>s'. print_type_resource cx i name g = Inr s'"
    by (simp add: print_type_resource_def print_pieces_def)
qed

lemma flags_safe:
  assumes "rust_flags_repr_new (flags_repr_of E fs) = Inr repr"
  shows "safe (print_type_flags E cx i name fs)"
  unfolding print_type_flags_def
  by (intro safe_intros safe_with_res [OF assms]) (auto intro!: safe_intros simp del: seq.simps)

text \<open>
  What a definition needs beside well-formed types: that the type has one, that the flags fit in 128
  bits, and that a resource is imported or belongs to an interface.
\<close>

definition definable :: "('z, 'a) wit_env \<Rightarrow> ('z, 'a) rust_cx \<Rightarrow> tid \<Rightarrow> bool" where
  "definable E cx i \<longleftrightarrow>
     named_id cx i \<and> resources_exported cx \<and>
     (case kind_at (rc_resolve cx) i of
        KHandle _ \<Rightarrow> False
      | KFlags fs \<Rightarrow> \<exists>repr. rust_flags_repr_new (flags_repr_of E fs) = Inr repr
      | KResource \<Rightarrow> \<exists>m. resource_module cx = Inr m
      | _ \<Rightarrow> True)"

lemma rust_define_safe:
  assumes ok: "rust_ok cx rk" and def: "definable E cx i"
  shows "safe (define_type (rust_interface_generator E cx) (rc_resolve cx) name i)"
proof -
  let ?r = "rc_resolve cx"
  have named: "named_id cx i" and exported: "resources_exported cx" using def by (simp_all add: definable_def)
  have i: "valid_id ?r i" using named by (simp add: named_id_def)
  note known = acyclicD(1) [OF rust_okD(1) [OF ok] i]
  have at: "type_at ?r i = Inr (r_types ?r ! i)" using i by simp
  note simps = define_type_def [abs_def] at rust_interface_generator_def
  show ?thesis
  proof (cases "kind_at ?r i")
    case (KRecord fs)
    with record_safe [OF ok named KRecord] show ?thesis by (simp add: simps)
  next
    case KResource
    with def resource_safe show ?thesis by (auto simp: simps definable_def)
  next
    case (KFlags fs)
    with def flags_safe show ?thesis by (fastforce simp: simps definable_def)
  next
    case (KTuple ts)
    with tuple_safe [OF ok named KTuple] show ?thesis by (simp add: simps)
  next
    case (KVariant cs)
    with variant_safe [OF ok named KVariant] show ?thesis by (simp add: simps)
  next
    case (KEnum cs)
    with enum_safe [OF ok named] show ?thesis by (simp add: simps)
  next
    case (KOption t)
    with single_alias_safe [OF ok named, of t] show ?thesis
      by (simp add: simps print_typedef_option_def parts_def eq_types_def)
  next
    case (KResult a b)
    with result_safe [OF ok named KResult] show ?thesis by (simp add: simps)
  next
    case (KList t)
    with list_safe [OF ok named KList] show ?thesis by (simp add: simps)
  next
    case (KMap t u)
    with map_safe [OF ok named KMap] show ?thesis by (simp add: simps)
  next
    case (KFixedLengthList t n)
    with single_alias_safe [OF ok named, of t] show ?thesis
      by (simp add: simps print_type_fixed_length_list_def parts_def eq_types_def)
  next
    case (KFuture t)
    with reader_safe [OF ok named] show ?thesis by (simp add: simps)
  next
    case (KStream t)
    with reader_safe [OF ok named] show ?thesis by (simp add: simps)
  next
    case (KType t)
    with alias_safe [OF ok named exported KType] show ?thesis by (simp add: simps)
  qed (use def known in \<open>simp_all add: definable_def\<close>)
qed

end
