(* ===== verification/Rust_Output_Properties.thy ===== *)
theory Rust_Output_Properties
  imports Rust_World Rust_Define_Total Rust_Demo
begin

text \<open>
  The properties of what the Rust generator writes as a whole: the definitions of types, the runtime
  module, the tree of modules, the section that describes the world, and the errors that are reported
  for options that had no effect.
\<close>

section \<open>Definitions of types\<close>



section \<open>The runtime module\<close>

text \<open>
  C19: The runtime module is complete and repeats nothing: the loop over the requested items ends, it
  emits exactly the items that were requested or are required by an emitted one, each once, and the
  text is that of these items in the order in which they were emitted.
\<close>

theorem runtime_module_closed:
  "\<exists>emitted w'. drain_runtime opts ([], w) = (emitted, w') \<and> distinct emitted \<and>
    set emitted = requires_rel\<^sup>* `` set (rw_rt_module w) \<and> rw_rt_module w' = [] \<and>
    rw_src w' = items_text opts w (rw_src w) emitted"
  by (rule runtime_items [of opts w w]) blast

section \<open>Modules\<close>

text \<open>
  C20: The modules are nested as their paths say: every text is written between the braces of the
  modules that its path names, the texts with the same path in the order in which they were generated,
  and on every level each module is opened once.
\<close>

theorem modules_nested:
  assumes "\<forall>(_, path) \<in> set modules. path \<noteq> []"
  shows "\<exists>tree. emit_modules opts modules w =
      Inr (w\<lparr>rw_src := foldl (\<lambda>me e. play opts e me) (rw_src w) (module_events True tree)\<rparr>) \<and>
    sorted_tree tree \<and> texts_at [] (module_events True tree) = Some ([], listing [] tree) \<and>
    (\<forall>p. texts_under p (listing [] tree) = map fst (filter (\<lambda>(_, path). butlast path = p) modules))"
proof -
  obtain tree where tree: "module_tree modules module_default = Inr tree" "sorted_tree tree"
    "\<And>p. texts_under p (listing [] tree) =
      texts_under p (listing [] module_default) @ map fst (filter (\<lambda>(_, path). butlast path = p) modules)"
    using module_tree_result [OF assms sorted_tree_default] by metis
  then show ?thesis
    by (intro exI [of _ tree]) (simp add: emit_modules_def emit_module_plays texts_at_events module_default_def)
qed

theorem modules_nested_witness:
  "\<exists>tree. emit_modules rust_demo_opts [(''x'', [''a'', ''b'']), (''y'', [''a'', ''c''])] (ig_gen rust_demo_gen) =
      Inr ((ig_gen rust_demo_gen)\<lparr>rw_src :=
        foldl (\<lambda>me e. play rust_demo_opts e me) (rw_src (ig_gen rust_demo_gen)) (module_events True tree)\<rparr>) \<and>
    texts_under [''a''] (listing [] tree) = [''x'', ''y'']"
proof -
  have "\<forall>(_, path) \<in> set [(''x'', [''a'', ''b'']), (''y'', [''a'', ''c''])]. path \<noteq> []" by simp
  from modules_nested [OF this, of rust_demo_opts "ig_gen rust_demo_gen"] show ?thesis by auto
qed

section \<open>A run\<close>

definition rust_demo_params :: "(nat, nat) rust_params" where
  "rust_demo_params =
     \<lparr>rp_env = rust_demo_env, rp_wit = demo_env, rp_opts = rust_demo_opts,
      rp_section = \<lparr>se_version = ''0.1'', se_package = pn_name, se_encode = (\<lambda>_ _. Some [0, 0x61, 0x22])\<rparr>,
      rp_sizes = (\<lambda>_. demo_sizes), rp_live = (\<lambda>_. []), rp_world_live = (\<lambda>_ _. []), rp_order = (\<lambda>_. []),
      rp_unparse = Some, rp_fuel = 8\<rparr>"


lemma rust_demo_params_simps [simp]:
  "rp_opts rust_demo_params = rust_demo_opts" "rp_env rust_demo_params = rust_demo_env"
  by (simp_all add: rust_demo_params_def)

lemma put_frame [simp]:
  "rw_with (put t w) = rw_with w" "rw_with (put_pieces ps w) = rw_with w"
  "rw_async (put t w) = rw_async w" "rw_async (put_pieces ps w) = rw_async w"
  by (simp_all add: put_def put_pieces_def)

lemma section_frame [simp]:
  "rw_with (section_literal bytes w) = rw_with w" "rw_with (link_helper opts f w) = rw_with w"
  "rw_async (section_literal bytes w) = rw_async w" "rw_async (link_helper opts f w) = rw_async w"
  by (simp_all add: section_literal_def link_helper_def Let_def split: prod.split)





section \<open>The description of the world\<close>




section \<open>Options without effect\<close>




section \<open>The names of interfaces\<close>

definition needs_with :: "('z, 'a) rust_params \<Rightarrow> resolve \<Rightarrow> bool \<Rightarrow> rust_wasm \<Rightarrow> world_key \<Rightarrow> bool" where
  "needs_with P r is_export w key \<longleftrightarrow>
     \<not> is_export \<and> gc_get (rw_with w) (re_name_world_key (rp_env P) r key) = None"

definition is_remapped :: "('z, 'a) rust_params \<Rightarrow> resolve \<Rightarrow> bool \<Rightarrow> rust_wasm \<Rightarrow> world_key \<Rightarrow> bool" where
  "is_remapped P r is_export w key \<longleftrightarrow>
     \<not> is_export \<and> (\<exists>p. gc_get (rw_with w) (re_name_world_key (rp_env P) r key) = Some (Remap p))"

lemma name_interface_missing:
  "needs_with P r is_export w key \<Longrightarrow>
    name_interface P r i key is_export w = Inr (Inl (Missing_With (re_name_world_key (rp_env P) r key)))"
  by (simp add: name_interface_def needs_with_def)

lemma name_interface_named:
  assumes "name_interface P r i key is_export w = Inr out" "\<not> needs_with P r is_export w key"
  obtains nm w' where "out = Inr (in_remapped nm, w')" "rw_with w' = rw_with w"
    "rw_generated_types w' = insert (re_name_world_key (rp_env P) r key) (rw_generated_types w)"
    "rw_interface_names w i = None" "rw_interface_names w' = (rw_interface_names w)(i \<mapsto> nm)"
    "in_remapped nm = is_remapped P r is_export w key"
    "if in_remapped nm then in_path nm = ''__with_name'' @ decimal (rw_with_name_counter w) \<and>
        rw_with_name_counter w' = Suc (rw_with_name_counter w)
      else rw_with_name_counter w' = rw_with_name_counter w"
proof -
  let ?k = "re_name_world_key (rp_env P) r key"
  define remapping where "remapping = (if is_export then Some Generate else gc_get (rw_with w) ?k)"
  obtain g where g: "remapping = Some g" using assms(2)
    unfolding remapping_def needs_with_def by (cases is_export) auto
  have rm: "is_remapped P r is_export w key \<longleftrightarrow> (\<exists>p. g = Remap p)"
    using g by (auto simp: remapping_def is_remapped_def split: if_splits)
  have opt: "(if is_export then Some Generate else gc_get (rw_with w) ?k) = Some g" using g remapping_def by simp
  note run = assms(1) [unfolded name_interface_def Let_def opt option.case]
  show thesis
  proof (cases g)
    case (Remap p)
    let ?nm = "\<lparr>in_remapped = True, in_path = ''__with_name'' @ decimal (rw_with_name_counter w)\<rparr>"
    show thesis
      by (rule that [of ?nm "snd (projr out)"]) (use run in \<open>auto simp: Remap rm put_pieces_def split: if_splits\<close>)
  next
    case Generate
    obtain path where path: "compute_module_path (rp_env P) key r is_export = Inr path"
      using run Generate by (auto simp: res_simps)
    let ?nm = "\<lparr>in_remapped = False, in_path = join ''::'' path\<rparr>"
    show thesis
      by (rule that [of ?nm "snd (projr out)"]) (use run in \<open>auto simp: Generate path rm split: if_splits\<close>)
  qed
qed

lemma needs_with_cong: "rw_with w' = rw_with w \<Longrightarrow> needs_with P r e w' = needs_with P r e w"
  "rw_with w' = rw_with w \<Longrightarrow> is_remapped P r e w' = is_remapped P r e w"
  by (auto simp: needs_with_def is_remapped_def fun_eq_iff)

text \<open>
  What naming a list of interfaces leaves behind when it succeeds: the \<open>with\<close> options are untouched,
  every key counts as generated, every interface has a name, each was without one before, and all
  other names are as they were.
\<close>

definition names_given :: "('z, 'a) rust_params \<Rightarrow> resolve \<Rightarrow> bool \<Rightarrow> rust_wasm \<Rightarrow>
    (world_key \<times> iface_id) list \<Rightarrow> rust_wasm \<Rightarrow> bool" where
  "names_given P r is_export w ks w' \<longleftrightarrow>
     rw_with w' = rw_with w \<and>
     rw_generated_types w' =
       rw_generated_types w \<union> (\<lambda>(key, _). re_name_world_key (rp_env P) r key) ` set ks \<and>
     (\<forall>(key, i) \<in> set ks. \<exists>nm. rw_interface_names w' i = Some nm \<and>
       in_remapped nm = is_remapped P r is_export w key) \<and>
     (\<forall>i. if i \<in> snd ` set ks then rw_interface_names w i = None
       else rw_interface_names w' i = rw_interface_names w i)"

lemma names_given_Cons:
  assumes "name_interface P r i key is_export w = Inr (Inr (b, w1))" "\<not> needs_with P r is_export w key"
    "names_given P r is_export w1 ks w'"
  shows "names_given P r is_export w ((key, i) # ks) w'"
proof -
  obtain nm where nm: "rw_with w1 = rw_with w"
    "rw_generated_types w1 = insert (re_name_world_key (rp_env P) r key) (rw_generated_types w)"
    "rw_interface_names w i = None" "rw_interface_names w1 = (rw_interface_names w)(i \<mapsto> nm)"
    "in_remapped nm = is_remapped P r is_export w key"
    by (rule name_interface_named [OF assms(1,2)]) auto
  note w' = assms(3) [unfolded names_given_def needs_with_cong [OF nm(1)]]
  have old: "if j \<in> snd ` set ks then rw_interface_names w1 j = None
      else rw_interface_names w' j = rw_interface_names w1 j" for j
    using w' by blast
  have i: "i \<notin> snd ` set ks" using old [of i] nm(4) by (simp split: if_splits)
  then have "rw_interface_names w' i = Some nm" using old [of i] nm(4) by simp
  moreover have "if j \<in> snd ` set ((key, i) # ks) then rw_interface_names w j = None
      else rw_interface_names w' j = rw_interface_names w j" for j
    using old [of j] nm(3,4) i by (cases "j = i") (simp_all split: if_splits)
  ultimately show ?thesis using w' nm(1,2,5) unfolding names_given_def by simp
qed

lemma name_interfaces_result:
  assumes "name_interfaces P r is_export items w = Inr out"
  shows "case filter (\<lambda>(key, _). needs_with P r is_export w key) (interfaces_of items) of
      (key, _) # _ \<Rightarrow> out = Inl (Missing_With (re_name_world_key (rp_env P) r key))
    | [] \<Rightarrow> (\<exists>w'. out = Inr w' \<and> names_given P r is_export w (interfaces_of items) w')"
  using assms
proof (induction items arbitrary: w)
  case Nil
  then show ?case by (auto simp: names_given_def)
next
  case (Cons x items)
  obtain key item where x: "x = (key, item)" by (cases x)
  have other: ?case
    if "interfaces_of (x # items) = interfaces_of items" "name_interfaces P r is_export items w = Inr out"
    unfolding that(1) by (rule Cons.IH [OF that(2)])
  show ?case
  proof (cases item)
    case (WIInterface i)
    show ?thesis
    proof (cases "needs_with P r is_export w key")
      case True
      with Cons.prems show ?thesis by (auto simp: x WIInterface of_Cons name_interface_missing)
    next
      case False
      let ?missing = "filter (\<lambda>(key, _). needs_with P r is_export w key) (interfaces_of items)"
      obtain o1 where o1: "name_interface P r i key is_export w = Inr o1"
        using Cons.prems by (cases "name_interface P r i key is_export w") (auto simp: x WIInterface)
      obtain b w1 where nm: "o1 = Inr (b, w1)" "rw_with w1 = rw_with w"
        by (rule name_interface_named [OF o1 False], rule that)
      have "name_interfaces P r is_export items w1 = Inr out"
        using Cons.prems by (simp add: x WIInterface o1 nm(1))
      note IH = Cons.IH [OF this, unfolded needs_with_cong [OF nm(2), of P r is_export]]
      show ?thesis
      proof (cases ?missing)
        case (Cons m ms)
        with IH False show ?thesis by (cases m) (simp add: x WIInterface of_Cons)
      next
        case Nil
        with IH obtain w' where "out = Inr w'" "names_given P r is_export w1 (interfaces_of items) w'" by auto
        with names_given_Cons [OF o1 [unfolded nm(1)] False] Nil False show ?thesis
          by (simp add: x WIInterface of_Cons)
      qed
    qed
  qed (use other Cons.prems in \<open>simp_all only: x of_Cons name_interfaces.simps world_item.case append_Nil\<close>)
qed

text \<open>
  C22: Naming the interfaces of a world stops at the first import that has no remapping, with an error
  that gives its key, and otherwise names every interface: it is remapped exactly if it is imported and
  \<open>with\<close> gives a path for it, and its key counts as generated.
\<close>

theorem missing_with_reported:
  assumes "name_interfaces P r is_export items w = Inr out"
  shows "case filter (\<lambda>(key, _). needs_with P r is_export w key) (interfaces_of items) of
      (key, _) # _ \<Rightarrow> out = Inl (Missing_With (re_name_world_key (rp_env P) r key))
    | [] \<Rightarrow> (\<exists>w'. out = Inr w' \<and> rw_with w' = rw_with w \<and>
        rw_generated_types w' =
          rw_generated_types w \<union> (\<lambda>(key, _). re_name_world_key (rp_env P) r key) ` set (interfaces_of items) \<and>
        (\<forall>(key, i) \<in> set (interfaces_of items). \<exists>nm. rw_interface_names w' i = Some nm \<and>
          in_remapped nm = is_remapped P r is_export w key) \<and>
        (\<forall>i. if i \<in> snd ` set (interfaces_of items) then rw_interface_names w i = None
          else rw_interface_names w' i = rw_interface_names w i))"
  by (rule name_interfaces_result [OF assms, unfolded names_given_def])

theorem missing_with_reported_witness:
  "name_interfaces rust_demo_params demo_resolve False [(WKName ''x'', WIInterface 0)] (ig_gen rust_demo_gen) =
    Inr (Inl (Missing_With ''x''))"
proof -
  let ?w = "ig_gen rust_demo_gen"
  have miss: "needs_with rust_demo_params demo_resolve False ?w (WKName ''x'')"
    by (simp add: needs_with_def rust_demo_gen_def rust_wasm_new_def gc_get_def)
  have "name_interfaces rust_demo_params demo_resolve False [(WKName ''x'', WIInterface 0)] ?w =
      Inr (Inl (Missing_With (re_name_world_key rust_demo_env demo_resolve (WKName ''x''))))"
    using name_interface_missing [OF miss] by simp
  from missing_with_reported [OF this] miss this show ?thesis
    by (simp add: of_Cons rust_demo_env_def demo_world_key_def)
qed

section \<open>Options on the command line\<close>

lemma split_once_Some: "split_once c s = Some (a, b) \<longleftrightarrow> s = a @ c # b \<and> c \<notin> set a"
proof (induction s arbitrary: a)
  case (Cons x s)
  then show ?case by (cases a) (auto simp: map_prod_def split: prod.split)
qed simp

lemma split_once_None: "split_once c s = None \<longleftrightarrow> c \<notin> set s"
  by (induction s) auto

text \<open>
  An attribute given on the command line is split at its first equals sign: parsing succeeds
  exactly on the texts that consist of a selector without an equals sign, one, and an attribute that is
  not blank, and it returns these two; so an attribute may contain the sign itself.
\<close>

theorem parse_attribute_roundtrip:
  "parse_attribute s = Inr (sel, attr) \<longleftrightarrow> s = sel @ ''='' @ attr \<and> CHR ''='' \<notin> set sel \<and> trim attr \<noteq> []"
proof -
  have "parse_attribute s = Inr (sel, attr) \<longleftrightarrow> split_once CHR ''='' s = Some (sel, attr) \<and> trim attr \<noteq> []"
    by (auto simp: parse_attribute_def split: option.splits if_splits)
  then show ?thesis by (auto simp: split_once_Some)
qed

end
