(* ===== verification/Spec2Isabelle.thy ===== *)
theory Spec2Isabelle
  imports Abi_Properties Abi_Block_Calls Type_Properties Rt_Properties Rt_Safety Core_Properties
    Rust_Properties Rust_Output_Properties
begin

text \<open>
  wit-bindgen reads a world described in WIT and generates the code that connects a guest program to
  it through the Canonical ABI of the component model. This development models the part that all
  generators share (\<open>crates/core\<close>), the Rust generator (\<open>crates/rust\<close>) and the runtime that Rust guests
  link against (\<open>crates/guest-rust/src/rt\<close>).

  \<^bold>\<open>How the parts interact.\<close> The driver (\<open>core/src/lib.rs\<close>) walks a world and calls a generator.
  The generator analyses the types (\<open>core/src/types.rs\<close>), and for every function it runs \<open>abi::call\<close>
  (\<open>core/src/abi.rs\<close>), which describes the function as a sequence of stack instructions and gives them
  one by one to a backend, the \<open>Bindgen\<close> trait. The Rust backend (\<open>rust/src/bindgen.rs\<close>) turns every
  instruction into text; around these bodies the generator of an interface (\<open>rust/src/interface.rs\<close>)
  writes types, signatures, traits and macros, and \<open>RustWasm\<close> (\<open>rust/src/lib.rs\<close>) puts the modules, the
  runtime module and the section that describes the world into one file. The generated code calls the
  runtime, which keeps the state of tasks, streams, futures and calls. The theories follow this order.

  \<^bold>\<open>Shared vocabulary.\<close> \<open>Prelude\<close>: the ways Rust code stops as the datatype of panics, \<open>res\<close> for a
  checked value, \<open>step\<close> for a statement over an explicit state, \<open>seq\<close> and \<open>for_each\<close> for blocks and
  loops. \<open>Wit\<close>: the data of the crate \<open>wit_parser\<close> that the code matches on, as an arena of types in
  which an id is an index; its functions (sizes, flattening, signatures, names) are fields of records
  that the definitions take, with named contracts.

  \<^bold>\<open>The ABI generator, \<open>core/src/abi.rs\<close>.\<close>
  \<^item> \<open>Abi_Instruction\<close>: the instructions with their operand and result counts, bitcasts and \<open>cast\<close>.
  \<^item> \<open>Abi_Generator\<close>: \<open>emit\<close> and the stack machine; \<open>lower\<close>, \<open>write_to_memory\<close>, \<open>lift\<close> and
    \<open>read_from_memory\<close>. \<open>Abi_Dealloc\<close>: \<open>needs_deallocate\<close> and the deallocation. \<open>Abi_Call\<close>: \<open>call\<close>,
    \<open>post_return\<close> and the other entry points.
  \<^item> \<open>Abi_Effect\<close> states the effect of a step on the operand stack and collects the rules for it;
    \<open>Abi_Stack\<close>, \<open>Abi_Lift_Stack\<close>, \<open>Abi_Dealloc_Stack\<close> and \<open>Abi_Call_Stack\<close> prove that every operation
    has the effect its type prescribes, so that no assertion, index or \<open>unwrap\<close> fails.
  \<^item> \<open>Abi_Blocks\<close>, \<open>Abi_Block_Discipline\<close> and \<open>Abi_Block_Calls\<close>: the contract of a backend that collects
    code in blocks is the locale \<open>block_backend\<close>; in it, a whole call opens and takes its blocks in
    balance. \<open>Abi_Backend\<close> is a backend that records instructions, for evaluation.

  \<^bold>\<open>The type analysis, \<open>core/src/types.rs\<close>.\<close> \<open>Union_Find\<close>; \<open>Struct_Equal\<close> (\<open>is_structurally_equal\<close> against
  equality of unfolded type trees); \<open>Type_Info\<close> and \<open>Type_Usage\<close> (the flags of \<open>analyze\<close> against what a
  type contains and how functions use it); \<open>Type_Analysis\<close> (\<open>collect_equal_types\<close>).

  \<^bold>\<open>The rest of \<open>core\<close>.\<close> \<open>Core_Async\<close> (\<open>async_.rs\<close>), \<open>Core_Names\<close> (\<open>ns.rs\<close>, \<open>path.rs\<close>), \<open>Core_Source\<close>
  (\<open>source.rs\<close>), \<open>Core_Driver\<close> (\<open>lib.rs\<close>: the walk over a world refines the list of calls it plans).

  \<^bold>\<open>The Rust generator, \<open>crates/rust/src\<close>.\<close>
  \<^item> \<open>Rust_Names\<close> (\<open>lib.rs\<close>): identifiers, imports, casts, options. \<open>Rust_Types\<close> (\<open>interface.rs\<close>): the mode of
    every level of a type, printing, paths, \<open>modes_of\<close>.
  \<^item> \<open>Rust_Bindgen\<close> and \<open>Rust_Emit\<close> (\<open>bindgen.rs\<close>): the state \<open>function_bindgen\<close>, its blocks and one
    definition per instruction, dispatched by \<open>rust_emit\<close>.
  \<^item> \<open>Rust_Printing\<close>: the modes that are computed fit the types, so printing never panics.
    \<open>Rust_Backend\<close>: \<open>FunctionBindgen\<close> interprets \<open>block_backend\<close>, so \<open>Rust_Properties\<close> has whole calls.
  \<^item> \<open>Rust_State\<close>: \<open>RustWasm\<close> as \<open>rust_wasm\<close>; the state of an interface's generator is \<open>iface_gen\<close>, which
    holds it, and what does not change while an interface is generated is \<open>rust_cx\<close>.
  \<^item> \<open>Rust_Define\<close> (\<open>interface.rs\<close>): the definition of every kind of type, with docs, attributes, derives
    and the impls of \<open>Debug\<close>, \<open>Display\<close> and \<open>Error\<close>; \<open>Rust_Define_Total\<close>: it never panics.
  \<^item> \<open>Rust_Function\<close> (\<open>interface.rs\<close>): signatures, imports and exports, synchronous and asynchronous, the
    payload tables of futures and streams, guest traits, the macro that exports an interface.
    \<open>Rust_Interface\<close>: the return area, the module of an interface, stubs.
  \<^item> \<open>Rust_Modules\<close>, \<open>Rust_Runtime\<close>, \<open>Rust_Section\<close> (\<open>lib.rs\<close>): the tree of modules and where its texts
    stand; the runtime items and the closure of what they require; the literal that embeds the encoded
    world, which \<open>read_bytes\<close> reads back as the compiler does; the export macro.
  \<^item> \<open>Rust_World\<close> (\<open>lib.rs\<close>): \<open>RustWasm\<close> as a \<open>world_generator\<close> of the driver, from the preamble and the names of
    interfaces to \<open>finish\<close>, and the options given on the command line. \<open>Rust_Demo\<close> is a concrete instance.

  \<^bold>\<open>The runtime, \<open>crates/guest-rust/src/rt\<close>.\<close>
  \<^item> \<open>Rt_Codes\<close> (events, status and return codes), \<open>Rt_Memory\<close> (\<open>Cleanup\<close>, \<open>cabi_realloc\<close> over an allocator
    whose calls are logged), \<open>Rt_Abi_Buffer\<close>.
  \<^item> \<open>Rt_Shared\<close>: the shared half of a task, waitable sets, wake-ups, over a store of tasks and completion
    cells. \<open>Rt_Waitable\<close>: \<open>WaitableOperation\<close> over a record of the methods of \<open>WaitableOp\<close>. \<open>Rt_Protocol\<close>:
    what an implementation must keep is the locale \<open>waitable_protocol\<close>; \<open>Rt_Lifecycle\<close>: polls, deliveries,
    cancellations, task switches and host moves as a step relation whose reachable states keep the
    invariant.
  \<^item> \<open>Rt_Stream\<close>, \<open>Rt_Stream_Read\<close>, \<open>Rt_Future\<close>, \<open>Rt_Future_Writer\<close>, \<open>Rt_Subtask\<close>: the operations, each
    an interpretation of \<open>waitable_protocol\<close>; \<open>Rt_Stream_Loops\<close>: loops over whole streams. \<open>Rt_Task\<close>: the
    event loop, \<open>block_on\<close>, the inter-task stream. \<open>Rt_Safety\<close>: exact accounts of memory and progress.

  The theories \<open>Abi_Properties\<close>, \<open>Type_Properties\<close>, \<open>Core_Properties\<close>, \<open>Rt_Properties\<close>, \<open>Rt_Safety\<close>,
  \<open>Rust_Properties\<close> and \<open>Rust_Output_Properties\<close> hold the properties, each with a run on a concrete
  instance where it has hypotheses.

  \<^bold>\<open>Fuel.\<close> Recursion through the arena of types has fuel, and types are ranked by a function that
  falls at every step into a part; the theorems state that this fuel is enough: \<open>2 * rank + 2\<close> for the
  ABI generator, \<open>3 * (rank + rank) + 1\<close> for structural equality, \<open>2 * (rank + 1)\<close> for the
  analysis, \<open>rank + 1\<close> for \<open>dealias\<close>, more than \<open>rank + 1\<close> for printing. The event loop needs one unit more than
  the host has events, \<open>write_all\<close> and \<open>collect\<close> one more than there are items, and \<open>Ns::tmp\<close> one more
  than there are names.

  \<^bold>\<open>Choices.\<close> A \<open>usize\<close> is a natural number except where the code wraps, which is written out; a
  \<open>debug_assert!\<close> counts as an assertion; characters are the code points below 256; the counter of \<open>Ns\<close>
  is unbounded; \<open>write!\<close> pushes its pieces one by one. A \<open>TryLock\<close> is never held across other code, so
  it is not in the state. Tasks are those of version 2, whose wakers refer to the shared half; the record
  of a dead task stays in the store and references of wakers are not counted. User futures and the host
  are parameters. So are the conversions of case, the docs, the names and the layouts that come from other
  crates, the encoder of worlds and the formatter; \<open>{:?}\<close> is taken to write its text at once, and a set
  that the code sorts before use is kept as a list or a set.

  \<^bold>\<open>Not modelled.\<close> The backends for other languages (C, C++, C#, Go, MoonBit, Markdown), which have the same
  structure as the Rust one over other texts. Of the Rust generator: \<open>generate_to_out_dir\<close>, which reads
  and writes files, and \<open>type_builtin\<close>, which nothing calls. The command line, the test runner and the
  macros are glue. Of the runtime: \<open>spawn.rs\<close> and \<open>futures_stream.rs\<close> wrap the crate \<open>futures\<close>,
  \<open>error_context.rs\<close> and \<open>cabi.rs\<close> declare imports, and \<open>run_ctors_once\<close> calls code of the linker.
\<close>

end
